(* ===== verification/Py_Prelude.thy ===== *)
theory Py_Prelude
  imports Py_Unicode "HOL-Library.Sublist"
begin

text \<open>
  Python strings and values.  A \<open>str\<close> is the list of its code points (\<^typ>\<open>nat list\<close>), so
  lengths, slices and comparisons count what Python counts; \<open>u\<close> turns an ASCII literal into
  such a list and characters beyond ASCII are written as numbers with the character named in a
  comment.  The theory holds the string methods the program uses, the decimal printing and
  parsing of \<open>str(int)\<close> and \<open>int(str)\<close>, the dynamically typed values of JSON rows, and the
  collections of simplification rules the components share.
\<close>

named_theorems py_defs \<open>definitions of string operations, for evaluation\<close>
named_theorems py_str \<open>facts on string operations\<close>

type_synonym pystr = "nat list"

definition u :: "string \<Rightarrow> pystr" where
  [py_defs]: "u s = map of_char s"

section \<open>Searching\<close>

fun starts_with :: "pystr \<Rightarrow> pystr \<Rightarrow> bool" where
  "starts_with [] s = True"
| "starts_with (p # ps) [] = False"
| "starts_with (p # ps) (c # cs) = (p = c \<and> starts_with ps cs)"

definition ends_with :: "pystr \<Rightarrow> pystr \<Rightarrow> bool" where
  "ends_with p s = starts_with (rev p) (rev s)"

text \<open>\<open>p in s\<close>\<close>

fun contains :: "pystr \<Rightarrow> pystr \<Rightarrow> bool" where
  "contains p [] = (p = [])"
| "contains p (c # cs) = (starts_with p (c # cs) \<or> contains p cs)"

text \<open>\<open>s.find(p)\<close>, with \<^const>\<open>None\<close> for -1\<close>

fun find_sub :: "pystr \<Rightarrow> pystr \<Rightarrow> nat option" where
  "find_sub p [] = (if p = [] then Some 0 else None)"
| "find_sub p (c # cs) =
     (if starts_with p (c # cs) then Some 0 else map_option Suc (find_sub p cs))"

text \<open>\<open>s.find(p, i)\<close>\<close>

definition find_from :: "pystr \<Rightarrow> pystr \<Rightarrow> nat \<Rightarrow> nat option" where
  [py_defs]: "find_from p s i =
     (if length s < i then None else map_option (\<lambda>k. i + k) (find_sub p (drop i s)))"

lemma starts_with_prefix [py_str]: "starts_with p s = prefix p s"
  by (induction p s rule: starts_with.induct) auto

lemma ends_with_suffix [py_str]: "ends_with p s = suffix p s"
  by (simp add: ends_with_def starts_with_prefix suffix_to_prefix)

lemma contains_sublist [py_str]: "contains p s = sublist p s"
  by (induction s) (auto simp: starts_with_prefix sublist_Cons_right)

lemma contains_iff: "contains p s \<longleftrightarrow> (\<exists>xs ys. s = xs @ p @ ys)"
  by (simp add: contains_sublist sublist_def)

lemma contains_refl [simp]: "contains s s"
  by (simp add: contains_sublist)

lemma contains_append: "contains p s \<Longrightarrow> contains p (xs @ s @ ys)"
  unfolding contains_iff by (metis append.assoc)

lemma starts_with_append [simp]: "starts_with p (p @ s)"
  by (simp add: starts_with_prefix)

lemma find_sub_sound: "find_sub p s = Some i \<Longrightarrow> starts_with p (drop i s) \<and> i \<le> length s"
  by (induction s arbitrary: i) (auto split: if_splits)

lemma find_sub_least: "find_sub p s = Some i \<Longrightarrow> j < i \<Longrightarrow> \<not> starts_with p (drop j s)"
proof (induction s arbitrary: i j)
  case Nil
  then show ?case by (simp split: if_splits)
next
  case (Cons c cs)
  then show ?case
    by (cases j) (auto split: if_splits)
qed

lemma find_sub_None: "find_sub p s = None \<longleftrightarrow> \<not> contains p s"
  by (induction s) auto

lemma find_sub_hit: "starts_with p (drop i s) \<Longrightarrow> i \<le> length s \<Longrightarrow> \<exists>k \<le> i. find_sub p s = Some k"
proof (induction s arbitrary: i)
  case Nil
  then show ?case by (cases p) auto
next
  case (Cons c cs)
  show ?case
  proof (cases "starts_with p (c # cs)")
    case False
    then obtain j where j: "i = Suc j"
      using Cons.prems(1) by (cases i) auto
    then obtain k where "k \<le> j" "find_sub p cs = Some k"
      using Cons.IH [of j] Cons.prems by auto
    with False j show ?thesis by auto
  qed auto
qed

lemma find_from_sound:
  "find_from p s i = Some k \<Longrightarrow> i \<le> k \<and> k \<le> length s \<and> starts_with p (drop k s)"
  by (auto simp: find_from_def add.commute split: if_splits dest!: find_sub_sound)

lemma find_from_least:
  "find_from p s i = Some k \<Longrightarrow> i \<le> j \<Longrightarrow> j < k \<Longrightarrow> \<not> starts_with p (drop j s)"
proof -
  assume found: "find_from p s i = Some k" and j: "i \<le> j" "j < k"
  from found obtain m where m: "find_sub p (drop i s) = Some m" "k = i + m"
    by (auto simp: find_from_def split: if_splits)
  have "j - i < m" using j m by simp
  then have "\<not> starts_with p (drop (j - i) (drop i s))"
    by (rule find_sub_least [OF m(1)])
  then show ?thesis using j by simp
qed

lemma find_from_None:
  "find_from p s i = None \<Longrightarrow> i \<le> j \<Longrightarrow> j \<le> length s \<Longrightarrow> \<not> starts_with p (drop j s)"
proof
  assume none: "find_from p s i = None" and j: "i \<le> j" "j \<le> length s"
    and hit: "starts_with p (drop j s)"
  have "starts_with p (drop (j - i) (drop i s))" using hit j by simp
  moreover have "j - i \<le> length (drop i s)" using j by simp
  ultimately obtain k where "find_sub p (drop i s) = Some k"
    using find_sub_hit by blast
  with none j show False by (simp add: find_from_def split: if_splits)
qed

section \<open>Stripping, splitting, joining\<close>

definition lstrip_by :: "(nat \<Rightarrow> bool) \<Rightarrow> pystr \<Rightarrow> pystr" where
  [py_defs]: "lstrip_by P s = dropWhile P s"

definition rstrip_by :: "(nat \<Rightarrow> bool) \<Rightarrow> pystr \<Rightarrow> pystr" where
  [py_defs]: "rstrip_by P s = rev (dropWhile P (rev s))"

definition strip_by :: "(nat \<Rightarrow> bool) \<Rightarrow> pystr \<Rightarrow> pystr" where
  [py_defs]: "strip_by P s = rstrip_by P (lstrip_by P s)"

text \<open>\<open>s.strip()\<close>, and \<open>s.strip(chars)\<close> for a literal set of characters\<close>

definition strip :: "pystr \<Rightarrow> pystr" where
  [py_defs]: "strip s = strip_by is_space s"

definition strip_chars :: "pystr \<Rightarrow> pystr \<Rightarrow> pystr" where
  [py_defs]: "strip_chars cs s = strip_by (\<lambda>c. List.member cs c) s"

definition lstrip_chars :: "pystr \<Rightarrow> pystr \<Rightarrow> pystr" where
  [py_defs]: "lstrip_chars cs s = lstrip_by (\<lambda>c. List.member cs c) s"

definition rstrip_chars :: "pystr \<Rightarrow> pystr \<Rightarrow> pystr" where
  [py_defs]: "rstrip_chars cs s = rstrip_by (\<lambda>c. List.member cs c) s"

text \<open>\<open>s.split(c)\<close> at every occurrence of a character\<close>

fun split_char :: "nat \<Rightarrow> pystr \<Rightarrow> pystr list" where
  "split_char d [] = [[]]"
| "split_char d (c # cs) =
     (if c = d then [] # split_char d cs
      else case split_char d cs of [] \<Rightarrow> [[c]] | w # ws \<Rightarrow> (c # w) # ws)"

fun join :: "pystr \<Rightarrow> pystr list \<Rightarrow> pystr" where
  "join sep [] = []"
| "join sep [w] = w"
| "join sep (w # v # ws) = w @ sep @ join sep (v # ws)"

text \<open>\<open>s.split(c, 1)\<close>: the parts before and after the first occurrence, if there is one\<close>

fun split_once :: "nat \<Rightarrow> pystr \<Rightarrow> (pystr \<times> pystr) option" where
  "split_once d [] = None"
| "split_once d (c # cs) =
     (if c = d then Some ([], cs)
      else map_option (\<lambda>(a, b). (c # a, b)) (split_once d cs))"

definition is_line_break :: "nat \<Rightarrow> bool" where
  "is_line_break c = ((10 \<le> c \<and> c \<le> 13) \<or> (28 \<le> c \<and> c \<le> 30) \<or> c = 133 \<or> c = 8232 \<or> c = 8233)"

text \<open>\<open>s.splitlines()\<close>: CR LF is one break, and a final break opens no further line\<close>

fun splitlines_aux :: "pystr \<Rightarrow> pystr \<Rightarrow> pystr list" where
  "splitlines_aux acc [] = (if acc = [] then [] else [rev acc])"
| "splitlines_aux acc [c] = (if is_line_break c then [rev acc] else [rev (c # acc)])"
| "splitlines_aux acc (c # d # cs) =
     (if c = 13 \<and> d = 10 then rev acc # splitlines_aux [] cs
      else if is_line_break c then rev acc # splitlines_aux [] (d # cs)
      else splitlines_aux (c # acc) (d # cs))"

definition splitlines :: "pystr \<Rightarrow> pystr list" where
  [py_defs]: "splitlines s = splitlines_aux [] s"

lemma split_char_nonempty [simp]: "split_char d s \<noteq> []"
  by (induction s) (auto split: list.splits)

lemma join_split_char: "join [d] (split_char d s) = s"
proof (induction s)
  case (Cons c cs)
  obtain w ws where ws: "split_char d cs = w # ws"
    by (cases "split_char d cs") auto
  with Cons show ?case
    by (cases ws) auto
qed simp

lemma split_char_parts: "w \<in> set (split_char d s) \<Longrightarrow> d \<notin> set w"
  by (induction s arbitrary: w) (auto split: list.splits if_splits)

lemma strip_by_ends:
  "strip_by P s \<noteq> [] \<Longrightarrow> \<not> P (hd (strip_by P s)) \<and> \<not> P (last (strip_by P s))"
proof -
  let ?l = "dropWhile P s"
  let ?r = "strip_by P s"
  assume ne: "?r \<noteq> []"
  have r: "?r = rev (dropWhile P (rev ?l))"
    by (simp add: strip_by_def rstrip_by_def lstrip_by_def)
  with ne have "\<not> P (last ?r)"
    by (metis hd_dropWhile last_rev rev.simps(1))
  moreover have "hd ?r = hd ?l"
  proof -
    have "rev ?l = takeWhile P (rev ?l) @ dropWhile P (rev ?l)" by simp
    then have "?l = ?r @ rev (takeWhile P (rev ?l))"
      by (metis r rev_append rev_rev_ident)
    with ne show ?thesis by (metis hd_append2)
  qed
  moreover have "\<not> P (hd ?l)"
  proof (rule hd_dropWhile)
    show "?l \<noteq> []"
      using ne unfolding r by (metis dropWhile.simps(1) rev.simps(1))
  qed
  ultimately show ?thesis by simp
qed

lemma strip_by_id: "(s \<noteq> [] \<Longrightarrow> \<not> P (hd s)) \<Longrightarrow> (s \<noteq> [] \<Longrightarrow> \<not> P (last s)) \<Longrightarrow> strip_by P s = s"
proof -
  assume h: "s \<noteq> [] \<Longrightarrow> \<not> P (hd s)" and l: "s \<noteq> [] \<Longrightarrow> \<not> P (last s)"
  have "dropWhile P s = s"
    using h by (cases s) auto
  moreover have "dropWhile P (rev s) = rev s"
    using l by (cases s rule: rev_cases) auto
  ultimately show ?thesis
    by (simp add: strip_by_def rstrip_by_def lstrip_by_def)
qed

lemma strip_idem [simp]: "strip (strip s) = strip s"
  unfolding strip_def by (rule strip_by_id) (use strip_by_ends in blast)+

lemma strip_no_space: "\<forall>c \<in> set s. \<not> is_space c \<Longrightarrow> strip s = s"
  unfolding strip_def by (rule strip_by_id) auto

lemma strip_Nil [simp]: "strip [] = []"
  by (simp add: py_defs)

section \<open>Case\<close>

definition casefold :: "pystr \<Rightarrow> pystr" where
  [py_defs]: "casefold s = concat (map casefold_char s)"

definition lower :: "pystr \<Rightarrow> pystr" where
  [py_defs]: "lower s = concat (map lower_char s)"

text \<open>\<open>s.upper()\<close> on ASCII text; the program applies it to tokens of ASCII patterns only\<close>

definition upper_ascii :: "pystr \<Rightarrow> pystr" where
  [py_defs]: "upper_ascii s = map (\<lambda>c. if is_ascii_lower c then c - 32 else c) s"

lemma casefold_append [simp]: "casefold (xs @ ys) = casefold xs @ casefold ys"
  by (simp add: casefold_def)

lemma casefold_Nil [simp]: "casefold [] = []"
  by (simp add: casefold_def)

section \<open>Decimal numbers\<close>

text \<open>\<open>str(n)\<close> for a natural number\<close>

fun dec_str :: "nat \<Rightarrow> pystr" where
  "dec_str n = (if n < 10 then [48 + n] else dec_str (n div 10) @ [48 + n mod 10])"

declare dec_str.simps [simp del]

definition int_str :: "int \<Rightarrow> pystr" where
  "int_str i = (if i < 0 then 45 # dec_str (nat (- i)) else dec_str (nat i))"

text \<open>The format \<open>{n:02d}\<close>\<close>

definition dec_str2 :: "nat \<Rightarrow> pystr" where
  "dec_str2 n = (if n < 10 then 48 # dec_str n else dec_str n)"

text \<open>The value of a string of decimal digits; \<^const>\<open>None\<close> if another character occurs.\<close>

fun digits_value :: "nat \<Rightarrow> pystr \<Rightarrow> nat option" where
  "digits_value acc [] = Some acc"
| "digits_value acc (c # cs) =
     (case digit_value c of None \<Rightarrow> None | Some d \<Rightarrow> digits_value (acc * 10 + d) cs)"

definition nat_of_digits :: "pystr \<Rightarrow> nat option" where
  "nat_of_digits s = (if s = [] then None else digits_value 0 s)"

text \<open>
  \<open>int(s)\<close>: white space around, an optional sign, digits with single underscores between them;
  \<^const>\<open>None\<close> is the ValueError.
\<close>

fun drop_underscores :: "pystr \<Rightarrow> pystr option" where
  "drop_underscores [] = Some []"
| "drop_underscores [c] = (if c = 95 then None else Some [c])"
| "drop_underscores (c # d # cs) =
     (if c = 95 then None
      else if d = 95 then map_option ((#) c) (if cs = [] then None else drop_underscores cs)
      else map_option ((#) c) (drop_underscores (d # cs)))"

definition unsigned_int :: "pystr \<Rightarrow> nat option" where
  "unsigned_int s = Option.bind (drop_underscores s) nat_of_digits"

definition int_of_str :: "pystr \<Rightarrow> int option" where
  "int_of_str s =
     (case strip s of
        [] \<Rightarrow> None
      | c # cs \<Rightarrow>
          if c = 45 then map_option (\<lambda>n. - int n) (unsigned_int cs)
          else if c = 43 then map_option int (unsigned_int cs)
          else map_option int (unsigned_int (c # cs)))"

text \<open>\<open>s.isdigit()\<close>\<close>

definition str_isdigit :: "pystr \<Rightarrow> bool" where
  [py_defs]: "str_isdigit s = (s \<noteq> [] \<and> list_all is_digit s)"

lemma dec_str_nonempty [simp]: "dec_str n \<noteq> []"
  by (subst dec_str.simps) simp

lemma dec_str_digits: "c \<in> set (dec_str n) \<Longrightarrow> 48 \<le> c \<and> c \<le> 57"
proof (induction n rule: dec_str.induct)
  case (1 n)
  show ?case
  proof (cases "n < 10")
    case True
    then show ?thesis using "1.prems" by (auto simp: dec_str.simps [of n])
  next
    case False
    then show ?thesis
      using "1.prems" "1.IH" by (auto simp: dec_str.simps [of n])
  qed
qed

lemma digits_value_append:
  "digits_value acc (xs @ ys) =
     (case digits_value acc xs of None \<Rightarrow> None | Some v \<Rightarrow> digits_value v ys)"
  by (induction xs arbitrary: acc) (auto split: option.splits)

lemma digits_value_dec_str: "digits_value 0 (dec_str n) = Some n"
proof (induction n rule: dec_str.induct)
  case (1 n)
  show ?case
  proof (cases "n < 10")
    case True
    then show ?thesis by (simp add: dec_str.simps [of n])
  next
    case False
    with 1 have "digits_value 0 (dec_str (n div 10)) = Some (n div 10)" by simp
    with False show ?thesis
      by (simp add: dec_str.simps [of n] digits_value_append)
  qed
qed

lemma nat_of_digits_dec_str [simp]: "nat_of_digits (dec_str n) = Some n"
  by (simp add: nat_of_digits_def digits_value_dec_str)

lemma drop_underscores_id: "95 \<notin> set s \<Longrightarrow> drop_underscores s = Some s"
  by (induction s rule: drop_underscores.induct) auto

lemma digits_no_underscore: "list_all is_decimal s \<Longrightarrow> 95 \<notin> set s"
  by (auto simp: list_all_iff is_decimal_def digit_value_def is_ascii_digit_def)

lemma dec_str_not_space: "c \<in> set (dec_str n) \<Longrightarrow> \<not> is_space c"
  using dec_str_digits [of c n] by (auto simp: is_space_def)

lemma strip_dec_str [simp]: "strip (dec_str n) = dec_str n"
  by (rule strip_no_space) (simp add: dec_str_not_space)

lemma dec_str_no_underscore: "95 \<notin> set (dec_str n)"
  using dec_str_digits [of 95 n] by auto

lemma int_of_dec_str [simp]: "int_of_str (dec_str n) = Some (int n)"
proof -
  obtain c cs where c: "dec_str n = c # cs"
    by (cases "dec_str n") auto
  then have "48 \<le> c" using dec_str_digits [of c n] by simp
  moreover have "unsigned_int (c # cs) = Some n"
    using dec_str_no_underscore [of n]
    by (simp add: unsigned_int_def drop_underscores_id flip: c)
  moreover have "strip (c # cs) = c # cs"
    by (simp flip: c)
  ultimately show ?thesis
    by (simp add: int_of_str_def c)
qed

lemma dec_str_inject [simp]: "dec_str m = dec_str n \<longleftrightarrow> m = n"
  by (metis nat_of_digits_dec_str option.inject)

lemma all_digits_value: "list_all is_decimal s \<Longrightarrow> \<exists>v. digits_value acc s = Some v"
  by (induction s arbitrary: acc) (auto simp: is_decimal_def)

lemma dec_str_decimal: "list_all is_decimal (dec_str n)"
proof -
  have "is_decimal c" if "c \<in> set (dec_str n)" for c
    using dec_str_digits [OF that] by (simp add: is_decimal_ascii_iff is_ascii_digit_def)
  then show ?thesis by (simp add: list_all_iff)
qed

section \<open>Values of rows and JSON documents\<close>

text \<open>
  The dynamically typed values the program reads from JSON and from service responses.  A number
  with a fraction or an exponent is kept as its decimal value \<open>m * 10 ^ e\<close>
  (\<open>PFloat m e\<close>), which is exact where Python rounds to a double; \<open>PSpecial\<close> is NaN or an
  infinity.
\<close>

datatype pyval =
    PNone
  | PBool bool
  | PInt int
  | PFloat int int
  | PSpecial
  | PStr pystr
  | PList "pyval list"
  | PDict "(pystr \<times> pyval) list"

text \<open>\<open>d.get(key)\<close> on a dictionary value\<close>

fun pget :: "pyval \<Rightarrow> pystr \<Rightarrow> pyval" where
  "pget (PDict kvs) k = (case map_of kvs k of None \<Rightarrow> PNone | Some v \<Rightarrow> v)"
| "pget _ k = PNone"

fun is_pdict :: "pyval \<Rightarrow> bool" where
  "is_pdict (PDict _) = True"
| "is_pdict _ = False"

text \<open>Truth value testing\<close>

fun truthy :: "pyval \<Rightarrow> bool" where
  "truthy PNone = False"
| "truthy (PBool b) = b"
| "truthy (PInt i) = (i \<noteq> 0)"
| "truthy (PFloat m e) = (m \<noteq> 0)"
| "truthy PSpecial = True"
| "truthy (PStr s) = (s \<noteq> [])"
| "truthy (PList xs) = (xs \<noteq> [])"
| "truthy (PDict kvs) = (kvs \<noteq> [])"

text \<open>\<open>int(v)\<close>, which truncates a float: \<^const>\<open>None\<close> where Python raises\<close>

definition trunc_dec :: "int \<Rightarrow> int \<Rightarrow> int" where
  "trunc_dec m e = (if 0 \<le> e then m * 10 ^ nat e else sgn m * (\<bar>m\<bar> div 10 ^ nat (- e)))"

fun int_of_val :: "pyval \<Rightarrow> int option" where
  "int_of_val (PBool b) = Some (if b then 1 else 0)"
| "int_of_val (PInt i) = Some i"
| "int_of_val (PFloat m e) = Some (trunc_dec m e)"
| "int_of_val (PStr s) = int_of_str s"
| "int_of_val _ = None"

text \<open>\<open>a or b\<close>\<close>

definition por :: "pyval \<Rightarrow> pyval \<Rightarrow> pyval" where
  "por a b = (if truthy a then a else b)"

end
