(* ===== verification/Py_Regex.thy ===== *)
theory Py_Regex
  imports Py_Prelude
begin

text \<open>
  The part of Python's \<open>re\<close> module the program uses, as a backtracking matcher over a datatype of
  patterns.  A matcher state is the text before the position (reversed), the text after it and the
  groups captured so far; \<open>match_re r st\<close> lists every state in which \<open>r\<close> can end, in the order in
  which the backtracking engine tries them, so the first element is the match Python reports.
  Every compiled pattern of the program is one value of \<open>re\<close>.  A repetition refuses an iteration
  that consumes nothing, as the engine does; no pattern of the program repeats a nullable body.
\<close>

named_theorems re_eval \<open>equations that evaluate a pattern on a closed text\<close>
named_theorems re_pats \<open>definitions of the patterns\<close>

section \<open>Patterns\<close>

datatype re =
    Eps
  | Cls "nat \<Rightarrow> bool"
  | Cat re re
  | Alt re re
  | Rep bool nat "nat option" re \<comment> \<open>greedy?, least and greatest number of iterations\<close>
  | Grp string re \<comment> \<open>a named or numbered group\<close>
  | NotBehind "nat \<Rightarrow> bool" \<comment> \<open>\<open>(?<!c)\<close> for a class of one character\<close>
  | WordB \<comment> \<open>\<open>\\b\<close>\<close>
  | Ahead re \<comment> \<open>\<open>(?=r)\<close>\<close>
  | NotAhead re \<comment> \<open>\<open>(?!r)\<close>\<close>
  | Bos \<comment> \<open>\<open>^\<close>\<close>
  | Eos \<comment> \<open>\<open>$\<close>\<close>

fun seqs :: "re list \<Rightarrow> re" where
  "seqs [] = Eps"
| "seqs [r] = r"
| "seqs (r # q # rs) = Cat r (seqs (q # rs))"

fun alts :: "re list \<Rightarrow> re" where
  "alts [] = Cls (\<lambda>_. False)"
| "alts [r] = r"
| "alts (r # q # rs) = Alt r (alts (q # rs))"

text \<open>
  The case folding of \<open>re.IGNORECASE\<close> for patterns made of ASCII letters and caseless characters:
  besides the ASCII letters, dotted and dotless I, long s and the Kelvin sign fold to ASCII.
\<close>

definition re_lower :: "nat \<Rightarrow> nat" where
  [chr_eval]: "re_lower c =
     (if c < 128 then (if is_ascii_upper c then c + 32 else c)
      else if c = 304 \<or> c = 305 then 105
      else if c = 383 then 115
      else if c = 8490 then 107
      else c)"

text \<open>The classes as predicates of their own, so that a pattern holds no \<open>\<lambda>\<close>-term\<close>

definition is_chr :: "nat \<Rightarrow> nat \<Rightarrow> bool" where
  [chr_eval]: "is_chr p c = (c = p)"

definition is_chr_i :: "nat \<Rightarrow> nat \<Rightarrow> bool" where
  [chr_eval]: "is_chr_i p c = (re_lower c = p)"

fun in_chars :: "pystr \<Rightarrow> nat \<Rightarrow> bool" where
  "in_chars [] c = False"
| "in_chars (p # ps) c = (if c = p then True else in_chars ps c)"

definition not_in_chars :: "pystr \<Rightarrow> nat \<Rightarrow> bool" where
  [chr_eval]: "not_in_chars ps c = (\<not> in_chars ps c)"

definition not_space :: "nat \<Rightarrow> bool" where
  [chr_eval]: "not_space c = (\<not> is_space c)"

definition not_newline :: "nat \<Rightarrow> bool" where
  [chr_eval]: "not_newline c = (c \<noteq> 10)"

lemma in_chars_member: "in_chars ps c \<longleftrightarrow> c \<in> set ps"
  by (induction ps) auto

definition chr :: "nat \<Rightarrow> re" where
  [re_pats]: "chr p = Cls (is_chr p)"

definition chr_i :: "nat \<Rightarrow> re" where
  [re_pats]: "chr_i p = Cls (is_chr_i p)"

definition one_of :: "pystr \<Rightarrow> re" where
  [re_pats]: "one_of cs = Cls (in_chars cs)"

definition none_of :: "pystr \<Rightarrow> re" where
  [re_pats]: "none_of cs = Cls (not_in_chars cs)"

text \<open>literal texts, case sensitive and not; the case-insensitive ones are given in lower case\<close>

definition lit_u :: "pystr \<Rightarrow> re" where
  [re_pats]: "lit_u cs = seqs (map chr cs)"

definition lit_ui :: "pystr \<Rightarrow> re" where
  [re_pats]: "lit_ui cs = seqs (map chr_i cs)"

definition lit :: "string \<Rightarrow> re" where
  [re_pats]: "lit s = lit_u (u s)"

definition lit_i :: "string \<Rightarrow> re" where
  [re_pats]: "lit_i s = lit_ui (u s)"

definition opt :: "re \<Rightarrow> re" where
  [re_pats]: "opt r = Rep True 0 (Some 1) r"

definition many :: "re \<Rightarrow> re" where
  [re_pats]: "many r = Rep True 0 None r"

definition many1 :: "re \<Rightarrow> re" where
  [re_pats]: "many1 r = Rep True 1 None r"

definition upto :: "nat \<Rightarrow> nat \<Rightarrow> re \<Rightarrow> re" where
  [re_pats]: "upto lo hi r = Rep True lo (Some hi) r"

definition lazy_many :: "re \<Rightarrow> re" where
  [re_pats]: "lazy_many r = Rep False 0 None r"

definition lazy_many1 :: "re \<Rightarrow> re" where
  [re_pats]: "lazy_many1 r = Rep False 1 None r"

abbreviation digit :: re where
  "digit \<equiv> Cls is_decimal"

abbreviation space :: re where
  "space \<equiv> Cls is_space"

abbreviation spaces :: re where
  "spaces \<equiv> Rep True 0 None (Cls is_space)"

abbreviation any_char :: re where
  "any_char \<equiv> Cls not_newline"

definition ascii_alnum_i :: "nat \<Rightarrow> bool" where
  [chr_eval]: "ascii_alnum_i c = (is_ascii_lower (re_lower c) \<or> is_ascii_digit c)"

section \<open>The matcher\<close>

type_synonym groups = "(string \<times> pystr) list"
type_synonym mstate = "pystr \<times> pystr \<times> groups"

abbreviation rest :: "mstate \<Rightarrow> pystr" where
  "rest st \<equiv> fst (snd st)"

definition flat_map :: "('a \<Rightarrow> 'b list) \<Rightarrow> 'a list \<Rightarrow> 'b list" where
  "flat_map f xs = concat (map f xs)"

lemma flat_map_simps [simp, re_eval]:
  "flat_map f [] = []"
  "flat_map f (x # xs) = f x @ flat_map f xs"
  by (simp_all add: flat_map_def)

lemma set_flat_map [simp]: "set (flat_map f xs) = (\<Union>x \<in> set xs. set (f x))"
  by (simp add: flat_map_def)

lemma flat_map_cong [fundef_cong]:
  "xs = ys \<Longrightarrow> (\<And>x. x \<in> set ys \<Longrightarrow> f x = g x) \<Longrightarrow> flat_map f xs = flat_map g ys"
  by (auto simp: flat_map_def cong: map_cong)

definition shorter :: "mstate \<Rightarrow> mstate list \<Rightarrow> mstate list" where
  [re_eval]: "shorter st sts = filter (\<lambda>st'. length (rest st') < length (rest st)) sts"

definition less_one :: "nat option \<Rightarrow> nat option" where
  [re_eval]: "less_one hi = map_option (\<lambda>n. n - 1) hi"

text \<open>Repetition of a one-step matcher \<open>m\<close>\<close>

function rep_match :: "(mstate \<Rightarrow> mstate list) \<Rightarrow> bool \<Rightarrow> nat \<Rightarrow> nat option \<Rightarrow> mstate \<Rightarrow> mstate list" where
  "rep_match m gr lo hi st =
     (if hi = Some 0 then (if lo = 0 then [st] else [])
      else if lo \<noteq> 0 then flat_map (rep_match m gr (lo - 1) (less_one hi)) (m st)
      else if gr then flat_map (rep_match m gr 0 (less_one hi)) (shorter st (m st)) @ [st]
      else st # flat_map (rep_match m gr 0 (less_one hi)) (shorter st (m st)))"
  by pat_completeness auto
termination
  by (relation "measures [\<lambda>(m, gr, lo, hi, st). lo, \<lambda>(m, gr, lo, hi, st). length (rest st)]")
    (auto simp: shorter_def)

declare rep_match.simps [simp del, re_eval]

definition at_word :: "pystr \<Rightarrow> bool" where
  [re_eval]: "at_word s = (case s of [] \<Rightarrow> False | c # _ \<Rightarrow> is_word c)"

definition behind_is :: "(nat \<Rightarrow> bool) \<Rightarrow> pystr \<Rightarrow> bool" where
  [re_eval]: "behind_is P b = (case b of [] \<Rightarrow> False | c # _ \<Rightarrow> P c)"

definition capture :: "string \<Rightarrow> pystr \<Rightarrow> mstate \<Rightarrow> mstate" where
  [re_eval]: "capture n s st =
     (case st of (b', s', g') \<Rightarrow> (b', s', (n, take (length s - length s') s) # g'))"

definition guard :: "bool \<Rightarrow> mstate \<Rightarrow> mstate list" where
  [re_eval]: "guard P st = (if P then [st] else [])"

definition step_cls :: "(nat \<Rightarrow> bool) \<Rightarrow> mstate \<Rightarrow> mstate list" where
  "step_cls P st =
     (case st of (b, s, g) \<Rightarrow> (case s of [] \<Rightarrow> [] | c # cs \<Rightarrow> if P c then [(c # b, cs, g)] else []))"

lemma step_cls_simps [simp, re_eval]:
  "step_cls P (b, [], g) = []"
  "step_cls P (b, c # cs, g) = (if P c then [(c # b, cs, g)] else [])"
  by (simp_all add: step_cls_def)

primrec match_re :: "re \<Rightarrow> mstate \<Rightarrow> mstate list" where
  "match_re Eps st = [st]"
| "match_re (Cls P) st = step_cls P st"
| "match_re (Cat r q) st = flat_map (match_re q) (match_re r st)"
| "match_re (Alt r q) st = match_re r st @ match_re q st"
| "match_re (Rep gr lo hi r) st = rep_match (match_re r) gr lo hi st"
| "match_re (Grp n r) st = map (capture n (rest st)) (match_re r st)"
| "match_re (NotBehind P) st = guard (\<not> behind_is P (fst st)) st"
| "match_re WordB st = guard (at_word (fst st) \<noteq> at_word (rest st)) st"
| "match_re (Ahead r) st = guard (match_re r st \<noteq> []) st"
| "match_re (NotAhead r) st = guard (match_re r st = []) st"
| "match_re Bos st = guard (fst st = []) st"
| "match_re Eos st = guard (rest st = [] \<or> rest st = [10]) st"

declare match_re.simps [re_eval]

text \<open>
  A final state lies further along the same text: what was consumed is a prefix of the rest, and
  its reversal is what was pushed on the text before.
\<close>

definition moved :: "mstate \<Rightarrow> mstate \<Rightarrow> bool" where
  "moved st st' = (\<exists>t. rest st = t @ rest st' \<and> fst st' = rev t @ fst st)"

lemma moved_refl [simp]: "moved st st"
  by (simp add: moved_def)

lemma moved_trans: "moved x y \<Longrightarrow> moved y z \<Longrightarrow> moved x z"
  by (force simp: moved_def)

lemma moved_length: "moved st st' \<Longrightarrow> length (rest st') \<le> length (rest st)"
  by (auto simp: moved_def)

lemma set_shorter: "x \<in> set (shorter st sts) \<Longrightarrow> x \<in> set sts"
  by (simp add: shorter_def)

lemma rep_match_moved:
  "(\<And>st st'. st' \<in> set (m st) \<Longrightarrow> moved st st') \<Longrightarrow>
   st' \<in> set (rep_match m gr lo hi st) \<Longrightarrow> moved st st'"
proof (induction m gr lo hi st arbitrary: st' rule: rep_match.induct)
  case (1 m gr lo hi st)
  note m = "1.prems"(1)
  from "1.prems"(2) consider "st' = st"
    | (mand) x where "hi \<noteq> Some 0" "lo \<noteq> 0" "x \<in> set (m st)" "st' \<in> set (rep_match m gr (lo - 1) (less_one hi) x)"
    | (opt) x where "hi \<noteq> Some 0" "lo = 0" "x \<in> set (shorter st (m st))" "st' \<in> set (rep_match m gr 0 (less_one hi) x)"
    by (subst (asm) rep_match.simps) (auto split: if_splits)
  then show ?case
  proof cases
    case mand
    have "moved x st'" by (rule "1.IH"(1)) (use mand m in auto)
    then show ?thesis using m mand(3) moved_trans by blast
  next
    case opt
    have "moved x st'"
      by (cases gr) (use "1.IH"(2,3) opt m in blast)+
    then show ?thesis using m opt(3) set_shorter moved_trans by blast
  qed simp
qed

lemma step_cls_moved: "st' \<in> set (step_cls P st) \<Longrightarrow> moved st st'"
  by (auto simp: step_cls_def moved_def split: prod.splits list.splits if_splits)

lemma match_re_moved: "st' \<in> set (match_re r st) \<Longrightarrow> moved st st'"
proof (induction r arbitrary: st st')
  case (Cat r q)
  then obtain x where "x \<in> set (match_re r st)" "st' \<in> set (match_re q x)" by auto
  then show ?case using Cat.IH moved_trans by blast
next
  case (Rep gr lo hi r)
  then have "st' \<in> set (rep_match (match_re r) gr lo hi st)" by simp
  then show ?case by (rule rep_match_moved [rotated]) (rule Rep.IH)
next
  case (Grp n r)
  then obtain x where "x \<in> set (match_re r st)" "st' = capture n (rest st) x" by auto
  with Grp.IH show ?case by (fastforce simp: capture_def moved_def split: prod.splits)
qed (auto simp: guard_def step_cls_moved split: if_splits)

section \<open>Searching\<close>

record mtch =
  m_before :: pystr \<comment> \<open>the text before the match, reversed\<close>
  m_text :: pystr
  m_after :: pystr
  m_groups :: groups

text \<open>\<open>m.start()\<close>, \<open>m.end()\<close>, \<open>m.group(0)\<close> and \<open>m.group(name)\<close>\<close>

definition m_start :: "mtch \<Rightarrow> nat" where
  [re_eval]: "m_start m = length (m_before m)"

definition m_end :: "mtch \<Rightarrow> nat" where
  [re_eval]: "m_end m = length (m_before m) + length (m_text m)"

definition group :: "string \<Rightarrow> mtch \<Rightarrow> pystr option" where
  [re_eval]: "group n m = map_of (m_groups m) n"

text \<open>\<open>m.group(a) or m.group(b)\<close>, and a group that is absent read as the empty string\<close>

definition grp :: "string \<Rightarrow> mtch \<Rightarrow> pystr" where
  [re_eval]: "grp n m = (case group n m of None \<Rightarrow> [] | Some t \<Rightarrow> t)"

definition or_str :: "pystr \<Rightarrow> pystr \<Rightarrow> pystr" where
  [py_defs, re_eval]: "or_str a b = (if a = [] then b else a)"

text \<open>
  The match at the current position; with \<open>adv\<close> an empty match there is not accepted, the engine's
  rule after an empty match.
\<close>

definition accepts :: "bool \<Rightarrow> pystr \<Rightarrow> mstate list \<Rightarrow> mstate list" where
  [re_eval]: "accepts adv s sts = (if adv then filter (\<lambda>st. length (rest st) < length s) sts else sts)"

definition first_match :: "pystr \<Rightarrow> pystr \<Rightarrow> mstate list \<Rightarrow> mtch option" where
  [re_eval]: "first_match b s sts =
     (case sts of [] \<Rightarrow> None
      | st # _ \<Rightarrow> Some \<lparr>m_before = b, m_text = take (length s - length (rest st)) s,
                       m_after = rest st, m_groups = snd (snd st)\<rparr>)"

definition match_at :: "bool \<Rightarrow> re \<Rightarrow> pystr \<Rightarrow> pystr \<Rightarrow> mtch option" where
  [re_eval]: "match_at adv r b s = first_match b s (accepts adv s (match_re r (b, s, [])))"

fun search_from :: "bool \<Rightarrow> re \<Rightarrow> pystr \<Rightarrow> pystr \<Rightarrow> mtch option" where
  "search_from adv r b [] = match_at adv r b []"
| "search_from adv r b (c # cs) =
     (case match_at adv r b (c # cs) of None \<Rightarrow> search_from False r (c # b) cs | Some m \<Rightarrow> Some m)"

declare search_from.simps [re_eval]

text \<open>\<open>r.match(s)\<close>, \<open>r.search(s)\<close>, \<open>r.fullmatch(s)\<close>\<close>

definition re_match :: "re \<Rightarrow> pystr \<Rightarrow> mtch option" where
  [re_eval]: "re_match r s = match_at False r [] s"

definition re_search :: "re \<Rightarrow> pystr \<Rightarrow> mtch option" where
  [re_eval]: "re_search r s = search_from False r [] s"

definition re_found :: "re \<Rightarrow> pystr \<Rightarrow> bool" where
  [re_eval]: "re_found r s = (re_search r s \<noteq> None)"

definition re_fullmatch :: "re \<Rightarrow> pystr \<Rightarrow> mtch option" where
  [re_eval]: "re_fullmatch r s =
     first_match [] s (filter (\<lambda>st. rest st = []) (match_re r ([], s, [])))"

text \<open>What a match says of the text it was found in\<close>

definition splits_text :: "pystr \<Rightarrow> pystr \<Rightarrow> mtch \<Rightarrow> bool" where
  "splits_text b s m = (rev b @ s = rev (m_before m) @ m_text m @ m_after m)"

lemma first_match_split:
  assumes "first_match b s sts = Some m" and "\<And>st. st \<in> set sts \<Longrightarrow> moved (b, s, g) st"
  shows "s = m_text m @ m_after m \<and> m_before m = b"
proof -
  from assms(1) obtain st sts' where st: "sts = st # sts'"
    and m: "m = \<lparr>m_before = b, m_text = take (length s - length (rest st)) s,
                 m_after = rest st, m_groups = snd (snd st)\<rparr>"
    by (auto simp: first_match_def split: list.splits)
  have "moved (b, s, g) st" using assms(2) st by simp
  then obtain t where "s = t @ rest st" by (auto simp: moved_def)
  then show ?thesis using m by simp
qed

lemma match_at_split: "match_at adv r b s = Some m \<Longrightarrow> s = m_text m @ m_after m \<and> m_before m = b"
  unfolding match_at_def
  by (rule first_match_split [where sts = "accepts adv s (match_re r (b, s, []))" and g = "[]"])
    (auto simp: accepts_def match_re_moved split: if_splits)

lemma match_at_adv: "match_at True r b s = Some m \<Longrightarrow> m_text m \<noteq> []"
proof
  assume m: "match_at True r b s = Some m" and e: "m_text m = []"
  have "s = m_after m" using match_at_split [OF m] e by simp
  moreover have "length (m_after m) < length s"
    using m by (auto simp: match_at_def first_match_def accepts_def filter_eq_Cons_iff split: list.splits)
  ultimately show False by simp
qed

lemma search_from_split:
  "search_from adv r b s = Some m \<Longrightarrow>
   \<exists>gap. s = gap @ m_text m @ m_after m \<and> m_before m = rev gap @ b
         \<and> (adv \<longrightarrow> gap @ m_text m \<noteq> [])"
proof (induction adv r b s rule: search_from.induct)
  case (1 adv r b)
  then have "match_at adv r b [] = Some m" by simp
  then show ?case using match_at_split match_at_adv by fastforce
next
  case (2 adv r b c cs)
  show ?case
  proof (cases "match_at adv r b (c # cs)")
    case None
    with 2 obtain gap where "cs = gap @ m_text m @ m_after m" "m_before m = rev gap @ c # b" by auto
    then show ?thesis by (intro exI [of _ "c # gap"]) auto
  next
    case (Some x)
    with "2.prems" have "match_at adv r b (c # cs) = Some m" by simp
    then show ?thesis using match_at_split [of adv r b "c # cs" m] match_at_adv [of r b "c # cs" m]
      by (intro exI [of _ "[]"]) auto
  qed
qed

lemma search_from_split_text: "search_from adv r b s = Some m \<Longrightarrow> splits_text b s m"
  unfolding splits_text_def by (auto dest!: search_from_split)

lemma search_from_None:
  "search_from False r b s = None \<longleftrightarrow>
   (\<forall>xs ys. s = xs @ ys \<longrightarrow> match_re r (rev xs @ b, ys, []) = [])"
proof (induction s arbitrary: b)
  case Nil
  show ?case by (auto simp: match_at_def first_match_def accepts_def split: list.splits)
next
  case (Cons c cs)
  have "(search_from False r b (c # cs) = None) =
        (match_re r (b, c # cs, []) = [] \<and> search_from False r (c # b) cs = None)"
    by (auto simp: match_at_def first_match_def accepts_def split: list.splits option.splits)
  also have "\<dots> = (\<forall>xs ys. c # cs = xs @ ys \<longrightarrow> match_re r (rev xs @ b, ys, []) = [])"
    (is "?head \<and> _ \<longleftrightarrow> ?all")
  proof
    assume l: "?head \<and> search_from False r (c # b) cs = None"
    then have "search_from False r (c # b) cs = None" by simp
    then have tl: "cs = xs @ ys \<Longrightarrow> match_re r (rev xs @ c # b, ys, []) = []" for xs ys
      using Cons.IH [of "c # b"] by blast
    show ?all
    proof (intro allI impI)
      fix xs ys
      assume "c # cs = xs @ ys"
      then show "match_re r (rev xs @ b, ys, []) = []"
        using l tl by (cases xs) auto
    qed
  next
    assume r: ?all
    have "match_re r (rev xs @ c # b, ys, []) = []" if "cs = xs @ ys" for xs ys
      using r [rule_format, of "c # xs" ys] that by simp
    then show "?head \<and> search_from False r (c # b) cs = None"
      using r [rule_format, of "[]" "c # cs"] by (simp add: Cons.IH)
  qed
  finally show ?case .
qed

lemma re_found_iff:
  "re_found r s \<longleftrightarrow> (\<exists>xs ys. s = xs @ ys \<and> match_re r (rev xs, ys, []) \<noteq> [])"
  using search_from_None [of r "[]" s] by (auto simp: re_found_def re_search_def)

section \<open>All matches\<close>

function iter_from :: "bool \<Rightarrow> re \<Rightarrow> pystr \<Rightarrow> pystr \<Rightarrow> mtch list" where
  "iter_from adv r b s =
     (case search_from adv r b s of
        None \<Rightarrow> []
      | Some m \<Rightarrow> m # iter_from (m_text m = []) r (rev (m_text m) @ m_before m) (m_after m))"
  by pat_completeness auto
termination
proof (relation "measures [\<lambda>(adv, r, b, s). length s, \<lambda>(adv, r, b, s). if adv then 0 else 1]", goal_cases)
  case (2 adv r b s m)
  then show ?case by (auto dest!: search_from_split)
qed simp

declare iter_from.simps [simp del, re_eval]

text \<open>\<open>r.finditer(s)\<close>, \<open>r.sub(repl, s)\<close> with a literal replacement, \<open>r.split(s)\<close> without groups\<close>

definition re_finditer :: "re \<Rightarrow> pystr \<Rightarrow> mtch list" where
  [re_eval]: "re_finditer r s = iter_from False r [] s"

text \<open>The pieces of the text between the matches\<close>

fun gaps :: "pystr \<Rightarrow> nat \<Rightarrow> mtch list \<Rightarrow> pystr list" where
  "gaps s i [] = [drop i s]"
| "gaps s i (m # ms) = take (m_start m - i) (drop i s) # gaps s (m_end m) ms"

declare gaps.simps [re_eval]

definition re_split :: "re \<Rightarrow> pystr \<Rightarrow> pystr list" where
  [re_eval]: "re_split r s = gaps s 0 (re_finditer r s)"

definition re_split_max :: "nat \<Rightarrow> re \<Rightarrow> pystr \<Rightarrow> pystr list" where
  [re_eval]: "re_split_max n r s = gaps s 0 (take n (re_finditer r s))"

definition re_sub :: "re \<Rightarrow> pystr \<Rightarrow> pystr \<Rightarrow> pystr" where
  [re_eval]: "re_sub r repl s = join repl (re_split r s)"


section \<open>Facts on searching and substitution\<close>

text \<open>The pieces between the matches and the matches, in turn, make up the text again.\<close>

fun weave :: "pystr list \<Rightarrow> pystr list \<Rightarrow> pystr" where
  "weave (g # gs) (t # ts) = g @ t @ weave gs ts"
| "weave gs _ = concat gs"

lemma length_gaps [simp]: "length (gaps s i ms) = Suc (length ms)"
  by (induction ms arbitrary: i) auto

lemma iter_from_weave:
  "text = rev b @ s \<Longrightarrow> i = length b \<Longrightarrow>
   weave (gaps text i (iter_from adv r b s)) (map m_text (iter_from adv r b s)) = s"
proof (induction adv r b s arbitrary: i rule: iter_from.induct)
  case (1 adv r b s)
  show ?case
  proof (cases "search_from adv r b s")
    case None
    then show ?thesis using "1.prems" by (simp add: iter_from.simps [of adv r b s])
  next
    case (Some m)
    then obtain gap where gap: "s = gap @ m_text m @ m_after m" "m_before m = rev gap @ b"
      using search_from_split by blast
    let ?ms = "iter_from (m_text m = []) r (rev (m_text m) @ m_before m) (m_after m)"
    have "weave (gaps text (m_end m) ?ms) (map m_text ?ms) = m_after m"
      by (rule "1.IH" [OF Some]) (use gap "1.prems" in \<open>simp_all add: m_end_def\<close>)
    moreover have "take (m_start m - i) (drop i text) = gap"
      using gap "1.prems" by (simp add: m_start_def)
    moreover have "iter_from adv r b s = m # ?ms"
      using Some by (simp add: iter_from.simps [of adv r b s])
    ultimately show ?thesis using gap by simp
  qed
qed

lemma re_split_weave: "weave (re_split r s) (map m_text (re_finditer r s)) = s"
  unfolding re_split_def re_finditer_def by (rule iter_from_weave) auto

lemma weave_join: "length gs = Suc n \<Longrightarrow> weave gs (replicate n sep) = join sep gs"
proof (induction n arbitrary: gs)
  case 0
  then show ?case by (auto simp: length_Suc_conv)
next
  case (Suc n)
  then obtain g gs' where "gs = g # gs'" "length gs' = Suc n" by (auto simp: length_Suc_conv)
  with Suc.IH [of gs'] show ?case by (cases gs') auto
qed

lemma re_sub_weave: "re_sub r repl s = weave (re_split r s) (replicate (length (re_finditer r s)) repl)"
  unfolding re_sub_def by (rule weave_join [symmetric]) (simp add: re_split_def)

lemma iter_from_Nil_iff: "iter_from False r b s = [] \<longleftrightarrow> search_from False r b s = None"
  by (subst iter_from.simps) (simp split: option.splits)

lemma re_finditer_Nil_iff: "re_finditer r s = [] \<longleftrightarrow> \<not> re_found r s"
  by (simp add: re_finditer_def re_found_def re_search_def iter_from_Nil_iff)

lemma re_sub_no_match: "\<not> re_found r s \<Longrightarrow> re_sub r repl s = s"
  by (simp add: re_sub_def re_split_def flip: re_finditer_Nil_iff)

lemma re_split_no_match: "\<not> re_found r s \<Longrightarrow> re_split r s = [s]"
  by (simp add: re_split_def flip: re_finditer_Nil_iff)

text \<open>Every match reported by \<open>finditer\<close> is a substring of the text.\<close>

lemma iter_from_split_text:
  "m \<in> set (iter_from adv r b s) \<Longrightarrow> splits_text b s m"
proof (induction adv r b s rule: iter_from.induct)
  case (1 adv r b s)
  from "1.prems" obtain x where x: "search_from adv r b s = Some x"
    by (cases "search_from adv r b s") (auto simp: iter_from.simps [of adv r b s])
  have sx: "splits_text b s x" using x by (rule search_from_split_text)
  from "1.prems" x consider "m = x"
    | "m \<in> set (iter_from (m_text x = []) r (rev (m_text x) @ m_before x) (m_after x))"
    by (subst (asm) iter_from.simps) auto
  then show ?case
  proof cases
    case 2
    then have "splits_text (rev (m_text x) @ m_before x) (m_after x) m" by (rule "1.IH" [OF x])
    with sx show ?thesis by (simp add: splits_text_def)
  qed (use sx in simp)
qed

lemma re_finditer_contains: "m \<in> set (re_finditer r s) \<Longrightarrow> contains (m_text m) s"
  using iter_from_split_text [of m False r "[]" s]
  by (auto simp: re_finditer_def splits_text_def contains_iff)

section \<open>Runs of a character class\<close>

text \<open>
  A greedy repetition of one class first takes the longest run; these facts decide patterns such as
  \<open>(\\d+)x(\\d+)\<close> and the deletion of \<open>[\\W_]+\<close> for every text.
\<close>

fun run_states :: "(nat \<Rightarrow> bool) \<Rightarrow> pystr \<Rightarrow> pystr \<Rightarrow> groups \<Rightarrow> mstate list" where
  "run_states P b [] g = [(b, [], g)]"
| "run_states P b (c # cs) g =
     (if P c then run_states P (c # b) cs g @ [(b, c # cs, g)] else [(b, c # cs, g)])"

lemma match_re_Cls [simp]: "match_re (Cls P) = step_cls P"
  by (rule ext) simp

lemma rep_star_cls: "rep_match (step_cls P) True 0 None (b, s, g) = run_states P b s g"
proof (induction s arbitrary: b)
  case Nil
  show ?case by (simp add: rep_match.simps [of _ _ _ _ "(b, [], g)"] shorter_def)
next
  case (Cons c cs)
  show ?case
    by (simp add: rep_match.simps [of _ _ _ _ "(b, c # cs, g)"] shorter_def less_one_def Cons.IH)
qed

lemma rep_plus_cls:
  "rep_match (step_cls P) True (Suc 0) None (b, s, g) =
   (case s of [] \<Rightarrow> [] | c # cs \<Rightarrow> if P c then run_states P (c # b) cs g else [])"
  by (subst rep_match.simps) (auto simp: less_one_def rep_star_cls split: list.splits)

lemma run_states_all:
  "list_all P ds \<Longrightarrow> (s = [] \<or> \<not> P (hd s)) \<Longrightarrow>
   \<exists>sts. run_states P b (ds @ s) g = (rev ds @ b, s, g) # sts
         \<and> (\<forall>st \<in> set sts. \<exists>c cs. rest st = c # cs \<and> P c)"
proof (induction ds arbitrary: b)
  case Nil
  then show ?case by (cases s) auto
next
  case (Cons d ds)
  then obtain sts where "run_states P (d # b) (ds @ s) g = (rev ds @ d # b, s, g) # sts"
    "\<forall>st \<in> set sts. \<exists>c cs. rest st = c # cs \<and> P c" by force
  with Cons.prems show ?case by auto
qed

text \<open>Searching a run of a class, and deleting every run\<close>

lemma run_states_hd:
  "run_states P b s g \<noteq> [] \<and>
   hd (run_states P b s g) = (rev (takeWhile P s) @ b, dropWhile P s, g)"
  by (induction s arbitrary: b) auto

lemma match_plus_cls:
  "match_at adv (many1 (Cls P)) b s =
   (if s \<noteq> [] \<and> P (hd s)
    then Some \<lparr>m_before = b, m_text = takeWhile P s, m_after = dropWhile P s, m_groups = []\<rparr>
    else None)"
proof (cases s)
  case Nil
  then show ?thesis
    by (simp add: match_at_def many1_def rep_plus_cls accepts_def first_match_def)
next
  case (Cons c cs)
  let ?sts = "run_states P (c # b) cs []"
  obtain sts where sts: "?sts = (rev (takeWhile P cs) @ c # b, dropWhile P cs, []) # sts"
    using run_states_hd [of P "c # b" cs "[]"] by (cases ?sts) auto
  have len: "length (dropWhile P cs) < length s"
    using Cons length_dropWhile_le [of P cs] by simp
  have "length cs - length (dropWhile P cs) = length (takeWhile P cs)"
    by (metis add_diff_cancel_right' length_append takeWhile_dropWhile_id)
  then have "take (Suc (length cs) - length (dropWhile P cs)) (c # cs) = c # takeWhile P cs"
    by (metis Suc_diff_le length_dropWhile_le take_Suc_Cons takeWhile_eq_take)
  then show ?thesis
    using Cons sts len
    by (simp add: match_at_def many1_def rep_plus_cls accepts_def first_match_def)
qed

lemma search_plus_cls:
  "search_from adv (many1 (Cls P)) b s =
   (case dropWhile (\<lambda>c. \<not> P c) s of
      [] \<Rightarrow> None
    | c # cs \<Rightarrow> Some \<lparr>m_before = rev (takeWhile (\<lambda>c. \<not> P c) s) @ b, m_text = c # takeWhile P cs,
                       m_after = dropWhile P cs, m_groups = []\<rparr>)"
proof (induction s arbitrary: adv b)
  case (Cons d ds)
  then show ?case
    by (cases "P d"; cases "dropWhile (\<lambda>c. \<not> P c) ds") (simp_all add: match_plus_cls del: dropWhile_eq_Nil_conv)
qed (simp add: match_plus_cls)

lemma concat_gaps_plus_cls:
  "text = rev b @ s \<Longrightarrow> i = length b \<Longrightarrow>
   concat (gaps text i (iter_from adv (many1 (Cls P)) b s)) = filter (\<lambda>c. \<not> P c) s"
proof (induction "length s" arbitrary: adv b s i rule: less_induct)
  case less
  let ?r = "many1 (Cls P)"
  have split: "s = takeWhile (\<lambda>c. \<not> P c) s @ dropWhile (\<lambda>c. \<not> P c) s" by simp
  show ?case
  proof (cases "dropWhile (\<lambda>c. \<not> P c) s")
    case Nil
    then have "filter (\<lambda>c. \<not> P c) s = s" by (simp add: dropWhile_eq_Nil_conv filter_id_conv)
    moreover have "search_from adv ?r b s = None"
      by (simp only: search_plus_cls Nil list.case)
    then have "iter_from adv ?r b s = []"
      by (simp add: iter_from.simps [of adv ?r b s])
    ultimately show ?thesis using less.prems by simp
  next
    case (Cons c cs)
    define gap where "gap = takeWhile (\<lambda>c. \<not> P c) s"
    define hit where "hit = c # takeWhile P cs"
    define after where "after = dropWhile P cs"
    have s: "s = gap @ hit @ after"
      using split by (simp add: gap_def hit_def after_def Cons)
    have "P c" using Cons hd_dropWhile [of "\<lambda>c. \<not> P c" s] by simp
    then have hit: "filter (\<lambda>c. \<not> P c) hit = []"
      by (auto simp: hit_def filter_empty_conv dest: set_takeWhileD)
    have gap: "filter (\<lambda>c. \<not> P c) gap = gap"
      by (auto simp: gap_def filter_id_conv dest: set_takeWhileD)
    have it: "iter_from adv ?r b s =
        \<lparr>m_before = rev gap @ b, m_text = hit, m_after = after, m_groups = []\<rparr> #
        iter_from False ?r (rev hit @ rev gap @ b) after"
      by (subst iter_from.simps) (simp add: search_plus_cls Cons gap_def hit_def after_def)
    have len: "length after < length s" by (simp add: s hit_def)
    have "concat (gaps text (i + length gap + length hit)
        (iter_from False ?r (rev hit @ rev gap @ b) after)) = filter (\<lambda>c. \<not> P c) after"
      by (rule less.hyps) (use less.prems len s in simp_all)
    then show ?thesis
      unfolding it using less.prems hit gap by (simp add: s m_start_def m_end_def add.commute)
  qed
qed

lemma join_Nil [simp]: "join [] ws = concat ws"
  by (induction "[] :: pystr" ws rule: join.induct) auto

lemma re_sub_plus_cls: "re_sub (many1 (Cls P)) [] s = filter (\<lambda>c. \<not> P c) s"
  by (simp add: re_sub_def re_split_def re_finditer_def concat_gaps_plus_cls)

lemma re_found_plus_cls: "re_found (many1 (Cls P)) s \<longleftrightarrow> (\<exists>c \<in> set s. P c)"
proof -
  have "re_found (many1 (Cls P)) s \<longleftrightarrow> dropWhile (\<lambda>c. \<not> P c) s \<noteq> []"
    by (cases "dropWhile (\<lambda>c. \<not> P c) s")
      (simp_all add: re_found_def re_search_def search_plus_cls del: dropWhile_eq_Nil_conv)
  then show ?thesis by simp
qed

end
