(* ===== verification/Py_Json.thy ===== *)
theory Py_Json
  imports Py_Regex
begin

text \<open>
  \<open>json.loads\<close> and the helper \<open>json_loads\<close> of \<open>app/db_core.py\<close>.  The decoder is a lexer and a
  push-down parser, each a recursion over its input, so it is total without fuel; every malformed
  document is \<^const>\<open>None\<close>, the JSONDecodeError, for which \<open>json_loads\<close> returns its default.
\<close>

section \<open>Tokens\<close>

datatype tok = TOpenL | TCloseL | TOpenD | TCloseD | TComma | TColon | TVal pyval

text \<open>\<open>-?(0|[1-9][0-9]*)(\\.[0-9]+)?([eE][+-]?[0-9]+)?\<close>\<close>

definition JSON_NUMBER_RE :: re where
  [re_pats]: "JSON_NUMBER_RE =
     seqs [Grp ''int'' (seqs [opt (chr 45), Alt (chr 48) (seqs [one_of (u ''123456789''), many (Cls is_ascii_digit)])]),
           opt (seqs [chr 46, Grp ''frac'' (many1 (Cls is_ascii_digit))]),
           opt (seqs [one_of [101, 69], Grp ''exp'' (seqs [opt (one_of [43, 45]), many1 (Cls is_ascii_digit)])])]"

definition number_value :: "mtch \<Rightarrow> pyval" where
  "number_value m =
     (let i = grp ''int'' m; f = grp ''frac'' m; e = grp ''exp'' m in
      if f = [] \<and> e = [] then (case int_of_str i of None \<Rightarrow> PNone | Some n \<Rightarrow> PInt n)
      else (case int_of_str (i @ f) of None \<Rightarrow> PNone
            | Some n \<Rightarrow> PFloat n ((case int_of_str e of None \<Rightarrow> 0 | Some k \<Rightarrow> k) - int (length f))))"

definition word_value :: "pystr \<Rightarrow> pyval option" where
  "word_value w =
     (if w = u ''null'' then Some PNone
      else if w = u ''true'' then Some (PBool True)
      else if w = u ''false'' then Some (PBool False)
      else if w = u ''NaN'' \<or> w = u ''Infinity'' \<or> w = u ''-Infinity'' then Some PSpecial
      else map_option number_value (re_fullmatch JSON_NUMBER_RE w))"

datatype lex_state =
    LBase
  | LString pystr \<comment> \<open>the characters so far, reversed\<close>
  | LEscape pystr
  | LUnicode pystr nat nat \<comment> \<open>characters, hexadecimal digits read, their value\<close>
  | LWord pystr

definition json_space :: "nat \<Rightarrow> bool" where
  "json_space c = (c = 32 \<or> c = 9 \<or> c = 10 \<or> c = 13)"

definition json_word_char :: "nat \<Rightarrow> bool" where
  "json_word_char c = (is_ascii_alpha c \<or> is_ascii_digit c \<or> c = 43 \<or> c = 45 \<or> c = 46)"

definition punct_tok :: "nat \<Rightarrow> tok option" where
  "punct_tok c =
     (if c = 91 then Some TOpenL else if c = 93 then Some TCloseL
      else if c = 123 then Some TOpenD else if c = 125 then Some TCloseD
      else if c = 44 then Some TComma else if c = 58 then Some TColon else None)"

definition hex_digit :: "nat \<Rightarrow> nat option" where
  "hex_digit c =
     (if is_ascii_digit c then Some (c - 48)
      else if 97 \<le> c \<and> c \<le> 102 then Some (c - 87)
      else if 65 \<le> c \<and> c \<le> 70 then Some (c - 55) else None)"

definition escape_char :: "nat \<Rightarrow> nat option" where
  "escape_char c =
     (if c = 34 \<or> c = 92 \<or> c = 47 then Some c
      else if c = 98 then Some 8 else if c = 102 then Some 12 else if c = 110 then Some 10
      else if c = 114 then Some 13 else if c = 116 then Some 9 else None)"

text \<open>A pair of surrogate escapes is one character.\<close>

fun join_surrogates :: "pystr \<Rightarrow> pystr" where
  "join_surrogates (h # l # cs) =
     (if 55296 \<le> h \<and> h \<le> 56319 \<and> 56320 \<le> l \<and> l \<le> 57343
      then (65536 + (h - 55296) * 1024 + (l - 56320)) # join_surrogates cs
      else h # join_surrogates (l # cs))"
| "join_surrogates cs = cs"

definition emit :: "tok \<Rightarrow> tok list option \<Rightarrow> tok list option" where
  "emit t ts = map_option ((#) t) ts"

function lex :: "lex_state \<Rightarrow> pystr \<Rightarrow> tok list option" where
  "lex LBase [] = Some []"
| "lex LBase (c # cs) =
     (if json_space c then lex LBase cs
      else if c = 34 then lex (LString []) cs
      else if json_word_char c then lex (LWord [c]) cs
      else case punct_tok c of None \<Rightarrow> None | Some t \<Rightarrow> emit t (lex LBase cs))"
| "lex (LString a) [] = None"
| "lex (LString a) (c # cs) =
     (if c = 34 then emit (TVal (PStr (join_surrogates (rev a)))) (lex LBase cs)
      else if c = 92 then lex (LEscape a) cs
      else if c < 32 then None
      else lex (LString (c # a)) cs)"
| "lex (LEscape a) [] = None"
| "lex (LEscape a) (c # cs) =
     (if c = 117 then lex (LUnicode a 0 0) cs
      else case escape_char c of None \<Rightarrow> None | Some d \<Rightarrow> lex (LString (d # a)) cs)"
| "lex (LUnicode a k v) [] = None"
| "lex (LUnicode a k v) (c # cs) =
     (case hex_digit c of None \<Rightarrow> None
      | Some h \<Rightarrow> if k = 3 then lex (LString ((16 * v + h) # a)) cs
                 else lex (LUnicode a (k + 1) (16 * v + h)) cs)"
| "lex (LWord a) [] = (case word_value (rev a) of None \<Rightarrow> None | Some v \<Rightarrow> Some [TVal v])"
| "lex (LWord a) (c # cs) =
     (if json_word_char c then lex (LWord (c # a)) cs
      else case word_value (rev a) of None \<Rightarrow> None
           | Some v \<Rightarrow> emit (TVal v) (lex LBase (c # cs)))"
  by pat_completeness auto
termination
  by (relation "measures [\<lambda>(st, cs). length cs, \<lambda>(st, cs). case st of LWord _ \<Rightarrow> 1 | _ \<Rightarrow> 0]") auto

section \<open>The parser\<close>

datatype frame = FList "pyval list" | FDict "(pystr \<times> pyval) list" pystr

datatype mode =
    WantValue | WantFirst \<comment> \<open>after \<open>[\<close>\<close> | WantFirstKey \<comment> \<open>after \<open>{\<close>\<close>
  | WantKey | WantColon | AfterValue | Finished pyval

text \<open>Storing a key again replaces its value, as in a Python dictionary.\<close>

fun dict_put :: "(pystr \<times> pyval) list \<Rightarrow> pystr \<Rightarrow> pyval \<Rightarrow> (pystr \<times> pyval) list" where
  "dict_put [] k v = [(k, v)]"
| "dict_put ((k', v') # kvs) k v = (if k' = k then (k, v) # kvs else (k', v') # dict_put kvs k v)"

definition put_value :: "frame list \<Rightarrow> pyval \<Rightarrow> frame list \<times> mode" where
  "put_value st v =
     (case st of
        [] \<Rightarrow> ([], Finished v)
      | FList xs # st' \<Rightarrow> (FList (xs @ [v]) # st', AfterValue)
      | FDict kvs k # st' \<Rightarrow> (FDict (dict_put kvs k v) [] # st', AfterValue))"

fun parse_step :: "tok \<Rightarrow> frame list \<times> mode \<Rightarrow> (frame list \<times> mode) option" where
  "parse_step (TVal v) (st, WantValue) = Some (put_value st v)"
| "parse_step (TVal v) (st, WantFirst) = Some (put_value st v)"
| "parse_step TOpenL (st, WantValue) = Some (FList [] # st, WantFirst)"
| "parse_step TOpenL (st, WantFirst) = Some (FList [] # st, WantFirst)"
| "parse_step TOpenD (st, WantValue) = Some (FDict [] [] # st, WantFirstKey)"
| "parse_step TOpenD (st, WantFirst) = Some (FDict [] [] # st, WantFirstKey)"
| "parse_step TCloseL (FList xs # st, WantFirst) = Some (put_value st (PList xs))"
| "parse_step TCloseD (FDict kvs k # st, WantFirstKey) = Some (put_value st (PDict kvs))"
| "parse_step (TVal (PStr s)) (FDict kvs k # st, WantFirstKey) = Some (FDict kvs s # st, WantColon)"
| "parse_step (TVal (PStr s)) (FDict kvs k # st, WantKey) = Some (FDict kvs s # st, WantColon)"
| "parse_step TColon (FDict kvs k # st, WantColon) = Some (FDict kvs k # st, WantValue)"
| "parse_step TComma (FList xs # st, AfterValue) = Some (FList xs # st, WantValue)"
| "parse_step TComma (FDict kvs k # st, AfterValue) = Some (FDict kvs k # st, WantKey)"
| "parse_step TCloseL (FList xs # st, AfterValue) = Some (put_value st (PList xs))"
| "parse_step TCloseD (FDict kvs k # st, AfterValue) = Some (put_value st (PDict kvs))"
| "parse_step _ _ = None"

fun parse_toks :: "tok list \<Rightarrow> frame list \<times> mode \<Rightarrow> pyval option" where
  "parse_toks [] (st, Finished v) = Some v"
| "parse_toks [] _ = None"
| "parse_toks (t # ts) st = (case parse_step t st of None \<Rightarrow> None | Some st' \<Rightarrow> parse_toks ts st')"

definition json_decode :: "pystr \<Rightarrow> pyval option" where
  "json_decode s = Option.bind (lex LBase s) (\<lambda>ts. parse_toks ts ([], WantValue))"

text \<open>\<open>json_loads\<close>\<close>

definition json_loads :: "pystr \<Rightarrow> pyval \<Rightarrow> pyval" where
  "json_loads value dflt =
     (if value = [] then dflt
      else case json_decode value of None \<Rightarrow> dflt | Some v \<Rightarrow> v)"

text \<open>\<open>json_loads(value, []) if isinstance(value, str) else value\<close>, as the callers write it\<close>

fun decoded :: "pyval \<Rightarrow> pyval" where
  "decoded (PStr s) = json_loads s (PList [])"
| "decoded v = v"

lemmas json_eval = json_decode_def json_loads_def word_value_def number_value_def emit_def
  json_space_def json_word_char_def punct_tok_def hex_digit_def escape_char_def put_value_def

lemma json_decode_example:
  "json_decode (u ''[\"1x2\", {\"a\": -7}]'') =
   Some (PList [PStr (u ''1x2''), PDict [(u ''a'', PInt (-7))]])"
  by (simp add: json_eval py_defs re_eval re_pats chr_eval int_of_str_def unsigned_int_def nat_of_digits_def)

end
