(* ===== verification/Rows.thy ===== *)
theory Rows
  imports Py_Json
begin

text \<open>
  The data every component works on: the search result of \<open>app/services/types.py\<close> and the
  subscription dictionary that \<open>normalize_subscription\<close> (\<open>subscription/crud/rows.py\<close>) makes of a
  row of the table \<open>subscriptions\<close>.  Columns with a fixed type have that type here; the decoded
  JSON columns and the quality rules are \<^typ>\<open>pyval\<close>; the keys the library code adds on the way
  (\<open>emby_episodes\<close>, \<open>emby_snapshot_failed\<close>) are fields with a value for "absent".
\<close>

type_synonym ekey = "int \<times> int" \<comment> \<open>season and episode\<close>

record search_result =
  r_title :: pystr
  r_url :: pystr
  r_source :: pystr
  r_message_id :: "pystr option"
  r_context :: pystr
  r_priority :: int

datatype media = Tv | Movie

record subscription =
  sub_id :: int
  sub_title :: pystr
  media_type :: media
  tmdb_id :: "int option"
  release_year :: "int option"
  sub_keywords :: "pystr list"
  sub_status :: pystr
  completed_at :: "pystr option"
  last_checked_at :: "pystr option"
  quality_rules :: pyval
  tmdb_total_count :: int
  tmdb_seasons :: pyval
  emby_count :: int
  emby_episode_keys :: pyval
  emby_episodes :: "ekey set option" \<comment> \<open>\<^const>\<open>None\<close>: the key is absent\<close>
  in_library :: bool
  emby_snapshot_failed :: bool

text \<open>\<open>str(subscription.get("tmdb_id") or "")\<close>\<close>

definition tmdb_id_str :: "subscription \<Rightarrow> pystr" where
  "tmdb_id_str sub =
     (case tmdb_id sub of None \<Rightarrow> [] | Some i \<Rightarrow> if i = 0 then [] else int_str i)"

text \<open>A subscription with every optional part empty, for concrete examples\<close>

definition blank_subscription :: subscription where
  "blank_subscription =
     \<lparr>sub_id = 1, sub_title = [], media_type = Tv, tmdb_id = None, release_year = None, sub_keywords = [],
      sub_status = u ''active'', completed_at = None, last_checked_at = None, quality_rules = PDict [],
      tmdb_total_count = 0, tmdb_seasons = PList [], emby_count = 0, emby_episode_keys = PList [],
      emby_episodes = None, in_library = False, emby_snapshot_failed = False\<rparr>"

end
