(* ===== verification/Text_Cjk.thy ===== *)
theory Text_Cjk
  imports Py_Regex
begin

text \<open>
  \<open>app/services/text_cjk\<close> and \<open>app/services/match_text.py\<close>: the table from traditional and
  Japanese-variant characters to simplified ones, the aliases of a title or query, and the compact
  form in which titles, keywords and resource texts are compared.  The main facts: simplification
  is idempotent, the compact form is a filter over code points, so it is compatible with
  concatenation and with being a substring, and it consists of word characters only.
\<close>

section \<open>The character table\<close>

text \<open>\<open>_TRAD_TO_SIMP\<close>, in the order of the source, in three parts\<close>

definition trad_to_simp_1 :: "(nat \<times> nat) list" where
  "trad_to_simp_1 = [
    (19978, 19978), (20006, 24182), (20027, 20027), (20098, 20081), (20301, 20301), (20316, 20316),
    (20358, 26469), (20448, 20384), (20491, 20010), (20497, 20204), (20597, 20390), (20633, 22791),
    (20659, 20256), (20663, 20260), (20729, 20215), (20740, 20159), (20778, 20248), (20809, 20809),
    (20813, 20813), (20818, 20799), (20837, 20837), (20839, 20869), (20841, 20004), (20856, 20856),
    (20998, 20998), (21002, 21002), (21109, 21019), (21123, 21010), (21127, 21095), (21133, 21073),
    (21205, 21160), (21209, 21153), (21213, 32988), (21214, 21171), (21218, 21183), (21237, 21169),
    (21312, 21306), (21333, 21333), (21344, 21344), (21367, 21367), (21407, 21407), (21475, 21475),
    (21517, 21517), (21578, 21578), (21855, 21551), (22238, 22238), (22283, 22269), (22285, 22260),
    (22290, 22253), (22294, 22270), (22577, 25253), (22580, 22330), (22686, 22686), (22739, 21387),
    (22763, 22763), (22818, 26790), (22846, 22841), (23067, 23089), (23308, 23047), (23383, 23383),
    (23395, 23395), (23403, 23385), (23416, 23398), (23436, 23436), (23526, 23454), (23531, 20889),
    (23553, 23553), (23560, 19987), (23565, 23545), (23566, 23548), (23652, 23618), (23798, 23707),
    (23884, 23884), (23996, 23679), (24107, 24072), (24128, 24103), (24149, 24149), (24185, 24178),
    (24230, 24230), (24291, 24191), (24335, 24335), (24375, 24378), (24392, 24377), (24409, 27719),
    (24460, 21518), (24478, 20174), (24489, 22797), (24565, 24565), (24739, 24739), (24801, 24694),
    (24859, 29233), (24907, 24577), (24950, 24198), (25033, 24212), (25088, 24651), (25136, 25112),
    (25138, 25103), (25163, 25163), (25345, 25345), (25552, 25552), (25563, 25442), (25773, 25773),
    (25802, 20987), (25818, 25454), (25836, 25311), (25844, 25193), (25885, 25668), (25915, 25915),
    (25943, 36133), (25976, 25968), (25991, 25991), (26032, 26032), (26085, 26085), (26126, 26126),
    (26144, 26144), (26178, 26102), (26224, 26224), (26356, 26356), (26360, 20070)]"

definition trad_to_simp_2 :: "(nat \<times> nat) list" where
  "trad_to_simp_2 = [
    (26371, 20250), (26399, 26399), (26481, 19996), (26684, 26684), (26800, 26800), (26989, 19994),
    (26997, 26497), (27036, 27036), (27083, 26500), (27085, 26538), (27138, 20048), (27161, 26631),
    (27193, 26641), (27231, 26426), (27284, 26723), (27298, 26816), (27402, 26435), (27511, 21382),
    (27544, 27531), (27578, 26432), (27579, 22771), (27580, 22771), (27770, 20915), (27841, 20917),
    (28023, 28023), (28165, 28165), (28204, 27979), (28310, 20934), (28331, 28201), (28436, 28436),
    (28450, 27721), (28459, 28459), (28507, 28508), (28629, 28287), (28639, 27982), (28771, 28286),
    (28858, 20026), (28961, 26080), (29105, 28909), (29229, 20105), (29255, 29255), (29256, 29256),
    (29509, 29422), (29518, 22870), (29544, 29420), (29554, 33719), (29575, 29575), (29645, 29645),
    (29694, 29616), (29986, 20135), (30002, 30002), (30058, 30058), (30059, 30011), (30064, 24322),
    (30070, 24403), (30274, 30103), (30332, 21457), (30436, 30424), (30446, 30446), (30452, 30452),
    (30526, 20247), (30828, 30828), (30865, 30865), (30879, 30879), (30908, 30721), (31150, 31036),
    (31168, 31168), (31278, 31181), (31406, 31351), (31456, 31456), (31471, 31471), (31478, 31454),
    (31680, 33410), (31777, 31616), (31925, 31908), (32000, 32426), (32004, 32422), (32005, 32418),
    (32025, 32440), (32026, 32423), (32066, 32456), (32068, 32452), (32080, 32467), (32113, 32479),
    (32147, 32463), (32156, 32508), (32160, 32511), (32173, 32500), (32178, 32593), (32218, 32447),
    (32232, 32534), (32291, 21439), (32302, 32553), (32317, 24635), (32321, 32321), (32340, 32455),
    (32363, 31995), (32380, 32487), (32396, 32493), (32879, 32852), (32882, 22768), (32893, 21548),
    (33067, 33073), (33126, 33041), (33274, 21488), (33287, 19982), (33290, 26087), (33382, 33328),
    (33399, 33395), (33521, 33521), (33674, 24196), (33775, 21326), (33836, 19975), (34253, 34013),
    (34255, 34255), (34269, 33402), (34277, 33647), (34389, 22788), (34395, 34394), (34399, 21495)]"

definition trad_to_simp_3 :: "(nat \<times> nat) list" where
  "trad_to_simp_3 = [
    (34892, 34892), (34899, 26415), (34907, 21355), (35023, 37324), (35037, 35013), (35041, 37324),
    (35069, 21046), (35079, 22797), (35222, 35270), (35242, 20146), (35258, 35273), (35264, 35266),
    (35330, 35746), (35336, 35745), (35338, 35759), (35352, 35760), (35373, 35774), (35413, 35780),
    (35422, 35789), (35430, 35797), (35441, 35805), (35442, 35813), (35468, 24535), (35469, 35748),
    (35486, 35821), (35498, 35828), (35506, 35838), (35657, 35777), (35672, 35782), (35703, 25252),
    (35712, 35835), (35722, 21464), (36001, 36130), (36007, 36139), (36020, 36149), (36023, 20080),
    (36027, 36153), (36039, 36164), (36067, 21334), (36068, 36145), (36074, 36136), (36092, 36141),
    (36093, 36187), (36554, 36710), (36557, 20891), (36575, 36719), (36617, 36733), (36635, 36742),
    (36655, 36753), (36664, 36755), (36681, 36716), (36776, 36776), (36889, 36825), (36899, 36830),
    (36913, 21608), (36914, 36827), (36938, 28216), (36939, 36816), (36942, 36807), (36947, 36947),
    (36948, 36798), (36983, 36801), (36984, 36873), (36996, 36824), (37002, 36793), (37096, 37096),
    (37129, 20065), (37291, 21307), (37504, 38134), (37636, 24405), (37666, 38065), (37782, 38145),
    (37806, 38215), (37832, 38142), (38000, 38053), (38263, 38271), (38272, 38376), (38281, 38381),
    (38283, 24320), (38291, 38388), (38321, 38405), (38364, 20851), (38480, 38480), (38498, 38498),
    (38520, 38470), (38538, 38431), (38570, 38505), (38587, 21482), (38598, 38598), (38620, 26434),
    (38627, 38590), (38642, 20113), (38651, 30005), (38695, 38654), (38728, 28789), (38867, 38889),
    (38917, 39033), (38928, 39044), (38957, 22836), (38971, 39057), (38988, 39064), (39080, 39118),
    (39131, 39134), (39178, 20859), (39192, 20313), (39208, 39302), (39318, 39318), (39340, 39532),
    (39511, 39564), (39636, 20307), (39640, 39640), (39717, 26007), (40179, 20964), (40441, 40560),
    (40599, 20029), (40643, 40644), (40670, 28857), (40845, 40857)]"



definition TRAD_TO_SIMP :: "(nat \<times> nat) list" where
  "TRAD_TO_SIMP = trad_to_simp_1 @ trad_to_simp_2 @ trad_to_simp_3"

lemmas trad_to_simp_defs = TRAD_TO_SIMP_def trad_to_simp_1_def trad_to_simp_2_def trad_to_simp_3_def

text \<open>Every key and every value of the table is a CJK character, so ASCII never enters it.\<close>

fun table_get :: "(nat \<times> nat) list \<Rightarrow> nat \<Rightarrow> nat" where
  "table_get [] c = c"
| "table_get ((k, v) # t) c = (if c = k then v else table_get t c)"

definition simplify_char :: "nat \<Rightarrow> nat" where
  "simplify_char c = table_get TRAD_TO_SIMP c"

definition simplify_cjk :: "pystr \<Rightarrow> pystr" where
  "simplify_cjk s = map simplify_char s"

definition normalize_cjk_for_match :: "pystr \<Rightarrow> pystr" where
  [py_defs]: "normalize_cjk_for_match s = simplify_cjk s"

lemma proper_values_not_keys:
  "list_all (\<lambda>(k, v). v = k \<or> list_all (\<lambda>(a, b). a \<noteq> v) TRAD_TO_SIMP) TRAD_TO_SIMP"
  by (simp add: trad_to_simp_defs)

lemma table_get_cases: "table_get t c = c \<or> (c, table_get t c) \<in> set t"
  by (induction t c rule: table_get.induct) auto

lemma table_get_absent: "\<forall>(a, b) \<in> set t. a \<noteq> c \<Longrightarrow> table_get t c = c"
  by (induction t c rule: table_get.induct) auto

lemma simplify_char_idem [simp]: "simplify_char (simplify_char c) = simplify_char c"
proof (cases "simplify_char c = c")
  case False
  then have "(c, simplify_char c) \<in> set TRAD_TO_SIMP"
    using table_get_cases [of TRAD_TO_SIMP c] by (simp add: simplify_char_def)
  with False have "\<forall>(a, b) \<in> set TRAD_TO_SIMP. a \<noteq> simplify_char c"
    using proper_values_not_keys unfolding list_all_iff by fastforce
  then show ?thesis
    unfolding simplify_char_def by (rule table_get_absent)
qed simp

lemma table_keys_cjk: "list_all (\<lambda>(k, v). 19968 \<le> k) TRAD_TO_SIMP"
  by (simp add: trad_to_simp_defs)

lemma simplify_char_below [simp]: "c < 19968 \<Longrightarrow> simplify_char c = c"
  unfolding simplify_char_def
  by (rule table_get_absent) (use table_keys_cjk in \<open>force simp: list_all_iff\<close>)

text \<open>For evaluation: one of the three parts decides, the keys being in ascending order\<close>

lemma table_get_append:
  "table_get (s @ t) c = (if \<exists>p \<in> set s. fst p = c then table_get s c else table_get t c)"
  by (induction s c rule: table_get.induct) auto

lemma part_bounds:
  "list_all (\<lambda>(k, v). k < 26365) trad_to_simp_1"
  "list_all (\<lambda>(k, v). 26365 \<le> k \<and> k < 34500) trad_to_simp_2"
  "list_all (\<lambda>(k, v). 34500 \<le> k) trad_to_simp_3"
  by (simp_all add: trad_to_simp_defs)

lemma simplify_char_eval:
  "simplify_char c =
     (if c < 19968 then c
      else if c < 26365 then table_get trad_to_simp_1 c
      else if c < 34500 then table_get trad_to_simp_2 c
      else table_get trad_to_simp_3 c)"
proof -
  have a: "table_get trad_to_simp_1 c = c" if "26365 \<le> c"
    by (rule table_get_absent) (use part_bounds(1) that in \<open>force simp: list_all_iff\<close>)
  have b: "table_get trad_to_simp_2 c = c" if "c < 26365 \<or> 34500 \<le> c"
    by (rule table_get_absent) (use part_bounds(2) that in \<open>force simp: list_all_iff\<close>)
  have d: "table_get trad_to_simp_3 c = c" if "c < 34500"
    by (rule table_get_absent) (use part_bounds(3) that in \<open>force simp: list_all_iff\<close>)
  have in1: "\<exists>p \<in> set trad_to_simp_1. fst p = c \<Longrightarrow> c < 26365"
    using part_bounds(1) by (force simp: list_all_iff)
  have in2: "\<exists>p \<in> set trad_to_simp_2. fst p = c \<Longrightarrow> 26365 \<le> c \<and> c < 34500"
    using part_bounds(2) by (force simp: list_all_iff)
  show ?thesis
  proof (cases "c < 19968")
    case False
    have out1: "table_get trad_to_simp_1 c = c" if "\<not> (\<exists>p \<in> set trad_to_simp_1. fst p = c)"
      by (rule table_get_absent) (use that in force)
    have out2: "table_get trad_to_simp_2 c = c" if "\<not> (\<exists>p \<in> set trad_to_simp_2. fst p = c)"
      by (rule table_get_absent) (use that in force)
    show ?thesis
      using False in1 in2 out1 out2 a b d
      by (cases "c < 26365"; cases "c < 34500")
        (auto simp: simplify_char_def TRAD_TO_SIMP_def table_get_append)
  qed simp
qed

lemma simplify_cjk_idem [simp]: "simplify_cjk (simplify_cjk s) = simplify_cjk s"
  by (simp add: simplify_cjk_def)

lemma simplify_cjk_append [simp]: "simplify_cjk (xs @ ys) = simplify_cjk xs @ simplify_cjk ys"
  by (simp add: simplify_cjk_def)

lemma length_simplify_cjk [simp]: "length (simplify_cjk s) = length s"
  by (simp add: simplify_cjk_def)

section \<open>Aliases of titles and queries\<close>

text \<open>\<open>_SPACE_RE.sub(" ", str(title or "").strip())\<close>\<close>

definition SPACE_RE :: re where
  [re_pats]: "SPACE_RE = many1 space"

definition collapse_spaces :: "pystr \<Rightarrow> pystr" where
  [py_defs]: "collapse_spaces s = re_sub SPACE_RE [32] (strip s)"

text \<open>\<open>_TITLE_PREFIX_ALIASES\<close>: xin, xu (simplified, traditional), chong qi (both), chong sheng, gui lai (both)\<close>

definition TITLE_PREFIX_ALIASES :: "pystr list" where
  [py_defs]: "TITLE_PREFIX_ALIASES =
     [[0x65B0], [0x7EED], [0x7E8C], [0x91CD, 0x542F], [0x91CD, 0x555F], [0x91CD, 0x751F],
      [0x5F52, 0x6765], [0x6B78, 0x4F86]]"

text \<open>The characters stripped after a prefix: space, middle dots, colon, hyphen and dashes\<close>

definition alias_lstrip_chars :: pystr where
  [py_defs]: "alias_lstrip_chars = [32, 0xB7, 0x30FB, 58, 45, 0x2014, 0x2013]"

fun add_prefix_aliases :: "pystr \<Rightarrow> pystr list \<Rightarrow> pystr list \<Rightarrow> pystr list" where
  "add_prefix_aliases raw aliases [] = aliases"
| "add_prefix_aliases raw aliases (p # ps) =
     (if starts_with p raw \<and> 2 + length p \<le> length raw then
        (let stripped = lstrip_chars alias_lstrip_chars (drop (length p) raw) in
         if stripped \<noteq> [] \<and> stripped \<notin> set aliases
         then add_prefix_aliases raw (aliases @ [stripped]) ps
         else add_prefix_aliases raw aliases ps)
      else add_prefix_aliases raw aliases ps)"

definition title_prefix_aliases :: "pystr \<Rightarrow> pystr list" where
  "title_prefix_aliases title =
     (let raw = collapse_spaces title in
      if raw = [] then [] else add_prefix_aliases raw [raw] TITLE_PREFIX_ALIASES)"

text \<open>\<open>query_match_aliases\<close>: the inner \<open>add\<close> on the pair of seen keys and aliases\<close>

definition query_alias_add :: "pystr \<Rightarrow> pystr list \<times> pystr list \<Rightarrow> pystr list \<times> pystr list" where
  "query_alias_add value st =
     (let normalized = collapse_spaces value; key = casefold normalized in
      if normalized = [] then st
      else if key \<in> set (fst st) then st
      else (fst st @ [key], snd st @ [normalized]))"

fun query_alias_loop :: "pystr list \<Rightarrow> pystr list \<times> pystr list \<Rightarrow> pystr list \<times> pystr list" where
  "query_alias_loop [] st = st"
| "query_alias_loop (item # items) st =
     query_alias_loop items (query_alias_add (simplify_cjk item) (query_alias_add item st))"

definition query_match_aliases :: "pystr \<Rightarrow> pystr list" where
  "query_match_aliases query =
     (let raw = collapse_spaces query in
      if raw = [] then [] else snd (query_alias_loop (title_prefix_aliases raw) ([], [])))"

lemma add_prefix_aliases_keeps: "\<exists>xs. add_prefix_aliases raw aliases ps = aliases @ xs"
  by (induction raw aliases ps rule: add_prefix_aliases.induct) (auto simp: Let_def)

lemma add_prefix_aliases_distinct:
  "distinct aliases \<Longrightarrow> distinct (add_prefix_aliases raw aliases ps)"
  by (induction raw aliases ps rule: add_prefix_aliases.induct) (auto simp: Let_def)

lemma suffix_lstrip: "suffix (lstrip_by P s) s"
  by (simp add: lstrip_by_def suffix_dropWhile)

lemma add_prefix_aliases_suffix:
  "\<forall>a \<in> set aliases. a \<noteq> [] \<and> suffix a raw \<Longrightarrow>
   a \<in> set (add_prefix_aliases raw aliases ps) \<Longrightarrow> a \<noteq> [] \<and> suffix a raw"
proof (induction raw aliases ps rule: add_prefix_aliases.induct)
  case (2 raw aliases p ps)
  have "suffix (lstrip_chars alias_lstrip_chars (drop (length p) raw)) raw"
    unfolding lstrip_chars_def using suffix_lstrip suffix_drop suffix_order.trans by blast
  with 2 show ?case by (auto simp: Let_def split: if_splits)
qed simp

lemma title_prefix_aliases_suffix:
  "a \<in> set (title_prefix_aliases t) \<Longrightarrow> a \<noteq> [] \<and> suffix a (collapse_spaces t)"
  by (auto simp: title_prefix_aliases_def Let_def split: if_splits
      dest: add_prefix_aliases_suffix [rotated])

lemma title_prefix_aliases_distinct: "distinct (title_prefix_aliases t)"
  by (auto simp: title_prefix_aliases_def Let_def intro!: add_prefix_aliases_distinct)

lemma title_prefix_aliases_hd:
  "collapse_spaces t \<noteq> [] \<Longrightarrow> \<exists>xs. title_prefix_aliases t = collapse_spaces t # xs"
  using add_prefix_aliases_keeps [of "collapse_spaces t" "[collapse_spaces t]" TITLE_PREFIX_ALIASES]
  by (simp add: title_prefix_aliases_def Let_def)

definition alias_state_ok :: "pystr list \<times> pystr list \<Rightarrow> bool" where
  "alias_state_ok st = (fst st = map casefold (snd st) \<and> distinct (fst st))"

lemma query_alias_add_ok: "alias_state_ok st \<Longrightarrow> alias_state_ok (query_alias_add v st)"
  by (auto simp: alias_state_ok_def query_alias_add_def Let_def)

lemma query_alias_loop_ok: "alias_state_ok st \<Longrightarrow> alias_state_ok (query_alias_loop items st)"
  by (induction items st rule: query_alias_loop.induct) (simp_all add: query_alias_add_ok)

lemma query_match_aliases_distinct: "distinct (map casefold (query_match_aliases q))"
proof -
  have "alias_state_ok ([], [])" by (simp add: alias_state_ok_def)
  then have "alias_state_ok (query_alias_loop items ([], []))" for items
    by (rule query_alias_loop_ok)
  then have "distinct (map casefold (snd (query_alias_loop items ([], []))))" for items
    unfolding alias_state_ok_def by metis
  then show ?thesis
    by (simp add: query_match_aliases_def Let_def)
qed

section \<open>The compact form\<close>

text \<open>\<open>[\\W_]+\<close>\<close>

definition drop_cls :: "nat \<Rightarrow> bool" where
  [chr_eval]: "drop_cls c = (c = 95 \<or> \<not> is_word c)"

definition MATCH_DROP_RE :: re where
  [re_pats]: "MATCH_DROP_RE = many1 (Cls drop_cls)"

definition compact_match_text :: "pystr \<Rightarrow> pystr" where
  "compact_match_text value = re_sub MATCH_DROP_RE [] (casefold (normalize_cjk_for_match value))"

text \<open>\<open>(?<!\\d)(?:19|20)\\d{2}(?!\\d)\<close>\<close>

definition YEAR_RE :: re where
  [re_pats]: "YEAR_RE =
     seqs [NotBehind is_decimal, Alt (lit ''19'') (lit ''20''), upto 2 2 digit, NotAhead digit]"

text \<open>\<open>match_text.years_from_text\<close>, the version without a context check\<close>

definition plain_years_from_text :: "pystr \<Rightarrow> nat set" where
  "plain_years_from_text value =
     set (List.map_filter (\<lambda>m. nat_of_digits (m_text m)) (re_finditer YEAR_RE value))"

text \<open>\<open>safe_text\<close> and \<open>_safe_text\<close> on an optional string: the rows never hold another type there\<close>

definition safe_text :: "pystr option \<Rightarrow> pystr" where
  [py_defs]: "safe_text value = (case value of None \<Rightarrow> [] | Some s \<Rightarrow> s)"

lemma compact_match_text_filter:
  "compact_match_text s = filter (\<lambda>c. \<not> drop_cls c) (casefold (simplify_cjk s))"
  by (simp add: compact_match_text_def MATCH_DROP_RE_def re_sub_plus_cls normalize_cjk_for_match_def)

lemma compact_match_text_Nil [simp]: "compact_match_text [] = []"
  by (simp add: compact_match_text_filter simplify_cjk_def)

text \<open>
  A text key: a normal form of texts that works character by character.  Matching by substring of
  keys is then complete: what occurs in a text occurs in its key.
\<close>

locale text_key =
  fixes key :: "pystr \<Rightarrow> pystr"
  assumes key_append: "key (xs @ ys) = key xs @ key ys"
begin

lemma key_contains: "contains p s \<Longrightarrow> contains (key p) (key s)"
  unfolding contains_iff by (metis key_append)

lemma key_join: "ws \<noteq> [] \<Longrightarrow> key (join sep ws) = join (key sep) (map key ws)"
  by (induction sep ws rule: join.induct) (auto simp: key_append)

lemma key_part: "w \<in> set ws \<Longrightarrow> contains (key w) (key (join sep ws))"
proof (rule key_contains)
  show "w \<in> set ws \<Longrightarrow> contains w (join sep ws)"
  proof (induction sep ws rule: join.induct)
    case (3 sep a b ws)
    then consider "w = a" | "contains w (join sep (b # ws))" by auto
    then show ?case
    proof cases
      case 1
      then show ?thesis by (auto simp: contains_iff)
    next
      case 2
      then show ?thesis using contains_append [OF 2, of "a @ sep" "[]"] by simp
    qed
  qed auto
qed

end

interpretation compact: text_key compact_match_text
  by unfold_locales (simp add: compact_match_text_filter)

interpretation folded: text_key casefold
  by unfold_locales simp

interpretation simplified: text_key simplify_cjk
  by unfold_locales simp

lemma compact_simplify [simp]: "compact_match_text (simplify_cjk s) = compact_match_text s"
  by (simp add: compact_match_text_filter)

lemma compact_word_chars: "c \<in> set (compact_match_text s) \<Longrightarrow> is_word c \<and> c \<noteq> 95"
  by (auto simp: compact_match_text_filter drop_cls_def)

end
