(* ===== verification/Match_Text.thy ===== *)
theory Match_Text
  imports Text_Cjk
begin

text \<open>
  The text helpers shared by matching and searching: \<open>app/services/subscription/match/text_utils.py\<close>
  and \<open>app/services/link/search_utils.py\<close> (years in a text, titles without their year, rule words,
  query variants, local filtering).  Shown: a year found lies between 1900 and 2099, spacing does
  not change a compact form, the list of queries has no duplicate, and a text that contains the
  query literally passes the local filter.
\<close>

section \<open>Words of a rule\<close>

text \<open>
  \<open>str(item)\<close> of an item that is a string, a number or a truth value.  A rule word that is itself a
  fraction, a list or a dictionary does not occur: the forms write strings.
\<close>

fun str_of_val :: "pyval \<Rightarrow> pystr" where
  "str_of_val PNone = u ''None''"
| "str_of_val (PBool b) = (if b then u ''True'' else u ''False'')"
| "str_of_val (PInt i) = int_str i"
| "str_of_val (PStr s) = s"
| "str_of_val _ = []"

definition nonempty_words :: "pystr list \<Rightarrow> pystr list" where
  "nonempty_words ws = filter (\<lambda>w. w \<noteq> []) (map strip ws)"

text \<open>\<open>[,?\\n\\r]+\<close>; a question mark where \<open>_split_filter_words\<close> has the full-width comma\<close>

definition RULE_WORD_SPLIT_RE :: re where
  [re_pats]: "RULE_WORD_SPLIT_RE = many1 (one_of [44, 63, 10, 13])"

definition split_rule_words :: "pyval \<Rightarrow> pystr list" where
  "split_rule_words value =
     (case value of
        PList items \<Rightarrow> nonempty_words (map str_of_val items)
      | _ \<Rightarrow> nonempty_words (re_split RULE_WORD_SPLIT_RE (str_of_val (por value (PStr [])))))"

text \<open>\<open>[,FF0C;FF1B\\n\\r]+\<close>\<close>

definition FILTER_WORD_SPLIT_RE :: re where
  [re_pats]: "FILTER_WORD_SPLIT_RE = many1 (one_of [44, 0xFF0C, 59, 0xFF1B, 10, 13])"

definition split_filter_words :: "pyval \<Rightarrow> pystr list" where
  "split_filter_words value =
     (case value of
        PList items \<Rightarrow> nonempty_words (map str_of_val items)
      | _ \<Rightarrow> nonempty_words (re_split FILTER_WORD_SPLIT_RE (str_of_val (por value (PStr [])))))"

record quality =
  preferred_quality :: "pystr list"
  exclude_keywords :: "pystr list"
  release_groups :: "pystr list"
  accept_mode :: pystr

definition normalize_quality_rules :: "pyval \<Rightarrow> quality" where
  "normalize_quality_rules value0 =
     (let value = (if is_pdict value0 then value0 else PDict []);
          mode = lower (strip (str_of_val (por (pget value (u ''accept_mode'')) (PStr (u ''all'')))))
      in \<lparr>preferred_quality = split_rule_words (pget value (u ''preferred_quality'')),
          exclude_keywords = split_rule_words (pget value (u ''exclude_keywords'')),
          release_groups = split_rule_words (pget value (u ''release_groups'')),
          accept_mode = (if mode \<in> {u ''all'', u ''pack'', u ''single''} then mode else u ''all'')\<rparr>)"

section \<open>Settings\<close>

definition truthy_setting :: "bool \<Rightarrow> pyval \<Rightarrow> bool" where
  "truthy_setting dflt value =
     (case value of
        PNone \<Rightarrow> dflt
      | PBool b \<Rightarrow> b
      | _ \<Rightarrow> lower (strip (str_of_val value)) \<in> set (map u [''1'', ''true'', ''yes'', ''on'', ''enabled'']))"

definition bounded_int :: "pyval \<Rightarrow> int \<Rightarrow> int \<Rightarrow> int \<Rightarrow> int" where
  "bounded_int value dflt minimum maximum =
     (let number = (case int_of_val value of None \<Rightarrow> dflt | Some n \<Rightarrow> n) in
      max minimum (min number maximum))"

section \<open>Years\<close>

definition TIMES_BEFORE_RE :: re where
  [re_pats]: "TIMES_BEFORE_RE = seqs [one_of [120, 88, 0xD7], spaces, Eos]"

definition TIMES_AFTER_RE :: re where
  [re_pats]: "TIMES_AFTER_RE = seqs [spaces, one_of [120, 88, 0xD7], spaces, upto 3 4 digit]"

definition DATE_AFTER_RE :: re where
  [re_pats]: "DATE_AFTER_RE =
     seqs [spaces, Alt (seqs [one_of [45, 47, 46], spaces, upto 1 2 digit, NotAhead digit])
                       (seqs [chr 0x5E74, spaces, upto 1 2 digit, NotAhead digit])]"

text \<open>
  The loop body on one match.  The two characters before it are the first two of the reversed text
  before it; a resolution such as \<open>1920x1080\<close> and a date such as \<open>2024-05\<close> are no years.
\<close>

definition year_of_match :: "mtch \<Rightarrow> int option" where
  "year_of_match m =
     (let before = rev (take 2 (m_before m)); after = take 6 (m_after m) in
      if re_found TIMES_BEFORE_RE before \<or> re_match TIMES_AFTER_RE after \<noteq> None then None
      else if re_match DATE_AFTER_RE after \<noteq> None then None
      else case nat_of_digits (m_text m) of
        None \<Rightarrow> None
      | Some n \<Rightarrow> if 1900 \<le> n \<and> n \<le> 2100 then Some (int n) else None)"

definition years_from_text :: "pystr \<Rightarrow> int set" where
  "years_from_text value = set (List.map_filter year_of_match (re_finditer YEAR_RE value))"

text \<open>The copy of the function in \<open>search_utils.py\<close> has the same body.\<close>

definition search_years_from_text :: "pystr \<Rightarrow> int set" where
  "search_years_from_text value = set (List.map_filter year_of_match (re_finditer YEAR_RE value))"

definition BRACKETED_YEAR_RE :: re where
  [re_pats]: "BRACKETED_YEAR_RE =
     seqs [one_of [40, 0xFF08, 91, 0x3010], spaces, Alt (lit ''19'') (lit ''20''), upto 2 2 digit, spaces,
           one_of [41, 0xFF09, 93, 0x3011]]"

definition title_without_year :: "pystr \<Rightarrow> pystr" where
  "title_without_year text =
     strip (re_sub SPACE_RE [32] (re_sub YEAR_RE [32] (re_sub BRACKETED_YEAR_RE [32] text)))"

definition query_without_year :: "pystr \<Rightarrow> pystr" where
  "query_without_year text =
     strip (re_sub SPACE_RE [32] (re_sub YEAR_RE [32] (re_sub BRACKETED_YEAR_RE [32] text)))"

section \<open>Query variants\<close>

definition compact_search_text :: "pystr \<Rightarrow> pystr" where
  "compact_search_text value = re_sub MATCH_DROP_RE [] (casefold (normalize_cjk_for_match value))"

definition DELIMITER_RE :: re where
  [re_pats]: "DELIMITER_RE = many1 (one_of [0xFF1A, 58, 0xFF5C, 124, 0xB7, 0x30FB, 0x2022, 0x2014, 0x2013, 45])"

definition alias_trim_chars :: pystr where
  [py_defs]: "alias_trim_chars =
     [32, 0x300A, 0x300B, 60, 62, 0x300C, 0x300D, 0x300E, 0x300F, 34, 39, 0x201C, 0x201D, 0x2018, 0x2019,
      40, 41, 0xFF08, 0xFF09, 91, 93, 0x3010, 0x3011]"

text \<open>\<open>if value and value not in xs: xs.append(value)\<close>\<close>

definition add_new :: "pystr \<Rightarrow> pystr list \<Rightarrow> pystr list" where
  "add_new v xs = (if v = [] \<or> v \<in> set xs then xs else xs @ [v])"

definition title_delimiter_aliases :: "pystr \<Rightarrow> pystr list" where
  "title_delimiter_aliases value =
     (let s = collapse_spaces value in
      if s = [] then []
      else fold add_new (filter (\<lambda>p. 2 \<le> length p) (map (strip_chars alias_trim_chars) (re_split DELIMITER_RE s))) [])"

definition or_base :: "pystr \<Rightarrow> pystr" where
  "or_base alias = or_str (query_without_year alias) alias"

definition base_variants :: "pystr \<Rightarrow> pystr list" where
  "base_variants alias = or_base alias # title_delimiter_aliases (or_base alias)"

text \<open>\<open>{base} {year}\<close>, \<open>{base} ({year})\<close> and the same with full-width parentheses\<close>

definition year_variants :: "pystr \<Rightarrow> pystr list" where
  "year_variants alias =
     (let base = or_base alias; years = sorted_list_of_set (search_years_from_text alias) in
      alias # (if base = [] then [] else
        concat (map (\<lambda>y. [base @ [32] @ int_str y,
                          base @ [32, 40] @ int_str y @ [41],
                          base @ [0xFF08] @ int_str y @ [0xFF09]]) years)))"

definition search_title_variants :: "pystr \<Rightarrow> pystr list" where
  "search_title_variants title =
     (let raw = collapse_spaces title in
      if raw = [] then []
      else let aliases = title_prefix_aliases raw in
        fold (add_new \<circ> collapse_spaces)
          (concat (map base_variants aliases) @ concat (map year_variants aliases)) [])"

text \<open>\<open>_search_title_variants(str(item).strip()) or [str(item).strip()]\<close>\<close>

definition keyword_variants :: "pystr \<Rightarrow> pystr list" where
  "keyword_variants item =
     (let vs = search_title_variants (strip item) in if vs = [] then [strip item] else vs)"

text \<open>The state of the keyword loop: the keys seen and the keywords kept\<close>

definition keep_keyword :: "pystr set \<Rightarrow> pystr \<Rightarrow> pystr set \<times> pystr list \<Rightarrow> pystr set \<times> pystr list" where
  "keep_keyword title_keys keyword st =
     (let key = compact_search_text keyword in
      if keyword = [] \<or> key = [] \<or> key \<in> title_keys \<or> key \<in> fst st then st
      else (insert key (fst st), snd st @ [keyword]))"

definition clean_keywords :: "pystr set \<Rightarrow> pystr list \<Rightarrow> pystr list" where
  "clean_keywords title_keys keywords =
     snd (fold (keep_keyword title_keys) (concat (map keyword_variants keywords)) ({}, []))"

text \<open>
  The nested loops that combine base queries and keywords; \<open>Inl\<close> is the early return, taken right
  after a query is added and the budget is reached.
\<close>

fun combine_queries :: "nat \<Rightarrow> (pystr \<times> pystr) list \<Rightarrow> pystr list \<Rightarrow> pystr list + pystr list" where
  "combine_queries limit [] queries = Inr queries"
| "combine_queries limit ((keyword, base) # pairs) queries =
     (let key = compact_search_text keyword in
      if key \<noteq> [] \<and> contains key (compact_search_text base) then combine_queries limit pairs queries
      else let queries = add_new (collapse_spaces (base @ [32] @ keyword)) queries in
        if limit \<le> length queries then Inl queries else combine_queries limit pairs queries)"

definition expanded_search_queries :: "pystr \<Rightarrow> pystr list \<Rightarrow> nat \<Rightarrow> pystr list" where
  "expanded_search_queries title keywords limit =
     (let base_queries = search_title_variants title in
      if base_queries = [] then []
      else let kept = clean_keywords (compact_search_text ` set base_queries) keywords;
               ordered = filter (\<lambda>q. search_years_from_text q = {}) base_queries
                         @ filter (\<lambda>q. search_years_from_text q \<noteq> {}) base_queries;
               queries = fold (add_new \<circ> collapse_spaces) ordered []
        in case combine_queries limit (List.product kept ordered) queries of
             Inl qs \<Rightarrow> qs
           | Inr qs \<Rightarrow> take limit qs)"

section \<open>The local filter\<close>

definition query_parts :: "pystr \<Rightarrow> pystr list" where
  "query_parts candidate = filter (\<lambda>p. p \<noteq> []) (re_split SPACE_RE candidate)"

definition local_text_matches_query :: "pystr \<Rightarrow> pystr \<Rightarrow> bool" where
  "local_text_matches_query text query =
     (let compact_text = compact_search_text text;
          aliases = query_match_aliases query;
          candidates = (if aliases = [] then [strip query] else aliases)
      in compact_text \<noteq> []
         \<and> (\<exists>candidate \<in> set candidates.
              query_parts candidate \<noteq> []
              \<and> (\<forall>part \<in> set (query_parts candidate). contains (compact_search_text part) compact_text)))"

section \<open>Facts on years and settings\<close>

lemma years_bounds: "y \<in> years_from_text t \<Longrightarrow> 1900 \<le> y \<and> y \<le> 2100"
  by (auto simp: years_from_text_def year_of_match_def List.map_filter_def Let_def split: if_splits option.splits)

lemma years_finite [simp]: "finite (years_from_text t)"
  by (simp add: years_from_text_def)

lemma search_years_eq: "search_years_from_text = years_from_text"
  by (rule ext) (simp add: search_years_from_text_def years_from_text_def)

lemma query_without_year_eq: "query_without_year = title_without_year"
  by (rule ext) (simp add: query_without_year_def title_without_year_def)

lemma compact_search_eq: "compact_search_text = compact_match_text"
  by (rule ext) (simp add: compact_search_text_def compact_match_text_def)

lemma bounded_int_bounds: "minimum \<le> maximum \<Longrightarrow> bounded_int v d minimum maximum \<in> {minimum..maximum}"
  by (auto simp: bounded_int_def Let_def)

lemma rule_words_ok: "w \<in> set (split_rule_words v) \<Longrightarrow> w \<noteq> [] \<and> strip w = w"
  by (auto simp: split_rule_words_def nonempty_words_def split: pyval.splits)

lemma accept_mode_cases: "accept_mode (normalize_quality_rules v) \<in> {u ''all'', u ''pack'', u ''single''}"
  by (auto simp: normalize_quality_rules_def Let_def)

section \<open>Spacing and the compact form\<close>

lemma space_cases:
  "is_space c \<Longrightarrow> c < 128 \<and> \<not> is_word c \<or> c \<in> {133, 160, 5760, 8232, 8233, 8239, 8287, 12288}
     \<or> (8192 \<le> c \<and> c \<le> 8202)"
  by (auto simp: chr_eval split: if_splits)

text \<open>No range of the character tables meets the white space outside ASCII.\<close>

definition space_free :: "nat \<Rightarrow> nat \<Rightarrow> bool" where
  "space_free lo hi =
     ((hi < 133 \<or> 133 < lo) \<and> (hi < 160 \<or> 160 < lo) \<and> (hi < 5760 \<or> 5760 < lo)
      \<and> (hi < 8192 \<or> 8202 < lo) \<and> (hi < 8232 \<or> 8233 < lo) \<and> (hi < 8239 \<or> 8239 < lo)
      \<and> (hi < 8287 \<or> 8287 < lo) \<and> (hi < 12288 \<or> 12288 < lo))"

lemma alpha_space_free: "list_all (\<lambda>(lo, hi). space_free lo hi) alpha_ranges"
  by (simp add: space_free_def alpha_ranges_def)

lemma numeric_space_free: "list_all (\<lambda>(lo, hi). space_free lo hi) numeric_ranges"
  by (simp add: space_free_def numeric_ranges_def)

lemma casefold_space_free: "list_all (\<lambda>(lo, hi, st, d). space_free lo hi) casefold_runs"
  by (simp add: space_free_def casefold_runs_def)

lemma casefold_full_space_free: "list_all (\<lambda>(k, cs). space_free k k) casefold_full"
  by (simp add: space_free_def casefold_full_def)

definition special_space :: "nat \<Rightarrow> bool" where
  "special_space c \<longleftrightarrow> c \<in> {133, 160, 5760, 8232, 8233, 8239, 8287, 12288} \<or> (8192 \<le> c \<and> c \<le> 8202)"

lemma special_space_out: "space_free lo hi \<Longrightarrow> special_space c \<Longrightarrow> \<not> (lo \<le> c \<and> c \<le> hi)"
  unfolding space_free_def special_space_def insert_iff empty_iff
  by presburger

lemma in_ranges_out: "list_all (\<lambda>(lo, hi). space_free lo hi) rs \<Longrightarrow> special_space c \<Longrightarrow> \<not> in_ranges rs c"
  by (induction rs c rule: in_ranges.induct) (auto dest: special_space_out)

lemma run_lookup_out:
  "list_all (\<lambda>(lo, hi, st, d). space_free lo hi) rs \<Longrightarrow> special_space c \<Longrightarrow> run_lookup rs c = c"
  by (induction rs c rule: run_lookup.induct) (auto dest: special_space_out)

lemma map_of_out: "list_all (\<lambda>(k, cs). space_free k k) t \<Longrightarrow> special_space c \<Longrightarrow> map_of t c = None"
  by (induction t) (auto dest: special_space_out)

lemma special_space_neutral:
  assumes "special_space c"
  shows "casefold_char c = [c] \<and> \<not> is_word c \<and> c < 19968"
  using in_ranges_out [OF alpha_space_free assms] in_ranges_out [OF numeric_space_free assms]
    run_lookup_out [OF casefold_space_free assms] map_of_out [OF casefold_full_space_free assms] assms
  by (auto simp: casefold_char_def is_word_def is_alnum_def is_cjk_cp_def no_case_block_def special_space_def)

lemma space_not_word: "is_space c \<Longrightarrow> casefold_char c = [c] \<and> \<not> is_word c \<and> c < 19968"
proof -
  assume sp: "is_space c"
  then consider "c < 128" "\<not> is_word c"
    | "special_space c"
    using space_cases unfolding special_space_def by blast
  then show ?thesis
  proof cases
    case 1
    then show ?thesis using sp by (auto simp: casefold_char_def is_ascii_upper_def is_space_def)
  qed (rule special_space_neutral)
qed

lemma compact_space [simp]: "is_space c \<Longrightarrow> compact_match_text [c] = []"
  using space_not_word [of c]
  by (simp add: compact_match_text_filter simplify_cjk_def casefold_def drop_cls_def)

lemma compact_spaces: "\<forall>c \<in> set s. is_space c \<Longrightarrow> compact_match_text s = []"
proof (induction s)
  case (Cons c cs)
  then show ?case using compact.key_append [of "[c]" cs] by simp
qed simp

lemma compact_filter_spaces: "compact_match_text (filter (\<lambda>c. \<not> is_space c) s) = compact_match_text s"
proof (induction s)
  case (Cons c cs)
  then show ?case
    using compact.key_append [of "[c]" cs] compact.key_append [of "[c]" "filter (\<lambda>c. \<not> is_space c) cs"] by simp
qed simp

lemma strip_split: "\<exists>a b. s = a @ strip s @ b \<and> (\<forall>c \<in> set a. is_space c) \<and> (\<forall>c \<in> set b. is_space c)"
proof -
  let ?t = "dropWhile is_space s"
  have "s = takeWhile is_space s @ ?t" by simp
  moreover have "?t = strip s @ rev (takeWhile is_space (rev ?t))"
    unfolding strip_def strip_by_def rstrip_by_def lstrip_by_def
    by (metis rev_append rev_rev_ident takeWhile_dropWhile_id)
  ultimately show ?thesis
    by (intro exI [of _ "takeWhile is_space s"] exI [of _ "rev (takeWhile is_space (rev ?t))"])
      (auto dest: set_takeWhileD)
qed

lemma compact_strip [simp]: "compact_match_text (strip s) = compact_match_text s"
proof -
  obtain a b where "s = a @ strip s @ b" "\<forall>c \<in> set a. is_space c" "\<forall>c \<in> set b. is_space c"
    using strip_split by blast
  then show ?thesis by (metis append.right_neutral append_Nil compact.key_append compact_spaces)
qed

lemma compact_join_space: "compact_match_text (join [32] ws) = compact_match_text (concat ws)"
proof (induction "[32::nat]" ws rule: join.induct)
  case (3 w v ws)
  have "compact_match_text (join [32] (w # v # ws)) =
      compact_match_text w @ compact_match_text [32] @ compact_match_text (join [32] (v # ws))"
    by (simp only: join.simps compact.key_append)
  then show ?case using 3 by (simp add: compact.key_append is_space_def)
qed (simp_all add: compact.key_append)

lemma compact_sub_spaces [simp]: "compact_match_text (re_sub SPACE_RE [32] s) = compact_match_text s"
proof -
  have "concat (re_split SPACE_RE s) = filter (\<lambda>c. \<not> is_space c) s"
    using re_sub_plus_cls [of is_space s] by (simp add: re_sub_def SPACE_RE_def)
  then show ?thesis
    by (simp add: re_sub_def compact_join_space compact_filter_spaces)
qed

lemma compact_collapse [simp]: "compact_match_text (collapse_spaces s) = compact_match_text s"
  by (simp add: collapse_spaces_def)

section \<open>Completeness of the local filter\<close>

lemma weave_part: "w \<in> set gs \<Longrightarrow> length ms + 1 = length gs \<Longrightarrow> contains w (weave gs ms)"
proof (induction gs arbitrary: ms)
  case (Cons g gs)
  show ?case
  proof (cases ms)
    case Nil
    with Cons.prems show ?thesis by simp
  next
    case m: (Cons m ms')
    then obtain h hs where gs: "gs = h # hs" using Cons.prems by (cases gs) auto
    show ?thesis
    proof (cases "w = g")
      case True
      then show ?thesis by (auto simp: m gs contains_iff)
    next
      case False
      then have "contains w (weave gs ms')" using Cons by (simp add: m)
      then show ?thesis using contains_append [of w _ "g @ m" "[]"] by (simp add: m gs)
    qed
  qed
qed simp

lemma re_split_part: "w \<in> set (re_split r s) \<Longrightarrow> contains w s"
  using weave_part [of w "re_split r s" "map m_text (re_finditer r s)"]
  by (simp add: re_split_weave) (simp add: re_split_def)

lemma query_parts_exist: "compact_match_text s \<noteq> [] \<Longrightarrow> query_parts s \<noteq> []"
proof
  assume s: "compact_match_text s \<noteq> []" "query_parts s = []"
  then have "concat (re_split SPACE_RE s) = []" by (auto simp: query_parts_def filter_empty_conv)
  then have "re_sub SPACE_RE [] s = []" by (simp add: re_sub_def)
  then have "\<forall>c \<in> set s. is_space c"
    by (simp add: SPACE_RE_def re_sub_plus_cls filter_empty_conv)
  with s show False by (simp add: compact_spaces)
qed

lemma query_alias_loop_keeps: "set (snd st) \<subseteq> set (snd (query_alias_loop items st))"
proof (induction items st rule: query_alias_loop.induct)
  case (2 item items st)
  have "set (snd st') \<subseteq> set (snd (query_alias_add v st'))" for v st'
    by (auto simp: query_alias_add_def Let_def)
  then have "set (snd st) \<subseteq> set (snd (query_alias_add (simplify_cjk item) (query_alias_add item st)))"
    by blast
  with 2 show ?case by simp
qed simp

lemma collapse_not_Nil: "compact_match_text q \<noteq> [] \<Longrightarrow> collapse_spaces q \<noteq> []"
  using compact_collapse [of q] by force

lemma query_match_aliases_hd:
  assumes "compact_match_text q \<noteq> []"
  shows "\<exists>a \<in> set (query_match_aliases q). compact_match_text a = compact_match_text q"
proof -
  let ?r = "collapse_spaces (collapse_spaces q)"
  have ne: "collapse_spaces q \<noteq> []" "?r \<noteq> []" "collapse_spaces ?r \<noteq> []"
    using assms by (intro collapse_not_Nil; simp)+
  obtain xs where xs: "title_prefix_aliases (collapse_spaces q) = ?r # xs"
    using title_prefix_aliases_hd [OF ne(2)] by blast
  have "collapse_spaces ?r \<in> set (snd (query_alias_add (simplify_cjk ?r) (query_alias_add ?r ([], []))))"
    using ne by (simp add: query_alias_add_def Let_def)
  then have "collapse_spaces ?r \<in> set (query_match_aliases q)"
    using ne query_alias_loop_keeps by (fastforce simp: query_match_aliases_def Let_def xs)
  then show ?thesis by (rule bexI [rotated]) simp
qed

lemma local_filter_complete:
  assumes "contains query text" "compact_match_text query \<noteq> []"
  shows "local_text_matches_query text query"
proof -
  obtain a where a: "a \<in> set (query_match_aliases query)" "compact_match_text a = compact_match_text query"
    using query_match_aliases_hd [OF assms(2)] by blast
  have sub: "contains (compact_match_text query) (compact_match_text text)"
    using compact.key_contains [OF assms(1)] .
  have "contains (compact_match_text part) (compact_match_text text)" if "part \<in> set (query_parts a)" for part
  proof -
    have "contains part a" using that re_split_part by (auto simp: query_parts_def)
    then have "contains (compact_match_text part) (compact_match_text query)"
      using compact.key_contains a(2) by metis
    with sub show ?thesis
      unfolding contains_sublist using sublist_order.order_trans by blast
  qed
  moreover have "query_parts a \<noteq> []" using query_parts_exist assms(2) a(2) by metis
  moreover have "compact_match_text text \<noteq> []"
    using sub assms(2) by (auto simp: contains_sublist)
  moreover have "query_match_aliases query \<noteq> []" using a(1) by auto
  ultimately show ?thesis
    using a(1) unfolding local_text_matches_query_def Let_def compact_search_eq by auto
qed

section \<open>Facts on the query list\<close>

lemma add_new_distinct: "distinct xs \<Longrightarrow> distinct (add_new v xs)"
  by (simp add: add_new_def)

lemma add_new_nonempty: "[] \<notin> set xs \<Longrightarrow> [] \<notin> set (add_new v xs)"
  by (auto simp: add_new_def)

lemma fold_add_new_distinct: "distinct xs \<Longrightarrow> distinct (fold (add_new \<circ> f) vs xs)"
  by (induction vs arbitrary: xs) (simp_all add: add_new_distinct)

lemma fold_add_new_nonempty: "[] \<notin> set xs \<Longrightarrow> [] \<notin> set (fold (add_new \<circ> f) vs xs)"
  by (induction vs arbitrary: xs) (simp_all add: add_new_nonempty)

lemma combine_queries_ok:
  "distinct qs \<and> [] \<notin> set qs \<Longrightarrow>
   (case combine_queries limit pairs qs of Inl rs \<Rightarrow> distinct rs \<and> [] \<notin> set rs
    | Inr rs \<Rightarrow> distinct rs \<and> [] \<notin> set rs)"
  by (induction limit pairs qs rule: combine_queries.induct)
    (simp_all add: Let_def add_new_distinct add_new_nonempty)

lemma combine_queries_length:
  "length qs < limit \<Longrightarrow>
   (case combine_queries limit pairs qs of Inl rs \<Rightarrow> length rs = limit | Inr rs \<Rightarrow> length rs < limit)"
proof (induction limit pairs qs rule: combine_queries.induct)
  case (2 limit keyword base pairs qs)
  let ?qs = "add_new (collapse_spaces (base @ [32] @ keyword)) qs"
  have "length ?qs \<le> limit" using 2(3) by (simp add: add_new_def)
  then show ?case
    using 2(1) 2(2) [OF refl _ refl] 2(3) by (simp add: Let_def)
qed simp

lemma expanded_queries_ok:
  "distinct (expanded_search_queries title keywords limit) \<and> [] \<notin> set (expanded_search_queries title keywords limit)"
proof (cases "search_title_variants title = []")
  case False
  have "\<exists>pairs vs. expanded_search_queries title keywords limit =
      (case combine_queries limit pairs (fold (add_new \<circ> collapse_spaces) vs []) of
         Inl qs \<Rightarrow> qs | Inr qs \<Rightarrow> take limit qs)"
    unfolding expanded_search_queries_def Let_def if_not_P [OF False] by blast
  then obtain pairs vs where eq: "expanded_search_queries title keywords limit =
      (case combine_queries limit pairs (fold (add_new \<circ> collapse_spaces) vs []) of
         Inl qs \<Rightarrow> qs | Inr qs \<Rightarrow> take limit qs)"
    by blast
  have "case combine_queries limit pairs (fold (add_new \<circ> collapse_spaces) vs []) of
      Inl rs \<Rightarrow> distinct rs \<and> [] \<notin> set rs | Inr rs \<Rightarrow> distinct rs \<and> [] \<notin> set rs"
    by (rule combine_queries_ok) (simp add: fold_add_new_distinct fold_add_new_nonempty)
  then show ?thesis
    unfolding eq by (auto split: sum.splits dest: in_set_takeD)
qed (simp add: expanded_search_queries_def)

end
