(* ===== verification/Py_Url.thy ===== *)
theory Py_Url
  imports Py_Prelude
begin

text \<open>
  The functions of \<open>urllib.parse\<close> the program uses: \<open>urlparse\<close>, \<open>urlunparse\<close>, \<open>parse_qsl\<close>
  with blank values kept and \<open>urlencode\<close>.  A URL on which \<open>urlparse\<close> raises (a bracket without its
  partner in the host, a host that changes under NFKC) is outside the model.  Shown: an ASCII text
  unquotes to itself after quoting, so a query string built by \<open>urlencode\<close> reads back.
\<close>

section \<open>Percent encoding\<close>

fun hex_value :: "nat \<Rightarrow> nat option" where
  "hex_value c =
     (if 48 \<le> c \<and> c \<le> 57 then Some (c - 48)
      else if 65 \<le> c \<and> c \<le> 70 then Some (c - 55)
      else if 97 \<le> c \<and> c \<le> 102 then Some (c - 87)
      else None)"

definition hex_char :: "nat \<Rightarrow> nat" where
  "hex_char d = (if d < 10 then 48 + d else 55 + d)"

definition utf8_char :: "nat \<Rightarrow> nat list" where
  "utf8_char c =
     (if c < 128 then [c]
      else if c < 2048 then [192 + c div 64, 128 + c mod 64]
      else if c < 65536 then [224 + c div 4096, 128 + c div 64 mod 64, 128 + c mod 64]
      else [240 + c div 262144, 128 + c div 4096 mod 64, 128 + c div 64 mod 64, 128 + c mod 64])"

text \<open>
  The number of continuation bytes after a first byte with the range of the next one, and the bits
  the first byte carries
\<close>

definition utf8_start :: "nat \<Rightarrow> (nat \<times> nat \<times> nat \<times> nat) option" where
  "utf8_start b =
     (if 194 \<le> b \<and> b \<le> 223 then Some (1, 128, 191, b - 192)
      else if b = 224 then Some (2, 160, 191, 0)
      else if b = 237 then Some (2, 128, 159, 13)
      else if 225 \<le> b \<and> b \<le> 239 then Some (2, 128, 191, b - 224)
      else if b = 240 then Some (3, 144, 191, 0)
      else if 241 \<le> b \<and> b \<le> 243 then Some (3, 128, 191, b - 240)
      else if b = 244 then Some (3, 128, 143, 4)
      else None)"

text \<open>Decoding with \<open>errors="replace"\<close>; the pending sequence is the first argument\<close>

fun utf8_decode :: "(nat \<times> nat \<times> nat \<times> nat) option \<Rightarrow> nat list \<Rightarrow> pystr" where
  "utf8_decode None [] = []"
| "utf8_decode (Some p) [] = [0xFFFD]"
| "utf8_decode None (b # bs) =
     (if b < 128 then b # utf8_decode None bs
      else case utf8_start b of
        None \<Rightarrow> 0xFFFD # utf8_decode None bs
      | Some p \<Rightarrow> utf8_decode (Some p) bs)"
| "utf8_decode (Some (n, lo, hi, acc)) (b # bs) =
     (if lo \<le> b \<and> b \<le> hi
      then (if n \<le> 1 then (acc * 64 + (b - 128)) # utf8_decode None bs
            else utf8_decode (Some (n - 1, 128, 191, acc * 64 + (b - 128))) bs)
      else 0xFFFD # (if b < 128 then b # utf8_decode None bs
                     else case utf8_start b of
                       None \<Rightarrow> 0xFFFD # utf8_decode None bs
                     | Some p \<Rightarrow> utf8_decode (Some p) bs))"

fun percent_bytes :: "pystr \<Rightarrow> nat list" where
  "percent_bytes (c # a # b # cs) =
     (if c = 37 then
        (case (hex_value a, hex_value b) of
           (Some h, Some l) \<Rightarrow> (16 * h + l) # percent_bytes cs
         | _ \<Rightarrow> c # percent_bytes (a # b # cs))
      else c # percent_bytes (a # b # cs))"
| "percent_bytes cs = cs"

definition is_ascii :: "nat \<Rightarrow> bool" where
  "is_ascii c = (c < 128)"

text \<open>\<open>unquote\<close>: each run of ASCII characters is decoded on its own\<close>

function unquote :: "pystr \<Rightarrow> pystr" where
  "unquote [] = []"
| "unquote (c # cs) =
     (if is_ascii c
      then utf8_decode None (percent_bytes (takeWhile is_ascii (c # cs))) @ unquote (dropWhile is_ascii cs)
      else c # unquote cs)"
  by pat_completeness auto
termination
  by (relation "measure length") (auto simp: le_imp_less_Suc length_dropWhile_le)

definition plus_to_space :: "pystr \<Rightarrow> pystr" where
  "plus_to_space s = map (\<lambda>c. if c = 43 then 32 else c) s"

definition quote_safe :: "nat \<Rightarrow> bool" where
  "quote_safe c = (is_ascii_alpha c \<or> is_ascii_digit c \<or> c = 95 \<or> c = 46 \<or> c = 45 \<or> c = 126)"

definition quote_byte :: "nat \<Rightarrow> pystr" where
  "quote_byte b = [37, hex_char (b div 16), hex_char (b mod 16)]"

definition quote_plus_char :: "nat \<Rightarrow> pystr" where
  "quote_plus_char c =
     (if c = 32 then [43] else if quote_safe c then [c] else concat (map quote_byte (utf8_char c)))"

definition quote_plus :: "pystr \<Rightarrow> pystr" where
  "quote_plus s = concat (map quote_plus_char s)"

section \<open>Query strings\<close>

definition parse_field :: "pystr \<Rightarrow> pystr \<times> pystr" where
  "parse_field f =
     (case split_once 61 f of
        None \<Rightarrow> (unquote (plus_to_space f), [])
      | Some (k, v) \<Rightarrow> (unquote (plus_to_space k), unquote (plus_to_space v)))"

definition parse_qsl :: "pystr \<Rightarrow> (pystr \<times> pystr) list" where
  "parse_qsl qs = map parse_field (filter (\<lambda>f. f \<noteq> []) (split_char 38 qs))"

definition urlencode :: "(pystr \<times> pystr) list \<Rightarrow> pystr" where
  "urlencode items = join [38] (map (\<lambda>(k, v). quote_plus k @ [61] @ quote_plus v) items)"

section \<open>Parsing\<close>

record url_parts =
  url_scheme :: pystr
  url_netloc :: pystr
  url_path :: pystr
  url_params :: pystr
  url_query :: pystr
  url_fragment :: pystr

definition scheme_char :: "nat \<Rightarrow> bool" where
  "scheme_char c = (is_ascii_alpha c \<or> is_ascii_digit c \<or> c = 43 \<or> c = 45 \<or> c = 46)"

text \<open>C0 control characters and space are stripped on the left, tab and line breaks are dropped.\<close>

definition url_clean :: "pystr \<Rightarrow> pystr" where
  "url_clean s = filter (\<lambda>c. c \<noteq> 9 \<and> c \<noteq> 10 \<and> c \<noteq> 13) (lstrip_by (\<lambda>c. c \<le> 32) s)"

definition split_scheme :: "pystr \<Rightarrow> pystr \<times> pystr" where
  "split_scheme s =
     (case split_once 58 s of
        Some (sch, rest) \<Rightarrow>
          if sch \<noteq> [] \<and> is_ascii_alpha (hd sch) \<and> list_all scheme_char sch
          then (concat (map lower_char sch), rest) else ([], s)
      | None \<Rightarrow> ([], s))"

definition netloc_char :: "nat \<Rightarrow> bool" where
  "netloc_char c = (c \<noteq> 47 \<and> c \<noteq> 63 \<and> c \<noteq> 35)"

definition split_netloc :: "pystr \<Rightarrow> pystr \<times> pystr" where
  "split_netloc s =
     (if starts_with [47, 47] s
      then (takeWhile netloc_char (drop 2 s), dropWhile netloc_char (drop 2 s)) else ([], s))"

definition split_at :: "nat \<Rightarrow> pystr \<Rightarrow> pystr \<times> pystr" where
  "split_at d s = (case split_once d s of None \<Rightarrow> (s, []) | Some p \<Rightarrow> p)"

text \<open>\<open>_splitparams\<close>: the parameters follow the first semicolon of the last path segment.\<close>

definition split_params :: "pystr \<Rightarrow> pystr \<times> pystr" where
  "split_params path =
     (let seg = rev (takeWhile (\<lambda>c. c \<noteq> 47) (rev path)); before = take (length path - length seg) path in
      case split_once 59 seg of None \<Rightarrow> (path, []) | Some (a, b) \<Rightarrow> (before @ a, b))"

definition params_schemes :: "pystr list" where
  "params_schemes = [] # map u [''ftp'', ''hdl'', ''prospero'', ''http'', ''imap'', ''https'', ''shttp'', ''rtsp'',
     ''rtspu'', ''sip'', ''sips'', ''mms'', ''sftp'', ''tel'']"

definition urlparse :: "pystr \<Rightarrow> url_parts" where
  "urlparse url =
     (let (scheme, r1) = split_scheme (url_clean url);
          (netloc, r2) = split_netloc r1;
          (r3, fragment) = split_at 35 r2;
          (path0, query) = split_at 63 r3;
          (path, params) = (if scheme \<in> set params_schemes then split_params path0 else (path0, []))
      in \<lparr>url_scheme = scheme, url_netloc = netloc, url_path = path, url_params = params,
          url_query = query, url_fragment = fragment\<rparr>)"

text \<open>\<open>urlunparse\<close> of parts with a host, the only ones the program puts together again\<close>

definition urlunparse :: "url_parts \<Rightarrow> pystr" where
  "urlunparse p =
     (let path1 = (if url_params p = [] then url_path p else url_path p @ [59] @ url_params p);
          path2 = (if url_netloc p \<noteq> [] then
                     (if path1 \<noteq> [] \<and> hd path1 \<noteq> 47 then [47, 47] @ url_netloc p @ [47] @ path1
                      else [47, 47] @ url_netloc p @ path1)
                   else path1);
          path3 = (if url_scheme p = [] then path2 else url_scheme p @ [58] @ path2);
          path4 = (if url_query p = [] then path3 else path3 @ [63] @ url_query p)
      in if url_fragment p = [] then path4 else path4 @ [35] @ url_fragment p)"

lemmas url_eval = urlparse_def urlunparse_def url_clean_def split_scheme_def split_netloc_def split_at_def
  split_params_def params_schemes_def scheme_char_def netloc_char_def parse_qsl_def parse_field_def
  urlencode_def quote_plus_def quote_plus_char_def quote_safe_def quote_byte_def hex_char_def
  utf8_char_def utf8_start_def plus_to_space_def is_ascii_def

section \<open>A query string reads back\<close>

lemma hex_value_char: "d < 16 \<Longrightarrow> hex_value (hex_char d) = Some d"
  by (auto simp: hex_char_def)

lemma hex_char_range: "d < 16 \<Longrightarrow> hex_char d \<in> {48..57} \<union> {65..70}"
  by (auto simp: hex_char_def)

lemma percent_bytes_plain: "c \<noteq> 37 \<Longrightarrow> percent_bytes (c # cs) = c # percent_bytes cs"
proof (cases cs)
  case (Cons a as)
  then show "c \<noteq> 37 \<Longrightarrow> percent_bytes (c # cs) = c # percent_bytes cs"
    by (cases as) simp_all
qed simp

lemma percent_bytes_quoted: "b < 256 \<Longrightarrow> percent_bytes (quote_byte b @ cs) = b # percent_bytes cs"
  using hex_value_char [of "b div 16"] hex_value_char [of "b mod 16"] by (simp add: quote_byte_def)

lemma quote_byte_no_plus: "b < 256 \<Longrightarrow> plus_to_space (quote_byte b) = quote_byte b"
proof -
  assume "b < 256"
  then have "b div 16 < 16" by auto
  then show ?thesis
    using hex_char_range [of "b div 16"] hex_char_range [of "b mod 16"]
    by (auto simp: plus_to_space_def quote_byte_def)
qed

lemma plus_to_space_append: "plus_to_space (xs @ ys) = plus_to_space xs @ plus_to_space ys"
  by (simp add: plus_to_space_def)

lemma quote_safe_neq: "quote_safe c \<Longrightarrow> c \<notin> {32, 37, 38, 43, 61}"
  by (auto simp: quote_safe_def is_ascii_alpha_def is_ascii_lower_def is_ascii_upper_def is_ascii_digit_def)

lemma percent_bytes_char:
  assumes "c < 128"
  shows "percent_bytes (plus_to_space (quote_plus_char c) @ cs) = c # percent_bytes cs"
proof -
  consider "c = 32" | "c \<noteq> 32" "quote_safe c" | "c \<noteq> 32" "\<not> quote_safe c" by blast
  then show ?thesis
  proof cases
    case 2
    then show ?thesis using quote_safe_neq [of c]
      by (simp add: quote_plus_char_def plus_to_space_def percent_bytes_plain)
  next
    case 3
    then show ?thesis
      using assms by (simp add: quote_plus_char_def utf8_char_def quote_byte_no_plus percent_bytes_quoted)
  qed (simp add: quote_plus_char_def plus_to_space_def percent_bytes_plain)
qed

lemma percent_bytes_quote:
  "\<forall>c \<in> set s. c < 128 \<Longrightarrow> percent_bytes (plus_to_space (quote_plus s)) = s"
  by (induction s) (simp_all add: quote_plus_def plus_to_space_append percent_bytes_char, simp add: plus_to_space_def)

lemma utf8_decode_ascii: "\<forall>c \<in> set s. c < 128 \<Longrightarrow> utf8_decode None s = s"
  by (induction s) simp_all

lemma quote_plus_char_set:
  assumes "c < 128" "x \<in> set (quote_plus_char c)"
  shows "x < 128 \<and> x \<noteq> 38 \<and> x \<noteq> 61"
proof -
  have "c div 16 < 16" using assms(1) by auto
  then have "hex_char (c div 16) < 128 \<and> hex_char (c div 16) \<noteq> 38 \<and> hex_char (c div 16) \<noteq> 61"
    "hex_char (c mod 16) < 128 \<and> hex_char (c mod 16) \<noteq> 38 \<and> hex_char (c mod 16) \<noteq> 61"
    using hex_char_range [of "c div 16"] hex_char_range [of "c mod 16"] by auto
  then show ?thesis
    using assms quote_safe_neq [of x] by (auto simp: quote_plus_char_def utf8_char_def quote_byte_def split: if_splits)
qed

lemma quote_plus_set:
  assumes "\<forall>c \<in> set s. c < 128" "x \<in> set (quote_plus s)"
  shows "x < 128" "x \<noteq> 38" "x \<noteq> 61"
  using assms quote_plus_char_set by (fastforce simp: quote_plus_def)+

lemma unquote_ascii: "\<forall>c \<in> set s. c < 128 \<Longrightarrow> unquote s = utf8_decode None (percent_bytes s)"
proof (cases s)
  case (Cons c cs)
  assume "\<forall>c \<in> set s. c < 128"
  then have tw: "takeWhile is_ascii cs = cs" "dropWhile is_ascii cs = []"
    by (auto simp: Cons is_ascii_def takeWhile_eq_all_conv)
  then show ?thesis
    using \<open>\<forall>c \<in> set s. c < 128\<close> by (simp add: Cons is_ascii_def tw)
qed simp

lemma unquote_quote:
  assumes "\<forall>c \<in> set s. c < 128"
  shows "unquote (plus_to_space (quote_plus s)) = s"
proof -
  have "\<forall>c \<in> set (plus_to_space (quote_plus s)). c < 128"
    using quote_plus_set(1) [OF assms] by (auto simp: plus_to_space_def)
  then show ?thesis
    using assms by (simp add: unquote_ascii percent_bytes_quote utf8_decode_ascii)
qed

lemma split_once_append: "d \<notin> set a \<Longrightarrow> split_once d (a @ d # b) = Some (a, b)"
  by (induction a) auto

lemma split_char_plain: "d \<notin> set w \<Longrightarrow> split_char d w = [w]"
  by (induction w) auto

lemma split_char_append: "d \<notin> set w \<Longrightarrow> split_char d (w @ d # s) = w # split_char d s"
  by (induction w) auto

lemma split_char_join: "ws \<noteq> [] \<Longrightarrow> \<forall>w \<in> set ws. d \<notin> set w \<Longrightarrow> split_char d (join [d] ws) = ws"
  by (induction "[d]" ws rule: join.induct) (auto simp: split_char_plain split_char_append)

lemma parse_urlencode:
  assumes "\<forall>(k, v) \<in> set items. \<forall>c \<in> set k \<union> set v. c < 128"
  shows "parse_qsl (urlencode items) = items"
proof (cases "items = []")
  case False
  let ?f = "\<lambda>(k, v). quote_plus k @ [61] @ quote_plus v"
  have no: "38 \<notin> set (?f item)" "parse_field (?f item) = item" "?f item \<noteq> []" if "item \<in> set items" for item
  proof -
    obtain k v where kv: "item = (k, v)" by fastforce
    with assms that have a: "\<forall>c \<in> set k. c < 128" "\<forall>c \<in> set v. c < 128" by auto
    show "38 \<notin> set (?f item)" using quote_plus_set(2) [OF a(1)] quote_plus_set(2) [OF a(2)] by (auto simp: kv)
    have "61 \<notin> set (quote_plus k)" using quote_plus_set(3) [OF a(1)] by blast
    then show "parse_field (?f item) = item"
      using a by (simp add: kv parse_field_def split_once_append unquote_quote)
    show "?f item \<noteq> []" by (simp add: kv)
  qed
  have "split_char 38 (urlencode items) = map ?f items"
    unfolding urlencode_def by (rule split_char_join) (use False no(1) in auto)
  moreover have "filter (\<lambda>f. f \<noteq> []) (map ?f items) = map ?f items"
    using no(3) by (auto simp: filter_id_conv)
  moreover have "map (parse_field \<circ> ?f) items = items"
    using no(2) by (simp add: map_idI)
  ultimately show ?thesis by (simp add: parse_qsl_def)
qed (simp add: urlencode_def parse_qsl_def)

end
