(* ===== verification/Expiring_Cache.thy ===== *)
theory Expiring_Cache
  imports Complex_Main "HOL-Library.AList"
begin

text \<open>
  The contract of the in-memory caches of the adapters: an entry is stored with the time until which
  it is served.  A cache is an association list in the insertion order of the Python dictionary;
  times are rational numbers of seconds.  \<open>room n c\<close> says that \<open>n\<close> more entries fit before the cache
  evicts.  Lemmas about clients are proved here once, for every cache that keeps the contract.
\<close>

type_synonym time = rat

locale expiring_cache =
  fixes lookup :: "time \<Rightarrow> 'k \<Rightarrow> 'c \<Rightarrow> 'v option"
    and store :: "time \<Rightarrow> 'k \<Rightarrow> 'v \<Rightarrow> 'c \<Rightarrow> 'c"
    and lifetime :: "'v \<Rightarrow> time"
    and as_read :: "'v \<Rightarrow> 'v"
    and room :: "nat \<Rightarrow> 'c \<Rightarrow> bool"
  assumes hit: "room (Suc n) c \<Longrightarrow> t < now + lifetime v \<Longrightarrow> lookup t k (store now k v c) = Some (as_read v)"
    and other: "room (Suc n) c \<Longrightarrow> k' \<noteq> k \<Longrightarrow> lookup t k' (store now k v c) = lookup t k' c"
    and expired: "room (Suc n) c \<Longrightarrow> now + lifetime v < t \<Longrightarrow> lookup t k (store now k v c) = None"
    and room_store: "room (Suc n) c \<Longrightarrow> room n (store now k v c)"
begin

lemma lookup_after_others:
  "room (length ws) c \<Longrightarrow> \<forall>(s, k', w) \<in> set ws. k' \<noteq> k \<Longrightarrow>
     lookup t k (fold (\<lambda>(s, k', w). store s k' w) ws c) = lookup t k c"
proof (induction ws arbitrary: c)
  case (Cons x ws)
  obtain s k' w where x: "x = (s, k', w)" by (cases x)
  with Cons.prems have "lookup t k (store s k' w c) = lookup t k c"
    using other [of "length ws" c k k' t s w] by auto
  moreover have "room (length ws) (store s k' w c)"
    using Cons.prems room_store by (simp add: x)
  ultimately show ?case
    using Cons by (simp add: x)
qed simp

text \<open>An entry is served until it expires, whatever other keys are stored meanwhile.\<close>

lemma hit_after_others:
  assumes "room (Suc (length ws)) c" "\<forall>(s, k', w) \<in> set ws. k' \<noteq> k" "t < now + lifetime v"
  shows "lookup t k (fold (\<lambda>(s, k', w). store s k' w) ws (store now k v c)) = Some (as_read v)"
  using assms lookup_after_others [OF room_store [OF assms(1)] assms(2)] hit by simp

text \<open>The last store to a key wins.\<close>

lemma last_store_wins:
  "room (Suc (Suc n)) c \<Longrightarrow> t < now' + lifetime v' \<Longrightarrow>
     lookup t k (store now' k v' (store now k v c)) = Some (as_read v')"
  using hit room_store by blast

lemma expired_after_others:
  assumes "room (Suc (length ws)) c" "\<forall>(s, k', w) \<in> set ws. k' \<noteq> k" "now + lifetime v < t"
  shows "lookup t k (fold (\<lambda>(s, k', w). store s k' w) ws (store now k v c)) = None"
  using assms lookup_after_others [OF room_store [OF assms(1)] assms(2)] expired by simp

end

text \<open>\<open>d[key] = v\<close> and \<open>d.pop(key, None)\<close> on a dictionary kept as an association list\<close>

abbreviation dict_set :: "'k \<Rightarrow> 'v \<Rightarrow> ('k \<times> 'v) list \<Rightarrow> ('k \<times> 'v) list" where
  "dict_set \<equiv> AList.update"

abbreviation dict_pop :: "'k \<Rightarrow> ('k \<times> 'v) list \<Rightarrow> ('k \<times> 'v) list" where
  "dict_pop \<equiv> AList.delete"

lemma length_dict_set: "length (dict_set k v d) \<le> Suc (length d)"
  by (induction d) auto

lemma length_dict_set_new: "k \<notin> fst ` set d \<Longrightarrow> length (dict_set k v d) = Suc (length d)"
  by (induction d) auto

lemma length_dict_set_old: "k \<in> fst ` set d \<Longrightarrow> length (dict_set k v d) = length d"
  by (induction d) auto

end
