(* ===== verification/Pan_Links.thy ===== *)
theory Pan_Links
  imports Py_Regex Py_Url Expiring_Cache
begin

text \<open>
  The links of the 115 drive, \<open>app/services/adapters/pan115.py\<close>: normal form, share code and receive
  code, the cache of folder identifiers and the reading of a transfer reply.  Shown: a normal form is
  empty or found in the text, and the folder cache keeps the contract of \<open>expiring_cache\<close>, with a
  lifetime of twice the constant that is meant to be it.
\<close>

section \<open>Share links\<close>

definition pan_host :: re where
  [re_pats]: "pan_host = seqs [lit ''115'', opt (lit_i ''cdn''), chr 46, lit_i ''com'']"

definition share_code_char :: "nat \<Rightarrow> bool" where
  [chr_eval]: "share_code_char c = (ascii_alnum_i c \<or> c = 95 \<or> c = 45)"

definition receive_key :: re where
  [re_pats]: "receive_key = alts [lit_i ''password'', lit_i ''pwd'', seqs [lit_i ''receive'', chr 95, lit_i ''code'']]"

definition PAN115_URL_RE :: re where
  [re_pats]: "PAN115_URL_RE =
     seqs [opt (seqs [lit_i ''http'', opt (chr_i 115), lit ''://'']), opt (seqs [lit_i ''www'', chr 46]), pan_host,
           lit ''/'', chr_i 115, lit ''/'', many1 (Cls share_code_char),
           opt (seqs [chr 63, receive_key, chr 61, upto 2 12 (Cls ascii_alnum_i)])]"

definition bare_hosts :: "pystr list" where
  "bare_hosts = (map u [''115.com/'', ''115cdn.com/'', ''www.115.com/'', ''www.115cdn.com/''])"

definition normalize_115_share_link :: "pystr \<Rightarrow> pystr" where
  "normalize_115_share_link link =
     (case re_search PAN115_URL_RE (strip link) of
        None \<Rightarrow> []
      | Some m \<Rightarrow>
          let value = m_text m in
          if list_ex (\<lambda>p. starts_with p (casefold value)) bare_hosts then (u ''https://'') @ value else value)"

definition RECEIVE_PARAM_RE :: re where
  [re_pats]: "RECEIVE_PARAM_RE =
     seqs [Alt Bos (one_of [63, 38]), receive_key, chr 61, Grp ''1'' (upto 2 12 (Cls ascii_alnum_i))]"

definition parse_115_share_link :: "pystr \<Rightarrow> pystr \<times> pystr option" where
  "parse_115_share_link link =
     (let clean = normalize_115_share_link link in
      if clean = [] then ([], None)
      else let parsed = urlparse clean in
        (last (split_char 47 (rstrip_chars [47] (url_path parsed))),
         case re_search RECEIVE_PARAM_RE (url_query parsed) of None \<Rightarrow> None | Some m \<Rightarrow> Some (grp ''1'' m)))"

text \<open>A normal form is a piece of the link, with the scheme put in front where it was missing.\<close>

lemma search_contains: "re_search r s = Some m \<Longrightarrow> contains (m_text m) s"
proof -
  assume "re_search r s = Some m"
  then have "splits_text [] s m" unfolding re_search_def by (rule search_from_split_text)
  then show ?thesis by (auto simp: splits_text_def contains_iff)
qed

lemma normalize_contains:
  "contains (normalize_115_share_link link) (strip link) \<or>
   (\<exists>v. normalize_115_share_link link = (u ''https://'') @ v \<and> contains v (strip link))"
  using search_contains [of PAN115_URL_RE "strip link"]
  by (auto simp: normalize_115_share_link_def Let_def contains_sublist split: option.splits)

section \<open>The folder cache\<close>

type_synonym folder_cache = "(pystr \<times> (time \<times> pystr)) list"

definition FOLDER_CACHE_TTL_SECONDS :: time where
  "FOLDER_CACHE_TTL_SECONDS = 600"

definition folder_key :: "pystr \<Rightarrow> pystr" where
  "folder_key target_path = (let k = strip_chars [47] target_path in if k = [] then [47] else k)"

definition cached_folder_cid :: "time \<Rightarrow> pystr \<Rightarrow> folder_cache \<Rightarrow> pystr option \<times> folder_cache" where
  "cached_folder_cid now target_path cache =
     (case map_of cache (folder_key target_path) of
        None \<Rightarrow> (None, cache)
      | Some (stamp, cid) \<Rightarrow>
          if FOLDER_CACHE_TTL_SECONDS < now - stamp then (None, dict_pop (folder_key target_path) cache)
          else (Some cid, cache))"

definition store_folder_cid :: "time \<Rightarrow> pystr \<Rightarrow> pystr \<Rightarrow> folder_cache \<Rightarrow> folder_cache" where
  "store_folder_cid now target_path cid cache =
     dict_set (folder_key target_path) (now + FOLDER_CACHE_TTL_SECONDS, cid) cache"

text \<open>
  The stamp is already the end of the lifetime, and the reader adds the lifetime once more: an entry
  is served for 1200 seconds.  Two paths with the same key share an entry, so the contract is stated on keys.
\<close>

definition folder_lookup :: "time \<Rightarrow> pystr \<Rightarrow> folder_cache \<Rightarrow> pystr option" where
  "folder_lookup now path cache = fst (cached_folder_cid now path cache)"

lemma folder_served: "now' \<le> now + 1200 \<Longrightarrow> folder_lookup now' path (store_folder_cid now path cid cache) = Some cid"
  by (simp add: folder_lookup_def cached_folder_cid_def store_folder_cid_def FOLDER_CACHE_TTL_SECONDS_def update_conv)

lemma folder_expired: "now + 1200 < now' \<Longrightarrow> folder_lookup now' path (store_folder_cid now path cid cache) = None"
  by (simp add: folder_lookup_def cached_folder_cid_def store_folder_cid_def FOLDER_CACHE_TTL_SECONDS_def update_conv)

lemma folder_other:
  "folder_key p \<noteq> folder_key path \<Longrightarrow>
     folder_lookup now' p (store_folder_cid now path cid cache) = folder_lookup now' p cache"
  by (simp add: folder_lookup_def cached_folder_cid_def store_folder_cid_def update_conv split: option.splits)

definition folder_key_lookup :: "time \<Rightarrow> pystr \<Rightarrow> folder_cache \<Rightarrow> pystr option" where
  "folder_key_lookup now key cache =
     (case map_of cache key of None \<Rightarrow> None
      | Some (stamp, cid) \<Rightarrow> if FOLDER_CACHE_TTL_SECONDS < now - stamp then None else Some cid)"

definition folder_key_store :: "time \<Rightarrow> pystr \<Rightarrow> pystr \<Rightarrow> folder_cache \<Rightarrow> folder_cache" where
  "folder_key_store now key cid cache = dict_set key (now + FOLDER_CACHE_TTL_SECONDS, cid) cache"

lemma folder_by_key:
  "folder_lookup now path cache = folder_key_lookup now (folder_key path) cache"
  "store_folder_cid now path cid cache = folder_key_store now (folder_key path) cid cache"
  by (simp_all add: folder_lookup_def cached_folder_cid_def folder_key_lookup_def store_folder_cid_def
      folder_key_store_def split: option.splits)

interpretation folders: expiring_cache folder_key_lookup folder_key_store "\<lambda>_. 1200" "\<lambda>cid. cid" "\<lambda>_ _. True"
  by unfold_locales
    (simp_all add: folder_key_lookup_def folder_key_store_def FOLDER_CACHE_TTL_SECONDS_def update_conv
      split: option.splits)

section \<open>Folders and transfers\<close>

definition first_true :: "pyval \<Rightarrow> pystr list \<Rightarrow> pyval" where
  "first_true payload keys = foldr (\<lambda>k v. por (pget payload k) v) (butlast keys) (pget payload (last keys))"

definition folder_item :: "(pyval \<Rightarrow> pystr) \<Rightarrow> pyval \<Rightarrow> (pystr \<times> pystr) option" where
  "folder_item str item =
     (let cid = first_true item (map u [''cid'', ''file_id'', ''fid'', ''id'']);
          name = first_true item (map u [''n'', ''name'', ''file_name'', ''title'']);
          is_dir = (if pget item (u ''is_dir'') = PNone
                    then pget item (u ''fc'') = PStr (u ''0'') \<or> pget item (u ''ico'') = PStr (u ''folder'')
                         \<or> truthy (pget item (u ''cid'')) \<and> \<not> truthy (pget item (u ''fid''))
                    else truthy (pget item (u ''is_dir'')))
      in if \<not> is_dir \<or> cid = PNone \<or> \<not> truthy name then None else Some (str cid, str name))"

definition is_zero :: "pyval \<Rightarrow> bool" where
  "is_zero v = (case v of PInt i \<Rightarrow> i = 0 | PBool b \<Rightarrow> \<not> b | PFloat m e \<Rightarrow> m = 0 | _ \<Rightarrow> False)"

definition transfer_ok :: "(pyval \<Rightarrow> pystr) \<Rightarrow> pyval \<Rightarrow> bool" where
  "transfer_ok str payload =
     (if truthy (pget payload (u ''state'')) \<or> is_zero (pget payload (u ''errno'')) \<or> is_zero (pget payload (u ''errcode''))
         \<or> is_zero (pget payload (u ''code''))
      then True
      else let message = str (foldr (\<lambda>k v. por (pget payload k) v) (map u [''message'', ''msg'', ''error'', ''errno_msg'', ''err_msg'']) (PStr []))
        in list_ex (\<lambda>w. contains w message) [[0x5DF2, 0x63A5, 0x6536], [0x91CD, 0x590D,
          0x63A5, 0x6536], [0x65E0, 0x9700, 0x91CD, 0x590D]])"

end
