(* ===== verification/Episode_Keys.thy ===== *)
theory Episode_Keys
  imports Rows
begin

text \<open>
  \<open>app/services/subscription/episode/keys.py\<close>: episode keys (season, episode), their JSON form,
  the expected episodes of a subscription, the owned ones and the missing ones.  Shown: the JSON
  form of a key parses back, a range has at most 121 keys of one season, ownership and missing
  episodes partition the expected ones, and the fallback to a bare count is confined to shows
  that have season 1 only.
\<close>

definition season_or_1 :: "int option \<Rightarrow> int" where
  "season_or_1 season = (case season of None \<Rightarrow> 1 | Some s \<Rightarrow> if s = 0 then 1 else s)"

definition episode_key :: "int option \<Rightarrow> int option \<Rightarrow> ekey option" where
  "episode_key season episode =
     (case episode of
        None \<Rightarrow> None
      | Some e \<Rightarrow> if e \<le> 0 then None else Some (season_or_1 season, e))"

text \<open>\<open>int(v) if v is not None else ...\<close>; the outer \<^const>\<open>None\<close> is the caught exception\<close>

definition optional_int :: "int option \<Rightarrow> pyval \<Rightarrow> int option option" where
  "optional_int dflt v = (if v = PNone then Some dflt else map_option Some (int_of_val v))"

definition episode_key_from_item :: "pyval \<Rightarrow> ekey option" where
  "episode_key_from_item item =
     (case (optional_int (Some 1) (pget item (u ''ParentIndexNumber'')),
            optional_int None (pget item (u ''IndexNumber''))) of
        (Some season, Some episode) \<Rightarrow> episode_key season episode
      | _ \<Rightarrow> None)"

definition keys_upto :: "int \<Rightarrow> int \<Rightarrow> int \<Rightarrow> ekey set" where
  "keys_upto season start stop = set (map (Pair season) [start..stop])"

definition expand_episode_range :: "int option \<Rightarrow> int \<Rightarrow> int option \<Rightarrow> ekey set" where
  "expand_episode_range season start end_opt =
     (if start \<le> 0 then {}
      else let stop = (case end_opt of None \<Rightarrow> start | Some e \<Rightarrow> if e = 0 then start else e) in
        if stop < start \<or> 120 < stop - start then {}
        else keys_upto (season_or_1 season) start stop)"

definition json_episode_key :: "ekey \<Rightarrow> pystr" where
  "json_episode_key key = int_str (fst key) @ [120] @ int_str (snd key)"

text \<open>\<open>(\\d+)x(\\d+)\<close>\<close>

definition JSON_KEY_RE :: re where
  [re_pats]: "JSON_KEY_RE = seqs [Grp ''1'' (many1 digit), chr 120, Grp ''2'' (many1 digit)]"

definition int_of_digits :: "pystr \<Rightarrow> int option" where
  "int_of_digits s = map_option int (nat_of_digits s)"

fun episode_key_from_json :: "pyval \<Rightarrow> ekey option" where
  "episode_key_from_json (PList [a, b]) =
     (case (int_of_val a, int_of_val b) of
        (Some season, Some episode) \<Rightarrow> episode_key (Some season) (Some episode)
      | _ \<Rightarrow> None)"
| "episode_key_from_json (PStr value) =
     (case re_fullmatch JSON_KEY_RE (strip value) of
        None \<Rightarrow> None
      | Some m \<Rightarrow> episode_key (int_of_digits (grp ''1'' m)) (int_of_digits (grp ''2'' m)))"
| "episode_key_from_json _ = None"

definition episode_keys_from_json :: "pyval \<Rightarrow> ekey set" where
  "episode_keys_from_json value =
     (case decoded value of
        PList items \<Rightarrow> set (List.map_filter episode_key_from_json items)
      | _ \<Rightarrow> {})"

text \<open>\<open>int(season.get("season_number"))\<close> and \<open>int(season.get("episode_count") or 0)\<close>, both positive\<close>

definition season_entry :: "pyval \<Rightarrow> (int \<times> int) option" where
  "season_entry season =
     (case (int_of_val (pget season (u ''season_number'')),
            int_of_val (por (pget season (u ''episode_count'')) (PInt 0))) of
        (Some n, Some c) \<Rightarrow> if n \<le> 0 \<or> c \<le> 0 then None else Some (n, c)
      | _ \<Rightarrow> None)"

text \<open>The entries of a TMDB detail are dictionaries; \<open>detail.get("seasons") or []\<close> is a list.\<close>

definition tmdb_seasons_from_detail :: "pyval \<Rightarrow> (int \<times> int) list" where
  "tmdb_seasons_from_detail detail =
     (case pget detail (u ''seasons'') of
        PList seasons \<Rightarrow> List.map_filter season_entry seasons
      | _ \<Rightarrow> [])"

definition season_keys :: "pyval \<Rightarrow> ekey set" where
  "season_keys season =
     (if is_pdict season
      then (case season_entry season of None \<Rightarrow> {} | Some (n, c) \<Rightarrow> keys_upto n 1 c)
      else {})"

definition all_tmdb_episode_keys :: "subscription \<Rightarrow> ekey set" where
  "all_tmdb_episode_keys sub =
     (let keys = (case decoded (tmdb_seasons sub) of
                    PList seasons \<Rightarrow> (\<Union>season \<in> set seasons. season_keys season)
                  | _ \<Rightarrow> {})
      in if keys \<noteq> {} then keys
         else if 0 < tmdb_total_count sub then keys_upto 1 1 (tmdb_total_count sub) else {})"

definition explicit_owned_keys :: "subscription \<Rightarrow> ekey set" where
  "explicit_owned_keys sub =
     (case emby_episodes sub of Some owned \<Rightarrow> owned
      | None \<Rightarrow> episode_keys_from_json (emby_episode_keys sub))"

definition owned_episode_keys :: "subscription \<Rightarrow> ekey set" where
  "owned_episode_keys sub =
     (let owned = explicit_owned_keys sub; expected = all_tmdb_episode_keys sub in
      if owned \<noteq> {} then owned
      else if emby_count sub \<le> 0 then {}
      else if expected \<noteq> {} \<and> \<not> (\<forall>key \<in> expected. fst key = 1) then {}
      else keys_upto 1 1 (emby_count sub))"

definition missing_episode_keys :: "subscription \<Rightarrow> ekey set" where
  "missing_episode_keys sub =
     (if media_type sub \<noteq> Tv then {}
      else all_tmdb_episode_keys sub - owned_episode_keys sub)"

section \<open>Ranges\<close>

lemma mem_keys_upto [simp]: "(s, e) \<in> keys_upto season a b \<longleftrightarrow> s = season \<and> a \<le> e \<and> e \<le> b"
  by (auto simp: keys_upto_def)

lemma keys_upto_empty [simp]: "keys_upto s a b = {} \<longleftrightarrow> b < a"
  by (auto simp: keys_upto_def)

lemma finite_keys_upto [simp]: "finite (keys_upto s a b)"
  by (simp add: keys_upto_def)

lemma card_keys_upto: "card (keys_upto s a b) = nat (b - a + 1)"
proof -
  have "keys_upto s a b = Pair s ` {a..b}"
    by (auto simp: keys_upto_def)
  then show ?thesis
    by (simp add: card_image inj_on_def)
qed

lemma expand_episode_range_mem:
  "(s, e) \<in> expand_episode_range season a b \<longleftrightarrow>
     s = season_or_1 season \<and> 0 < a \<and> a \<le> e
     \<and> e \<le> (case b of None \<Rightarrow> a | Some x \<Rightarrow> if x = 0 then a else x)
     \<and> (case b of None \<Rightarrow> a | Some x \<Rightarrow> if x = 0 then a else x) - a \<le> 120"
  by (auto simp: expand_episode_range_def Let_def)

lemma expand_episode_range_finite [simp]: "finite (expand_episode_range season a b)"
  by (simp add: expand_episode_range_def Let_def)

lemma expand_episode_range_card: "card (expand_episode_range season a b) \<le> 121"
  by (auto simp: expand_episode_range_def Let_def card_keys_upto)

lemma expand_episode_range_single: "0 < a \<Longrightarrow> expand_episode_range season a None = {(season_or_1 season, a)}"
  by (auto simp: expand_episode_range_def keys_upto_def)

section \<open>The JSON form\<close>

lemma not_space_120: "\<not> is_space 120"
  by (simp add: is_space_def)

lemma digit_stops [simp]: "\<not> is_decimal 120"
  by (simp add: chr_eval)

lemma match_two_runs:
  assumes ds: "list_all is_decimal ds" "ds \<noteq> []" and es: "list_all is_decimal es" "es \<noteq> []"
  shows "re_fullmatch JSON_KEY_RE (ds @ [120] @ es) =
     Some \<lparr>m_before = [], m_text = ds @ [120] @ es, m_after = [],
           m_groups = [(''2'', es), (''1'', ds)]\<rparr>"
proof -
  obtain d ds' where d: "ds = d # ds'" "is_decimal d" "list_all is_decimal ds'"
    using ds by (cases ds) auto
  obtain e es' where e: "es = e # es'" "is_decimal e" "list_all is_decimal es'"
    using es by (cases es) auto
  let ?s = "ds @ 120 # es"
  obtain sts where sts: "run_states is_decimal [d] (ds' @ 120 # es) [] = (rev ds' @ [d], 120 # es, []) # sts"
    "\<forall>st \<in> set sts. \<exists>c cs. rest st = c # cs \<and> is_decimal c"
    using run_states_all [OF d(3), of "120 # es" "[d]" "[]"] by auto
  have dead: "flat_map (match_re (Cat (chr 120) q)) (map (capture ''1'' ?s) sts) = []" for q
  proof -
    have "match_re (Cat (chr 120) q) (capture ''1'' ?s st) = []" if mem: "st \<in> set sts" for st
    proof -
      obtain c cs where c: "rest st = c # cs" "is_decimal c" using sts(2) mem by blast
      then have "c \<noteq> 120" by auto
      with c show ?thesis
        by (cases st) (simp add: chr_def capture_def is_chr_def)
    qed
    then show ?thesis by (simp add: flat_map_def)
  qed
  have first: "match_re (many1 digit) ([], ?s, []) = (rev ds, 120 # es, []) # sts"
    using sts(1) d by (simp add: many1_def rep_plus_cls)
  let ?b = "120 # rev ds"
  obtain sts2 where sts2: "run_states is_decimal (e # ?b) (es' @ []) [(''1'', ds)] =
      (rev es' @ e # ?b, [], [(''1'', ds)]) # sts2"
    "\<forall>st \<in> set sts2. \<exists>c cs. rest st = c # cs \<and> is_decimal c"
    using run_states_all [OF e(3), of "[]" "e # ?b" "[(''1'', ds)]"] by auto
  have second: "match_re (many1 digit) (?b, es, [(''1'', ds)]) = (rev es @ ?b, [], [(''1'', ds)]) # sts2"
    using sts2(1) e by (simp add: many1_def rep_plus_cls)
  have "filter (\<lambda>st. rest st = []) (map (capture ''2'' es) sts2) = []"
    using sts2(2) by (force simp: filter_empty_conv capture_def)
  then have "filter (\<lambda>st. rest st = []) (match_re JSON_KEY_RE ([], ?s, [])) =
      [(rev es @ ?b, [], [(''2'', es), (''1'', ds)])]"
    using dead [of "Grp ''2'' (many1 digit)"]
    by (simp add: JSON_KEY_RE_def first second capture_def chr_def is_chr_def flat_map_def)
  then show ?thesis by (simp add: re_fullmatch_def first_match_def)
qed

lemma json_key_str:
  assumes "0 \<le> s" "0 \<le> e"
  shows "episode_key_from_json (PStr (json_episode_key (s, e))) = episode_key (Some s) (Some e)"
proof -
  let ?ds = "dec_str (nat s)" and ?es = "dec_str (nat e)"
  have key: "json_episode_key (s, e) = ?ds @ [120] @ ?es"
    using assms by (simp add: json_episode_key_def int_str_def)
  have "\<not> is_space c" if "c \<in> set (?ds @ [120] @ ?es)" for c
    using that dec_str_not_space [of c "nat s"] dec_str_not_space [of c "nat e"] not_space_120 by auto
  then have "strip (?ds @ [120] @ ?es) = ?ds @ [120] @ ?es"
    by (intro strip_no_space) blast
  moreover have "re_fullmatch JSON_KEY_RE (?ds @ [120] @ ?es) =
      Some \<lparr>m_before = [], m_text = ?ds @ [120] @ ?es, m_after = [],
            m_groups = [(''2'', ?es), (''1'', ?ds)]\<rparr>"
    by (rule match_two_runs) (simp_all add: dec_str_decimal)
  ultimately show ?thesis
    using assms by (simp add: key grp_def group_def int_of_digits_def)
qed

section \<open>Expected, owned and missing episodes\<close>

lemma finite_season_keys [simp]: "finite (season_keys season)"
  by (auto simp: season_keys_def split: option.splits)

lemma finite_all_tmdb_episode_keys [simp]: "finite (all_tmdb_episode_keys sub)"
  by (auto simp: all_tmdb_episode_keys_def Let_def split: pyval.splits)

lemma season_keys_positive: "(s, e) \<in> season_keys season \<Longrightarrow> 0 < s \<and> 0 < e"
  by (auto simp: season_keys_def season_entry_def split: option.splits if_splits)

lemma all_tmdb_episode_keys_positive: "(s, e) \<in> all_tmdb_episode_keys sub \<Longrightarrow> 0 < s \<and> 0 < e"
  by (auto simp: all_tmdb_episode_keys_def Let_def split: pyval.splits if_splits
      dest: season_keys_positive)

lemma missing_subset_expected: "missing_episode_keys sub \<subseteq> all_tmdb_episode_keys sub"
  by (auto simp: missing_episode_keys_def)

lemma missing_owned_disjoint: "missing_episode_keys sub \<inter> owned_episode_keys sub = {}"
  by (auto simp: missing_episode_keys_def)

lemma finite_missing [simp]: "finite (missing_episode_keys sub)"
  using finite_subset [OF missing_subset_expected] by simp

text \<open>A row of a list of keys, as the library code writes it back into \<open>emby_episode_keys\<close>\<close>

lemma episode_keys_from_json_written:
  assumes "\<forall>(s, e) \<in> set ks. 0 < s \<and> 0 < e"
  shows "episode_keys_from_json (PList (map (PStr \<circ> json_episode_key) ks)) = set ks"
proof -
  have "List.map_filter episode_key_from_json (map (PStr \<circ> json_episode_key) ks) = ks"
    using assms
  proof (induction ks)
    case (Cons k ks)
    obtain s e where k: "k = (s, e)" by fastforce
    with Cons.prems have "0 < s" "0 < e" by auto
    then have "episode_key_from_json (PStr (json_episode_key k)) = Some k"
      using json_key_str [of s e] by (simp add: k episode_key_def season_or_1_def)
    then show ?case
      using Cons by (simp add: List.map_filter_simps)
  qed (simp add: List.map_filter_simps)
  then show ?thesis by (simp add: episode_keys_from_json_def)
qed

end
