(* ===== verification/Episode_Patterns.thy ===== *)
theory Episode_Patterns
  imports Py_Regex
begin

text \<open>
  The numerals and the compiled patterns of the episode parser:
  \<open>app/services/subscription/episode/chinese_numbers.py\<close>, \<open>numbers.py\<close>, \<open>patterns.py\<close> and the
  pattern constants of \<open>explicit.py\<close>.  Shown here: Chinese numerals from 1 to 99 parse to their
  value in the plain and in the financial form of ten, and a numeral with a ten in it is below 100.
\<close>

section \<open>Chinese numerals\<close>

text \<open>\<open>CHINESE_DIGITS\<close>: ling (two forms), yi, er, liang, san, ..., jiu, then the financial digits\<close>

definition CHINESE_DIGITS :: "(nat \<times> nat) list" where
  "CHINESE_DIGITS =
     [(0x96F6, 0), (0x3007, 0), (0x4E00, 1), (0x4E8C, 2), (0x4E24, 2), (0x4E09, 3), (0x56DB, 4),
      (0x4E94, 5), (0x516D, 6), (0x4E03, 7), (0x516B, 8), (0x4E5D, 9), (0x58F9, 1), (0x8D30, 2),
      (0x8CB3, 2), (0x53C1, 3), (0x8086, 4), (0x4F0D, 5), (0x9646, 6), (0x9678, 6), (0x67D2, 7),
      (0x634C, 8), (0x7396, 9)]"

definition cn_digit :: "nat \<Rightarrow> nat option" where
  "cn_digit c = map_of CHINESE_DIGITS c"

text \<open>\<open>CHINESE_DIGITS.get(s, d)\<close> for a string \<open>s\<close>\<close>

definition cn_digit_or :: "nat \<Rightarrow> pystr \<Rightarrow> nat" where
  "cn_digit_or d s = (case s of [c] \<Rightarrow> (case cn_digit c of None \<Rightarrow> d | Some v \<Rightarrow> v) | _ \<Rightarrow> d)"

fun plain_chinese_digits :: "nat \<Rightarrow> pystr \<Rightarrow> nat option" where
  "plain_chinese_digits number [] = (if number = 0 then None else Some number)"
| "plain_chinese_digits number (c # cs) =
     (case cn_digit c of None \<Rightarrow> None | Some d \<Rightarrow> plain_chinese_digits (number * 10 + d) cs)"

text \<open>\<open>text.strip().replace(SHI_FINANCIAL, SHI)\<close>\<close>

definition normalize_ten :: "pystr \<Rightarrow> pystr" where
  "normalize_ten s = map (\<lambda>c. if c = 0x62FE then 0x5341 else c) (strip s)"

definition chinese_number_to_int :: "pystr \<Rightarrow> nat option" where
  "chinese_number_to_int text =
     (let normalized = normalize_ten text in
      if normalized = [0x5341] then Some 10
      else case split_once 0x5341 normalized of
        Some (left, right) \<Rightarrow>
          (let tens = cn_digit_or (if left = [] then 1 else 0) left;
               ones = (if right = [] then 0 else cn_digit_or 0 right)
           in if tens = 0 then None else Some (tens * 10 + ones))
      | None \<Rightarrow>
          if length normalized = 1 then cn_digit (hd normalized)
          else plain_chinese_digits 0 normalized)"

text \<open>
  \<open>_number_token_to_int\<close>.  A digit that is not decimal, such as a superscript, passes
  \<open>isdigit\<close> and makes \<open>int()\<close> raise; that is \<^const>\<open>None\<close> here.  The patterns capture \<open>\\d\<close> only.
\<close>

definition number_token_to_int :: "pystr \<Rightarrow> nat option" where
  "number_token_to_int value =
     (let text = strip value in
      if text = [] then None
      else if str_isdigit text then nat_of_digits text
      else chinese_number_to_int text)"

lemma cn_digit_lt: "cn_digit c = Some d \<Longrightarrow> d < 10"
  by (auto simp: cn_digit_def CHINESE_DIGITS_def split: if_splits)

lemma cn_digit_or_lt: "d < 10 \<Longrightarrow> cn_digit_or d s < 10"
  by (auto simp: cn_digit_or_def cn_digit_lt split: list.splits option.splits)

text \<open>The standard way to write 1 to 99, with \<open>ten\<close> either character for ten\<close>

definition cn_digit_char :: "nat \<Rightarrow> nat" where
  "cn_digit_char d =
     [0x96F6, 0x4E00, 0x4E8C, 0x4E09, 0x56DB, 0x4E94, 0x516D, 0x4E03, 0x516B, 0x4E5D] ! d"

definition cn_numeral :: "nat \<Rightarrow> nat \<Rightarrow> pystr" where
  "cn_numeral ten n =
     (if n < 10 then [cn_digit_char n]
      else (if n div 10 = 1 then [] else [cn_digit_char (n div 10)]) @ [ten]
           @ (if n mod 10 = 0 then [] else [cn_digit_char (n mod 10)]))"

lemma digit_cases: "(d::nat) < 10 \<Longrightarrow> d \<in> {0, 1, 2, 3, 4, 5, 6, 7, 8, 9}"
  by auto

lemma cn_digit_char_facts:
  assumes "d < 10"
  shows "cn_digit (cn_digit_char d) = Some d" "\<not> is_space (cn_digit_char d)"
    "cn_digit_char d \<noteq> 0x5341" "cn_digit_char d \<noteq> 0x62FE"
  using digit_cases [OF assms]
  by (auto simp: cn_digit_def CHINESE_DIGITS_def cn_digit_char_def is_space_def)

lemma chinese_numeral_value:
  assumes "1 \<le> n" "n < 100" "ten = 0x5341 \<or> ten = 0x62FE"
  shows "chinese_number_to_int (cn_numeral ten n) = Some n"
proof -
  have ten: "\<not> is_space ten" using assms(3) by (auto simp: is_space_def)
  have t: "n div 10 < 10" and o: "n mod 10 < 10" using assms(2) by auto
  note facts = cn_digit_char_facts [OF t] cn_digit_char_facts [OF o]
  have "strip (cn_numeral ten n) = cn_numeral ten n"
    by (rule strip_no_space) (use facts ten cn_digit_char_facts [of n] in \<open>auto simp: cn_numeral_def\<close>)
  then have norm: "normalize_ten (cn_numeral ten n) = cn_numeral 0x5341 n"
    using facts assms(3) cn_digit_char_facts [of n] by (auto simp: normalize_ten_def cn_numeral_def)
  show ?thesis
  proof (cases "n < 10")
    case True
    then show ?thesis
      unfolding chinese_number_to_int_def norm
      using assms(1) cn_digit_char_facts [OF True] by (simp add: cn_numeral_def)
  next
    case False
    then have "n div 10 \<noteq> 0" by auto
    then show ?thesis
      unfolding chinese_number_to_int_def norm
      using False facts by (simp add: cn_numeral_def cn_digit_or_def) presburger
  qed
qed

lemma chinese_ten_below_100:
  "0x5341 \<in> set (normalize_ten text) \<Longrightarrow> chinese_number_to_int text = Some n \<Longrightarrow> 0 < n \<and> n < 100"
proof -
  assume mem: "0x5341 \<in> set (normalize_ten text)" and res: "chinese_number_to_int text = Some n"
  have sp: "split_once d s \<noteq> None" if "d \<in> set s" for d and s :: pystr
    using that by (induction s) auto
  obtain l r where lr: "split_once 0x5341 (normalize_ten text) = Some (l, r)"
    using sp [OF mem] by auto
  have "cn_digit_or (if l = [] then 1 else 0) l < 10" "(if r = [] then 0 else cn_digit_or 0 r) < 10"
    by (simp_all add: cn_digit_or_lt)
  with res show ?thesis
    by (auto simp: chinese_number_to_int_def Let_def lr split: if_splits)
qed

section \<open>Shared pieces of the patterns\<close>

text \<open>
  Characters by code point: di \<open>7B2C\<close>, ji (season) \<open>5B63\<close>, bu \<open>90E8\<close>, ji (episode) \<open>96C6\<close>,
  hua \<open>8BDD\<close> and \<open>8A71\<close>, zhi \<open>81F3\<close>, dao \<open>5230\<close>, quan \<open>5168\<close>, gong \<open>5171\<close>.
\<close>

definition cn_number_chars :: pystr where
  [re_pats]: "cn_number_chars =
     [0x96F6, 0x3007, 0x4E00, 0x4E8C, 0x4E09, 0x56DB, 0x4E94, 0x516D, 0x4E03, 0x516B, 0x4E5D, 0x5341,
      0x4E24, 0x58F9, 0x8D30, 0x53C1, 0x8086, 0x4F0D, 0x9646, 0x67D2, 0x634C, 0x7396, 0x62FE]"

definition CN_NUMBER_TOKEN :: re where
  [re_pats]: "CN_NUMBER_TOKEN = Alt (upto 1 3 digit) (upto 1 8 (one_of cn_number_chars))"

definition range_sep :: re where
  [re_pats]: "range_sep = one_of [45, 126, 0x2013, 0x2014, 0x81F3, 0x5230]"

definition ep_unit :: re where
  [re_pats]: "ep_unit = one_of [0x96C6, 0x8BDD, 0x8A71]"

definition season_unit :: re where
  [re_pats]: "season_unit = one_of [0x5B63, 0x90E8]"

definition di :: re where
  [re_pats]: "di = chr 0x7B2C"

text \<open>the class \<open>[\\s._-]\<close> and the negative look-behind \<open>(?<![a-z0-9])\<close>\<close>

definition dot_sep :: "nat \<Rightarrow> bool" where
  [chr_eval]: "dot_sep c = (is_space c \<or> c = 46 \<or> c = 95 \<or> c = 45)"

definition not_after_alnum :: re where
  [re_pats]: "not_after_alnum = NotBehind ascii_alnum_i"

definition not_before_alnum :: re where
  [re_pats]: "not_before_alnum = NotAhead (Cls ascii_alnum_i)"

definition ascii_letter_i :: "nat \<Rightarrow> bool" where
  [chr_eval]: "ascii_letter_i c = is_ascii_lower (re_lower c)"

text \<open>\<open>(?:\\s*(?:-|~|...)\\s*di?\\s*(?P<end>NUM)\\s*[unit]?)?\<close>, with the group's name\<close>

definition cn_range_end :: "re \<Rightarrow> re \<Rightarrow> string \<Rightarrow> re" where
  [re_pats]: "cn_range_end di_part num name =
     opt (seqs [spaces, range_sep, spaces, di_part, Grp name num, spaces, opt ep_unit])"

section \<open>The patterns of \<open>patterns.py\<close>\<close>

definition EPISODE_TOKEN_RE :: re where
  [re_pats]: "EPISODE_TOKEN_RE =
     Alt (seqs [opt (seqs [chr_i 115, Grp ''season'' (upto 1 2 digit), spaces]),
                chr_i 101, opt (chr_i 112), Grp ''episode'' (upto 1 3 digit),
                opt (seqs [spaces, range_sep, spaces, opt (seqs [chr_i 101, opt (chr_i 112)]),
                           Grp ''episode_end'' (upto 1 3 digit)])])
         (seqs [di, spaces, Grp ''cn_episode'' CN_NUMBER_TOKEN, spaces, ep_unit,
                cn_range_end (seqs [opt di, spaces]) CN_NUMBER_TOKEN ''cn_episode_end''])"

definition CN_SEASON_EPISODE_RE :: re where
  [re_pats]: "CN_SEASON_EPISODE_RE =
     seqs [di, spaces, Grp ''season'' CN_NUMBER_TOKEN, spaces, chr 0x5B63, lazy_many any_char,
           di, spaces, Grp ''episode'' CN_NUMBER_TOKEN, spaces, ep_unit,
           cn_range_end (seqs [opt di, spaces]) CN_NUMBER_TOKEN ''episode_end'']"

definition PLAIN_EPISODE_RANGE_RE :: re where
  [re_pats]: "PLAIN_EPISODE_RANGE_RE =
     seqs [not_after_alnum, Grp ''start'' (upto 1 3 digit), spaces, range_sep, spaces,
           Grp ''end'' (upto 1 3 digit), spaces,
           opt (alts [ep_unit, seqs [lit_i ''ep'', opt (chr_i 115)],
                      seqs [lit_i ''episode'', opt (chr_i 115)]]),
           not_before_alnum]"

definition update_unit :: re where
  [re_pats]: "update_unit =
     alts [ep_unit, lit_i ''ep'', seqs [lit_i ''ep'', opt (chr_i 115)], lit_i ''episode'']"

definition UPDATE_TO_EPISODE_RE :: re where
  [re_pats]: "UPDATE_TO_EPISODE_RE =
     Alt (seqs [alts [seqs [opt (chr 0x5DF2), lit_u [0x66F4, 0x65B0, 0x81F3]],
                      seqs [opt (chr 0x5DF2), lit_u [0x66F4, 0x81F3]],
                      lit_u [0x66F4, 0x5230], lit_u [0x66F4, 0x65B0, 0x5230],
                      lit_u [0x8FDE, 0x8F7D, 0x81F3], lit_u [0x5B8C, 0x7ED3, 0x81F3]],
                spaces, opt (seqs [di, spaces]), Grp ''episode'' CN_NUMBER_TOKEN,
                opt (seqs [spaces, update_unit])])
         (seqs [lit_u [0x66F4, 0x65B0], spaces, one_of [58, 0xFF1A], spaces, opt (seqs [di, spaces]),
                Grp ''episode_colon'' CN_NUMBER_TOKEN, opt (seqs [spaces, update_unit])])"

definition SEASON_MENTION_RE :: re where
  [re_pats]: "SEASON_MENTION_RE =
     alts [seqs [not_after_alnum, chr_i 115, Grp ''s'' (upto 1 2 digit), NotAhead digit],
           seqs [lit_i ''season'', many (Cls dot_sep), Grp ''season'' (upto 1 2 digit), WordB],
           seqs [Grp ''ord'' (upto 1 2 digit),
                 opt (alts [lit_i ''st'', lit_i ''nd'', lit_i ''rd'', lit_i ''th'']),
                 many (Cls dot_sep), lit_i ''season'', WordB],
           seqs [di, spaces, Grp ''cn'' CN_NUMBER_TOKEN, spaces, season_unit]]"

definition SEASON_PACK_WORD_RE :: re where
  [re_pats]: "SEASON_PACK_WORD_RE =
     alts [lit_u [0x5168, 0x96C6], lit_u [0x5168, 0x5B63], lit_u [0x6574, 0x5B63],
           lit_u [0x5408, 0x96C6], lit_u [0x5B8C, 0x7ED3], lit_u [0x5DF2, 0x5B8C, 0x7ED3],
           lit_u [0x5B8C, 0x6574, 0x7248], seqs [lit_i ''complete'', opt (chr_i 100)],
           seqs [lit_i ''full'', spaces, lit_i ''season''],
           seqs [lit_i ''season'', spaces, Alt (lit_i ''pack'') (lit_i ''complete'')]]"

definition series_or_collection :: re where
  [re_pats]: "series_or_collection = Alt (lit_i ''series'') (lit_i ''collection'')"

definition all_seasons :: re where
  [re_pats]: "all_seasons = seqs [chr 0x5168, spaces, CN_NUMBER_TOKEN, spaces, season_unit]"

definition FULL_SERIES_PACK_RE :: re where
  [re_pats]: "FULL_SERIES_PACK_RE =
     alts [lit_u [0x5168, 0x96C6], lit_u [0x5168, 0x5267], lit_u [0x5168, 0x5957],
           lit_u [0x5408, 0x96C6], lit_u [0x5B8C, 0x6574, 0x7248],
           seqs [lit_i ''complete'', spaces, opt series_or_collection],
           seqs [lit_i ''full'', spaces, series_or_collection], all_seasons]"

definition FULL_SERIES_WIDE_PACK_RE :: re where
  [re_pats]: "FULL_SERIES_WIDE_PACK_RE =
     alts [lit_u [0x5168, 0x5267], lit_u [0x5168, 0x5957],
           seqs [lit_i ''complete'', spaces, series_or_collection],
           seqs [lit_i ''full'', spaces, series_or_collection], all_seasons]"

definition STRONG_PACK_WORD_RE :: re where
  [re_pats]: "STRONG_PACK_WORD_RE =
     alts [lit_u [0x5168, 0x96C6], lit_u [0x5168, 0x5B63], lit_u [0x6574, 0x5B63],
           lit_u [0x5408, 0x96C6], lit_u [0x5168, 0x5267], lit_u [0x5168, 0x5957],
           seqs [chr 0x5168, spaces, CN_NUMBER_TOKEN, spaces,
                 one_of [0x96C6, 0x8BDD, 0x8A71, 0x5B63, 0x90E8]],
           seqs [lit_i ''season'', spaces, Alt (lit_i ''pack'') (lit_i ''complete'')],
           seqs [lit_i ''full'', spaces, lit_i ''season''],
           seqs [lit_i ''complete'', spaces, series_or_collection],
           seqs [lit_i ''full'', spaces, series_or_collection]]"

definition FULL_EPISODE_COUNT_RE :: re where
  [re_pats]: "FULL_EPISODE_COUNT_RE =
     alts [seqs [one_of [0x5168, 0x5171], spaces, Grp ''prefix'' CN_NUMBER_TOKEN, spaces, ep_unit],
           seqs [Grp ''suffix'' CN_NUMBER_TOKEN, spaces, ep_unit, spaces,
                 alts [chr 0x5168, lit_u [0x5168, 0x96C6], lit_u [0x5B8C, 0x7ED3],
                       lit_u [0x5DF2, 0x5B8C, 0x7ED3]]],
           seqs [Grp ''en'' (upto 1 3 digit), spaces,
                 Alt (seqs [lit_i ''ep'', opt (chr_i 115)]) (seqs [lit_i ''episode'', opt (chr_i 115)]),
                 spaces, alts [lit_i ''complete'', lit_i ''completed'', lit_i ''full'']]]"

section \<open>The patterns of \<open>explicit.py\<close>\<close>

definition URL_LIKE_RE :: re where
  [re_pats]: "URL_LIKE_RE =
     alts [seqs [WordB, Alt (seqs [lit_i ''http'', opt (chr_i 115), lit ''://'']) (lit_i ''www.''),
                 many1 (Cls not_space)],
           seqs [lit_i ''magnet:?'', many1 (Cls not_space)],
           seqs [lit_i ''ed2k://'', many1 (Cls not_space)]]"

definition share_path_char :: "nat \<Rightarrow> bool" where
  [chr_eval]: "share_path_char c = (ascii_alnum_i c \<or> c = 95 \<or> c = 45)"

definition url_query_char :: "nat \<Rightarrow> bool" where
  [chr_eval]: "url_query_char c =
     (\<not> is_space c \<and> c \<noteq> 34 \<and> c \<noteq> 39 \<and> c \<noteq> 60 \<and> c \<noteq> 62 \<and> c \<noteq> 41)"

definition SPLIT_115_SHARE_PATH_RE :: re where
  [re_pats]: "SPLIT_115_SHARE_PATH_RE =
     seqs [NotBehind not_space, chr 47, Rep True 6 None (Cls share_path_char),
           opt (seqs [chr 63, many1 (Cls url_query_char)])]"

text \<open>\<open>CN_NUM_TOKEN\<close> lacks the character liang (two) of \<open>CN_NUMBER_TOKEN\<close>.\<close>

definition cn_num_chars :: pystr where
  [re_pats]: "cn_num_chars =
     [0x96F6, 0x3007, 0x4E00, 0x4E8C, 0x4E09, 0x56DB, 0x4E94, 0x516D, 0x4E03, 0x516B, 0x4E5D, 0x5341,
      0x58F9, 0x8D30, 0x53C1, 0x8086, 0x4F0D, 0x9646, 0x67D2, 0x634C, 0x7396, 0x62FE]"

definition CN_NUM_TOKEN :: re where
  [re_pats]: "CN_NUM_TOKEN = Alt (upto 1 3 digit) (upto 1 8 (one_of cn_num_chars))"

definition CN_SEASON_EPISODE_NATIVE_RE :: re where
  [re_pats]: "CN_SEASON_EPISODE_NATIVE_RE =
     seqs [di, spaces, Grp ''season'' CN_NUM_TOKEN, spaces, season_unit, spaces, opt di, spaces,
           Grp ''episode'' CN_NUM_TOKEN, spaces, ep_unit,
           cn_range_end (seqs [opt di, spaces]) CN_NUM_TOKEN ''episode_end'']"

definition CN_EPISODE_NATIVE_RE :: re where
  [re_pats]: "CN_EPISODE_NATIVE_RE =
     seqs [opt (seqs [di, spaces]), Grp ''episode'' CN_NUM_TOKEN, spaces, ep_unit,
           cn_range_end (opt (seqs [di, spaces])) CN_NUM_TOKEN ''episode_end'']"

definition CN_EPISODE_RANGE_NATIVE_RE :: re where
  [re_pats]: "CN_EPISODE_RANGE_NATIVE_RE =
     seqs [di, spaces, Grp ''episode'' CN_NUM_TOKEN, spaces, range_sep, spaces,
           opt (seqs [di, spaces]), Grp ''episode_end'' CN_NUM_TOKEN, spaces, ep_unit]"

definition CN_UPDATE_TO_NATIVE_RE :: re where
  [re_pats]: "CN_UPDATE_TO_NATIVE_RE =
     Alt (seqs [alts [seqs [opt (chr 0x5DF2), lit_u [0x66F4, 0x65B0, 0x81F3]],
                      seqs [opt (chr 0x5DF2), lit_u [0x66F4, 0x81F3]],
                      lit_u [0x66F4, 0x5230], lit_u [0x66F4, 0x65B0, 0x5230],
                      lit_u [0x8FDE, 0x8F7D, 0x81F3], lit_u [0x9023, 0x8F09, 0x81F3],
                      lit_u [0x5B8C, 0x7ED3, 0x81F3], lit_u [0x5B8C, 0x7D50, 0x81F3]],
                spaces, opt (seqs [di, spaces]), Grp ''episode'' CN_NUM_TOKEN, spaces, opt update_unit])
         (seqs [lit_u [0x66F4, 0x65B0], spaces, one_of [58, 0xFF1A], spaces, opt (seqs [di, spaces]),
                Grp ''episode_colon'' CN_NUM_TOKEN, spaces, opt update_unit])"

definition EPISODE_DOTTED_TOKEN_RE :: re where
  [re_pats]: "EPISODE_DOTTED_TOKEN_RE =
     seqs [not_after_alnum,
           opt (seqs [chr_i 115, Grp ''season'' (upto 1 2 digit), many (Cls dot_sep)]),
           Alt (lit_i ''e'') (lit_i ''ep''), NotAhead (Cls ascii_letter_i), many (Cls dot_sep),
           Grp ''episode'' (upto 1 3 digit),
           opt (seqs [spaces, range_sep, spaces, opt (Alt (lit_i ''e'') (lit_i ''ep'')),
                      many (Cls dot_sep), Grp ''episode_end'' (upto 1 3 digit), not_before_alnum])]"

definition SEASON_DOTTED_EPISODE_RE :: re where
  [re_pats]: "SEASON_DOTTED_EPISODE_RE =
     seqs [not_after_alnum, chr_i 115, Grp ''season'' (upto 1 2 digit), many1 (Cls dot_sep),
           Grp ''episode'' (upto 1 3 digit),
           opt (seqs [spaces, range_sep, spaces, Grp ''episode_end'' (upto 1 3 digit),
                      not_before_alnum])]"

definition CN_FULL_COUNT_NATIVE_RE :: re where
  [re_pats]: "CN_FULL_COUNT_NATIVE_RE =
     Alt (seqs [one_of [0x5168, 0x5171], spaces, Grp ''prefix'' CN_NUM_TOKEN, spaces, ep_unit])
         (seqs [Grp ''suffix'' CN_NUM_TOKEN, spaces, ep_unit, spaces,
                alts [chr 0x5168, lit_u [0x5B8C, 0x7ED3], lit_u [0x5B8C, 0x7D50]]])"

definition CN_SEASON_MENTION_NATIVE_RE :: re where
  [re_pats]: "CN_SEASON_MENTION_NATIVE_RE =
     seqs [di, spaces, Grp ''season'' CN_NUM_TOKEN, spaces, season_unit]"

end
