(* ===== verification/Episode_Explicit.thy ===== *)
theory Episode_Explicit
  imports Episode_Keys Episode_Patterns
begin

text \<open>
  \<open>app/services/subscription/episode/explicit.py\<close>: the episodes, seasons and pack counts that a
  resource text names.  Shown: every reader yields finitely many keys with season and episode at
  least 1, the readers are tried in a fixed order, and the season scan never reports a number
  outside 1 to 99.
\<close>

section \<open>Readers\<close>

definition SPACE_STR :: pystr where
  [py_defs]: "SPACE_STR = [32]"

definition episode_parse_text :: "pystr \<Rightarrow> pystr" where
  "episode_parse_text text =
     re_sub SPLIT_115_SHARE_PATH_RE SPACE_STR (re_sub URL_LIKE_RE SPACE_STR text)"

text \<open>\<open>int(match.group(name))\<close> of a group of decimal digits, and \<open>... if match.group(name) else d\<close>\<close>

definition grp_int :: "string \<Rightarrow> mtch \<Rightarrow> int" where
  "grp_int name m = (case nat_of_digits (grp name m) of None \<Rightarrow> 0 | Some n \<Rightarrow> int n)"

definition grp_int_or :: "int \<Rightarrow> string \<Rightarrow> mtch \<Rightarrow> int" where
  "grp_int_or d name m = (if grp name m = [] then d else grp_int name m)"

text \<open>\<open>_number_token_to_int(token)\<close> where \<open>None\<close> and 0 are both rejected by the caller\<close>

definition token_int :: "pystr \<Rightarrow> int" where
  "token_int token = (case number_token_to_int token of None \<Rightarrow> 0 | Some n \<Rightarrow> int n)"

definition token_end :: "int \<Rightarrow> pystr \<Rightarrow> int" where
  "token_end start token = (if token = [] then start else token_int token)"

definition numbers_upto :: "int \<Rightarrow> pystr list \<Rightarrow> int set" where
  "numbers_upto limit tokens = set (filter (\<lambda>n. 0 < n \<and> n \<le> limit) (map token_int tokens))"

text \<open>
  The first loop of \<open>_season_numbers_from_text\<close> assigns each token to \<open>value\<close>, the variable that
  the second loop scans: after a first hit the second scan reads the last token, not the text.
\<close>

definition season_token :: "mtch \<Rightarrow> pystr" where
  "season_token m = or_str (or_str (or_str (grp ''s'' m) (grp ''season'' m)) (grp ''ord'' m)) (grp ''cn'' m)"

definition season_numbers_from_text :: "pystr \<Rightarrow> int set" where
  "season_numbers_from_text text =
     (let value = episode_parse_text text;
          tokens = map season_token (re_finditer SEASON_MENTION_RE value);
          value = (if tokens = [] then value else last tokens)
      in numbers_upto 99 tokens
         \<union> numbers_upto 99 (map (grp ''season'') (re_finditer CN_SEASON_MENTION_NATIVE_RE value)))"

definition episode_counts_from_pack_text :: "pystr \<Rightarrow> int set" where
  "episode_counts_from_pack_text text =
     (let value = episode_parse_text text in
      numbers_upto 200 (map (\<lambda>m. or_str (or_str (grp ''prefix'' m) (grp ''suffix'' m)) (grp ''en'' m))
         (re_finditer FULL_EPISODE_COUNT_RE value))
      \<union> numbers_upto 200 (map (\<lambda>m. or_str (grp ''prefix'' m) (grp ''suffix'' m))
         (re_finditer CN_FULL_COUNT_NATIVE_RE value)))"

definition keys_of :: "(mtch \<Rightarrow> ekey set) \<Rightarrow> re \<Rightarrow> pystr \<Rightarrow> ekey set" where
  "keys_of f r text = \<Union> (set (map f (re_finditer r text)))"

definition dotted_season_keys :: "mtch \<Rightarrow> ekey set" where
  "dotted_season_keys m =
     (let start = grp_int ''episode'' m in
      expand_episode_range (Some (grp_int ''season'' m)) start (Some (grp_int_or start ''episode_end'' m)))"

definition dotted_token_keys :: "mtch \<Rightarrow> ekey set" where
  "dotted_token_keys m =
     (let start = grp_int ''episode'' m in
      expand_episode_range (Some (grp_int_or 1 ''season'' m)) start (Some (grp_int_or start ''episode_end'' m)))"

definition episodes_from_dotted_episode_text :: "pystr \<Rightarrow> ekey set" where
  "episodes_from_dotted_episode_text text =
     keys_of dotted_season_keys SEASON_DOTTED_EPISODE_RE text
     \<union> keys_of dotted_token_keys EPISODE_DOTTED_TOKEN_RE text"

definition cn_season_keys :: "mtch \<Rightarrow> ekey set" where
  "cn_season_keys m =
     (let season = token_int (grp ''season'' m);
          start = token_int (grp ''episode'' m);
          stop = token_end start (grp ''episode_end'' m)
      in if season \<noteq> 0 \<and> start \<noteq> 0 then expand_episode_range (Some season) start (Some stop) else {})"

definition episodes_from_cn_season_text :: "pystr \<Rightarrow> ekey set" where
  "episodes_from_cn_season_text text =
     (let episodes = keys_of cn_season_keys CN_SEASON_EPISODE_RE text in
      if episodes \<noteq> {} then episodes else keys_of cn_season_keys CN_SEASON_EPISODE_NATIVE_RE text)"

definition token_keys :: "mtch \<Rightarrow> ekey set" where
  "token_keys m =
     (let token = or_str (grp ''episode'' m) (grp ''cn_episode'' m) in
      if token = [] then {}
      else let start = token_int token;
               stop = token_end start (or_str (grp ''episode_end'' m) (grp ''cn_episode_end'' m))
           in if start \<noteq> 0 then expand_episode_range (Some (grp_int_or 1 ''season'' m)) start (Some stop)
              else {})"

definition episodes_from_token_text :: "pystr \<Rightarrow> ekey set" where
  "episodes_from_token_text text = keys_of token_keys EPISODE_TOKEN_RE text"

definition plain_range_keys :: "mtch \<Rightarrow> ekey set" where
  "plain_range_keys m =
     (let start = grp_int ''start'' m; stop = grp_int ''end'' m in
      if start \<le> stop then expand_episode_range (Some 1) start (Some stop) else {})"

definition episodes_from_plain_ranges :: "pystr \<Rightarrow> ekey set" where
  "episodes_from_plain_ranges text = keys_of plain_range_keys PLAIN_EPISODE_RANGE_RE text"

definition update_keys :: "mtch \<Rightarrow> ekey set" where
  "update_keys m =
     (let episode = token_int (or_str (grp ''episode'' m) (grp ''episode_colon'' m)) in
      if episode \<noteq> 0 then expand_episode_range (Some 1) 1 (Some episode) else {})"

definition episodes_from_update_text :: "pystr \<Rightarrow> ekey set" where
  "episodes_from_update_text text =
     keys_of update_keys UPDATE_TO_EPISODE_RE text \<union> keys_of update_keys CN_UPDATE_TO_NATIVE_RE text"

definition native_range_keys :: "mtch \<Rightarrow> ekey set" where
  "native_range_keys m =
     (let start = token_int (grp ''episode'' m) in
      if start \<noteq> 0 then expand_episode_range (Some 1) start (Some (token_int (grp ''episode_end'' m)))
      else {})"

definition native_keys :: "mtch \<Rightarrow> ekey set" where
  "native_keys m =
     (let start = token_int (grp ''episode'' m) in
      if start \<noteq> 0
      then expand_episode_range (Some 1) start (Some (token_end start (grp ''episode_end'' m)))
      else {})"

definition episodes_from_native_cn_episode_text :: "pystr \<Rightarrow> ekey set" where
  "episodes_from_native_cn_episode_text text =
     (if re_found CN_FULL_COUNT_NATIVE_RE text then {}
      else keys_of native_range_keys CN_EPISODE_RANGE_NATIVE_RE text
           \<union> keys_of native_keys CN_EPISODE_NATIVE_RE text)"

definition or_keys :: "ekey set \<Rightarrow> ekey set \<Rightarrow> ekey set" where
  "or_keys a b = (if a \<noteq> {} then a else b)"

definition episodes_from_text :: "pystr \<Rightarrow> ekey set" where
  "episodes_from_text raw =
     (let text = episode_parse_text raw in
      or_keys (episodes_from_update_text text)
       (or_keys (episodes_from_cn_season_text text)
         (or_keys (episodes_from_dotted_episode_text text)
           (or_keys (episodes_from_token_text text)
             (or_keys (episodes_from_plain_ranges text)
               (episodes_from_native_cn_episode_text text))))))"

section \<open>What the readers yield\<close>

text \<open>A set of keys as every reader returns it\<close>

definition proper_keys :: "ekey set \<Rightarrow> bool" where
  "proper_keys keys \<longleftrightarrow> finite keys \<and> (\<forall>key \<in> keys. 1 \<le> fst key \<and> 1 \<le> snd key)"

lemma proper_keys_Un [intro]: "proper_keys a \<Longrightarrow> proper_keys b \<Longrightarrow> proper_keys (a \<union> b)"
  by (auto simp: proper_keys_def)

lemma proper_keys_empty [simp]: "proper_keys {}"
  by (simp add: proper_keys_def)

lemma proper_keys_subset: "proper_keys b \<Longrightarrow> a \<subseteq> b \<Longrightarrow> proper_keys a"
  by (auto simp: proper_keys_def intro: finite_subset)

lemma proper_keys_or [intro]: "proper_keys a \<Longrightarrow> proper_keys b \<Longrightarrow> proper_keys (or_keys a b)"
  by (simp add: or_keys_def)

lemma proper_keys_of [intro]: "(\<And>m. proper_keys (f m)) \<Longrightarrow> proper_keys (keys_of f r text)"
  by (auto simp: proper_keys_def keys_of_def)

lemma proper_expand [intro]: "0 \<le> s \<Longrightarrow> proper_keys (expand_episode_range (Some s) a b)"
  by (auto simp: proper_keys_def expand_episode_range_mem season_or_1_def)

lemma token_int_nonneg [simp]: "0 \<le> token_int t"
  by (simp add: token_int_def split: option.splits)

lemma grp_int_nonneg [simp]: "0 \<le> grp_int name m"
  by (simp add: grp_int_def split: option.splits)

lemma grp_int_or_nonneg [simp]: "0 \<le> d \<Longrightarrow> 0 \<le> grp_int_or d name m"
  by (simp add: grp_int_or_def)

lemmas reader_defs = dotted_season_keys_def dotted_token_keys_def cn_season_keys_def token_keys_def
  plain_range_keys_def update_keys_def native_range_keys_def native_keys_def

lemma proper_readers [intro, simp]:
  "proper_keys (dotted_season_keys m)" "proper_keys (dotted_token_keys m)"
  "proper_keys (cn_season_keys m)" "proper_keys (token_keys m)" "proper_keys (plain_range_keys m)"
  "proper_keys (update_keys m)" "proper_keys (native_range_keys m)" "proper_keys (native_keys m)"
  by (auto simp: reader_defs Let_def)

lemma proper_update [simp]: "proper_keys (episodes_from_update_text text)"
  by (auto simp: episodes_from_update_text_def)

lemma proper_episodes_from_text: "proper_keys (episodes_from_text text)"
  unfolding episodes_from_text_def Let_def episodes_from_update_text_def episodes_from_cn_season_text_def
    episodes_from_dotted_episode_text_def episodes_from_token_text_def episodes_from_plain_ranges_def
    episodes_from_native_cn_episode_text_def
  by (auto intro!: proper_keys_or)

lemma finite_numbers_upto [simp]: "finite (numbers_upto limit tokens)"
  by (simp add: numbers_upto_def)

lemma numbers_upto_bounds: "n \<in> numbers_upto limit tokens \<Longrightarrow> 0 < n \<and> n \<le> limit"
  by (auto simp: numbers_upto_def)

lemma season_numbers_finite [simp]: "finite (season_numbers_from_text text)"
  by (simp add: season_numbers_from_text_def Let_def)

lemma season_numbers_bounds: "n \<in> season_numbers_from_text text \<Longrightarrow> 0 < n \<and> n < 100"
  by (auto simp: season_numbers_from_text_def Let_def dest: numbers_upto_bounds)

lemma episode_counts_finite [simp]: "finite (episode_counts_from_pack_text text)"
  by (simp add: episode_counts_from_pack_text_def Let_def)

lemma episode_counts_bounds: "n \<in> episode_counts_from_pack_text text \<Longrightarrow> 0 < n \<and> n \<le> 200"
  by (auto simp: episode_counts_from_pack_text_def Let_def dest: numbers_upto_bounds)

lemma or_keys_weak_cong: "a = a' \<Longrightarrow> or_keys a b = or_keys a' b"
  by simp

lemma or_keys_simps: "or_keys {} b = b" "or_keys (insert k a) b = insert k a"
  by (simp_all add: or_keys_def)

text \<open>
  Evaluation on a given text is by \<open>(simp add: episode_eval cong: episode_congs)\<close>: the congruences
  hold back a branch until the simplifier knows it is taken.
\<close>

lemmas episode_congs = or_keys_weak_cong let_weak_cong

lemmas episode_defs = py_defs re_eval re_pats Let_def
  episodes_from_text_def or_keys_simps keys_of_def
  episodes_from_update_text_def episodes_from_cn_season_text_def episodes_from_dotted_episode_text_def
  episodes_from_token_text_def episodes_from_plain_ranges_def
  episodes_from_native_cn_episode_text_def episode_parse_text_def reader_defs
  grp_int_def grp_int_or_def token_int_def token_end_def number_token_to_int_def
  chinese_number_to_int_def normalize_ten_def
  cn_digit_or_def cn_digit_def CHINESE_DIGITS_def nat_of_digits_def
  season_numbers_from_text_def numbers_upto_def season_token_def episode_counts_from_pack_text_def

lemmas episode_eval = episode_defs chr_eval expand_episode_range_def keys_upto_def season_or_1_def

end
