(* ===== verification/Episode_Packs.thy ===== *)
theory Episode_Packs
  imports Episode_Explicit
begin

text \<open>
  \<open>app/services/subscription/episode/packs.py\<close>: the episodes that a season pack or a whole-series
  pack delivers, read off the text and the expected episodes of the subscription.  Shown: a pack
  never yields a key that TMDB does not list, a whole-series pack yields all of them, and the count
  heuristic yields a whole season or nothing.
\<close>

section \<open>Grouping by season\<close>

text \<open>
  The dictionary of \<open>_episode_keys_by_season\<close>: \<open>seasons_of\<close> are its keys, \<open>season_group\<close> its values.
\<close>

definition season_group :: "ekey set \<Rightarrow> int \<Rightarrow> ekey set" where
  "season_group keys season = Set.filter (\<lambda>key. fst key = season) keys"

definition seasons_of :: "ekey set \<Rightarrow> int set" where
  "seasons_of keys = fst ` keys"

definition sole :: "int set \<Rightarrow> int option" where
  "sole X = (if card X = 1 then Some (the_elem X) else None)"

definition season_keys_for_count :: "ekey set \<Rightarrow> ekey set \<Rightarrow> int \<Rightarrow> ekey set" where
  "season_keys_for_count expected missing count =
     (let with_count = Set.filter (\<lambda>s. int (card (season_group expected s)) = count) (seasons_of expected);
          with_missing = Set.filter (\<lambda>s. season_group missing s \<noteq> {}) with_count
      in case sole with_missing of
           Some s \<Rightarrow> season_group expected s
         | None \<Rightarrow> (case sole with_count of Some s \<Rightarrow> season_group expected s | None \<Rightarrow> {}))"

fun first_nonempty :: "ekey set list \<Rightarrow> ekey set" where
  "first_nonempty [] = {}"
| "first_nonempty (x # xs) = (if x \<noteq> {} then x else first_nonempty xs)"

definition season_keys_for_counts :: "subscription \<Rightarrow> int set \<Rightarrow> ekey set \<Rightarrow> ekey set" where
  "season_keys_for_counts sub counts missing =
     (let expected = all_tmdb_episode_keys sub in
      if counts = {} \<or> expected = {} then {}
      else if int (card expected) \<in> counts then expected
      else let inferred = first_nonempty
                 (map (season_keys_for_count expected missing) (rev (sorted_list_of_set counts)))
        in if inferred \<noteq> {} then inferred
           else case sole (seasons_of expected) of Some s \<Rightarrow> season_group expected s | None \<Rightarrow> {})"

section \<open>Packs of a named season\<close>

definition season_range_match :: "int \<Rightarrow> mtch \<Rightarrow> ekey set" where
  "season_range_match season m =
     expand_episode_range (Some season) (grp_int ''start'' m) (Some (grp_int ''end'' m))"

definition season_range_keys :: "pystr \<Rightarrow> int \<Rightarrow> ekey set" where
  "season_range_keys text season = keys_of (season_range_match season) PLAIN_EPISODE_RANGE_RE text"

definition season_count_keys :: "pystr \<Rightarrow> int \<Rightarrow> ekey set \<Rightarrow> ekey set" where
  "season_count_keys text season expected =
     (let counts = episode_counts_from_pack_text text in
      if counts = {} \<or> season \<notin> seasons_of expected then {}
      else let season_expected = season_group expected season in
        if int (card season_expected) \<in> counts \<or> re_found SEASON_PACK_WORD_RE text then season_expected
        else expand_episode_range (Some season) 1 (Some (Max counts)))"

definition pack_keys_with_season_context :: "subscription \<Rightarrow> pystr \<Rightarrow> int set \<Rightarrow> ekey set \<Rightarrow> ekey set" where
  "pack_keys_with_season_context sub text seasons explicit_episodes =
     (if seasons = {} then {}
      else let expected = all_tmdb_episode_keys sub;
               whole = (if re_found SEASON_PACK_WORD_RE text \<and> explicit_episodes = {}
                        then Set.filter (\<lambda>key. fst key \<in> seasons) expected else {})
        in case sole seasons of
             Some season \<Rightarrow> whole \<union> season_range_keys text season \<union> season_count_keys text season expected
           | None \<Rightarrow> whole)"

definition pack_episode_keys_from_text :: "subscription \<Rightarrow> pystr \<Rightarrow> ekey set" where
  "pack_episode_keys_from_text sub value =
     (let expected = all_tmdb_episode_keys sub in
      if expected = {} then {}
      else let explicit_episodes = episodes_from_text value;
               seasons = season_numbers_from_text value;
               inferred = pack_keys_with_season_context sub value seasons explicit_episodes
        in if seasons \<noteq> {} then inferred \<inter> expected
           else if explicit_episodes \<noteq> {} then {}
           else if re_found FULL_SERIES_WIDE_PACK_RE value \<or> re_found FULL_SERIES_PACK_RE value then expected
           else season_keys_for_counts sub (episode_counts_from_pack_text value) (missing_episode_keys sub)
                \<inter> expected)"

section \<open>The keys of a text for a subscription\<close>

text \<open>A text that names one season other than 1 moves the keys read without a season there.\<close>

definition move_season :: "int \<Rightarrow> ekey \<Rightarrow> ekey" where
  "move_season season key = (if fst key = 1 then (season, snd key) else key)"

definition episode_keys_from_text_for_subscription :: "subscription option \<Rightarrow> pystr \<Rightarrow> ekey set" where
  "episode_keys_from_text_for_subscription sub_opt text =
     (let episodes = episodes_from_text text in
      case sub_opt of
        None \<Rightarrow> episodes
      | Some sub \<Rightarrow>
          (case sole (season_numbers_from_text text) of
             Some season \<Rightarrow> (if season \<noteq> 1 then move_season season ` episodes else episodes)
           | None \<Rightarrow> episodes)
          \<union> pack_episode_keys_from_text sub text)"

section \<open>What a pack yields\<close>

lemma season_group_subset: "season_group keys s \<subseteq> keys"
  by (auto simp: season_group_def)

lemma mem_season_group [simp]: "key \<in> season_group keys s \<longleftrightarrow> key \<in> keys \<and> fst key = s"
  by (auto simp: season_group_def)

lemma season_group_empty [simp]: "season_group keys s = {} \<longleftrightarrow> s \<notin> seasons_of keys"
  by (force simp: season_group_def seasons_of_def)

lemma seasons_of_empty [simp]: "seasons_of keys = {} \<longleftrightarrow> keys = {}"
  by (auto simp: seasons_of_def)

lemma sole_Some: "sole X = Some x \<longleftrightarrow> X = {x}"
proof
  assume "sole X = Some x"
  then have "card X = 1" "the_elem X = x"
    by (auto simp: sole_def split: if_splits)
  then show "X = {x}"
    by (metis card_1_singletonE the_elem_eq)
qed (simp add: sole_def)

lemma sole_singleton [simp]: "sole {x} = Some x"
  by (simp add: sole_Some)

lemma sole_empty [simp]: "sole {} = None"
  by (simp add: sole_def)

lemma by_season_partition: "(\<Union>s \<in> seasons_of keys. season_group keys s) = keys"
  by (auto simp: seasons_of_def)

text \<open>The count heuristic returns one whole season or nothing.\<close>

definition whole_seasons :: "ekey set \<Rightarrow> ekey set \<Rightarrow> bool" where
  "whole_seasons expected keys \<longleftrightarrow> (\<exists>S. keys = Set.filter (\<lambda>key. fst key \<in> S) expected)"

lemma season_keys_for_count_cases:
  obtains "season_keys_for_count expected missing n = {}"
  | s where "s \<in> seasons_of expected" "int (card (season_group expected s)) = n"
      "season_keys_for_count expected missing n = season_group expected s"
proof -
  let ?with = "Set.filter (\<lambda>s. int (card (season_group expected s)) = n) (seasons_of expected)"
  let ?miss = "Set.filter (\<lambda>s. season_group missing s \<noteq> {}) ?with"
  consider s where "sole ?miss = Some s" | s where "sole ?miss = None" "sole ?with = Some s"
    | "sole ?miss = None" "sole ?with = None"
    by fastforce
  then show thesis
  proof cases
    case (1 s)
    then have "s \<in> ?miss" by (simp add: sole_Some)
    with 1 show ?thesis
      by (intro that(2) [of s]) (simp_all add: season_keys_for_count_def Let_def)
  next
    case (2 s)
    then have "s \<in> ?with" by (simp add: sole_Some)
    with 2 show ?thesis
      by (intro that(2) [of s]) (simp_all add: season_keys_for_count_def Let_def)
  qed (simp add: that(1) season_keys_for_count_def Let_def)
qed

lemma whole_seasons_group: "whole_seasons expected (season_group expected s)"
  by (auto simp: whole_seasons_def season_group_def intro: exI [of _ "{s}"])

lemma whole_seasons_trivial [simp]: "whole_seasons expected {}" "whole_seasons expected expected"
  by (auto simp: whole_seasons_def intro: exI [of _ "{}"] exI [of _ UNIV])

lemma whole_seasons_count: "whole_seasons expected (season_keys_for_count expected missing n)"
  by (rule season_keys_for_count_cases [of expected missing n]) (simp_all add: whole_seasons_group)

lemma whole_seasons_first: "list_all (whole_seasons E) xs \<Longrightarrow> whole_seasons E (first_nonempty xs)"
  by (induction xs) auto

lemma season_keys_for_counts_whole: "whole_seasons (all_tmdb_episode_keys sub) (season_keys_for_counts sub counts missing)"
  unfolding season_keys_for_counts_def Let_def
  by (auto simp: whole_seasons_group list_all_iff whole_seasons_count intro!: whole_seasons_first
      split: option.splits)

lemma whole_seasons_subset: "whole_seasons expected keys \<Longrightarrow> keys \<subseteq> expected"
  by (auto simp: whole_seasons_def)

lemma pack_keys_subset: "pack_episode_keys_from_text sub text \<subseteq> all_tmdb_episode_keys sub"
  by (auto simp: pack_episode_keys_from_text_def Let_def)

lemma proper_all_tmdb: "proper_keys (all_tmdb_episode_keys sub)"
  using all_tmdb_episode_keys_positive by (fastforce simp: proper_keys_def)

lemma proper_pack_keys: "proper_keys (pack_episode_keys_from_text sub text)"
  by (rule proper_keys_subset [OF proper_all_tmdb pack_keys_subset])

lemma proper_keys_image: "proper_keys keys \<Longrightarrow> 1 \<le> season \<Longrightarrow> proper_keys (move_season season ` keys)"
  by (auto simp: proper_keys_def move_season_def)

lemma sole_season_positive: "sole (season_numbers_from_text text) = Some s \<Longrightarrow> 1 \<le> s"
  using season_numbers_bounds [of s "text"] by (auto simp: sole_Some)

lemma proper_text_keys: "proper_keys (episode_keys_from_text_for_subscription sub_opt text)"
  unfolding episode_keys_from_text_for_subscription_def Let_def
  by (auto split: option.split intro!: proper_keys_Un proper_pack_keys proper_keys_image
      intro: proper_episodes_from_text dest: sole_season_positive)

lemma pack_full_series:
  assumes "season_numbers_from_text text = {}" "episodes_from_text text = {}"
    "re_found FULL_SERIES_PACK_RE text"
  shows "episode_keys_from_text_for_subscription (Some sub) text = all_tmdb_episode_keys sub"
  using assms
  by (simp add: episode_keys_from_text_for_subscription_def pack_episode_keys_from_text_def Let_def)

end
