(* ===== verification/Match_Rules.thy ===== *)
theory Match_Rules
  imports Rows Match_Text Pan_Links Episode_Packs
begin

text \<open>
  \<open>app/services/subscription/match/\<close>: does a search result belong to a subscription?
  \<open>search_terms.py\<close>, \<open>title_identity.py\<close>, \<open>source_identity.py\<close>, \<open>tmdb_year_guard.py\<close>, \<open>quality.py\<close> and
  \<open>core.py\<close>, with \<open>resource_dedupe_key\<close> of \<open>resource/resources.py\<close> and \<open>result_text\<close> of
  \<open>resource_match.py\<close>.  Shown: the scan for a title stops and finds a title exactly when it occurs
  somewhere with a boundary on both sides, and a matching result passes every guard.
\<close>

section \<open>Terms\<close>

type_synonym match_term = "pystr \<times> pystr" \<comment> \<open>case-folded and compact\<close>

definition match_term :: "pystr \<Rightarrow> match_term option" where
  "match_term term =
     (let raw = strip term; compact = compact_match_text raw in
      if raw = [] \<or> compact = [] then None else Some (casefold raw, compact))"

definition term_in_text :: "match_term \<Rightarrow> pystr \<Rightarrow> pystr \<Rightarrow> bool" where
  "term_in_text t raw_haystack compact_haystack =
     (contains (fst t) raw_haystack \<or> contains (snd t) compact_haystack)"

definition subscription_release_year :: "subscription \<Rightarrow> int option" where
  "subscription_release_year sub =
     (let year = (case release_year sub of None \<Rightarrow> 0 | Some y \<Rightarrow> y) in
      if 1900 \<le> year \<and> year \<le> 2100 then Some year
      else let years = years_from_text (sub_title sub) in if years = {} then None else Some (Min years))"

definition subscription_search_title :: "subscription \<Rightarrow> pystr" where
  "subscription_search_title sub =
     (let title = or_str (title_without_year (sub_title sub)) (strip (sub_title sub)) in
      case subscription_release_year sub of
        None \<Rightarrow> title
      | Some year \<Rightarrow> if contains (int_str year) title then title else title @ [32] @ int_str year)"

definition add_extra :: "pystr set \<Rightarrow> pystr \<Rightarrow> pystr list \<Rightarrow> pystr list" where
  "add_extra title_terms value extras =
     (let s = strip value; clean_value = or_str (title_without_year s) s; compact = compact_match_text clean_value in
      if s = [] \<or> compact = [] \<or> compact \<in> title_terms then extras
      else if clean_value \<in> set extras then extras
      else extras @ [clean_value])"

definition extra_search_keywords :: "subscription \<Rightarrow> pystr list" where
  "extra_search_keywords sub =
     (let title = strip (sub_title sub); clean_title = title_without_year title;
          title_terms = compact_match_text ` {title, clean_title, subscription_search_title sub}
      in fold (add_extra title_terms) (tl (title_prefix_aliases (or_str clean_title title)) @ sub_keywords sub) [])"

fun keyword_terms :: "pystr list \<Rightarrow> pystr set \<Rightarrow> match_term list" where
  "keyword_terms [] seen = []"
| "keyword_terms (keyword # keywords) seen =
     (case match_term (or_str (title_without_year keyword) keyword) of
        None \<Rightarrow> keyword_terms keywords seen
      | Some t \<Rightarrow>
          if length (snd t) < 2 \<or> snd t \<in> seen then keyword_terms keywords seen
          else t # keyword_terms keywords (insert (snd t) seen))"

definition subscription_required_terms :: "subscription \<Rightarrow> match_term option \<times> match_term list" where
  "subscription_required_terms sub =
     (let title_term = match_term (or_str (title_without_year (sub_title sub)) (sub_title sub)) in
      (title_term, keyword_terms (sub_keywords sub) (case title_term of None \<Rightarrow> {} | Some t \<Rightarrow> {snd t})))"

definition join_lines :: "pystr list \<Rightarrow> pystr" where
  "join_lines parts = join [10] (filter (\<lambda>p. p \<noteq> []) parts)"

definition subscription_match_text :: "search_result \<Rightarrow> pystr list \<Rightarrow> pystr" where
  "subscription_match_text r extra_texts = or_str (join_lines [r_context r, r_title r]) (join_lines extra_texts)"

definition result_text :: "search_result \<Rightarrow> pystr list \<Rightarrow> pystr" where
  "result_text r extra_texts = join_lines ([r_context r, r_title r] @ extra_texts)"

text \<open>\<open>"ed2k://" in url.casefold() and getattr(result, "title", None)\<close>\<close>

definition is_ed2k_file :: "search_result \<Rightarrow> bool" where
  "is_ed2k_file r = (contains (u ''ed2k://'') (casefold (r_url r)) \<and> r_title r \<noteq> [])"

text \<open>The file name of an ed2k link, followed by the extra texts if there are any\<close>

definition ed2k_text :: "search_result \<Rightarrow> pystr list \<Rightarrow> pystr" where
  "ed2k_text r extra_texts =
     (if extra_texts = [] then strip (r_title r) else strip (r_title r) @ [10] @ join_lines extra_texts)"

section \<open>Titles in a text\<close>

definition is_cjk :: "nat \<Rightarrow> bool" where
  [chr_eval]: "is_cjk c = (0x3400 \<le> c \<and> c \<le> 0x9FFF)"

definition has_cjk :: "pystr \<Rightarrow> bool" where
  "has_cjk s = list_ex is_cjk s"

definition TITLE_PREFIX_LABELS :: "pystr list" where
  "TITLE_PREFIX_LABELS =
     [[0x540D, 0x79F0], [0x7247, 0x540D], [0x5267, 0x540D], [0x6807, 0x9898], [0x8D44, 0x6E90],
       [0x8D44, 0x6E90, 0x540D], [0x7535, 0x89C6, 0x5267], [0x7535, 0x5F71], [0x52A8, 0x6F2B],
         [0x52A8, 0x753B], [0x7EFC, 0x827A], [0x5267, 0x96C6], [0x77ED, 0x5267], [0x756A,
           0x5267], (u ''name''), (u ''title'')]"

definition TITLE_SUFFIX_BOUNDARY_CHARS :: pystr where
  "TITLE_SUFFIX_BOUNDARY_CHARS = [0x7B2C, 0x66F4, 0x8FDE, 0x5B8C, 0x7EC8, 0x81F3, 0x5B63, 0x96C6,
    0x8BDD, 0x8A71, 0x671F, 0x90E8, 0x7BC7, 0x4E0A, 0x4E0B, 0x4E2D]"

definition is_title_prefix_boundary :: "pystr \<Rightarrow> nat \<Rightarrow> bool \<Rightarrow> bool" where
  "is_title_prefix_boundary compact_text index title_has_cjk =
     (if index = 0 then True
      else let before = compact_text ! (index - 1) in
        if \<not> title_has_cjk then \<not> is_alpha before
        else if \<not> is_cjk before then True
        else list_ex (\<lambda>label. ends_with label (drop (index - 8) (take index compact_text))) TITLE_PREFIX_LABELS)"

definition is_title_suffix_boundary :: "nat option \<Rightarrow> bool \<Rightarrow> bool" where
  "is_title_suffix_boundary char title_has_cjk =
     (case char of
        None \<Rightarrow> True
      | Some c \<Rightarrow>
          if is_digit c then True
          else if title_has_cjk then List.member TITLE_SUFFIX_BOUNDARY_CHARS c \<or> \<not> is_cjk c
          else \<not> is_alpha c)"

definition char_at :: "pystr \<Rightarrow> nat \<Rightarrow> nat option" where
  "char_at s i = (if i < length s then Some (s ! i) else None)"

definition title_at :: "pystr \<Rightarrow> bool \<Rightarrow> nat \<Rightarrow> pystr \<Rightarrow> bool" where
  "title_at candidate title_has_cjk index compact_text =
     (is_title_prefix_boundary compact_text index title_has_cjk
      \<and> is_title_suffix_boundary (char_at compact_text (index + length candidate)) title_has_cjk)"

text \<open>\<open>[alias, *_title_delimiter_aliases(alias)]\<close> of every alias, without duplicates, without the first\<close>

definition title_alias_candidates :: "pystr \<Rightarrow> pystr list" where
  "title_alias_candidates title =
     tl (fold add_new (concat (map (\<lambda>a. a # title_delimiter_aliases a) (title_prefix_aliases title))) [])"

definition compact_candidates :: "match_term \<Rightarrow> pystr list" where
  "compact_candidates t =
     fold add_new (map compact_match_text (title_alias_candidates (fst t))) (if snd t = [] then [] else [snd t])"

text \<open>The \<open>while True\<close> loop over the occurrences of one candidate\<close>

lemma find_from_bounds: "find_from p s i = Some k \<Longrightarrow> i \<le> k \<and> k \<le> length s"
  by (auto simp: find_from_def split: if_splits option.splits dest: find_sub_sound)

function title_scan :: "pystr \<Rightarrow> bool \<Rightarrow> pystr \<Rightarrow> nat \<Rightarrow> bool" where
  "title_scan compact_text title_has_cjk candidate start =
     (case find_from candidate compact_text start of
        None \<Rightarrow> False
      | Some index \<Rightarrow>
          if title_at candidate title_has_cjk index compact_text then True
          else title_scan compact_text title_has_cjk candidate (index + 1))"
  by pat_completeness auto
termination
  by (relation "measure (\<lambda>(s, _, _, start). Suc (length s) - start)") (auto dest: find_from_bounds)

declare title_scan.simps [simp del]

definition title_term_in_text :: "match_term \<Rightarrow> pystr \<Rightarrow> bool" where
  "title_term_in_text t text =
     (if snd t = [] then False
      else list_ex (\<lambda>c. title_scan (compact_match_text text) (has_cjk (snd t)) c 0) (compact_candidates t))"

definition title_fragment_in_text :: "match_term option \<Rightarrow> pystr \<Rightarrow> bool" where
  "title_fragment_in_text t_opt text =
     (case t_opt of
        None \<Rightarrow> False
      | Some t \<Rightarrow>
          list_ex (\<lambda>c. if length c < 3 then title_term_in_text (fst t, c) text
                        else contains c (compact_match_text text))
            (compact_candidates t))"

section \<open>Sources and keys\<close>

definition result_is_site_plugin :: "search_result \<Rightarrow> bool" where
  "result_is_site_plugin r =
     list_ex (\<lambda>p. starts_with p (casefold (r_source r))) (map u [''magnet_web:'', ''site_plugin:''])"

definition result_is_fallback_source :: "search_result \<Rightarrow> bool" where
  "result_is_fallback_source r =
     list_ex (\<lambda>p. starts_with p (casefold (r_source r))) (map u [''rss:'', ''torznab:'', ''magnet_web:'', ''site_plugin:''])"

definition result_priority :: "search_result \<Rightarrow> int" where
  "result_priority r = r_priority r"

definition MAGNET_BTIH_RE :: re where
  [re_pats]: "MAGNET_BTIH_RE =
     seqs [Alt (lit_i ''xt=urn:btih:'') (lit_i ''btih:''), Grp ''1'' (upto 32 40 (Cls ascii_alnum_i))]"

definition canonical_115_url :: "pystr \<Rightarrow> pystr" where
  "canonical_115_url url =
     (let value = normalize_115_share_link url in
      if value = [] \<or> re_match PAN115_URL_RE value = None then url
      else case parse_115_share_link value of
        (share_code, receive_code) \<Rightarrow>
          if share_code = [] then url
          else case receive_code of
            Some rc \<Rightarrow> (u ''https://115.com/s/'') @ share_code @ (u ''?password='') @ rc
          | None \<Rightarrow> (u ''https://115.com/s/'') @ share_code)"

definition resource_dedupe_key :: "pystr \<Rightarrow> (pystr \<times> pystr) option" where
  "resource_dedupe_key url =
     (let value = strip url in
      if value = [] then None
      else case re_search MAGNET_BTIH_RE value of
        Some m \<Rightarrow> Some ((u ''magnet''), lower (grp ''1'' m))
      | None \<Rightarrow>
          let clean = normalize_115_share_link value in
          if clean \<noteq> [] \<and> re_match PAN115_URL_RE clean \<noteq> None then Some ((u ''115''), canonical_115_url clean)
          else Some ((u ''url''), value))"

definition result_is_primary_115_resource :: "search_result \<Rightarrow> bool" where
  "result_is_primary_115_resource r =
     (case resource_dedupe_key (r_url r) of
        None \<Rightarrow> False
      | Some key \<Rightarrow> fst key = (u ''115'') \<and> \<not> result_is_fallback_source r)"

section \<open>TMDB identifiers and years\<close>

definition TMDB_ID_RE :: re where
  [re_pats]: "TMDB_ID_RE =
     seqs [opt (chr 123), spaces, lit_i ''tmdb'', spaces, opt (lit_i ''id''), spaces,
           one_of [45, 95, 58, 0xFF1A, 32], spaces, Grp ''id'' (Rep True 2 None digit), spaces,
             opt (chr 125)]"

definition tmdb_ids_from_text :: "pystr \<Rightarrow> pystr set" where
  "tmdb_ids_from_text text =
     set (map (\<lambda>m. or_str (lstrip_chars [48] (grp ''id'' m)) [48]) (re_finditer TMDB_ID_RE text))"

definition year_guard_texts :: "search_result \<Rightarrow> pystr list \<Rightarrow> pystr list" where
  "year_guard_texts r extra_texts =
     fold add_new
       (concat (map (\<lambda>part. let value = strip part in value # map strip (splitlines value))
         ([r_title r, r_context r] @ extra_texts))) []"

definition bare_tmdb_id :: "subscription \<Rightarrow> pystr" where
  "bare_tmdb_id sub = lstrip_chars [48] (tmdb_id_str sub)"

definition result_has_subscription_tmdb_id :: "subscription \<Rightarrow> pystr \<Rightarrow> pystr list \<Rightarrow> bool" where
  "result_has_subscription_tmdb_id sub text extra_texts =
     (bare_tmdb_id sub \<noteq> [] \<and> bare_tmdb_id sub \<in> tmdb_ids_from_text (join_lines (text # extra_texts)))"

definition wrong_year :: "subscription \<Rightarrow> int \<Rightarrow> pystr \<Rightarrow> bool" where
  "wrong_year sub year candidate =
     (let years = years_from_text candidate in
      years \<noteq> {} \<and> year \<notin> years \<and> title_fragment_in_text (fst (subscription_required_terms sub)) candidate)"

definition release_year_matches :: "subscription \<Rightarrow> search_result \<Rightarrow> pystr \<Rightarrow> pystr list \<Rightarrow> bool" where
  "release_year_matches sub r text extra_texts =
     (case subscription_release_year sub of
        None \<Rightarrow> True
      | Some year \<Rightarrow>
          result_has_subscription_tmdb_id sub text extra_texts
          \<or> \<not> list_ex (wrong_year sub year) (year_guard_texts r extra_texts))"

definition result_title_identity_conflicts :: "subscription \<Rightarrow> search_result \<Rightarrow> bool" where
  "result_title_identity_conflicts sub r =
     (let full_text = result_text r []; title = strip (r_title r) in
      if result_has_subscription_tmdb_id sub full_text [] then False
      else if title = [] \<or> years_from_text title = {} then False
      else
        let title_term = fst (subscription_required_terms sub); year = subscription_release_year sub in
        if \<not> title_fragment_in_text title_term title then
          (let full_years = years_from_text full_text in
           \<not> (result_is_primary_115_resource r \<and> title_fragment_in_text title_term full_text
              \<and> (year = None \<or> full_years = {} \<or> the year \<in> full_years)))
        else (case year of None \<Rightarrow> False | Some y \<Rightarrow> y \<notin> years_from_text title))"

section \<open>Quality rules\<close>

definition text_contains_any :: "pystr \<Rightarrow> pystr list \<Rightarrow> bool" where
  "text_contains_any text words =
     (let raw = casefold text; compact = compact_match_text text in
      list_ex (\<lambda>w. contains (casefold w) raw \<or> contains (compact_match_text w) compact)
        (filter (\<lambda>w. w \<noteq> []) words))"

definition is_pack_result_text :: "pystr \<Rightarrow> bool" where
  "is_pack_result_text text =
     (let episodes = episodes_from_text text in
      if 1 < card episodes \<or> episode_counts_from_pack_text text \<noteq> {} then True
      else if re_found SEASON_PACK_WORD_RE text \<or> re_found FULL_SERIES_PACK_RE text
      then episodes = {} \<or> re_found STRONG_PACK_WORD_RE text
      else False)"

definition quality_rule_skip_reason :: "subscription \<Rightarrow> search_result \<Rightarrow> pystr list \<Rightarrow> pystr" where
  "quality_rule_skip_reason sub r extra_texts =
     (let rules = normalize_quality_rules (quality_rules sub);
          text = (if is_ed2k_file r then ed2k_text r extra_texts else result_text r extra_texts)
      in if exclude_keywords rules \<noteq> [] \<and> text_contains_any text (exclude_keywords rules) then [0x547D, 0x4E2D, 0x6392, 0x9664, 0x8BCD]
         else if release_groups rules \<noteq> [] \<and> \<not> text_contains_any text (release_groups rules) then [0x538B, 0x5236, 0x7EC4, 0x672A, 0x547D, 0x4E2D]
         else if accept_mode rules = (u ''pack'') \<and> \<not> is_pack_result_text text then [0x4EC5, 0x63A5, 0x53D7, 0x5408, 0x96C6]
         else if accept_mode rules = (u ''single'') \<and> is_pack_result_text text then [0x4EC5,
           0x63A5, 0x53D7, 0x5355, 0x96C6]
         else [])"

definition result_matches_quality_rules :: "subscription \<Rightarrow> search_result \<Rightarrow> pystr list \<Rightarrow> bool" where
  "result_matches_quality_rules sub r extra_texts = (quality_rule_skip_reason sub r extra_texts = [])"

section \<open>The match\<close>

definition tmdb_or_title_matches :: "subscription \<Rightarrow> pystr \<Rightarrow> match_term option \<Rightarrow> bool" where
  "tmdb_or_title_matches sub text title_term =
     (let ids = tmdb_ids_from_text text in
      if bare_tmdb_id sub \<noteq> [] \<and> ids \<noteq> {} then bare_tmdb_id sub \<in> ids
      else case title_term of None \<Rightarrow> False | Some t \<Rightarrow> title_term_in_text t text)"

definition match_text_of :: "search_result \<Rightarrow> pystr list \<Rightarrow> pystr" where
  "match_text_of r extra_texts =
     (if is_ed2k_file r then ed2k_text r extra_texts else subscription_match_text r extra_texts)"

definition result_matches_subscription :: "subscription \<Rightarrow> search_result \<Rightarrow> pystr list \<Rightarrow> bool" where
  "result_matches_subscription sub r extra_texts =
     (let text = match_text_of r extra_texts in
      if text = [] then False
      else
        let raw_haystack = casefold text; compact_haystack = compact_match_text text;
            terms = subscription_required_terms sub
        in if result_title_identity_conflicts sub r then False
           else if \<not> release_year_matches sub r text extra_texts then False
           else if \<not> tmdb_or_title_matches sub text (fst terms) then False
           else list_all (\<lambda>t. term_in_text t raw_haystack compact_haystack) (snd terms)
                \<and> result_matches_quality_rules sub r extra_texts)"

section \<open>The scan for a title\<close>

text \<open>The loop finds a title iff it occurs at or after the start with a boundary on both sides.\<close>

lemma title_scan_iff:
  "title_scan s cjk c start \<longleftrightarrow>
     (\<exists>i \<ge> start. i \<le> length s \<and> starts_with c (drop i s) \<and> title_at c cjk i s)"
proof (induction s cjk c start rule: title_scan.induct)
  case (1 s cjk c start)
  show ?case
  proof (cases "find_from c s start")
    case None
    then show ?thesis
      using find_from_None [OF None] by (subst title_scan.simps) auto
  next
    case (Some i)
    note at = find_from_sound [OF Some]
    show ?thesis
    proof (cases "title_at c cjk i s")
      case True
      then show ?thesis
        using Some at by (subst title_scan.simps) auto
    next
      case False
      have "title_scan s cjk c start \<longleftrightarrow> title_scan s cjk c (i + 1)"
        using Some False by (subst title_scan.simps) simp
      also have "\<dots> \<longleftrightarrow> (\<exists>j \<ge> i + 1. j \<le> length s \<and> starts_with c (drop j s) \<and> title_at c cjk j s)"
        using "1.IH" [OF Some False] .
      also have "\<dots> \<longleftrightarrow> (\<exists>j \<ge> start. j \<le> length s \<and> starts_with c (drop j s) \<and> title_at c cjk j s)"
      proof
        assume "\<exists>j \<ge> start. j \<le> length s \<and> starts_with c (drop j s) \<and> title_at c cjk j s"
        then obtain j where j: "start \<le> j" "j \<le> length s" "starts_with c (drop j s)" "title_at c cjk j s"
          by blast
        then have "i + 1 \<le> j"
          using find_from_least [OF Some, of j] False by (cases "j = i"; cases "j < i") auto
        with j show "\<exists>j \<ge> i + 1. j \<le> length s \<and> starts_with c (drop j s) \<and> title_at c cjk j s" by blast
      next
        assume "\<exists>j \<ge> i + 1. j \<le> length s \<and> starts_with c (drop j s) \<and> title_at c cjk j s"
        with at show "\<exists>j \<ge> start. j \<le> length s \<and> starts_with c (drop j s) \<and> title_at c cjk j s"
          by (meson le_trans add_leE)
      qed
      finally show ?thesis .
    qed
  qed
qed

lemma add_new_set: "set (add_new v xs) = set xs \<union> (if v = [] then {} else {v})"
  by (auto simp: add_new_def)

lemma fold_add_new_set: "set (fold add_new vs xs) = set xs \<union> (set vs - {[]})"
  by (induction vs arbitrary: xs) (auto simp: add_new_set)

lemma compact_candidates_set:
  "set (compact_candidates t) = ({snd t} \<union> compact_match_text ` set (title_alias_candidates (fst t))) - {[]}"
  by (auto simp: compact_candidates_def fold_add_new_set)

lemma title_term_in_text_iff:
  "title_term_in_text t text \<longleftrightarrow>
     snd t \<noteq> [] \<and>
     (\<exists>c \<in> set (compact_candidates t). \<exists>i \<le> length (compact_match_text text).
        starts_with c (drop i (compact_match_text text)) \<and>
        title_at c (has_cjk (snd t)) i (compact_match_text text))"
  by (auto simp: title_term_in_text_def list_ex_iff title_scan_iff)

lemma title_found_exact:
  assumes "compact_match_text text = snd t" "snd t \<noteq> []"
  shows "title_term_in_text t text"
  unfolding title_term_in_text_iff assms(1)
  using assms(2)
  by (intro conjI bexI [of _ "snd t"] exI [of _ 0])
    (simp_all add: compact_candidates_set title_at_def is_title_prefix_boundary_def
      is_title_suffix_boundary_def char_at_def starts_with_prefix)

lemma title_found_contained:
  "title_term_in_text t text \<Longrightarrow> \<exists>c \<in> set (compact_candidates t). contains c (compact_match_text text)"
proof -
  assume "title_term_in_text t text"
  then obtain c i where c: "c \<in> set (compact_candidates t)" "starts_with c (drop i (compact_match_text text))"
    by (auto simp: title_term_in_text_iff)
  then have "sublist c (compact_match_text text)"
    by (metis append_take_drop_id prefix_def starts_with_prefix sublist_appendI)
  with c(1) show ?thesis by (auto simp: contains_sublist)
qed

section \<open>What a match guarantees\<close>

lemmas match_unfold = result_matches_subscription_def Let_def

lemma keyword_terms_long: "t \<in> set (keyword_terms ks seen) \<Longrightarrow> 2 \<le> length (snd t) \<and> snd t \<notin> seen"
  by (induction ks seen rule: keyword_terms.induct) (auto split: option.splits if_splits)

lemma keyword_terms_distinct: "distinct (map snd (keyword_terms ks seen))"
proof (induction ks seen rule: keyword_terms.induct)
  case (2 k ks seen)
  then show ?case
    using keyword_terms_long by (fastforce split: option.splits if_splits)
qed simp

lemma match_term_compact: "match_term s = Some t \<Longrightarrow> snd t = compact_match_text s \<and> snd t \<noteq> []"
  by (auto simp: match_term_def Let_def split: if_splits)

lemma match_guards:
  assumes "result_matches_subscription sub r extras"
  shows "\<not> result_title_identity_conflicts sub r"
    "release_year_matches sub r (match_text_of r extras) extras"
    "tmdb_or_title_matches sub (match_text_of r extras) (fst (subscription_required_terms sub))"
    "quality_rule_skip_reason sub r extras = []"
    "match_text_of r extras \<noteq> []"
  using assms by (auto simp: match_unfold result_matches_quality_rules_def split: if_splits)

lemma match_keywords:
  assumes "result_matches_subscription sub r extras" "t \<in> set (snd (subscription_required_terms sub))"
  shows "contains (fst t) (casefold (match_text_of r extras)) \<or>
    contains (snd t) (compact_match_text (match_text_of r extras))"
  using assms by (auto simp: match_unfold term_in_text_def list_all_iff split: if_splits)

lemma release_year_bounds: "subscription_release_year sub = Some y \<Longrightarrow> 1900 \<le> y \<and> y \<le> 2100"
proof -
  let ?ys = "years_from_text (sub_title sub)"
  assume "subscription_release_year sub = Some y"
  then consider "1900 \<le> y \<and> y \<le> 2100" | "?ys \<noteq> {}" "y = Min ?ys"
    unfolding subscription_release_year_def Let_def by (metis option.inject option.distinct(1))
  then show ?thesis
  proof cases
    case 2
    then have "y \<in> ?ys" by (metis Min_in years_finite)
    then show ?thesis by (rule years_bounds)
  qed
qed

lemma primary_not_fallback: "result_is_primary_115_resource r \<Longrightarrow> \<not> result_is_fallback_source r"
  by (auto simp: result_is_primary_115_resource_def split: option.splits)

lemma plugin_is_fallback: "result_is_site_plugin r \<Longrightarrow> result_is_fallback_source r"
  by (auto simp: result_is_site_plugin_def result_is_fallback_source_def)

end
