(* ===== verification/Library_State.thy ===== *)
theory Library_State
  imports Match_Rules
begin

text \<open>
  \<open>app/services/subscription/library/match.py\<close> and \<open>state.py\<close>: which items of the media library belong
  to a subscription, when a subscription is complete, and the state written back after a library scan.
  Library items are dictionaries of the Emby service.  Shown: a series with known episodes is
  complete exactly when no episode is missing, a completed subscription stays completed, the owned
  episodes are proper keys, and a resource that brings nothing missing is refused.
\<close>

section \<open>Items of the library\<close>

definition provider_keys :: "pystr list" where
  "provider_keys = (map u [''Tmdb'', ''TMDB'', ''TheMovieDb''])"

definition emby_provider_tmdb_id :: "pyval \<Rightarrow> pystr" where
  "emby_provider_tmdb_id item =
     (case filter truthy (map (pget (pget item (u ''ProviderIds''))) provider_keys) of
        [] \<Rightarrow> [] | v # _ \<Rightarrow> str_of_val v)"

definition emby_names :: "pyval \<Rightarrow> pystr list" where
  "emby_names item =
     map (strip \<circ> str_of_val) (filter truthy (map (pget item) (map u [''Name'', ''OriginalTitle'', ''SortName'', ''SeriesName''])))"

definition emby_item_matches :: "subscription \<Rightarrow> pyval \<Rightarrow> bool" where
  "emby_item_matches sub item =
     (let sub_tmdb = tmdb_id_str sub; item_tmdb = emby_provider_tmdb_id item; title = compact_match_text (sub_title sub) in
      if sub_tmdb \<noteq> [] \<and> item_tmdb \<noteq> [] \<and> sub_tmdb = item_tmdb then True
      else if title = [] then False
      else list_ex (\<lambda>name. let item_title = compact_match_text name in
                       item_title = title \<or> 4 \<le> length title \<and> contains title item_title)
             (emby_names item))"

definition episode_series :: "pyval \<Rightarrow> pystr" where
  "episode_series episode =
     str_of_val (por (pget episode (u ''SeriesId'')) (por (pget episode (u ''ParentId'')) (PStr [])))"

definition episode_matches_subscription :: "subscription \<Rightarrow> pyval \<Rightarrow> pystr \<Rightarrow> bool" where
  "episode_matches_subscription sub episode series_id =
     (if series_id \<noteq> [] \<and> episode_series episode = series_id then True else emby_item_matches sub episode)"

definition episodes_for_subscription :: "subscription \<Rightarrow> pyval list \<Rightarrow> pystr \<Rightarrow> ekey set" where
  "episodes_for_subscription sub episodes series_id =
     (if series_id = [] then {}
      else let scoped0 = filter (\<lambda>e. episode_series e = series_id) episodes;
               scoped = (if scoped0 = [] then episodes else scoped0)
        in set (List.map_filter episode_key_from_item
                  (filter (\<lambda>e. episode_matches_subscription sub e series_id) scoped)))"

section \<open>Completion\<close>

definition subscription_is_complete :: "subscription \<Rightarrow> bool option \<Rightarrow> int option \<Rightarrow> bool" where
  "subscription_is_complete sub library_opt count_opt =
     (let library = (case library_opt of None \<Rightarrow> in_library sub | Some b \<Rightarrow> b);
          count = (case count_opt of None \<Rightarrow> emby_count sub | Some n \<Rightarrow> n)
      in if media_type sub = Movie then library
         else let expected = all_tmdb_episode_keys sub in
           if expected \<noteq> {} then
             (let owned = owned_episode_keys sub in
              if owned \<noteq> {} then expected \<subseteq> owned
              else if \<forall>key \<in> expected. fst key = 1 then int (card expected) \<le> count
              else False)
           else tmdb_total_count sub \<noteq> 0 \<and> tmdb_total_count sub \<le> count)"

definition COMPLETED :: pystr where
  "COMPLETED = (u ''completed'')"

definition subscription_should_hide :: "subscription \<Rightarrow> bool" where
  "subscription_should_hide sub = (sub_status sub = COMPLETED \<or> subscription_is_complete sub None None)"

text \<open>
  \<open>mark_completed_subscription\<close> on the rows of the table (column \<open>updated_at\<close> left out); the result says
  whether a row was changed
\<close>

definition complete_row :: "pystr \<Rightarrow> subscription \<Rightarrow> subscription" where
  "complete_row now row =
     row\<lparr>sub_status := COMPLETED,
         completed_at := (case completed_at row of None \<Rightarrow> Some now | Some t \<Rightarrow> Some t)\<rparr>"

definition mark_completed_subscription :: "pystr \<Rightarrow> subscription \<Rightarrow> subscription list \<Rightarrow> bool \<times> subscription list" where
  "mark_completed_subscription now sub rows =
     (if sub_status sub = COMPLETED then (False, rows)
      else let hit = (\<lambda>row. sub_id row = sub_id sub \<and> sub_status row \<noteq> COMPLETED) in
        (list_ex hit rows, map (\<lambda>row. if hit row then complete_row now row else row) rows))"

section \<open>Does a resource bring a missing episode?\<close>

definition decision_text :: "search_result \<Rightarrow> pystr list \<Rightarrow> pystr" where
  "decision_text r extra_texts = (if is_ed2k_file r then r_title r else result_text r extra_texts)"

definition result_matches_missing_episodes :: "subscription \<Rightarrow> search_result \<Rightarrow> pystr list \<Rightarrow> bool" where
  "result_matches_missing_episodes sub r extra_texts =
     (if media_type sub \<noteq> Tv then (if emby_snapshot_failed sub then True else \<not> in_library sub)
      else if emby_snapshot_failed sub then True
      else
        let text = decision_text r extra_texts;
            episodes = episode_keys_from_text_for_subscription (Some sub) text;
            owned = owned_episode_keys sub
        in if episodes \<noteq> {} \<and> owned \<noteq> {} \<and> episodes \<subseteq> owned then False
           else if all_tmdb_episode_keys sub = {} then \<not> (episodes \<noteq> {} \<and> owned \<noteq> {})
           else let missing = missing_episode_keys sub in
             if missing = {} then False
             else if episodes \<noteq> {} then episodes \<inter> missing \<noteq> {}
             else if result_is_primary_115_resource r then True
             else result_is_site_plugin r \<and> result_has_subscription_tmdb_id sub text [])"

section \<open>The state after a scan\<close>

record snapshot =
  snap_movies :: "pyval list"
  snap_series :: "pyval list"
  snap_episodes :: "pyval list"

record counts =
  by_series_id :: "(pystr \<times> int) list"
  by_series_name :: "(pystr \<times> int) list"

record library_state =
  ls_in_library :: bool
  ls_emby_count :: int
  ls_total_count :: int
  ls_seasons :: pyval
  ls_owned :: "ekey set"
  ls_status :: pystr
  ls_completed_at :: "pystr option"
  ls_newly_completed :: bool

definition seasons_value :: "(int \<times> int) list \<Rightarrow> pyval" where
  "seasons_value ss = PList (map (\<lambda>(n, c). PDict [((u ''season_number''), PInt n), ((u ''episode_count''), PInt c)]) ss)"

text \<open>\<open>detail\<close> is \<^const>\<open>PNone\<close> when TMDB gave no detail; \<open>number_of_episodes\<close> is a whole number there.\<close>

definition tmdb_metadata :: "subscription \<Rightarrow> pyval \<Rightarrow> int \<times> pyval" where
  "tmdb_metadata sub detail =
     (let total_n = tmdb_total_count sub; seasons = por (tmdb_seasons sub) (PList []) in
      if \<not> truthy detail then (total_n, seasons)
      else
        let fresh_total = (case int_of_val (por (pget detail (u ''number_of_episodes'')) (PInt 0)) of None \<Rightarrow> 0 | Some n \<Rightarrow> n);
            fresh_seasons = tmdb_seasons_from_detail detail
        in (if fresh_total \<noteq> 0 then fresh_total else total_n,
            if fresh_seasons \<noteq> [] then seasons_value fresh_seasons else seasons))"

definition completion_state ::
    "pystr \<Rightarrow> subscription \<Rightarrow> int \<Rightarrow> pyval \<Rightarrow> ekey set \<Rightarrow> int \<Rightarrow> bool \<Rightarrow> pystr \<times> pystr option \<times> bool" where
  "completion_state now sub total_n seasons owned count library =
     (let enriched = sub\<lparr>tmdb_total_count := total_n, tmdb_seasons := seasons, emby_episodes := Some owned,
                         emby_count := count, in_library := library\<rparr>;
          completed = subscription_is_complete enriched (Some library) (Some count);
          status = (if completed \<or> sub_status sub = COMPLETED then COMPLETED else sub_status sub);
          stamp = (if status = COMPLETED
                then (case completed_at sub of None \<Rightarrow> Some now | Some t \<Rightarrow> if t = [] then Some now else Some t)
                else None)
      in (status, stamp, status = COMPLETED))"

definition count_of :: "(pystr \<times> int) list \<Rightarrow> pystr \<Rightarrow> int" where
  "count_of d k = (case map_of d k of None \<Rightarrow> 0 | Some n \<Rightarrow> n)"

definition series_episode_count_by_name :: "subscription \<Rightarrow> (pystr \<times> int) list \<Rightarrow> int" where
  "series_episode_count_by_name sub by_name =
     (let title = compact_match_text (sub_title sub) in
      case filter (\<lambda>(name, _). name = title \<or> 4 \<le> length title \<and> contains title name
                          \<or> 4 \<le> length name \<and> contains name title) by_name of
        [] \<Rightarrow> 0
      | (_, n) # _ \<Rightarrow> n)"

definition series_episode_count :: "subscription \<Rightarrow> pyval option \<Rightarrow> pystr \<Rightarrow> ekey set \<Rightarrow> counts \<Rightarrow> int" where
  "series_episode_count sub match series_id owned cs =
     (let count = (if owned \<noteq> {} then int (card owned) else count_of (by_series_id cs) series_id) in
      case match of
        Some item \<Rightarrow>
          if count = 0
          then (case filter (\<lambda>n. n \<noteq> 0) (map (count_of (by_series_name cs) \<circ> compact_match_text) (emby_names item)) of
                  [] \<Rightarrow> 0 | n # _ \<Rightarrow> n)
          else count
      | None \<Rightarrow> if count = 0 then series_episode_count_by_name sub (by_series_name cs) else count)"

definition library_state :: "pystr \<Rightarrow> subscription \<Rightarrow> snapshot \<Rightarrow> counts \<Rightarrow> pyval \<Rightarrow> library_state" where
  "library_state now sub snap cs detail =
     (let (total_n, seasons) = tmdb_metadata sub detail;
          (owned, count, library) =
            (if media_type sub = Movie then
               (let match = List.find (emby_item_matches sub) (snap_movies snap) in
                ({}, if match = None then 0 else 1, match \<noteq> None))
             else
               (let match = List.find (emby_item_matches sub) (snap_series snap);
                    series_id = (case match of None \<Rightarrow> [] | Some item \<Rightarrow> str_of_val (por (pget item (u ''Id'')) (PStr [])));
                    owned = episodes_for_subscription sub (snap_episodes snap) series_id;
                    count = series_episode_count sub match series_id owned cs
                in (owned, count, match \<noteq> None \<or> count \<noteq> 0)));
          (status, stamp, done) = completion_state now sub total_n seasons owned count library
      in \<lparr>ls_in_library = library, ls_emby_count = count, ls_total_count = total_n, ls_seasons = seasons,
          ls_owned = owned, ls_status = status, ls_completed_at = stamp,
          ls_newly_completed = (done \<and> sub_status sub \<noteq> COMPLETED)\<rparr>)"

section \<open>Facts on ownership and completion\<close>

lemma owned_empty_cases:
  assumes "owned_episode_keys sub = {}" "all_tmdb_episode_keys sub \<noteq> {}"
  shows "emby_count sub \<le> 0 \<or> \<not> (\<forall>key \<in> all_tmdb_episode_keys sub. fst key = 1)"
  using assms by (auto simp: owned_episode_keys_def Let_def split: if_splits)

text \<open>A series with known episodes is complete exactly when none is missing.\<close>

lemma complete_iff_none_missing:
  assumes "media_type sub = Tv" "all_tmdb_episode_keys sub \<noteq> {}"
  shows "subscription_is_complete sub None None \<longleftrightarrow> missing_episode_keys sub = {}"
proof (cases "owned_episode_keys sub = {}")
  case True
  have pos: "0 < card (all_tmdb_episode_keys sub)"
    using assms(2) by (simp add: card_gt_0_iff)
  have "\<not> subscription_is_complete sub None None"
    using owned_empty_cases [OF True assms(2)] pos assms
    by (auto simp: subscription_is_complete_def Let_def True)
  moreover have "missing_episode_keys sub \<noteq> {}"
    using assms by (simp add: missing_episode_keys_def True)
  ultimately show ?thesis by simp
next
  case False
  then show ?thesis
    using assms by (auto simp: subscription_is_complete_def missing_episode_keys_def Let_def)
qed

lemma proper_episodes_for_subscription:
  assumes "\<forall>e \<in> set episodes. \<forall>s. episode_key_from_item e = Some s \<longrightarrow> 1 \<le> fst s"
  shows "proper_keys (episodes_for_subscription sub episodes series_id)"
proof -
  have "1 \<le> snd k" if "episode_key_from_item e = Some k" for e k
    using that by (auto simp: episode_key_from_item_def episode_key_def split: option.splits if_splits)
  then show ?thesis
    using assms by (fastforce simp: proper_keys_def episodes_for_subscription_def Let_def List.map_filter_def split: if_splits)
qed

lemma completion_state_shape:
  assumes "completion_state now sub n seasons owned count library = (status, stamp, fin)"
  shows "fin = (status = COMPLETED)" "sub_status sub = COMPLETED \<Longrightarrow> status = COMPLETED"
    "stamp \<noteq> None \<longleftrightarrow> status = COMPLETED" "status \<in> {COMPLETED, sub_status sub}"
  using assms by (cases "completed_at sub"; auto simp: completion_state_def Let_def split: if_splits)+

lemma library_state_shape:
  obtains n seasons owned count library status stamp fin
  where "completion_state now sub n seasons owned count library = (status, stamp, fin)"
    "ls_status (library_state now sub snap cs detail) = status"
    "ls_completed_at (library_state now sub snap cs detail) = stamp"
    "ls_newly_completed (library_state now sub snap cs detail) = (fin \<and> sub_status sub \<noteq> COMPLETED)"
proof -
  obtain n seasons where m: "tmdb_metadata sub detail = (n, seasons)" by fastforce
  let ?movie = "List.find (emby_item_matches sub) (snap_movies snap)"
  let ?series = "List.find (emby_item_matches sub) (snap_series snap)"
  let ?id = "case ?series of None \<Rightarrow> [] | Some item \<Rightarrow> str_of_val (por (pget item ((u ''Id''))) (PStr []))"
  let ?owned = "episodes_for_subscription sub (snap_episodes snap) ?id"
  let ?count = "series_episode_count sub ?series ?id ?owned cs"
  define triple where "triple =
    (if media_type sub = Movie then ({}, if ?movie = None then 0 else 1, ?movie \<noteq> None)
     else (?owned, ?count, ?series \<noteq> None \<or> ?count \<noteq> 0))"
  obtain owned count library where t: "triple = (owned, count, library)" by (cases triple) auto
  obtain status stamp fin where
    st: "completion_state now sub n seasons owned count library = (status, stamp, fin)"
    by (cases "completion_state now sub n seasons owned count library") auto
  have "library_state now sub snap cs detail =
     \<lparr>ls_in_library = library, ls_emby_count = count, ls_total_count = n, ls_seasons = seasons,
          ls_owned = owned, ls_status = status, ls_completed_at = stamp,
          ls_newly_completed = (fin \<and> sub_status sub \<noteq> COMPLETED)\<rparr>"
    using t unfolding library_state_def Let_def m triple_def by (simp add: st)
  then show thesis
    using that [OF st] by simp
qed

lemma completed_sticky:
  "sub_status sub = COMPLETED \<Longrightarrow> ls_status (library_state now sub snap cs detail) = COMPLETED"
  by (rule library_state_shape [of now sub snap cs detail]) (auto dest: completion_state_shape(2))

lemma library_status_range: "ls_status (library_state now sub snap cs detail) \<in> {COMPLETED, sub_status sub}"
  by (rule library_state_shape [of now sub snap cs detail]) (auto dest: completion_state_shape(4))

lemma newly_completed_iff:
  "ls_newly_completed (library_state now sub snap cs detail) \<longleftrightarrow>
     sub_status sub \<noteq> COMPLETED \<and> ls_status (library_state now sub snap cs detail) = COMPLETED"
  by (rule library_state_shape [of now sub snap cs detail]) (auto dest: completion_state_shape(1))

lemma completed_at_iff:
  "ls_completed_at (library_state now sub snap cs detail) \<noteq> None \<longleftrightarrow>
     ls_status (library_state now sub snap cs detail) = COMPLETED"
  by (rule library_state_shape [of now sub snap cs detail]) (use completion_state_shape(3) in metis)

lemma complete_row_status [simp]: "sub_status (complete_row now row) = COMPLETED"
  by (simp add: complete_row_def)

lemma complete_row_changes: "sub_status row \<noteq> COMPLETED \<Longrightarrow> complete_row now row \<noteq> row"
  by (metis complete_row_status)

lemma mark_completed_rows:
  assumes "mark_completed_subscription now sub rows = (changed, rows')"
  shows "map sub_id rows' = map sub_id rows"
    "changed \<longleftrightarrow> rows' \<noteq> rows"
    "\<forall>row \<in> set rows'. sub_id row = sub_id sub \<longrightarrow> sub_status sub \<noteq> COMPLETED \<longrightarrow> sub_status row = COMPLETED"
proof -
  show "map sub_id rows' = map sub_id rows"
    using assms by (auto simp: mark_completed_subscription_def complete_row_def Let_def split: if_splits)
  show "\<forall>row \<in> set rows'. sub_id row = sub_id sub \<longrightarrow> sub_status sub \<noteq> COMPLETED \<longrightarrow> sub_status row = COMPLETED"
    using assms by (auto simp: mark_completed_subscription_def complete_row_def Let_def split: if_splits)
  have "(map (\<lambda>row. if hit row then complete_row now row else row) rows \<noteq> rows) = list_ex hit rows"
    if "\<And>row. hit row \<Longrightarrow> sub_status row \<noteq> COMPLETED" for hit
    using that by (induction rows) (auto simp: complete_row_changes)
  from this [of "\<lambda>row. sub_id row = sub_id sub \<and> sub_status row \<noteq> COMPLETED"]
  show "changed \<longleftrightarrow> rows' \<noteq> rows"
    using assms by (auto simp: mark_completed_subscription_def Let_def split: if_splits)
qed

lemma brings_nothing_missing:
  assumes "media_type sub = Tv" "\<not> emby_snapshot_failed sub"
    "episode_keys_from_text_for_subscription (Some sub) (decision_text r extras) \<noteq> {}"
    "episode_keys_from_text_for_subscription (Some sub) (decision_text r extras) \<subseteq> owned_episode_keys sub"
  shows "\<not> result_matches_missing_episodes sub r extras"
  using assms by (auto simp: result_matches_missing_episodes_def Let_def)

end
