(* ===== verification/Link_Downloads.thy ===== *)
theory Link_Downloads
  imports Pan_Links
begin

text \<open>
  \<open>app/services/link/downloads.py\<close>: the download links in a text (115 shares, magnets, torrents,
  ed2k), cleaned, validated and deduplicated by key.  \<open>unescape\<close>, an argument, is Python's
  \<open>html.unescape\<close> (a table of two thousand entities).  Shown: every extracted link is valid, no two
  have the same key, and a magnet made of a labelled hash keeps that hash as its key.
\<close>

section \<open>Patterns\<close>

definition url_stop :: "nat \<Rightarrow> bool" where
  [chr_eval]: "url_stop c = (\<not> is_space c \<and> c \<noteq> 34 \<and> c \<noteq> 39 \<and> c \<noteq> 60 \<and> c \<noteq> 62 \<and> c \<noteq> 41)"

definition loose_dot :: re where
  [re_pats]: "loose_dot = seqs [spaces, chr 46, spaces]"

definition loose_slash :: re where
  [re_pats]: "loose_slash = seqs [spaces, chr 47, spaces]"

definition PAN115_LOOSE_URL_RE :: re where
  [re_pats]: "PAN115_LOOSE_URL_RE =
     seqs [opt (seqs [lit_i ''http'', opt (chr_i 115), spaces, chr 58, spaces, chr 47, spaces, chr 47]),
           opt (seqs [lit_i ''www'', loose_dot]),
           Grp ''host'' (seqs [lit ''115'', opt (lit_i ''cdn''), loose_dot, lit_i ''com'']),
           loose_slash, chr_i 115, loose_slash, Grp ''code'' (many1 (Cls share_code_char)),
           opt (Grp ''query'' (seqs [spaces, chr 63, many1 (Cls url_stop)]))]"

text \<open>\<open>DOWNLOAD_TEXT_TRANSLATION\<close>: full-width colon, slash, question mark, ampersand, equals and full stop\<close>

definition DOWNLOAD_TEXT_TRANSLATION :: "(nat \<times> nat) list" where
  "DOWNLOAD_TEXT_TRANSLATION =
     [(0xFF1A, 58), (0xFF0F, 47), (0xFF1F, 63), (0xFF06, 38), (0xFF1D, 61), (0x3002, 46)]"

definition invisible_url_char :: "nat \<Rightarrow> bool" where
  [chr_eval]: "invisible_url_char c =
     ((0x200B \<le> c \<and> c \<le> 0x200F) \<or> (0x202A \<le> c \<and> c \<le> 0x202E) \<or> c = 0x2060 \<or> c = 0xFEFF)"

definition INVISIBLE_URL_CHARS_RE :: re where
  [re_pats]: "INVISIBLE_URL_CHARS_RE = Cls invisible_url_char"

definition MAGNET_URL_RE :: re where
  [re_pats]: "MAGNET_URL_RE = seqs [lit_i ''magnet:?'', many1 (none_of [10, 34, 39, 60, 62, 41])]"

definition TORRENT_URL_RE :: re where
  [re_pats]: "TORRENT_URL_RE =
     seqs [lit_i ''http'', opt (chr_i 115), lit ''://'', lazy_many1 (Cls url_stop), lit_i ''.torrent'',
           opt (seqs [chr 63, many1 (Cls url_stop)])]"

definition hex_digit_i :: "nat \<Rightarrow> bool" where
  [chr_eval]: "hex_digit_i c = (is_ascii_digit c \<or> (97 \<le> re_lower c \<and> re_lower c \<le> 102))"

definition BTIH_HASH_RE :: re where
  [re_pats]: "BTIH_HASH_RE =
     seqs [alts [lit_u [0x79CD, 0x5B50, 0x54C8, 0x5E0C], lit_u [0x4FE1, 0x606F, 0x54C8, 0x5E0C],
       seqs [lit_i ''info'', spaces, lit_i ''hash''],
                 lit_i ''btih'', lit_i ''hash''],
           spaces, one_of [0xFF1A, 58], spaces, Grp ''1'' (upto 32 40 (Cls hex_digit_i))]"

definition ED2K_URL_RE :: re where
  [re_pats]: "ED2K_URL_RE =
     seqs [lit_i ''ed2k://'', opt (chr 124), lit_i ''file'', chr 124,
           many1 (none_of [13, 10, 34, 39, 60, 62, 124]), chr 124, many1 digit, chr 124,
           upto 32 32 (Cls hex_digit_i), chr 124, opt (seqs [chr 47, many (none_of [13, 10, 34, 39, 60, 62])])]"

definition code_gap :: "nat \<Rightarrow> bool" where
  [chr_eval]: "code_gap c = (c = 95 \<or> is_space c \<or> c = 45)"

definition PAN115_RECEIVE_CODE_RE :: re where
  [re_pats]: "PAN115_RECEIVE_CODE_RE =
     seqs [alts [lit_u [0x63D0, 0x53D6, 0x7801], lit_u [0x8BBF, 0x95EE, 0x7801], lit_u [0x63A5,
       0x6536, 0x7801], lit_u [0x5BC6, 0x7801], lit_u [0x53E3, 0x4EE4],
                 seqs [lit_i ''receive'', many (Cls code_gap), lit_i ''code''],
                 lit_i ''password'', lit_i ''pwd'', lit_i ''pass'', lit_i ''code''],
           spaces, opt (one_of [0xFF1A, 58, 61]), spaces, Grp ''1'' (upto 2 8 (Cls ascii_alnum_i))]"

definition AFTER_MAGNET_RE :: re where
  [re_pats]: "AFTER_MAGNET_RE =
     seqs [many1 space,
           Ahead (alts [seqs [lit_i ''http'', opt (chr_i 115), lit ''://''], lit_i ''magnet:?'',
                        seqs [opt (lit_i ''www.''), lit ''115'', opt (lit_i ''cdn''), loose_dot, lit_i ''com'',
                              loose_slash, chr_i 115, spaces, chr 47]])]"

definition MAGNET_WORDS_RE :: re where
  [re_pats]: "MAGNET_WORDS_RE =
     alts [lit_u [0x78C1, 0x529B, 0x4E0B, 0x8F7D], lit_u [0x590D, 0x5236, 0x5168, 0x90E8, 0x5730,
       0x5740], lit_u [0x590D, 0x5236, 0x94FE, 0x63A5], lit_u [0x590D, 0x5236], lit_u [0x8FC5,
         0x96F7, 0x4E0B, 0x8F7D], lit_u [0x4E0B, 0x8F7D, 0x5730, 0x5740]]"

definition SHARE_START_RE :: re where
  [re_pats]: "SHARE_START_RE =
     seqs [Bos, opt (lit_i ''www.''), lit ''115'', opt (lit_i ''cdn''), lit_i ''.com'', lit ''/'', chr_i 115, lit ''/'']"

definition SHARE_URL_START_RE :: re where
  [re_pats]: "SHARE_URL_START_RE =
     seqs [Bos, lit_i ''http'', opt (chr_i 115), lit ''://'', opt (lit_i ''www.''), lit ''115'', opt (lit_i ''cdn''),
           lit_i ''.com'', lit ''/'', chr_i 115, lit ''/'']"

definition TORRENT_FULL_RE :: re where
  [re_pats]: "TORRENT_FULL_RE =
     seqs [Bos, lit_i ''http'', opt (chr_i 115), lit ''://'', many1 (Cls url_stop), lit_i ''.torrent'',
           opt (seqs [chr 63, many1 (Cls url_stop)]), Eos]"

definition SHARE_HOST_RE :: re where
  [re_pats]: "SHARE_HOST_RE =
     seqs [Alt Bos (chr 46), lit ''115'', opt (lit_i ''cdn''), lit_i ''.com'', Eos]"

definition BTIH_KEY_RE :: re where
  [re_pats]: "BTIH_KEY_RE =
     seqs [Alt (lit_i ''xt=urn:btih:'') (lit_i ''btih:''), Grp ''1'' (upto 32 40 (Cls hex_digit_i))]"

definition SECRET_QUERY_RE :: re where
  [re_pats]: "SECRET_QUERY_RE = seqs [Bos, chr 63, receive_key, chr 61]"

section \<open>Cleaning\<close>

definition MAGNET_PREFIX :: pystr where
  "MAGNET_PREFIX = (u ''magnet:?'')"

definition ED2K_PREFIX :: pystr where
  "ED2K_PREFIX = (u ''ed2k://'')"

definition link_trailers :: pystr where
  "link_trailers = [0xFF0C, 0x3002, 0xFF1B, 44, 46, 59]"

text \<open>\<open>while cleaned.endswith(")") and cleaned.count(")") > cleaned.count("(")\<close>\<close>

function drop_parens :: "pystr \<Rightarrow> pystr" where
  "drop_parens s =
     (if s \<noteq> [] \<and> last s = 41 \<and> count_list s 40 < count_list s 41 then drop_parens (butlast s) else s)"
  by pat_completeness auto
termination
  by (relation "measure length") auto

declare drop_parens.simps [simp del]

definition clean_magnet :: "pystr \<Rightarrow> pystr" where
  "clean_magnet value0 =
     (let value1 = (case re_match MAGNET_URL_RE value0 of None \<Rightarrow> value0 | Some m \<Rightarrow> m_text m);
          value2 = hd (re_split_max 1 AFTER_MAGNET_RE value1);
          value3 = hd (re_split_max 1 MAGNET_WORDS_RE value2)
      in strip (re_sub (many1 space) [32] value3))"

definition clean_download_link :: "pystr \<Rightarrow> pystr" where
  "clean_download_link link =
     (let value = strip link;
          cleaned0 = (if starts_with MAGNET_PREFIX (casefold value) then clean_magnet value
                      else re_sub (many1 space) [] value);
          cleaned1 = drop_parens (rstrip_chars link_trailers cleaned0);
          cleaned = (if re_match SHARE_START_RE cleaned1 \<noteq> None then (u ''https://'') @ cleaned1 else cleaned1)
      in if re_match SHARE_URL_START_RE cleaned \<noteq> None
         then (let normalized = normalize_115_share_link cleaned in if normalized = [] then cleaned else normalized)
         else cleaned)"

section \<open>Validity\<close>

definition share_code_of :: "pystr \<Rightarrow> pystr" where
  "share_code_of link =
     (let parts = filter (\<lambda>p. p \<noteq> []) (split_char 47 (url_path (urlparse (strip link)))) in
      if length parts < 2 \<or> casefold (parts ! (length parts - 2)) \<noteq> [115] then []
      else let code = strip (last parts) in if code \<noteq> [] \<and> casefold code \<noteq> [115] then code else [])"

definition share_host :: "pystr \<Rightarrow> pystr" where
  "share_host link =
     (let host = casefold (url_netloc (urlparse (strip link))) in
      if starts_with (u ''www.'') host then drop 4 host else host)"

definition is_pan_host :: "pystr \<Rightarrow> bool" where
  "is_pan_host host = (host \<in> set (map u [''115.com'', ''115cdn.com'']))"

definition is_115_share_link :: "pystr \<Rightarrow> bool" where
  "is_115_share_link link = (is_pan_host (share_host link) \<and> share_code_of link \<noteq> [])"

definition is_valid_download_link :: "pystr \<Rightarrow> bool" where
  "is_valid_download_link link =
     (let value = strip link in
      if value = [] then False
      else if starts_with MAGNET_PREFIX (casefold value) then True
      else if starts_with ED2K_PREFIX (casefold value) then True
      else if re_match TORRENT_FULL_RE value \<noteq> None then True
      else if is_pan_host (share_host value) then share_code_of value \<noteq> []
      else False)"

section \<open>Receive codes and keys\<close>

definition append_115_receive_code :: "pystr \<Rightarrow> pystr \<Rightarrow> nat \<Rightarrow> pystr" where
  "append_115_receive_code link text match_end =
     (let parsed = urlparse link in
      if \<not> re_found SHARE_HOST_RE (url_netloc parsed) then link
      else let items = parse_qsl (url_query parsed) in
        if list_ex (\<lambda>(k, _). List.member (map u [''password'', ''pwd'', ''receive_code'']) (lower k)) items then link
        else case re_search PAN115_RECEIVE_CODE_RE (take 120 (drop match_end text)) of
          None \<Rightarrow> link
        | Some m \<Rightarrow> urlunparse (parsed\<lparr>url_query := urlencode (items @ [((u ''password''), grp ''1'' m)])\<rparr>))"

definition download_link_key :: "pystr \<Rightarrow> pystr \<times> pystr" where
  "download_link_key link =
     (let value = strip link in
      if starts_with ED2K_PREFIX (casefold value) then ((u ''ed2k''), casefold value)
      else case re_search BTIH_KEY_RE value of
        Some m \<Rightarrow> ((u ''magnet''), casefold (grp ''1'' m))
      | None \<Rightarrow> ((u ''url''), value))"

definition loose_115_link :: "mtch \<Rightarrow> pystr" where
  "loose_115_link m =
     (let host = lower (re_sub (many1 space) [] (grp ''host'' m));
          code = re_sub (many1 space) [] (grp ''code'' m);
          query0 = re_sub (many1 space) [] (grp ''query'' m);
          query = (if query0 \<noteq> [] \<and> re_match SECRET_QUERY_RE query0 = None then [] else query0)
      in (u ''https://'') @ host @ (u ''/s/'') @ code @ query)"

section \<open>Extraction\<close>

definition translate :: "pystr \<Rightarrow> pystr" where
  "translate s = map (\<lambda>c. case map_of DOWNLOAD_TEXT_TRANSLATION c of None \<Rightarrow> c | Some d \<Rightarrow> d) s"

definition normalize_download_text :: "(pystr \<Rightarrow> pystr) \<Rightarrow> pystr \<Rightarrow> pystr" where
  "normalize_download_text unescape text = translate (re_sub INVISIBLE_URL_CHARS_RE [] (unescape text))"

text \<open>\<open>if key not in seen: seen.add(key); links.append(link)\<close>\<close>

definition add_link :: "(pystr \<Rightarrow> 'k) \<Rightarrow> pystr \<Rightarrow> pystr list \<Rightarrow> pystr list" where
  "add_link key link links = (if key link \<in> key ` set links then links else links @ [link])"

definition extract_115_links :: "(pystr \<Rightarrow> pystr) \<Rightarrow> pystr \<Rightarrow> pystr list" where
  "extract_115_links unescape text0 =
     (let text = normalize_download_text unescape text0;
          strict = map (\<lambda>m. append_115_receive_code (clean_download_link (m_text m)) text (m_end m))
                     (re_finditer PAN115_URL_RE text);
          loose = map (\<lambda>m. append_115_receive_code (clean_download_link (loose_115_link m)) text (m_end m))
                     (re_finditer PAN115_LOOSE_URL_RE text)
      in if text0 = [] then [] else fold (add_link (\<lambda>l. l)) (strict @ loose) [])"

definition extract_ed2k_links :: "(pystr \<Rightarrow> pystr) \<Rightarrow> pystr \<Rightarrow> pystr list" where
  "extract_ed2k_links unescape text0 =
     (if text0 = [] then []
      else fold (add_link (\<lambda>l. l))
        (map (clean_download_link \<circ> m_text) (re_finditer ED2K_URL_RE (unescape text0))) [])"

definition btih_magnet :: "mtch \<Rightarrow> pystr" where
  "btih_magnet m = (u ''magnet:?xt=urn:btih:'') @ upper_ascii (grp ''1'' m)"

definition extract_download_links :: "(pystr \<Rightarrow> pystr) \<Rightarrow> pystr \<Rightarrow> pystr list" where
  "extract_download_links unescape text0 =
     (if text0 = [] then []
      else let text = unescape text0;
               found = extract_115_links unescape text
                 @ map (clean_download_link \<circ> m_text)
                     (re_finditer MAGNET_URL_RE text @ re_finditer TORRENT_URL_RE text @ re_finditer ED2K_URL_RE text);
               hashes = map btih_magnet (re_finditer BTIH_HASH_RE text)
        in fold (add_link download_link_key) (filter is_valid_download_link found @ hashes) [])"

section \<open>Facts\<close>

lemma add_link_distinct: "distinct (map key links) \<Longrightarrow> distinct (map key (add_link key link links))"
  by (simp add: add_link_def)

lemma fold_add_link_distinct: "distinct (map key links) \<Longrightarrow> distinct (map key (fold (add_link key) xs links))"
  by (induction xs arbitrary: links) (simp_all add: add_link_distinct)

lemma set_add_link: "set (add_link key link links) \<subseteq> insert link (set links)"
  by (auto simp: add_link_def)

lemma set_fold_add_link: "set (fold (add_link key) xs links) \<subseteq> set xs \<union> set links"
proof (induction xs arbitrary: links)
  case (Cons x xs)
  then show ?case using set_add_link [of key x links] by fastforce
qed simp

lemma fold_add_link_keys: "key ` set (fold (add_link key) xs links) = key ` (set xs \<union> set links)"
proof (induction xs arbitrary: links)
  case (Cons x xs)
  have "key ` set (add_link key x links) = insert (key x) (key ` set links)"
    by (auto simp: add_link_def)
  with Cons show ?case by (auto simp: image_Un)
qed simp

lemma strip_keeps_prefix:
  assumes "p \<noteq> []" "\<forall>c \<in> set p. \<not> is_space c"
  shows "\<exists>y. strip (p @ x) = p @ y"
proof -
  have "lstrip_by is_space (p @ x) = p @ x"
    using assms by (cases p) (simp_all add: lstrip_by_def)
  moreover have "dropWhile is_space (rev (p @ x)) = dropWhile is_space (rev x) @ rev p"
    using assms by (cases "rev p") (auto simp: dropWhile_append dropWhile_eq_self_iff hd_rev)
  ultimately show ?thesis
    by (auto simp: strip_def strip_by_def rstrip_by_def)
qed

lemma prefix_valid:
  assumes "MAGNET_PREFIX = casefold p" "p \<noteq> []" "\<forall>c \<in> set p. \<not> is_space c"
  shows "is_valid_download_link (p @ x)"
proof -
  obtain y where "strip (p @ x) = p @ y" using strip_keeps_prefix [OF assms(2,3)] by blast
  then show ?thesis
    using assms(2) by (simp add: is_valid_download_link_def Let_def assms(1))
qed

lemma btih_magnet_valid: "is_valid_download_link (btih_magnet m)"
proof -
  have "btih_magnet m = (u ''magnet:?'') @ ((u ''xt=urn:btih:'') @ upper_ascii (grp ''1'' m))"
    by (simp add: btih_magnet_def u_def)
  moreover have "MAGNET_PREFIX = casefold ((u ''magnet:?''))" "\<forall>c \<in> set ((u ''magnet:?'')). \<not> is_space c"
    by (simp_all add: MAGNET_PREFIX_def u_def casefold_def chr_eval)
  ultimately show ?thesis
    using prefix_valid [of "(u ''magnet:?'')"] by (simp add: u_def)
qed

lemma extracted_shape:
  assumes "text \<noteq> []"
  obtains found ms where "extract_download_links unescape text =
    fold (add_link download_link_key) (filter is_valid_download_link found @ map btih_magnet ms) []"
  unfolding extract_download_links_def Let_def if_not_P [OF assms] by blast

lemma extracted_valid: "link \<in> set (extract_download_links unescape text) \<Longrightarrow> is_valid_download_link link"
proof -
  assume l: "link \<in> set (extract_download_links unescape text)"
  then have "text \<noteq> []" by (auto simp: extract_download_links_def)
  then obtain found ms where "extract_download_links unescape text =
      fold (add_link download_link_key) (filter is_valid_download_link found @ map btih_magnet ms) []"
    by (rule extracted_shape)
  then have "link \<in> set (filter is_valid_download_link found @ map btih_magnet ms)"
    using l set_fold_add_link [of download_link_key "filter is_valid_download_link found @ map btih_magnet ms" "[]"]
    by auto
  then show ?thesis using btih_magnet_valid by auto
qed

lemma extracted_keys_distinct: "distinct (map download_link_key (extract_download_links unescape text))"
  by (simp add: extract_download_links_def Let_def fold_add_link_distinct)

lemma extract_115_distinct: "distinct (extract_115_links unescape text)"
  using fold_add_link_distinct [of "\<lambda>l. l" "[]"] by (simp add: extract_115_links_def Let_def del: fold_append)

text \<open>Every valid candidate is represented: its key is the key of an extracted link.\<close>

lemma magnet_extracted:
  assumes "text \<noteq> []" "m \<in> set (re_finditer MAGNET_URL_RE (unescape text))"
    "is_valid_download_link (clean_download_link (m_text m))"
  shows "\<exists>link \<in> set (extract_download_links unescape text).
     download_link_key link = download_link_key (clean_download_link (m_text m))"
proof -
  let ?key = "download_link_key"
  have "?key (clean_download_link (m_text m)) \<in> ?key ` set (extract_download_links unescape text)"
    using assms unfolding extract_download_links_def Let_def by (simp add: fold_add_link_keys image_Un del: fold_append)
  then show ?thesis by force
qed

end
