(* ===== verification/Candidate_Decision.thy ===== *)
theory Candidate_Decision
  imports Library_State Link_Downloads "HOL-Library.List_Lexorder" "HOL-Library.Product_Lexorder"
begin

text \<open>
  \<open>app/services/subscription/match/candidate_decision.py\<close> and \<open>skip_reasons.py\<close>: the decision on a
  candidate resource with its reason, score and the episodes it covers, and the key by which candidates
  are ranked.  Shown: acceptance is validity, match and need together; a rejected candidate scores 0,
  an accepted one between 25 and 1210; the reason given for a link that is not ed2k is a reason why it
  does not match; for ed2k links it may not be one.
\<close>

section \<open>Reasons for skipping\<close>

definition MATCHED :: pystr where
  "MATCHED = [0x5DF2, 0x5339, 0x914D]"

definition tmdb_title_skip_reason :: "subscription \<Rightarrow> pystr \<Rightarrow> match_term option \<Rightarrow> pystr" where
  "tmdb_title_skip_reason sub text title_term =
     (let ids = tmdb_ids_from_text text in
      if bare_tmdb_id sub \<noteq> [] \<and> ids \<noteq> {} then (if bare_tmdb_id sub \<notin> ids then [84, 77, 68, 66, 32, 73, 68, 32, 0x4E0D, 0x5339, 0x914D] else [])
      else case title_term of
        None \<Rightarrow> [0x6807, 0x9898, 0x672A, 0x547D, 0x4E2D]
      | Some t \<Rightarrow> if title_term_in_text t text then [] else [0x6807, 0x9898, 0x672A,
        0x547D, 0x4E2D])"

definition episode_skip_reason :: "subscription \<Rightarrow> search_result \<Rightarrow> pystr list \<Rightarrow> pystr" where
  "episode_skip_reason sub r extra_texts =
     (if media_type sub \<noteq> Tv then (if in_library sub then [0x7535, 0x5F71, 0x5DF2, 0x5165,
       0x5E93] else MATCHED)
      else if emby_snapshot_failed sub then []
      else if all_tmdb_episode_keys sub = {} then MATCHED
      else
        let missing = missing_episode_keys sub in
        if missing = {} then [0x8BA2, 0x9605, 0x5DF2, 0x5B8C, 0x6574, 0x5165, 0x5E93]
        else
          let episodes = episode_keys_from_text_for_subscription (Some sub) (decision_text r extra_texts) in
          if episodes = {} then [0x672A, 0x8BC6, 0x522B, 0x5230, 0x96C6, 0x6570]
          else if episodes \<inter> missing = {} then [0x96C6, 0x6570, 0x4E0D, 0x5728, 0x7F3A,
            0x96C6, 0x8303, 0x56F4]
          else MATCHED)"

definition result_skip_reason :: "subscription \<Rightarrow> search_result \<Rightarrow> pystr list \<Rightarrow> pystr" where
  "result_skip_reason sub r extra_texts =
     (let text = subscription_match_text r extra_texts in
      if text = [] then [0x6587, 0x672C, 0x4E3A, 0x7A7A]
      else
        let raw_haystack = casefold text; compact_haystack = compact_match_text text;
            terms = subscription_required_terms sub;
            title_reason = tmdb_title_skip_reason sub text (fst terms);
            quality_reason = quality_rule_skip_reason sub r extra_texts
        in if result_title_identity_conflicts sub r then [0x8D44, 0x6E90, 0x6807, 0x9898, 0x4E0D,
          0x5339, 0x914D]
           else if \<not> release_year_matches sub r text extra_texts then [0x5E74, 0x4EFD,
             0x4E0D, 0x5339, 0x914D]
           else if title_reason \<noteq> [] then title_reason
           else case List.find (\<lambda>t. \<not> term_in_text t raw_haystack compact_haystack) (snd terms) of
             Some t \<Rightarrow> [0x5173, 0x952E, 0x8BCD, 0x672A, 0x547D, 0x4E2D, 58] @ fst t
           | None \<Rightarrow>
               if quality_reason \<noteq> [] then quality_reason else episode_skip_reason sub r extra_texts)"

text \<open>\<open>Counter\<close> keeps the order of first occurrence; \<open>most_common\<close> sorts stably by count.\<close>

definition count_reason :: "pystr \<Rightarrow> (pystr \<times> nat) list \<Rightarrow> (pystr \<times> nat) list" where
  "count_reason reason counter =
     (case map_of counter reason of
        None \<Rightarrow> counter @ [(reason, 1)]
      | Some n \<Rightarrow> map (\<lambda>(k, m). if k = reason then (k, m + 1) else (k, m)) counter)"

definition skip_reason_summary :: "subscription \<Rightarrow> search_result list \<Rightarrow> pystr list \<Rightarrow> pystr" where
  "skip_reason_summary sub results extra_texts =
     (let counter = fold count_reason (map (\<lambda>r. result_skip_reason sub r extra_texts) results) [];
          top = take 4 (sort_key (\<lambda>(_, n). - int n) counter)
      in join [0xFF0C] (map (\<lambda>(reason, n). reason @ [32] @ dec_str n) top))"

section \<open>Scores\<close>

definition name_text :: "search_result \<Rightarrow> pystr" where
  "name_text r = (if is_ed2k_file r then strip (r_title r) else result_text r [])"

definition full_pack_title_bonus :: "search_result \<Rightarrow> int" where
  "full_pack_title_bonus r =
     (let text = name_text r; lowered = casefold text in
      if text = [] then 0
      else if re_found FULL_SERIES_PACK_RE text \<or> re_found STRONG_PACK_WORD_RE text then 2
      else if contains [0x5168] text \<and> (contains [0x96C6] text \<or> contains [0x5B63] text \<or> contains [0x90E8] text) then 1
      else if contains (u ''complete'') lowered \<or> contains (u ''pack'') lowered then 1
      else 0)"

definition quality_preference_score :: "subscription option \<Rightarrow> search_result \<Rightarrow> int" where
  "quality_preference_score sub_opt r =
     (case sub_opt of
        None \<Rightarrow> 0
      | Some sub \<Rightarrow>
          let preferred = preferred_quality (normalize_quality_rules (quality_rules sub)) in
          if preferred \<noteq> [] \<and> text_contains_any (name_text r) preferred then 1
          else if quality_rule_skip_reason sub r [] = [] then 0
          else -1)"

definition candidate_score :: "subscription \<Rightarrow> search_result \<Rightarrow> ekey set \<Rightarrow> ekey set \<Rightarrow> bool \<Rightarrow> int" where
  "candidate_score sub r episodes coverage accepted =
     (if \<not> accepted then 0
      else
        let tv = (if media_type sub = Tv then
                    (if coverage \<noteq> {} then
                       int (min (card coverage) 50) * 20 + (if coverage = episodes then 30 else if episodes \<noteq> {} then 10 else 0)
                     else if episodes = {} then 5 else 0)
                  else 0)
        in 100 + tv + quality_preference_score (Some sub) r * 25 + min (max (result_priority r) (-50)) 50
           + (if result_is_site_plugin r then 5 else 0))"

section \<open>The decision\<close>

record decision =
  d_accepted :: bool
  d_reason :: pystr
  d_score :: int
  d_episodes :: "ekey set"
  d_missing :: "ekey set"
  d_coverage :: "ekey set"

definition or_reason :: "pystr \<Rightarrow> pystr \<Rightarrow> pystr" where
  "or_reason a b = (if a = [] then b else a)"

definition candidate_reject_reason ::
    "subscription \<Rightarrow> search_result \<Rightarrow> ekey set \<Rightarrow> ekey set \<Rightarrow> pystr list \<Rightarrow> pystr" where
  "candidate_reject_reason sub r episodes coverage extra_texts =
     (if \<not> is_valid_download_link (r_url r) then (u ''invalid_download_link'')
      else if \<not> result_matches_subscription sub r extra_texts
      then or_reason (result_skip_reason sub r extra_texts) ((u ''subscription_mismatch''))
      else if \<not> result_matches_missing_episodes sub r extra_texts then
        (if media_type sub = Tv \<and> episodes \<noteq> {}
         then (if coverage = {} then (u ''episodes_already_in_library'') else (u ''episodes_not_needed''))
         else if media_type sub \<noteq> Tv \<and> in_library sub then (u ''movie_already_in_library'')
         else or_reason (result_skip_reason sub r extra_texts) ((u ''missing_episode_mismatch'')))
      else [])"

definition decide_resource_candidate :: "subscription \<Rightarrow> search_result \<Rightarrow> pystr list \<Rightarrow> decision" where
  "decide_resource_candidate sub r extra_texts =
     (let episodes = episode_keys_from_text_for_subscription (Some sub) (decision_text r extra_texts);
          missing = missing_episode_keys sub;
          coverage = (if missing \<noteq> {} then episodes \<inter> missing else {});
          reason = candidate_reject_reason sub r episodes coverage extra_texts;
          accepted = (reason = [])
      in \<lparr>d_accepted = accepted, d_reason = or_reason reason ((u ''matched'')),
          d_score = candidate_score sub r episodes coverage accepted,
          d_episodes = episodes, d_missing = missing, d_coverage = coverage\<rparr>)"

type_synonym sort_key = "int \<times> int \<times> int \<times> int \<times> int \<times> int \<times> int \<times> nat \<times> pystr \<times> pystr"

definition fallback_candidate_sort_key :: "subscription option \<Rightarrow> search_result \<Rightarrow> sort_key" where
  "fallback_candidate_sort_key sub_opt r =
     (let d = map_option (\<lambda>sub. decide_resource_candidate sub r []) sub_opt;
          covered = (case d of None \<Rightarrow> 0 | Some x \<Rightarrow> int (card (d_coverage x)));
          exact = (case d of None \<Rightarrow> False | Some x \<Rightarrow> d_episodes x \<noteq> {} \<and> d_episodes x = d_coverage x);
          full = (case d of None \<Rightarrow> False
                  | Some x \<Rightarrow> d_missing x \<noteq> {} \<and> d_episodes x \<noteq> {} \<and> d_episodes x = d_missing x)
      in (if full then 0 else 1, - covered, if exact then 0 else 1, - full_pack_title_bonus r,
          - quality_preference_score sub_opt r, - result_priority r, if result_is_site_plugin r then 0 else 1,
          length (r_title r), case r_message_id r of None \<Rightarrow> [] | Some s \<Rightarrow> s, r_url r))"

section \<open>Facts on decisions\<close>

lemma or_reason_ne: "b \<noteq> [] \<Longrightarrow> or_reason a b \<noteq> []"
  by (simp add: or_reason_def)

lemma u_ne [simp]: "u s = [] \<longleftrightarrow> s = []"
  by (simp add: u_def)

lemma reject_reason_iff:
  "candidate_reject_reason sub r episodes coverage extras = [] \<longleftrightarrow>
     is_valid_download_link (r_url r) \<and> result_matches_subscription sub r extras
     \<and> result_matches_missing_episodes sub r extras"
  by (auto simp: candidate_reject_reason_def or_reason_ne)

lemma accepted_iff:
  "d_accepted (decide_resource_candidate sub r extras) \<longleftrightarrow>
     is_valid_download_link (r_url r) \<and> result_matches_subscription sub r extras
     \<and> result_matches_missing_episodes sub r extras"
  by (simp add: decide_resource_candidate_def Let_def reject_reason_iff)

lemma quality_score_range: "quality_preference_score s r \<in> {-1, 0, 1}"
  by (auto simp: quality_preference_score_def Let_def split: option.split)

lemma score_rejected: "\<not> d_accepted (decide_resource_candidate sub r extras) \<Longrightarrow>
    d_score (decide_resource_candidate sub r extras) = 0"
  by (simp add: decide_resource_candidate_def Let_def candidate_score_def)

lemma candidate_score_bounds:
  "25 \<le> candidate_score sub r episodes coverage True \<and> candidate_score sub r episodes coverage True \<le> 1210"
proof -
  have q: "quality_preference_score (Some sub) r * 25 \<in> {-25, 0, 25}"
    using quality_score_range [of "Some sub" r] by auto
  have p: "-50 \<le> min (max (result_priority r) (-50)) 50" "min (max (result_priority r) (-50)) 50 \<le> 50" by auto
  have c: "0 \<le> int (min (card coverage) 50) * 20" "int (min (card coverage) 50) * 20 \<le> 1000" by auto
  show ?thesis
    using q p c unfolding candidate_score_def Let_def by (auto split: if_splits)
qed

lemma score_accepted: "d_accepted (decide_resource_candidate sub r extras) \<Longrightarrow>
    25 \<le> d_score (decide_resource_candidate sub r extras) \<and> d_score (decide_resource_candidate sub r extras) \<le> 1210"
  using candidate_score_bounds by (simp add: decide_resource_candidate_def Let_def)

lemma accepted_reason: "d_accepted (decide_resource_candidate sub r extras) \<Longrightarrow>
    d_reason (decide_resource_candidate sub r extras) = (u ''matched'')"
  by (simp add: decide_resource_candidate_def Let_def or_reason_def)

lemma coverage_eq: "d_coverage (decide_resource_candidate sub r extras) =
    d_episodes (decide_resource_candidate sub r extras) \<inter> d_missing (decide_resource_candidate sub r extras)"
  by (simp add: decide_resource_candidate_def Let_def)

section \<open>Reasons that are reasons\<close>

text \<open>The checks of \<open>result_skip_reason\<close> before the episodes, as one predicate\<close>

lemma title_reason_iff: "tmdb_title_skip_reason sub text t = [] \<longleftrightarrow> tmdb_or_title_matches sub text t"
  by (auto simp: tmdb_title_skip_reason_def tmdb_or_title_matches_def Let_def split: option.split)

lemma find_none_all: "List.find P xs = None \<longleftrightarrow> list_all (\<lambda>x. \<not> P x) xs"
  by (auto simp: find_None_iff list_all_iff)

lemma skip_reason_of_match:
  assumes "result_matches_subscription sub r extras" "\<not> is_ed2k_file r"
  shows "result_skip_reason sub r extras = episode_skip_reason sub r extras"
proof -
  let ?text = "subscription_match_text r extras"
  have t: "match_text_of r extras = ?text" using assms(2) by (simp add: match_text_of_def)
  note g = match_guards [OF assms(1), unfolded t]
  have "List.find (\<lambda>t. \<not> term_in_text t (casefold ?text) (compact_match_text ?text)) (snd (subscription_required_terms sub)) = None"
    using assms(1) by (auto simp: find_none_all match_unfold t split: if_splits)
  then show ?thesis
    using g by (simp add: result_skip_reason_def Let_def title_reason_iff)
qed

lemma skip_reason_of_mismatch:
  assumes "\<not> result_matches_subscription sub r extras" "\<not> is_ed2k_file r"
  shows "result_skip_reason sub r extras \<noteq> []"
    "result_skip_reason sub r extras = MATCHED \<Longrightarrow>
       tmdb_title_skip_reason sub (subscription_match_text r extras) (fst (subscription_required_terms sub)) = MATCHED
       \<or> quality_rule_skip_reason sub r extras = MATCHED"
proof -
  let ?text = "subscription_match_text r extras"
  have t: "match_text_of r extras = ?text" using assms(2) by (simp add: match_text_of_def)
  show "result_skip_reason sub r extras \<noteq> []"
    using assms(1) unfolding result_skip_reason_def Let_def
    by (auto simp: match_unfold t title_reason_iff result_matches_quality_rules_def find_none_all
        split: option.splits)
  show "result_skip_reason sub r extras = MATCHED \<Longrightarrow>
       tmdb_title_skip_reason sub (subscription_match_text r extras) (fst (subscription_required_terms sub)) = MATCHED
       \<or> quality_rule_skip_reason sub r extras = MATCHED"
    using assms(1) unfolding result_skip_reason_def Let_def
    by (auto simp: match_unfold t title_reason_iff result_matches_quality_rules_def find_none_all MATCHED_def
        split: option.splits if_splits)
qed

lemma reasons_not_matched:
  "tmdb_title_skip_reason sub text t \<noteq> MATCHED" "quality_rule_skip_reason sub r extras \<noteq> MATCHED"
  by (auto simp: tmdb_title_skip_reason_def quality_rule_skip_reason_def MATCHED_def Let_def u_def split: option.splits)

lemma mismatch_not_matched:
  "\<not> result_matches_subscription sub r extras \<Longrightarrow> \<not> is_ed2k_file r \<Longrightarrow> result_skip_reason sub r extras \<noteq> MATCHED"
  using skip_reason_of_mismatch(2) reasons_not_matched by blast

end
