(* ===== verification/Resource_Store.thy ===== *)
theory Resource_Store
  imports Candidate_Decision "HOL-Library.Multiset"
begin

text \<open>
  \<open>app/services/subscription/resource/\<close>: which found resources are saved for a subscription.
  \<open>duplicate.py\<close> (is it there already?), \<open>fallback.py\<close> (sources of second choice), \<open>guard.py\<close>,
  \<open>matching.py\<close> and \<open>ops.py\<close> (insertion).  The table \<open>resources\<close> is a list of rows in the order of
  their ids.  Shown: the indexed duplicate check agrees with the row-by-row check, a saved resource
  is refused the second time, an insertion adds one row with a fresh id, and the best candidate
  is least in the ranking.
\<close>

section \<open>Rows\<close>

record resource_row =
  rr_id :: int
  rr_subscription :: int
  rr_source :: pystr
  rr_title :: pystr
  rr_url :: pystr
  rr_message_id :: "pystr option"
  rr_status :: pystr
  rr_retry_count :: int
  rr_last_error :: "pystr option"
  rr_created_at :: pystr
  rr_updated_at :: "pystr option"

definition INEFFECTIVE :: "pystr list" where
  "INEFFECTIVE =
     (map u [''delivery_failed_final'', ''delivery_failed_retryable'', ''failed'', ''link_invalid'', ''pending_recheck'', ''skipped''])"

definition resource_status_is_effective :: "pystr \<Rightarrow> bool" where
  "resource_status_is_effective status =
     (\<not> List.member INEFFECTIVE (casefold (if status = [] then (u ''pending'') else status)))"

definition existing_resource_rows :: "int \<Rightarrow> resource_row list \<Rightarrow> resource_row list" where
  "existing_resource_rows sid table = rev (filter (\<lambda>row. rr_subscription row = sid) table)"

text \<open>Title key and episodes of a row and of a result\<close>

definition title_key :: "pystr \<Rightarrow> pystr" where
  "title_key title = compact_match_text (or_str (title_without_year title) title)"

definition row_episodes :: "subscription option \<Rightarrow> resource_row \<Rightarrow> ekey set" where
  "row_episodes sub row = episode_keys_from_text_for_subscription sub (rr_title row)"

section \<open>Duplicates\<close>

text \<open>\<open>SequenceMatcher(None, a, b).quick_ratio()\<close>: common characters counted with multiplicity\<close>

fun common_chars :: "pystr \<Rightarrow> pystr \<Rightarrow> nat" where
  "common_chars [] b = 0"
| "common_chars (c # a) b = (if List.member b c then Suc (common_chars a (remove1 c b)) else common_chars a b)"

definition quick_ratio :: "pystr \<Rightarrow> pystr \<Rightarrow> rat" where
  "quick_ratio a b =
     (if length a + length b = 0 then 1 else 2 * of_nat (common_chars a b) / of_nat (length a + length b))"

definition similar_title_against_key :: "pystr \<Rightarrow> pystr \<Rightarrow> ekey set \<Rightarrow> ekey set \<Rightarrow> pystr option" where
  "similar_title_against_key result_key existing_key result_episodes existing_episodes =
     (if result_key = [] \<or> existing_key = [] then None
      else if quick_ratio result_key existing_key < 94 / 100 then None
      else if (result_episodes \<noteq> {} \<or> existing_episodes \<noteq> {}) \<and> result_episodes \<noteq> existing_episodes then None
      else Some ((u ''similar_title'')))"

record row_index =
  by_key :: "(pystr \<times> pystr) list"
  episode_sets :: "ekey set list"
  title_entries :: "(pystr \<times> ekey set) list"

definition effective_rows :: "resource_row list \<Rightarrow> resource_row list" where
  "effective_rows rows = filter (\<lambda>row. resource_status_is_effective (rr_status row)) rows"

definition build_resource_row_index :: "resource_row list \<Rightarrow> subscription option \<Rightarrow> row_index" where
  "build_resource_row_index rows sub =
     (let eff = effective_rows rows in
      \<lparr>by_key = remdups (List.map_filter (resource_dedupe_key \<circ> rr_url) eff),
       episode_sets = filter (\<lambda>e. e \<noteq> {}) (map (row_episodes sub) eff),
       title_entries = filter (\<lambda>(k, _). k \<noteq> []) (map (\<lambda>row. (title_key (rr_title row), row_episodes sub row)) eff)\<rparr>)"

definition same_reason :: "pystr \<times> pystr \<Rightarrow> pystr" where
  "same_reason key = (u ''same_'') @ fst key"

fun first_some :: "'a option list \<Rightarrow> 'a option" where
  "first_some [] = None"
| "first_some (None # xs) = first_some xs"
| "first_some (Some x # xs) = Some x"

definition result_episodes :: "subscription option \<Rightarrow> search_result \<Rightarrow> ekey set" where
  "result_episodes sub r = episode_keys_from_text_for_subscription sub (decision_text r [])"

definition resource_already_exists ::
    "search_result \<Rightarrow> subscription option \<Rightarrow> resource_row list \<Rightarrow> pystr option" where
  "resource_already_exists r sub rows =
     (let index = build_resource_row_index rows sub; episodes = result_episodes sub r; key = title_key (r_title r);
          by_title = (if key = [] then None
            else first_some (map (\<lambda>(k, e). similar_title_against_key key k episodes e) (title_entries index)));
          by_content = (if episodes \<noteq> {} \<and> list_ex (\<lambda>e. episodes \<subseteq> e) (episode_sets index)
                        then Some ((u ''covered_episodes'')) else by_title)
      in case resource_dedupe_key (r_url r) of
           Some k \<Rightarrow> if k \<in> set (by_key index) then Some (same_reason k) else by_content
         | None \<Rightarrow> by_content)"

definition duplicate_reason_for_row ::
    "subscription option \<Rightarrow> ekey set \<Rightarrow> pystr \<Rightarrow> (pystr \<times> pystr) option \<Rightarrow> resource_row \<Rightarrow> pystr option" where
  "duplicate_reason_for_row sub episodes key candidate row =
     (let effective = resource_status_is_effective (rr_status row); existing = row_episodes sub row in
      if candidate \<noteq> None \<and> resource_dedupe_key (rr_url row) = candidate
      then (if effective then Some (same_reason (the candidate)) else None)
      else if \<not> effective then None
      else if episodes \<noteq> {} \<and> existing \<noteq> {} \<and> episodes \<subseteq> existing then Some ((u ''covered_episodes''))
      else similar_title_against_key key (title_key (rr_title row)) episodes existing)"

section \<open>Guard\<close>

definition SKIP_REASONS :: "pystr list" where
  "SKIP_REASONS = (map u [''episodes_already_in_library'', ''episodes_not_needed'', ''movie_already_in_library''])"

definition has_episode_scope :: "subscription \<Rightarrow> bool" where
  "has_episode_scope sub =
     (tmdb_total_count sub \<noteq> 0 \<or> truthy (tmdb_seasons sub) \<or> emby_count sub \<noteq> 0 \<or> truthy (emby_episode_keys sub)
      \<or> (case emby_episodes sub of None \<Rightarrow> False | Some s \<Rightarrow> s \<noteq> {}) \<or> in_library sub)"

definition guard_skip_reason :: "subscription \<Rightarrow> search_result \<Rightarrow> pystr" where
  "guard_skip_reason sub r =
     (if media_type sub \<noteq> Tv then (if in_library sub then (u ''movie_already_in_library'') else [])
      else
        let episodes = result_episodes (Some sub) r; missing = missing_episode_keys sub in
        if episodes = {} then []
        else if missing \<noteq> {} \<and> episodes \<inter> missing = {} then (u ''episodes_already_in_library'')
        else if missing = {} \<and> has_episode_scope sub then (u ''episodes_not_needed'')
        else [])"

definition resource_allowed_for_subscription ::
    "subscription option \<Rightarrow> search_result \<Rightarrow> pystr list option \<Rightarrow> bool" where
  "resource_allowed_for_subscription sub_opt r reject_reasons =
     (case sub_opt of
        None \<Rightarrow> True
      | Some sub \<Rightarrow>
          let d = decide_resource_candidate sub r [] in
          if d_accepted d then True
          else case reject_reasons of
            None \<Rightarrow> False
          | Some reasons \<Rightarrow>
              let reason = (if List.member reasons (d_reason d) then d_reason d
                            else or_reason (guard_skip_reason sub r) (d_reason d))
              in \<not> List.member reasons reason)"

section \<open>Candidates\<close>

definition matching_results :: "subscription \<Rightarrow> search_result list \<Rightarrow> pystr list \<Rightarrow> search_result list" where
  "matching_results sub results extra_texts =
     filter (\<lambda>r. d_accepted (decide_resource_candidate sub r extra_texts)) results"

definition BLOCKED_STATUSES :: "pystr list" where
  "BLOCKED_STATUSES =
     (map u [''failed'', ''pending_recheck'', ''skipped'', ''link_invalid'', ''delivery_failed_final'', ''delivery_failed_retryable''])"

definition subscription_115_resources :: "int \<Rightarrow> resource_row list \<Rightarrow> resource_row list" where
  "subscription_115_resources sid table =
     filter (\<lambda>row. re_match PAN115_URL_RE (rr_url row) \<noteq> None)
       (rev (filter (\<lambda>row. rr_subscription row = sid \<and> \<not> List.member BLOCKED_STATUSES (rr_status row)) table))"

definition fallback_blocked_by_primary_resource :: "subscription \<Rightarrow> search_result \<Rightarrow> resource_row list \<Rightarrow> bool" where
  "fallback_blocked_by_primary_resource sub r existing_115 =
     (if \<not> result_is_fallback_source r then False
      else if existing_115 = [] then False
      else if \<not> is_115_share_link (r_url r) then False
      else if media_type sub \<noteq> Tv then True
      else
        let episodes = episode_keys_from_text_for_subscription (Some sub) (result_text r []) in
        if episodes = {} then False
        else list_ex (\<lambda>row. \<not> List.member BLOCKED_STATUSES (casefold (rr_status row)) \<and> row_episodes (Some sub) row \<noteq> {}
                 \<and> episodes \<subseteq> row_episodes (Some sub) row) existing_115)"

definition result_may_match_subscription ::
    "search_result \<Rightarrow> match_term option \<Rightarrow> pystr \<Rightarrow> pystr list \<Rightarrow> bool" where
  "result_may_match_subscription r title_term tmdb extra_texts =
     (let text = subscription_match_text r extra_texts in
      if tmdb \<noteq> [] \<and> tmdb \<in> tmdb_ids_from_text text then True
      else case title_term of None \<Rightarrow> False | Some t \<Rightarrow> title_term_in_text t text)"

definition results_may_match_subscription :: "subscription \<Rightarrow> search_result list \<Rightarrow> pystr list \<Rightarrow> bool" where
  "results_may_match_subscription sub results extra_texts =
     (let title_term = fst (subscription_required_terms sub); tmdb = bare_tmdb_id sub in
      if title_term = None \<and> tmdb = [] then True
      else list_ex (\<lambda>r. result_may_match_subscription r title_term tmdb extra_texts) results)"

definition fallback_result_candidates :: "search_result list \<Rightarrow> subscription option \<Rightarrow> search_result list" where
  "fallback_result_candidates results sub = sort_key (fallback_candidate_sort_key sub) results"

definition best_fallback_result :: "search_result list \<Rightarrow> subscription option \<Rightarrow> search_result option" where
  "best_fallback_result results sub =
     (case fallback_result_candidates results sub of [] \<Rightarrow> None | r # _ \<Rightarrow> Some r)"

section \<open>Insertion\<close>

text \<open>
  The table and the counter of \<open>AUTOINCREMENT\<close>; \<open>INSERT OR IGNORE\<close> respects the unique index on
  subscription and url.
\<close>

record store =
  st_rows :: "resource_row list"
  st_next_id :: int

definition insert_row :: "pystr \<Rightarrow> int \<Rightarrow> search_result \<Rightarrow> store \<Rightarrow> resource_row option \<times> store" where
  "insert_row now sid r st =
     (if list_ex (\<lambda>row. rr_subscription row = sid \<and> rr_url row = r_url r) (st_rows st) then (None, st)
      else
        let row = \<lparr>rr_id = st_next_id st, rr_subscription = sid, rr_source = r_source r, rr_title = r_title r,
                   rr_url = r_url r, rr_message_id = r_message_id r, rr_status = (u ''pending''), rr_retry_count = 0,
                   rr_last_error = None, rr_created_at = now, rr_updated_at = Some now\<rparr>
        in (Some row, st\<lparr>st_rows := st_rows st @ [row], st_next_id := st_next_id st + 1\<rparr>))"

definition canonical_result :: "search_result \<Rightarrow> search_result" where
  "canonical_result r =
     (let url = canonical_115_url (r_url r) in if url \<noteq> [] then r\<lparr>r_url := url\<rparr> else r)"

text \<open>
  \<open>_insert_resource\<close>; the duplicate check reads the rows of the subscription.  The caller's list
  \<open>existing_rows\<close>, when it passes one, is kept equal to them by the insertion at its front.
\<close>

definition insert_resource :: "pystr \<Rightarrow> int \<Rightarrow> subscription option \<Rightarrow> search_result \<Rightarrow> store \<Rightarrow> resource_row option \<times> store" where
  "insert_resource now sid sub r0 st =
     (let r = canonical_result r0 in
      if \<not> is_valid_download_link (r_url r) then (None, st)
      else if \<not> resource_allowed_for_subscription sub r None then (None, st)
      else if resource_already_exists r sub (existing_resource_rows sid (st_rows st)) \<noteq> None then (None, st)
      else insert_row now sid r st)"

record source_stat =
  ss_name :: pystr
  ss_type :: pystr
  ss_match_count :: int

definition record_source_match :: "pystr \<Rightarrow> (pystr \<times> source_stat) list \<Rightarrow> (pystr \<times> source_stat) list" where
  "record_source_match source stats =
     (case split_once 58 (strip source) of
        None \<Rightarrow> stats
      | Some (source_type, source_name) \<Rightarrow>
          let key = source_type @ [58] @ or_str source_name [0x8BA2, 0x9605, 0x6E90];
              n = (case map_of stats key of None \<Rightarrow> 0 | Some s \<Rightarrow> ss_match_count s)
          in AList.update key \<lparr>ss_name = source_name, ss_type = source_type, ss_match_count = n + 1\<rparr> stats)"

definition insert_resource_automatic ::
    "pystr \<Rightarrow> subscription \<Rightarrow> search_result \<Rightarrow> store \<times> (pystr \<times> source_stat) list
     \<Rightarrow> resource_row option \<times> store \<times> (pystr \<times> source_stat) list" where
  "insert_resource_automatic now sub r st =
     (case insert_resource now (sub_id sub) (Some sub) r (fst st) of
        (None, s) \<Rightarrow> (None, s, snd st)
      | (Some row, s) \<Rightarrow> (Some row, s, record_source_match (r_source r) (snd st)))"

section \<open>Facts on similarity\<close>

lemma common_chars_size: "common_chars a b = size (mset a \<inter># mset b)"
proof (induction a b rule: common_chars.induct)
  case (2 c a b)
  show ?case
  proof (cases "c \<in> set b")
    case True
    then have "mset (c # a) \<inter># mset b = add_mset c (mset a \<inter># mset (remove1 c b))"
      by (simp add: inter_add_left2)
    with 2 True show ?thesis by simp
  next
    case False
    then have "mset (c # a) \<inter># mset b = mset a \<inter># mset b"
      by (simp add: inter_add_left1)
    with 2 False show ?thesis by simp
  qed
qed simp

lemma quick_ratio_commute: "quick_ratio a b = quick_ratio b a"
  by (simp add: quick_ratio_def common_chars_size add.commute subset_mset.inf_commute [of "mset a"])

lemma common_chars_le: "2 * common_chars a b \<le> length a + length b"
proof -
  have "common_chars a b \<le> length a" "common_chars a b \<le> length b"
    using size_mset_mono [OF subset_mset.inf_le1, of "mset a" "mset b"]
      size_mset_mono [OF subset_mset.inf_le2, of "mset a" "mset b"]
    by (simp_all add: common_chars_size)
  then show ?thesis by simp
qed

lemma quick_ratio_le_1: "quick_ratio a b \<le> 1"
proof (cases "length a + length b = 0")
  case False
  have "(2 * of_nat (common_chars a b) :: rat) \<le> of_nat (length a + length b)"
    using common_chars_le [of a b] by (metis of_nat_le_iff of_nat_mult of_nat_numeral)
  moreover have "(0::rat) < of_nat (length a + length b)" using False by (simp only: of_nat_0_less_iff)
  ultimately show ?thesis using False by (simp add: quick_ratio_def divide_le_eq_1 del: of_nat_add)
qed (simp add: quick_ratio_def)

lemma quick_ratio_self [simp]: "quick_ratio a a = 1"
  by (cases a) (simp_all add: quick_ratio_def common_chars_size)

section \<open>The indexed check agrees with the row-by-row check\<close>

lemma first_some_None: "first_some xs = None \<longleftrightarrow> (\<forall>x \<in> set xs. x = None)"
  by (induction xs rule: first_some.induct) auto

lemma by_key_set:
  "set (by_key (build_resource_row_index rows sub)) = {k. \<exists>row \<in> set (effective_rows rows). resource_dedupe_key (rr_url row) = Some k}"
  by (force simp: build_resource_row_index_def Let_def List.map_filter_def image_iff)

lemma episode_sets_ex:
  "list_ex (\<lambda>e. E \<subseteq> e) (episode_sets (build_resource_row_index rows sub)) \<longleftrightarrow>
     (\<exists>row \<in> set (effective_rows rows). row_episodes sub row \<noteq> {} \<and> E \<subseteq> row_episodes sub row)"
  by (auto simp: build_resource_row_index_def Let_def list_ex_iff)

lemma similar_Nil [simp]: "similar_title_against_key [] k e e' = None" "similar_title_against_key k [] e e' = None"
  by (simp_all add: similar_title_against_key_def)

lemma titles_ex:
  "first_some (map (\<lambda>(k, e). similar_title_against_key key k E e) (title_entries (build_resource_row_index rows sub))) \<noteq> None
   \<longleftrightarrow> (\<exists>row \<in> set (effective_rows rows). similar_title_against_key key (title_key (rr_title row)) E (row_episodes sub row) \<noteq> None)"
  by (force simp: first_some_None build_resource_row_index_def Let_def)

lemma effective_rows_set: "row \<in> set (effective_rows rows) \<longleftrightarrow> row \<in> set rows \<and> resource_status_is_effective (rr_status row)"
  by (auto simp: effective_rows_def)

text \<open>What the duplicate check looks for in one effective row\<close>

definition row_clashes :: "search_result \<Rightarrow> subscription option \<Rightarrow> resource_row \<Rightarrow> bool" where
  "row_clashes r sub row \<longleftrightarrow>
     resource_dedupe_key (r_url r) \<noteq> None \<and> resource_dedupe_key (rr_url row) = resource_dedupe_key (r_url r)
     \<or> result_episodes sub r \<noteq> {} \<and> row_episodes sub row \<noteq> {} \<and> result_episodes sub r \<subseteq> row_episodes sub row
     \<or> similar_title_against_key (title_key (r_title r)) (title_key (rr_title row)) (result_episodes sub r)
         (row_episodes sub row) \<noteq> None"

lemma already_exists_iff:
  "resource_already_exists r sub rows \<noteq> None \<longleftrightarrow> (\<exists>row \<in> set (effective_rows rows). row_clashes r sub row)"
proof -
  let ?E = "result_episodes sub r" and ?k = "title_key (r_title r)" and ?R = "effective_rows rows"
  let ?i = "build_resource_row_index rows sub"
  have title: "(if ?k = [] then None
       else first_some (map (\<lambda>(k, e). similar_title_against_key ?k k ?E e) (title_entries ?i))) \<noteq> None
     \<longleftrightarrow> (\<exists>row \<in> set ?R. similar_title_against_key ?k (title_key (rr_title row)) ?E (row_episodes sub row) \<noteq> None)"
    using titles_ex [of ?k ?E rows sub] by auto
  show ?thesis
    unfolding resource_already_exists_def Let_def row_clashes_def episode_sets_ex
    using title by (cases "resource_dedupe_key (r_url r)") (auto simp: by_key_set)
qed

lemma index_agrees_with_rows:
  "resource_already_exists r sub rows \<noteq> None \<longleftrightarrow>
   (\<exists>row \<in> set rows. duplicate_reason_for_row sub (result_episodes sub r) (title_key (r_title r))
      (resource_dedupe_key (r_url r)) row \<noteq> None)"
proof -
  have "duplicate_reason_for_row sub (result_episodes sub r) (title_key (r_title r)) (resource_dedupe_key (r_url r)) row \<noteq> None
    \<longleftrightarrow> resource_status_is_effective (rr_status row) \<and> row_clashes r sub row" for row
    by (auto simp: duplicate_reason_for_row_def row_clashes_def Let_def)
  then show ?thesis
    unfolding already_exists_iff by (auto simp: effective_rows_set)
qed

section \<open>Facts on insertion\<close>

definition store_ok :: "store \<Rightarrow> bool" where
  "store_ok st \<longleftrightarrow> distinct (map rr_id (st_rows st)) \<and> (\<forall>row \<in> set (st_rows st). rr_id row < st_next_id st)
     \<and> distinct (map (\<lambda>row. (rr_subscription row, rr_url row)) (st_rows st))"

lemma insert_row_ok: "store_ok st \<Longrightarrow> store_ok (snd (insert_row now sid r st))"
  by (force simp: store_ok_def insert_row_def Let_def list_ex_iff)

lemma insert_resource_store:
  "snd (insert_resource now sid sub r st) = st \<or>
   snd (insert_resource now sid sub r st) = snd (insert_row now sid (canonical_result r) st)"
  by (simp add: insert_resource_def Let_def)

lemma insert_resource_ok: "store_ok st \<Longrightarrow> store_ok (snd (insert_resource now sid sub r st))"
  using insert_resource_store [of now sid sub r st] insert_row_ok by metis

lemma insert_resource_Some:
  assumes "insert_resource now sid sub r st = (Some row, st')"
  shows "st_rows st' = st_rows st @ [row]" "rr_id row = st_next_id st" "rr_status row = (u ''pending'')"
    "rr_url row = r_url (canonical_result r)" "rr_subscription row = sid" "is_valid_download_link (rr_url row)"
  using assms by (auto simp: insert_resource_def insert_row_def Let_def split: if_splits)

lemma pending_effective: "resource_status_is_effective ((u ''pending''))"
  by (simp add: resource_status_is_effective_def INEFFECTIVE_def u_def casefold_def chr_eval)

lemma canonical_result_twice: "insert_resource now sid sub r st = (Some row, st') \<Longrightarrow> rr_url row \<noteq> []"
proof -
  assume "insert_resource now sid sub r st = (Some row, st')"
  then have "is_valid_download_link (rr_url row)" by (rule insert_resource_Some)
  then show ?thesis by (auto simp: is_valid_download_link_def)
qed

text \<open>A saved resource is refused when it is found again.\<close>

lemma insert_twice_refused:
  assumes "insert_resource now sid sub r st = (Some row, st')"
  shows "fst (insert_resource now' sid sub r st') = None"
proof -
  let ?r = "canonical_result r"
  note row = insert_resource_Some [OF assms]
  have "row \<in> set (effective_rows (existing_resource_rows sid (st_rows st')))"
    using row pending_effective by (simp add: effective_rows_set existing_resource_rows_def)
  moreover have "resource_dedupe_key (r_url ?r) \<noteq> None"
    using row(4,6) by (auto simp: resource_dedupe_key_def is_valid_download_link_def Let_def split: option.splits)
  ultimately have "resource_already_exists ?r sub (existing_resource_rows sid (st_rows st')) \<noteq> None"
    unfolding already_exists_iff row_clashes_def using row(4) by metis
  then show ?thesis by (simp add: insert_resource_def Let_def)
qed

section \<open>Facts on candidates\<close>

lemma best_is_least:
  assumes "best_fallback_result results sub = Some r"
  shows "r \<in> set results" "\<forall>x \<in> set results. fallback_candidate_sort_key sub r \<le> fallback_candidate_sort_key sub x"
proof -
  let ?f = "fallback_candidate_sort_key sub"
  obtain rs where rs: "sort_key ?f results = r # rs"
    using assms by (auto simp: best_fallback_result_def fallback_result_candidates_def split: list.splits)
  then have "set results = set (r # rs)" by (metis set_sort)
  then show "r \<in> set results" by simp
  have "sorted (map ?f (r # rs))" using rs by (metis sorted_sort_key)
  then show "\<forall>x \<in> set results. ?f r \<le> ?f x" using \<open>set results = set (r # rs)\<close> by auto
qed

lemma best_exists: "results \<noteq> [] \<Longrightarrow> best_fallback_result results sub \<noteq> None"
  by (cases "sort_key (fallback_candidate_sort_key sub) results")
    (auto simp: best_fallback_result_def fallback_result_candidates_def dest: arg_cong [of _ _ length])

lemma blocked_needs_primary:
  "fallback_blocked_by_primary_resource sub r rows \<Longrightarrow> result_is_fallback_source r \<and> rows \<noteq> [] \<and> is_115_share_link (r_url r)"
  by (auto simp: fallback_blocked_by_primary_resource_def split: if_splits)

end
