(* ===== verification/Tables.thy ===== *)
theory Tables
  imports Main
begin

text \<open>
  A table of the database as the list of its rows in the order of their ids: the update of the rows
  a \<open>WHERE\<close> clause selects, the first row a query with \<open>ORDER BY id\<close> returns, and the limit of a listing.
\<close>

definition update_rows :: "('r \<Rightarrow> bool) \<Rightarrow> ('r \<Rightarrow> 'r) \<Rightarrow> 'r list \<Rightarrow> 'r list" where
  "update_rows P f rows = map (\<lambda>row. if P row then f row else row) rows"

lemma update_rows_keep: "(\<And>row. P row \<Longrightarrow> g (f row) = g row) \<Longrightarrow> map g (update_rows P f rows) = map g rows"
  by (simp add: update_rows_def)

lemma set_update_rows: "set (update_rows P f rows) = {f row |row. row \<in> set rows \<and> P row} \<union> {row \<in> set rows. \<not> P row}"
  by (auto simp: update_rows_def)

lemma filter_update_rows_other:
  "(\<And>row. P row \<Longrightarrow> \<not> Q row \<and> \<not> Q (f row)) \<Longrightarrow> filter Q (update_rows P f rows) = filter Q rows"
  by (induction rows) (auto simp: update_rows_def)

text \<open>\<open>ORDER BY id ASC LIMIT 1\<close> and \<open>ORDER BY id DESC LIMIT 1\<close>\<close>

definition first_by :: "('r \<Rightarrow> 'k :: linorder) \<Rightarrow> 'r list \<Rightarrow> 'r option" where
  "first_by key rows = (case sort_key key rows of [] \<Rightarrow> None | row # _ \<Rightarrow> Some row)"

definition last_by :: "('r \<Rightarrow> 'k :: linorder) \<Rightarrow> 'r list \<Rightarrow> 'r option" where
  "last_by key rows = (if rows = [] then None else Some (last (sort_key key rows)))"

lemma first_by_Nil [simp]: "first_by key [] = None"
  by (simp add: first_by_def)

lemma first_by_None [simp]: "first_by key rows = None \<longleftrightarrow> rows = []"
proof -
  have "sort_key key rows = [] \<longleftrightarrow> rows = []" by (metis length_0_conv length_sort)
  then show ?thesis by (auto simp: first_by_def split: list.splits)
qed

lemma first_by_Some:
  assumes "first_by key rows = Some row"
  shows "row \<in> set rows" "\<forall>x \<in> set rows. key row \<le> key x"
proof -
  obtain rest where s: "sort_key key rows = row # rest"
    using assms by (auto simp: first_by_def split: list.splits)
  then have "set (row # rest) = set rows" "sorted (map key (row # rest))"
    using set_sort [of key rows] sorted_sort_key [of key rows] by simp_all
  then show "row \<in> set rows" "\<forall>x \<in> set rows. key row \<le> key x" by auto
qed

lemma last_by_None [simp]: "last_by key rows = None \<longleftrightarrow> rows = []"
  by (simp add: last_by_def)

lemma last_by_Some:
  assumes "last_by key rows = Some row"
  shows "row \<in> set rows" "\<forall>x \<in> set rows. key x \<le> key row"
proof -
  have ne: "sort_key key rows \<noteq> []" and row: "row = last (sort_key key rows)"
    using assms by (auto simp: last_by_def split: if_splits) (metis length_0_conv length_sort)
  then have split: "sort_key key rows = butlast (sort_key key rows) @ [row]" by simp
  then have "set (butlast (sort_key key rows) @ [row]) = set rows"
    "sorted (map key (butlast (sort_key key rows) @ [row]))"
    using set_sort [of key rows] sorted_sort_key [of key rows] by (simp_all only:)
  then show "row \<in> set rows" "\<forall>x \<in> set rows. key x \<le> key row"
    by (auto simp: sorted_append)
qed

text \<open>\<open>max(1, min(int(limit or dflt), highest))\<close>\<close>

definition clamp :: "int \<Rightarrow> int \<Rightarrow> int \<Rightarrow> nat" where
  "clamp limit dflt highest = nat (max 1 (min (if limit = 0 then dflt else limit) highest))"

lemma clamp_pos: "0 < highest \<Longrightarrow> 0 < clamp limit dflt highest"
  by (simp add: clamp_def)

end
