(* ===== verification/Delivery_State.thy ===== *)
theory Delivery_State
  imports Resource_Store Tables "HOL-Library.Option_ord"
begin

text \<open>
  \<open>app/services/subscription/delivery/state.py\<close> and \<open>retry.py\<close>: the class of a delivery failure, the
  status written for it, and the choice of failed deliveries that are tried again.  Times are seconds;
  \<open>stamp\<close>, an argument, is Python's \<open>datetime.fromisoformat\<close> with a missing zone read as UTC
  (\<^const>\<open>None\<close> where it raises).  Shown: a resource that is chosen is due under its backoff and
  its failure is neither an invalid link nor final, at most the limit is chosen, and the statuses
  \<open>link_invalid\<close> and \<open>pending_recheck\<close> never reach the choice.
\<close>

section \<open>Classes of failures\<close>

datatype failure = Auth | Flood | Invalid | Timeout | Network | Rate | Temporary | Final

definition FLOOD_WORDS :: "pystr list" where
  "FLOOD_WORDS = (map u [''flood'', ''floodwait'', ''too many requests'', ''slowmode'', ''peer flood''])"

definition AUTH_FAILURE_WORDS :: "pystr list" where
  "AUTH_FAILURE_WORDS = [(u ''cookie''), (u ''auth_required''), [0x672A, 0x914D, 0x7F6E],
    [0x8BF7, 0x5148, 0x767B, 0x5F55], (u ''login required''), (u ''unauthorized''), (u ''401''),
      (u ''403'')]"

definition INVALID_WORDS :: "pystr list" where
  "INVALID_WORDS =
     [[0x683C, 0x5F0F, 0x65E0, 0x6548], [0x94FE, 0x63A5, 0x4E3A, 0x7A7A], [0x5931, 0x6548],
       [0x4E0D, 0x53EF, 0x7528], (u ''invalid''), (u ''unavailable''), (u ''password_error''),
         (u ''not_found''), (u ''expired''), (u ''cancelled''), [0x5DF2, 0x5931, 0x6548],
           [0x5206, 0x4EAB, 0x94FE, 0x63A5, 0x5DF2, 0x5931, 0x6548]]"

definition TIMEOUT_WORDS :: "pystr list" where
  "TIMEOUT_WORDS = [(u ''timeout''), (u ''timed out''), (u ''time out''), [0x8D85, 0x65F6]]"

definition RATE_FAILURE_WORDS :: "pystr list" where
  "RATE_FAILURE_WORDS = [(u ''rate_limited''), (u ''rate limit''), (u ''429''), [0x9650, 0x6D41]]"

definition NETWORK_WORDS :: "pystr list" where
  "NETWORK_WORDS = (map u [''network'', ''connection'', ''proxy'', ''tls'', ''ssl''])"

definition TEMPORARY_WORDS :: "pystr list" where
  "TEMPORARY_WORDS = (map u [''temporar'', ''500'', ''502'', ''503'', ''504'', ''busy'', ''locked''])"

definition has_word :: "pystr list \<Rightarrow> pystr \<Rightarrow> bool" where
  "has_word ws s = list_ex (\<lambda>w. contains w s) ws"

definition classify_delivery_failure :: "pystr \<Rightarrow> failure" where
  "classify_delivery_failure error_message =
     (let text = casefold error_message in
      if strip text = [] then Temporary
      else if has_word FLOOD_WORDS text then Flood
      else if has_word AUTH_FAILURE_WORDS text then Auth
      else if contains (u ''unknown'') text then Temporary
      else if has_word INVALID_WORDS text then Invalid
      else if has_word TIMEOUT_WORDS text then Timeout
      else if has_word RATE_FAILURE_WORDS text then Rate
      else if has_word NETWORK_WORDS text then Network
      else if has_word TEMPORARY_WORDS text then Temporary
      else Final)"

definition delivery_failed_status :: "pystr \<Rightarrow> pystr" where
  "delivery_failed_status error_message =
     (let kind = classify_delivery_failure error_message in
      if kind = Invalid then (u ''link_invalid'')
      else if kind \<in> {Timeout, Network, Rate, Temporary, Auth, Flood} then (u ''delivery_failed_retryable'')
      else (u ''delivery_failed_final''))"

section \<open>Writing the status\<close>

definition DELIVERED :: pystr where
  "DELIVERED = (u ''delivered'')"

definition update_resource_delivery_status ::
    "pystr \<Rightarrow> int \<Rightarrow> bool \<Rightarrow> pystr \<Rightarrow> resource_row list \<Rightarrow> resource_row list" where
  "update_resource_delivery_status now rid ok error_message rows =
     update_rows (\<lambda>row. rr_id row = rid)
       (\<lambda>row. row\<lparr>rr_status := (if ok then DELIVERED else delivery_failed_status error_message),
                  rr_retry_count := (if ok then 0 else rr_retry_count row + 1),
                  rr_last_error := (if ok then None else Some (take 500 error_message)),
                  rr_updated_at := Some now\<rparr>) rows"

definition mark_resource_duplicate_delivered :: "pystr \<Rightarrow> int \<Rightarrow> resource_row list \<Rightarrow> resource_row list" where
  "mark_resource_duplicate_delivered now rid rows =
     update_rows (\<lambda>row. rr_id row = rid)
       (\<lambda>row. row\<lparr>rr_status := DELIVERED, rr_last_error := None, rr_updated_at := Some now\<rparr>) rows"

definition other_delivered :: "int \<Rightarrow> resource_row list \<Rightarrow> resource_row list" where
  "other_delivered rid rows = filter (\<lambda>row. rr_id row \<noteq> rid \<and> rr_status row = DELIVERED) rows"

definition existing_effective_delivery :: "resource_row \<Rightarrow> resource_row list \<Rightarrow> resource_row option" where
  "existing_effective_delivery r rows =
     (case resource_dedupe_key (rr_url r) of
        None \<Rightarrow> None
      | Some (kind, value) \<Rightarrow>
          let others = other_delivered (rr_id r) rows;
              direct = (if kind \<noteq> (u ''magnet'') \<and> value \<noteq> [] then List.find (\<lambda>row. rr_url row = value) others else None)
          in case direct of
               Some row \<Rightarrow> Some row
             | None \<Rightarrow> List.find (\<lambda>row. resource_dedupe_key (rr_url row) = Some (kind, value)) others)"

section \<open>Failed deliveries\<close>

definition FAILED_STATUSES :: "pystr list" where
  "FAILED_STATUSES = (map u [''failed'', ''delivery_failed_retryable'', ''delivery_failed_final''])"

definition newest_first :: "resource_row list \<Rightarrow> resource_row list" where
  "newest_first rows = rev (sort_key (\<lambda>row. (rr_updated_at row, rr_id row)) rows)"

definition list_failed_resources :: "int \<Rightarrow> resource_row list \<Rightarrow> resource_row list" where
  "list_failed_resources limit table =
     take (clamp limit 100 500) (newest_first (filter (\<lambda>row. List.member FAILED_STATUSES (rr_status row)) table))"

text \<open>\<open>cutoff\<close> is the text of the time ten minutes ago; the comparison is one of texts.\<close>

definition list_stuck_pending_resources :: "pystr \<Rightarrow> int option \<Rightarrow> int \<Rightarrow> resource_row list \<Rightarrow> resource_row list" where
  "list_stuck_pending_resources cutoff sid_opt limit table =
     take (clamp limit 50 200)
       (rev (sort_key rr_created_at
         (filter (\<lambda>row. rr_status row = (u ''pending'') \<and> rr_created_at row < cutoff
                   \<and> (case sid_opt of None \<Rightarrow> True | Some sid \<Rightarrow> sid = 0 \<or> rr_subscription row = sid)) table)))"

section \<open>Backoff\<close>

text \<open>\<open>RETRY_BACKOFF_SECONDS.get(kind) or RETRY_BACKOFF_SECONDS["temporary"]\<close>\<close>

definition RETRY_BACKOFF_SECONDS :: "failure \<Rightarrow> rat list" where
  "RETRY_BACKOFF_SECONDS kind =
     (case kind of
        Timeout \<Rightarrow> [60, 180, 600, 1800]
      | Network \<Rightarrow> [90, 300, 900, 1800]
      | Temporary \<Rightarrow> [120, 600, 1800, 3600]
      | Rate \<Rightarrow> [300, 900, 1800, 3600]
      | Flood \<Rightarrow> [600, 1800, 3600, 7200]
      | Auth \<Rightarrow> [900, 1800, 3600, 7200]
      | _ \<Rightarrow> [120, 600, 1800, 3600])"

definition backoff_delay :: "failure \<Rightarrow> int \<Rightarrow> rat" where
  "backoff_delay kind retry_count =
     (let windows = RETRY_BACKOFF_SECONDS kind in windows ! min (nat (max 0 retry_count)) (length windows - 1))"

definition NON_RETRY_KINDS :: "failure list" where
  "NON_RETRY_KINDS = [Invalid, Final]"

definition retry_due :: "(pystr \<Rightarrow> rat option) \<Rightarrow> resource_row \<Rightarrow> failure \<Rightarrow> rat \<Rightarrow> bool" where
  "retry_due stamp row kind now =
     (if List.member NON_RETRY_KINDS kind then False
      else
        let raw = strip (or_str (case rr_updated_at row of None \<Rightarrow> [] | Some s \<Rightarrow> s) (rr_created_at row)) in
        if raw = [] then True
        else case stamp raw of None \<Rightarrow> True | Some t \<Rightarrow> t + backoff_delay kind (rr_retry_count row) \<le> now)"

record pick =
  p_row :: resource_row
  p_kind :: failure
  p_skip :: pystr

definition row_failure :: "resource_row \<Rightarrow> failure" where
  "row_failure row = classify_delivery_failure (case rr_last_error row of None \<Rightarrow> [] | Some e \<Rightarrow> e)"

text \<open>The decision on one row, with the reason for skipping it or the empty text\<close>

definition pick_row :: "(pystr \<Rightarrow> rat option) \<Rightarrow> rat \<Rightarrow> resource_row \<Rightarrow> pick" where
  "pick_row stamp now row =
     (let kind = row_failure row; status = casefold (rr_status row) in
      if status = (u ''link_invalid'') \<or> kind = Invalid
      then \<lparr>p_row = row, p_kind = Invalid, p_skip = (u ''invalid_link'')\<rparr>
      else if status = (u ''delivery_failed_final'') \<and> kind = Final \<and> 3 \<le> rr_retry_count row
      then \<lparr>p_row = row, p_kind = kind, p_skip = (u ''final_exhausted'')\<rparr>
      else if \<not> retry_due stamp row kind now then \<lparr>p_row = row, p_kind = kind, p_skip = (u ''backoff'')\<rparr>
      else \<lparr>p_row = row, p_kind = kind, p_skip = []\<rparr>)"

definition actionable :: "pick list \<Rightarrow> pick list" where
  "actionable ps = filter (\<lambda>p. p_skip p = []) ps"

fun select_loop :: "nat \<Rightarrow> (resource_row \<Rightarrow> pick) \<Rightarrow> resource_row list \<Rightarrow> pick list \<Rightarrow> pick list" where
  "select_loop budget judge [] selected = selected"
| "select_loop budget judge (row # rows) selected =
     (let p = judge row; selected = selected @ [p] in
      if p_skip p = [] \<and> budget \<le> length (actionable selected) then selected
      else select_loop budget judge rows selected)"

definition select_retryable_failed_resources ::
    "(pystr \<Rightarrow> rat option) \<Rightarrow> rat \<Rightarrow> int \<Rightarrow> resource_row list \<Rightarrow> pick list" where
  "select_retryable_failed_resources stamp now limit table =
     (let limit_or_20 = (if limit = 0 then 20 else limit);
          rows = list_failed_resources (max 1 (min (limit_or_20 * 4) 200)) table
      in select_loop (clamp limit 20 100) (pick_row stamp now) rows [])"

record retry_report =
  rep_retried :: nat
  rep_delivered :: nat
  rep_failed :: nat
  rep_skipped :: nat
  rep_by_kind :: "(failure \<times> nat) list"

definition bump :: "failure \<Rightarrow> (failure \<times> nat) list \<Rightarrow> (failure \<times> nat) list" where
  "bump kind d = AList.update kind ((case map_of d kind of None \<Rightarrow> 0 | Some n \<Rightarrow> n) + 1) d"

text \<open>\<open>outcome\<close> is what the awaited \<open>deliver\<close> answered for each id.\<close>

definition retry_failed_resources :: "(int \<Rightarrow> bool) \<Rightarrow> pick list \<Rightarrow> retry_report" where
  "retry_failed_resources outcome candidates =
     (let todo = actionable candidates in
      \<lparr>rep_retried = length candidates - (length candidates - length todo),
       rep_delivered = length (filter (\<lambda>p. outcome (rr_id (p_row p))) todo),
       rep_failed = length (filter (\<lambda>p. \<not> outcome (rr_id (p_row p))) todo),
       rep_skipped = length candidates - length todo,
       rep_by_kind = fold (\<lambda>p. bump (p_kind p)) candidates []\<rparr>)"

section \<open>Facts\<close>

lemma failed_status_cases:
  "delivery_failed_status e =
     (case classify_delivery_failure e of
        Invalid \<Rightarrow> (u ''link_invalid'') | Final \<Rightarrow> (u ''delivery_failed_final'') | _ \<Rightarrow> (u ''delivery_failed_retryable''))"
  by (simp add: delivery_failed_status_def Let_def split: failure.splits)

lemma failed_status_ineffective: "\<not> resource_status_is_effective (delivery_failed_status e)"
  by (simp add: failed_status_cases resource_status_is_effective_def INEFFECTIVE_def u_def casefold_def chr_eval
      split: failure.splits)

lemma failed_status_not_delivered [simp]: "delivery_failed_status e \<noteq> DELIVERED"
  by (simp add: failed_status_cases DELIVERED_def u_def split: failure.splits)

lemma backoff_mono: "r \<le> r' \<Longrightarrow> backoff_delay kind r \<le> backoff_delay kind r'"
proof -
  assume "r \<le> r'"
  then have le: "min (nat (max 0 r)) 3 \<le> min (nat (max 0 r')) 3" by auto
  have "sorted (RETRY_BACKOFF_SECONDS kind) \<and> length (RETRY_BACKOFF_SECONDS kind) = 4"
    by (simp add: RETRY_BACKOFF_SECONDS_def split: failure.split)
  with le show ?thesis
    by (auto simp: backoff_delay_def Let_def intro!: sorted_nth_mono)
qed

lemma backoff_bounds: "60 \<le> backoff_delay kind r \<and> backoff_delay kind r \<le> 7200"
proof -
  have "min (nat (max 0 r)) 3 \<in> {0, 1, 2, 3}" by auto
  then show ?thesis
    by (auto simp: backoff_delay_def Let_def RETRY_BACKOFF_SECONDS_def split: failure.split)
qed

lemma pick_row_row [simp]: "p_row (pick_row stamp now row) = row"
  by (simp add: pick_row_def Let_def)

lemma pick_row_actionable:
  assumes "p_skip (pick_row stamp now row) = []"
  shows "retry_due stamp row (row_failure row) now" "row_failure row \<noteq> Invalid" "row_failure row \<noteq> Final"
    "casefold (rr_status row) \<noteq> (u ''link_invalid'')" "p_kind (pick_row stamp now row) = row_failure row"
  using assms by (auto simp: pick_row_def Let_def retry_due_def NON_RETRY_KINDS_def split: if_splits)

lemma select_loop_set: "set (select_loop n judge rows sel) \<subseteq> set sel \<union> judge ` set rows"
proof (induction n judge rows sel rule: select_loop.induct)
  case (2 budget judge row rows selected)
  then show ?case
    by (cases "p_skip (judge row) = [] \<and> budget \<le> length (actionable (selected @ [judge row]))")
      (auto simp: Let_def)
qed simp

lemma select_loop_budget:
  "length (actionable sel) < n \<Longrightarrow> length (actionable (select_loop n judge rows sel)) \<le> n"
proof (induction n judge rows sel rule: select_loop.induct)
  case (2 budget judge row rows selected)
  then show ?case
    by (cases "p_skip (judge row) = []") (auto simp: Let_def actionable_def)
qed simp

lemma list_failed_set: "row \<in> set (list_failed_resources limit table) \<Longrightarrow>
    row \<in> set table \<and> rr_status row \<in> set FAILED_STATUSES"
  by (auto simp: list_failed_resources_def newest_first_def dest!: in_set_takeD)

lemma select_set:
  assumes "p \<in> set (select_retryable_failed_resources stamp now limit table)"
  shows "p = pick_row stamp now (p_row p)" "p_row p \<in> set table" "rr_status (p_row p) \<in> set FAILED_STATUSES"
proof -
  obtain row lim where row: "p = pick_row stamp now row" "row \<in> set (list_failed_resources lim table)"
    using assms select_loop_set unfolding select_retryable_failed_resources_def Let_def by fastforce
  then show "p = pick_row stamp now (p_row p)" "p_row p \<in> set table" "rr_status (p_row p) \<in> set FAILED_STATUSES"
    using list_failed_set [OF row(2)] by simp_all
qed

lemma select_budget:
  "length (actionable (select_retryable_failed_resources stamp now limit table)) \<le> clamp limit 20 100"
  unfolding select_retryable_failed_resources_def Let_def
  by (rule select_loop_budget) (simp add: actionable_def clamp_pos)

lemma report_adds_up:
  "rep_delivered (retry_failed_resources outcome ps) + rep_failed (retry_failed_resources outcome ps)
     = rep_retried (retry_failed_resources outcome ps)"
  "rep_retried (retry_failed_resources outcome ps) + rep_skipped (retry_failed_resources outcome ps) = length ps"
proof -
  have "length (filter P xs) + length (filter (\<lambda>x. \<not> P x) xs) = length xs" for P and xs :: "pick list"
    by (rule sum_length_filter_compl)
  moreover have "length (actionable ps) \<le> length ps" by (simp add: actionable_def)
  ultimately show "rep_delivered (retry_failed_resources outcome ps) + rep_failed (retry_failed_resources outcome ps)
     = rep_retried (retry_failed_resources outcome ps)"
    "rep_retried (retry_failed_resources outcome ps) + rep_skipped (retry_failed_resources outcome ps) = length ps"
    by (simp_all add: retry_failed_resources_def Let_def)
qed

lemma existing_delivery_found:
  assumes "resource_dedupe_key (rr_url r) = Some k" "row \<in> set rows" "rr_id row \<noteq> rr_id r"
    "rr_status row = DELIVERED" "resource_dedupe_key (rr_url row) = Some k"
  shows "existing_effective_delivery r rows \<noteq> None"
proof -
  obtain kind v where k: "k = (kind, v)" by fastforce
  have "row \<in> set (other_delivered (rr_id r) rows)" using assms by (simp add: other_delivered_def)
  then have "List.find (\<lambda>row. resource_dedupe_key (rr_url row) = Some (kind, v)) (other_delivered (rr_id r) rows) \<noteq> None"
    using assms(5) by (auto simp: find_None_iff k)
  then show ?thesis
    using assms(1) by (auto simp: existing_effective_delivery_def k Let_def split: option.splits)
qed

end
