(* ===== verification/Delivery_Service.thy ===== *)
theory Delivery_Service
  imports Delivery_State
begin

text \<open>
  \<open>app/services/subscription/delivery/service.py\<close> and \<open>executor.py\<close>: one delivery, and several of them
  interleaved on the event loop.  A task loads its row, waits for the lock of the row's key, checks,
  sends and writes the outcome; the row is loaded before the lock is taken and not read again.
  Shown: two tasks never hold the same key, and as long as no resource is delivered by two tasks at
  once no link is sent successfully twice; without that proviso the same resource can be sent twice.
\<close>

section \<open>One delivery\<close>

text \<open>
  What a delivery needs from outside: the subscription of a row, the folder it names, the mode of
  delivery, and what the three adapter calls do with a url (and a folder)
\<close>

datatype answer = Answered bool | Timed_Out | Raised pystr

record world =
  w_subscription :: "int \<Rightarrow> subscription option"
  w_target_path :: "int \<Rightarrow> pystr option"
  w_mode :: pystr
  w_forward :: "pystr \<Rightarrow> answer"
  w_transfer :: "pystr \<Rightarrow> pystr option \<Rightarrow> answer"
  w_offline :: "pystr \<Rightarrow> pystr option \<Rightarrow> answer"

definition delivery_result :: "resource_row \<Rightarrow> search_result" where
  "delivery_result row =
     \<lparr>r_title = rr_title row, r_url = rr_url row, r_source = rr_source row,
      r_message_id = (case rr_message_id row of Some s \<Rightarrow> if s = [] then None else Some s | None \<Rightarrow> None),
      r_context = rr_title row, r_priority = 0\<rparr>"

definition unneeded :: "world \<Rightarrow> resource_row \<Rightarrow> bool" where
  "unneeded w row =
     (\<not> resource_allowed_for_subscription (w_subscription w (rr_subscription row)) (delivery_result row) (Some SKIP_REASONS))"

definition mark_skipped :: "pystr \<Rightarrow> int \<Rightarrow> resource_row list \<Rightarrow> resource_row list" where
  "mark_skipped now rid rows =
     update_rows (\<lambda>row. rr_id row = rid \<and> rr_status row \<noteq> DELIVERED)
       (\<lambda>row. row\<lparr>rr_status := (u ''skipped''),
                  rr_last_error := Some ([0x8D44, 0x6E90, 0x4E0D, 0x5728, 0x8BA2, 0x9605, 0x7F3A,
                    0x5931, 0x8303, 0x56F4, 0x5185, 0xFF0C, 0x5DF2, 0x8DF3, 0x8FC7, 0x6295,
                      0x9012]), rr_updated_at := Some now\<rparr>) rows"

definition normalized_delivery_url :: "pystr \<Rightarrow> pystr" where
  "normalized_delivery_url url = (let v = strip url in or_str (normalize_115_share_link v) v)"

text \<open>\<open>deliver_resource_url\<close>: \<open>Inl\<close> is a refusal with its message, \<open>Inr\<close> what the adapter did.\<close>

definition deliver_resource_url :: "world \<Rightarrow> resource_row \<Rightarrow> pystr + answer" where
  "deliver_resource_url w row =
     (let url = normalized_delivery_url (rr_url row); target = w_target_path w (rr_subscription row) in
      if url = [] then Inl ([0x8D44, 0x6E90, 0x94FE, 0x63A5, 0x4E3A, 0x7A7A])
      else if \<not> is_valid_download_link url then Inl ([0x8D44, 0x6E90, 0x94FE, 0x63A5,
        0x683C, 0x5F0F, 0x65E0, 0x6548])
      else if w_mode w = (u ''telegram_bot'') then Inr (w_forward w url)
      else if re_match PAN115_URL_RE url \<noteq> None then Inr (w_transfer w url target)
      else Inr (w_offline w url target))"

definition perform_delivery :: "world \<Rightarrow> resource_row \<Rightarrow> bool \<times> pystr" where
  "perform_delivery w row =
     (case deliver_resource_url w row of
        Inl message \<Rightarrow> (False, message)
      | Inr (Answered ok) \<Rightarrow> (ok, [])
      | Inr Timed_Out \<Rightarrow> (False, [0x6295, 0x9012, 0x8D85, 0x65F6, 0xFF08, 51, 48, 48,
        32, 0x79D2, 0xFF09])
      | Inr (Raised e) \<Rightarrow> (False, e))"

datatype verdict_before = Already_Delivered | Not_Needed | Duplicate resource_row | Send

definition check_before :: "world \<Rightarrow> resource_row \<Rightarrow> resource_row list \<Rightarrow> verdict_before" where
  "check_before w row rows =
     (if casefold (rr_status row) = DELIVERED then Already_Delivered
      else if unneeded w row then Not_Needed
      else case existing_effective_delivery row rows of
        Some existing \<Rightarrow> Duplicate existing
      | None \<Rightarrow> Send)"

definition settle :: "pystr \<Rightarrow> resource_row \<Rightarrow> verdict_before \<Rightarrow> resource_row list \<Rightarrow> bool \<times> resource_row list" where
  "settle now row v rows =
     (case v of
        Already_Delivered \<Rightarrow> (True, rows)
      | Not_Needed \<Rightarrow> (False, mark_skipped now (rr_id row) rows)
      | Duplicate _ \<Rightarrow> (True, mark_resource_duplicate_delivered now (rr_id row) rows)
      | Send \<Rightarrow> (False, rows))"

definition deliver_resource_locked :: "world \<Rightarrow> pystr \<Rightarrow> resource_row \<Rightarrow> resource_row list \<Rightarrow> bool \<times> resource_row list" where
  "deliver_resource_locked w now row rows =
     (case check_before w row rows of
        Send \<Rightarrow>
          (case perform_delivery w row of
             (ok, message) \<Rightarrow> (ok, update_resource_delivery_status now (rr_id row) ok message rows))
      | v \<Rightarrow> settle now row v rows)"

definition load_resource :: "int \<Rightarrow> resource_row list \<Rightarrow> resource_row option" where
  "load_resource rid rows = List.find (\<lambda>row. rr_id row = rid) rows"

definition deliver_resource :: "world \<Rightarrow> pystr \<Rightarrow> int \<Rightarrow> resource_row list \<Rightarrow> bool \<times> resource_row list" where
  "deliver_resource w now rid rows =
     (case load_resource rid rows of
        None \<Rightarrow> (False, rows)
      | Some row \<Rightarrow> deliver_resource_locked w now row rows)"

definition resource_type_label :: "pystr \<Rightarrow> pystr" where
  "resource_type_label url =
     (case resource_dedupe_key url of
        Some (k, v) \<Rightarrow>
          if k = (u ''magnet'') then [0x78C1, 0x529B]
          else if re_match PAN115_URL_RE url \<noteq> None then (u ''115'') else [0x4E0B, 0x8F7D,
            0x94FE, 0x63A5]
      | None \<Rightarrow> if re_match PAN115_URL_RE url \<noteq> None then (u ''115'') else [0x4E0B, 0x8F7D, 0x94FE, 0x63A5])"

section \<open>Interleaved deliveries\<close>

datatype phase =
    Waiting resource_row \<comment> \<open>row loaded, lock not taken\<close>
  | Holding resource_row \<comment> \<open>lock taken, nothing checked\<close>
  | Sending resource_row \<comment> \<open>the adapter is working\<close>
  | Finished bool

fun phase_row :: "phase \<Rightarrow> resource_row option" where
  "phase_row (Waiting row) = Some row"
| "phase_row (Holding row) = Some row"
| "phase_row (Sending row) = Some row"
| "phase_row (Finished _) = None"

fun locked_key :: "phase \<Rightarrow> (pystr \<times> pystr) option" where
  "locked_key (Holding row) = resource_dedupe_key (rr_url row)"
| "locked_key (Sending row) = resource_dedupe_key (rr_url row)"
| "locked_key _ = None"

text \<open>The rows, the tasks by number, and the rows whose link was sent successfully, newest first\<close>

record system =
  rows :: "resource_row list"
  tasks :: "nat \<Rightarrow> phase option"
  sent :: "resource_row list"

definition set_task :: "nat \<Rightarrow> phase \<Rightarrow> system \<Rightarrow> system" where
  "set_task t p s = s\<lparr>tasks := (tasks s)(t := Some p)\<rparr>"

definition active :: "system \<Rightarrow> nat \<Rightarrow> resource_row \<Rightarrow> bool" where
  "active s t row \<longleftrightarrow> (\<exists>p. tasks s t = Some p \<and> phase_row p = Some row)"

definition working_on :: "int \<Rightarrow> system \<Rightarrow> bool" where
  "working_on rid s \<longleftrightarrow> (\<exists>t row. active s t row \<and> rr_id row = rid)"

definition key_free :: "(pystr \<times> pystr) option \<Rightarrow> system \<Rightarrow> bool" where
  "key_free k s \<longleftrightarrow> k = None \<or> (\<forall>t p. tasks s t = Some p \<longrightarrow> locked_key p \<noteq> k)"

text \<open>
  One step; with \<open>single\<close> a delivery is only started for a resource that no task works on.  The
  subscriptions and the adapters may answer differently at every step.
\<close>

inductive step :: "bool \<Rightarrow> system \<Rightarrow> system \<Rightarrow> bool" for single where
  start: "\<lbrakk>tasks s t = None; load_resource rid (rows s) = Some row; single \<longrightarrow> \<not> working_on rid s\<rbrakk>
    \<Longrightarrow> step single s (set_task t (Waiting row) s)"
| acquire: "\<lbrakk>tasks s t = Some (Waiting row); key_free (resource_dedupe_key (rr_url row)) s\<rbrakk>
    \<Longrightarrow> step single s (set_task t (Holding row) s)"
| settled: "\<lbrakk>tasks s t = Some (Holding row); check_before w row (rows s) = v; v \<noteq> Send;
      settle now row v (rows s) = (ok, rows')\<rbrakk>
    \<Longrightarrow> step single s (set_task t (Finished ok) (s\<lparr>rows := rows'\<rparr>))"
| send: "\<lbrakk>tasks s t = Some (Holding row); check_before w row (rows s) = Send\<rbrakk>
    \<Longrightarrow> step single s (set_task t (Sending row) s)"
| complete: "\<lbrakk>tasks s t = Some (Sending row); perform_delivery w row = (ok, message)\<rbrakk>
    \<Longrightarrow> step single s (set_task t (Finished ok)
          (s\<lparr>rows := update_resource_delivery_status now (rr_id row) ok message (rows s),
             sent := (if ok then row # sent s else sent s)\<rparr>))"

inductive run :: "bool \<Rightarrow> system \<Rightarrow> system \<Rightarrow> bool" for single where
  stop: "run single s s"
| next_step: "\<lbrakk>run single s s'; step single s' s''\<rbrakk> \<Longrightarrow> run single s s''"

definition initial :: "resource_row list \<Rightarrow> system" where
  "initial rs = \<lparr>rows = rs, tasks = (\<lambda>_. None), sent = []\<rparr>"

section \<open>Mutual exclusion\<close>

definition exclusive :: "system \<Rightarrow> bool" where
  "exclusive s \<longleftrightarrow> (\<forall>t t' p p' k. tasks s t = Some p \<longrightarrow> tasks s t' = Some p' \<longrightarrow>
     locked_key p = Some k \<longrightarrow> locked_key p' = Some k \<longrightarrow> t = t')"

lemma tasks_set_task [simp]: "tasks (set_task t p s) = (tasks s)(t := Some p)"
  by (simp add: set_task_def)

lemma rows_set_task [simp]: "rows (set_task t p s) = rows s" "sent (set_task t p s) = sent s"
  by (simp_all add: set_task_def)

lemma exclusive_keep:
  assumes "exclusive s" "tasks s' = (tasks s)(t := Some p)"
    "\<And>k. locked_key p = Some k \<Longrightarrow> (\<exists>q. tasks s t = Some q \<and> locked_key q = Some k) \<or> key_free (Some k) s"
  shows "exclusive s'"
  unfolding exclusive_def
proof (intro allI impI)
  fix a b q q' k
  assume a: "tasks s' a = Some q" and b: "tasks s' b = Some q'" and k: "locked_key q = Some k" "locked_key q' = Some k"
  have other: "c = t" if "tasks s c = Some r" "locked_key r = Some k" "locked_key p = Some k" for c r
    using assms(1) assms(3) [OF that(3)] that(1,2) unfolding exclusive_def key_free_def by blast
  show "a = b"
  proof (cases "a = t \<or> b = t")
    case True
    then show ?thesis
      using a b k other assms(2) by (metis fun_upd_apply option.inject)
  next
    case False
    then show ?thesis
      using a b k assms(1,2) unfolding exclusive_def by (metis fun_upd_apply)
  qed
qed

lemma exclusive_step: "step single s s' \<Longrightarrow> exclusive s \<Longrightarrow> exclusive s'"
proof (induction rule: step.induct)
  case (start s t rid row)
  then show ?case by - (rule exclusive_keep [of s _ t "Waiting row"], simp_all)
next
  case (acquire s t row)
  then show ?case by - (rule exclusive_keep [of s _ t "Holding row"], auto)
next
  case (settled s t row w v now ok rows')
  then show ?case by - (rule exclusive_keep [of s _ t "Finished ok"], simp_all)
next
  case (send s t row w)
  then show ?case by - (rule exclusive_keep [of s _ t "Sending row"], simp_all)
next
  case (complete s t row w ok message now)
  then show ?case by - (rule exclusive_keep [of s _ t "Finished ok"], simp_all)
qed

lemma exclusive_run: "run single s s' \<Longrightarrow> exclusive s \<Longrightarrow> exclusive s'"
  by (induction rule: run.induct) (auto intro: exclusive_step)

lemma exclusive_initial: "exclusive (initial rs)"
  by (simp add: exclusive_def initial_def)

section \<open>No link is sent twice\<close>

definition row_key :: "resource_row \<Rightarrow> (pystr \<times> pystr) option" where
  "row_key row = resource_dedupe_key (rr_url row)"

definition same_key :: "resource_row \<Rightarrow> resource_row \<Rightarrow> bool" where
  "same_key r row \<longleftrightarrow> (\<exists>k. row_key r = Some k \<and> row_key row = Some k)"

text \<open>
  The invariant for \<open>single\<close>: a task's row is the current row, two tasks work on different rows, a row
  sent is delivered, no two rows sent have a key in common, and a task that is sending has a key under
  which nothing was sent.
\<close>

definition current :: "system \<Rightarrow> bool" where
  "current s \<longleftrightarrow> distinct (map rr_id (rows s)) \<and> (\<forall>t row. active s t row \<longrightarrow> row \<in> set (rows s))"

definition one_task_each :: "system \<Rightarrow> bool" where
  "one_task_each s \<longleftrightarrow> (\<forall>t t' row row'. active s t row \<longrightarrow> active s t' row' \<longrightarrow> rr_id row = rr_id row' \<longrightarrow> t = t')"

definition sent_delivered :: "system \<Rightarrow> bool" where
  "sent_delivered s \<longleftrightarrow> (\<forall>r \<in> set (sent s). \<exists>row \<in> set (rows s).
     rr_id row = rr_id r \<and> rr_url row = rr_url r \<and> rr_status row = DELIVERED)"

definition fresh_sending :: "system \<Rightarrow> bool" where
  "fresh_sending s \<longleftrightarrow> (\<forall>t row. tasks s t = Some (Sending row) \<longrightarrow>
     rr_status row \<noteq> DELIVERED \<and> (\<forall>r \<in> set (sent s). \<not> same_key r row))"

definition sent_distinct :: "system \<Rightarrow> bool" where
  "sent_distinct s \<longleftrightarrow> distinct (List.map_filter row_key (sent s))"

definition safe :: "system \<Rightarrow> bool" where
  "safe s \<longleftrightarrow> exclusive s \<and> current s \<and> one_task_each s \<and> sent_delivered s \<and> fresh_sending s \<and> sent_distinct s"

lemma casefold_DELIVERED: "casefold DELIVERED = DELIVERED"
  by (simp add: DELIVERED_def u_def casefold_def chr_eval)

lemma same_id_same_row: "distinct (map rr_id rs) \<Longrightarrow> a \<in> set rs \<Longrightarrow> b \<in> set rs \<Longrightarrow> rr_id a = rr_id b \<Longrightarrow> a = b"
  by (simp add: distinct_map inj_on_def)

text \<open>A change that touches the rows of one id only\<close>

definition touches :: "int \<Rightarrow> resource_row list \<Rightarrow> resource_row list \<Rightarrow> bool" where
  "touches rid rs rs' \<longleftrightarrow> map rr_id rs' = map rr_id rs \<and> (\<forall>row \<in> set rs. rr_id row \<noteq> rid \<longrightarrow> row \<in> set rs')"

lemma touches_update_rows:
  "(\<And>row. P row \<Longrightarrow> rr_id row = rid) \<Longrightarrow> (\<And>row. rr_id (f row) = rr_id row) \<Longrightarrow> touches rid rs (update_rows P f rs)"
  by (force simp: touches_def update_rows_def image_iff)

lemma touches_refl: "touches rid rs rs"
  by (simp add: touches_def)

lemma touches_status: "touches rid rs (update_resource_delivery_status now rid ok m rs)"
  unfolding update_resource_delivery_status_def by (rule touches_update_rows) simp_all

lemma touches_skipped: "touches rid rs (mark_skipped now rid rs)"
  unfolding mark_skipped_def by (rule touches_update_rows) simp_all

lemma touches_duplicate: "touches rid rs (mark_resource_duplicate_delivered now rid rs)"
  unfolding mark_resource_duplicate_delivered_def by (rule touches_update_rows) simp_all

lemma settle_touches: "settle now row v rs = (ok, rs') \<Longrightarrow> touches (rr_id row) rs rs'"
  by (cases v) (auto simp: settle_def touches_refl touches_skipped touches_duplicate)

lemma settle_delivered: "check_before w row rs = v \<Longrightarrow> rr_status row = DELIVERED \<Longrightarrow>
    settle now row v rs = (ok, rs') \<Longrightarrow> rs' = rs"
  by (auto simp: check_before_def settle_def casefold_DELIVERED)

lemma status_written: "row \<in> set rs \<Longrightarrow> \<exists>row' \<in> set (update_resource_delivery_status now (rr_id row) True m rs).
    rr_id row' = rr_id row \<and> rr_url row' = rr_url row \<and> rr_status row' = DELIVERED"
  by (rule bexI [of _ "row\<lparr>rr_status := DELIVERED, rr_retry_count := 0, rr_last_error := None, rr_updated_at := Some now\<rparr>"])
    (auto simp: update_resource_delivery_status_def update_rows_def image_iff intro!: bexI [of _ row])

subsection \<open>How a step changes what the tasks work on\<close>

text \<open>A task that moves on keeps its row; the rows of the other tasks are as before.\<close>

lemma active_set_task:
  "active (set_task t p s) t' row \<longleftrightarrow> (if t' = t then phase_row p = Some row else active s t' row)"
  by (auto simp: active_def)

lemma active_update [simp]:
  "active (s\<lparr>rows := rs\<rparr>) t row = active s t row" "active (s\<lparr>rows := rs, sent := xs\<rparr>) t row = active s t row"
  by (simp_all add: active_def)

lemma current_write:
  assumes "current s" "one_task_each s" "active s t row" "touches (rr_id row) (rows s) rs"
  shows "current (set_task t (Finished ok) (s\<lparr>rows := rs, sent := xs\<rparr>))"
proof -
  have "row' \<in> set rs" if "active s t' row'" "t' \<noteq> t" for t' row'
    using that assms unfolding current_def one_task_each_def touches_def by metis
  then show ?thesis
    using assms by (auto simp: current_def active_set_task touches_def)
qed

lemma one_task_write:
  "one_task_each s \<Longrightarrow> one_task_each (set_task t (Finished ok) (s\<lparr>rows := rs, sent := xs\<rparr>))"
  unfolding one_task_each_def active_set_task by (metis active_update(2) option.distinct(1) phase_row.simps(4))

lemma one_task_keep:
  "one_task_each s \<Longrightarrow> active s t row \<Longrightarrow> phase_row p = Some row \<Longrightarrow> one_task_each (set_task t p s)"
  unfolding one_task_each_def active_set_task by (metis option.inject)

lemma current_keep:
  "current s \<Longrightarrow> active s t row \<Longrightarrow> phase_row p = Some row \<Longrightarrow> current (set_task t p s)"
  unfolding current_def active_set_task by (metis option.inject rows_set_task(1))

lemma sent_delivered_write:
  assumes "sent_delivered s" "current s" "row \<in> set (rows s)" "rr_status row \<noteq> DELIVERED"
    "touches (rr_id row) (rows s) rs"
  shows "\<forall>r \<in> set (sent s). \<exists>row \<in> set rs. rr_id row = rr_id r \<and> rr_url row = rr_url r \<and> rr_status row = DELIVERED"
proof
  fix r
  assume "r \<in> set (sent s)"
  then obtain a where a: "a \<in> set (rows s)" "rr_id a = rr_id r" "rr_url a = rr_url r" "rr_status a = DELIVERED"
    using assms(1) by (auto simp: sent_delivered_def)
  then have "rr_id a \<noteq> rr_id row"
    using assms(2-4) same_id_same_row [of "rows s" a row] by (auto simp: current_def)
  with a assms(5) show "\<exists>row \<in> set rs. rr_id row = rr_id r \<and> rr_url row = rr_url r \<and> rr_status row = DELIVERED"
    by (auto simp: touches_def)
qed

subsection \<open>The invariant is kept\<close>

lemma load_resource_found: "load_resource rid rs = Some row \<Longrightarrow> row \<in> set rs \<and> rr_id row = rid"
  by (auto simp: load_resource_def find_Some_iff)

lemma safe_start:
  assumes "safe s" "tasks s t = None" "load_resource rid (rows s) = Some row" "\<not> working_on rid s"
  shows "safe (set_task t (Waiting row) s)"
proof -
  note row = load_resource_found [OF assms(3)]
  have free: "\<not> (\<exists>t' row'. active s t' row' \<and> rr_id row' = rr_id row)"
    using assms(4) row by (auto simp: working_on_def)
  have "exclusive (set_task t (Waiting row) s)"
    by (rule exclusive_keep [of s _ t "Waiting row"]) (use assms(1) in \<open>simp_all add: safe_def\<close>)
  moreover have "one_task_each (set_task t (Waiting row) s)"
    unfolding one_task_each_def active_set_task
  proof (intro allI impI)
    fix a b row1 row2
    assume "if a = t then phase_row (Waiting row) = Some row1 else active s a row1"
      "if b = t then phase_row (Waiting row) = Some row2 else active s b row2" "rr_id row1 = rr_id row2"
    then show "a = b"
      using assms(1) free by (cases "a = t"; cases "b = t") (auto simp: safe_def one_task_each_def)
  qed
  ultimately show ?thesis
    using assms(1) row
    by (auto simp: safe_def current_def active_set_task sent_delivered_def fresh_sending_def sent_distinct_def)
qed

lemma safe_keep:
  assumes "safe s" "active s t row" "phase_row p = Some row" "exclusive (set_task t p s)"
    "\<And>r. p = Sending r \<Longrightarrow> rr_status r \<noteq> DELIVERED \<and> (\<forall>x \<in> set (sent s). \<not> same_key x r)"
  shows "safe (set_task t p s)"
  using assms current_keep [OF _ assms(2,3)] one_task_keep [OF _ assms(2,3)]
  by (auto simp: safe_def sent_delivered_def fresh_sending_def sent_distinct_def)

lemma safe_settled:
  assumes "safe s" "tasks s t = Some (Holding row)" "check_before w row (rows s) = v"
    "settle now row v (rows s) = (ok, rs)"
    "exclusive (set_task t (Finished ok) (s\<lparr>rows := rs\<rparr>))"
  shows "safe (set_task t (Finished ok) (s\<lparr>rows := rs\<rparr>))"
proof -
  have act: "active s t row" using assms(2) by (simp add: active_def)
  have mem: "row \<in> set (rows s)" using assms(1) act by (auto simp: safe_def current_def)
  note tch = settle_touches [OF assms(4)]
  have "\<forall>r \<in> set (sent s). \<exists>row \<in> set rs. rr_id row = rr_id r \<and> rr_url row = rr_url r \<and> rr_status row = DELIVERED"
  proof (cases "rr_status row = DELIVERED")
    case True
    then show ?thesis
      using settle_delivered [OF assms(3) True assms(4)] assms(1) by (simp add: safe_def sent_delivered_def)
  next
    case False
    then show ?thesis
      using sent_delivered_write [OF _ _ mem False tch] assms(1) by (simp add: safe_def)
  qed
  moreover have "current (set_task t (Finished ok) (s\<lparr>rows := rs\<rparr>))"
    using current_write [OF _ _ act tch, where ok = ok and xs = "sent s"] assms(1) by (simp add: safe_def)
  moreover have "one_task_each (set_task t (Finished ok) (s\<lparr>rows := rs\<rparr>))"
    using one_task_write [where s = s and t = t and ok = ok and rs = rs and xs = "sent s"] assms(1) by (simp add: safe_def)
  ultimately show ?thesis
    using assms(1,5) by (auto simp: safe_def sent_delivered_def fresh_sending_def sent_distinct_def)
qed

lemma send_fresh:
  assumes "safe s" "tasks s t = Some (Holding row)" "check_before w row (rows s) = Send"
  shows "rr_status row \<noteq> DELIVERED \<and> (\<forall>x \<in> set (sent s). \<not> same_key x row)"
proof
  have none: "existing_effective_delivery row (rows s) = None" and st: "casefold (rr_status row) \<noteq> DELIVERED"
    using assms(3) by (auto simp: check_before_def split: if_splits option.splits)
  then show nd: "rr_status row \<noteq> DELIVERED" using casefold_DELIVERED by auto
  have "active s t row" using assms(2) by (simp add: active_def)
  then have mem: "row \<in> set (rows s)" using assms(1) by (auto simp: safe_def current_def)
  show "\<forall>x \<in> set (sent s). \<not> same_key x row"
  proof
    fix x
    assume "x \<in> set (sent s)"
    then obtain a where a: "a \<in> set (rows s)" "rr_id a = rr_id x" "rr_url a = rr_url x" "rr_status a = DELIVERED"
      using assms(1) by (auto simp: safe_def sent_delivered_def)
    then have "rr_id a \<noteq> rr_id row"
      using assms(1) mem nd same_id_same_row [of "rows s" a row] by (auto simp: safe_def current_def)
    then show "\<not> same_key x row"
      using existing_delivery_found [of row _ a "rows s"] none a unfolding same_key_def row_key_def by fastforce
  qed
qed

lemma sent_keys: "set (List.map_filter row_key xs) = {k. \<exists>r \<in> set xs. row_key r = Some k}"
  by (force simp: List.map_filter_def)

lemma safe_complete:
  assumes "safe s" "tasks s t = Some (Sending row)"
    "s' = set_task t (Finished ok)
          (s\<lparr>rows := update_resource_delivery_status now (rr_id row) ok message (rows s),
             sent := (if ok then row # sent s else sent s)\<rparr>)"
    "exclusive s'"
  shows "safe s'"
proof -
  let ?rs = "update_resource_delivery_status now (rr_id row) ok message (rows s)"
  let ?xs = "if ok then row # sent s else sent s"
  have act: "active s t row" using assms(2) by (simp add: active_def)
  have mem: "row \<in> set (rows s)" using assms(1) act by (auto simp: safe_def current_def)
  have fresh: "rr_status row \<noteq> DELIVERED" "\<forall>x \<in> set (sent s). \<not> same_key x row"
    using assms(1,2) by (auto simp: safe_def fresh_sending_def)
  note tch = touches_status [of "rr_id row" "rows s" now ok message]
  have cur: "current s'" "one_task_each s'"
    using current_write [OF _ _ act tch, where ok = ok and xs = ?xs]
      one_task_write [where s = s and t = t and ok = ok and rs = ?rs and xs = ?xs] assms(1)
    by (simp_all add: safe_def assms(3))
  have old: "\<forall>r \<in> set (sent s). \<exists>row \<in> set ?rs. rr_id row = rr_id r \<and> rr_url row = rr_url r \<and> rr_status row = DELIVERED"
    using sent_delivered_write [OF _ _ mem fresh(1) tch] assms(1) by (simp add: safe_def)
  then have del: "sent_delivered s'"
    using status_written [OF mem, of now message] by (auto simp: assms(3) sent_delivered_def)
  have sending: "fresh_sending s'"
    unfolding fresh_sending_def
  proof (intro allI impI conjI ballI)
    fix t' row' x
    assume "tasks s' t' = Some (Sending row')"
    then have t': "t' \<noteq> t" "tasks s t' = Some (Sending row')"
      by (auto simp: assms(3) split: if_splits)
    then show "rr_status row' \<noteq> DELIVERED"
      using assms(1) by (auto simp: safe_def fresh_sending_def)
    have other: "\<not> same_key row row'"
      using assms(1,2) t' unfolding same_key_def safe_def exclusive_def row_key_def by (metis locked_key.simps(2))
    assume "x \<in> set (sent s')"
    then show "\<not> same_key x row'"
      using other assms(1) t'(2) by (auto simp: assms(3) safe_def fresh_sending_def split: if_splits)
  qed
  have "sent_distinct s'"
    using assms(1) fresh(2)
    by (auto simp: assms(3) safe_def sent_distinct_def same_key_def List.map_filter_simps sent_keys split: option.split)
  with cur del sending assms(4) show ?thesis by (simp add: safe_def)
qed

lemma safe_step: "step True s s' \<Longrightarrow> safe s \<Longrightarrow> safe s'"
proof (induction rule: step.induct)
  case (start s t rid row)
  then show ?case by (auto intro: safe_start)
next
  case (acquire s t row)
  then have "exclusive (set_task t (Holding row) s)"
    using exclusive_step [OF step.acquire [OF acquire(1,2)]] by (simp add: safe_def)
  with acquire show ?case by (intro safe_keep [of s t row]) (simp_all add: active_def)
next
  case (settled s t row w v now ok rows')
  then have "exclusive (set_task t (Finished ok) (s\<lparr>rows := rows'\<rparr>))"
    using exclusive_step [OF step.settled [OF settled(1-4)]] by (simp add: safe_def)
  with settled show ?case by (intro safe_settled)
next
  case (send s t row w)
  then have "exclusive (set_task t (Sending row) s)"
    using exclusive_step [OF step.send [OF send(1,2)]] by (simp add: safe_def)
  with send send_fresh [OF send(3,1,2)] show ?case
    by (intro safe_keep [of s t row]) (simp_all add: active_def)
next
  case (complete s t row w ok message now)
  then show ?case
    using exclusive_step [OF step.complete [OF complete(1,2), where now = now]]
    by - (rule safe_complete [OF complete(3,1) refl], simp add: safe_def)
qed

lemma safe_run: "run True s s' \<Longrightarrow> safe s \<Longrightarrow> safe s'"
  by (induction rule: run.induct) (auto intro: safe_step)

lemma safe_initial: "distinct (map rr_id rs) \<Longrightarrow> safe (initial rs)"
  by (simp add: safe_def initial_def exclusive_def current_def active_def one_task_each_def sent_delivered_def
      fresh_sending_def sent_distinct_def List.map_filter_simps)

text \<open>Only rows with a key are sent successfully, so no key is sent twice.\<close>

lemma normalize_empty: "normalize_115_share_link [] = []"
  by (simp add: normalize_115_share_link_def py_defs re_eval re_pats chr_eval)

lemma perform_ok_key: "perform_delivery w row = (True, message) \<Longrightarrow> row_key row \<noteq> None"
proof -
  assume "perform_delivery w row = (True, message)"
  then have "normalized_delivery_url (rr_url row) \<noteq> []"
    by (auto simp: perform_delivery_def deliver_resource_url_def Let_def)
  then have "strip (rr_url row) \<noteq> []"
    by (auto simp: normalized_delivery_url_def or_str_def Let_def normalize_empty)
  then show ?thesis
    by (simp add: row_key_def resource_dedupe_key_def Let_def split: option.split)
qed

lemma sent_keyed_run: "run single s s' \<Longrightarrow> \<forall>r \<in> set (sent s). row_key r \<noteq> None \<Longrightarrow> \<forall>r \<in> set (sent s'). row_key r \<noteq> None"
proof (induction rule: run.induct)
  case (next_step s s' s'')
  from next_step(2) next_step(3) [OF next_step(4)] show ?case
    by (cases rule: step.cases) (auto dest: perform_ok_key split: if_splits)
qed simp

lemma distinct_keys:
  "distinct (List.map_filter f xs) \<Longrightarrow> \<forall>x \<in> set xs. f x \<noteq> None \<Longrightarrow> distinct (map f xs)"
  by (induction xs) (force simp: List.map_filter_simps List.map_filter_def split: option.splits)+

lemma run_single_distinct:
  assumes "run True (initial rs) s" "distinct (map rr_id rs)"
  shows "distinct (map row_key (sent s))"
proof (rule distinct_keys)
  show "distinct (List.map_filter row_key (sent s))"
    using safe_run [OF assms(1) safe_initial [OF assms(2)]] by (simp add: safe_def sent_distinct_def)
  show "\<forall>x \<in> set (sent s). row_key x \<noteq> None"
    using sent_keyed_run [OF assms(1)] by (simp add: initial_def)
qed

section \<open>One delivery alone is a run\<close>

lemma run_trans: "run single s s' \<Longrightarrow> run single s' s'' \<Longrightarrow> run single s s''"
  by (rotate_tac, induction rule: run.induct) (auto intro: run.next_step)

lemma run_step: "step single s s' \<Longrightarrow> run single s s'"
  by (rule run.next_step [OF run.stop])

lemma run_held:
  assumes "load_resource rid rs = Some row"
  shows "run single (initial rs) (set_task t (Holding row) (set_task t (Waiting row) (initial rs)))"
proof -
  let ?w = "set_task t (Waiting row) (initial rs)"
  have "step single (initial rs) ?w"
    by (rule step.start [of _ _ rid]) (simp_all add: initial_def assms working_on_def active_def)
  moreover have "step single ?w (set_task t (Holding row) ?w)"
    by (rule step.acquire) (auto simp: key_free_def initial_def split: if_splits)
  ultimately show ?thesis by (metis run.stop run.next_step)
qed

lemma deliver_resource_is_run:
  assumes "load_resource rid rs = Some row"
  obtains s where "run single (initial rs) s" "rows s = snd (deliver_resource w now rid rs)"
    "tasks s t = Some (Finished (fst (deliver_resource w now rid rs)))"
proof -
  let ?h = "set_task t (Holding row) (set_task t (Waiting row) (initial rs))"
  have h: "tasks ?h t = Some (Holding row)" "rows ?h = rs" by (simp_all add: initial_def)
  note held = run_held [OF assms, of single t]
  have loaded: "deliver_resource w now rid rs = deliver_resource_locked w now row rs"
    by (simp add: deliver_resource_def assms)
  show thesis
  proof (cases "check_before w row rs = Send")
    case True
    obtain ok m where p: "perform_delivery w row = (ok, m)" by fastforce
    let ?g = "set_task t (Sending row) ?h"
    have "step single ?h ?g" by (rule step.send [OF h(1), of w]) (simp only: h True)
    then have g: "run single (initial rs) ?g" using held by (metis run.next_step)
    have gt: "tasks ?g t = Some (Sending row)" by simp
    from run.next_step [OF g step.complete [OF gt p, where now = now]] show thesis
      by (rule that) (simp_all add: loaded deliver_resource_locked_def True p initial_def)
  next
    case False
    obtain ok rs' where st: "settle now row (check_before w row rs) rs = (ok, rs')" by fastforce
    have "deliver_resource_locked w now row rs = (ok, rs')"
      using False st by (auto simp: deliver_resource_locked_def split: verdict_before.split)
    moreover have "step single ?h (set_task t (Finished ok) (?h\<lparr>rows := rs'\<rparr>))"
      by (rule step.settled [OF h(1) refl, where w = w and now = now]) (simp_all only: h False st not_False_eq_True)
    ultimately show thesis
      using that [OF run.next_step [OF held]] by (simp add: loaded)
  qed
qed

lemma sent_once:
  assumes "load_resource rid rs = Some row" "check_before w row rs = Send" "perform_delivery w row = (True, message)"
  shows "\<exists>s. run single (initial rs) s \<and> sent s = [row]"
proof -
  let ?g = "set_task t (Sending row) (set_task t (Holding row) (set_task t (Waiting row) (initial rs)))"
  have "run single (initial rs) ?g"
    by (rule run.next_step [OF run_held [OF assms(1)] step.send [of _ _ row w]]) (simp_all add: initial_def assms(2))
  from run.next_step [OF this step.complete [of ?g t row w True message single now]] assms(3) show ?thesis
    by (auto simp: initial_def)
qed

section \<open>The same resource twice\<close>

text \<open>
  Two deliveries of one resource: both tasks load the row while it is pending.  The second one waits for
  the lock, but checks the row it loaded before, and sends the link again.
\<close>

lemma sent_twice:
  assumes "load_resource rid rs = Some row" "check_before w row rs = Send"
    "check_before w row (update_resource_delivery_status now rid True message rs) = Send"
    "perform_delivery w row = (True, message)" "rr_id row = rid"
  shows "\<exists>s. run False (initial rs) s \<and> sent s = [row, row]"
proof -
  let ?s1 = "set_task 1 (Waiting row) (set_task 0 (Waiting row) (initial rs))"
  have s1: "run False (initial rs) ?s1"
    by (rule run.next_step [OF run_step [OF step.start [of _ _ rid]] step.start [of _ _ rid]])
      (simp_all add: initial_def assms(1))
  let ?s2 = "set_task 0 (Sending row) (set_task 0 (Holding row) ?s1)"
  have s2: "run False (initial rs) ?s2"
    by (rule run.next_step [OF run.next_step [OF s1 step.acquire] step.send [of _ _ row w]])
      (auto simp: initial_def key_free_def assms(2) split: if_splits)
  let ?rs = "update_resource_delivery_status now rid True message rs"
  let ?s3 = "set_task 0 (Finished True) (?s2\<lparr>rows := ?rs, sent := [row]\<rparr>)"
  have "step False ?s2 ?s3"
    using step.complete [of ?s2 0 row w True message False now] assms(4,5) by (simp add: initial_def)
  then have s3: "run False (initial rs) ?s3" using s2 by (metis run.next_step)
  let ?s4 = "set_task 1 (Sending row) (set_task 1 (Holding row) ?s3)"
  have s4: "run False (initial rs) ?s4"
    by (rule run.next_step [OF run.next_step [OF s3 step.acquire] step.send [of _ _ row w]])
      (auto simp: initial_def key_free_def assms(3) split: if_splits)
  show ?thesis
    using run.next_step [OF s4 step.complete [of ?s4 1 row w True message False now]] assms(4)
    by (auto simp: initial_def)
qed

end
