(* ===== verification/Episode_Summary.thy ===== *)
theory Episode_Summary
  imports Episode_Explicit "HOL-Library.Product_Lexorder"
begin

text \<open>
  \<open>app/services/subscription/episode/summary.py\<close>: the labels of a set of episode keys, such as
  \<open>S01E03-E07\<close>, and the episode figures of a subscription.  Shown: the ranges behind the labels
  cover exactly the keys, they are maximal, and at most \<open>limit + 1\<close> labels are written.
\<close>

section \<open>Labels\<close>

text \<open>\<open>f"{n:02d}"\<close>\<close>

definition fmt02 :: "int \<Rightarrow> pystr" where
  "fmt02 n = (if n < 0 then int_str n else dec_str2 (nat n))"

definition range_label :: "int \<Rightarrow> int \<Rightarrow> int \<Rightarrow> pystr" where
  "range_label season start stop0 =
     (let stop = (if stop0 = 0 then start else stop0);
          first = [83] @ fmt02 season @ [69] @ fmt02 start
      in if start = stop then first else first @ [45, 69] @ fmt02 stop)"

fun run_ranges :: "int \<Rightarrow> int \<Rightarrow> int list \<Rightarrow> (int \<times> int) list" where
  "run_ranges start previous [] = [(start, previous)]"
| "run_ranges start previous (e # es) =
     (if e = previous + 1 then run_ranges start e es else (start, previous) # run_ranges e e es)"

fun season_ranges :: "int list \<Rightarrow> (int \<times> int) list" where
  "season_ranges [] = []"
| "season_ranges (e # es) = run_ranges e e es"

definition grouped :: "ekey list \<Rightarrow> (int \<times> int list) list" where
  "grouped ks = map (\<lambda>s. (s, map snd (filter (\<lambda>k. fst k = s) ks))) (remdups_adj (map fst ks))"

definition episode_ranges :: "ekey set \<Rightarrow> (int \<times> int \<times> int) list" where
  "episode_ranges keys =
     concat (map (\<lambda>(s, es). map (Pair s) (season_ranges es)) (grouped (sorted_list_of_set keys)))"

definition episode_range_labels :: "nat \<Rightarrow> ekey set \<Rightarrow> pystr list" where
  "episode_range_labels limit keys =
     (let labels = map (\<lambda>(s, a, b). range_label s a b) (episode_ranges keys) in
      if limit < length labels
      then take limit labels @ [[43] @ dec_str (length labels - limit)]
      else labels)"

record episode_snapshot =
  expected_count :: nat
  owned_count :: int
  missing_count :: nat
  missing_ranges :: "pystr list"

definition subscription_episode_snapshot :: "subscription \<Rightarrow> episode_snapshot option" where
  "subscription_episode_snapshot sub =
     (if media_type sub \<noteq> Tv then None
      else let owned = explicit_owned_keys sub; missing = missing_episode_keys sub in
        Some \<lparr>expected_count = card (all_tmdb_episode_keys sub),
              owned_count = (if card owned \<noteq> 0 then int (card owned) else emby_count sub),
              missing_count = card missing,
              missing_ranges = episode_range_labels 8 missing\<rparr>)"

section \<open>The ranges cover the keys\<close>

text \<open>What a list of ranges covers, and ranges that are sorted with a gap between neighbours\<close>

definition covered :: "(int \<times> int) list \<Rightarrow> int set" where
  "covered rs = (\<Union>(a, b) \<in> set rs. {a..b})"

fun separated :: "(int \<times> int) list \<Rightarrow> bool" where
  "separated [] = True"
| "separated [(a, b)] = (a \<le> b)"
| "separated ((a, b) # (c, d) # rs) = (a \<le> b \<and> b + 1 < c \<and> separated ((c, d) # rs))"

lemma covered_simps [simp]:
  "covered [] = {}" "covered ((a, b) # rs) = {a..b} \<union> covered rs"
  by (simp_all add: covered_def)

lemma run_ranges_covered:
  "sorted_wrt (<) (p # es) \<Longrightarrow> a \<le> p \<Longrightarrow> covered (run_ranges a p es) = {a..p} \<union> set es"
proof (induction es arbitrary: a p)
  case (Cons e es)
  show ?case
  proof (cases "e = p + 1")
    case True
    then have "{a..e} = {a..p} \<union> {e}" using Cons.prems by auto
    then show ?thesis
      using Cons.IH [of e a] Cons.prems True by auto
  next
    case False
    then show ?thesis
      using Cons.IH [of e e] Cons.prems by auto
  qed
qed simp

lemma run_ranges_separated:
  "sorted_wrt (<) (p # es) \<Longrightarrow> a \<le> p \<Longrightarrow>
     separated (run_ranges a p es) \<and> (\<exists>b rs. run_ranges a p es = (a, b) # rs)"
proof (induction es arbitrary: a p)
  case (Cons e es)
  show ?case
  proof (cases "e = p + 1")
    case True
    then show ?thesis
      using Cons.IH [of e a] Cons.prems by auto
  next
    case False
    then have "p + 1 < e" using Cons.prems by auto
    moreover obtain b rs where "run_ranges e e es = (e, b) # rs" "separated ((e, b) # rs)"
      using Cons.IH [of e e] Cons.prems by auto
    ultimately show ?thesis
      using Cons.prems False by simp
  qed
qed simp

lemma season_ranges_covered: "sorted_wrt (<) es \<Longrightarrow> covered (season_ranges es) = set es"
  by (cases es) (simp_all add: run_ranges_covered)

lemma season_ranges_separated: "sorted_wrt (<) es \<Longrightarrow> separated (season_ranges es)"
  by (cases es) (simp_all add: run_ranges_separated)

lemma strict_sorted_season:
  "sorted_wrt (<) (ks :: ekey list) \<Longrightarrow> sorted_wrt (<) (map snd (filter (\<lambda>k. fst k = s) ks))"
  by (induction ks) (auto simp: less_prod_def)

lemma separated_season:
  "finite keys \<Longrightarrow> (s, es) \<in> set (grouped (sorted_list_of_set keys)) \<Longrightarrow>
     sorted_wrt (<) es \<and> set es = {e. (s, e) \<in> keys}"
  using strict_sorted_season [OF strict_sorted_list_of_set, of s keys]
  by (force simp: grouped_def)

lemma grouped_mem:
  assumes "finite keys"
  shows "(\<exists>es. (s, es) \<in> set (grouped (sorted_list_of_set keys)) \<and> e \<in> set es) \<longleftrightarrow> (s, e) \<in> keys"
proof
  assume "(s, e) \<in> keys"
  then have "(s, map snd (filter (\<lambda>k. fst k = s) (sorted_list_of_set keys))) \<in> set (grouped (sorted_list_of_set keys))"
    "e \<in> set (map snd (filter (\<lambda>k. fst k = s) (sorted_list_of_set keys)))"
    using assms by (force simp: grouped_def)+
  then show "\<exists>es. (s, es) \<in> set (grouped (sorted_list_of_set keys)) \<and> e \<in> set es"
    by blast
qed (use separated_season [OF assms] in blast)

lemma episode_ranges_cover:
  assumes "finite keys"
  shows "(\<Union>(s, a, b) \<in> set (episode_ranges keys). keys_upto s a b) = keys"
proof -
  have "key \<in> keys \<longleftrightarrow> (\<exists>(s, a, b) \<in> set (episode_ranges keys). key \<in> keys_upto s a b)" for key
  proof -
    let ?g = "set (grouped (sorted_list_of_set keys))"
    obtain s e where key: "key = (s, e)" by fastforce
    have "(\<exists>(s', a, b) \<in> set (episode_ranges keys). key \<in> keys_upto s' a b) \<longleftrightarrow>
        (\<exists>es. (s, es) \<in> ?g \<and> e \<in> covered (season_ranges es))"
      by (force simp: episode_ranges_def key covered_def)
    also have "\<dots> \<longleftrightarrow> (\<exists>es. (s, es) \<in> ?g \<and> e \<in> set es)"
      using separated_season [OF assms] season_ranges_covered by metis
    also have "\<dots> \<longleftrightarrow> key \<in> keys"
      by (simp add: grouped_mem [OF assms] key)
    finally show ?thesis by simp
  qed
  then show ?thesis by force
qed

lemma labels_bounded: "length (episode_range_labels limit keys) \<le> limit + 1"
  by (simp add: episode_range_labels_def Let_def)

end
