(* ===== verification/Episode_Roundtrip.thy ===== *)
theory Episode_Roundtrip
  imports Episode_Summary
begin

text \<open>
  The labels of \<open>episode/summary.py\<close> read back by \<open>episode/explicit.py\<close>: a label such as
  \<open>S02E03-E117\<close> parses to exactly the keys of its range.  The patterns are run on a text whose digits
  are variables, so the classes of a digit and of the three other characters are facts of their own.
\<close>

definition dig :: "nat \<Rightarrow> bool" where
  "dig c \<longleftrightarrow> 48 \<le> c \<and> c \<le> 57"

lemma dig_classes:
  assumes "dig c"
  shows "is_space c = False" "is_decimal c = True" "digit_value c = Some (c - 48)" "dot_sep c = False"
    "not_space c = True" "ascii_alnum_i c = True" "share_path_char c = True" "url_query_char c = True"
    "is_word c = True" "re_lower c = c" "not_newline c = True" "ascii_letter_i c = False"
    "is_digit c = True"
  using assms by (auto simp: dig_def chr_eval)

lemma dig_neq: "dig c \<Longrightarrow> p < 48 \<or> 57 < p \<Longrightarrow> (c = p) = False"
  by (auto simp: dig_def)

lemma label_classes:
  "is_space 83 = False" "is_decimal 83 = False" "dot_sep 83 = False" "not_space 83 = True"
  "ascii_alnum_i 83 = True" "share_path_char 83 = True" "url_query_char 83 = True" "is_word 83 = True"
  "re_lower 83 = 115" "not_newline 83 = True" "ascii_letter_i 83 = True"
  "is_space 69 = False" "is_decimal 69 = False" "dot_sep 69 = False" "not_space 69 = True"
  "ascii_alnum_i 69 = True" "share_path_char 69 = True" "url_query_char 69 = True" "is_word 69 = True"
  "re_lower 69 = 101" "not_newline 69 = True" "ascii_letter_i 69 = True"
  "is_space 45 = False" "is_decimal 45 = False" "dot_sep 45 = True" "not_space 45 = True"
  "ascii_alnum_i 45 = False" "share_path_char 45 = True" "url_query_char 45 = True" "is_word 45 = False"
  "re_lower 45 = 45" "not_newline 45 = True" "ascii_letter_i 45 = False"
  by (simp_all add: chr_eval)

lemmas label_eval = dig_classes dig_neq label_classes is_chr_def is_chr_i_def episode_defs

text \<open>What the first three readers find in a label\<close>

definition label_read :: "pystr \<Rightarrow> ekey set \<Rightarrow> bool" where
  "label_read s keys \<longleftrightarrow> episode_parse_text s = s \<and> episodes_from_update_text s = {}
     \<and> episodes_from_cn_season_text s = {} \<and> episodes_from_dotted_episode_text s = keys"

lemma label_read_wins: "label_read s keys \<Longrightarrow> keys \<noteq> {} \<Longrightarrow> episodes_from_text s = keys"
  by (simp add: label_read_def episodes_from_text_def or_keys_def)

lemma label_read_1_2:
  assumes "dig a" "dig b" "dig c" "dig d"
  shows "label_read [83, a, b, 69, c, d]
     (expand_episode_range (Some (int (10 * (a - 48) + (b - 48)))) (int (10 * (c - 48) + (d - 48)))
       (Some (int (10 * (c - 48) + (d - 48)))))"
  using assms by (simp add: label_read_def label_eval mult.commute cong: episode_congs)

lemma label_read_1_3:
  assumes "dig a" "dig b" "dig c" "dig d" "dig e"
  shows "label_read [83, a, b, 69, c, d, e]
     (expand_episode_range (Some (int (10 * (a - 48) + (b - 48)))) (int (100 * (c - 48) + 10 * (d - 48) + (e - 48)))
       (Some (int (100 * (c - 48) + 10 * (d - 48) + (e - 48)))))"
  using assms by (simp add: label_read_def label_eval mult.commute cong: episode_congs)

lemma label_read_22:
  assumes "dig a" "dig b" "dig c" "dig d" "dig e" "dig f"
  shows "label_read [83, a, b, 69, c, d, 45, 69, e, f]
     (expand_episode_range (Some (int (10 * (a - 48) + (b - 48)))) (int (10 * (c - 48) + (d - 48)))
       (Some (int (10 * (e - 48) + (f - 48)))))"
  using assms by (simp add: label_read_def label_eval mult.commute cong: episode_congs)

lemma label_read_23:
  assumes "dig a" "dig b" "dig c" "dig d" "dig e" "dig f" "dig g"
  shows "label_read [83, a, b, 69, c, d, 45, 69, e, f, g]
     (expand_episode_range (Some (int (10 * (a - 48) + (b - 48)))) (int (10 * (c - 48) + (d - 48)))
       (Some (int (100 * (e - 48) + 10 * (f - 48) + (g - 48)))))"
  using assms by (simp add: label_read_def label_eval mult.commute cong: episode_congs)

lemma label_read_33:
  assumes "dig a" "dig b" "dig c" "dig d" "dig e" "dig f" "dig g" "dig h"
  shows "label_read [83, a, b, 69, c, d, e, 45, 69, f, g, h]
     (expand_episode_range (Some (int (10 * (a - 48) + (b - 48)))) (int (100 * (c - 48) + 10 * (d - 48) + (e - 48)))
       (Some (int (100 * (f - 48) + 10 * (g - 48) + (h - 48)))))"
  using assms by (simp add: label_read_def label_eval mult.commute cong: episode_congs)

text \<open>A number below 100, or below 1000, as its digits\<close>

lemma dig_digit [simp]: "n < 10 \<Longrightarrow> dig (48 + n)"
  by (simp add: dig_def)

lemma dec_str_step: "dec_str n = (if n < 10 then [48 + n] else dec_str (n div 10) @ [48 + n mod 10])"
  by (subst dec_str.simps) simp

lemma fmt02_two:
  assumes "0 \<le> n" "n < 100"
  shows "fmt02 n = [48 + nat n div 10, 48 + nat n mod 10]"
proof -
  have "nat n div 10 < 10" using assms by auto
  then show ?thesis
    using assms by (simp add: fmt02_def dec_str2_def dec_str_step [of "nat n"] dec_str_step [of "nat n div 10"])
qed

lemma fmt02_three:
  assumes "100 \<le> n" "n < 1000"
  shows "fmt02 n = [48 + nat n div 100, 48 + nat n div 10 mod 10, 48 + nat n mod 10]"
proof -
  have "100 \<le> nat n" "nat n < 1000" using assms by auto
  then have "nat n div 10 div 10 = nat n div 100" "nat n div 10 \<ge> 10" "nat n div 100 < 10"
    by (auto simp: div_mult2_eq [symmetric])
  with \<open>100 \<le> nat n\<close> assms show ?thesis
    by (simp add: fmt02_def dec_str2_def dec_str_step [of "nat n"] dec_str_step [of "nat n div 10"]
        dec_str_step [of "nat n div 100"])
qed

lemma digits_2: "10 * (n div 10) + n mod 10 = (n::nat)"
  by simp

lemma digits_3: "100 * (n div 100) + 10 * (n div 10 mod 10) + n mod 10 = (n::nat)"
proof -
  have "n div 10 = 10 * (n div 100) + n div 10 mod 10"
    using digits_2 [of "n div 10"] by (simp add: div_mult2_eq [symmetric])
  then show ?thesis using digits_2 [of n] by linarith
qed

lemma range_label_read:
  assumes "0 < s" "s < 100" "0 < a" "a \<le> b" "b < 1000"
  shows "label_read (range_label s a b) (expand_episode_range (Some s) a (Some b))"
proof -
  have bounds: "nat s < 100" "nat a < 1000" "nat b < 1000" "nat a \<le> nat b" using assms by auto
  note two = fmt02_two digits_2 and three = fmt02_three digits_3
  consider "a = b" "b < 100" | "a = b" "100 \<le> b" | "a < b" "b < 100"
    | "a < b" "a < 100" "100 \<le> b" | "a < b" "100 \<le> a" "100 \<le> b"
    using assms by linarith
  then show ?thesis
  proof cases
    case 1
    then show ?thesis
      using label_read_1_2 [of "48 + nat s div 10" "48 + nat s mod 10" "48 + nat a div 10" "48 + nat a mod 10"]
        assms bounds by (simp add: range_label_def two)
  next
    case 2
    then show ?thesis
      using label_read_1_3 [of "48 + nat s div 10" "48 + nat s mod 10" "48 + nat a div 100"
          "48 + nat a div 10 mod 10" "48 + nat a mod 10"]
        assms bounds by (simp add: range_label_def two three)
  next
    case 3
    then show ?thesis
      using label_read_22 [of "48 + nat s div 10" "48 + nat s mod 10" "48 + nat a div 10" "48 + nat a mod 10"
          "48 + nat b div 10" "48 + nat b mod 10"]
        assms bounds by (simp add: range_label_def two)
  next
    case 4
    then show ?thesis
      using label_read_23 [of "48 + nat s div 10" "48 + nat s mod 10" "48 + nat a div 10" "48 + nat a mod 10"
          "48 + nat b div 100" "48 + nat b div 10 mod 10" "48 + nat b mod 10"]
        assms bounds by (simp add: range_label_def two three)
  next
    case 5
    then show ?thesis
      using label_read_33 [of "48 + nat s div 10" "48 + nat s mod 10" "48 + nat a div 100"
          "48 + nat a div 10 mod 10" "48 + nat a mod 10"
          "48 + nat b div 100" "48 + nat b div 10 mod 10" "48 + nat b mod 10"]
        assms bounds by (simp add: range_label_def two three)
  qed
qed

end
