(* ===== verification/Share_Status.thy ===== *)
theory Share_Status
  imports Py_Prelude Expiring_Cache
begin

text \<open>
  \<open>app/services/adapters/pan115_share_status.py\<close> and the probe of \<open>pan115_share.py\<close>: the verdict on a
  115 share link from the service's reply, and the cache of verdicts.  Shown: every verdict is one
  of the five statuses, a reply that says success is "available", a request that failed on the way
  never makes a share "unavailable", and the cache keeps the contract of \<open>expiring_cache\<close>.
\<close>

section \<open>Verdicts\<close>

datatype share_state = Available | Unavailable | Unknown | Auth_Required | Rate_Limited

record share =
  share_status :: share_state
  share_reason :: pystr
  share_cached :: bool
  share_message :: pystr

abbreviation verdict :: "share_state \<Rightarrow> pystr \<Rightarrow> pystr \<Rightarrow> share" where
  "verdict st reason message \<equiv>
     \<lparr>share_status = st, share_reason = reason, share_cached = False, share_message = message\<rparr>"

definition legacy_status :: "share \<Rightarrow> share_state" where
  "legacy_status s =
     (if share_status s = Available then Available
      else if share_status s = Unavailable then Unavailable else Unknown)"

definition CACHE_TTL :: "share_state \<Rightarrow> time" where
  "CACHE_TTL st =
     (case st of Available \<Rightarrow> 600 | Unavailable \<Rightarrow> 3600 | Auth_Required \<Rightarrow> 120 | Rate_Limited \<Rightarrow> 60 | Unknown \<Rightarrow> 45)"

definition UNAVAILABLE_ERRNOS :: "int list" where
  "UNAVAILABLE_ERRNOS = [4100001, 4100002, 4100003, 4100004, 4100005, 4100008, 4100010, 4100013]"

definition AUTH_ERRNOS :: "int list" where
  "AUTH_ERRNOS = [99, 401, 40101007, 40101010, 40101017]"

definition RATE_ERRNOS :: "int list" where
  "RATE_ERRNOS = [429, 911, 990001]"

definition UNAVAILABLE_WORDS :: "pystr list" where
  "UNAVAILABLE_WORDS = [[0x4E0D, 0x5B58, 0x5728], [0x53D6, 0x6D88], [0x8FC7, 0x671F], [0x5931,
    0x6548], [0x63D0, 0x53D6, 0x7801], [0x8BBF, 0x95EE, 0x7801], [0x9519, 0x8BEF],
      (u ''invalid''), (u ''expired''), (u ''not found''), (u ''not exist''), (u ''share not found'')]"

definition PASSWORD_WORDS :: "pystr list" where
  "PASSWORD_WORDS = [[0x63D0, 0x53D6, 0x7801], [0x8BBF, 0x95EE, 0x7801], (u ''password''),
    (u ''receive_code''), (u ''pwd'')]"

definition EXPIRED_WORDS :: "pystr list" where
  "EXPIRED_WORDS = [[0x8FC7, 0x671F], [0x5931, 0x6548], (u ''expired'')]"

definition CANCELLED_WORDS :: "pystr list" where
  "CANCELLED_WORDS = [[0x53D6, 0x6D88], (u ''cancelled''), (u ''canceled'')]"

definition AUTH_WORDS :: "pystr list" where
  "AUTH_WORDS = [[0x767B, 0x5F55], [0x767B, 0x9646], [0x672A, 0x767B, 0x5F55], (u ''cookie''),
    [0x8BF7, 0x5148, 0x767B, 0x5F55], [0x91CD, 0x65B0, 0x767B, 0x5F55], (u ''unauthorized''),
      (u ''auth'')]"

definition RATE_WORDS :: "pystr list" where
  "RATE_WORDS = [[0x9891, 0x7E41], [0x9650, 0x6D41], [0x7A0D, 0x540E], (u ''too many''),
    (u ''rate''), (u ''busy'')]"

definition WRONG_WORDS :: "pystr list" where
  "WRONG_WORDS = [[0x9519, 0x8BEF], [0x4E0D, 0x6B63, 0x786E], [0x65E0, 0x6548], (u ''invalid''),
    (u ''wrong''), (u ''error'')]"

definition MISSING_WORDS :: "pystr list" where
  "MISSING_WORDS = [[0x4E0D, 0x5B58, 0x5728], (u ''not found''), (u ''not exist''),
    (u ''share not found'')]"

definition any_word :: "pystr list \<Rightarrow> pystr \<Rightarrow> bool" where
  "any_word ws s = list_ex (\<lambda>w. contains w s) ws"

section \<open>Reading a payload\<close>

text \<open>
  \<open>str(a or b or ...)\<close> of the message fields; a message that is a number is written in decimal, other
  types do not occur
\<close>

definition message_str :: "pyval \<Rightarrow> pystr" where
  "message_str v = (case v of PStr s \<Rightarrow> s | PInt i \<Rightarrow> int_str i | PBool b \<Rightarrow> (if b then (u ''True'') else (u ''False'')) | _ \<Rightarrow> [])"

definition first_truthy :: "pyval \<Rightarrow> pystr list \<Rightarrow> pyval" where
  "first_truthy payload keys = foldr (\<lambda>k v. por (pget payload k) v) keys (PStr [])"

definition payload_message :: "pyval \<Rightarrow> pystr" where
  "payload_message payload = message_str (first_truthy payload (map u [''message'', ''msg'', ''error'', ''errno_msg'', ''err_msg'']))"

fun first_errno :: "pyval \<Rightarrow> pystr list \<Rightarrow> int option" where
  "first_errno payload [] = None"
| "first_errno payload (k # ks) =
     (let v = pget payload k in
      if v = PNone \<or> v = PStr [] then first_errno payload ks
      else case int_of_val v of Some n \<Rightarrow> Some n | None \<Rightarrow> first_errno payload ks)"

definition payload_errno :: "pyval \<Rightarrow> int option" where
  "payload_errno payload = first_errno payload (map u [''errno'', ''errcode'', ''code'', ''error_code''])"

text \<open>\<open>v == 0\<close>\<close>

definition eq_zero :: "pyval \<Rightarrow> bool" where
  "eq_zero v = (case v of PInt i \<Rightarrow> i = 0 | PBool b \<Rightarrow> \<not> b | PFloat m e \<Rightarrow> m = 0 | _ \<Rightarrow> False)"

definition has_share_data :: "pyval \<Rightarrow> bool" where
  "has_share_data payload =
     (let data = pget payload (u ''data'') in
      is_pdict data
      \<and> (list_ex (\<lambda>k. case pget data k of PList xs \<Rightarrow> xs \<noteq> [] | _ \<Rightarrow> False) (map u [''list'', ''share_list'', ''file_list'', ''items''])
         \<or> (case int_of_val (pget data (u ''count'')) of Some n \<Rightarrow> 0 < n | None \<Rightarrow> False)
         \<or> list_ex (\<lambda>k. let v = pget data k in \<not> (v = PNone \<or> v = PStr [] \<or> eq_zero v \<or> v = PStr (u ''0'')))
             (map u [''share_title'', ''total_size'', ''file_size'', ''snap_id'', ''user_id''])))"

text \<open>\<open>f"errno={errno}"\<close>\<close>

definition errno_text :: "int option \<Rightarrow> pystr" where
  "errno_text e = (u ''errno='') @ (case e of None \<Rightarrow> (u ''None'') | Some n \<Rightarrow> int_str n)"

definition or_text :: "pystr \<Rightarrow> pystr \<Rightarrow> pystr" where
  "or_text a b = (if a = [] then b else a)"

definition in_errnos :: "int list \<Rightarrow> int option \<Rightarrow> bool" where
  "in_errnos ns e = (case e of None \<Rightarrow> False | Some n \<Rightarrow> n \<in> set ns)"

definition hard_reason :: "pystr \<Rightarrow> pystr" where
  "hard_reason message_fold =
     (if any_word PASSWORD_WORDS message_fold then (u ''password_error'')
      else if any_word EXPIRED_WORDS message_fold then (u ''expired'')
      else if any_word CANCELLED_WORDS message_fold then (u ''cancelled'')
      else (u ''not_found''))"

definition payload_ok :: "pyval \<Rightarrow> bool" where
  "payload_ok payload =
     (pget payload (u ''state'') = PBool True \<or> payload_errno payload = Some 0
      \<or> eq_zero (pget payload (u ''errcode'')) \<or> eq_zero (pget payload (u ''code'')))"

definition classify_share_payload :: "pyval \<Rightarrow> share" where
  "classify_share_payload payload =
     (if \<not> is_pdict payload then verdict Unknown (u ''parse_error'') (u ''non-dict payload'')
      else
        let message = payload_message payload;
            message_fold = casefold message;
            errno = payload_errno payload;
            state = pget payload (u ''state'')
        in
          if payload_ok payload then
            (if has_share_data payload \<or> state = PBool True \<or> errno = Some 0
             then verdict Available (u ''ok'') message
             else verdict Available (u ''ok'') (or_text message (u ''empty data accepted by state/errno'')))
          else if in_errnos AUTH_ERRNOS errno \<or> any_word AUTH_WORDS message_fold
          then verdict Auth_Required (u ''cookie_invalid'') message
          else if in_errnos RATE_ERRNOS errno \<or> any_word RATE_WORDS message_fold
          then verdict Rate_Limited (u ''rate_limited'') message
          else if in_errnos UNAVAILABLE_ERRNOS errno
          then verdict Unavailable (hard_reason message_fold) message
          else if any_word PASSWORD_WORDS message_fold \<and> any_word WRONG_WORDS message_fold
          then verdict Unavailable (u ''password_error'') message
          else if any_word EXPIRED_WORDS message_fold then verdict Unavailable (u ''expired'') message
          else if any_word CANCELLED_WORDS message_fold then verdict Unavailable (u ''cancelled'') message
          else if any_word MISSING_WORDS message_fold then verdict Unavailable (u ''not_found'') message
          else if any_word UNAVAILABLE_WORDS message_fold then verdict Unavailable (u ''not_found'') message
          else if state = PBool False \<and> errno \<notin> {None, Some 0} \<and> \<not> has_share_data payload
          then verdict Unavailable (u ''not_found'') (or_text message (errno_text errno))
          else verdict Unknown (u ''parse_error'') (or_text message (errno_text errno)))"

definition share_available_payload :: "pyval \<Rightarrow> bool" where
  "share_available_payload payload = (share_status (classify_share_payload payload) = Available)"

section \<open>The cache of verdicts\<close>

type_synonym share_cache = "(pystr \<times> (time \<times> share)) list"

definition cache_key_for_link :: "pystr \<Rightarrow> pystr option \<Rightarrow> pystr" where
  "cache_key_for_link share_code receive_code =
     casefold share_code @ [124] @ casefold (case receive_code of None \<Rightarrow> [] | Some c \<Rightarrow> c)"

definition cache_get :: "time \<Rightarrow> pystr \<Rightarrow> share_cache \<Rightarrow> share option \<times> share_cache" where
  "cache_get now key cache =
     (case map_of cache key of
        None \<Rightarrow> (None, cache)
      | Some (expires_at, value) \<Rightarrow>
          if expires_at \<le> now then (None, dict_pop key cache)
          else (Some (value\<lparr>share_cached := True\<rparr>), cache))"

definition evict_oldest :: "share_cache \<Rightarrow> share_cache" where
  "evict_oldest cache =
     fold (\<lambda>item c. dict_pop (fst item) c) (take 200 (sort_key (fst \<circ> snd) cache)) cache"

definition cache_set :: "time \<Rightarrow> pystr \<Rightarrow> share \<Rightarrow> share_cache \<Rightarrow> share \<times> share_cache" where
  "cache_set now key value cache =
     (let stored = value\<lparr>share_cached := False\<rparr>;
          grown = dict_set key (now + CACHE_TTL (share_status value), stored) cache
      in (stored, if 2048 < length grown then evict_oldest grown else grown))"

section \<open>The probe\<close>

text \<open>How the request for the share's snapshot ended, with the text of the exception where there is one\<close>

datatype reply =
    Malformed_Link pystr
  | Request_Failed pystr
  | Reply_Status int
  | Reply_Not_Json pystr
  | Reply_Payload pyval

definition reply_verdict :: "reply \<Rightarrow> share" where
  "reply_verdict r =
     (case r of
        Malformed_Link e \<Rightarrow> verdict Unavailable (u ''invalid_link'') e
      | Request_Failed e \<Rightarrow> verdict Unknown (u ''network_error'') e
      | Reply_Status st \<Rightarrow>
          if st = 404 \<or> st = 410 then verdict Unavailable (u ''not_found'') ((u ''http='') @ int_str st)
          else if st = 429 then verdict Rate_Limited (u ''rate_limited'') (u ''http=429'')
          else if 500 \<le> st then verdict Unknown (u ''server_error'') ((u ''http='') @ int_str st)
          else verdict Unknown (u ''http_error'') ((u ''http='') @ int_str st)
      | Reply_Not_Json e \<Rightarrow> verdict Unknown (u ''parse_error'') e
      | Reply_Payload payload \<Rightarrow> classify_share_payload (if is_pdict payload then payload else PDict []))"

text \<open>
  \<open>probe_share_availability\<close>.  \<open>Reply_Status\<close> is a status of at least 400, the other statuses are
  payloads.  \<open>haisou trigger\<close> is the answer of the second service, \<^const>\<open>None\<close> when it is not
  configured; only the replies with a payload are checked with it.
\<close>

definition second_opinion :: "(pystr \<Rightarrow> share option) \<Rightarrow> reply \<Rightarrow> share \<Rightarrow> share" where
  "second_opinion haisou r result =
     (case r of
        Reply_Payload _ \<Rightarrow>
          (case share_status result of
             Unavailable \<Rightarrow>
               (case haisou ((u ''hard_unavailable:'') @ share_reason result) of
                  Some fallback \<Rightarrow>
                    if share_status fallback = Available \<or> share_status fallback = Unknown then fallback else result
                | None \<Rightarrow> result)
           | Auth_Required \<Rightarrow> (case haisou (u ''cookie_invalid'') of Some fallback \<Rightarrow> fallback | None \<Rightarrow> result)
           | _ \<Rightarrow> result)
      | _ \<Rightarrow> result)"

definition probe_share_availability ::
    "time \<Rightarrow> pystr \<Rightarrow> pystr \<Rightarrow> pystr option \<Rightarrow> bool \<Rightarrow> reply \<Rightarrow> (pystr \<Rightarrow> share option) \<Rightarrow> share_cache
     \<Rightarrow> share \<times> share_cache" where
  "probe_share_availability now clean_link share_code receive_code has_cookie r haisou cache =
     (if clean_link = [] \<or> share_code = [] then (verdict Unavailable (u ''invalid_link'') [], cache)
      else
        let key = cache_key_for_link share_code receive_code in
        case cache_get now key cache of
          (Some cached, cache) \<Rightarrow> (cached, cache)
        | (None, cache) \<Rightarrow>
            if \<not> has_cookie then
              (case haisou (u ''cookie_missing'') of
                 Some fallback \<Rightarrow> cache_set now key fallback cache
               | None \<Rightarrow> cache_set now key (verdict Auth_Required (u ''cookie_missing'') []) cache)
            else cache_set now key (second_opinion haisou r (reply_verdict r)) cache)"

section \<open>Facts on the verdict\<close>

lemma classify_ok: "is_pdict p \<Longrightarrow> payload_ok p \<Longrightarrow> share_status (classify_share_payload p) = Available"
  by (simp add: classify_share_payload_def Let_def)

lemma classify_available_iff: "share_status (classify_share_payload p) = Available \<longleftrightarrow> is_pdict p \<and> payload_ok p"
  by (simp add: classify_share_payload_def Let_def)

lemma failed_request_not_unavailable:
  "share_status (reply_verdict (Request_Failed e)) = Unknown"
  "share_status (reply_verdict (Reply_Not_Json e)) = Unknown"
  "500 \<le> st \<Longrightarrow> share_status (reply_verdict (Reply_Status st)) = Unknown"
  by (simp_all add: reply_verdict_def)

section \<open>Facts on the cache\<close>

definition cache_lookup :: "time \<Rightarrow> pystr \<Rightarrow> share_cache \<Rightarrow> share option" where
  "cache_lookup now key cache = fst (cache_get now key cache)"

definition cache_store :: "time \<Rightarrow> pystr \<Rightarrow> share \<Rightarrow> share_cache \<Rightarrow> share_cache" where
  "cache_store now key value cache = snd (cache_set now key value cache)"

definition cache_room :: "nat \<Rightarrow> share_cache \<Rightarrow> bool" where
  "cache_room n cache \<longleftrightarrow> length cache + n \<le> 2048"

lemma cache_store_room: "cache_room (Suc n) c \<Longrightarrow>
    cache_store now k v c = dict_set k (now + CACHE_TTL (share_status v), v\<lparr>share_cached := False\<rparr>) c"
  using length_dict_set [of k "(now + CACHE_TTL (share_status v), v\<lparr>share_cached := False\<rparr>)" c]
  by (simp add: cache_store_def cache_set_def cache_room_def Let_def)

interpretation shares: expiring_cache cache_lookup cache_store "CACHE_TTL \<circ> share_status"
  "\<lambda>v. v\<lparr>share_cached := True\<rparr>" cache_room
proof (unfold_locales, goal_cases)
  case (1 n c t now v k)
  then show ?case
    by (simp add: cache_store_room cache_lookup_def cache_get_def update_conv not_le)
next
  case (2 n c k' k t now v)
  then show ?case
    by (simp add: cache_store_room cache_lookup_def cache_get_def update_conv split: option.splits)
next
  case (3 n c now v t k)
  then show ?case
    by (simp add: cache_store_room cache_lookup_def cache_get_def update_conv)
next
  case (4 n c now k v)
  then show ?case
    using length_dict_set [of k "(now + CACHE_TTL (share_status v), v\<lparr>share_cached := False\<rparr>)" c]
    by (simp add: cache_store_room cache_room_def)
qed

lemma pop_all_filter: "fold (\<lambda>item c. dict_pop (fst item) c) xs c = filter (\<lambda>(k, _). k \<notin> fst ` set xs) c"
  by (induction xs arbitrary: c) (auto simp: AList.delete_eq case_prod_unfold intro!: filter_cong)

lemma length_filter_keys:
  assumes "distinct (map fst c)" "set xs \<subseteq> set c" "distinct xs"
  shows "length (filter (\<lambda>(k, _). k \<notin> fst ` set xs) c) = length c - length xs"
proof -
  have dc: "distinct c" using assms(1) by (simp add: distinct_map)
  have key: "k \<in> fst ` set xs \<longleftrightarrow> (k, v) \<in> set xs" if "(k, v) \<in> set c" for k v
    using that assms(1,2) by (force simp: distinct_map inj_on_def)
  then have "filter (\<lambda>(k, _). k \<notin> fst ` set xs) c = filter (\<lambda>x. x \<notin> set xs) c"
    by (intro filter_cong) auto
  also have "length \<dots> = card (set c - set xs)"
    using dc by (simp add: distinct_card [symmetric] set_diff_eq)
  also have "\<dots> = length c - length xs"
    using assms dc by (simp add: card_Diff_subset distinct_card)
  finally show ?thesis .
qed

lemma evict_oldest_props:
  fixes c :: share_cache
  defines "s \<equiv> sort_key (fst \<circ> snd) c"
  shows "set (take 200 s) \<subseteq> set c" "distinct (map fst c) \<Longrightarrow> distinct (take 200 s)"
    "evict_oldest c = filter (\<lambda>(k, _). k \<notin> fst ` set (take 200 s)) c"
proof -
  show "set (take 200 s) \<subseteq> set c"
    unfolding s_def using set_take_subset [of 200 "sort_key (fst \<circ> snd) c"] by simp
  show "distinct (map fst c) \<Longrightarrow> distinct (take 200 s)"
    unfolding s_def by (simp add: distinct_map)
  show "evict_oldest c = filter (\<lambda>(k, _). k \<notin> fst ` set (take 200 s)) c"
    unfolding s_def evict_oldest_def by (rule pop_all_filter)
qed

lemma evict_oldest_length: "distinct (map fst c) \<Longrightarrow> length (evict_oldest c) = length c - 200"
proof -
  let ?s = "take 200 (sort_key (fst \<circ> snd) c)"
  assume d: "distinct (map fst c)"
  have "length (evict_oldest c) = length c - length ?s"
    unfolding evict_oldest_props(3) by (rule length_filter_keys [OF d evict_oldest_props(1,2)]) (rule d)
  then show ?thesis by simp
qed

text \<open>What is evicted expires no later than what is kept.\<close>

lemma evict_oldest_order:
  assumes "(k, t, v) \<in> set c" "(k, t, v) \<notin> set (evict_oldest c)" "(k', t', v') \<in> set (evict_oldest c)"
    "distinct (map fst c)"
  shows "t \<le> t'"
proof -
  let ?s = "sort_key (fst \<circ> snd) c"
  have split: "set ?s = set (take 200 ?s) \<union> set (drop 200 ?s)"
    by (metis append_take_drop_id set_append)
  have k: "(k, t, v) \<in> set (take 200 ?s)"
  proof -
    have "k \<in> fst ` set (take 200 ?s)" using assms(1,2) by (auto simp: evict_oldest_props(3))
    then obtain t1 v1 where m: "(k, t1, v1) \<in> set (take 200 ?s)" by auto
    then have "(k, t1, v1) \<in> set c" using evict_oldest_props(1) by blast
    then have "(t1, v1) = (t, v)" using assms(1,4) by (metis eq_key_imp_eq_value)
    with m show ?thesis by simp
  qed
  have "(k', t', v') \<in> set ?s" "(k', t', v') \<notin> set (take 200 ?s)"
    using assms(3) by (force simp: evict_oldest_props(3))+
  then have k': "(k', t', v') \<in> set (drop 200 ?s)" using split by blast
  have "sorted (map (fst \<circ> snd) (take 200 ?s @ drop 200 ?s))" by simp
  then show ?thesis
    using k k' unfolding map_append sorted_append by fastforce
qed

definition cache_ok :: "share_cache \<Rightarrow> bool" where
  "cache_ok c \<longleftrightarrow> distinct (map fst c) \<and> length c \<le> 2048"

lemma cache_get_ok: "cache_ok c \<Longrightarrow> cache_ok (snd (cache_get now key c))"
  using length_delete_le [of key c]
  by (auto simp: cache_ok_def cache_get_def AList.distinct_delete split: option.splits)

lemma cache_set_ok: "cache_ok c \<Longrightarrow> cache_ok (snd (cache_set now key v c))"
proof -
  let ?g = "dict_set key (now + CACHE_TTL (share_status v), v\<lparr>share_cached := False\<rparr>) c"
  assume "cache_ok c"
  then have g: "distinct (map fst ?g)" "length ?g \<le> 2049"
    using length_dict_set [of key "(now + CACHE_TTL (share_status v), v\<lparr>share_cached := False\<rparr>)" c]
    by (auto simp: cache_ok_def AList.distinct_update)
  then have "distinct (map fst (evict_oldest ?g))"
    unfolding evict_oldest_props(3) by (simp add: distinct_map_filter)
  then show ?thesis
    using g evict_oldest_length [OF g(1)] by (auto simp: cache_ok_def cache_set_def Let_def)
qed

lemma probe_cache_ok:
  "cache_ok c \<Longrightarrow> cache_ok (snd (probe_share_availability now link code rc ck r haisou c))"
  unfolding probe_share_availability_def Let_def
  using cache_get_ok [of c now "cache_key_for_link code rc"]
  by (auto simp: cache_set_ok split: prod.splits option.splits)

section \<open>When a share is declared dead\<close>

definition declares_dead :: "reply \<Rightarrow> bool" where
  "declares_dead r = (share_status (reply_verdict r) = Unavailable)"

lemma classify_empty: "share_status (classify_share_payload (PDict [])) = Unknown"
  by (simp add: classify_share_payload_def payload_ok_def payload_errno_def payload_message_def
      first_truthy_def por_def message_str_def eq_zero_def in_errnos_def any_word_def AUTH_WORDS_def RATE_WORDS_def
      PASSWORD_WORDS_def EXPIRED_WORDS_def CANCELLED_WORDS_def MISSING_WORDS_def UNAVAILABLE_WORDS_def u_def
      casefold_def Let_def)

lemma declares_dead_cases:
  "declares_dead r \<longleftrightarrow>
     (case r of Malformed_Link _ \<Rightarrow> True | Reply_Status st \<Rightarrow> st = 404 \<or> st = 410
      | Reply_Payload p \<Rightarrow> is_pdict p \<and> share_status (classify_share_payload p) = Unavailable | _ \<Rightarrow> False)"
  using classify_empty by (cases r) (simp_all add: declares_dead_def reply_verdict_def)

text \<open>A second opinion only ever withdraws a verdict "unavailable", unless the cookie was refused.\<close>

lemma second_opinion_dead:
  "share_status (second_opinion haisou r (reply_verdict r)) = Unavailable \<Longrightarrow>
     declares_dead r \<or> share_status (reply_verdict r) = Auth_Required \<and>
       (\<exists>f. haisou ((u ''cookie_invalid'')) = Some f \<and> share_status f = Unavailable)"
  by (auto simp: second_opinion_def declares_dead_def split: reply.splits share_state.splits option.splits if_splits)

lemma probe_dead:
  assumes "share_status (fst (probe_share_availability now link code rc ck r haisou c)) = Unavailable"
    "link \<noteq> []" "code \<noteq> []" "cache_lookup now (cache_key_for_link code rc) c = None" "ck"
  shows "declares_dead r \<or> share_status (reply_verdict r) = Auth_Required \<and>
       (\<exists>f. haisou ((u ''cookie_invalid'')) = Some f \<and> share_status f = Unavailable)"
  using assms
  by (intro second_opinion_dead)
    (auto simp: probe_share_availability_def cache_lookup_def cache_set_def Let_def split: prod.splits option.splits)

end
