(* ===== verification/Example_Data.thy ===== *)
theory Example_Data
  imports Delivery_Service Episode_Roundtrip Episode_Summary Share_Status
begin

text \<open>
  Concrete subscriptions, resources and rows, and the values of the text functions on them: the inputs
  at which the theorems of the root theory are applied.
\<close>

section \<open>A series of two episodes, one of them owned\<close>

abbreviation show_title :: pystr where
  "show_title \<equiv> u ''Show''"

definition two_episodes :: subscription where
  "two_episodes = blank_subscription\<lparr>sub_title := show_title, tmdb_total_count := 2,
     emby_episodes := Some {(1, 1)}\<rparr>"

definition titled :: "pystr \<Rightarrow> pystr \<Rightarrow> search_result" where
  "titled title url = \<lparr>r_title = title, r_url = url, r_source = [], r_message_id = None, r_context = [], r_priority = 0\<rparr>"

lemma two_episodes_fields [simp]:
  "media_type two_episodes = Tv" "sub_title two_episodes = show_title" "sub_keywords two_episodes = []"
  "release_year two_episodes = None" "tmdb_id two_episodes = None" "quality_rules two_episodes = PDict []"
  "emby_snapshot_failed two_episodes = False" "sub_status two_episodes = u ''active''" "sub_id two_episodes = 1"
  by (simp_all add: two_episodes_def blank_subscription_def)

lemma titled_fields [simp]:
  "r_title (titled t l) = t" "r_url (titled t l) = l" "r_context (titled t l) = []" "r_source (titled t l) = []"
  "r_message_id (titled t l) = None" "r_priority (titled t l) = 0"
  by (simp_all add: titled_def)

lemma two_episodes_keys: "all_tmdb_episode_keys two_episodes = {(1, 1), (1, 2)}"
  by (simp add: two_episodes_def blank_subscription_def all_tmdb_episode_keys_def keys_upto_def upto.simps insert_commute)

lemma two_episodes_owned: "owned_episode_keys two_episodes = {(1, 1)}"
  by (simp add: owned_episode_keys_def explicit_owned_keys_def two_episodes_def blank_subscription_def Let_def)

lemma two_episodes_missing: "missing_episode_keys two_episodes = {(1, 2)}"
  by (auto simp: missing_episode_keys_def two_episodes_keys two_episodes_owned)

section \<open>Values of the text functions\<close>

lemma show_compact: "compact_match_text show_title = u ''show''"
  by (simp add: compact_match_text_filter simplify_cjk_def py_defs chr_eval)

lemma show_no_year: "title_without_year show_title = show_title"
  by (simp add: title_without_year_def py_defs re_eval re_pats chr_eval)

lemma show_years: "years_from_text show_title = {}"
  by (simp add: years_from_text_def py_defs re_eval re_pats chr_eval)

lemma show_folded: "casefold show_title = u ''show''"
  by (simp add: py_defs chr_eval)

lemma show_stripped: "strip show_title = show_title"
  by (simp add: py_defs chr_eval)

lemmas show_texts = show_compact show_no_year show_years show_folded show_stripped

lemma show_terms: "subscription_required_terms two_episodes = (Some (u ''show'', u ''show''), [])"
  by (simp add: subscription_required_terms_def match_term_def show_texts or_str_def Let_def)

lemma no_rules: "normalize_quality_rules (PDict []) =
    \<lparr>preferred_quality = [], exclude_keywords = [], release_groups = [], accept_mode = u ''all''\<rparr>"
  by (simp add: normalize_quality_rules_def split_rule_words_def por_def nonempty_words_def
      py_defs re_eval re_pats chr_eval)

lemma show_matches: "result_matches_subscription two_episodes (titled show_title []) []"
proof -
  let ?r = "titled show_title []"
  have plain: "match_text_of ?r [] = show_title" "result_text ?r [] = show_title" "\<not> is_ed2k_file ?r"
    by (simp_all add: match_text_of_def is_ed2k_file_def subscription_match_text_def result_text_def join_lines_def
        or_str_def py_defs)
  have title: "title_term_in_text (u ''show'', u ''show'') show_title"
    by (rule title_found_exact) (simp_all add: show_texts)
  have id: "bare_tmdb_id two_episodes = []"
    by (simp add: bare_tmdb_id_def tmdb_id_str_def py_defs)
  have year: "subscription_release_year two_episodes = None"
    by (simp add: subscription_release_year_def show_texts)
  have "\<not> result_title_identity_conflicts two_episodes ?r"
    by (simp add: result_title_identity_conflicts_def plain show_texts result_has_subscription_tmdb_id_def id Let_def)
  moreover have "release_year_matches two_episodes ?r show_title []"
    by (simp add: release_year_matches_def year)
  moreover have "tmdb_or_title_matches two_episodes show_title (Some (u ''show'', u ''show''))"
    by (simp add: tmdb_or_title_matches_def id title)
  moreover have "result_matches_quality_rules two_episodes ?r []"
    by (simp add: result_matches_quality_rules_def quality_rule_skip_reason_def no_rules u_def)
  ultimately show ?thesis
    by (simp add: match_unfold plain show_terms)
qed

text \<open>A file of which the only episode is owned\<close>

lemma owned_file_keys:
  "episode_keys_from_text_for_subscription (Some two_episodes) (decision_text (titled (u ''S01E01'') []) []) = {(1, 1)}"
proof -
  let ?s = "u ''S01E01''"
  have plain: "decision_text (titled ?s []) [] = ?s"
    by (simp add: decision_text_def result_text_def is_ed2k_file_def join_lines_def py_defs)
  have label: "?s = range_label 1 1 1"
    by (simp add: range_label_def fmt02_two py_defs)
  have "episodes_from_text (range_label 1 1 1) = expand_episode_range (Some 1) 1 (Some 1)"
    by (rule label_read_wins [OF range_label_read]) (simp_all add: expand_episode_range_def keys_upto_def)
  then have keys: "episodes_from_text ?s = {(1, 1)}"
    by (simp add: label expand_episode_range_def keys_upto_def season_or_1_def)
  have season: "season_numbers_from_text ?s = {1}"
    by (simp add: episode_eval cong: episode_congs)
  have none: "re_found SEASON_PACK_WORD_RE ?s = False" "episode_counts_from_pack_text ?s = {}"
    "season_range_keys ?s 1 = {}"
    by (simp_all add: episode_eval season_range_keys_def cong: episode_congs)
  have "pack_episode_keys_from_text two_episodes ?s = {}"
    by (simp add: pack_episode_keys_from_text_def two_episodes_keys keys season none
        pack_keys_with_season_context_def season_count_keys_def Let_def)
  then show ?thesis
    by (simp add: plain episode_keys_from_text_for_subscription_def keys season)
qed

section \<open>A file that is saved\<close>

definition found_file :: search_result where
  "found_file = titled show_title (u ''ed2k://x'')"

definition empty_store :: store where
  "empty_store = \<lparr>st_rows = [], st_next_id = 1\<rparr>"

definition saved_row :: resource_row where
  "saved_row = \<lparr>rr_id = 1, rr_subscription = 1, rr_source = [], rr_title = show_title, rr_url = u ''ed2k://x'',
     rr_message_id = None, rr_status = u ''pending'', rr_retry_count = 0, rr_last_error = None,
     rr_created_at = u ''t1'', rr_updated_at = Some (u ''t1'')\<rparr>"

lemma found_file_fields [simp]:
  "r_title found_file = show_title" "r_url found_file = u ''ed2k://x''" "r_source found_file = []"
  "r_message_id found_file = None"
  by (simp_all add: found_file_def)

lemma empty_store_ok: "store_ok empty_store"
  by (simp add: store_ok_def empty_store_def)

lemma found_file_saved:
  "insert_resource (u ''t1'') 1 None found_file empty_store = (Some saved_row, \<lparr>st_rows = [saved_row], st_next_id = 2\<rparr>)"
proof -
  have same: "canonical_result found_file = found_file"
    by (simp add: canonical_result_def canonical_115_url_def normalize_115_share_link_def
        py_defs re_eval re_pats chr_eval)
  have ok: "is_valid_download_link (r_url found_file)"
    by (simp add: is_valid_download_link_def MAGNET_PREFIX_def ED2K_PREFIX_def py_defs chr_eval)
  show ?thesis
    using ok by (simp add: insert_resource_def same resource_allowed_for_subscription_def existing_resource_rows_def
        empty_store_def resource_already_exists_def build_resource_row_index_def effective_rows_def List.map_filter_simps
        insert_row_def saved_row_def Let_def split: option.split)
qed

section \<open>A delivery that failed\<close>

definition failed_row :: resource_row where
  "failed_row = saved_row\<lparr>rr_id := 7, rr_status := u ''failed'', rr_last_error := Some (u ''timeout'')\<rparr>"

lemma failed_row_fields [simp]:
  "rr_id failed_row = 7" "rr_url failed_row = u ''ed2k://x''" "rr_title failed_row = show_title"
  "rr_status failed_row = u ''failed''" "rr_subscription failed_row = 1"
  by (simp_all add: failed_row_def saved_row_def)

lemma file_key: "resource_dedupe_key (u ''ed2k://x'') = Some (u ''url'', u ''ed2k://x'')"
  by (simp add: resource_dedupe_key_def normalize_115_share_link_def
      py_defs re_eval re_pats chr_eval)

lemma failed_row_failure: "row_failure failed_row = Timeout"
  by (simp add: failed_row_def saved_row_def row_failure_def classify_delivery_failure_def has_word_def FLOOD_WORDS_def
      AUTH_FAILURE_WORDS_def INVALID_WORDS_def TIMEOUT_WORDS_def py_defs chr_eval)

lemma failed_row_pick:
  "pick_row (\<lambda>_. Some 0) 100 failed_row = \<lparr>p_row = failed_row, p_kind = Timeout, p_skip = []\<rparr>"
  by (simp add: pick_row_def failed_row_failure retry_due_def NON_RETRY_KINDS_def backoff_delay_def
      RETRY_BACKOFF_SECONDS_def)
    (simp add: failed_row_def saved_row_def py_defs chr_eval)

lemma failed_row_chosen:
  "pick_row (\<lambda>_. Some 0) 100 failed_row \<in> set (select_retryable_failed_resources (\<lambda>_. Some 0) 100 5 [failed_row])"
  "p_skip (pick_row (\<lambda>_. Some 0) 100 failed_row) = []"
proof -
  have "list_failed_resources 20 [failed_row] = [failed_row]"
    by (simp add: list_failed_resources_def newest_first_def clamp_def FAILED_STATUSES_def failed_row_def saved_row_def)
  then show "pick_row (\<lambda>_. Some 0) 100 failed_row \<in> set (select_retryable_failed_resources (\<lambda>_. Some 0) 100 5 [failed_row])"
    by (simp add: select_retryable_failed_resources_def failed_row_pick Let_def)
qed (simp add: failed_row_pick)

section \<open>A delivery\<close>

text \<open>No subscription restricts the resource and the adapters accept every link.\<close>

definition open_world :: world where
  "open_world = \<lparr>w_subscription = (\<lambda>_. None), w_target_path = (\<lambda>_. None), w_mode = u ''115'',
     w_forward = (\<lambda>_. Answered True), w_transfer = (\<lambda>_ _. Answered True), w_offline = (\<lambda>_ _. Answered True)\<rparr>"

lemma saved_row_loaded: "load_resource 1 [saved_row] = Some saved_row"
  by (simp add: load_resource_def saved_row_def)

lemma saved_row_sendable:
  assumes "\<forall>row \<in> set rs. rr_id row = 1"
  shows "check_before open_world saved_row rs = Send"
proof -
  have "other_delivered 1 rs = []"
    using assms by (auto simp: other_delivered_def filter_empty_conv)
  then have "existing_effective_delivery saved_row rs = None"
    by (simp add: existing_effective_delivery_def saved_row_def Let_def split: option.split)
  moreover have "casefold (rr_status saved_row) \<noteq> DELIVERED"
    by (simp add: saved_row_def DELIVERED_def py_defs chr_eval)
  ultimately show ?thesis
    by (simp add: check_before_def unneeded_def open_world_def resource_allowed_for_subscription_def)
qed

lemma saved_row_performed: "perform_delivery open_world saved_row = (True, [])"
proof -
  have "normalized_delivery_url (rr_url saved_row) = u ''ed2k://x''"
    by (simp add: normalized_delivery_url_def saved_row_def normalize_115_share_link_def py_defs re_eval re_pats chr_eval)
  moreover have "is_valid_download_link (u ''ed2k://x'')"
    by (simp add: is_valid_download_link_def MAGNET_PREFIX_def ED2K_PREFIX_def py_defs chr_eval)
  ultimately show ?thesis
    by (simp add: perform_delivery_def deliver_resource_url_def open_world_def Let_def)
qed

lemma saved_row_sent_once: "\<exists>s. run single (initial [saved_row]) s \<and> sent s = [saved_row]"
  by (rule sent_once [OF saved_row_loaded saved_row_sendable saved_row_performed]) (simp add: saved_row_def)

lemma saved_row_sent_twice: "\<exists>s. run False (initial [saved_row]) s \<and> sent s = [saved_row, saved_row]"
  by (rule sent_twice [OF saved_row_loaded saved_row_sendable saved_row_sendable saved_row_performed])
    (simp_all add: saved_row_def update_resource_delivery_status_def update_rows_def)

section \<open>Queries of a title with a subtitle\<close>

lemma subtitle_strs: "collapse_spaces (u ''Ab:Cd'') = u ''Ab:Cd''" "collapse_spaces (u ''Ab'') = u ''Ab''" "collapse_spaces (u ''Cd'') = u ''Cd''"
  "collapse_spaces (u ''xy'') = u ''xy''" "strip (u ''xy'') = u ''xy''"
  by (simp_all add: collapse_spaces_def py_defs re_eval re_pats chr_eval)

lemma subtitle_tails: "title_prefix_aliases (u ''Ab:Cd'') = [u ''Ab:Cd'']" "title_prefix_aliases (u ''xy'') = [u ''xy'']"
    by (simp_all add: title_prefix_aliases_def TITLE_PREFIX_ALIASES_def py_defs re_eval re_pats chr_eval)

lemma subtitle_years: "search_years_from_text (u ''Ab:Cd'') = {}" "search_years_from_text (u ''Ab'') = {}" "search_years_from_text (u ''Cd'') = {}"
    "search_years_from_text (u ''xy'') = {}"
  by (simp_all add: search_years_eq years_from_text_def py_defs re_eval re_pats chr_eval)

lemma subtitle_base: "or_base (u ''Ab:Cd'') = u ''Ab:Cd''" "or_base (u ''xy'') = u ''xy''"
  by (simp_all add: or_base_def query_without_year_eq title_without_year_def py_defs re_eval re_pats chr_eval)

lemma subtitle_parts: "title_delimiter_aliases (u ''Ab:Cd'') = [u ''Ab'', u ''Cd'']" "title_delimiter_aliases (u ''xy'') = [u ''xy'']"
  by (simp_all add: title_delimiter_aliases_def alias_trim_chars_def add_new_def collapse_spaces_def py_defs re_eval re_pats chr_eval)

lemma subtitle_bases: "search_title_variants (u ''Ab:Cd'') = [u ''Ab:Cd'', u ''Ab'', u ''Cd'']"
   "search_title_variants (u ''xy'') = [u ''xy'']"
  by (simp_all add: search_title_variants_def subtitle_strs subtitle_tails base_variants_def year_variants_def subtitle_years subtitle_base subtitle_parts add_new_def Let_def) (simp_all add: u_def)

lemma subtitle_keys: "compact_search_text (u ''Ab:Cd'') = u ''abcd''" "compact_search_text (u ''Ab'') = u ''ab''"
   "compact_search_text (u ''Cd'') = u ''cd''" "compact_search_text (u ''xy'') = u ''xy''"
  by (simp_all add: compact_search_eq compact_match_text_filter simplify_cjk_def py_defs chr_eval)

lemma subtitle_kept: "clean_keywords {u ''abcd'', u ''ab'', u ''cd''} [u ''xy''] = [u ''xy'']"
  by (simp add: clean_keywords_def keyword_variants_def subtitle_strs subtitle_bases keep_keyword_def subtitle_keys Let_def) (simp add: u_def)

lemma subtitle_joined: "collapse_spaces (u ''Ab:Cd'' @ 32 # u ''xy'') = u ''Ab:Cd xy''"
  by (simp add: collapse_spaces_def py_defs re_eval re_pats chr_eval)

lemma subtitle_apart: "\<not> contains (u ''xy'') (u ''abcd'')" by (simp add: py_defs)

lemma u_eq_iff: "(u a = u b) = (a = b)"
  by (simp add: u_def inj_map_eq_map inj_def)

lemma long_queries: "length (expanded_search_queries (u ''Ab:Cd'') [u ''xy''] 1) = 4"
  by (simp add: expanded_search_queries_def subtitle_bases subtitle_keys subtitle_kept subtitle_years Let_def subtitle_strs add_new_def u_eq_iff subtitle_apart subtitle_joined)

end
