(* ===== verification/Json_Text.thy ===== *)
theory Json_Text
  imports Py_Json
begin

text \<open>
  \<open>json_dumps\<close> of \<open>app/db_core.py\<close> (\<open>json.dumps\<close> without ASCII escapes and with compact separators), and
  the round trip: \<open>json_loads\<close> reads back every value made of null, truth values, integers, strings,
  lists and dictionaries.  The text of a value is a run of tokens of the lexer, and the parser
  turns the tokens of a value into the value.
\<close>

section \<open>Writing\<close>

definition hex_char :: "nat \<Rightarrow> nat" where
  "hex_char d = (if d < 10 then 48 + d else 87 + d)"

definition escape_json :: "nat \<Rightarrow> pystr" where
  "escape_json c =
     (if c = 34 then [92, 34] else if c = 92 then [92, 92]
      else if c = 10 then [92, 110] else if c = 13 then [92, 114] else if c = 9 then [92, 116]
      else if c = 8 then [92, 98] else if c = 12 then [92, 102]
      else if c < 32 then [92, 117, 48, 48, hex_char (c div 16), hex_char (c mod 16)]
      else [c])"

definition json_string :: "pystr \<Rightarrow> pystr" where
  "json_string s = [34] @ concat (map escape_json s) @ [34]"

text \<open>
  A float is written as its decimal value in exponent form, where Python writes the shortest
  text of the double; the program stores no floats in these columns.
\<close>

fun json_dumps :: "pyval \<Rightarrow> pystr" where
  "json_dumps PNone = u ''null''"
| "json_dumps (PBool b) = (if b then u ''true'' else u ''false'')"
| "json_dumps (PInt i) = int_str i"
| "json_dumps (PFloat m e) = int_str m @ [101] @ int_str e"
| "json_dumps PSpecial = u ''NaN''"
| "json_dumps (PStr s) = json_string s"
| "json_dumps (PList xs) = [91] @ join [44] (map json_dumps xs) @ [93]"
| "json_dumps (PDict kvs) = [123] @ join [44] (map (\<lambda>(k, v). json_string k @ [58] @ json_dumps v) kvs) @ [125]"

section \<open>What can be stored\<close>

definition plain_text :: "pystr \<Rightarrow> bool" where
  "plain_text s \<longleftrightarrow> (\<forall>c \<in> set s. \<not> (55296 \<le> c \<and> c \<le> 57343))"

text \<open>No floats, no surrogates, no key twice\<close>

fun storable :: "pyval \<Rightarrow> bool" where
  "storable PNone = True"
| "storable (PBool b) = True"
| "storable (PInt i) = True"
| "storable (PFloat m e) = False"
| "storable PSpecial = False"
| "storable (PStr s) = plain_text s"
| "storable (PList xs) = (\<forall>x \<in> set xs. storable x)"
| "storable (PDict kvs) = (distinct (map fst kvs) \<and> (\<forall>(k, v) \<in> set kvs. plain_text k \<and> storable v))"

section \<open>The tokens of a value\<close>

fun commas :: "tok list list \<Rightarrow> tok list" where
  "commas [] = []"
| "commas [ts] = ts"
| "commas (ts # tss) = ts @ [TComma] @ commas tss"

fun toks :: "pyval \<Rightarrow> tok list" where
  "toks (PList xs) = [TOpenL] @ commas (map toks xs) @ [TCloseL]"
| "toks (PDict kvs) = [TOpenD] @ commas (map (\<lambda>(k, v). TVal (PStr k) # TColon # toks v) kvs) @ [TCloseD]"
| "toks v = [TVal v]"

section \<open>Lexing what was written\<close>

definition lex_more :: "tok list \<Rightarrow> tok list option \<Rightarrow> tok list option" where
  "lex_more ts out = map_option ((@) ts) out"

lemma lex_more_simps [simp]:
  "lex_more [] m = m" "lex_more ts (lex_more us m) = lex_more (ts @ us) m"
  by (cases m; simp add: lex_more_def)+

lemma emit_more: "emit t m = lex_more [t] m"
  by (cases m) (simp_all add: emit_def lex_more_def)

subsection \<open>Strings\<close>

lemma escape_lexed: "lex (LString a) (escape_json c @ cs) = lex (LString (c # a)) cs"
proof -
  have "c = 16 * (c div 16) + c mod 16" by simp
  moreover have "c < 32 \<Longrightarrow> c div 16 = 0 \<or> c div 16 = 1" by auto
  moreover have "c mod 16 < 16" by simp
  ultimately show ?thesis
    by (auto simp: escape_json_def escape_char_def hex_char_def hex_digit_def is_ascii_digit_def)
qed

lemma escapes_lexed: "lex (LString a) (concat (map escape_json s) @ cs) = lex (LString (rev s @ a)) cs"
  by (induction s arbitrary: a) (simp_all add: escape_lexed)

lemma join_surrogates_plain: "plain_text s \<Longrightarrow> join_surrogates s = s"
  by (induction s rule: join_surrogates.induct) (auto simp: plain_text_def)

lemma string_lexed: "plain_text s \<Longrightarrow> lex LBase (json_string s @ cs) = lex_more [TVal (PStr s)] (lex LBase cs)"
  by (simp add: json_string_def escapes_lexed join_surrogates_plain emit_more json_space_def)

subsection \<open>Words and numbers\<close>

definition ends_word :: "pystr \<Rightarrow> bool" where
  "ends_word cs \<longleftrightarrow> cs = [] \<or> \<not> json_word_char (hd cs)"

lemma word_lexed:
  assumes "\<forall>c \<in> set w. json_word_char c" "ends_word cs" "word_value (rev a @ w) = Some v"
  shows "lex (LWord a) (w @ cs) = lex_more [TVal v] (lex LBase cs)"
  using assms
proof (induction w arbitrary: a)
  case Nil
  then show ?case by (cases cs) (auto simp: ends_word_def emit_more lex_more_def)
next
  case (Cons c w)
  then show ?case by simp
qed

lemma word_char_not_space: "json_word_char c \<Longrightarrow> \<not> json_space c \<and> c \<noteq> 34"
  by (auto simp: json_word_char_def json_space_def chr_eval)

lemma value_lexed:
  assumes "w \<noteq> []" "\<forall>c \<in> set w. json_word_char c" "ends_word cs" "word_value w = Some v"
  shows "lex LBase (w @ cs) = lex_more [TVal v] (lex LBase cs)"
proof -
  obtain c w' where w: "w = c # w'" using assms(1) by (cases w) auto
  then show ?thesis
    using word_lexed [of w' cs "[c]" v] assms word_char_not_space [of c] by simp
qed

definition ascii_num :: "pystr \<Rightarrow> bool" where
  "ascii_num ds \<longleftrightarrow> list_all is_ascii_digit ds"

definition number_tail :: re where
  "number_tail = Cat (opt (seqs [chr 46, Grp ''frac'' (many1 (Cls is_ascii_digit))]))
     (opt (seqs [one_of [101, 69], Grp ''exp'' (seqs [opt (one_of [43, 45]), many1 (Cls is_ascii_digit)])]))"

lemma tail_end: "match_re number_tail (b, [], g) = [(b, [], g)]"
  by (simp add: number_tail_def re_pats re_eval)

lemma tail_digit: "is_ascii_digit c \<Longrightarrow> match_re number_tail (b, c # cs, g) = [(b, c # cs, g)]"
  by (auto simp: number_tail_def re_pats re_eval chr_eval)

definition digits_part :: re where
  "digits_part = Alt (chr 48) (seqs [one_of (u ''123456789''), many (Cls is_ascii_digit)])"

definition int_part :: re where
  "int_part = seqs [opt (chr 45), digits_part]"

lemma number_re_split: "JSON_NUMBER_RE = Cat (Grp ''int'' int_part) number_tail"
  by (simp add: JSON_NUMBER_RE_def number_tail_def int_part_def digits_part_def)

text \<open>A decimal numeral as \<open>int\<close> writes it\<close>

definition numeral_text :: "pystr \<Rightarrow> bool" where
  "numeral_text ds \<longleftrightarrow> ds = [48] \<or> (\<exists>c cs. ds = c # cs \<and> 49 \<le> c \<and> c \<le> 57 \<and> list_all is_ascii_digit cs)"

definition longest_first :: "pystr \<Rightarrow> mstate list \<Rightarrow> bool" where
  "longest_first b sts \<longleftrightarrow> (\<exists>rest_sts. sts = (b, [], []) # rest_sts \<and>
     (\<forall>st \<in> set rest_sts. \<exists>b' c cs g. st = (b', c # cs, g) \<and> is_ascii_digit c))"

lemma digits_matched:
  assumes "numeral_text ds"
  shows "longest_first (rev ds @ b) (match_re digits_part (b, ds, []))"
  using assms unfolding numeral_text_def
proof (elim disjE exE conjE)
  assume "ds = [48]"
  then show ?thesis by (simp add: longest_first_def digits_part_def re_pats re_eval chr_eval py_defs)
next
  fix c cs
  assume ds: "ds = c # cs" "49 \<le> c" "c \<le> 57" "list_all is_ascii_digit cs"
  then have "c \<noteq> 48" "in_chars (u ''123456789'') c"
    by (auto simp: py_defs)
  then have "match_re digits_part (b, ds, []) = run_states is_ascii_digit (c # b) cs []"
    by (simp add: ds digits_part_def re_pats re_eval rep_star_cls is_chr_def del: rep_match.simps)
  moreover obtain sts where "run_states is_ascii_digit (c # b) cs [] = (rev cs @ c # b, [], []) # sts"
    "\<forall>st \<in> set sts. \<exists>d ds. rest st = d # ds \<and> is_ascii_digit d"
    using run_states_all [OF ds(4), of "[]" "c # b" "[]"] by auto
  ultimately show ?thesis
    by (fastforce simp: longest_first_def ds)
qed

lemma numeral_hd: "numeral_text ds \<Longrightarrow> \<exists>c cs. ds = c # cs \<and> is_ascii_digit c"
  by (auto simp: numeral_text_def is_ascii_digit_def)

lemma int_part_matched:
  assumes "numeral_text ds" "sg = [] \<or> sg = [45]"
  shows "longest_first (rev (sg @ ds)) (match_re int_part ([], sg @ ds, []))"
proof -
  obtain c cs where ds: "ds = c # cs" and c: "is_ascii_digit c"
    using numeral_hd [OF assms(1)] by blast
  then have c45: "is_chr 45 c = False" "c \<noteq> 45" by (auto simp: is_chr_def is_ascii_digit_def)
  have digits_fail: "match_re digits_part (b, 45 # cs', g) = []" for b cs' g
    by (simp add: digits_part_def re_pats re_eval chr_eval py_defs del: rep_match.simps)
  have opt_sign: "match_re (opt (chr 45)) ([], sg @ ds, []) =
      (if sg = [] then [([], ds, [])] else [([45], ds, []), ([], 45 # ds, [])])"
    using assms(2) by (auto simp: opt_def chr_def rep_match.simps shorter_def less_one_def ds c45 is_chr_def)
  have "match_re int_part ([], sg @ ds, []) = flat_map (match_re digits_part) (match_re (opt (chr 45)) ([], sg @ ds, []))"
    by (simp add: int_part_def)
  also have "\<dots> = match_re digits_part (rev sg, ds, [])"
    using assms(2) digits_fail unfolding opt_sign by auto
  finally show ?thesis
    using digits_matched [OF assms(1), of "rev sg"] assms(2) by auto
qed

lemma tails_filtered:
  assumes "longest_first b sts"
  shows "filter (\<lambda>st. rest st = []) (flat_map (match_re number_tail) (map (capture ''int'' w) sts)) =
    [(b, [], [(''int'', w)])]"
proof -
  obtain more where sts: "sts = (b, [], []) # more"
    and more: "\<forall>st \<in> set more. \<exists>b' c cs g. st = (b', c # cs, g) \<and> is_ascii_digit c"
    using assms by (auto simp: longest_first_def)
  from more have "filter (\<lambda>st. rest st = []) (flat_map (match_re number_tail) (map (capture ''int'' w) more)) = []"
  proof (induction more)
    case (Cons st more)
    then obtain b' c cs g where "st = (b', c # cs, g)" "is_ascii_digit c" by auto
    with Cons show ?case by (simp add: capture_def tail_digit)
  qed simp
  then show ?thesis
    by (simp add: sts capture_def tail_end)
qed

lemma number_fullmatch:
  assumes "numeral_text ds" "sg = [] \<or> sg = [45]"
  shows "re_fullmatch JSON_NUMBER_RE (sg @ ds) =
    Some \<lparr>m_before = [], m_text = sg @ ds, m_after = [], m_groups = [(''int'', sg @ ds)]\<rparr>"
proof -
  have "match_re JSON_NUMBER_RE ([], sg @ ds, []) =
      flat_map (match_re number_tail) (map (capture ''int'' (sg @ ds)) (match_re int_part ([], sg @ ds, [])))"
    by (simp add: number_re_split)
  then show ?thesis
    by (simp add: re_fullmatch_def tails_filtered [OF int_part_matched [OF assms]] first_match_def)
qed

lemma dec_str_numeral: "numeral_text (dec_str n)"
proof (induction n rule: dec_str.induct)
  case (1 n)
  show ?case
  proof (cases "n < 10")
    case True
    then show ?thesis by (auto simp: dec_str.simps [of n] numeral_text_def)
  next
    case False
    then have "numeral_text (dec_str (n div 10))" "n div 10 \<noteq> 0" using 1 by auto
    moreover have "dec_str (n div 10) \<noteq> [48]"
      using calculation(2) by (metis dec_str.simps dec_str_inject add.right_neutral zero_less_numeral)
    ultimately show ?thesis
      using False by (auto simp: dec_str.simps [of n] numeral_text_def is_ascii_digit_def)
  qed
qed

lemma is_space_45: "is_space 45 = False"
  by (simp add: is_space_def)

lemma int_str_value: "word_value (int_str i) = Some (PInt i)"
proof -
  obtain sg ds where w: "int_str i = sg @ ds" "sg = [] \<or> sg = [45]" "numeral_text ds"
  proof (cases "i < 0")
    case True
    then show ?thesis using that [of "[45]" "dec_str (nat (- i))"] dec_str_numeral by (simp add: int_str_def)
  next
    case False
    then show ?thesis using that [of "[]" "dec_str (nat i)"] dec_str_numeral by (simp add: int_str_def)
  qed
  obtain c cs where ds: "ds = c # cs" "48 \<le> c" "c \<le> 57"
    using numeral_hd [OF w(3)] by (auto simp: is_ascii_digit_def)
  have "int_str i \<notin> {u ''null'', u ''true'', u ''false'', u ''NaN'', u ''Infinity'', u ''-Infinity''}"
    using w(2) ds unfolding w(1) by (auto simp: py_defs)
  moreover have "int_of_str (int_str i) = Some i"
  proof (cases "i < 0")
    case True
    have "unsigned_int (dec_str n) = Some n" for n
      by (simp add: unsigned_int_def drop_underscores_id dec_str_no_underscore)
    moreover have "strip (45 # dec_str n) = 45 # dec_str n" for n
      by (rule strip_no_space) (use dec_str_not_space in \<open>auto simp: is_space_45\<close>)
    ultimately show ?thesis using True by (simp add: int_str_def int_of_str_def)
  qed (simp add: int_str_def)
  ultimately show ?thesis
    using number_fullmatch [OF w(3,2)]
    by (simp add: word_value_def number_value_def grp_def group_def w(1))
qed

lemma int_str_chars: "c \<in> set (int_str i) \<Longrightarrow> json_word_char c"
  using dec_str_digits by (auto simp: int_str_def json_word_char_def is_ascii_digit_def split: if_splits)

lemma int_str_ne: "int_str i \<noteq> []"
  by (simp add: int_str_def)

subsection \<open>Whole values\<close>

declare lex.simps [simp del]

lemma ends_word_punct [simp]: "c \<in> {44, 58, 93, 125} \<Longrightarrow> ends_word (c # cs)"
  by (auto simp: ends_word_def json_word_char_def chr_eval)

lemma punct_lexed [simp]:
  "lex LBase (44 # cs) = lex_more [TComma] (lex LBase cs)" "lex LBase (58 # cs) = lex_more [TColon] (lex LBase cs)"
  "lex LBase (91 # cs) = lex_more [TOpenL] (lex LBase cs)" "lex LBase (93 # cs) = lex_more [TCloseL] (lex LBase cs)"
  "lex LBase (123 # cs) = lex_more [TOpenD] (lex LBase cs)" "lex LBase (125 # cs) = lex_more [TCloseD] (lex LBase cs)"
  by (simp_all add: json_space_def json_word_char_def chr_eval punct_tok_def emit_more lex.simps)

definition lexes_to :: "pystr \<Rightarrow> tok list \<Rightarrow> bool" where
  "lexes_to s ts \<longleftrightarrow> (\<forall>cs. ends_word cs \<longrightarrow> lex LBase (s @ cs) = lex_more ts (lex LBase cs))"

lemma lexes_word: "w \<noteq> [] \<Longrightarrow> \<forall>c \<in> set w. json_word_char c \<Longrightarrow> word_value w = Some v \<Longrightarrow> lexes_to w [TVal v]"
  by (simp add: lexes_to_def value_lexed)

lemma lexes_commas:
  "\<forall>x \<in> set xs. lexes_to (f x) (g x) \<Longrightarrow> lexes_to (join [44] (map f xs)) (commas (map g xs))"
proof (induction xs rule: induct_list012)
  case (3 x y zs)
  then have "lexes_to (f x) (g x)" "lexes_to (join [44] (map f (y # zs))) (commas (map g (y # zs)))" by simp_all
  then show ?case by (simp add: lexes_to_def)
qed (simp_all add: lexes_to_def)

lemma lexes_entry: "plain_text k \<Longrightarrow> lexes_to s ts \<Longrightarrow> lexes_to (json_string k @ [58] @ s) (TVal (PStr k) # TColon # ts)"
  by (simp add: lexes_to_def string_lexed)

lemma lexes_words:
  "lexes_to (u ''null'') [TVal PNone]" "lexes_to (u ''true'') [TVal (PBool True)]"
  "lexes_to (u ''false'') [TVal (PBool False)]"
  by (rule lexes_word; simp add: word_value_def u_def json_word_char_def chr_eval)+

lemma value_lexes: "storable v \<Longrightarrow> lexes_to (json_dumps v) (toks v)"
proof (induction v rule: storable.induct)
  case 1
  show ?case by (simp add: lexes_words)
next
  case (2 b)
  show ?case by (simp add: lexes_words)
next
  case (7 xs)
  then have "lexes_to (join [44] (map json_dumps xs)) (commas (map toks xs))"
    by (intro lexes_commas) simp
  then show ?case by (simp add: lexes_to_def)
next
  case (8 kvs)
  have "lexes_to (join [44] (map (\<lambda>(k, v). json_string k @ [58] @ json_dumps v) kvs))
      (commas (map (\<lambda>(k, v). TVal (PStr k) # TColon # toks v) kvs))"
  proof (rule lexes_commas, rule ballI)
    fix x assume "x \<in> set kvs"
    moreover obtain k v where x: "x = (k, v)" by (cases x)
    ultimately have "plain_text k" "lexes_to (json_dumps v) (toks v)" using 8 by auto
    from lexes_entry [OF this] show "lexes_to (case x of (k, v) \<Rightarrow> json_string k @ [58] @ json_dumps v)
        (case x of (k, v) \<Rightarrow> TVal (PStr k) # TColon # toks v)"
      by (simp add: x)
  qed
  then show ?case by (simp add: lexes_to_def)
qed (simp_all add: lexes_to_def string_lexed value_lexed int_str_ne int_str_chars int_str_value)

section \<open>Parsing the tokens of a value\<close>

definition wants_value :: "mode \<Rightarrow> bool" where
  "wants_value m \<longleftrightarrow> m = WantValue \<or> m = WantFirst"

definition parses_to :: "tok list \<Rightarrow> pyval \<Rightarrow> bool" where
  "parses_to us v \<longleftrightarrow> (\<forall>ts st m. wants_value m \<longrightarrow> parse_toks (us @ ts) (st, m) = parse_toks ts (put_value st v))"

lemma parsesD: "parses_to us v \<Longrightarrow> wants_value m \<Longrightarrow> parse_toks (us @ ts) (st, m) = parse_toks ts (put_value st v)"
  by (simp add: parses_to_def)

lemma parsesI:
  "(\<And>ts st m. wants_value m \<Longrightarrow> parse_toks (us @ ts) (st, m) = parse_toks ts (put_value st v)) \<Longrightarrow> parses_to us v"
  by (simp add: parses_to_def)

lemma wants_value_simps [simp]: "wants_value WantValue" "wants_value WantFirst"
  by (simp_all add: wants_value_def)

lemma items_parsed:
  assumes "\<forall>x \<in> set xs. parses_to (toks x) x" "xs \<noteq> []" "wants_value m"
  shows "parse_toks (commas (map toks xs) @ TCloseL # ts) (FList acc # st, m) = parse_toks ts (put_value st (PList (acc @ xs)))"
  using assms
proof (induction xs arbitrary: acc m rule: induct_list012)
  case (3 x y zs)
  have "parse_toks (commas (map toks (y # zs)) @ TCloseL # ts) (FList (acc @ [x]) # st, WantValue)
      = parse_toks ts (put_value st (PList ((acc @ [x]) @ y # zs)))"
    by (rule 3) (use 3 in \<open>simp_all add: wants_value_def\<close>)
  then show ?case
    using 3 by (simp add: parses_to_def put_value_def)
qed (simp_all add: parses_to_def put_value_def)

lemma dict_put_new: "k \<notin> fst ` set kvs \<Longrightarrow> dict_put kvs k v = kvs @ [(k, v)]"
  by (induction kvs) auto

definition wants_key :: "mode \<Rightarrow> bool" where
  "wants_key m \<longleftrightarrow> m = WantKey \<or> m = WantFirstKey"

abbreviation entry_toks :: "pystr \<times> pyval \<Rightarrow> tok list" where
  "entry_toks \<equiv> \<lambda>(k, v). TVal (PStr k) # TColon # toks v"

lemma entries_parsed:
  assumes "\<forall>(k, v) \<in> set kvs. parses_to (toks v) v" "kvs \<noteq> []" "wants_key m" "distinct (map fst (acc @ kvs))"
  shows "parse_toks (commas (map entry_toks kvs) @ TCloseD # ts) (FDict acc k0 # st, m) = parse_toks ts (put_value st (PDict (acc @ kvs)))"
  using assms
proof (induction kvs arbitrary: acc m k0 rule: induct_list012)
  case (2 x)
  then show ?case
    by (cases x) (auto simp: wants_key_def parsesD put_value_def dict_put_new)
next
  case (3 x y zs)
  obtain k v where x: "x = (k, v)" by (cases x)
  have "parse_toks (commas (map entry_toks (y # zs)) @ TCloseD # ts) (FDict (acc @ [(k, v)]) [] # st, WantKey)
      = parse_toks ts (put_value st (PDict ((acc @ [(k, v)]) @ y # zs)))"
    by (rule 3) (use 3 in \<open>simp_all add: wants_key_def x\<close>)
  then show ?case
    using 3 by (auto simp: x wants_key_def parsesD put_value_def dict_put_new)
qed simp

lemma value_parses: "storable v \<Longrightarrow> parses_to (toks v) v"
proof (induction v rule: storable.induct)
  case (7 xs)
  then have "\<forall>x \<in> set xs. parses_to (toks x) x" by simp
  then show ?case
    by (intro parsesI; cases "xs = []") (auto simp: wants_value_def items_parsed)
next
  case (8 kvs)
  then have "\<forall>(k, v) \<in> set kvs. parses_to (toks v) v" by fastforce
  then show ?case
    using 8(2) entries_parsed [of kvs WantFirstKey "[]"]
    by (intro parsesI; cases "kvs = []") (auto simp: wants_value_def wants_key_def)
qed (auto intro!: parsesI simp: wants_value_def)

theorem json_round_trip: "storable v \<Longrightarrow> json_decode (json_dumps v) = Some v"
proof -
  assume v: "storable v"
  have "lex LBase (json_dumps v @ []) = lex_more (toks v) (lex LBase [])"
    using value_lexes [OF v] by (simp add: lexes_to_def ends_word_def)
  then have "lex LBase (json_dumps v) = Some (toks v)"
    by (simp add: lex_more_def lex.simps)
  moreover have "parse_toks (toks v @ []) ([], WantValue) = Some v"
    using parsesD [OF value_parses [OF v], of WantValue "[]" "[]"] by (simp add: put_value_def)
  ultimately show ?thesis by (simp add: json_decode_def)
qed

lemma json_dumps_ne: "storable v \<Longrightarrow> json_dumps v \<noteq> []"
  by (cases v) (simp_all add: int_str_ne json_string_def u_def)

lemma stored_value_read: "storable v \<Longrightarrow> json_loads (json_dumps v) dflt = v"
  by (simp add: json_loads_def json_round_trip json_dumps_ne)

end
