(* ===== verification/Jobs.thy ===== *)
theory Jobs
  imports Json_Text Tables Expiring_Cache "HOL-Library.List_Lexorder"
begin

text \<open>
  \<open>app/services/jobs.py\<close>: the table of background jobs, and \<open>_reuse_or_create_job\<close> and the forced
  search of \<open>app/services/subscription/search/tasks.py\<close>, which fill it.  A time is given twice: as
  the text that is stored and as the number of seconds; \<open>stamp\<close>, an argument, reads a stored text
  (\<open>datetime.fromisoformat\<close> after \<open>Z\<close> became \<open>+00:00\<close>, a missing zone read as UTC; \<^const>\<open>None\<close> where it
  raises).  Shown: every operation keeps the life cycle of a job (which columns a status fills), a
  finished job is never run again, and a kind and target have at most one job that is queued or
  running.
\<close>

section \<open>The table\<close>

datatype job_status = Queued | Running | Done | Failed

record job =
  j_id :: int
  j_kind :: pystr
  j_target :: "int option"
  j_status :: job_status
  j_payload :: pystr \<comment> \<open>JSON text\<close>
  j_result :: "pystr option" \<comment> \<open>JSON text\<close>
  j_error :: "pystr option"
  j_created :: pystr
  j_started :: "pystr option"
  j_heartbeat :: "pystr option"
  j_worker :: "pystr option"
  j_finished :: "pystr option"
  j_updated :: pystr

record job_table =
  jt_jobs :: "job list"
  jt_next :: int

text \<open>A row as \<open>normalize_job\<close> returns it, with its JSON columns decoded\<close>

record job_item =
  ji_job :: job
  ji_payload :: pyval
  ji_result :: pyval

definition normalize_job :: "job \<Rightarrow> job_item" where
  "normalize_job row =
     \<lparr>ji_job = row, ji_payload = json_loads (j_payload row) (PDict []),
      ji_result = (case j_result row of None \<Rightarrow> PDict [] | Some r \<Rightarrow> json_loads r (PDict []))\<rparr>"

definition update_jobs :: "(job \<Rightarrow> bool) \<Rightarrow> (job \<Rightarrow> job) \<Rightarrow> job_table \<Rightarrow> job_table" where
  "update_jobs P f tbl = tbl\<lparr>jt_jobs := update_rows P f (jt_jobs tbl)\<rparr>"

definition create_job :: "pystr \<Rightarrow> pystr \<Rightarrow> int option \<Rightarrow> pyval \<Rightarrow> job_table \<Rightarrow> int \<times> job_table" where
  "create_job now kind target payload tbl =
     (jt_next tbl,
      tbl\<lparr>jt_jobs := jt_jobs tbl @
            [\<lparr>j_id = jt_next tbl, j_kind = kind, j_target = target, j_status = Queued,
              j_payload = json_dumps (por payload (PDict [])),
              j_result = None, j_error = None, j_created = now, j_started = None, j_heartbeat = None,
              j_worker = None, j_finished = None, j_updated = now\<rparr>],
          jt_next := jt_next tbl + 1\<rparr>)"

definition coalesce :: "'a option \<Rightarrow> 'a \<Rightarrow> 'a option" where
  "coalesce a b = (if a = None then Some b else a)"

definition mark_job_running :: "pystr \<Rightarrow> int \<Rightarrow> job_table \<Rightarrow> job_table" where
  "mark_job_running now jid = update_jobs (\<lambda>j. j_id j = jid)
     (\<lambda>j. j\<lparr>j_status := Running, j_started := coalesce (j_started j) now, j_updated := now\<rparr>)"

definition mark_job_done :: "pystr \<Rightarrow> int \<Rightarrow> pyval \<Rightarrow> job_table \<Rightarrow> job_table" where
  "mark_job_done now jid outcome = update_jobs (\<lambda>j. j_id j = jid)
     (\<lambda>j. j\<lparr>j_status := Done, j_result := Some (json_dumps (por outcome (PDict []))), j_error := None,
            j_finished := Some now, j_updated := now\<rparr>)"

text \<open>No caller passes a result.\<close>

definition mark_job_failed :: "pystr \<Rightarrow> int \<Rightarrow> pystr \<Rightarrow> job_table \<Rightarrow> job_table" where
  "mark_job_failed now jid msg = update_jobs (\<lambda>j. j_id j = jid)
     (\<lambda>j. j\<lparr>j_status := Failed, j_result := Some (json_dumps (PDict [])), j_error := Some (take 1000 msg),
            j_finished := Some now, j_updated := now\<rparr>)"

definition touch_job_heartbeat :: "pystr \<Rightarrow> pystr \<Rightarrow> int \<Rightarrow> job_table \<Rightarrow> job_table" where
  "touch_job_heartbeat now worker jid = update_jobs (\<lambda>j. j_id j = jid \<and> j_status j = Running)
     (\<lambda>j. j\<lparr>j_heartbeat := Some now, j_worker := Some (take 120 worker), j_updated := now\<rparr>)"

section \<open>Queries\<close>

definition latest_job :: "pystr \<Rightarrow> int option \<Rightarrow> job_table \<Rightarrow> job_item option" where
  "latest_job kind target tbl =
     map_option normalize_job
       (last_by j_id
         (filter (\<lambda>j. j_kind j = kind \<and> (case target of None \<Rightarrow> True | Some t \<Rightarrow> j_target j = Some t)) (jt_jobs tbl)))"

text \<open>No status: \<^const>\<open>None\<close>\<close>

definition list_jobs :: "int \<Rightarrow> job_status option \<Rightarrow> job_table \<Rightarrow> job_item list" where
  "list_jobs limit status tbl =
     map normalize_job
       (take (clamp limit 50 200)
         (rev (sort_key j_id (filter (\<lambda>j. case status of None \<Rightarrow> True | Some s \<Rightarrow> j_status j = s) (jt_jobs tbl)))))"

record queue_stats =
  qs_count :: "job_status \<Rightarrow> nat"
  qs_total :: nat
  qs_running_workers :: nat
  qs_oldest_heartbeat :: "pystr option"

definition count_status :: "job_table \<Rightarrow> job_status \<Rightarrow> nat" where
  "count_status tbl s = length (filter (\<lambda>j. j_status j = s) (jt_jobs tbl))"

text \<open>\<open>COALESCE(heartbeat_at, started_at, updated_at)\<close>\<close>

definition last_sign :: "job \<Rightarrow> pystr" where
  "last_sign j = (case j_heartbeat j of Some t \<Rightarrow> t
     | None \<Rightarrow> (case j_started j of Some t \<Rightarrow> t | None \<Rightarrow> j_updated j))"

definition job_queue_stats :: "job_table \<Rightarrow> queue_stats" where
  "job_queue_stats tbl =
     (let running = filter (\<lambda>j. j_status j = Running) (jt_jobs tbl) in
      \<lparr>qs_count = count_status tbl,
       qs_total = count_status tbl Queued + count_status tbl Running + count_status tbl Done + count_status tbl Failed,
       qs_running_workers = length (remdups (filter (\<lambda>w. w \<noteq> []) (List.map_filter j_worker running))),
       qs_oldest_heartbeat = first_by (\<lambda>t. t) (map last_sign running)\<rparr>)"

section \<open>Claiming and requeueing\<close>

text \<open>An empty list of kinds allows every kind; the transaction makes the two statements one.\<close>

definition wanted_kind :: "pystr list \<Rightarrow> job \<Rightarrow> bool" where
  "wanted_kind kinds j = (kinds = [] \<or> j_kind j \<in> set kinds)"

definition queued_jobs :: "pystr list \<Rightarrow> job_table \<Rightarrow> job list" where
  "queued_jobs kinds tbl = filter (\<lambda>j. j_status j = Queued \<and> wanted_kind kinds j) (jt_jobs tbl)"

definition start_job :: "pystr \<Rightarrow> pystr \<Rightarrow> job \<Rightarrow> job" where
  "start_job now worker j =
     j\<lparr>j_status := Running, j_started := coalesce (j_started j) now, j_heartbeat := Some now,
       j_worker := Some (take 120 worker), j_updated := now\<rparr>"

definition claim_next_job :: "pystr \<Rightarrow> pystr list \<Rightarrow> pystr \<Rightarrow> job_table \<Rightarrow> job_item option \<times> job_table" where
  "claim_next_job now kinds worker tbl =
     (case first_by j_id (queued_jobs kinds tbl) of
        None \<Rightarrow> (None, tbl)
      | Some row \<Rightarrow>
          (Some ((normalize_job row)\<lparr>ji_job := start_job now worker row\<rparr>),
           update_jobs (\<lambda>j. j_id j = j_id row \<and> j_status j = Queued) (start_job now worker) tbl))"

text \<open>\<open>a or b\<close> for a column that may be empty\<close>

definition or_text :: "pystr option \<Rightarrow> pystr \<Rightarrow> pystr" where
  "or_text a b = (case a of Some s \<Rightarrow> if s = [] then b else s | None \<Rightarrow> b)"

definition heartbeat_expired :: "(pystr \<Rightarrow> time option) \<Rightarrow> time \<Rightarrow> time \<Rightarrow> job \<Rightarrow> bool" where
  "heartbeat_expired stamp clock max_age j =
     (case stamp (or_text (j_heartbeat j) (or_text (j_started j) (j_updated j))) of
        None \<Rightarrow> False
      | Some t \<Rightarrow> max_age \<le> clock - t)"

definition STALE_MESSAGE :: pystr where
  "STALE_MESSAGE = u ''stale running job requeued (heartbeat timeout)''"

definition is_stale_running :: "(pystr \<Rightarrow> time option) \<Rightarrow> time \<Rightarrow> time \<Rightarrow> job \<Rightarrow> bool" where
  "is_stale_running stamp clock max_age j = (j_status j = Running \<and> heartbeat_expired stamp clock max_age j)"

definition requeue_stale_running_jobs ::
    "(pystr \<Rightarrow> time option) \<Rightarrow> pystr \<Rightarrow> time \<Rightarrow> time \<Rightarrow> job_table \<Rightarrow> nat \<times> job_table" where
  "requeue_stale_running_jobs stamp now clock max_age tbl =
     (length (filter (is_stale_running stamp clock max_age) (jt_jobs tbl)),
      update_jobs (is_stale_running stamp clock max_age)
        (\<lambda>j. j\<lparr>j_status := Queued, j_started := None, j_heartbeat := None, j_worker := None,
               j_error := coalesce (j_error j) STALE_MESSAGE, j_updated := now\<rparr>) tbl)"

section \<open>Scheduling\<close>

definition is_active :: "job \<Rightarrow> bool" where
  "is_active j = (j_status j = Queued \<or> j_status j = Running)"

text \<open>The first stamp that can be read decides.\<close>

fun first_stamp :: "(pystr \<Rightarrow> time option) \<Rightarrow> pystr list \<Rightarrow> time option" where
  "first_stamp stamp [] = None"
| "first_stamp stamp (s # ss) =
     (let text = strip s in
      if text = [] then first_stamp stamp ss
      else case stamp text of None \<Rightarrow> first_stamp stamp ss | Some t \<Rightarrow> Some t)"

definition job_is_stale :: "(pystr \<Rightarrow> time option) \<Rightarrow> time \<Rightarrow> job \<Rightarrow> bool" where
  "job_is_stale stamp clock j =
     (case first_stamp stamp [or_text (j_heartbeat j) [], or_text (j_started j) [], j_updated j, j_created j] of
        None \<Rightarrow> False
      | Some t \<Rightarrow> (if j_status j = Running then 180 < clock - t else 360 < clock - t))"

record schedule_reply =
  sr_queued :: bool
  sr_job_id :: int
  sr_reused :: bool

definition create_reply :: "pystr \<Rightarrow> pystr \<Rightarrow> int option \<Rightarrow> pyval \<Rightarrow> job_table \<Rightarrow> schedule_reply \<times> job_table" where
  "create_reply now kind target payload tbl =
     (case create_job now kind target payload tbl of
        (jid, tbl') \<Rightarrow> (\<lparr>sr_queued = True, sr_job_id = jid, sr_reused = False\<rparr>, tbl'))"

definition reuse_reply :: "job \<Rightarrow> schedule_reply" where
  "reuse_reply j = \<lparr>sr_queued = (j_status j = Queued), sr_job_id = j_id j, sr_reused = True\<rparr>"

definition reuse_or_create_job ::
    "(pystr \<Rightarrow> time option) \<Rightarrow> pystr \<Rightarrow> time \<Rightarrow> pystr \<Rightarrow> int option \<Rightarrow> pyval \<Rightarrow> job_table \<Rightarrow> schedule_reply \<times> job_table" where
  "reuse_or_create_job stamp now clock kind target payload tbl =
     (case map_option ji_job (latest_job kind target tbl) of
        None \<Rightarrow> create_reply now kind target payload tbl
      | Some j \<Rightarrow>
          if \<not> is_active j then create_reply now kind target payload tbl
          else if \<not> job_is_stale stamp clock j then (reuse_reply j, tbl)
          else create_reply now kind target payload
                 (mark_job_failed now (j_id j) (u ''stale job superseded by reschedule'') tbl))"

definition SEARCH :: pystr where "SEARCH = u ''subscription_search''"
definition SEARCH_ALL :: pystr where "SEARCH_ALL = u ''subscription_search_all''"
definition EMBY_SYNC :: pystr where "EMBY_SYNC = u ''emby_subscription_sync''"
definition RETRY_FAILED :: pystr where "RETRY_FAILED = u ''retry_failed_resources''"

lemmas kind_defs = SEARCH_def SEARCH_ALL_def EMBY_SYNC_def RETRY_FAILED_def

definition force_payload :: "bool \<Rightarrow> pyval" where
  "force_payload force = PDict [(u ''force'', PBool force)]"

definition schedule_forced_search_all :: "pystr \<Rightarrow> job_table \<Rightarrow> schedule_reply \<times> job_table" where
  "schedule_forced_search_all now tbl =
     (case latest_job SEARCH_ALL None tbl of
        None \<Rightarrow> create_reply now SEARCH_ALL None (force_payload True) tbl
      | Some item \<Rightarrow>
          let j = ji_job item in
          if is_active j \<and> truthy (pget (por (ji_payload item) (PDict [])) (u ''force'')) then (reuse_reply j, tbl)
          else if j_status j = Queued
          then create_reply now SEARCH_ALL None (force_payload True)
                 (mark_job_failed now (j_id j) (u ''superseded by manual force search-all'') tbl)
          else create_reply now SEARCH_ALL None (force_payload True) tbl)"

definition schedule_subscription_search ::
    "(pystr \<Rightarrow> time option) \<Rightarrow> pystr \<Rightarrow> time \<Rightarrow> int \<Rightarrow> job_table \<Rightarrow> schedule_reply \<times> job_table" where
  "schedule_subscription_search stamp now clock sid =
     reuse_or_create_job stamp now clock SEARCH (Some sid) (PDict [(u ''id'', PInt sid)])"

definition schedule_search_all ::
    "(pystr \<Rightarrow> time option) \<Rightarrow> pystr \<Rightarrow> time \<Rightarrow> bool \<Rightarrow> job_table \<Rightarrow> schedule_reply \<times> job_table" where
  "schedule_search_all stamp now clock force tbl =
     (if force then schedule_forced_search_all now tbl
      else reuse_or_create_job stamp now clock SEARCH_ALL None (force_payload False) tbl)"

definition schedule_emby_sync ::
    "(pystr \<Rightarrow> time option) \<Rightarrow> pystr \<Rightarrow> time \<Rightarrow> job_table \<Rightarrow> schedule_reply \<times> job_table" where
  "schedule_emby_sync stamp now clock = reuse_or_create_job stamp now clock EMBY_SYNC None (PDict [])"

definition schedule_retry ::
    "(pystr \<Rightarrow> time option) \<Rightarrow> pystr \<Rightarrow> time \<Rightarrow> int \<Rightarrow> job_table \<Rightarrow> schedule_reply \<times> job_table" where
  "schedule_retry stamp now clock limit =
     reuse_or_create_job stamp now clock RETRY_FAILED None (PDict [(u ''limit'', PInt limit)])"

text \<open>
  What can happen to the table: scheduling by the pages and the timers, and the statements of the
  workers.  A worker finishes a job whatever became of its row meanwhile.
\<close>

inductive table_step :: "(pystr \<Rightarrow> time option) \<Rightarrow> job_table \<Rightarrow> job_table \<Rightarrow> bool" for stamp where
  search: "table_step stamp tbl (snd (schedule_subscription_search stamp now clock sid tbl))"
| search_all: "table_step stamp tbl (snd (schedule_search_all stamp now clock force tbl))"
| emby_sync: "table_step stamp tbl (snd (schedule_emby_sync stamp now clock tbl))"
| retry: "table_step stamp tbl (snd (schedule_retry stamp now clock limit tbl))"
| claim: "table_step stamp tbl (snd (claim_next_job now kinds worker tbl))"
| touch: "table_step stamp tbl (touch_job_heartbeat now worker jid tbl)"
| finish: "table_step stamp tbl (mark_job_done now jid outcome tbl)"
| fail: "table_step stamp tbl (mark_job_failed now jid msg tbl)"

inductive job_step :: "(pystr \<Rightarrow> time option) \<Rightarrow> job_table \<Rightarrow> job_table \<Rightarrow> bool" for stamp where
  statement: "table_step stamp tbl tbl' \<Longrightarrow> job_step stamp tbl tbl'"
| requeue: "job_step stamp tbl (snd (requeue_stale_running_jobs stamp now clock max_age tbl))"

inductive_cases table_stepE: "table_step stamp tbl tbl'"
inductive_cases job_stepE: "job_step stamp tbl tbl'"

definition empty_jobs :: job_table where
  "empty_jobs = \<lparr>jt_jobs = [], jt_next = 1\<rparr>"

abbreviation jobs_reachable :: "(pystr \<Rightarrow> time option) \<Rightarrow> job_table \<Rightarrow> bool" where
  "jobs_reachable stamp \<equiv> (job_step stamp)\<^sup>*\<^sup>* empty_jobs"

section \<open>The life cycle of a job\<close>

text \<open>Which columns a status fills\<close>

definition job_ok :: "job \<Rightarrow> bool" where
  "job_ok j =
     (case j_status j of
        Queued \<Rightarrow> j_started j = None \<and> j_heartbeat j = None \<and> j_worker j = None \<and> j_finished j = None
      | Running \<Rightarrow> j_started j \<noteq> None \<and> j_heartbeat j \<noteq> None \<and> j_worker j \<noteq> None \<and> j_finished j = None
      | Done \<Rightarrow> j_result j \<noteq> None \<and> j_error j = None \<and> j_finished j \<noteq> None
      | Failed \<Rightarrow> j_result j \<noteq> None \<and> j_error j \<noteq> None \<and> j_finished j \<noteq> None)"

definition ids_ok :: "job_table \<Rightarrow> bool" where
  "ids_ok tbl \<longleftrightarrow> sorted_wrt (<) (map j_id (jt_jobs tbl)) \<and> (\<forall>j \<in> set (jt_jobs tbl). j_id j < jt_next tbl)"

definition jobs_ok :: "job_table \<Rightarrow> bool" where
  "jobs_ok tbl \<longleftrightarrow> ids_ok tbl \<and> list_all job_ok (jt_jobs tbl)"

text \<open>An update that keeps the keys of a job and its life cycle, and starts nothing that was finished\<close>

definition job_update :: "(job \<Rightarrow> bool) \<Rightarrow> (job \<Rightarrow> job) \<Rightarrow> bool" where
  "job_update P f \<longleftrightarrow> (\<forall>j. P j \<longrightarrow> j_id (f j) = j_id j \<and> j_kind (f j) = j_kind j \<and> j_target (f j) = j_target j
     \<and> (job_ok j \<longrightarrow> job_ok (f j)) \<and> (is_active (f j) \<longrightarrow> is_active j))"

lemma jt_next_update [simp]: "jt_next (update_jobs P f tbl) = jt_next tbl"
  by (simp add: update_jobs_def)

lemma jt_jobs_update: "jt_jobs (update_jobs P f tbl) = update_rows P f (jt_jobs tbl)"
  by (simp add: update_jobs_def)

lemma update_jobs_ok:
  assumes "job_update P f" "jobs_ok tbl"
  shows "jobs_ok (update_jobs P f tbl)"
proof -
  have "map j_id (jt_jobs (update_jobs P f tbl)) = map j_id (jt_jobs tbl)"
    unfolding jt_jobs_update using assms(1) by (intro update_rows_keep) (simp add: job_update_def)
  moreover have "\<forall>j \<in> set (jt_jobs (update_jobs P f tbl)). j_id j < jt_next tbl \<and> job_ok j"
    using assms by (auto simp: jt_jobs_update set_update_rows jobs_ok_def ids_ok_def job_update_def list_all_iff)
  ultimately show ?thesis
    using assms(2) by (auto simp: jobs_ok_def ids_ok_def list_all_iff)
qed

lemma create_job_ok: "jobs_ok tbl \<Longrightarrow> jobs_ok (snd (create_job now kind target payload tbl))"
  by (auto simp: create_job_def jobs_ok_def ids_ok_def sorted_wrt_append job_ok_def)

lemma start_job_update: "job_update (\<lambda>j. j_id j = jid \<and> j_status j = Queued) (start_job now worker)"
  by (auto simp: job_update_def start_job_def job_ok_def coalesce_def is_active_def)

lemma touch_update:
  "job_update (\<lambda>j. j_id j = jid \<and> j_status j = Running)
     (\<lambda>j. j\<lparr>j_heartbeat := Some now, j_worker := Some w, j_updated := now\<rparr>)"
  by (auto simp: job_update_def job_ok_def is_active_def)

lemma done_update:
  "job_update (\<lambda>j. j_id j = jid)
     (\<lambda>j. j\<lparr>j_status := Done, j_result := Some r, j_error := None, j_finished := Some now, j_updated := now\<rparr>)"
  by (auto simp: job_update_def job_ok_def is_active_def)

lemma failed_update:
  "job_update (\<lambda>j. j_id j = jid)
     (\<lambda>j. j\<lparr>j_status := Failed, j_result := Some r, j_error := Some e, j_finished := Some now, j_updated := now\<rparr>)"
  by (auto simp: job_update_def job_ok_def is_active_def)

lemma requeue_update:
  "job_update (is_stale_running stamp clock max_age)
     (\<lambda>j. j\<lparr>j_status := Queued, j_started := None, j_heartbeat := None, j_worker := None,
            j_error := coalesce (j_error j) msg, j_updated := now\<rparr>)"
  by (auto simp: job_update_def job_ok_def is_active_def is_stale_running_def)

text \<open>Every statement of a worker is such an update.\<close>

lemma claim_cases:
  obtains "claim_next_job now kinds worker tbl = (None, tbl)" "queued_jobs kinds tbl = []"
  | row where "first_by j_id (queued_jobs kinds tbl) = Some row"
      "claim_next_job now kinds worker tbl =
        (Some ((normalize_job row)\<lparr>ji_job := start_job now worker row\<rparr>),
         update_jobs (\<lambda>j. j_id j = j_id row \<and> j_status j = Queued) (start_job now worker) tbl)"
  by (cases "first_by j_id (queued_jobs kinds tbl)") (auto simp: claim_next_job_def)

lemma claim_is_update: "\<exists>P f. job_update P f \<and> snd (claim_next_job now kinds worker tbl) = update_jobs P f tbl"
proof (cases rule: claim_cases [of now kinds worker tbl])
  case 1
  have "tbl = update_jobs (\<lambda>_. False) id tbl" by (simp add: update_jobs_def update_rows_def)
  with 1 show ?thesis by (metis job_update_def snd_conv)
next
  case (2 row)
  then show ?thesis using start_job_update by (metis snd_conv)
qed

lemma fail_is_update: "\<exists>P f. job_update P f \<and> mark_job_failed now jid msg tbl = update_jobs P f tbl"
  unfolding mark_job_failed_def using failed_update by blast

lemma done_is_update: "\<exists>P f. job_update P f \<and> mark_job_done now jid outcome tbl = update_jobs P f tbl"
  unfolding mark_job_done_def using done_update by blast

lemma touch_is_update: "\<exists>P f. job_update P f \<and> touch_job_heartbeat now worker jid tbl = update_jobs P f tbl"
  unfolding touch_job_heartbeat_def using touch_update by blast

lemma requeue_is_update:
  "\<exists>P f. job_update P f \<and> snd (requeue_stale_running_jobs stamp now clock max_age tbl) = update_jobs P f tbl"
  unfolding requeue_stale_running_jobs_def snd_conv using requeue_update by blast

lemmas is_update = claim_is_update fail_is_update done_is_update touch_is_update requeue_is_update

section \<open>One active job per kind and target\<close>

text \<open>Only a search of one subscription has a target.\<close>

definition target_fits :: "pystr \<Rightarrow> int option \<Rightarrow> bool" where
  "target_fits kind target \<longleftrightarrow> (kind = SEARCH \<longleftrightarrow> target \<noteq> None)"

text \<open>
  A job that is queued or running is the latest of its kind and target.  The search of all
  subscriptions is left out: when it is forced it may run beside one that was not.
\<close>

definition latest_active :: "job_table \<Rightarrow> bool" where
  "latest_active tbl \<longleftrightarrow> (\<forall>j \<in> set (jt_jobs tbl). is_active j \<and> j_kind j \<noteq> SEARCH_ALL \<longrightarrow>
     (\<forall>j' \<in> set (jt_jobs tbl). j_kind j' = j_kind j \<and> j_target j' = j_target j \<longrightarrow> j_id j' \<le> j_id j))"

definition jobs_inv :: "job_table \<Rightarrow> bool" where
  "jobs_inv tbl \<longleftrightarrow> jobs_ok tbl \<and> (\<forall>j \<in> set (jt_jobs tbl). target_fits (j_kind j) (j_target j)) \<and> latest_active tbl"

lemma update_jobs_inv:
  assumes "job_update P f" "jobs_inv tbl"
  shows "jobs_inv (update_jobs P f tbl)"
proof -
  have same: "\<exists>j \<in> set (jt_jobs tbl). j_id j' = j_id j \<and> j_kind j' = j_kind j \<and> j_target j' = j_target j
      \<and> (is_active j' \<longrightarrow> is_active j)" if "j' \<in> set (jt_jobs (update_jobs P f tbl))" for j'
    using that assms(1) by (auto simp: jt_jobs_update set_update_rows job_update_def)
  have "latest_active (update_jobs P f tbl)"
    unfolding latest_active_def
  proof (intro ballI impI)
    fix a b
    assume "a \<in> set (jt_jobs (update_jobs P f tbl))" "is_active a \<and> j_kind a \<noteq> SEARCH_ALL"
      "b \<in> set (jt_jobs (update_jobs P f tbl))" "j_kind b = j_kind a \<and> j_target b = j_target a"
    then show "j_id b \<le> j_id a"
      using same [of a] same [of b] assms(2) unfolding jobs_inv_def latest_active_def by metis
  qed
  moreover have "\<forall>j \<in> set (jt_jobs (update_jobs P f tbl)). target_fits (j_kind j) (j_target j)"
    using same assms(2) unfolding jobs_inv_def by metis
  ultimately show ?thesis
    using update_jobs_ok [OF assms(1)] assms(2) by (simp add: jobs_inv_def)
qed

lemma create_reply_table: "snd (create_reply now kind target payload tbl) = snd (create_job now kind target payload tbl)"
  by (simp add: create_reply_def split: prod.splits)

lemma created_or_old:
  "j \<in> set (jt_jobs (snd (create_job now kind target payload tbl))) \<Longrightarrow>
     j \<in> set (jt_jobs tbl) \<or> j_id j = jt_next tbl \<and> j_kind j = kind \<and> j_target j = target"
  by (auto simp: create_job_def)

lemma create_inv:
  assumes "jobs_inv tbl" "target_fits kind target"
    "kind \<noteq> SEARCH_ALL \<Longrightarrow> \<forall>j \<in> set (jt_jobs tbl). j_kind j = kind \<and> j_target j = target \<longrightarrow> \<not> is_active j"
  shows "jobs_inv (snd (create_reply now kind target payload tbl))"
proof -
  have "jobs_ok (snd (create_job now kind target payload tbl))"
    using assms(1) by (simp add: jobs_inv_def create_job_ok)
  moreover have "\<forall>j \<in> set (jt_jobs (snd (create_job now kind target payload tbl))). target_fits (j_kind j) (j_target j)"
    using assms(1,2) by (auto simp: jobs_inv_def create_job_def)
  moreover have "latest_active (snd (create_job now kind target payload tbl))"
    unfolding latest_active_def
  proof (intro ballI impI)
    fix a b
    assume a: "a \<in> set (jt_jobs (snd (create_job now kind target payload tbl)))" "is_active a \<and> j_kind a \<noteq> SEARCH_ALL"
      and b: "b \<in> set (jt_jobs (snd (create_job now kind target payload tbl)))"
        "j_kind b = j_kind a \<and> j_target b = j_target a"
    show "j_id b \<le> j_id a"
      using created_or_old [OF a(1)]
    proof
      assume old: "a \<in> set (jt_jobs tbl)"
      then have "\<not> (j_kind a = kind \<and> j_target a = target)"
        using assms(3) a(2) by blast
      with created_or_old [OF b(1)] b(2) have "b \<in> set (jt_jobs tbl)" by auto
      with old a(2) b(2) assms(1) show ?thesis
        unfolding jobs_inv_def latest_active_def by blast
    next
      assume "j_id a = jt_next tbl \<and> j_kind a = kind \<and> j_target a = target"
      with created_or_old [OF b(1)] assms(1) show ?thesis
        by (auto simp: jobs_inv_def jobs_ok_def ids_ok_def less_imp_le)
    qed
  qed
  ultimately show ?thesis
    by (simp add: create_reply_table jobs_inv_def)
qed

lemma ids_inj: "jobs_inv tbl \<Longrightarrow> a \<in> set (jt_jobs tbl) \<Longrightarrow> b \<in> set (jt_jobs tbl) \<Longrightarrow> j_id a = j_id b \<Longrightarrow> a = b"
  by (auto simp: jobs_inv_def jobs_ok_def ids_ok_def strict_sorted_iff distinct_map dest: inj_onD)

definition same_class :: "pystr \<Rightarrow> int option \<Rightarrow> job_table \<Rightarrow> job list" where
  "same_class kind target tbl = filter (\<lambda>j. j_kind j = kind \<and> j_target j = target) (jt_jobs tbl)"

lemma latest_job_class:
  assumes "jobs_inv tbl" "target_fits kind target"
  shows "map_option ji_job (latest_job kind target tbl) = last_by j_id (same_class kind target tbl)"
proof -
  have "j_kind j = kind \<and> (case target of None \<Rightarrow> True | Some t \<Rightarrow> j_target j = Some t)
      \<longleftrightarrow> j_kind j = kind \<and> j_target j = target" if "j \<in> set (jt_jobs tbl)" for j
  proof -
    have "target_fits (j_kind j) (j_target j)" using assms(1) that by (simp add: jobs_inv_def)
    with assms(2) show ?thesis by (cases target) (auto simp: target_fits_def)
  qed
  then have "filter (\<lambda>j. j_kind j = kind \<and> (case target of None \<Rightarrow> True | Some t \<Rightarrow> j_target j = Some t)) (jt_jobs tbl)
      = same_class kind target tbl"
    unfolding same_class_def by (intro filter_cong refl)
  then show ?thesis
    by (simp add: latest_job_def option.map_comp comp_def normalize_job_def option.map_ident)
qed

text \<open>A job that is active is found as the latest; if the latest is not active, none is.\<close>

lemma active_is_latest:
  assumes "jobs_inv tbl" "target_fits (j_kind j) (j_target j)" "j_kind j \<noteq> SEARCH_ALL"
    "j \<in> set (jt_jobs tbl)" "is_active j"
  shows "map_option ji_job (latest_job (j_kind j) (j_target j) tbl) = Some j"
proof -
  have j: "j \<in> set (same_class (j_kind j) (j_target j) tbl)"
    using assms(4) by (simp add: same_class_def)
  then obtain l where l: "last_by j_id (same_class (j_kind j) (j_target j) tbl) = Some l"
    by (metis empty_iff last_by_None list.set(1) option.exhaust)
  from last_by_Some [OF l] j have "l \<in> set (same_class (j_kind j) (j_target j) tbl)" "j_id j \<le> j_id l"
    by blast+
  then have lin: "l \<in> set (jt_jobs tbl)" and "j_kind l = j_kind j \<and> j_target l = j_target j" and up: "j_id j \<le> j_id l"
    by (auto simp: same_class_def)
  then have "j_id l \<le> j_id j"
    using assms(1,3-5) unfolding jobs_inv_def latest_active_def by blast
  with up have "l = j" using ids_inj [OF assms(1) lin assms(4)] by simp
  then show ?thesis using l latest_job_class [OF assms(1,2)] by simp
qed

lemma fail_inv: "jobs_inv tbl \<Longrightarrow> jobs_inv (mark_job_failed now jid msg tbl)"
  using fail_is_update update_jobs_inv by metis

lemma active_after_fail:
  "j \<in> set (jt_jobs (mark_job_failed now jid msg tbl)) \<Longrightarrow> is_active j \<Longrightarrow> j \<in> set (jt_jobs tbl) \<and> j_id j \<noteq> jid"
  by (auto simp: mark_job_failed_def jt_jobs_update set_update_rows is_active_def)

lemma reuse_inv:
  assumes "jobs_inv tbl" "target_fits kind target"
  shows "jobs_inv (snd (reuse_or_create_job stamp now clock kind target payload tbl))"
proof -
  have others: "map_option ji_job (latest_job kind target tbl) = Some j"
    if "kind \<noteq> SEARCH_ALL" "j \<in> set (jt_jobs tbl)" "is_active j" "j_kind j = kind" "j_target j = target" for j
    using active_is_latest [OF assms(1), of j] that assms(2) by auto
  show ?thesis
  proof (cases "map_option ji_job (latest_job kind target tbl)")
    case None
    then show ?thesis
      using create_inv [OF assms] others unfolding reuse_or_create_job_def by auto
  next
    case (Some l)
    let ?tbl = "mark_job_failed now (j_id l) (u ''stale job superseded by reschedule'') tbl"
    have gone: "\<forall>j \<in> set (jt_jobs ?tbl). j_kind j = kind \<and> j_target j = target \<longrightarrow> \<not> is_active j" if "kind \<noteq> SEARCH_ALL"
      using active_after_fail others [OF that] Some by fastforce
    have old: "\<forall>j \<in> set (jt_jobs tbl). j_kind j = kind \<and> j_target j = target \<longrightarrow> \<not> is_active j"
      if "kind \<noteq> SEARCH_ALL" "\<not> is_active l"
      using others [OF that(1)] Some that(2) by auto
    show ?thesis
      using assms(1) create_inv [OF assms old] create_inv [OF fail_inv [OF assms(1)] assms(2) gone]
      unfolding reuse_or_create_job_def Some by simp
  qed
qed

lemma forced_inv: "jobs_inv tbl \<Longrightarrow> jobs_inv (snd (schedule_forced_search_all now tbl))"
proof -
  assume inv: "jobs_inv tbl"
  have fits: "target_fits SEARCH_ALL None" by (simp add: target_fits_def kind_defs u_def)
  have "jobs_inv (snd (create_reply now SEARCH_ALL None (force_payload True) tbl'))" if "jobs_inv tbl'" for tbl'
    by (rule create_inv [OF that fits]) simp
  with inv fail_inv show ?thesis
    by (simp add: schedule_forced_search_all_def Let_def split: option.splits)
qed

lemma table_step_inv: "table_step stamp tbl tbl' \<Longrightarrow> jobs_inv tbl \<Longrightarrow> jobs_inv tbl'"
proof (induction rule: table_step.induct)
  case (search tbl now clock sid)
  then show ?case unfolding schedule_subscription_search_def by (intro reuse_inv) (simp_all add: target_fits_def)
next
  case (search_all tbl now clock force)
  then show ?case
    using forced_inv reuse_inv [of tbl SEARCH_ALL None]
    by (simp add: schedule_search_all_def target_fits_def kind_defs u_def)
next
  case (emby_sync tbl now clock)
  then show ?case
    unfolding schedule_emby_sync_def by (intro reuse_inv) (simp_all add: target_fits_def kind_defs u_def)
next
  case (retry tbl now clock limit)
  then show ?case
    unfolding schedule_retry_def by (intro reuse_inv) (simp_all add: target_fits_def kind_defs u_def)
qed (metis update_jobs_inv is_update)+

lemma job_step_inv: "job_step stamp tbl tbl' \<Longrightarrow> jobs_inv tbl \<Longrightarrow> jobs_inv tbl'"
  by (erule job_stepE) (use table_step_inv update_jobs_inv requeue_is_update in metis)+

lemma empty_jobs_inv: "jobs_inv empty_jobs"
  by (simp add: jobs_inv_def jobs_ok_def ids_ok_def latest_active_def empty_jobs_def)

lemma jobs_reachable_inv: "jobs_reachable stamp tbl \<Longrightarrow> jobs_inv tbl"
  by (induction rule: rtranclp_induct) (auto intro: empty_jobs_inv job_step_inv)

text \<open>A job that is queued or running is the only one of its kind and target.\<close>

lemma one_active:
  assumes "jobs_inv tbl" "a \<in> set (jt_jobs tbl)" "b \<in> set (jt_jobs tbl)" "is_active a" "is_active b"
    "j_kind a = j_kind b" "j_target a = j_target b" "j_kind a \<noteq> SEARCH_ALL"
  shows "a = b"
  using assms ids_inj [OF assms(1-3)] unfolding jobs_inv_def latest_active_def by (metis order_antisym)

section \<open>Finished jobs stay finished\<close>

definition finished_in :: "int \<Rightarrow> job_table \<Rightarrow> bool" where
  "finished_in jid tbl \<longleftrightarrow> jid < jt_next tbl \<and> (\<forall>j \<in> set (jt_jobs tbl). j_id j = jid \<longrightarrow> \<not> is_active j)"

lemma update_finished: "job_update P f \<Longrightarrow> finished_in jid tbl \<Longrightarrow> finished_in jid (update_jobs P f tbl)"
  by (auto simp: finished_in_def jt_jobs_update set_update_rows job_update_def)

lemma fail_finished: "finished_in jid tbl \<Longrightarrow> finished_in jid (mark_job_failed now jid' msg tbl)"
  using fail_is_update update_finished by metis

lemma create_finished: "finished_in jid tbl \<Longrightarrow> finished_in jid (snd (create_reply now kind target payload tbl))"
  by (auto simp: create_reply_table finished_in_def create_job_def)

lemma reuse_finished: "finished_in jid tbl \<Longrightarrow> finished_in jid (snd (reuse_or_create_job stamp now clock kind target payload tbl))"
  using create_finished fail_finished
  by (simp add: reuse_or_create_job_def split: option.splits)

lemma forced_finished: "finished_in jid tbl \<Longrightarrow> finished_in jid (snd (schedule_forced_search_all now tbl))"
  using create_finished fail_finished
  by (simp add: schedule_forced_search_all_def Let_def split: option.splits)

lemma table_step_finished: "table_step stamp tbl tbl' \<Longrightarrow> finished_in jid tbl \<Longrightarrow> finished_in jid tbl'"
proof (induction rule: table_step.induct)
qed (use reuse_finished forced_finished in
      \<open>simp_all add: schedule_subscription_search_def schedule_search_all_def schedule_emby_sync_def schedule_retry_def\<close>,
     (metis update_finished is_update)+)

lemma job_step_finished: "job_step stamp tbl tbl' \<Longrightarrow> finished_in jid tbl \<Longrightarrow> finished_in jid tbl'"
  by (erule job_stepE) (use table_step_finished update_finished requeue_is_update in metis)+

lemma steps_finished: "(job_step stamp)\<^sup>*\<^sup>* tbl tbl' \<Longrightarrow> finished_in jid tbl \<Longrightarrow> finished_in jid tbl'"
  by (induction rule: rtranclp_induct) (auto intro: job_step_finished)

end
