(* ===== verification/Job_Worker.thy ===== *)
theory Job_Worker
  imports Jobs
begin

text \<open>
  \<open>app/services/job_worker.py\<close>: the worker that claims queued jobs and runs them.  What a job runs (a
  search, a synchronisation, a retry) is an argument.  The worker sees the table through the locale
  \<open>job_source\<close>, a queue that is served in order; the table of \<open>Jobs\<close> is shown to be one.  Shown: a
  queued job is taken up after at most as many turns as there are queued jobs before it, whatever
  is scheduled meanwhile, and a worker that is left alone empties the queue.
\<close>

section \<open>The queue as the worker sees it\<close>

locale job_source =
  fixes claim :: "'w \<Rightarrow> 's \<Rightarrow> 'j option \<times> 's"
    and waiting :: "'s \<Rightarrow> 'j list"
    and invar :: "'s \<Rightarrow> bool"
  assumes claim_empty: "invar s \<Longrightarrow> waiting s = [] \<Longrightarrow> claim w s = (None, s)"
    and claim_next: "invar s \<Longrightarrow> waiting s = j # js \<Longrightarrow> \<exists>s'. claim w s = (Some j, s') \<and> waiting s' = js \<and> invar s'"

text \<open>The claims of several workers, one after the other\<close>

primrec claim_all :: "('w \<Rightarrow> 's \<Rightarrow> 'j option \<times> 's) \<Rightarrow> 'w list \<Rightarrow> 's \<Rightarrow> 'j list \<times> 's" where
  "claim_all claim [] s = ([], s)"
| "claim_all claim (w # ws) s =
     (case claim w s of
        (None, s') \<Rightarrow> claim_all claim ws s'
      | (Some j, s') \<Rightarrow> (case claim_all claim ws s' of (js, s'') \<Rightarrow> (j # js, s'')))"

context job_source begin

lemma claims_in_order:
  "invar s \<Longrightarrow> fst (claim_all claim ws s) = take (length ws) (waiting s)
     \<and> waiting (snd (claim_all claim ws s)) = drop (length ws) (waiting s) \<and> invar (snd (claim_all claim ws s))"
proof (induction ws arbitrary: s)
  case (Cons w ws)
  show ?case
  proof (cases "waiting s")
    case Nil
    then show ?thesis using Cons claim_empty by simp
  next
    case (Cons j js)
    then obtain s' where "claim w s = (Some j, s')" "waiting s' = js" "invar s'"
      using claim_next Cons.prems by blast
    then show ?thesis using Cons Cons.IH [of s'] by (auto split: prod.splits)
  qed
qed simp

text \<open>No job is given to two workers, and enough claims empty the queue.\<close>

lemma claimed_once: "invar s \<Longrightarrow> distinct (waiting s) \<Longrightarrow> distinct (fst (claim_all claim ws s))"
  using claims_in_order by simp

lemma claims_exhaust: "invar s \<Longrightarrow> length (waiting s) \<le> length ws \<Longrightarrow>
    fst (claim_all claim ws s) = waiting s \<and> waiting (snd (claim_all claim ws s)) = []"
  using claims_in_order by simp

end

section \<open>The table is such a queue\<close>

definition claim_id :: "pystr list \<Rightarrow> pystr \<times> pystr \<Rightarrow> job_table \<Rightarrow> int option \<times> job_table" where
  "claim_id kinds w tbl = apfst (map_option (j_id \<circ> ji_job)) (claim_next_job (fst w) kinds (snd w) tbl)"

definition waiting_ids :: "pystr list \<Rightarrow> job_table \<Rightarrow> int list" where
  "waiting_ids kinds tbl = map j_id (queued_jobs kinds tbl)"

lemma sorted_filter_ids: "sorted_wrt (<) (map f xs) \<Longrightarrow> sorted_wrt (<) (map f (filter P xs))"
  by (induction xs) auto

lemma queued_sorted: "ids_ok tbl \<Longrightarrow> sorted_wrt (<) (map j_id (queued_jobs kinds tbl))"
  unfolding queued_jobs_def ids_ok_def by (blast intro: sorted_filter_ids)

lemma first_by_sorted:
  assumes "sorted_wrt (<) (map key xs)"
  shows "first_by key xs = (case xs of [] \<Rightarrow> None | x # _ \<Rightarrow> Some x)"
proof -
  have "sort_key key xs = xs"
    using assms by (simp add: sort_key_id_if_sorted strict_sorted_iff)
  then show ?thesis by (simp add: first_by_def split: list.splits)
qed

text \<open>A statement that makes nothing queued takes the jobs it selects from the queue.\<close>

lemma queued_after_update:
  assumes "\<And>j. P j \<Longrightarrow> j_status (f j) \<noteq> Queued"
  shows "queued_jobs kinds (update_jobs P f tbl) = filter (\<lambda>j. \<not> P j) (queued_jobs kinds tbl)"
proof -
  have "filter Q (update_rows P f rows) = filter (\<lambda>j. Q j \<and> \<not> P j) rows" if "\<And>j. P j \<Longrightarrow> \<not> Q (f j)" for Q rows
    using that by (induction rows) (auto simp: update_rows_def)
  then show ?thesis
    by (simp add: queued_jobs_def jt_jobs_update assms conj_ac)
qed

lemma claim_takes_first:
  assumes "ids_ok tbl"
  shows "claim_next_job now kinds worker tbl =
    (case queued_jobs kinds tbl of
       [] \<Rightarrow> (None, tbl)
     | row # _ \<Rightarrow> (Some ((normalize_job row)\<lparr>ji_job := start_job now worker row\<rparr>),
         update_jobs (\<lambda>j. j_id j = j_id row \<and> j_status j = Queued) (start_job now worker) tbl))"
  by (simp add: claim_next_job_def first_by_sorted [OF queued_sorted [OF assms]] split: list.splits)

lemma queued_status: "j \<in> set (queued_jobs kinds tbl) \<Longrightarrow> j_status j = Queued"
  by (simp add: queued_jobs_def)

lemma queued_after_claim:
  "queued_jobs kinds' (update_jobs (\<lambda>j. j_id j = jid \<and> j_status j = Queued) (start_job now worker) tbl)
     = filter (\<lambda>j. j_id j \<noteq> jid) (queued_jobs kinds' tbl)"
proof -
  have "queued_jobs kinds' (update_jobs (\<lambda>j. j_id j = jid \<and> j_status j = Queued) (start_job now worker) tbl)
     = filter (\<lambda>j. \<not> (j_id j = jid \<and> j_status j = Queued)) (queued_jobs kinds' tbl)"
    by (rule queued_after_update) (simp add: start_job_def)
  also have "\<dots> = filter (\<lambda>j. j_id j \<noteq> jid) (queued_jobs kinds' tbl)"
    by (rule filter_cong) (auto dest: queued_status)
  finally show ?thesis .
qed

interpretation queue: job_source "claim_id kinds" "waiting_ids kinds" jobs_ok for kinds
proof
  fix tbl w
  assume ok: "jobs_ok tbl"
  then have ids: "ids_ok tbl" by (simp add: jobs_ok_def)
  {
    assume "waiting_ids kinds tbl = []"
    then show "claim_id kinds w tbl = (None, tbl)"
      by (simp add: claim_id_def waiting_ids_def claim_takes_first [OF ids])
  next
    fix i js
    assume "waiting_ids kinds tbl = i # js"
    then obtain row rows where q: "queued_jobs kinds tbl = row # rows" "i = j_id row" "js = map j_id rows"
      by (auto simp: waiting_ids_def)
    let ?tbl = "update_jobs (\<lambda>j. j_id j = j_id row \<and> j_status j = Queued) (start_job (fst w) (snd w)) tbl"
    have "filter (\<lambda>j. j_id j \<noteq> j_id row) (row # rows) = rows"
      using queued_sorted [OF ids, of kinds] q(1) by (auto simp: filter_id_conv)
    then have "waiting_ids kinds ?tbl = js"
      by (simp add: waiting_ids_def queued_after_claim q)
    moreover have "jobs_ok ?tbl"
      using update_jobs_ok [OF start_job_update ok] .
    ultimately show "\<exists>s'. claim_id kinds w tbl = (Some i, s') \<and> waiting_ids kinds s' = js \<and> jobs_ok s'"
      by (simp add: claim_id_def claim_takes_first [OF ids] q normalize_job_def start_job_def)
  }
qed

section \<open>One turn of the worker\<close>

definition SUPPORTED_KINDS :: "pystr list" where
  "SUPPORTED_KINDS = [SEARCH, SEARCH_ALL, EMBY_SYNC, RETRY_FAILED]"

definition NON_TG_KINDS :: "pystr list" where
  "NON_TG_KINDS = [EMBY_SYNC, RETRY_FAILED]"

definition TG_KINDS :: "pystr list" where
  "TG_KINDS = [SEARCH, SEARCH_ALL]"

datatype search_outcome = Created nat | Search_Timed_Out | Search_Raised pystr

text \<open>What the jobs run; \<open>Inl\<close> is the text of an exception.\<close>

record job_bodies =
  jb_search :: "int \<Rightarrow> search_outcome"
  jb_timeout_text :: pystr \<comment> \<open>the timeout in seconds, as it is printed\<close>
  jb_search_all :: "bool \<Rightarrow> pystr + pyval"
  jb_emby_sync :: "pystr + pyval"
  jb_retry :: "int \<Rightarrow> pystr + pyval"
  jb_int_error :: "pyval \<Rightarrow> pystr" \<comment> \<open>the message of \<open>int(v)\<close> where it raises\<close>

text \<open>\<open>result if isinstance(result, dict) else ...\<close>\<close>

definition dict_or :: "pyval \<Rightarrow> pyval \<Rightarrow> pyval" where
  "dict_or v dflt = (if is_pdict v then v else dflt)"

definition ok_result :: pyval where
  "ok_result = PDict [(u ''ok'', PBool True)]"

definition run_search :: "job_bodies \<Rightarrow> job_item \<Rightarrow> pystr + pyval" where
  "run_search bodies item =
     (let target = (case j_target (ji_job item) of None \<Rightarrow> PNone | Some t \<Rightarrow> PInt t);
          v = por (por target (pget (por (ji_payload item) (PDict [])) (u ''id''))) (PInt 0)
      in case int_of_val v of
           None \<Rightarrow> Inl (jb_int_error bodies v)
         | Some sid \<Rightarrow>
             if sid \<le> 0 then Inl (u ''subscription_search missing target_id'')
             else case jb_search bodies sid of
                    Created n \<Rightarrow> Inr (PDict [(u ''id'', PInt sid), (u ''created'', PInt (int n))])
                  | Search_Timed_Out \<Rightarrow> Inl (u ''subscription_search timed out after '' @ jb_timeout_text bodies @ u ''s'')
                  | Search_Raised e \<Rightarrow> Inl e)"

definition map_result :: "('a \<Rightarrow> 'b) \<Rightarrow> 'e + 'a \<Rightarrow> 'e + 'b" where
  "map_result f r = (case r of Inl e \<Rightarrow> Inl e | Inr v \<Rightarrow> Inr (f v))"

definition dispatch :: "job_bodies \<Rightarrow> job_item \<Rightarrow> pystr + pyval" where
  "dispatch bodies item =
     (let kind = j_kind (ji_job item); payload = por (ji_payload item) (PDict []) in
      if kind = SEARCH then run_search bodies item
      else if kind = SEARCH_ALL
      then map_result (\<lambda>v. dict_or v ok_result) (jb_search_all bodies (truthy (pget payload (u ''force''))))
      else if kind = EMBY_SYNC then map_result (\<lambda>v. dict_or v ok_result) (jb_emby_sync bodies)
      else if kind = RETRY_FAILED
      then let v = por (pget payload (u ''limit'')) (PInt 12) in
           (case int_of_val v of
              None \<Rightarrow> Inl (jb_int_error bodies v)
            | Some limit \<Rightarrow>
                map_result (\<lambda>v. dict_or v (PDict [(u ''ok'', PBool True), (u ''result'', v)])) (jb_retry bodies limit))
      else Inl (u ''unsupported job kind: '' @ kind))"

text \<open>The heartbeat task touches the job before the body runs and until it ends; one touch stands for them.\<close>

definition execute_job :: "job_bodies \<Rightarrow> pystr \<Rightarrow> pystr \<Rightarrow> job_item \<Rightarrow> job_table \<Rightarrow> job_table" where
  "execute_job bodies now worker item tbl =
     (let jid = j_id (ji_job item); tbl' = touch_job_heartbeat now worker jid tbl in
      case dispatch bodies item of
        Inr result \<Rightarrow> mark_job_done now jid (dict_or result ok_result) tbl'
      | Inl e \<Rightarrow> mark_job_failed now jid e tbl')"

text \<open>Two jobs run side by side; \<open>extra_first\<close> says which one ends first.\<close>

definition execute_with_sidecars ::
    "job_bodies \<Rightarrow> bool \<Rightarrow> pystr \<Rightarrow> pystr \<Rightarrow> job_item \<Rightarrow> job_table \<Rightarrow> job_table" where
  "execute_with_sidecars bodies extra_first now worker item tbl =
     (let run = execute_job bodies now worker in
      if j_kind (ji_job item) \<in> set TG_KINDS then run item tbl
      else case claim_next_job now NON_TG_KINDS worker tbl of
             (None, tbl') \<Rightarrow> run item tbl'
           | (Some extra, tbl') \<Rightarrow>
               if j_id (ji_job extra) = j_id (ji_job item) then run item tbl'
               else if extra_first then run item (run extra tbl')
               else run extra (run item tbl'))"

text \<open>A turn of the loop of \<open>_run\<close> after the requeueing; an idle turn changes nothing.\<close>

definition worker_turn :: "job_bodies \<Rightarrow> bool \<Rightarrow> pystr \<Rightarrow> pystr \<Rightarrow> job_table \<Rightarrow> job_table" where
  "worker_turn bodies extra_first now worker tbl =
     (case claim_next_job now SUPPORTED_KINDS worker tbl of
        (None, tbl') \<Rightarrow> tbl'
      | (Some item, tbl') \<Rightarrow> execute_with_sidecars bodies extra_first now worker item tbl')"


section \<open>What a turn does to the queue\<close>

definition queued_ids :: "pystr list \<Rightarrow> job_table \<Rightarrow> int set" where
  "queued_ids kinds tbl = j_id ` set (queued_jobs kinds tbl)"

lemma queued_ids_update:
  "(\<And>j. P j \<Longrightarrow> j_status (f j) \<noteq> Queued) \<Longrightarrow> queued_ids kinds (update_jobs P f tbl) \<subseteq> queued_ids kinds tbl"
  by (auto simp: queued_ids_def queued_after_update)

lemma marks_queued:
  "queued_ids kinds (mark_job_done now jid outcome tbl) \<subseteq> queued_ids kinds tbl"
  "queued_ids kinds (mark_job_failed now jid msg tbl) \<subseteq> queued_ids kinds tbl"
  "queued_ids kinds (touch_job_heartbeat now worker jid tbl) \<subseteq> queued_ids kinds tbl"
  unfolding mark_job_done_def mark_job_failed_def touch_job_heartbeat_def
  by (rule queued_ids_update; simp)+

lemma claim_queued: "queued_ids kinds (snd (claim_next_job now kinds' worker tbl)) \<subseteq> queued_ids kinds tbl"
  by (cases rule: claim_cases [of now kinds' worker tbl]) (auto simp: queued_ids_def queued_after_claim)

lemma execute_queued: "queued_ids kinds (execute_job bodies now worker item tbl) \<subseteq> queued_ids kinds tbl"
  unfolding execute_job_def Let_def using marks_queued by (auto split: sum.splits) blast+

lemma sidecars_queued: "queued_ids kinds (execute_with_sidecars bodies ef now worker item tbl) \<subseteq> queued_ids kinds tbl"
proof (cases "claim_next_job now NON_TG_KINDS worker tbl")
  case (Pair x tbl')
  then have tbl': "queued_ids kinds tbl' \<subseteq> queued_ids kinds tbl"
    using claim_queued [of kinds now NON_TG_KINDS worker tbl] by simp
  then have one: "queued_ids kinds (execute_job bodies now worker a tbl') \<subseteq> queued_ids kinds tbl" for a
    using execute_queued by (rule order_trans [rotated])
  then have "queued_ids kinds (execute_job bodies now worker b (execute_job bodies now worker a tbl')) \<subseteq> queued_ids kinds tbl" for a b
    using execute_queued by (rule order_trans [rotated])
  with one execute_queued show ?thesis
    using Pair unfolding execute_with_sidecars_def Let_def by (simp split: option.splits)
qed

text \<open>A turn takes the oldest queued job from the queue and adds none.\<close>

lemma turn_queued:
  assumes "ids_ok tbl" "queued_jobs SUPPORTED_KINDS tbl = row # rows"
  shows "queued_ids SUPPORTED_KINDS (worker_turn bodies ef now worker tbl) \<subseteq> queued_ids SUPPORTED_KINDS tbl - {j_id row}"
proof -
  let ?tbl = "update_jobs (\<lambda>j. j_id j = j_id row \<and> j_status j = Queued) (start_job now worker) tbl"
  have turn: "worker_turn bodies ef now worker tbl =
      execute_with_sidecars bodies ef now worker ((normalize_job row)\<lparr>ji_job := start_job now worker row\<rparr>) ?tbl"
    by (simp add: worker_turn_def claim_takes_first [OF assms(1)] assms(2))
  have "queued_ids SUPPORTED_KINDS ?tbl \<subseteq> queued_ids SUPPORTED_KINDS tbl - {j_id row}"
    by (auto simp: queued_ids_def queued_after_claim)
  with sidecars_queued show ?thesis unfolding turn by (rule order_trans)
qed

lemma turn_queued_any: "queued_ids kinds (worker_turn bodies ef now worker tbl) \<subseteq> queued_ids kinds tbl"
proof (cases "claim_next_job now SUPPORTED_KINDS worker tbl")
  case (Pair x tbl')
  then have tbl': "queued_ids kinds tbl' \<subseteq> queued_ids kinds tbl"
    using claim_queued [of kinds now SUPPORTED_KINDS worker tbl] by simp
  then have "queued_ids kinds (execute_with_sidecars bodies ef now worker item tbl') \<subseteq> queued_ids kinds tbl" for item
    using sidecars_queued by (rule order_trans [rotated])
  with tbl' Pair show ?thesis by (simp add: worker_turn_def split: option.splits)
qed

text \<open>Every turn is made of statements on the table.\<close>

lemma execute_steps: "(table_step stamp)\<^sup>*\<^sup>* tbl (execute_job bodies now worker item tbl)"
proof -
  have "(table_step stamp)\<^sup>*\<^sup>* tbl (touch_job_heartbeat now worker (j_id (ji_job item)) tbl)"
    by (blast intro: table_step.intros)
  then show ?thesis
    unfolding execute_job_def Let_def
    by (auto split: sum.splits intro: rtranclp.rtrancl_into_rtrancl table_step.intros)
qed

lemma claim_steps: "claim_next_job now kinds worker tbl = (x, tbl') \<Longrightarrow> table_step stamp tbl tbl'"
  using table_step.claim by (metis snd_conv)

lemma sidecars_steps: "(table_step stamp)\<^sup>*\<^sup>* tbl (execute_with_sidecars bodies ef now worker item tbl)"
proof (cases "claim_next_job now NON_TG_KINDS worker tbl")
  case (Pair x tbl')
  from claim_steps [OF this] have tbl': "(table_step stamp)\<^sup>*\<^sup>* tbl tbl'" by blast
  have one: "(table_step stamp)\<^sup>*\<^sup>* tbl (execute_job bodies now worker a tbl')" for a
    using tbl' execute_steps by (rule rtranclp_trans)
  have "(table_step stamp)\<^sup>*\<^sup>* tbl (execute_job bodies now worker b (execute_job bodies now worker a tbl'))" for a b
    using one execute_steps by (rule rtranclp_trans)
  with one execute_steps show ?thesis
    using Pair unfolding execute_with_sidecars_def Let_def by (simp split: option.splits)
qed

lemma turn_steps: "(table_step stamp)\<^sup>*\<^sup>* tbl (worker_turn bodies ef now worker tbl)"
proof (cases "claim_next_job now SUPPORTED_KINDS worker tbl")
  case (Pair x tbl')
  from claim_steps [OF this] have tbl': "(table_step stamp)\<^sup>*\<^sup>* tbl tbl'" by blast
  then have "(table_step stamp)\<^sup>*\<^sup>* tbl (execute_with_sidecars bodies ef now worker item tbl')" for item
    using sidecars_steps by (rule rtranclp_trans)
  with tbl' Pair show ?thesis by (simp add: worker_turn_def split: option.splits)
qed

lemma table_steps_inv: "(table_step stamp)\<^sup>*\<^sup>* tbl tbl' \<Longrightarrow> jobs_inv tbl \<Longrightarrow> jobs_inv tbl'"
  by (induction rule: rtranclp_induct) (auto intro: table_step_inv)

lemma turn_inv: "jobs_inv tbl \<Longrightarrow> jobs_inv (worker_turn bodies ef now worker tbl)"
  using turn_steps table_steps_inv by blast



section \<open>No job waits for ever\<close>

text \<open>Turns of the worker among other statements on the table; \<open>n\<close> counts the turns.\<close>

inductive worked :: "(pystr \<Rightarrow> time option) \<Rightarrow> job_bodies \<Rightarrow> nat \<Rightarrow> job_table \<Rightarrow> job_table \<Rightarrow> bool" for stamp bodies where
  start: "worked stamp bodies 0 tbl tbl"
| other: "worked stamp bodies n tbl tbl' \<Longrightarrow> table_step stamp tbl' tbl'' \<Longrightarrow> worked stamp bodies n tbl tbl''"
| turn: "worked stamp bodies n tbl tbl' \<Longrightarrow> worked stamp bodies (Suc n) tbl (worker_turn bodies ef now worker tbl')"

text \<open>The queued jobs that are served up to a given one\<close>

definition ahead :: "int \<Rightarrow> job_table \<Rightarrow> int set" where
  "ahead jid tbl = {i \<in> queued_ids SUPPORTED_KINDS tbl. i \<le> jid}"

lemma finite_ahead [simp]: "finite (ahead jid tbl)"
  by (simp add: ahead_def queued_ids_def)

lemma ahead_mono: "queued_ids SUPPORTED_KINDS tbl' \<subseteq> queued_ids SUPPORTED_KINDS tbl \<Longrightarrow> ahead jid tbl' \<subseteq> ahead jid tbl"
  by (auto simp: ahead_def)

lemma create_ahead: "jid < jt_next tbl \<Longrightarrow> ahead jid (snd (create_reply now kind target payload tbl)) = ahead jid tbl"
  by (auto simp: create_reply_table create_job_def ahead_def queued_ids_def queued_jobs_def)

lemma fail_ahead: "ahead jid (mark_job_failed now i msg tbl) \<subseteq> ahead jid tbl"
  by (intro ahead_mono marks_queued)

lemma create_fail_ahead:
  "jid < jt_next tbl \<Longrightarrow> ahead jid (snd (create_reply now kind target payload (mark_job_failed now' i msg tbl))) \<subseteq> ahead jid tbl"
  using create_ahead [of jid "mark_job_failed now' i msg tbl"] fail_ahead by (simp add: mark_job_failed_def)

lemma reuse_ahead:
  "jid < jt_next tbl \<Longrightarrow> ahead jid (snd (reuse_or_create_job stamp now clock kind target payload tbl)) \<subseteq> ahead jid tbl"
  using create_ahead create_fail_ahead by (simp add: reuse_or_create_job_def split: option.splits)

lemma forced_ahead: "jid < jt_next tbl \<Longrightarrow> ahead jid (snd (schedule_forced_search_all now tbl)) \<subseteq> ahead jid tbl"
  using create_ahead create_fail_ahead by (simp add: schedule_forced_search_all_def Let_def split: option.splits)

lemma step_ahead: "table_step stamp tbl tbl' \<Longrightarrow> jid < jt_next tbl \<Longrightarrow> ahead jid tbl' \<subseteq> ahead jid tbl"
proof (induction rule: table_step.induct)
qed (use reuse_ahead forced_ahead in
      \<open>simp_all add: schedule_subscription_search_def schedule_search_all_def schedule_emby_sync_def schedule_retry_def\<close>,
     (intro ahead_mono marks_queued claim_queued)+)

lemma turn_ahead:
  assumes "ids_ok tbl" "ahead jid tbl \<noteq> {}"
  shows "card (ahead jid (worker_turn bodies ef now worker tbl)) < card (ahead jid tbl)"
proof -
  from assms(2) obtain i where i: "i \<in> queued_ids SUPPORTED_KINDS tbl" "i \<le> jid" by (auto simp: ahead_def)
  then obtain row rows where q: "queued_jobs SUPPORTED_KINDS tbl = row # rows"
    by (cases "queued_jobs SUPPORTED_KINDS tbl") (auto simp: queued_ids_def)
  then have "j_id row \<le> i"
    using queued_sorted [OF assms(1), of SUPPORTED_KINDS] i(1) by (auto simp: queued_ids_def)
  then have "j_id row \<in> ahead jid tbl" using i q by (simp add: ahead_def queued_ids_def)
  moreover have "ahead jid (worker_turn bodies ef now worker tbl) \<subseteq> ahead jid tbl - {j_id row}"
    using turn_queued [OF assms(1) q, of bodies ef now worker] by (auto simp: ahead_def)
  ultimately show ?thesis by (intro psubset_card_mono) auto
qed

lemma jt_next_mono: "table_step stamp tbl tbl' \<Longrightarrow> jt_next tbl \<le> jt_next tbl'"
proof (induction rule: table_step.induct)
  case (claim tbl now kinds worker)
  then show ?case by (cases rule: claim_cases [of now kinds worker tbl]) simp_all
qed (auto simp: schedule_subscription_search_def schedule_search_all_def schedule_emby_sync_def schedule_retry_def
      reuse_or_create_job_def schedule_forced_search_all_def create_reply_def create_job_def Let_def
      mark_job_failed_def mark_job_done_def touch_job_heartbeat_def split: option.splits)

lemma jt_next_steps: "(table_step stamp)\<^sup>*\<^sup>* tbl tbl' \<Longrightarrow> jt_next tbl \<le> jt_next tbl'"
  by (induction rule: rtranclp_induct) (auto dest: jt_next_mono)

lemma worked_ahead:
  "worked stamp bodies n tbl tbl' \<Longrightarrow> jobs_inv tbl \<Longrightarrow> jid < jt_next tbl \<Longrightarrow>
     jobs_inv tbl' \<and> jid < jt_next tbl' \<and> card (ahead jid tbl') \<le> card (ahead jid tbl) - n"
proof (induction rule: worked.induct)
  case (other n tbl tbl' tbl'')
  then have "card (ahead jid tbl'') \<le> card (ahead jid tbl')"
    using step_ahead by (intro card_mono) auto
  moreover have "jt_next tbl' \<le> jt_next tbl''" by (rule jt_next_mono [OF other.hyps(2)])
  ultimately show ?case
    using other table_step_inv [OF other.hyps(2)] by simp
next
  case (turn n tbl tbl' ef now worker)
  let ?t = "worker_turn bodies ef now worker tbl'"
  have inv: "jobs_inv tbl'" "ids_ok tbl'" using turn by (auto simp: jobs_inv_def jobs_ok_def)
  have "ahead jid ?t \<subseteq> ahead jid tbl'" by (intro ahead_mono turn_queued_any)
  then have "card (ahead jid ?t) \<le> card (ahead jid tbl') - 1"
    using turn_ahead [OF inv(2), of jid bodies ef now worker] by (cases "ahead jid tbl' = {}") auto
  moreover have "jt_next tbl' \<le> jt_next ?t" by (rule jt_next_steps [OF turn_steps])
  moreover have "card (ahead jid tbl') \<le> card (ahead jid tbl) - n" "jid < jt_next tbl'"
    using turn(2-4) by simp_all
  ultimately show ?case
    using turn_inv [OF inv(1)] by simp
qed simp

theorem job_taken_up:
  assumes "jobs_inv tbl" "worked stamp bodies n tbl tbl'" "jid \<in> queued_ids SUPPORTED_KINDS tbl"
    "card (ahead jid tbl) \<le> n"
  shows "jid \<notin> queued_ids SUPPORTED_KINDS tbl'"
proof -
  have "jid < jt_next tbl"
    using assms(1,3) by (auto simp: queued_ids_def queued_jobs_def jobs_inv_def jobs_ok_def ids_ok_def)
  then have "card (ahead jid tbl') = 0"
    using worked_ahead [OF assms(2,1), of jid] assms(4) by simp
  then have "ahead jid tbl' = {}" by simp
  then show ?thesis by (auto simp: ahead_def)
qed


section \<open>A worker that is left alone empties the queue\<close>

lemma turns_worked: "worked stamp bodies n tbl ((worker_turn bodies ef now worker ^^ n) tbl)"
  by (induction n) (auto intro: worked.intros)

lemma queue_emptied:
  assumes "jobs_inv tbl" "card (queued_ids SUPPORTED_KINDS tbl) \<le> n"
  shows "queued_jobs SUPPORTED_KINDS ((worker_turn bodies ef now worker ^^ n) tbl) = []"
proof -
  let ?after = "(worker_turn bodies ef now worker ^^ n) tbl"
  have sub: "queued_ids SUPPORTED_KINDS ?after \<subseteq> queued_ids SUPPORTED_KINDS tbl"
  proof (induction n)
    case (Suc n)
    have "queued_ids SUPPORTED_KINDS (worker_turn bodies ef now worker ((worker_turn bodies ef now worker ^^ n) tbl))
        \<subseteq> queued_ids SUPPORTED_KINDS ((worker_turn bodies ef now worker ^^ n) tbl)"
      by (rule turn_queued_any)
    then show ?case using Suc by simp
  qed simp
  have "i \<notin> queued_ids SUPPORTED_KINDS ?after" for i
  proof
    assume i: "i \<in> queued_ids SUPPORTED_KINDS ?after"
    have "card (ahead i tbl) \<le> card (queued_ids SUPPORTED_KINDS tbl)"
      by (rule card_mono) (auto simp: ahead_def queued_ids_def)
    then show False
      using job_taken_up [OF assms(1) turns_worked] i sub assms(2) by (meson order_trans subsetD)
  qed
  then have "queued_ids SUPPORTED_KINDS ?after = {}" by blast
  then show ?thesis by (simp add: queued_ids_def)
qed

text \<open>A turn leaves nothing running that it started.\<close>

definition running_ids :: "job_table \<Rightarrow> int set" where
  "running_ids tbl = j_id ` {j \<in> set (jt_jobs tbl). j_status j = Running}"

lemma running_update:
  assumes "\<And>j. P j \<Longrightarrow> j_id (f j) = j_id j \<and> j_status j = Running"
  shows "running_ids (update_jobs P f tbl) \<subseteq> running_ids tbl"
proof
  fix i assume "i \<in> running_ids (update_jobs P f tbl)"
  then obtain j where j: "j \<in> set (jt_jobs (update_jobs P f tbl))" "j_status j = Running" "i = j_id j"
    unfolding running_ids_def by blast
  then show "i \<in> running_ids tbl"
    using assms unfolding jt_jobs_update set_update_rows running_ids_def by force
qed

lemma touch_running: "running_ids (touch_job_heartbeat now worker jid tbl) \<subseteq> running_ids tbl"
  unfolding touch_job_heartbeat_def by (rule running_update) simp

lemma running_ended:
  assumes "\<And>j. j_id j = jid \<Longrightarrow> j_id (f j) = jid \<and> j_status (f j) \<noteq> Running"
  shows "running_ids (update_jobs (\<lambda>j. j_id j = jid) f tbl) \<subseteq> running_ids tbl - {jid}"
proof
  fix i assume "i \<in> running_ids (update_jobs (\<lambda>j. j_id j = jid) f tbl)"
  then obtain j where j: "j \<in> set (jt_jobs (update_jobs (\<lambda>j. j_id j = jid) f tbl))" "j_status j = Running" "i = j_id j"
    unfolding running_ids_def by blast
  then show "i \<in> running_ids tbl - {jid}"
    using assms unfolding jt_jobs_update set_update_rows running_ids_def by force
qed

lemma marks_running:
  "running_ids (mark_job_done now jid outcome tbl) \<subseteq> running_ids tbl - {jid}"
  "running_ids (mark_job_failed now jid msg tbl) \<subseteq> running_ids tbl - {jid}"
  unfolding mark_job_done_def mark_job_failed_def by (rule running_ended; simp)+

lemma execute_running: "running_ids (execute_job bodies now worker item tbl) \<subseteq> running_ids tbl - {j_id (ji_job item)}"
proof -
  have "running_ids t \<subseteq> running_ids tbl - {i}"
    if "running_ids t \<subseteq> running_ids (touch_job_heartbeat now worker i tbl) - {i}" for t i
    using that touch_running by blast
  then show ?thesis
    unfolding execute_job_def Let_def using marks_running by (simp split: sum.splits)
qed

lemma claim_running:
  assumes "claim_next_job now kinds worker tbl = (x, tbl')"
  shows "running_ids tbl' \<subseteq> running_ids tbl \<union> (case x of None \<Rightarrow> {} | Some item \<Rightarrow> {j_id (ji_job item)})"
proof (cases rule: claim_cases [of now kinds worker tbl])
  case (2 row)
  then show ?thesis
    using assms by (auto simp: running_ids_def jt_jobs_update set_update_rows start_job_def image_iff)
qed (use assms in simp)

lemma sidecars_running:
  "running_ids (execute_with_sidecars bodies ef now worker item tbl) \<subseteq> running_ids tbl - {j_id (ji_job item)}"
proof (cases "claim_next_job now NON_TG_KINDS worker tbl")
  case (Pair x tbl')
  have ex: "running_ids (execute_job bodies now worker a t) \<subseteq> running_ids t - {j_id (ji_job a)}" for a t
    by (rule execute_running)
  show ?thesis
  proof (cases x)
    case None
    then show ?thesis
      using Pair claim_running [OF Pair] ex [of item tbl] ex [of item tbl']
      by (auto simp: execute_with_sidecars_def Let_def)
  next
    case (Some extra)
    have "running_ids (execute_job bodies now worker item (execute_job bodies now worker extra tbl'))
        \<subseteq> running_ids tbl' - {j_id (ji_job extra)} - {j_id (ji_job item)}"
      "running_ids (execute_job bodies now worker extra (execute_job bodies now worker item tbl'))
        \<subseteq> running_ids tbl' - {j_id (ji_job item)} - {j_id (ji_job extra)}"
      using ex by blast+
    then show ?thesis
      using Pair Some claim_running [OF Pair] ex [of item tbl] ex [of item tbl']
      by (simp add: execute_with_sidecars_def Let_def) blast
  qed
qed

lemma turn_running: "running_ids (worker_turn bodies ef now worker tbl) \<subseteq> running_ids tbl"
proof (cases "claim_next_job now SUPPORTED_KINDS worker tbl")
  case (Pair x tbl')
  show ?thesis
  proof (cases x)
    case None
    then show ?thesis using Pair claim_running [OF Pair] by (simp add: worker_turn_def)
  next
    case (Some item)
    then have "running_ids (worker_turn bodies ef now worker tbl) \<subseteq> running_ids tbl' - {j_id (ji_job item)}"
      using Pair sidecars_running by (simp add: worker_turn_def)
    then show ?thesis using Some claim_running [OF Pair] by auto
  qed
qed

lemma turns_running: "running_ids ((worker_turn bodies ef now worker ^^ n) tbl) \<subseteq> running_ids tbl"
proof (induction n)
  case (Suc n)
  have "running_ids ((worker_turn bodies ef now worker ^^ Suc n) tbl) \<subseteq> running_ids ((worker_turn bodies ef now worker ^^ n) tbl)"
    by (simp add: turn_running)
  with Suc show ?case by (rule order_trans [rotated])
qed simp

end
