(* ===== verification/Rate_Gate.thy ===== *)
theory Rate_Gate
  imports Py_Prelude Expiring_Cache
begin

text \<open>
  \<open>TelegramRequestGate\<close> of \<open>app/services/adapters/telegram/rate_limit.py\<close>: the spacing of requests to
  Telegram, doubled after a flood signal and shrunk again while it is quiet, and the degree of
  concurrency that \<open>app/services/concurrency.py\<close> derives from it.  Floats are rational numbers here.
  A request waits in two parts: it computes its delay, sleeps, and only then advances the gate under
  the lock, which belongs to an event loop.  Shown: the interval always lies between the default and
  the maximum, floods drive it to the maximum and quiet waits back to the default in a bounded number.
\<close>

record gate =
  g_default :: time
  g_min :: time
  g_max :: time
  g_current :: time
  g_lock_loop :: "nat option" \<comment> \<open>the event loop of the lock; none before the first wait\<close>
  g_next_at :: time
  g_cooldown :: time
  g_floods :: nat

definition make_gate :: "time \<Rightarrow> time \<Rightarrow> time \<Rightarrow> gate" where
  "make_gate min_interval max_interval default_interval =
     (let d = max 0 default_interval; lo = max 0 min_interval in
      \<lparr>g_default = d, g_min = lo, g_max = max lo max_interval, g_current = d, g_lock_loop = None,
       g_next_at = 0, g_cooldown = 0, g_floods = 0\<rparr>)"

definition telegram_request_gate :: gate where
  "telegram_request_gate = make_gate (1 / 20) 2 (1 / 20)"

definition ensure_lock :: "nat \<Rightarrow> gate \<Rightarrow> gate" where
  "ensure_lock loop g =
     (if g_lock_loop g = Some loop then g
      else g\<lparr>g_lock_loop := Some loop, g_next_at := 0, g_cooldown := 0\<rparr>)"

text \<open>The delay computed first; nothing is slept when it is not positive.\<close>

definition wait_delay :: "time \<Rightarrow> gate \<Rightarrow> time" where
  "wait_delay now g = max 0 (max (g_next_at g) (g_cooldown g) - now)"

text \<open>The part under the lock, at the time \<open>now\<close> after the sleep\<close>

definition wait_pass :: "nat \<Rightarrow> time \<Rightarrow> gate \<Rightarrow> gate" where
  "wait_pass loop now g0 =
     (let g = ensure_lock loop g0; g' = g\<lparr>g_next_at := now + g_current g\<rparr> in
      if g_default g < g_current g \<and> g_cooldown g \<le> now
      then g'\<lparr>g_current := max (g_default g) (g_current g * 17 / 20)\<rparr>
      else g')"

definition note_success :: "gate \<Rightarrow> gate" where
  "note_success g =
     (if g_current g \<le> g_default g then g
      else g\<lparr>g_current := max (g_default g) (g_current g * 9 / 10)\<rparr>)"

text \<open>No seconds, or zero, is 5.\<close>

definition flood_seconds :: "time option \<Rightarrow> time" where
  "flood_seconds seconds = max 1 (case seconds of None \<Rightarrow> 5 | Some s \<Rightarrow> if s = 0 then 5 else s)"

definition note_flood_wait :: "time \<Rightarrow> time option \<Rightarrow> gate \<Rightarrow> gate" where
  "note_flood_wait now seconds g =
     (let wait_for = flood_seconds seconds; cooldown = max (g_cooldown g) (now + wait_for) in
      g\<lparr>g_floods := g_floods g + 1,
        g_current := min (g_max g) (max (max (g_current g * 2) (wait_for / 10)) (1 / 5)),
        g_cooldown := cooldown,
        g_next_at := max (g_next_at g) cooldown\<rparr>)"

text \<open>
  An exception: the name of its class, its text, and its attribute \<open>seconds\<close> (no attribute; one that
  \<open>float\<close> does not read; a number)
\<close>

datatype seconds_attr = No_Seconds | Unreadable | Seconds time

record telegram_error =
  te_class :: pystr
  te_text :: pystr
  te_seconds :: seconds_attr

text \<open>
  The last alternative of the code (\<open>"FLOOD" in text.upper()\<close>) is implied by \<open>"flood" in
  text.casefold()\<close>; on ASCII letters it is the one below.
\<close>

definition is_flood_error :: "telegram_error \<Rightarrow> bool" where
  "is_flood_error e =
     (contains (u ''FloodWait'') (te_class e) \<or> contains (u ''FloodWait'') (te_text e)
      \<or> contains (u ''flood'') (casefold (te_text e)) \<or> te_seconds e \<noteq> No_Seconds
      \<or> contains (u ''RPCError'') (te_class e) \<and> contains (u ''FLOOD'') (upper_ascii (te_text e)))"

definition note_error :: "time \<Rightarrow> telegram_error option \<Rightarrow> gate \<Rightarrow> gate" where
  "note_error now e_opt g =
     (case e_opt of
        None \<Rightarrow> g
      | Some e \<Rightarrow>
          if is_flood_error e
          then note_flood_wait now (Some (case te_seconds e of Seconds s \<Rightarrow> s | _ \<Rightarrow> 5)) g
          else g)"

definition cooldown_remaining :: "time \<Rightarrow> gate \<Rightarrow> time" where
  "cooldown_remaining now g = max 0 (g_cooldown g - now)"

section \<open>The interval stays between its bounds\<close>

definition gate_ok :: "gate \<Rightarrow> bool" where
  "gate_ok g \<longleftrightarrow> 0 < g_default g \<and> g_default g \<le> g_current g \<and> g_current g \<le> g_max g"

inductive gate_step :: "gate \<Rightarrow> gate \<Rightarrow> bool" where
  pass: "gate_step g (wait_pass loop now g)"
| success: "gate_step g (note_success g)"
| flood: "gate_step g (note_flood_wait now seconds g)"
| error: "gate_step g (note_error now e_opt g)"

lemma telegram_gate_ok: "gate_ok telegram_request_gate"
  by (simp add: gate_ok_def telegram_request_gate_def make_gate_def Let_def)

lemma flood_ok: "gate_ok g \<Longrightarrow> gate_ok (note_flood_wait now seconds g)"
  by (auto simp: gate_ok_def note_flood_wait_def Let_def)

lemma gate_step_ok: "gate_step g g' \<Longrightarrow> gate_ok g \<Longrightarrow> gate_ok g'"
proof (induction rule: gate_step.induct)
  case (pass g loop now)
  then show ?case by (auto simp: gate_ok_def wait_pass_def ensure_lock_def Let_def)
next
  case (success g)
  then show ?case by (auto simp: gate_ok_def note_success_def)
next
  case (error g now e_opt)
  then show ?case using flood_ok by (auto simp: note_error_def split: option.splits)
qed (rule flood_ok)

lemma gate_step_bounds: "gate_step g g' \<Longrightarrow> g_default g' = g_default g \<and> g_max g' = g_max g"
  by (induction rule: gate_step.induct)
    (auto simp: wait_pass_def ensure_lock_def note_success_def note_flood_wait_def note_error_def Let_def split: option.splits)

lemma gate_run_ok: "gate_step\<^sup>*\<^sup>* g g' \<Longrightarrow> gate_ok g \<Longrightarrow> gate_ok g' \<and> g_default g' = g_default g \<and> g_max g' = g_max g"
  by (induction rule: rtranclp_induct) (auto dest: gate_step_ok gate_step_bounds)

section \<open>Backing off and recovering\<close>

text \<open>Floods one after the other, with the times and seconds they report\<close>

definition flood_all :: "(time \<times> time option) list \<Rightarrow> gate \<Rightarrow> gate" where
  "flood_all fs = fold (\<lambda>(now, seconds). note_flood_wait now seconds) fs"

lemma flood_max [simp]: "g_max (note_flood_wait now seconds g) = g_max g"
  by (simp add: note_flood_wait_def Let_def)

lemma flood_doubles: "min (g_max g) (2 * g_current g) \<le> g_current (note_flood_wait now seconds g)"
  by (auto simp: note_flood_wait_def Let_def min_le_iff_disj le_max_iff_disj)

lemma floods_double:
  "0 \<le> g_max g \<Longrightarrow> min (g_max g) (2 ^ length fs * g_current g) \<le> g_current (flood_all fs g)"
proof (induction fs arbitrary: g)
  case (Cons f fs)
  obtain now seconds where f: "f = (now, seconds)" by (cases f)
  let ?g = "note_flood_wait now seconds g" and ?p = "2 ^ length fs :: rat"
  have p: "1 \<le> ?p" by simp
  have grown: "?p * min (g_max g) (2 * g_current g) \<le> ?p * g_current ?g"
    using flood_doubles by simp
  have "min (g_max g) (2 * ?p * g_current g) \<le> ?p * min (g_max g) (2 * g_current g)"
  proof (cases "g_max g \<le> 2 * g_current g")
    case True
    have "1 * g_max g \<le> ?p * g_max g" using p Cons.prems by (intro mult_right_mono)
    with True show ?thesis by simp
  next
    case False
    then show ?thesis by (simp add: mult.assoc mult.left_commute)
  qed
  from this grown have "min (g_max g) (2 * ?p * g_current g) \<le> ?p * g_current ?g"
    by (rule order_trans)
  then have "min (g_max g) (2 ^ length (f # fs) * g_current g) \<le> min (g_max ?g) (?p * g_current ?g)"
    by simp
  moreover have "min (g_max ?g) (?p * g_current ?g) \<le> g_current (flood_all fs ?g)"
    using Cons.IH [of ?g] Cons.prems by simp
  ultimately have "min (g_max g) (2 ^ length (f # fs) * g_current g) \<le> g_current (flood_all fs ?g)"
    by (rule order_trans)
  then show ?case by (simp add: f flood_all_def)
qed (simp add: flood_all_def)

lemma flood_floor: "min (g_max g) (1 / 5) \<le> g_current (note_flood_wait now seconds g)"
  by (auto simp: note_flood_wait_def Let_def min_le_iff_disj le_max_iff_disj)

lemma flood_all_ok: "gate_ok g \<Longrightarrow> gate_ok (flood_all fs g) \<and> g_max (flood_all fs g) = g_max g"
  by (induction fs arbitrary: g) (auto simp: flood_all_def flood_ok)

text \<open>Five floods in a row drive the interval to the maximum.\<close>

lemma floods_saturate:
  assumes "gate_ok g" "g_max g \<le> 16 / 5" "5 \<le> length fs"
  shows "g_current (flood_all fs g) = g_max g"
proof -
  obtain now seconds fs' where fs: "fs = (now, seconds) # fs'" "4 \<le> length fs'"
    using assms(3) by (cases fs) auto
  let ?g = "note_flood_wait now seconds g"
  have "(2 :: rat) ^ 4 \<le> 2 ^ length fs'" using fs(2) by (intro power_increasing) simp_all
  have pos: "0 < g_max g" using assms(1) by (simp add: gate_ok_def)
  have "g_max g \<le> 2 ^ length fs' * g_current ?g"
  proof (cases "g_max g \<le> 1 / 5")
    case True
    then have "g_max g \<le> g_current ?g" using flood_floor [of g now seconds] by simp
    moreover have "1 * g_current ?g \<le> 2 ^ length fs' * g_current ?g"
      using calculation pos by (intro mult_right_mono) simp_all
    ultimately show ?thesis by simp
  next
    case False
    then have "1 / 5 \<le> g_current ?g" using flood_floor [of g now seconds] by simp
    then have "2 ^ 4 * (1 / 5) \<le> 2 ^ length fs' * g_current ?g"
      using \<open>2 ^ 4 \<le> 2 ^ length fs'\<close> by (intro mult_mono) simp_all
    then show ?thesis using assms(2) by simp
  qed
  then have "g_max g \<le> g_current (flood_all fs g)"
    using floods_double [of ?g fs'] pos by (simp add: fs flood_all_def)
  moreover have "g_current (flood_all fs g) \<le> g_max g"
    using flood_all_ok [OF assms(1), of fs] by (simp add: gate_ok_def)
  ultimately show ?thesis by simp
qed

text \<open>Waits that come after the cooldown and stay on one loop\<close>

primrec quiet_waits :: "nat \<Rightarrow> time list \<Rightarrow> gate \<Rightarrow> gate" where
  "quiet_waits loop [] g = g"
| "quiet_waits loop (t # ts) g = quiet_waits loop ts (wait_pass loop t g)"

lemma quiet_pass:
  assumes "gate_ok g" "g_lock_loop g = Some loop" "g_cooldown g \<le> t"
  shows "g_current (wait_pass loop t g) = max (g_default g) (g_current g * 17 / 20)"
    "g_lock_loop (wait_pass loop t g) = Some loop" "g_cooldown (wait_pass loop t g) = g_cooldown g"
    "g_default (wait_pass loop t g) = g_default g"
proof -
  have "max (g_default g) (g_default g * 17 / 20) = g_default g"
    using assms(1) by (simp add: gate_ok_def max_def)
  then show "g_current (wait_pass loop t g) = max (g_default g) (g_current g * 17 / 20)"
    using assms by (auto simp: wait_pass_def ensure_lock_def Let_def gate_ok_def not_less order_antisym)
qed (use assms in \<open>auto simp: wait_pass_def ensure_lock_def Let_def\<close>)

lemma quiet_waits_current:
  "gate_ok g \<Longrightarrow> g_lock_loop g = Some loop \<Longrightarrow> \<forall>t \<in> set ts. g_cooldown g \<le> t \<Longrightarrow>
     g_current (quiet_waits loop ts g) = max (g_default g) (g_current g * (17 / 20) ^ length ts)"
proof (induction ts arbitrary: g)
  case Nil
  then show ?case by (simp add: gate_ok_def max_def)
next
  case (Cons t ts)
  let ?g = "wait_pass loop t g"
  have t: "g_cooldown g \<le> t" using Cons.prems(3) by simp
  note q = quiet_pass [OF Cons.prems(1,2) t]
  have "gate_ok ?g" using gate_step_ok [OF gate_step.pass Cons.prems(1)] .
  then have "g_current (quiet_waits loop ts ?g) = max (g_default g) (g_current ?g * (17 / 20) ^ length ts)"
    using Cons.IH [of ?g] Cons.prems(3) q by simp
  also have "\<dots> = max (g_default g) (g_current g * (17 / 20) ^ Suc (length ts))"
  proof -
    have "(17 / 20 :: rat) ^ length ts \<le> 1" "0 < (17 / 20 :: rat) ^ length ts"
      by (simp_all add: power_le_one)
    moreover have "0 < g_default g" using Cons.prems(1) by (simp add: gate_ok_def)
    ultimately have low: "max (g_default g) (g_default g * (17 / 20) ^ length ts) = g_default g"
      by (simp add: mult_left_le max_def)
    have "max (g_default g) (max (g_default g) (g_current g * 17 / 20) * (17 / 20) ^ length ts)
        = max (max (g_default g) (g_default g * (17 / 20) ^ length ts)) (g_current g * 17 / 20 * (17 / 20) ^ length ts)"
      using \<open>0 < (17 / 20 :: rat) ^ length ts\<close> by (simp add: max_mult_distrib_right max.assoc)
    then show ?thesis
      unfolding q low by (simp add: mult.assoc)
  qed
  finally show ?case by simp
qed

lemma recovers:
  assumes "gate_ok g" "g_lock_loop g = Some loop" "\<forall>t \<in> set ts. g_cooldown g \<le> t" "23 \<le> length ts"
    "g_max g \<le> 40 * g_default g"
  shows "g_current (quiet_waits loop ts g) = g_default g"
proof -
  have "(17 / 20 :: rat) ^ length ts \<le> (17 / 20) ^ 23"
    using assms(4) by (intro power_decreasing) simp_all
  also have "\<dots> \<le> 1 / 40" by (simp add: power_divide)
  finally have "g_current g * (17 / 20) ^ length ts \<le> g_max g * (1 / 40)"
    using assms(1) by (intro mult_mono) (auto simp: gate_ok_def)
  also have "\<dots> \<le> g_default g" using assms(5) by simp
  finally show ?thesis
    using quiet_waits_current [OF assms(1-3)] by simp
qed

section \<open>Concurrency from the interval\<close>

definition SUBSCRIPTION_SEARCH_CONCURRENCY :: int where
  "SUBSCRIPTION_SEARCH_CONCURRENCY = 4"

definition TELEGRAM_SOURCE_CONCURRENCY :: int where
  "TELEGRAM_SOURCE_CONCURRENCY = 2"

definition desired_search_concurrency :: "time \<Rightarrow> int" where
  "desired_search_concurrency interval =
     (let concurrency = (if 4 / 5 \<le> interval then 1 else if 1 / 4 \<le> interval then 2 else SUBSCRIPTION_SEARCH_CONCURRENCY)
      in max 1 concurrency)"

definition desired_telegram_dialog_concurrency :: "time \<Rightarrow> int" where
  "desired_telegram_dialog_concurrency interval =
     (let base = max 2 TELEGRAM_SOURCE_CONCURRENCY in
      if 4 / 5 \<le> interval then 1
      else if 1 / 4 \<le> interval then max 1 (min 2 base)
      else max 1 (min 3 (base + 1)))"

definition search_all_wave_size :: "time \<Rightarrow> int" where
  "search_all_wave_size interval =
     (let desired = desired_search_concurrency interval in
      if SUBSCRIPTION_SEARCH_CONCURRENCY \<le> desired then min (desired + 1) 6 else desired)"

lemmas concurrency_defs = desired_search_concurrency_def desired_telegram_dialog_concurrency_def
  search_all_wave_size_def SUBSCRIPTION_SEARCH_CONCURRENCY_def TELEGRAM_SOURCE_CONCURRENCY_def Let_def

lemma concurrency_antimono:
  "i \<le> i' \<Longrightarrow> desired_search_concurrency i' \<le> desired_search_concurrency i
     \<and> desired_telegram_dialog_concurrency i' \<le> desired_telegram_dialog_concurrency i
     \<and> search_all_wave_size i' \<le> search_all_wave_size i"
  by (auto simp: concurrency_defs)

lemma concurrency_bounds:
  "1 \<le> desired_search_concurrency i \<and> desired_search_concurrency i \<le> 4"
  "1 \<le> desired_telegram_dialog_concurrency i \<and> desired_telegram_dialog_concurrency i \<le> 3"
  "1 \<le> search_all_wave_size i \<and> search_all_wave_size i \<le> 5"
  by (auto simp: concurrency_defs)

end
