(* ===== verification/Concurrency.thy ===== *)
theory Concurrency
  imports Rate_Gate
begin

text \<open>
  \<open>app/services/concurrency.py\<close>: the semaphores that bound the searches running at once, whose limit
  follows the interval of the request gate, and the locks that serialise the work on one subscription
  or one Telegram dialog.  Both are kept per event loop.  Shown: under constant pressure no more than
  the desired number of searches run; a lock that is held is the one handed out again as long as
  only one loop asks; a change of pressure or a second loop breaks the one and the other.
\<close>

section \<open>Semaphores\<close>

text \<open>
  \<open>asyncio.Semaphore\<close>: its counter, and the number of permits taken and not given back.  A semaphore
  that was replaced lives on as long as somebody holds a permit of it, so all of them are kept; the
  position in the list is the identity of the object.
\<close>

record semaphore =
  sm_value :: int
  sm_held :: nat

record semaphores =
  ss_all :: "semaphore list"
  ss_current :: "nat option"
  ss_loop :: "nat option"
  ss_limit :: int

definition no_semaphores :: semaphores where
  "no_semaphores = \<lparr>ss_all = [], ss_current = None, ss_loop = None, ss_limit = 0\<rparr>"

definition new_semaphore :: "nat \<Rightarrow> int \<Rightarrow> semaphores \<Rightarrow> nat \<times> semaphores" where
  "new_semaphore loop desired ss =
     (length (ss_all ss),
      \<lparr>ss_all = ss_all ss @ [\<lparr>sm_value = desired, sm_held = 0\<rparr>], ss_current = Some (length (ss_all ss)),
       ss_loop = Some loop, ss_limit = desired\<rparr>)"

text \<open>The body that \<open>search_semaphore\<close> and \<open>telegram_dialog_search_semaphore\<close> share\<close>

definition refreshed_semaphore :: "nat \<Rightarrow> int \<Rightarrow> semaphores \<Rightarrow> nat \<times> semaphores" where
  "refreshed_semaphore loop desired ss =
     (case ss_current ss of
        None \<Rightarrow> new_semaphore loop desired ss
      | Some i \<Rightarrow>
          let same = (ss_loop ss = Some loop); s = ss_all ss ! i; value = sm_value s in
          if same \<and> ss_limit ss = desired then (i, ss)
          else if same \<and> desired < ss_limit ss
          then (if ss_limit ss \<le> value then new_semaphore loop desired ss
                else (i, ss\<lparr>ss_all := (ss_all ss)[i := s\<lparr>sm_value := min value desired\<rparr>], ss_limit := desired\<rparr>))
          else if same \<and> 0 < ss_limit ss \<and> value < ss_limit ss then (i, ss)
          else new_semaphore loop desired ss)"

definition search_semaphore :: "nat \<Rightarrow> time \<Rightarrow> semaphores \<Rightarrow> nat \<times> semaphores" where
  "search_semaphore loop interval = refreshed_semaphore loop (desired_search_concurrency interval)"

definition telegram_dialog_search_semaphore :: "nat \<Rightarrow> time \<Rightarrow> semaphores \<Rightarrow> nat \<times> semaphores" where
  "telegram_dialog_search_semaphore loop interval = refreshed_semaphore loop (desired_telegram_dialog_concurrency interval)"

definition acquire :: "nat \<Rightarrow> semaphores \<Rightarrow> semaphores" where
  "acquire i ss =
     ss\<lparr>ss_all := (ss_all ss)[i := (ss_all ss ! i)\<lparr>sm_value := sm_value (ss_all ss ! i) - 1, sm_held := sm_held (ss_all ss ! i) + 1\<rparr>]\<rparr>"

definition release :: "nat \<Rightarrow> semaphores \<Rightarrow> semaphores" where
  "release i ss =
     ss\<lparr>ss_all := (ss_all ss)[i := (ss_all ss ! i)\<lparr>sm_value := sm_value (ss_all ss ! i) + 1, sm_held := sm_held (ss_all ss ! i) - 1\<rparr>]\<rparr>"

text \<open>
  Searches ask for the semaphore at the intervals \<open>I\<close> on the loops \<open>L\<close>, take a permit of the one they
  got when there is one, and give it back.
\<close>

inductive search_step :: "nat set \<Rightarrow> time set \<Rightarrow> semaphores \<Rightarrow> semaphores \<Rightarrow> bool" for L I where
  ask: "loop \<in> L \<Longrightarrow> interval \<in> I \<Longrightarrow> search_step L I ss (snd (search_semaphore loop interval ss))"
| take: "i < length (ss_all ss) \<Longrightarrow> 0 < sm_value (ss_all ss ! i) \<Longrightarrow> search_step L I ss (acquire i ss)"
| give: "i < length (ss_all ss) \<Longrightarrow> 0 < sm_held (ss_all ss ! i) \<Longrightarrow> search_step L I ss (release i ss)"

definition running_searches :: "semaphores \<Rightarrow> nat" where
  "running_searches ss = sum_list (map sm_held (ss_all ss))"

text \<open>Under constant pressure on one loop there is one semaphore, and its counter and its permits add up.\<close>

definition one_semaphore :: "nat \<Rightarrow> int \<Rightarrow> semaphores \<Rightarrow> bool" where
  "one_semaphore loop d ss \<longleftrightarrow> ss = no_semaphores \<or>
     (\<exists>s. ss = \<lparr>ss_all = [s], ss_current = Some 0, ss_loop = Some loop, ss_limit = d\<rparr>
        \<and> 0 \<le> sm_value s \<and> sm_value s + int (sm_held s) = d)"

lemma one_semaphore_step:
  assumes "search_step {loop} I ss ss'" "one_semaphore loop d ss" "\<forall>i \<in> I. desired_search_concurrency i = d" "0 \<le> d"
  shows "one_semaphore loop d ss'"
  using assms(1)
proof cases
  case (ask loop' interval)
  then have "desired_search_concurrency interval = d" using assms(3) by blast
  then show ?thesis
    using ask assms(2,4) by (auto simp: one_semaphore_def search_semaphore_def refreshed_semaphore_def
        new_semaphore_def no_semaphores_def)
next
  case (take i)
  then show ?thesis using assms(2) by (auto simp: one_semaphore_def acquire_def no_semaphores_def)
next
  case (give i)
  then show ?thesis using assms(2) by (auto simp: one_semaphore_def release_def no_semaphores_def of_nat_diff)
qed

lemma one_semaphore_bound: "one_semaphore loop d ss \<Longrightarrow> 0 \<le> d \<Longrightarrow> int (running_searches ss) \<le> d"
  by (auto simp: one_semaphore_def running_searches_def no_semaphores_def)

lemma constant_pressure_bound:
  assumes "(search_step {loop} I)\<^sup>*\<^sup>* no_semaphores ss" "\<forall>i \<in> I. desired_search_concurrency i = d" "0 \<le> d"
  shows "int (running_searches ss) \<le> d"
proof -
  have "one_semaphore loop d ss"
    using assms(1)
  proof (induction rule: rtranclp_induct)
    case base
    then show ?case by (simp add: one_semaphore_def)
  next
    case (step y z)
    then show ?case using one_semaphore_step [OF step(2,3) assms(2,3)] by simp
  qed
  then show ?thesis using assms(3) by (rule one_semaphore_bound)
qed

text \<open>
  When the pressure changes twice while two searches run, the semaphore is taken for idle and replaced,
  and the searches it let in are forgotten: six run where the limit is four.
\<close>

abbreviation pool :: "semaphore list \<Rightarrow> nat \<Rightarrow> int \<Rightarrow> semaphores" where
  "pool sems i limit \<equiv> \<lparr>ss_all = sems, ss_current = Some i, ss_loop = Some 0, ss_limit = limit\<rparr>"

abbreviation sem :: "int \<Rightarrow> nat \<Rightarrow> semaphore" where
  "sem value held \<equiv> \<lparr>sm_value = value, sm_held = held\<rparr>"

lemmas semaphore_eval = search_semaphore_def refreshed_semaphore_def new_semaphore_def no_semaphores_def concurrency_defs

lemma pressure_changes:
  "snd (search_semaphore 0 0 no_semaphores) = pool [sem 4 0] 0 4"
  "snd (search_semaphore 0 (1 / 2) (pool [sem 2 2] 0 4)) = pool [sem 2 2] 0 2"
  "snd (search_semaphore 0 1 (pool [sem 2 2] 0 2)) = pool [sem 2 2, sem 1 0] 1 1"
  "snd (search_semaphore 0 0 (pool [sem 2 2, sem 1 0] 1 1)) = pool [sem 2 2, sem 1 0, sem 4 0] 2 4"
  by (simp_all add: semaphore_eval)

lemma take_one:
  "0 < v \<Longrightarrow> search_step L I (pool [sem v h] 0 l) (pool [sem (v - 1) (h + 1)] 0 l)"
  "0 < v \<Longrightarrow> search_step L I (pool [a, b, sem v h] i l) (pool [a, b, sem (v - 1) (h + 1)] i l)"
  using search_step.take [of 0 "pool [sem v h] 0 l" L I] search_step.take [of 2 "pool [a, b, sem v h] i l" L I]
  by (simp_all add: acquire_def numeral_2_eq_2)

lemma take_two:
  assumes "1 < v"
  shows "(search_step L I)\<^sup>*\<^sup>* (pool [sem v h] 0 l) (pool [sem (v - 2) (h + 2)] 0 l)"
    "(search_step L I)\<^sup>*\<^sup>* (pool [a, b, sem v h] i l) (pool [a, b, sem (v - 2) (h + 2)] i l)"
proof -
  have v: "v - 1 - 1 = v - 2" "h + 1 + 1 = h + 2" "0 < v" "0 < v - 1" using assms by simp_all
  show "(search_step L I)\<^sup>*\<^sup>* (pool [sem v h] 0 l) (pool [sem (v - 2) (h + 2)] 0 l)"
    using take_one(1) [OF v(3)] take_one(1) [OF v(4), of L I "h + 1"] unfolding v(1,2)
    by (blast intro: converse_rtranclp_into_rtranclp)
  show "(search_step L I)\<^sup>*\<^sup>* (pool [a, b, sem v h] i l) (pool [a, b, sem (v - 2) (h + 2)] i l)"
    using take_one(2) [OF v(3)] take_one(2) [OF v(4), of L I a b "h + 1"] unfolding v(1,2)
    by (blast intro: converse_rtranclp_into_rtranclp)
qed

lemma six_searches:
  "\<exists>ss. (search_step {0} {0, 1 / 2, 1})\<^sup>*\<^sup>* no_semaphores ss \<and> running_searches ss = 6"
proof -
  let ?step = "search_step {0} {0, 1 / 2, 1}"
  note ask = search_step.ask [of 0 "{0}" _ "{0, 1 / 2, 1}"]
  have s1: "?step\<^sup>*\<^sup>* no_semaphores (pool [sem 4 0] 0 4)"
    using ask [of 0 no_semaphores] by (simp add: pressure_changes r_into_rtranclp)
  have s2: "?step\<^sup>*\<^sup>* (pool [sem 4 0] 0 4) (pool [sem 2 2] 0 4)"
    using take_two(1) [of 4 _ _ 0] by (simp add: numeral_eq_Suc)
  have s3: "?step\<^sup>*\<^sup>* (pool [sem 2 2] 0 4) (pool [sem 2 2] 0 2)"
    using ask [of "1 / 2" "pool [sem 2 2] 0 4"] by (simp add: pressure_changes r_into_rtranclp)
  have s4: "?step\<^sup>*\<^sup>* (pool [sem 2 2] 0 2) (pool [sem 2 2, sem 1 0] 1 1)"
    using ask [of 1 "pool [sem 2 2] 0 2"] by (simp add: pressure_changes r_into_rtranclp)
  have s5: "?step\<^sup>*\<^sup>* (pool [sem 2 2, sem 1 0] 1 1) (pool [sem 2 2, sem 1 0, sem 4 0] 2 4)"
    using ask [of 0 "pool [sem 2 2, sem 1 0] 1 1"] unfolding pressure_changes by (simp add: r_into_rtranclp)
  have s6: "?step\<^sup>*\<^sup>* (pool [sem 2 2, sem 1 0, sem 4 0] 2 4) (pool [sem 2 2, sem 1 0, sem 2 2] 2 4)"
    using take_two(2) [of 4 _ _ _ _ 0] by (simp add: numeral_eq_Suc)
  have s7: "?step\<^sup>*\<^sup>* (pool [sem 2 2, sem 1 0, sem 2 2] 2 4) (pool [sem 2 2, sem 1 0, sem 0 4] 2 4)"
    using take_two(2) [of 2 _ _ _ _ 2] by (simp add: numeral_eq_Suc)
  note rtranclp_trans [OF rtranclp_trans [OF rtranclp_trans [OF s1 s2] rtranclp_trans [OF s3 s4]]
    rtranclp_trans [OF rtranclp_trans [OF s5 s6] s7]]
  then show ?thesis
    by (intro exI [of _ "pool [sem 2 2, sem 1 0, sem 0 4] 2 4"]) (simp add: running_searches_def)
qed

section \<open>Locks\<close>

text \<open>
  The dictionary of locks, the locks that are held, and the next new lock; a lock is a number.
  \<open>telegram_source_lock\<close> differs from \<open>subscription_lock\<close> in its key only.
\<close>

record 'k locks =
  lk_loop :: "nat option"
  lk_dict :: "('k \<times> nat) list"
  lk_held :: "nat list"
  lk_next :: nat

definition MAX_LOCKS :: nat where
  "MAX_LOCKS = 256"

definition evict_stale_locks :: "nat list \<Rightarrow> ('k \<times> nat) list \<Rightarrow> ('k \<times> nat) list" where
  "evict_stale_locks held dict =
     (if length dict \<le> MAX_LOCKS then dict else filter (\<lambda>(k, l). List.member held l) dict)"

definition get_lock :: "nat \<Rightarrow> 'k \<Rightarrow> 'k locks \<Rightarrow> nat \<times> 'k locks" where
  "get_lock loop key ls =
     (let dict = evict_stale_locks (lk_held ls) (if lk_loop ls = Some loop then lk_dict ls else []);
          ls' = ls\<lparr>lk_loop := Some loop, lk_dict := dict\<rparr>
      in case map_of dict key of
           Some l \<Rightarrow> (l, ls')
         | None \<Rightarrow> (lk_next ls, ls'\<lparr>lk_dict := dict @ [(key, lk_next ls)], lk_next := lk_next ls + 1\<rparr>))"

definition subscription_lock :: "nat \<Rightarrow> int \<Rightarrow> int locks \<Rightarrow> nat \<times> int locks" where
  "subscription_lock loop sid = get_lock loop sid"

definition source_key :: "pystr \<Rightarrow> pystr" where
  "source_key source = (if strip source = [] then u ''_unknown_'' else strip source)"

definition telegram_source_lock :: "nat \<Rightarrow> pystr \<Rightarrow> pystr locks \<Rightarrow> nat \<times> pystr locks" where
  "telegram_source_lock loop source = get_lock loop (source_key source)"

definition hold :: "nat \<Rightarrow> 'k locks \<Rightarrow> 'k locks" where
  "hold l ls = ls\<lparr>lk_held := l # lk_held ls\<rparr>"

definition unhold :: "nat \<Rightarrow> 'k locks \<Rightarrow> 'k locks" where
  "unhold l ls = ls\<lparr>lk_held := removeAll l (lk_held ls)\<rparr>"

text \<open>What others do on the same loop while the lock \<open>l\<close> is held\<close>

inductive others_step :: "nat \<Rightarrow> nat \<Rightarrow> 'k locks \<Rightarrow> 'k locks \<Rightarrow> bool" for loop l where
  get: "others_step loop l ls (snd (get_lock loop key ls))"
| lock: "l' \<notin> set (lk_held ls) \<Longrightarrow> others_step loop l ls (hold l' ls)"
| unlock: "l' \<noteq> l \<Longrightarrow> others_step loop l ls (unhold l' ls)"

definition holds_key :: "nat \<Rightarrow> 'k \<Rightarrow> nat \<Rightarrow> 'k locks \<Rightarrow> bool" where
  "holds_key loop key l ls \<longleftrightarrow> lk_loop ls = Some loop \<and> map_of (lk_dict ls) key = Some l \<and> l \<in> set (lk_held ls)
     \<and> distinct (map fst (lk_dict ls))"

lemma map_of_filter_held:
  "distinct (map fst d) \<Longrightarrow> map_of d k = Some l \<Longrightarrow> P l \<Longrightarrow> map_of (filter (\<lambda>(k, l). P l) d) k = Some l"
  by (induction d) (auto split: if_splits simp: weak_map_of_SomeI dest: map_of_SomeD)

lemma evict_keeps_held:
  "distinct (map fst d) \<Longrightarrow> map_of d k = Some l \<Longrightarrow> l \<in> set held \<Longrightarrow> map_of (evict_stale_locks held d) k = Some l"
  by (simp add: evict_stale_locks_def map_of_filter_held)

lemma evict_distinct: "distinct (map fst d) \<Longrightarrow> distinct (map fst (evict_stale_locks held d))"
  by (auto simp: evict_stale_locks_def distinct_map intro: inj_on_subset)

lemma get_lock_held: "holds_key loop key l ls \<Longrightarrow> fst (get_lock loop key ls) = l"
  by (simp add: holds_key_def get_lock_def Let_def evict_keeps_held)

lemma others_keep: "others_step loop l ls ls' \<Longrightarrow> holds_key loop key l ls \<Longrightarrow> holds_key loop key l ls'"
proof (induction rule: others_step.induct)
  case (get ls key')
  let ?d = "evict_stale_locks (lk_held ls) (lk_dict ls)"
  have d: "map_of ?d key = Some l" "distinct (map fst ?d)"
    using get by (simp_all add: holds_key_def evict_keeps_held evict_distinct)
  show ?case
  proof (cases "map_of ?d key'")
    case None
    then have "key' \<notin> fst ` set ?d" by (simp add: map_of_eq_None_iff)
    then show ?thesis
      using get d None by (simp add: holds_key_def get_lock_def Let_def)
  next
    case (Some l')
    then show ?thesis
      using get d by (simp add: holds_key_def get_lock_def Let_def)
  qed
qed (auto simp: holds_key_def hold_def unhold_def)

text \<open>A held lock is handed out again, whatever the others on the loop do meanwhile.\<close>

lemma held_lock_stable:
  assumes "(others_step loop l)\<^sup>*\<^sup>* ls ls'" "holds_key loop key l ls"
  shows "fst (get_lock loop key ls') = l"
proof -
  have "holds_key loop key l ls'"
    using assms by (induction rule: rtranclp_induct) (auto intro: others_keep)
  then show ?thesis by (rule get_lock_held)
qed

text \<open>Locks that exist have numbers below the next one.\<close>

definition locks_ok :: "'k locks \<Rightarrow> bool" where
  "locks_ok ls \<longleftrightarrow> (\<forall>l \<in> snd ` set (lk_dict ls) \<union> set (lk_held ls). l < lk_next ls)"

text \<open>One call on another loop, and the next call on the first loop hands out a new lock, held by nobody.\<close>

lemma second_loop_forgets:
  assumes "loop' \<noteq> loop" "locks_ok ls"
  shows "fst (get_lock loop key (snd (get_lock loop' key' ls))) \<notin> set (lk_held ls)"
proof -
  have "fst (get_lock loop key (snd (get_lock loop' key' ls))) \<ge> lk_next ls"
    using assms(1) by (auto simp: get_lock_def Let_def evict_stale_locks_def split: option.splits)
  then show ?thesis using assms(2) unfolding locks_ok_def by (meson UnI2 not_less)
qed

end
