(* ===== verification/Search_Selection.thy ===== *)
theory Search_Selection
  imports Delivery_Service
begin

text \<open>
  \<open>app/services/subscription/search/selection.py\<close>, \<open>selection_telegram.py\<close>, \<open>selection_fallback.py\<close> and
  \<open>ed2k.py\<close>: which of the matching results are saved, and the candidates of the second choice that
  are tried one after the other until one is delivered.  Saving replaces the url of the result object
  by its canonical form; where an object is looked at again the model carries the changed one.
  Shown: a saved Telegram result brings an episode that those saved before do not; the summary adds
  up; the loop over the candidates ends, tries no url twice and stops at the first delivery.
\<close>

section \<open>The tables\<close>

record database =
  db_store :: store
  db_stats :: "(pystr \<times> source_stat) list"
  db_subs :: "subscription list"

definition mark_checked :: "pystr \<Rightarrow> int \<Rightarrow> database \<Rightarrow> database" where
  "mark_checked now sid db =
     db\<lparr>db_subs := update_rows (\<lambda>s. sub_id s = sid) (\<lambda>s. s\<lparr>last_checked_at := Some now\<rparr>) (db_subs db)\<rparr>"

definition insert_into :: "pystr \<Rightarrow> subscription \<Rightarrow> search_result \<Rightarrow> database \<Rightarrow> resource_row option \<times> database" where
  "insert_into now sub r db =
     (case insert_resource_automatic now sub r (db_store db, db_stats db) of
        (row, st, stats) \<Rightarrow> (row, db\<lparr>db_store := st, db_stats := stats\<rparr>))"

definition saved_rows :: "subscription \<Rightarrow> database \<Rightarrow> resource_row list" where
  "saved_rows sub db = existing_resource_rows (sub_id sub) (st_rows (db_store db))"

section \<open>Results of a Telegram search\<close>

definition starts_ed2k :: "search_result \<Rightarrow> bool" where
  "starts_ed2k r = starts_with (u ''ed2k://'') (casefold (r_url r))"

definition missing_coverage_for_result :: "subscription \<Rightarrow> search_result \<Rightarrow> ekey set" where
  "missing_coverage_for_result sub r = d_coverage (decide_resource_candidate sub r [])"

definition result_missing_already_covered :: "subscription \<Rightarrow> search_result \<Rightarrow> ekey set \<Rightarrow> bool \<Rightarrow> bool" where
  "result_missing_already_covered sub r covered bare_pack_saved =
     (let coverage = missing_coverage_for_result sub r in
      if coverage \<noteq> {} then coverage \<subseteq> covered else bare_pack_saved)"

datatype save_outcome = Saved resource_row | Known pystr | Not_Saved

definition save_telegram_result :: "pystr \<Rightarrow> subscription \<Rightarrow> search_result \<Rightarrow> database \<Rightarrow> save_outcome \<times> database" where
  "save_telegram_result now sub r db =
     (case resource_already_exists r (Some sub) (saved_rows sub db) of
        Some reason \<Rightarrow> (Known reason, db)
      | None \<Rightarrow>
          (case insert_into now sub r db of
             (None, db') \<Rightarrow> (Not_Saved, db')
           | (Some row, db') \<Rightarrow> (Saved row, db')))"

text \<open>
  \<open>created\<close>, each row with the result it was made of as it was found; \<open>matched\<close>, the counters and the
  covered episodes
\<close>

record progress =
  pg_created :: "(search_result \<times> resource_row) list"
  pg_matched :: "search_result list"
  pg_duplicates :: nat
  pg_failed :: nat
  pg_covered :: "ekey set"

definition no_progress :: progress where
  "no_progress = \<lparr>pg_created = [], pg_matched = [], pg_duplicates = 0, pg_failed = 0, pg_covered = {}\<rparr>"

definition note_saved :: "subscription \<Rightarrow> search_result \<Rightarrow> resource_row \<Rightarrow> progress \<Rightarrow> progress" where
  "note_saved sub r row p =
     p\<lparr>pg_created := pg_created p @ [(r, row)], pg_matched := pg_matched p @ [canonical_result r],
       pg_covered := pg_covered p \<union> missing_coverage_for_result sub (canonical_result r)\<rparr>"

text \<open>A result saved first that names no missing episode (a pack without numbers) ends the loop.\<close>

fun attach_telegram_loop ::
    "pystr \<Rightarrow> subscription \<Rightarrow> search_result list \<Rightarrow> progress \<Rightarrow> database \<Rightarrow> progress \<times> database" where
  "attach_telegram_loop now sub [] p db = (p, db)"
| "attach_telegram_loop now sub (r # rs) p db =
     (if pg_covered p \<noteq> {} \<and> result_missing_already_covered sub r (pg_covered p) False
      then attach_telegram_loop now sub rs p db
      else case save_telegram_result now sub r db of
        (Saved row, db') \<Rightarrow>
          (let p' = note_saved sub r row p in
           if pg_covered p' = {} then (p', db') else attach_telegram_loop now sub rs p' db')
      | (Known _, db') \<Rightarrow>
          attach_telegram_loop now sub rs
            (p\<lparr>pg_duplicates := pg_duplicates p + 1, pg_matched := pg_matched p @ [r]\<rparr>) db'
      | (Not_Saved, db') \<Rightarrow> attach_telegram_loop now sub rs (p\<lparr>pg_failed := pg_failed p + 1\<rparr>) db')"

record attach_summary =
  as_raw_matched :: nat
  as_available :: nat
  as_created :: nat
  as_duplicates :: nat
  as_save_failed :: nat
  as_from_index :: bool

definition from_index :: "search_result list \<Rightarrow> bool" where
  "from_index results =
     list_ex (\<lambda>r. r_source r = u ''TelegramIndex'' \<or> starts_with (u ''TelegramIndex:'') (r_source r)) results"

definition attach_telegram_results ::
    "pystr \<Rightarrow> subscription \<Rightarrow> search_result list \<Rightarrow> database \<Rightarrow> (progress \<times> attach_summary) \<times> database" where
  "attach_telegram_results now sub results db =
     (let raw = matching_results sub (filter (\<lambda>r. \<not> starts_ed2k r) results) [] in
      case attach_telegram_loop now sub (fallback_result_candidates raw (Some sub)) no_progress db of
        (p, db') \<Rightarrow>
          ((p, \<lparr>as_raw_matched = length raw, as_available = length (pg_created p) + pg_duplicates p,
                as_created = length (pg_created p), as_duplicates = pg_duplicates p, as_save_failed = pg_failed p,
                as_from_index = from_index results\<rparr>),
           mark_checked now (sub_id sub) db'))"

section \<open>Second choices\<close>

text \<open>
  The objects of a group keep their places in \<open>matched\<close>; the candidates are their positions in the
  order of the ranking.
\<close>

definition ranked_positions :: "subscription \<Rightarrow> search_result list \<Rightarrow> nat list" where
  "ranked_positions sub matched = sort_key (\<lambda>i. fallback_candidate_sort_key (Some sub) (matched ! i)) [0..<length matched]"

fun first_saved ::
    "pystr \<Rightarrow> subscription \<Rightarrow> resource_row list \<Rightarrow> pystr set \<Rightarrow> nat list \<Rightarrow> search_result list \<Rightarrow> database
     \<Rightarrow> (nat \<times> resource_row) option \<times> search_result list \<times> database" where
  "first_saved now sub existing_115 excluded [] matched db = (None, matched, db)"
| "first_saved now sub existing_115 excluded (i # is) matched db =
     (if r_url (matched ! i) \<in> excluded \<or> fallback_blocked_by_primary_resource sub (matched ! i) existing_115
      then first_saved now sub existing_115 excluded is matched db
      else case insert_into now sub (matched ! i) db of
        (None, db') \<Rightarrow> first_saved now sub existing_115 excluded is (matched[i := canonical_result (matched ! i)]) db'
      | (Some row, db') \<Rightarrow>
          (Some (i, row), matched[i := canonical_result (matched ! i)], mark_checked now (sub_id sub) db'))"

definition attach_first_from_group ::
    "pystr \<Rightarrow> subscription \<Rightarrow> pystr set \<Rightarrow> search_result list \<Rightarrow> database
     \<Rightarrow> (nat \<times> resource_row) option \<times> search_result list \<times> database" where
  "attach_first_from_group now sub excluded matched db =
     first_saved now sub (subscription_115_resources (sub_id sub) (st_rows (db_store db))) excluded
       (ranked_positions sub matched) matched db"

fun attach_first_fallback_result ::
    "pystr \<Rightarrow> subscription \<Rightarrow> search_result list list \<Rightarrow> database \<Rightarrow> resource_row option \<times> database" where
  "attach_first_fallback_result now sub [] db = (None, db)"
| "attach_first_fallback_result now sub (g # gs) db =
     (case attach_first_from_group now sub {} g db of
        (Some (i, row), _, db') \<Rightarrow> (Some row, db')
      | (None, _, db') \<Rightarrow> attach_first_fallback_result now sub gs db')"

text \<open>\<open>deliver\<close> answers, or raises with a text (\<open>Inl\<close>), and may change the tables.\<close>

type_synonym deliver = "int \<Rightarrow> database \<Rightarrow> (pystr + bool) \<times> database"

definition FAILED_TRY_NEXT :: pystr where
  "FAILED_TRY_NEXT = [0x78C1, 0x529B, 0x6295, 0x9012, 0x5931, 0x8D25, 0xFF0C, 0x81EA, 0x52A8, 0x5C1D, 0x8BD5,
     0x4E0B, 0x4E00, 0x5019, 0x9009]"

definition mark_candidate_failed :: "pystr \<Rightarrow> int \<Rightarrow> pystr option \<Rightarrow> database \<Rightarrow> database" where
  "mark_candidate_failed now rid err db =
     db\<lparr>db_store := (db_store db)\<lparr>st_rows :=
       update_rows (\<lambda>row. rr_id row = rid \<and> rr_status row = u ''pending'')
         (\<lambda>row. row\<lparr>rr_status := u ''delivery_failed_retryable'',
            rr_last_error := (case err of Some e \<Rightarrow> Some e
               | None \<Rightarrow> (case rr_last_error row of Some e \<Rightarrow> Some e | None \<Rightarrow> Some FAILED_TRY_NEXT)),
            rr_updated_at := Some now\<rparr>) (st_rows (db_store db))\<rparr>\<rparr>"

definition deliver_fallback_candidate :: "pystr \<Rightarrow> deliver \<Rightarrow> int \<Rightarrow> database \<Rightarrow> bool \<times> database" where
  "deliver_fallback_candidate now deliver rid db =
     (case deliver rid db of
        (Inr True, db') \<Rightarrow> (True, db')
      | (Inr False, db') \<Rightarrow> (False, mark_candidate_failed now rid None db')
      | (Inl e, db') \<Rightarrow> (False, mark_candidate_failed now rid (Some e) db'))"

text \<open>What was tried: the url, the row and whether it was delivered\<close>

type_synonym attempt = "pystr \<times> resource_row \<times> bool"

text \<open>
  A pass leaves the objects whose url is excluded alone, and what it chose was not excluded.
\<close>

lemma first_saved_keeps:
  "first_saved now sub ex excluded is matched db = (out, matched', db') \<Longrightarrow>
     length matched' = length matched \<and> (\<forall>j < length matched. r_url (matched ! j) \<in> excluded \<longrightarrow> matched' ! j = matched ! j)"
proof (induction "is" arbitrary: matched db)
  case (Cons i "is")
  show ?case
  proof (cases "r_url (matched ! i) \<in> excluded \<or> fallback_blocked_by_primary_resource sub (matched ! i) ex")
    case True
    then show ?thesis using Cons by simp
  next
    case False
    obtain row_opt db2 where ins: "insert_into now sub (matched ! i) db = (row_opt, db2)" by (cases "insert_into now sub (matched ! i) db")
    let ?m = "matched[i := canonical_result (matched ! i)]"
    have m: "?m ! j = matched ! j" if "r_url (matched ! j) \<in> excluded" for j
      using False that by (cases "j = i") auto
    show ?thesis
    proof (cases row_opt)
      case None
      then have "first_saved now sub ex excluded is ?m db2 = (out, matched', db')"
        using Cons.prems False ins by simp
      from Cons.IH [OF this] m show ?thesis by simp
    next
      case (Some row)
      then have "matched' = ?m" using Cons.prems False ins by auto
      with m show ?thesis by simp
    qed
  qed
qed simp

lemma first_saved_choice:
  assumes "first_saved now sub ex excluded is matched db = (Some (i, row), matched', db')"
  shows "i \<in> set is \<and> (i < length matched \<longrightarrow> r_url (matched ! i) \<notin> excluded)"
  using assms
proof (induction "is" arbitrary: matched db)
  case (Cons k "is")
  show ?case
  proof (cases "r_url (matched ! k) \<in> excluded \<or> fallback_blocked_by_primary_resource sub (matched ! k) ex")
    case True
    then show ?thesis using Cons by simp
  next
    case False
    obtain row_opt db2 where ins: "insert_into now sub (matched ! k) db = (row_opt, db2)" by (cases "insert_into now sub (matched ! k) db")
    show ?thesis
    proof (cases row_opt)
      case None
      let ?m = "matched[k := canonical_result (matched ! k)]"
      have "first_saved now sub ex excluded is ?m db2 = (Some (i, row), matched', db')"
        using Cons.prems False ins None by simp
      from Cons.IH [OF this] show ?thesis
        using False by (cases "i = k") auto
    next
      case (Some row')
      then show ?thesis using Cons.prems False ins by auto
    qed
  qed
qed simp

lemma ranked_positions_set [simp]: "set (ranked_positions sub matched) = {0..<length matched}"
  by (simp add: ranked_positions_def)

text \<open>The number of objects whose url was not tried yet\<close>

definition untried :: "pystr set \<Rightarrow> search_result list \<Rightarrow> nat" where
  "untried attempted matched = length (filter (\<lambda>r. r_url r \<notin> attempted) matched)"

lemma untried_card: "untried attempted matched = card {j. j < length matched \<and> r_url (matched ! j) \<notin> attempted}"
  by (simp add: untried_def length_filter_conv_card)

lemma attach_first_untried:
  assumes "attach_first_from_group now sub attempted matched db = (Some (i, row), matched', db')"
  shows "untried (insert (r_url (matched' ! i)) attempted) matched' < untried attempted matched"
proof -
  note eq = assms [unfolded attach_first_from_group_def]
  have len: "length matched' = length matched"
    and keep: "\<forall>j < length matched. r_url (matched ! j) \<in> attempted \<longrightarrow> matched' ! j = matched ! j"
    using first_saved_keeps [OF eq] by simp_all
  have i: "i < length matched" "r_url (matched ! i) \<notin> attempted"
    using first_saved_choice [OF eq] by simp_all
  let ?new = "{j. j < length matched' \<and> r_url (matched' ! j) \<notin> insert (r_url (matched' ! i)) attempted}"
  have "?new \<subseteq> {j. j < length matched \<and> r_url (matched ! j) \<notin> attempted} - {i}"
    using len keep by auto
  moreover have "i \<in> {j. j < length matched \<and> r_url (matched ! j) \<notin> attempted}" using i by simp
  ultimately show ?thesis
    unfolding untried_card by (intro psubset_card_mono) auto
qed

text \<open>The inner loop: the candidates of one group until one is delivered\<close>

function try_group ::
    "pystr \<Rightarrow> deliver \<Rightarrow> subscription \<Rightarrow> search_result list \<Rightarrow> pystr set \<Rightarrow> attempt list \<Rightarrow> database
     \<Rightarrow> bool \<times> pystr set \<times> attempt list \<times> database" where
  "try_group now deliver sub matched attempted created db =
     (case attach_first_from_group now sub attempted matched db of
        (None, _, db') \<Rightarrow> (False, attempted, created, db')
      | (Some (i, row), matched', db') \<Rightarrow>
          (let url = r_url (matched' ! i) in
           case deliver_fallback_candidate now deliver (rr_id row) db' of
             (True, db'') \<Rightarrow> (True, insert url attempted, created @ [(url, row, True)], db'')
           | (False, db'') \<Rightarrow>
               try_group now deliver sub matched' (insert url attempted) (created @ [(url, row, False)]) db''))"
  by pat_completeness auto
termination
  by (relation "measure (\<lambda>(now, deliver, sub, matched, attempted, created, db). untried attempted matched)")
    (auto dest: attach_first_untried [OF sym])

declare try_group.simps [simp del]

fun try_groups ::
    "pystr \<Rightarrow> deliver \<Rightarrow> subscription \<Rightarrow> search_result list list \<Rightarrow> pystr set \<Rightarrow> attempt list \<Rightarrow> database
     \<Rightarrow> attempt list \<times> database" where
  "try_groups now deliver sub [] attempted created db = (created, db)"
| "try_groups now deliver sub (g # gs) attempted created db =
     (case try_group now deliver sub g attempted created db of
        (True, _, created', db') \<Rightarrow> (created', db')
      | (False, attempted', created', db') \<Rightarrow> try_groups now deliver sub gs attempted' created' db')"

definition attach_fallback_results_until_delivered ::
    "pystr \<Rightarrow> subscription \<Rightarrow> search_result list list \<Rightarrow> deliver \<Rightarrow> database \<Rightarrow> attempt list \<times> database" where
  "attach_fallback_results_until_delivered now sub groups deliver db = try_groups now deliver sub groups {} [] db"

definition match_fallback_groups :: "subscription \<Rightarrow> search_result list list \<Rightarrow> nat \<times> search_result list list" where
  "match_fallback_groups sub groups =
     (sum_list (map length groups), map (\<lambda>g. matching_results sub g []) groups)"


section \<open>The loop over the candidates\<close>

text \<open>What a delivery must leave alone: which rows there are, and their links\<close>

definition row_link :: "resource_row \<Rightarrow> int \<times> int \<times> pystr" where
  "row_link row = (rr_id row, rr_subscription row, rr_url row)"

definition links :: "database \<Rightarrow> (int \<times> int \<times> pystr) list" where
  "links db = map row_link (st_rows (db_store db))"

definition same_links :: "database \<Rightarrow> database \<Rightarrow> bool" where
  "same_links db db' \<longleftrightarrow> links db' = links db \<and> st_next_id (db_store db') = st_next_id (db_store db)"

lemma same_links_trans: "same_links a b \<Longrightarrow> same_links b c \<Longrightarrow> same_links a c"
  by (simp add: same_links_def)

lemma mark_candidate_links [simp]: "same_links db (mark_candidate_failed now rid err db)"
proof -
  have "map row_link (update_rows P f rs) = map row_link rs" if "\<And>row. P row \<Longrightarrow> row_link (f row) = row_link row" for P f rs
    using that by (rule update_rows_keep)
  then show ?thesis by (simp add: same_links_def links_def mark_candidate_failed_def row_link_def)
qed

definition link_free :: "subscription \<Rightarrow> pystr \<Rightarrow> database \<Rightarrow> bool" where
  "link_free sub url db \<longleftrightarrow> (\<forall>(i, s, u) \<in> set (links db). \<not> (s = sub_id sub \<and> u = url))"

lemma same_links_free: "same_links db db' \<Longrightarrow> link_free sub url db' = link_free sub url db"
  by (simp add: same_links_def link_free_def)

locale delivery_port =
  fixes deliver :: deliver
  assumes deliver_links: "deliver rid db = (out, db') \<Longrightarrow> same_links db db'"
begin

lemma candidate_links: "deliver_fallback_candidate now deliver rid db = (ok, db') \<Longrightarrow> same_links db db'"
  by (auto simp: deliver_fallback_candidate_def split: prod.splits sum.splits bool.splits
      dest!: deliver_links intro: same_links_trans [OF _ mark_candidate_links])

end

text \<open>An insertion adds one row with a link of its own, or nothing.\<close>

lemma insert_into_None: "insert_into now sub r db = (None, db') \<Longrightarrow> same_links db db'"
  by (auto simp: insert_into_def insert_resource_automatic_def insert_resource_def insert_row_def same_links_def links_def Let_def
      split: prod.splits option.splits if_splits)

lemma insert_into_Some:
  assumes "insert_into now sub r db = (Some row, db')"
  shows "links db' = links db @ [row_link row]" "rr_id row = st_next_id (db_store db)"
    "rr_subscription row = sub_id sub" "rr_url row = r_url (canonical_result r)"
    "link_free sub (rr_url row) db"
  using assms
  by (auto simp: link_free_def insert_into_def insert_resource_automatic_def insert_resource_def insert_row_def links_def row_link_def Let_def list_ex_iff
      split: prod.splits option.splits if_splits)

lemma mark_checked_links [simp]: "links (mark_checked now sid db) = links db" "db_store (mark_checked now sid db) = db_store db"
  by (simp_all add: mark_checked_def links_def)

lemma first_saved_None:
  "first_saved now sub ex excluded is matched db = (None, matched', db') \<Longrightarrow> same_links db db'"
proof (induction "is" arbitrary: matched db)
  case (Cons k "is")
  obtain row_opt db2 where ins: "insert_into now sub (matched ! k) db = (row_opt, db2)" by (cases "insert_into now sub (matched ! k) db")
  show ?case
  proof (cases "r_url (matched ! k) \<in> excluded \<or> fallback_blocked_by_primary_resource sub (matched ! k) ex")
    case True
    then show ?thesis using Cons by simp
  next
    case False
    then have "row_opt = None" using Cons.prems ins by (cases row_opt) auto
    then have "first_saved now sub ex excluded is (matched[k := canonical_result (matched ! k)]) db2 = (None, matched', db')"
      "same_links db db2"
      using Cons.prems False ins insert_into_None by auto
    then show ?thesis using Cons.IH same_links_trans by blast
  qed
qed (simp add: same_links_def)

lemma first_saved_Some:
  assumes "first_saved now sub ex excluded is matched db = (Some (i, row), matched', db')" "\<forall>i \<in> set is. i < length matched"
  shows "links db' = links db @ [row_link row] \<and> rr_subscription row = sub_id sub \<and> rr_url row = r_url (matched' ! i)
    \<and> link_free sub (r_url (matched' ! i)) db"
  using assms
proof (induction "is" arbitrary: matched db)
  case (Cons k "is")
  show ?case
  proof (cases "r_url (matched ! k) \<in> excluded \<or> fallback_blocked_by_primary_resource sub (matched ! k) ex")
    case True
    then show ?thesis using Cons by simp
  next
    case False
    obtain row_opt db2 where ins: "insert_into now sub (matched ! k) db = (row_opt, db2)" by (cases "insert_into now sub (matched ! k) db")
    show ?thesis
    proof (cases row_opt)
      case None
      let ?m = "matched[k := canonical_result (matched ! k)]"
      have "first_saved now sub ex excluded is ?m db2 = (Some (i, row), matched', db')"
        using Cons.prems False ins None by simp
      moreover have same: "same_links db db2" using ins None insert_into_None by simp
      then have "links db2 = links db" by (simp add: same_links_def)
      moreover have "link_free sub url db2 = link_free sub url db" for url
        by (rule same_links_free [OF same])
      ultimately show ?thesis using Cons.IH [of ?m db2] Cons.prems(2) by simp
    next
      case (Some row')
      then show ?thesis using Cons.prems False ins insert_into_Some [of now sub "matched ! k" db row' db2] by auto
    qed
  qed
qed simp

lemma attach_first_None: "attach_first_from_group now sub ex matched db = (None, matched', db') \<Longrightarrow> same_links db db'"
  unfolding attach_first_from_group_def by (rule first_saved_None)

lemma attach_first_Some:
  assumes "attach_first_from_group now sub ex matched db = (Some (i, row), matched', db')"
  shows "links db' = links db @ [row_link row] \<and> rr_subscription row = sub_id sub \<and> rr_url row = r_url (matched' ! i)
    \<and> link_free sub (r_url (matched' ! i)) db"
  using first_saved_Some [OF assms [unfolded attach_first_from_group_def]] by simp

text \<open>
  The attempts so far: their rows were added at the end of the table, their urls are those of the
  rows, and all but the last of a finished run failed.
\<close>

definition attempts_ok :: "subscription \<Rightarrow> (int \<times> int \<times> pystr) list \<Rightarrow> attempt list \<Rightarrow> database \<Rightarrow> bool" where
  "attempts_ok sub before created db \<longleftrightarrow>
     links db = before @ map (\<lambda>(url, row, ok). row_link row) created
     \<and> distinct (map fst created)
     \<and> (\<forall>(url, row, ok) \<in> set created. rr_url row = url \<and> rr_subscription row = sub_id sub)"

definition all_failed :: "attempt list \<Rightarrow> bool" where
  "all_failed created \<longleftrightarrow> (\<forall>(url, row, ok) \<in> set created. \<not> ok)"

definition delivered_last :: "attempt list \<Rightarrow> bool" where
  "delivered_last created \<longleftrightarrow> (\<exists>tried url row. created = tried @ [(url, row, True)] \<and> all_failed tried)"

lemma attempts_snoc:
  assumes "attempts_ok sub before created db" "links db' = links db @ [row_link row]" "rr_subscription row = sub_id sub"
    "link_free sub (rr_url row) db" "same_links db' db''"
  shows "attempts_ok sub before (created @ [(rr_url row, row, ok)]) db''"
proof -
  have "rr_url row \<notin> fst ` set created"
  proof
    assume "rr_url row \<in> fst ` set created"
    then obtain r ok' where c: "(rr_url row, r, ok') \<in> set created" by force
    then have "(\<lambda>(url, row, ok). row_link row) (rr_url row, r, ok') \<in> (\<lambda>(url, row, ok). row_link row) ` set created"
      by (rule imageI)
    then have "row_link r \<in> set (links db)"
      using assms(1) by (simp add: attempts_ok_def)
    moreover have "\<forall>(url, row, ok) \<in> set created. rr_url row = url \<and> rr_subscription row = sub_id sub"
      using assms(1) by (simp add: attempts_ok_def)
    from bspec [OF this c] have "rr_url r = rr_url row" "rr_subscription r = sub_id sub" by simp_all
    ultimately have "row_link r \<in> set (links db)" "rr_url r = rr_url row" "rr_subscription r = sub_id sub"
      by blast+
    then show False using assms(4) by (auto simp: row_link_def link_free_def)
  qed
  then have "distinct (map fst (created @ [(rr_url row, row, ok)]))"
    using assms(1) by (simp add: attempts_ok_def)
  moreover have "links db'' = before @ map (\<lambda>(url, row, ok). row_link row) (created @ [(rr_url row, row, ok)])"
    using assms(1,2,5) by (simp add: attempts_ok_def same_links_def)
  moreover have "\<forall>(url, r, ok) \<in> set (created @ [(rr_url row, row, ok)]). rr_url r = url \<and> rr_subscription r = sub_id sub"
    using assms(1,3) by (auto simp: attempts_ok_def)
  ultimately show ?thesis
    unfolding attempts_ok_def by blast
qed

context delivery_port begin

lemma try_group_result:
  "try_group now deliver sub matched attempted created db = (done', attempted', created', db') \<Longrightarrow>
   attempts_ok sub before created db \<Longrightarrow> all_failed created \<Longrightarrow>
     attempts_ok sub before created' db' \<and> (if done' then delivered_last created' else all_failed created')
     \<and> length created' \<le> length created + untried attempted matched"
proof (induction "untried attempted matched" arbitrary: matched attempted created db rule: less_induct)
  case less
  obtain choice matched2 db2 where pass: "attach_first_from_group now sub attempted matched db = (choice, matched2, db2)"
    by (cases "attach_first_from_group now sub attempted matched db")
  show ?case
  proof (cases choice)
    case None
    then have "done' = False" "created' = created" "db' = db2"
      using less.prems(1) pass by (simp_all add: try_group.simps [of now deliver sub matched])
    moreover have "same_links db db2" using pass None attach_first_None by blast
    ultimately show ?thesis using less.prems(2,3) by (simp add: attempts_ok_def same_links_def)
  next
    case (Some c)
    obtain i row where c: "c = (i, row)" by (cases c)
    let ?url = "r_url (matched2 ! i)"
    note pass = pass [unfolded Some c]
    note row = attach_first_Some [OF pass]
    obtain ok db3 where del: "deliver_fallback_candidate now deliver (rr_id row) db2 = (ok, db3)"
      by (cases "deliver_fallback_candidate now deliver (rr_id row) db2")
    have url: "?url = rr_url row" using row by simp
    have ok2: "attempts_ok sub before (created @ [(?url, row, ok)]) db3"
      unfolding url by (rule attempts_snoc [OF less.prems(2) _ _ _ candidate_links [OF del]]) (use row url in simp_all)
    have fewer: "untried (insert ?url attempted) matched2 < untried attempted matched"
      by (rule attach_first_untried [OF pass])
    show ?thesis
    proof (cases ok)
      case True
      then have "done' = True" "created' = created @ [(?url, row, True)]" "db' = db3"
        using less.prems(1) pass del by (auto simp: try_group.simps [of now deliver sub matched] Let_def)
      then show ?thesis using ok2 True fewer less.prems(3) by (auto simp: delivered_last_def)
    next
      case False
      then have rec: "try_group now deliver sub matched2 (insert ?url attempted) (created @ [(?url, row, False)]) db3
          = (done', attempted', created', db')"
        using less.prems(1) pass del by (simp add: try_group.simps [of now deliver sub matched] Let_def)
      have "all_failed (created @ [(?url, row, False)])" using less.prems(3) by (simp add: all_failed_def)
      from less.hyps [OF fewer rec _ this] ok2 False fewer
      show ?thesis by simp
    qed
  qed
qed

lemma try_groups_result:
  "try_groups now deliver sub groups attempted created db = (created', db') \<Longrightarrow>
   attempts_ok sub before created db \<Longrightarrow> all_failed created \<Longrightarrow>
     attempts_ok sub before created' db' \<and> (delivered_last created' \<or> all_failed created')
     \<and> length created' \<le> length created + sum_list (map length groups)"
proof (induction groups arbitrary: attempted created db)
  case Nil
  then show ?case by simp
next
  case (Cons g gs)
  obtain done' attempted2 created2 db2 where g: "try_group now deliver sub g attempted created db = (done', attempted2, created2, db2)"
    by (metis prod_cases4)
  note res = try_group_result [OF g Cons.prems(2,3)]
  have short: "untried attempted g \<le> length g" by (simp add: untried_def)
  show ?case
  proof (cases done')
    case True
    then show ?thesis using Cons.prems(1) g res short by auto
  next
    case False
    then have "try_groups now deliver sub gs attempted2 created2 db2 = (created', db')"
      using Cons.prems(1) g by simp
    from Cons.IH [OF this] res False short show ?thesis by simp
  qed
qed

theorem until_delivered:
  assumes "attach_fallback_results_until_delivered now sub groups deliver db = (created, db')"
  shows "attempts_ok sub (links db) created db' \<and> (delivered_last created \<or> all_failed created)
    \<and> length created \<le> sum_list (map length groups)"
  using try_groups_result [OF assms [unfolded attach_fallback_results_until_delivered_def], of "links db"]
  by (simp add: attempts_ok_def all_failed_def)

end

text \<open>The delivery service is such a port.\<close>

definition deliver_via :: "world \<Rightarrow> pystr \<Rightarrow> deliver" where
  "deliver_via w now rid db =
     (case deliver_resource w now rid (st_rows (db_store db)) of
        (ok, rs) \<Rightarrow> (Inr ok, db\<lparr>db_store := (db_store db)\<lparr>st_rows := rs\<rparr>\<rparr>))"

lemma update_links: "(\<And>row. row_link (f row) = row_link row) \<Longrightarrow> map row_link (update_rows P f rs) = map row_link rs"
  by (rule update_rows_keep)

lemma settle_links: "map row_link (snd (settle now row v rs)) = map row_link rs"
  by (cases v) (simp_all add: settle_def mark_skipped_def mark_resource_duplicate_delivered_def update_links row_link_def)

lemma deliver_resource_links: "map row_link (snd (deliver_resource w now rid rs)) = map row_link rs"
proof -
  have "map row_link (snd (deliver_resource_locked w now row rs)) = map row_link rs" for row
    using settle_links [of now row _ rs]
    by (auto simp: deliver_resource_locked_def update_resource_delivery_status_def update_links row_link_def
        split: verdict_before.splits prod.splits)
  then show ?thesis by (simp add: deliver_resource_def split: option.splits)
qed

interpretation service: delivery_port "deliver_via w now" for w now
proof
  fix rid db out db'
  assume "deliver_via w now rid db = (out, db')"
  then show "same_links db db'"
    using deliver_resource_links [of w now rid "st_rows (db_store db)"]
    by (auto simp: deliver_via_def same_links_def links_def split: prod.splits)
qed

section \<open>What is saved of a Telegram search\<close>

lemma save_telegram_links:
  "save_telegram_result now sub r db = (out, db') \<Longrightarrow>
     (case out of Saved row \<Rightarrow> links db' = links db @ [row_link row] | _ \<Rightarrow> same_links db db')"
  by (auto simp: save_telegram_result_def same_links_def dest: insert_into_None insert_into_Some
      split: option.splits prod.splits)

text \<open>No saved result names only missing episodes that those saved before it bring.\<close>

fun brings_new :: "subscription \<Rightarrow> ekey set \<Rightarrow> search_result list \<Rightarrow> bool" where
  "brings_new sub covered [] = True"
| "brings_new sub covered (r # rs) =
     ((covered = {} \<or> missing_coverage_for_result sub r = {} \<or> \<not> missing_coverage_for_result sub r \<subseteq> covered)
      \<and> brings_new sub (covered \<union> missing_coverage_for_result sub (canonical_result r)) rs)"

definition loop_ok ::
    "subscription \<Rightarrow> search_result list \<Rightarrow> (search_result \<times> resource_row) list \<Rightarrow> progress \<Rightarrow> database
     \<Rightarrow> progress \<Rightarrow> database \<Rightarrow> bool" where
  "loop_ok sub rs new p db p' db' \<longleftrightarrow>
     pg_created p' = pg_created p @ new \<and> brings_new sub (pg_covered p) (map fst new) \<and> subseq (map fst new) rs
     \<and> links db' = links db @ map (row_link \<circ> snd) new
     \<and> pg_duplicates p \<le> pg_duplicates p' \<and> pg_failed p \<le> pg_failed p'
     \<and> length (pg_matched p') = length (pg_matched p) + length new + (pg_duplicates p' - pg_duplicates p)
     \<and> length new + (pg_duplicates p' - pg_duplicates p) + (pg_failed p' - pg_failed p) \<le> length rs"

lemma not_covered_iff:
  "\<not> result_missing_already_covered sub r covered False \<longleftrightarrow>
     missing_coverage_for_result sub r = {} \<or> \<not> missing_coverage_for_result sub r \<subseteq> covered"
  by (auto simp: result_missing_already_covered_def Let_def)

lemma loop_ok_refl: "loop_ok sub rs [] p db p db"
  by (simp add: loop_ok_def)

lemma loop_ok_saved:
  assumes "loop_ok sub rs new (note_saved sub r row p) db2 p' db'" "links db2 = links db @ [row_link row]"
    "pg_covered p = {} \<or> \<not> result_missing_already_covered sub r (pg_covered p) False"
  shows "loop_ok sub (r # rs) ((r, row) # new) p db p' db'"
  using assms by (auto simp: loop_ok_def note_saved_def not_covered_iff)

lemma loop_ok_skip:
  assumes "loop_ok sub rs new q db2 p' db'" "same_links db db2" "pg_created q = pg_created p" "pg_covered q = pg_covered p"
    "pg_duplicates q + pg_failed q \<le> pg_duplicates p + pg_failed p + 1" "pg_failed p \<le> pg_failed q"
    "pg_duplicates p \<le> pg_duplicates q" "length (pg_matched q) = length (pg_matched p) + (pg_duplicates q - pg_duplicates p)"
  shows "loop_ok sub (r # rs) new p db p' db'"
  using assms by (auto simp: loop_ok_def same_links_def)

lemma attach_loop_ok:
  "attach_telegram_loop now sub rs p db = (p', db') \<Longrightarrow> \<exists>new. loop_ok sub rs new p db p' db'"
proof (induction now sub rs p db rule: attach_telegram_loop.induct)
  case (1 now sub p db)
  then have "p' = p" "db' = db" by simp_all
  then show ?case using loop_ok_refl by blast
next
  case (2 now sub r rs p db)
  show ?case
  proof (cases "pg_covered p \<noteq> {} \<and> result_missing_already_covered sub r (pg_covered p) False")
    case True
    then obtain new where "loop_ok sub rs new p db p' db'" using 2 by auto
    then have "loop_ok sub (r # rs) new p db p' db'" by (rule loop_ok_skip) (simp_all add: same_links_def)
    then show ?thesis by blast
  next
    case False
    obtain out db2 where save: "save_telegram_result now sub r db = (out, db2)" by (cases "save_telegram_result now sub r db")
    note links = save_telegram_links [OF save]
    show ?thesis
    proof (cases out)
      case (Saved row)
      then have l: "links db2 = links db @ [row_link row]" using links by simp
      show ?thesis
      proof (cases "pg_covered (note_saved sub r row p) = {}")
        case True
        then have "p' = note_saved sub r row p" "db' = db2"
          using "2.prems" False save Saved by (auto simp: Let_def split: if_splits)
        then show ?thesis using loop_ok_saved [OF loop_ok_refl l] False by blast
      next
        case covered: False
        then have "attach_telegram_loop now sub rs (note_saved sub r row p) db2 = (p', db')"
          using "2.prems" False save Saved by (auto simp: Let_def split: if_splits)
        then obtain new where "loop_ok sub rs new (note_saved sub r row p) db2 p' db'"
          using "2.IH"(2) [OF False save [symmetric] Saved refl] covered by blast
        from loop_ok_saved [OF this l] False show ?thesis by blast
      qed
    next
      case (Known reason)
      then obtain new where "loop_ok sub rs new (p\<lparr>pg_duplicates := pg_duplicates p + 1, pg_matched := pg_matched p @ [r]\<rparr>) db2 p' db'"
        using "2.IH"(3) [OF False save [symmetric] Known] "2.prems" False save by (auto split: if_splits)
      then have "loop_ok sub (r # rs) new p db p' db'" by (rule loop_ok_skip) (use links Known in simp_all)
      then show ?thesis by blast
    next
      case Not_Saved
      then obtain new where "loop_ok sub rs new (p\<lparr>pg_failed := pg_failed p + 1\<rparr>) db2 p' db'"
        using "2.IH"(4) [OF False save [symmetric] Not_Saved] "2.prems" False save by (auto split: if_splits)
      then have "loop_ok sub (r # rs) new p db p' db'" by (rule loop_ok_skip) (use links Not_Saved in simp_all)
      then show ?thesis by blast
    qed
  qed
qed

end
