(* ===== verification/Ed2k_Search.thy ===== *)
theory Ed2k_Search
  imports Search_Selection
begin

text \<open>
  \<open>app/services/subscription/search/ed2k.py\<close>: the ed2k files of a Telegram search.  The episode of a
  file is read from its name only, and a file is saved when it names a needed episode, one that is
  missing and that no saved resource covers.  Shown: only needed files are saved, each
  adds one row with a link of its own, and the counters add up.  The needed episodes are computed
  once, before the loop, so two files of one episode are both saved.
\<close>

definition resource_url_exists :: "pystr \<Rightarrow> resource_row list \<Rightarrow> bool" where
  "resource_url_exists url saved =
     (case resource_dedupe_key url of
        None \<Rightarrow> False
      | Some k \<Rightarrow> list_ex (\<lambda>row. resource_status_is_effective (rr_status row) \<and> resource_dedupe_key (rr_url row) = Some k) saved)"

definition build_covered_episodes :: "subscription \<Rightarrow> resource_row list \<Rightarrow> ekey set" where
  "build_covered_episodes sub saved =
     \<Union> (row_episodes (Some sub) ` set (filter (\<lambda>row. resource_status_is_effective (rr_status row) \<and> rr_title row \<noteq> []) saved))"

definition file_episodes :: "subscription \<Rightarrow> search_result \<Rightarrow> ekey set" where
  "file_episodes sub r = episode_keys_from_text_for_subscription (Some sub) (r_title r)"

definition needed_episodes :: "subscription \<Rightarrow> resource_row list \<Rightarrow> ekey set" where
  "needed_episodes sub saved =
     (let missing = missing_episode_keys sub in if missing \<noteq> {} then missing - build_covered_episodes sub saved else {})"

text \<open>A file without readable episodes is not skipped.\<close>

definition not_needed :: "subscription \<Rightarrow> ekey set \<Rightarrow> search_result \<Rightarrow> bool" where
  "not_needed sub needed r \<longleftrightarrow> needed = {} \<or> file_episodes sub r \<noteq> {} \<and> file_episodes sub r \<inter> needed = {}"

record ed2k_progress =
  ed_created :: "(search_result \<times> resource_row) list"
  ed_matched :: "search_result list"
  ed_duplicates :: nat
  ed_failed :: nat
  ed_skipped :: nat

definition no_ed2k :: ed2k_progress where
  "no_ed2k = \<lparr>ed_created = [], ed_matched = [], ed_duplicates = 0, ed_failed = 0, ed_skipped = 0\<rparr>"

definition insert_file :: "pystr \<Rightarrow> subscription \<Rightarrow> search_result \<Rightarrow> database \<Rightarrow> resource_row option \<times> database" where
  "insert_file now sub r db =
     (case insert_row now (sub_id sub) r (db_store db) of (row, st) \<Rightarrow> (row, db\<lparr>db_store := st\<rparr>))"

fun ed2k_loop ::
    "pystr \<Rightarrow> subscription \<Rightarrow> ekey set \<Rightarrow> search_result list \<Rightarrow> ed2k_progress \<Rightarrow> database \<Rightarrow> ed2k_progress \<times> database" where
  "ed2k_loop now sub needed [] p db = (p, db)"
| "ed2k_loop now sub needed (r # rs) p db =
     (if not_needed sub needed r \<or> \<not> is_valid_download_link (r_url r)
      then ed2k_loop now sub needed rs (p\<lparr>ed_skipped := ed_skipped p + 1\<rparr>) db
      else if \<not> resource_allowed_for_subscription (Some sub) r None
      then ed2k_loop now sub needed rs (p\<lparr>ed_failed := ed_failed p + 1\<rparr>) db
      else if resource_url_exists (r_url r) (saved_rows sub db)
      then ed2k_loop now sub needed rs
             (p\<lparr>ed_duplicates := ed_duplicates p + 1, ed_matched := ed_matched p @ [r]\<rparr>) db
      else case insert_file now sub r db of
        (None, db') \<Rightarrow> ed2k_loop now sub needed rs (p\<lparr>ed_failed := ed_failed p + 1\<rparr>) db'
      | (Some row, db') \<Rightarrow>
          ed2k_loop now sub needed rs
            (p\<lparr>ed_created := ed_created p @ [(r, row)], ed_matched := ed_matched p @ [r]\<rparr>) db')"

definition ed2k_results :: "search_result list \<Rightarrow> search_result list" where
  "ed2k_results results = filter (\<lambda>r. starts_ed2k r \<and> r_title r \<noteq> []) results"

definition search_and_attach_ed2k ::
    "pystr \<Rightarrow> subscription \<Rightarrow> search_result list \<Rightarrow> database \<Rightarrow> ed2k_progress \<times> database" where
  "search_and_attach_ed2k now sub results db =
     (if media_type sub \<noteq> Tv \<or> ed2k_results results = [] then (no_ed2k, db)
      else case ed2k_loop now sub (needed_episodes sub (saved_rows sub db)) (ed2k_results results) no_ed2k db of
        (p, db') \<Rightarrow> (p, mark_checked now (sub_id sub) db'))"

section \<open>What is saved\<close>

definition ed2k_ok ::
    "subscription \<Rightarrow> ekey set \<Rightarrow> search_result list \<Rightarrow> (search_result \<times> resource_row) list \<Rightarrow> ed2k_progress \<Rightarrow> database
     \<Rightarrow> ed2k_progress \<Rightarrow> database \<Rightarrow> bool" where
  "ed2k_ok sub needed rs new p db p' db' \<longleftrightarrow>
     ed_created p' = ed_created p @ new \<and> subseq (map fst new) rs
     \<and> (\<forall>(r, row) \<in> set new. \<not> not_needed sub needed r \<and> d_accepted (decide_resource_candidate sub r [])
          \<and> rr_url row = r_url r \<and> rr_status row = u ''pending'')
     \<and> links db' = links db @ map (row_link \<circ> snd) new
     \<and> ed_duplicates p \<le> ed_duplicates p'
     \<and> length (ed_matched p') = length (ed_matched p) + length new + (ed_duplicates p' - ed_duplicates p)
     \<and> length new + ed_duplicates p' + ed_failed p' + ed_skipped p' = length rs + ed_duplicates p + ed_failed p + ed_skipped p"

lemma insert_file_None: "insert_file now sub r db = (None, db') \<Longrightarrow> db' = db"
  by (auto simp: insert_file_def insert_row_def Let_def split: prod.splits if_splits)

lemma insert_file_Some:
  "insert_file now sub r db = (Some row, db') \<Longrightarrow>
     links db' = links db @ [row_link row] \<and> rr_url row = r_url r \<and> rr_status row = u ''pending''"
  by (auto simp: insert_file_def insert_row_def links_def Let_def split: prod.splits if_splits)

lemma ed2k_ok_skip:
  assumes "ed2k_ok sub needed rs new q db p' db'" "ed_created q = ed_created p"
    "ed_duplicates q + ed_failed q + ed_skipped q = ed_duplicates p + ed_failed p + ed_skipped p + 1" "ed_duplicates p \<le> ed_duplicates q"
    "length (ed_matched q) = length (ed_matched p) + (ed_duplicates q - ed_duplicates p)"
  shows "ed2k_ok sub needed (r # rs) new p db p' db'"
  using assms by (auto simp: ed2k_ok_def)

lemma ed2k_ok_saved:
  assumes "ed2k_ok sub needed rs new (p\<lparr>ed_created := ed_created p @ [(r, row)], ed_matched := ed_matched p @ [r]\<rparr>) db2 p' db'"
    "\<not> not_needed sub needed r" "d_accepted (decide_resource_candidate sub r [])"
    "links db2 = links db @ [row_link row] \<and> rr_url row = r_url r \<and> rr_status row = u ''pending''"
  shows "ed2k_ok sub needed (r # rs) ((r, row) # new) p db p' db'"
  using assms by (auto simp: ed2k_ok_def)

lemma allowed_accepted: "resource_allowed_for_subscription (Some sub) r None \<longleftrightarrow> d_accepted (decide_resource_candidate sub r [])"
  by (simp add: resource_allowed_for_subscription_def Let_def)

lemma ed2k_loop_ok: "ed2k_loop now sub needed rs p db = (p', db') \<Longrightarrow> \<exists>new. ed2k_ok sub needed rs new p db p' db'"
proof (induction now sub needed rs p db rule: ed2k_loop.induct)
  case (1 now sub needed p db)
  then have "ed2k_ok sub needed [] [] p db p' db'" by (simp add: ed2k_ok_def)
  then show ?case by blast
next
  case (2 now sub needed r rs p db)
  let ?skip = "not_needed sub needed r \<or> \<not> is_valid_download_link (r_url r)"
  show ?case
  proof (cases "?skip \<or> \<not> resource_allowed_for_subscription (Some sub) r None \<or> resource_url_exists (r_url r) (saved_rows sub db)")
    case True
    then obtain q new where "ed2k_ok sub needed rs new q db p' db'" "ed_created q = ed_created p"
      "ed_duplicates q + ed_failed q + ed_skipped q = ed_duplicates p + ed_failed p + ed_skipped p + 1" "ed_duplicates p \<le> ed_duplicates q"
      "length (ed_matched q) = length (ed_matched p) + (ed_duplicates q - ed_duplicates p)"
    proof -
      consider "?skip" | "\<not> ?skip" "\<not> resource_allowed_for_subscription (Some sub) r None"
        | "\<not> ?skip" "resource_allowed_for_subscription (Some sub) r None" "resource_url_exists (r_url r) (saved_rows sub db)"
        using True by blast
      then show thesis
      proof cases
        case 1
        then show thesis using "2.IH"(1) "2.prems" that by (auto split: if_splits)
      next
        case 2
        then show thesis using "2.IH"(2) "2.prems" that by (auto split: if_splits)
      next
        case 3
        then show thesis using "2.IH"(3) "2.prems" that by (auto split: if_splits)
      qed
    qed
    then show ?thesis using ed2k_ok_skip by blast
  next
    case False
    obtain row_opt db2 where ins: "insert_file now sub r db = (row_opt, db2)" by (cases "insert_file now sub r db")
    show ?thesis
    proof (cases row_opt)
      case None
      then have "ed2k_loop now sub needed rs (p\<lparr>ed_failed := ed_failed p + 1\<rparr>) db2 = (p', db')"
        using "2.prems" False ins by simp
      then obtain new where "ed2k_ok sub needed rs new (p\<lparr>ed_failed := ed_failed p + 1\<rparr>) db2 p' db'"
        using "2.IH"(4) False ins None by metis
      then have "ed2k_ok sub needed (r # rs) new p db2 p' db'" by (rule ed2k_ok_skip) simp_all
      then show ?thesis using insert_file_None ins None by blast
    next
      case (Some row)
      let ?q = "p\<lparr>ed_created := ed_created p @ [(r, row)], ed_matched := ed_matched p @ [r]\<rparr>"
      have "ed2k_loop now sub needed rs ?q db2 = (p', db')"
        using "2.prems" False ins Some by simp
      then obtain new where "ed2k_ok sub needed rs new ?q db2 p' db'"
        using "2.IH"(5) False ins Some by metis
      then show ?thesis
        using ed2k_ok_saved False allowed_accepted insert_file_Some ins Some by blast
    qed
  qed
qed

theorem ed2k_saves_needed:
  assumes "search_and_attach_ed2k now sub results db = (p, db')"
  shows "\<exists>new. ed_created p = new \<and> subseq (map fst new) (ed2k_results results)
    \<and> (\<forall>(r, row) \<in> set new. \<not> not_needed sub (needed_episodes sub (saved_rows sub db)) r
         \<and> d_accepted (decide_resource_candidate sub r []) \<and> rr_url row = r_url r \<and> rr_status row = u ''pending'')
    \<and> links db' = links db @ map (row_link \<circ> snd) new"
proof (cases "media_type sub \<noteq> Tv \<or> ed2k_results results = []")
  case True
  then show ?thesis using assms by (auto simp: search_and_attach_ed2k_def no_ed2k_def)
next
  case False
  obtain q db2 where loop: "ed2k_loop now sub (needed_episodes sub (saved_rows sub db)) (ed2k_results results) no_ed2k db = (q, db2)"
    by (metis surj_pair)
  then have "p = q" "db' = mark_checked now (sub_id sub) db2"
    using assms False by (auto simp: search_and_attach_ed2k_def)
  then show ?thesis
    using ed2k_loop_ok [OF loop] by (auto simp: ed2k_ok_def no_ed2k_def)
qed

end
