(* ===== verification/Haisou_Items.thy ===== *)
theory Haisou_Items
  imports Rows Pan_Links Match_Text Link_Downloads Episode_Roundtrip
begin

text \<open>
  \<open>app/services/sources/haisou/mapper.py\<close>: the items of an answer of the search service as search
  results, with the file names of a share as context and the range of episodes they suggest.
  Shown: every result has a link that can be downloaded and no two have the same; the suggested
  range is read back by the readers of episodes as the episodes 1 to the highest number; the
  suggestion is always one of season 1, whatever season the files name.
\<close>

section \<open>Links\<close>

definition or_val :: "pyval \<Rightarrow> pystr" where
  "or_val v = (if truthy v then str_of_val v else [])"

definition field :: "pyval \<Rightarrow> string list \<Rightarrow> pystr" where
  "field item keys = strip (or_val (foldr (\<lambda>k v. por (pget item (u k)) v) keys (PStr [])))"

definition with_115_password :: "pystr \<Rightarrow> pystr \<Rightarrow> pystr" where
  "with_115_password link password =
     (let base = or_str (normalize_115_share_link link) (strip link) in
      if base = [] then []
      else if password = [] then base
      else let parsed = urlparse base; query_items = parse_qsl (url_query parsed) in
        if set (map (lower \<circ> fst) query_items) \<inter> set (map u [''password'', ''pwd'', ''receive_code'']) \<noteq> {} then base
        else urlunparse (parsed\<lparr>url_query := urlencode (query_items @ [(u ''password'', strip password)])\<rparr>))"

definition build_haisou_share_url :: "pyval \<Rightarrow> pystr" where
  "build_haisou_share_url item =
     (let given = field item [''shareUrl'', ''share_url''];
          share_code = field item [''shareCode'', ''share_code''];
          share_pwd = field item [''sharePwd'', ''share_pwd'', ''pwd''];
          platform = lower (field item [''platform'']);
          share_url = (if given = [] \<and> platform = u ''115'' \<and> share_code \<noteq> []
                       then u ''https://115.com/s/'' @ share_code else given)
      in if share_url = [] then []
         else if platform = u ''115'' \<or> contains (u ''115.com'') share_url \<or> contains (u ''115cdn.com'') share_url
         then with_115_password share_url share_pwd
         else share_url)"

section \<open>File names\<close>

definition file_keys :: "pystr list" where
  "file_keys = map u [''file'', ''filename'', ''fileName'', ''file_name'', ''filePath'', ''file_path'', ''name'', ''path'', ''title'']"

definition container_keys :: "pystr list" where
  "container_keys = map u [''files'', ''fileList'', ''file_list'', ''items'', ''children'', ''paths'']"

fun is_container :: "pyval \<Rightarrow> bool" where
  "is_container (PDict _) = True"
| "is_container (PList _) = True"
| "is_container _ = False"

text \<open>\<open>values\<close> and \<open>seen\<close>: the names as they are kept, cut to 240 characters, and the full ones\<close>

type_synonym names = "pystr list \<times> pystr set"

definition add_name :: "pyval \<Rightarrow> names \<Rightarrow> names" where
  "add_name v st =
     (let name = strip (or_val v) in
      if name = [] \<or> name \<in> snd st then st else (fst st @ [take 240 name], insert name (snd st)))"

text \<open>The first argument is 5 minus the depth; \<open>walk\<close> returns at once below depth 4.\<close>

fun walk :: "nat \<Rightarrow> pystr \<Rightarrow> pyval \<Rightarrow> names \<Rightarrow> names" where
  "walk 0 key v st = st"
| "walk (Suc n) key v st =
     (if 30 \<le> length (fst st) then st
      else case v of
        PDict kvs \<Rightarrow>
          fold (\<lambda>(k, w) st.
             if 30 \<le> length (fst st) then st
             else if List.member file_keys k \<and> \<not> is_container w then add_name w st
             else if List.member container_keys k \<or> is_container w then walk n k w st
             else st) kvs st
      | PList ws \<Rightarrow> fold (\<lambda>w st. if 30 \<le> length (fst st) then st else walk n key w st) ws st
      | _ \<Rightarrow> if List.member file_keys key \<or> List.member container_keys key then add_name v st else st)"

definition VIDEO_FILE_RE :: re where
  [re_pats]: "VIDEO_FILE_RE =
     seqs [chr 46, alts (map lit_i [''mkv'', ''mp4'', ''ts'', ''m2ts'', ''avi'', ''mov'', ''wmv'', ''flv'', ''webm'', ''rmvb'', ''iso'']), Eos]"

definition before_episode :: "nat \<Rightarrow> bool" where
  [chr_eval]: "before_episode c = (is_space c \<or> in_chars [46, 95, 45, 91, 40] c)"

definition after_season :: "nat \<Rightarrow> bool" where
  [chr_eval]: "after_season c = (is_space c \<or> in_chars [46, 95, 45] c)"

definition after_episode :: "nat \<Rightarrow> bool" where
  [chr_eval]: "after_episode c = (is_space c \<or> in_chars [46, 95, 45, 93, 41] c)"

definition EPISODE_FILE_RE :: re where
  [re_pats]: "EPISODE_FILE_RE =
     seqs [Alt Bos (Cls before_episode),
           opt (seqs [chr_i 115, Grp ''season'' (upto 1 2 digit), many (Cls after_season)]),
           opt (Alt (chr_i 101) (lit_i ''ep'')),
           Grp ''episode'' (upto 1 3 digit),
           Alt (Cls after_episode) Eos]"

definition safe_episode_number :: "pystr \<Rightarrow> nat" where
  "safe_episode_number value =
     (case int_of_str (or_str (lstrip_chars [48] value) [48]) of
        None \<Rightarrow> 0
      | Some n \<Rightarrow> if 0 < n \<and> n \<le> 200 then nat n else 0)"

definition file_name :: "pystr \<Rightarrow> pystr" where
  "file_name value = strip (last (split_char 47 (map (\<lambda>c. if c = 92 then 47 else c) value)))"

definition file_episode_numbers :: "pystr \<Rightarrow> nat list" where
  "file_episode_numbers value =
     (let name = file_name value in
      if name = [] \<or> \<not> re_found VIDEO_FILE_RE name then []
      else filter (\<lambda>n. n \<noteq> 0) (map (safe_episode_number \<circ> grp ''episode'')
             (re_finditer EPISODE_FILE_RE (re_sub VIDEO_FILE_RE [] name))))"

definition episode_numbers_from_files :: "pystr list \<Rightarrow> nat set" where
  "episode_numbers_from_files names = set (concat (map file_episode_numbers names))"

text \<open>\<open>int(highest * 0.6)\<close> is the integer part of three fifths for every number up to 200.\<close>

definition infer_episode_context :: "pystr list \<Rightarrow> pystr" where
  "infer_episode_context names =
     (let episodes = episode_numbers_from_files names in
      if episodes = {} then []
      else let highest = Max episodes in
        if highest < 2 then []
        else if card (episodes \<inter> {1..highest}) < min highest (max 2 (3 * highest div 5)) then []
        else u ''S01E01-E'' @ dec_str2 highest)"

definition haisou_file_contexts :: "pyval \<Rightarrow> pystr list" where
  "haisou_file_contexts item =
     (let names = fst (walk 5 [] item ([], {})); inferred = infer_episode_context names in
      if inferred \<noteq> [] then inferred # names else names)"

section \<open>Results\<close>

definition HAISOU_NAME :: pystr where
  "HAISOU_NAME = [0x6D77, 0x641C, 32] @ u ''Haisou''"

definition share_context :: "pyval \<Rightarrow> pystr \<Rightarrow> pystr \<Rightarrow> pystr" where
  "share_context raw platform title =
     join [10] (filter (\<lambda>part. part \<noteq> [])
       ([title, or_val (por (pget raw (u ''platformName'')) (PStr platform)),
         (if pget raw (u ''sizeBytes'') \<noteq> PNone then u ''size='' @ str_of_val (pget raw (u ''sizeBytes'')) else []),
         (if pget raw (u ''fileCount'') \<noteq> PNone then u ''files='' @ str_of_val (pget raw (u ''fileCount'')) else []),
         (if truthy (pget raw (u ''hsid'')) then u ''hsid='' @ str_of_val (pget raw (u ''hsid'')) else [])]
        @ haisou_file_contexts raw))"

definition usable_item :: "pystr list \<Rightarrow> pyval \<Rightarrow> bool" where
  "usable_item platforms raw =
     (let allowed = filter (\<lambda>p. p \<noteq> []) (map (lower \<circ> strip) (if platforms = [] then [u ''115''] else platforms));
          platform = lower (field raw [''platform''])
      in is_pdict raw \<and> \<not> (allowed \<noteq> [] \<and> platform \<noteq> [] \<and> \<not> List.member allowed platform)
         \<and> \<not> (platform \<noteq> [] \<and> platform \<noteq> u ''115''))"

definition item_result :: "pystr \<Rightarrow> pyval \<Rightarrow> search_result" where
  "item_result source_name raw =
     (let title = or_str (field raw [''title'']) source_name;
          message = or_val (por (pget raw (u ''hsid'')) (pget raw (u ''shareCode'')))
      in \<lparr>r_title = take 120 title, r_url = build_haisou_share_url raw, r_source = u ''site_plugin:'' @ source_name,
          r_message_id = (if message = [] then None else Some message),
          r_context = share_context raw (lower (field raw [''platform''])) title, r_priority = 0\<rparr>)"

fun map_items :: "pystr \<Rightarrow> pystr list \<Rightarrow> pyval list \<Rightarrow> pystr set \<Rightarrow> search_result list" where
  "map_items source_name platforms [] seen = []"
| "map_items source_name platforms (raw # raws) seen =
     (let url = build_haisou_share_url raw in
      if \<not> usable_item platforms raw \<or> url = [] \<or> \<not> is_valid_download_link url \<or> url \<in> seen
      then map_items source_name platforms raws seen
      else item_result source_name raw # map_items source_name platforms raws (insert url seen))"

definition map_haisou_items :: "pystr \<Rightarrow> pystr list \<Rightarrow> pyval list \<Rightarrow> search_result list" where
  "map_haisou_items source_name platforms items = map_items source_name platforms items {}"

section \<open>The results are usable\<close>

lemma map_items_urls:
  "distinct (map r_url (map_items source_name platforms raws seen))
   \<and> set (map r_url (map_items source_name platforms raws seen)) \<inter> seen = {}
   \<and> (\<forall>r \<in> set (map_items source_name platforms raws seen). is_valid_download_link (r_url r) \<and> length (r_title r) \<le> 120)"
proof (induction raws arbitrary: seen)
  case (Cons raw raws)
  show ?case
    using Cons [of seen] Cons [of "insert (build_haisou_share_url raw) seen"]
    by (auto simp: Let_def item_result_def)
qed simp

lemma add_name_short: "length (fst st) < 30 \<Longrightarrow> length (fst (add_name w st)) \<le> 30"
  by (simp add: add_name_def Let_def)

lemma fold_keeps: "(\<And>x st. P st \<Longrightarrow> P (f x st)) \<Longrightarrow> P st \<Longrightarrow> P (fold f xs st)"
  by (rule fold_invariant [where Q = "\<lambda>_. True"]) simp_all

lemma walk_names_short: "length (fst st) \<le> 30 \<Longrightarrow> length (fst (walk n key v st)) \<le> 30"
proof (induction n arbitrary: key v st)
  case (Suc n)
  then show ?case
    by (auto simp: not_le add_name_short split: pyval.splits intro!: fold_keeps [where P = "\<lambda>st. length (fst st) \<le> 30"])
qed simp

section \<open>The suggested range\<close>

lemma safe_number_le: "safe_episode_number s \<le> 200"
  by (auto simp: safe_episode_number_def split: option.splits)

lemma file_numbers_range: "n \<in> episode_numbers_from_files names \<Longrightarrow> 0 < n \<and> n \<le> 200"
  using safe_number_le by (auto simp: episode_numbers_from_files_def file_episode_numbers_def Let_def split: if_splits)

lemma inferred_label:
  assumes "infer_episode_context names \<noteq> []"
  obtains h where "2 \<le> h" "h \<le> 200" "h = Max (episode_numbers_from_files names)"
    "infer_episode_context names = range_label 1 1 (int h)"
proof -
  let ?E = "episode_numbers_from_files names"
  have E: "?E \<noteq> {}" "\<not> Max ?E < 2" "infer_episode_context names = u ''S01E01-E'' @ dec_str2 (Max ?E)"
    using assms by (auto simp: infer_episode_context_def Let_def split: if_splits)
  have "finite ?E" by (simp add: episode_numbers_from_files_def)
  then have "Max ?E \<in> ?E" using E(1) by (rule Max_in)
  then have "Max ?E \<le> 200" using file_numbers_range by blast
  moreover have "u ''S01E01-E'' @ dec_str2 h = range_label 1 1 (int h)" if "2 \<le> h" for h
    using that by (simp add: range_label_def fmt02_def dec_str2_def u_def dec_str.simps [of "Suc 0"])
  ultimately show thesis using that [of "Max ?E"] E by (simp add: not_less)
qed

lemma inferred_read:
  assumes "infer_episode_context names \<noteq> []" "Max (episode_numbers_from_files names) \<le> 121"
  shows "episodes_from_text (infer_episode_context names) = keys_upto 1 1 (int (Max (episode_numbers_from_files names)))"
proof -
  obtain h where h: "2 \<le> h" "h = Max (episode_numbers_from_files names)" "infer_episode_context names = range_label 1 1 (int h)"
    using inferred_label [OF assms(1)] by metis
  have "expand_episode_range (Some 1) 1 (Some (int h)) = keys_upto 1 1 (int h)"
    using h assms(2) by (auto simp: expand_episode_range_mem season_or_1_def)
  then show ?thesis
    using label_read_wins [OF range_label_read [of 1 1 "int h"]] h assms(2) by simp
qed

text \<open>Two files of season 2 suggest a range of season 1.\<close>

lemma season_2_suggests_1: "infer_episode_context [u ''A.S02E01.mkv'', u ''A.S02E02.mkv''] = u ''S01E01-E02''"
proof -
  have "int_of_str [49] = Some 1" "int_of_str [50] = Some 2"
    by code_simp+
  then have "file_episode_numbers (u ''A.S02E01.mkv'') = [1]" "file_episode_numbers (u ''A.S02E02.mkv'') = [2]"
    by (simp_all add: file_episode_numbers_def file_name_def safe_episode_number_def py_defs re_eval re_pats chr_eval)
  then have "episode_numbers_from_files [u ''A.S02E01.mkv'', u ''A.S02E02.mkv''] = {1, 2}"
    by (simp add: episode_numbers_from_files_def)
  moreover have "card ({1, 2} \<inter> {1..2::nat}) = 2" by (simp add: Int_insert_left)
  ultimately show ?thesis by (simp add: infer_episode_context_def dec_str2_def py_defs u_def dec_str.simps [of "Suc (Suc 0)"])
qed

end
