(* ===== verification/Haisou_Budget.thy ===== *)
theory Haisou_Budget
  imports Py_Prelude Expiring_Cache "HOL-Library.List_Lexorder"
begin

text \<open>
  \<open>app/services/sources/haisou/budget.py\<close>: the allowance of paid calls per hour and the two caches of
  answers.  The window starts at the first call after the last one ended.  Shown: a window never
  grants more than its allowance; any stretch of an hour grants at most twice the allowance, and
  that is reached at the seam of two windows; the caches keep the contract of \<open>expiring_cache\<close>
  and never hold more than 256 entries.
\<close>

section \<open>The allowance\<close>

text \<open>\<^term>\<open>window_started\<close> 0 means that no window was started.  \<open>time.monotonic()\<close> is the argument \<open>now\<close>.\<close>

record budget =
  search_calls :: nat
  validate_calls :: nat
  window_started :: time

definition reset_budget :: budget where
  "reset_budget = \<lparr>search_calls = 0, validate_calls = 0, window_started = 0\<rparr>"

definition WINDOW_SECONDS :: time where
  "WINDOW_SECONDS = 3600"

definition MAX_SEARCH_PER_WINDOW :: nat where
  "MAX_SEARCH_PER_WINDOW = 40"

definition MAX_VALIDATE_PER_WINDOW :: nat where
  "MAX_VALIDATE_PER_WINDOW = 60"

definition roll_window :: "time \<Rightarrow> budget \<Rightarrow> budget" where
  "roll_window now b =
     (if window_started b = 0 \<or> WINDOW_SECONDS \<le> now - window_started b
      then \<lparr>search_calls = 0, validate_calls = 0, window_started = now\<rparr>
      else b)"

definition allow_haisou_search :: "time \<Rightarrow> budget \<Rightarrow> bool \<times> budget" where
  "allow_haisou_search now b = (let b = roll_window now b in (search_calls b < MAX_SEARCH_PER_WINDOW, b))"

definition allow_haisou_validate :: "time \<Rightarrow> budget \<Rightarrow> bool \<times> budget" where
  "allow_haisou_validate now b = (let b = roll_window now b in (validate_calls b < MAX_VALIDATE_PER_WINDOW, b))"

definition acquire_haisou_search_slot :: "time \<Rightarrow> budget \<Rightarrow> bool \<times> budget" where
  "acquire_haisou_search_slot now b =
     (let b = roll_window now b in
      if MAX_SEARCH_PER_WINDOW \<le> search_calls b then (False, b)
      else (True, b\<lparr>search_calls := search_calls b + 1\<rparr>))"

definition acquire_haisou_validate_slot :: "time \<Rightarrow> budget \<Rightarrow> bool \<times> budget" where
  "acquire_haisou_validate_slot now b =
     (let b = roll_window now b in
      if MAX_VALIDATE_PER_WINDOW \<le> validate_calls b then (False, b)
      else (True, b\<lparr>validate_calls := validate_calls b + 1\<rparr>))"

definition note_haisou_search :: "time \<Rightarrow> budget \<Rightarrow> budget" where
  "note_haisou_search now b = (let b = roll_window now b in b\<lparr>search_calls := search_calls b + 1\<rparr>)"

definition note_haisou_validate :: "time \<Rightarrow> budget \<Rightarrow> budget" where
  "note_haisou_validate now b = (let b = roll_window now b in b\<lparr>validate_calls := validate_calls b + 1\<rparr>)"

section \<open>The caches\<close>

text \<open>A dictionary from keys to the end of the lifetime and the value, in insertion order\<close>

type_synonym 'v haisou_cache = "(pystr \<times> (time \<times> 'v)) list"

definition SEARCH_CACHE_TTL_SECONDS :: time where
  "SEARCH_CACHE_TTL_SECONDS = 900"

definition VALIDATE_CACHE_TTL_SECONDS :: time where
  "VALIDATE_CACHE_TTL_SECONDS = 600"

definition CACHE_MAX :: nat where
  "CACHE_MAX = 256"

definition haisou_cache_get :: "time \<Rightarrow> pystr \<Rightarrow> 'v haisou_cache \<Rightarrow> 'v option \<times> 'v haisou_cache" where
  "haisou_cache_get now key saved =
     (case map_of saved key of
        None \<Rightarrow> (None, saved)
      | Some (expires_at, value) \<Rightarrow>
          if expires_at \<le> now then (None, dict_pop key saved) else (Some value, saved))"

text \<open>The first eighth of the entries is looked through for expired ones; if that made no room it is dropped.\<close>

definition drop_stale :: "time \<Rightarrow> 'v haisou_cache \<Rightarrow> 'v haisou_cache" where
  "drop_stale now saved =
     (let saved' = fold (\<lambda>(k, (e, v)) d. if e \<le> now then dict_pop k d else d) (take (max 1 (CACHE_MAX div 8)) saved) saved in
      if CACHE_MAX \<le> length saved'
      then fold (\<lambda>k d. dict_pop k d) (take (max 1 (CACHE_MAX div 8)) (map fst saved')) saved'
      else saved')"

definition haisou_cache_set :: "time \<Rightarrow> time \<Rightarrow> pystr \<Rightarrow> 'v \<Rightarrow> 'v haisou_cache \<Rightarrow> 'v haisou_cache" where
  "haisou_cache_set ttl now key value saved =
     dict_set key (now + ttl, value) (if CACHE_MAX \<le> length saved then drop_stale now saved else saved)"

definition get_cached_haisou_search :: "time \<Rightarrow> pystr \<Rightarrow> 'v haisou_cache \<Rightarrow> 'v option \<times> 'v haisou_cache" where
  "get_cached_haisou_search now key saved = haisou_cache_get now key saved"

definition set_cached_haisou_search :: "time \<Rightarrow> pystr \<Rightarrow> 'v \<Rightarrow> 'v haisou_cache \<Rightarrow> 'v haisou_cache" where
  "set_cached_haisou_search now key value saved = haisou_cache_set SEARCH_CACHE_TTL_SECONDS now key value saved"

definition get_cached_haisou_validate :: "time \<Rightarrow> pystr \<Rightarrow> 'v haisou_cache \<Rightarrow> 'v option \<times> 'v haisou_cache" where
  "get_cached_haisou_validate now key saved = haisou_cache_get now key saved"

definition set_cached_haisou_validate :: "time \<Rightarrow> pystr \<Rightarrow> 'v \<Rightarrow> 'v haisou_cache \<Rightarrow> 'v haisou_cache" where
  "set_cached_haisou_validate now key value saved = haisou_cache_set VALIDATE_CACHE_TTL_SECONDS now key value saved"

definition search_cache_key :: "pystr \<Rightarrow> pystr list \<Rightarrow> int \<Rightarrow> pystr \<Rightarrow> pystr" where
  "search_cache_key query platforms page_size search_in =
     join [124] [casefold (strip query),
       join [44] (sort (map (lower \<circ> strip) (filter (\<lambda>p. strip p \<noteq> []) platforms))),
       int_str page_size,
       lower (strip (if search_in = [] then u ''title'' else search_in))]"

definition validate_cache_key :: "pystr \<Rightarrow> pystr option \<Rightarrow> pystr" where
  "validate_cache_key url pwd = strip url @ [124] @ strip (case pwd of None \<Rightarrow> [] | Some p \<Rightarrow> p)"

section \<open>A window grants at most its allowance\<close>

definition budget_ok :: "budget \<Rightarrow> bool" where
  "budget_ok b \<longleftrightarrow> search_calls b \<le> MAX_SEARCH_PER_WINDOW \<and> validate_calls b \<le> MAX_VALIDATE_PER_WINDOW"

lemma roll_ok [intro]: "budget_ok b \<Longrightarrow> budget_ok (roll_window now b)"
  by (simp add: budget_ok_def roll_window_def)

lemma acquire_search_ok: "budget_ok b \<Longrightarrow> budget_ok (snd (acquire_haisou_search_slot now b))"
  using roll_ok [of b now] by (simp add: acquire_haisou_search_slot_def budget_ok_def Let_def)

lemma acquire_validate_ok: "budget_ok b \<Longrightarrow> budget_ok (snd (acquire_haisou_validate_slot now b))"
  using roll_ok [of b now] by (simp add: acquire_haisou_validate_slot_def budget_ok_def Let_def)

lemma allow_search_ok: "budget_ok b \<Longrightarrow> budget_ok (snd (allow_haisou_search now b))"
  by (auto simp: allow_haisou_search_def Let_def)

text \<open>A look that found room does not reserve it; only the slot does.\<close>

lemma slot_iff_allowed: "fst (acquire_haisou_search_slot now b) = fst (allow_haisou_search now b)"
  by (simp add: acquire_haisou_search_slot_def allow_haisou_search_def Let_def not_le)

text \<open>The calls of a run, searches and validations at their times, and the searches that were granted\<close>

datatype call = Search | Validate

fun slot :: "call \<Rightarrow> time \<Rightarrow> budget \<Rightarrow> bool \<times> budget" where
  "slot Search now b = acquire_haisou_search_slot now b"
| "slot Validate now b = acquire_haisou_validate_slot now b"

fun granted :: "call \<Rightarrow> (call \<times> time) list \<Rightarrow> budget \<Rightarrow> nat" where
  "granted k [] b = 0"
| "granted k ((c, now) # calls) b =
     (case slot c now b of (ok, b') \<Rightarrow> (if ok \<and> c = k then 1 else 0) + granted k calls b')"

definition allowance :: "call \<Rightarrow> nat" where
  "allowance k = (case k of Search \<Rightarrow> MAX_SEARCH_PER_WINDOW | Validate \<Rightarrow> MAX_VALIDATE_PER_WINDOW)"

definition used :: "call \<Rightarrow> budget \<Rightarrow> nat" where
  "used k b = (case k of Search \<Rightarrow> search_calls b | Validate \<Rightarrow> validate_calls b)"

lemma slot_used:
  "slot c now b = (ok, b') \<Longrightarrow>
     used k b' = used k (roll_window now b) + (if ok \<and> c = k then 1 else 0)
     \<and> window_started b' = window_started (roll_window now b)
     \<and> (ok \<longrightarrow> used c (roll_window now b) < allowance c)"
  by (cases c; cases k)
    (auto simp: acquire_haisou_search_slot_def acquire_haisou_validate_slot_def used_def allowance_def Let_def split: if_splits)

text \<open>Within one window\<close>

lemma granted_in_window:
  assumes "0 < window_started b" "\<forall>(c, now) \<in> set calls. now - window_started b < WINDOW_SECONDS" "used k b \<le> allowance k"
  shows "granted k calls b \<le> allowance k - used k b"
  using assms
proof (induction calls arbitrary: b)
  case (Cons call calls)
  obtain c now where call: "call = (c, now)" by (cases call)
  obtain ok b' where s: "slot c now b = (ok, b')" by (cases "slot c now b")
  have keep: "roll_window now b = b" using Cons.prems by (auto simp: call roll_window_def)
  note used = slot_used [OF s, of k, unfolded keep]
  have "used k b' \<le> allowance k"
    using used Cons.prems(3) by (auto split: if_splits)
  then have "granted k calls b' \<le> allowance k - used k b'"
    using Cons.IH [of b'] Cons.prems used by simp
  then show ?case using s used by (auto simp: call split: if_splits)
qed simp

text \<open>Within a stretch shorter than a window at most one new window starts.\<close>

lemma granted_in_stretch:
  assumes "0 < a" "\<forall>(c, now) \<in> set calls. a \<le> now \<and> now < a + WINDOW_SECONDS" "used k b \<le> allowance k"
  shows "granted k calls b \<le> 2 * allowance k - used k b"
  using assms
proof (induction calls arbitrary: b)
  case (Cons call calls)
  obtain c now where call: "call = (c, now)" by (cases call)
  obtain ok b' where s: "slot c now b = (ok, b')" by (cases "slot c now b")
  note used = slot_used [OF s, of k]
  show ?case
  proof (cases "roll_window now b = b")
    case True
    then have "used k b' \<le> allowance k" using used Cons.prems(3) by (auto split: if_splits)
    then have "granted k calls b' \<le> 2 * allowance k - used k b'" using Cons.IH [of b'] Cons.prems by simp
    then show ?thesis using s used True Cons.prems(3) by (auto simp: call split: if_splits)
  next
    case False
    then have roll: "roll_window now b = \<lparr>search_calls = 0, validate_calls = 0, window_started = now\<rparr>"
      by (simp add: roll_window_def split: if_splits)
    then have start: "used k (roll_window now b) = 0" "window_started b' = now"
      using used by (simp_all add: used_def split: call.splits)
    have "0 < allowance k" by (simp add: allowance_def MAX_SEARCH_PER_WINDOW_def MAX_VALIDATE_PER_WINDOW_def split: call.splits)
    then have le: "used k b' \<le> allowance k" using used start by simp
    have "\<forall>(c, t) \<in> set calls. t - window_started b' < WINDOW_SECONDS" "0 < window_started b'"
      using Cons.prems(1,2) start by (fastforce simp: call)+
    from granted_in_window [OF this(2,1) le] have "granted k calls b' \<le> allowance k - used k b'" .
    then have "granted k (call # calls) b \<le> allowance k"
      using s used start le by (auto simp: call split: if_splits)
    then show ?thesis using Cons.prems(3) by linarith
  qed
qed simp

text \<open>Calls at one time are granted while the window has room.\<close>

lemma granted_burst:
  assumes "0 < window_started b" "now - window_started b < WINDOW_SECONDS" "used k b + n \<le> allowance k"
  shows "granted k (replicate n (k, now) @ calls) b =
     n + granted k calls (case k of Search \<Rightarrow> b\<lparr>search_calls := search_calls b + n\<rparr> | Validate \<Rightarrow> b\<lparr>validate_calls := validate_calls b + n\<rparr>)"
  using assms
proof (induction n arbitrary: b)
  case 0
  then show ?case by (cases k) simp_all
next
  case (Suc n)
  have keep: "roll_window now b = b" using Suc.prems by (simp add: roll_window_def)
  show ?case
    using Suc.IH [of "snd (slot k now b)"] Suc.prems keep
    by (cases k) (simp_all add: acquire_haisou_search_slot_def acquire_haisou_validate_slot_def used_def allowance_def Let_def)
qed

text \<open>
  Two bursts at the seam of two windows: after a first call at time 1 the rest of the allowance just
  before the window ends and a whole one just after, 79 calls within two seconds.
\<close>

definition seam_calls :: "(call \<times> time) list" where
  "seam_calls = replicate 39 (Search, 3600) @ replicate 40 (Search, 3601)"

lemma seam_granted:
  "granted Search ((Search, 1) # seam_calls) reset_budget = 80" "granted Search seam_calls (snd (slot Search 1 reset_budget)) = 79"
proof -
  let ?b = "\<lparr>search_calls = 1, validate_calls = 0, window_started = 1\<rparr>"
  have first: "slot Search 1 reset_budget = (True, ?b)"
    by (simp add: acquire_haisou_search_slot_def roll_window_def reset_budget_def MAX_SEARCH_PER_WINDOW_def)
  have last: "granted Search (replicate 40 (Search, 3601)) (?b\<lparr>search_calls := 40\<rparr>) = 40"
  proof -
    have "slot Search 3601 (?b\<lparr>search_calls := 40\<rparr>) = (True, \<lparr>search_calls = 1, validate_calls = 0, window_started = 3601\<rparr>)"
      by (simp add: acquire_haisou_search_slot_def roll_window_def WINDOW_SECONDS_def MAX_SEARCH_PER_WINDOW_def)
    moreover have "granted Search (replicate 39 (Search, 3601)) \<lparr>search_calls = 1, validate_calls = 0, window_started = 3601\<rparr> = 39"
      using granted_burst [of "\<lparr>search_calls = 1, validate_calls = 0, window_started = 3601\<rparr>" 3601 Search 39 "[]"]
      by (simp add: WINDOW_SECONDS_def used_def allowance_def MAX_SEARCH_PER_WINDOW_def)
    moreover have "replicate 40 (Search, 3601 :: time) = (Search, 3601) # replicate 39 (Search, 3601)"
      by (simp add: numeral_eq_Suc)
    ultimately show ?thesis by (simp only: granted.simps prod.case) simp
  qed
  have "granted Search seam_calls ?b = 39 + granted Search (replicate 40 (Search, 3601)) (?b\<lparr>search_calls := 40\<rparr>)"
    using granted_burst [of ?b 3600 Search 39 "replicate 40 (Search, 3601)"]
    by (simp add: seam_calls_def WINDOW_SECONDS_def used_def allowance_def MAX_SEARCH_PER_WINDOW_def)
  with last have "granted Search seam_calls ?b = 79" by simp
  then show "granted Search ((Search, 1) # seam_calls) reset_budget = 80" "granted Search seam_calls (snd (slot Search 1 reset_budget)) = 79"
    using first by (simp_all del: slot.simps)
qed

section \<open>The caches keep their contract\<close>

definition haisou_lookup :: "time \<Rightarrow> pystr \<Rightarrow> 'v haisou_cache \<Rightarrow> 'v option" where
  "haisou_lookup now key saved = fst (haisou_cache_get now key saved)"

definition haisou_room :: "nat \<Rightarrow> 'v haisou_cache \<Rightarrow> bool" where
  "haisou_room n saved \<longleftrightarrow> length saved + n \<le> CACHE_MAX"

lemma haisou_lookup_eq:
  "haisou_lookup now key saved =
     (case map_of saved key of Some (e, v) \<Rightarrow> if e \<le> now then None else Some v | None \<Rightarrow> None)"
  by (simp add: haisou_lookup_def haisou_cache_get_def split: option.splits)

lemma haisou_contract:
  "expiring_cache haisou_lookup (haisou_cache_set ttl) (\<lambda>_. ttl) (\<lambda>v. v) haisou_room"
proof
  fix n and c :: "'v haisou_cache" and t now k k' and v :: 'v
  assume "haisou_room (Suc n) c"
  then have set: "haisou_cache_set ttl now k v c = dict_set k (now + ttl, v) c"
    and short: "length (dict_set k (now + ttl, v) c) + n \<le> CACHE_MAX"
    using length_dict_set [of k "(now + ttl, v)" c] by (auto simp: haisou_cache_set_def haisou_room_def)
  show "haisou_lookup t k (haisou_cache_set ttl now k v c) = Some v" if "t < now + ttl"
    using that by (simp add: set haisou_lookup_eq update_conv')
  show "haisou_lookup t k' (haisou_cache_set ttl now k v c) = haisou_lookup t k' c" if "k' \<noteq> k"
    using that by (simp add: set haisou_lookup_eq update_conv')
  show "haisou_lookup t k (haisou_cache_set ttl now k v c) = None" if "now + ttl < t"
    using that by (simp add: set haisou_lookup_eq update_conv')
  show "haisou_room n (haisou_cache_set ttl now k v c)"
    using short by (simp add: set haisou_room_def)
qed

interpretation haisou_searches: expiring_cache haisou_lookup "set_cached_haisou_search" "\<lambda>_. SEARCH_CACHE_TTL_SECONDS" "\<lambda>v. v" haisou_room
  using haisou_contract [of SEARCH_CACHE_TTL_SECONDS] by (simp add: set_cached_haisou_search_def [abs_def])

interpretation haisou_validations: expiring_cache haisou_lookup "set_cached_haisou_validate" "\<lambda>_. VALIDATE_CACHE_TTL_SECONDS" "\<lambda>v. v" haisou_room
  using haisou_contract [of VALIDATE_CACHE_TTL_SECONDS] by (simp add: set_cached_haisou_validate_def [abs_def])

text \<open>The caches are bounded.\<close>

definition haisou_cache_ok :: "'v haisou_cache \<Rightarrow> bool" where
  "haisou_cache_ok saved \<longleftrightarrow> length saved \<le> CACHE_MAX \<and> distinct (map fst saved)"

lemma set_dict_pop: "set (dict_pop k d) \<subseteq> set d"
  by (auto simp: AList.delete_eq)

lemma pop_ok: "haisou_cache_ok d \<Longrightarrow> haisou_cache_ok (dict_pop k d)"
  using length_delete_le [of k d] by (simp add: haisou_cache_ok_def distinct_delete)

lemma stale_fold_ok:
  "haisou_cache_ok d \<Longrightarrow> haisou_cache_ok (fold (\<lambda>(k, (e, v)) d. if e \<le> now then dict_pop k d else d) xs d)"
  by (induction xs arbitrary: d) (simp_all add: pop_ok case_prod_beta)

lemma pop_fold_ok: "haisou_cache_ok d \<Longrightarrow> haisou_cache_ok (fold dict_pop ks d)"
  by (induction ks arbitrary: d) (simp_all add: pop_ok)

lemma pop_fold_shorter: "length (fold dict_pop ks d) \<le> length d"
proof (induction ks arbitrary: d)
  case (Cons k ks)
  show ?case using Cons [of "dict_pop k d"] length_delete_le [of k d] by simp
qed simp

lemma pop_first_shorter:
  assumes "d \<noteq> []" "0 < n"
  shows "length (fold dict_pop (take n (map fst d)) d) < length d"
proof -
  obtain x xs where d: "d = x # xs" using assms(1) by (cases d) auto
  obtain m where n: "n = Suc m" using assms(2) by (cases n) auto
  have "length (fold dict_pop (take m (map fst xs)) (dict_pop (fst x) xs)) \<le> length xs"
    using pop_fold_shorter [of "take m (map fst xs)" "dict_pop (fst x) xs"] length_delete_le [of "fst x" xs] by simp
  then show ?thesis by (simp add: d n)
qed

lemma drop_stale_room:
  assumes "haisou_cache_ok d"
  shows "haisou_cache_ok (drop_stale now d) \<and> length (drop_stale now d) < CACHE_MAX"
proof -
  let ?d = "fold (\<lambda>(k, (e, v)) d. if e \<le> now then dict_pop k d else d) (take (max 1 (CACHE_MAX div 8)) d) d"
  have ok: "haisou_cache_ok ?d" by (rule stale_fold_ok [OF assms])
  show ?thesis
  proof (cases "CACHE_MAX \<le> length ?d")
    case False
    then show ?thesis using ok by (simp add: drop_stale_def)
  next
    case True
    then have "?d \<noteq> []" by (auto simp: CACHE_MAX_def)
    from pop_first_shorter [OF this, of "max 1 (CACHE_MAX div 8)"]
    have "length (fold dict_pop (take (max 1 (CACHE_MAX div 8)) (map fst ?d)) ?d) < length ?d" by simp
    then show ?thesis using ok pop_fold_ok [OF ok] True by (simp add: drop_stale_def haisou_cache_ok_def Let_def)
  qed
qed

lemma haisou_cache_set_ok: "haisou_cache_ok d \<Longrightarrow> haisou_cache_ok (haisou_cache_set ttl now k v d)"
  using drop_stale_room [of d now] length_dict_set [of k "(now + ttl, v)" d] length_dict_set [of k "(now + ttl, v)" "drop_stale now d"]
  by (auto simp: haisou_cache_set_def haisou_cache_ok_def distinct_update)

lemma haisou_cache_get_ok: "haisou_cache_ok d \<Longrightarrow> haisou_cache_ok (snd (haisou_cache_get now k d))"
  by (auto simp: haisou_cache_get_def haisou_cache_ok_def distinct_delete split: option.splits
      intro: order_trans [OF length_delete_le])

end
