(* ===== verification/Haisou_Search.thy ===== *)
theory Haisou_Search
  imports Haisou_Items Haisou_Budget Share_Status
begin

text \<open>
  \<open>app/services/sources/haisou/config.py\<close>, \<open>client.py\<close>, \<open>search.py\<close> and the check of shares in
  \<open>app/services/adapters/pan115_share_haisou.py\<close>: the settings, the reading of an answer, a search of up to three
  pages with one repetition, and the second opinion on a share.  The HTTP client is a parameter: it
  gives the reply to each request.  Shown: whatever the service replies the allowance and
  the caches stay within their bounds and only results with a valid link are returned and kept; a
  search that was answered is answered from the cache afterwards; a search whose repetition finds no
  allowance left keeps the empty answer in the cache as if it were one of the service.
\<close>

section \<open>Settings\<close>

record haisou_config =
  hc_api_key :: pystr
  hc_enabled :: bool
  hc_platforms :: "pystr list"
  hc_page_size :: int
  hc_search_in :: pystr
  hc_use_proxy :: bool
  hc_priority :: int
  hc_refresh_interval :: int

definition SUPPORTED_PLATFORMS :: "pystr list" where
  "SUPPORTED_PLATFORMS = map u [''115'', ''ali'', ''baidu'', ''quark'', ''xunlei'', ''tianyi'', ''yidong'', ''123'', ''uc'']"

definition DEFAULT_PLATFORMS :: "pystr list" where
  "DEFAULT_PLATFORMS = [u ''115'']"

definition normalize_platforms :: "pyval \<Rightarrow> pystr list" where
  "normalize_platforms value =
     (if value = PNone \<or> value = PStr [] then DEFAULT_PLATFORMS
      else let names = (case value of
                 PStr s \<Rightarrow> map (lower \<circ> strip) (filter (\<lambda>p. strip p \<noteq> [])
                             (split_char 44 (map (\<lambda>c. if c = 0xFF0C then 44 else c) s)))
               | PList vs \<Rightarrow> map (lower \<circ> strip) (filter (\<lambda>p. strip p \<noteq> []) (map str_of_val vs))
               | _ \<Rightarrow> DEFAULT_PLATFORMS);
               allowed = filter (\<lambda>p. p \<in> set SUPPORTED_PLATFORMS) names;
               deliverable = filter (\<lambda>p. p = u ''115'') allowed
           in if deliverable \<noteq> [] then deliverable else DEFAULT_PLATFORMS)"

definition int_or :: "int \<Rightarrow> pyval \<Rightarrow> int" where
  "int_or dflt v = (case int_of_val v of None \<Rightarrow> dflt | Some n \<Rightarrow> n)"

definition haisou_settings :: "pyval \<Rightarrow> haisou_config" where
  "haisou_settings raw =
     (let api_key = strip (or_val (por (pget raw (u ''api_key'')) (pget raw (u ''apikey''))));
          search_in = lower (strip (str_of_val (por (pget raw (u ''search_in'')) (PStr (u ''title'')))))
      in \<lparr>hc_api_key = api_key, hc_enabled = truthy_setting (api_key \<noteq> []) (pget raw (u ''enabled'')),
          hc_platforms = normalize_platforms (pget raw (u ''platforms'')),
          hc_page_size = max 1 (min (int_or 20 (por (pget raw (u ''page_size'')) (PInt 20))) 100),
          hc_search_in = (if search_in \<in> {u ''title'', u ''files''} then search_in else u ''title''),
          hc_use_proxy = truthy_setting False (pget raw (u ''use_proxy'')),
          hc_priority = (if pget raw (u ''priority'') = PNone then 10 else int_or 10 (pget raw (u ''priority''))),
          hc_refresh_interval = max 5 (int_or 30 (por (pget raw (u ''refresh_interval'')) (PInt 30)))\<rparr>)"

definition haisou_enabled :: "haisou_config \<Rightarrow> bool" where
  "haisou_enabled config \<longleftrightarrow> hc_enabled config \<and> hc_api_key config \<noteq> []"

section \<open>The client\<close>

text \<open>
  What comes of one request: the errors of the HTTP library with their texts, a reply that is not JSON with its
  status, a decoded reply, another exception, or the end of the 60 seconds a search may take.
  \<open>credits\<close> is a number in every reply.
\<close>

datatype post_reply = Post_Timeout pystr | Http_Error pystr | Not_Json int | Payload pyval | Post_Raised pystr | Deadline

definition positive :: "pyval \<Rightarrow> bool" where
  "positive v = (case v of PInt i \<Rightarrow> 0 < i | PBool b \<Rightarrow> b | PFloat m e \<Rightarrow> 0 < m | _ \<Rightarrow> False)"

text \<open>The text of the error and whether a repetition may help\<close>

type_synonym haisou_error = "pystr \<times> bool"

definition REQUEST_FAILED :: pystr where
  "REQUEST_FAILED = [0x6D77, 0x641C, 0x8BF7, 0x6C42, 0x5931, 0x8D25, 32] @ u ''code=''"

definition read_payload :: "pyval \<Rightarrow> haisou_error + pyval" where
  "read_payload payload =
     (let code = (if pget payload (u ''code'') = PNone then None else int_of_val (pget payload (u ''code''))) in
      if code = Some 0 then Inr (if is_pdict (pget payload (u ''result'')) then pget payload (u ''result'') else PDict [])
      else Inl (str_of_val (por (pget payload (u ''msg'')) (por (pget payload (u ''tip''))
                  (PStr (REQUEST_FAILED @ (case code of None \<Rightarrow> u ''None'' | Some n \<Rightarrow> int_str n))))),
                (code = Some 1000 \<or> code = Some 1003) \<and> \<not> positive (pget payload (u ''credits''))))"

definition client_post :: "haisou_config \<Rightarrow> bool \<Rightarrow> post_reply \<Rightarrow> haisou_error + pyval" where
  "client_post config has_body r =
     (if hc_api_key config = [] then Inl ([0x6D77, 0x641C, 32] @ u ''API Key'' @ [32, 0x672A, 0x914D, 0x7F6E], False)
      else if \<not> has_body then Inl ([0x641C, 0x7D22, 0x5173, 0x952E, 0x8BCD, 0x4E0D, 0x80FD, 0x4E3A, 0x7A7A], False)
      else case r of
        Post_Timeout e \<Rightarrow> Inl ([0x6D77, 0x641C, 0x8BF7, 0x6C42, 0x8D85, 0x65F6] @ u '': '' @ e, True)
      | Http_Error e \<Rightarrow> Inl ([0x6D77, 0x641C, 0x7F51, 0x7EDC, 0x9519, 0x8BEF] @ u '': '' @ e, True)
      | Not_Json st \<Rightarrow> Inl ([0x6D77, 0x641C, 0x8FD4, 0x56DE, 0x975E, 32] @ u ''JSON: HTTP '' @ int_str st, True)
      | Payload p \<Rightarrow> (if is_pdict p then read_payload p
                      else Inl ([0x6D77, 0x641C, 0x8FD4, 0x56DE, 0x683C, 0x5F0F, 0x9519, 0x8BEF], True))
      | Post_Raised e \<Rightarrow> Inl (e, True)
      | Deadline \<Rightarrow> Inl ([0x6D77, 0x641C, 0x641C, 0x7D22, 0x8D85, 0x65F6], True))"

section \<open>A search\<close>

text \<open>
  \<open>clock\<close> and \<open>post\<close> give the time and the reply of each page.  An exception ends the attempt: the
  pages read so far are lost.
\<close>

fun search_pages ::
    "haisou_config \<Rightarrow> pystr \<Rightarrow> int \<Rightarrow> (nat \<Rightarrow> time) \<Rightarrow> (nat \<Rightarrow> post_reply) \<Rightarrow> nat list \<Rightarrow> pyval list \<Rightarrow> budget
     \<Rightarrow> (haisou_error + pyval list) \<times> budget" where
  "search_pages config query page_size clock post [] found b = (Inr found, b)"
| "search_pages config query page_size clock post (page # pages) found b =
     (case acquire_haisou_search_slot (clock page) b of
        (False, b') \<Rightarrow> (Inr found, b')
      | (True, b') \<Rightarrow>
          (case client_post config (strip query \<noteq> []) (post page) of
             Inl e \<Rightarrow> (Inl e, b')
           | Inr result \<Rightarrow>
               (let page_items = (case pget result (u ''items'') of PList xs \<Rightarrow> xs | _ \<Rightarrow> []) in
                if int (length page_items) < page_size then (Inr (found @ page_items), b')
                else search_pages config query page_size clock post pages (found @ page_items) b')))"

text \<open>The attempts: what was found, the last error, if any, and the allowance left\<close>

fun try_search ::
    "haisou_config \<Rightarrow> pystr \<Rightarrow> int \<Rightarrow> (nat \<Rightarrow> nat \<Rightarrow> time) \<Rightarrow> (nat \<Rightarrow> nat \<Rightarrow> post_reply) \<Rightarrow> nat list \<Rightarrow> pystr option \<Rightarrow> budget
     \<Rightarrow> (pyval list \<times> pystr option) \<times> budget" where
  "try_search config query page_size clock post [] err b = (([], err), b)"
| "try_search config query page_size clock post (attempt # attempts) err b =
     (case search_pages config query page_size (clock attempt) (post attempt) [1, 2, 3] [] b of
        (Inr found, b') \<Rightarrow> ((found, None), b')
      | (Inl (e, retryable), b') \<Rightarrow>
          if retryable then try_search config query page_size clock post attempts (Some e) b' else (([], Some e), b'))"

record haisou_state =
  hs_budget :: budget
  hs_searches :: "search_result list haisou_cache"
  hs_validations :: "share haisou_cache"

definition or_list :: "pystr list \<Rightarrow> pystr list \<Rightarrow> pystr list" where
  "or_list xs ys = (if xs \<noteq> [] then xs else ys)"

text \<open>
  \<open>source\<close> is the entry of the list of sources, whose values come before those of the settings;
  \<open>now\<close> is the time of the call and \<open>later\<close> that of the answer.
\<close>

record request =
  rq_key :: pystr
  rq_platforms :: "pystr list"
  rq_size :: int
  rq_scope :: pystr
  rq_name :: pystr

definition haisou_request :: "haisou_config \<Rightarrow> pyval \<Rightarrow> request" where
  "haisou_request config source =
     \<lparr>rq_key = strip (or_str (or_val (pget source (u ''api_key''))) (hc_api_key config)),
      rq_platforms = or_list (case pget source (u ''platforms'') of PList vs \<Rightarrow> map str_of_val vs | _ \<Rightarrow> [])
                       (or_list (hc_platforms config) DEFAULT_PLATFORMS),
      rq_size = int_or 20 (por (pget source (u ''page_size'')) (PInt (hc_page_size config))),
      rq_scope = or_str (or_val (pget source (u ''search_in''))) (hc_search_in config),
      rq_name = strip (or_str (or_val (pget source (u ''name''))) HAISOU_NAME)\<rparr>"

definition request_key :: "request \<Rightarrow> pystr \<Rightarrow> pystr" where
  "request_key rq query = search_cache_key query (rq_platforms rq) (rq_size rq) (rq_scope rq)"

definition search_haisou ::
    "haisou_config \<Rightarrow> pyval \<Rightarrow> pystr \<Rightarrow> time \<Rightarrow> time \<Rightarrow> (nat \<Rightarrow> nat \<Rightarrow> time) \<Rightarrow> (nat \<Rightarrow> nat \<Rightarrow> post_reply) \<Rightarrow> haisou_state
     \<Rightarrow> search_result list \<times> haisou_state" where
  "search_haisou config source query now later clock post s =
     (let rq = haisou_request config source in
      if rq_key rq = [] then ([], s)
      else case get_cached_haisou_search now (request_key rq query) (hs_searches s) of
        (Some found, saved) \<Rightarrow> (found, s\<lparr>hs_searches := saved\<rparr>)
      | (None, saved) \<Rightarrow>
          (case allow_haisou_search now (hs_budget s) of
             (False, b) \<Rightarrow> ([], s\<lparr>hs_searches := saved, hs_budget := b\<rparr>)
           | (True, b) \<Rightarrow>
               (case try_search (config\<lparr>hc_api_key := rq_key rq\<rparr>) query (rq_size rq) clock post [0, 1] None b of
                  ((found, err), b') \<Rightarrow>
                    if (case err of None \<Rightarrow> False | Some e \<Rightarrow> e \<noteq> []) \<and> found = []
                    then ([], s\<lparr>hs_searches := saved, hs_budget := b'\<rparr>)
                    else let mapped = map_haisou_items (rq_name rq) (rq_platforms rq) found in
                      (mapped, s\<lparr>hs_searches := set_cached_haisou_search later (request_key rq query) mapped saved,
                                 hs_budget := b'\<rparr>))))"

section \<open>The check of a share\<close>

definition ALIVE_WORDS :: "pystr list" where
  "ALIVE_WORDS = map u [''valid'', ''ok'', ''available'', ''alive'', ''active'']"

definition DEAD_WORDS :: "pystr list" where
  "DEAD_WORDS = map u [''invalid'', ''expired'', ''not_found'', ''unavailable'', ''dead'', ''cancelled'', ''canceled'']"

definition classify_haisou_validate_result :: "pyval \<Rightarrow> share" where
  "classify_haisou_validate_result result =
     (let payload = (if is_pdict result then result else PDict []);
          valid = pget payload (u ''valid'');
          status = lower (strip (or_val (pget payload (u ''status''))));
          reason_text = strip (or_val (por (pget payload (u ''reason'')) (por (pget payload (u ''msg'')) (pget payload (u ''message'')))));
          haystack = casefold (status @ [32] @ reason_text)
      in if valid = PBool True \<or> status \<in> set ALIVE_WORDS
         then verdict Available (u ''haisou_valid'') (or_str reason_text (u ''haisou valid''))
         else if valid = PBool False \<or> status \<in> set DEAD_WORDS
         then verdict Unavailable
                (if any_word [[0x8FC7, 0x671F], [0x5931, 0x6548], u ''expir''] haystack then u ''expired''
                 else if any_word [[0x53D6, 0x6D88], u ''cancel''] haystack then u ''cancelled''
                 else if any_word [[0x63D0, 0x53D6, 0x7801], [0x8BBF, 0x95EE, 0x7801], u ''password'', u ''pwd'', u ''receive_code''] haystack
                 then u ''password_error''
                 else u ''not_found'')
                (or_str reason_text (or_str status (u ''haisou invalid'')))
         else verdict Unknown (u ''haisou_unknown'') (or_str reason_text (or_str status (u ''haisou unknown''))))"

definition try_haisou_share_fallback ::
    "haisou_config \<Rightarrow> pystr \<Rightarrow> pystr option \<Rightarrow> time \<Rightarrow> time \<Rightarrow> post_reply \<Rightarrow> haisou_state \<Rightarrow> share option \<times> haisou_state" where
  "try_haisou_share_fallback config link receive_code now later reply s =
     (if \<not> haisou_enabled config then (None, s)
      else let key = validate_cache_key (strip link) receive_code in
        case get_cached_haisou_validate now key (hs_validations s) of
          (Some known, saved) \<Rightarrow> (Some known, s\<lparr>hs_validations := saved\<rparr>)
        | (None, saved) \<Rightarrow>
            (case acquire_haisou_validate_slot now (hs_budget s) of
               (False, b) \<Rightarrow> (None, s\<lparr>hs_validations := saved, hs_budget := b\<rparr>)
             | (True, b) \<Rightarrow>
                 (case client_post config True reply of
                    Inl e \<Rightarrow> (None, s\<lparr>hs_validations := saved, hs_budget := b\<rparr>)
                  | Inr result \<Rightarrow>
                      let info = classify_haisou_validate_result result in
                      (Some info, s\<lparr>hs_validations := set_cached_haisou_validate later key info saved, hs_budget := b\<rparr>))))"

section \<open>The state stays within its bounds\<close>

definition usable_results :: "search_result list \<Rightarrow> bool" where
  "usable_results found \<longleftrightarrow> distinct (map r_url found) \<and> list_all (\<lambda>r. is_valid_download_link (r_url r)) found"

definition haisou_ok :: "haisou_state \<Rightarrow> bool" where
  "haisou_ok s \<longleftrightarrow> budget_ok (hs_budget s) \<and> haisou_cache_ok (hs_searches s) \<and> haisou_cache_ok (hs_validations s)
     \<and> (\<forall>(k, (e, found)) \<in> set (hs_searches s). usable_results found)"

lemma mapped_usable: "usable_results (map_haisou_items name platforms found)"
  using map_items_urls [of name platforms found "{}"] by (simp add: map_haisou_items_def usable_results_def list_all_iff)

lemma search_pages_ok: "search_pages config query page_size clock post pages found b = (out, b') \<Longrightarrow> budget_ok b \<Longrightarrow> budget_ok b'"
proof (induction pages arbitrary: found b)
  case (Cons page pages)
  have "budget_ok (snd (acquire_haisou_search_slot (clock page) b))" using Cons.prems(2) by (rule acquire_search_ok)
  then show ?case using Cons.prems(1) Cons.IH
    by (auto simp: Let_def split: prod.splits bool.splits sum.splits if_splits)
qed simp

lemma try_search_ok: "try_search config query page_size clock post attempts err b = (out, b') \<Longrightarrow> budget_ok b \<Longrightarrow> budget_ok b'"
proof (induction attempts arbitrary: err b)
  case (Cons attempt attempts)
  obtain res b2 where pages: "search_pages config query page_size (clock attempt) (post attempt) [1, 2, 3] [] b = (res, b2)"
    by (cases "search_pages config query page_size (clock attempt) (post attempt) [1, 2, 3] [] b")
  have "budget_ok b2" using search_pages_ok [OF pages Cons.prems(2)] .
  then show ?case using Cons.prems(1) Cons.IH pages
    by (auto simp del: search_pages.simps split: sum.splits if_splits)
qed simp

lemma cache_get_sub: "set (snd (haisou_cache_get now key saved)) \<subseteq> set saved"
  using set_dict_pop [of key saved] by (simp add: haisou_cache_get_def split: option.splits prod.splits)

lemma cache_get_Some: "fst (haisou_cache_get now key saved) = Some v \<Longrightarrow> \<exists>e. (key, (e, v)) \<in> set saved"
  by (force simp: haisou_cache_get_def dest: map_of_SomeD split: option.splits if_splits)

lemma cache_set_sub: "set (haisou_cache_set ttl now k v saved) \<subseteq> insert (k, (now + ttl, v)) (set saved)"
proof -
  have pops: "set (fold dict_pop ks d) \<subseteq> set d" for ks and d :: "'a haisou_cache"
  proof (induction ks arbitrary: d)
    case (Cons k ks)
    show ?case using Cons [of "dict_pop k d"] set_dict_pop [of k d] by simp
  qed simp
  have stale: "set (fold (\<lambda>(k, (e, v)) d. if e \<le> now then dict_pop k d else d) xs d) \<subseteq> set d" for xs and d :: "'a haisou_cache"
  proof (induction xs arbitrary: d)
    case (Cons x xs)
    show ?case using Cons [of "dict_pop (fst x) d"] Cons [of d] set_dict_pop [of "fst x" d] by (auto simp: case_prod_beta)
  qed simp
  have "set (drop_stale now saved) \<subseteq> set saved"
    unfolding drop_stale_def Let_def
    by (auto dest!: subsetD [OF pops] subsetD [OF stale])
  then have d: "set (if CACHE_MAX \<le> length saved then drop_stale now saved else saved) \<subseteq> set saved" by simp
  have "set (dict_set k x d) \<subseteq> insert (k, x) (set d)" for x and d :: "'a haisou_cache"
    by (induction d) auto
  then show ?thesis
    unfolding haisou_cache_set_def using d by blast
qed

text \<open>Whatever the service replies\<close>

lemma search_haisou_ok:
  assumes "search_haisou config source query now later clock post s = (found, s')" "haisou_ok s"
  shows "usable_results found \<and> haisou_ok s'"
proof (cases "rq_key (haisou_request config source) = []")
  case True
  then show ?thesis using assms by (auto simp: search_haisou_def usable_results_def)
next
  case key: False
  let ?rq = "haisou_request config source"
  let ?k = "request_key ?rq query"
  obtain hit saved where get: "haisou_cache_get now ?k (hs_searches s) = (hit, saved)"
    by (cases "haisou_cache_get now ?k (hs_searches s)")
  have saved: "haisou_cache_ok saved" "\<forall>(k, (e, found)) \<in> set saved. usable_results found"
    using assms(2) get haisou_cache_get_ok [of "hs_searches s" now ?k] cache_get_sub [of now ?k "hs_searches s"]
    by (auto simp: haisou_ok_def)
  show ?thesis
  proof (cases hit)
    case (Some known)
    then have "usable_results known" using cache_get_Some [of now ?k "hs_searches s" known] get assms(2) by (auto simp: haisou_ok_def)
    then show ?thesis using assms key get Some saved by (auto simp: search_haisou_def get_cached_haisou_search_def haisou_ok_def)
  next
    case None
    obtain ok b where allow: "allow_haisou_search now (hs_budget s) = (ok, b)" by (cases "allow_haisou_search now (hs_budget s)")
    have b: "budget_ok b" using allow_search_ok [of "hs_budget s" now] allow assms(2) by (simp add: haisou_ok_def)
    show ?thesis
    proof (cases ok)
      case False
      then show ?thesis using assms key get None allow saved b
        by (auto simp: search_haisou_def get_cached_haisou_search_def haisou_ok_def usable_results_def)
    next
      case True
      obtain items err b' where run: "try_search (config\<lparr>hc_api_key := rq_key ?rq\<rparr>) query (rq_size ?rq) clock post [0, 1] None b = ((items, err), b')"
        by (metis surj_pair)
      have b': "budget_ok b'" by (rule try_search_ok [OF run b])
      have set: "haisou_cache_ok (set_cached_haisou_search later ?k (map_haisou_items (rq_name ?rq) (rq_platforms ?rq) items) saved)"
        "\<forall>(k, (e, found)) \<in> set (set_cached_haisou_search later ?k (map_haisou_items (rq_name ?rq) (rq_platforms ?rq) items) saved). usable_results found"
        using haisou_cache_set_ok [OF saved(1)] cache_set_sub saved(2) mapped_usable
        unfolding set_cached_haisou_search_def by fastforce+
      show ?thesis
        using assms key get None allow True run b' set saved mapped_usable
        by (auto simp: search_haisou_def get_cached_haisou_search_def haisou_ok_def usable_results_def Let_def
            simp del: try_search.simps split: if_splits)
    qed
  qed
qed

lemma fallback_ok:
  assumes "try_haisou_share_fallback config link rc now later reply s = (out, s')" "haisou_ok s"
  shows "haisou_ok s'"
proof -
  let ?k = "validate_cache_key (strip link) rc"
  have "haisou_cache_ok (snd (haisou_cache_get now ?k (hs_validations s)))" "budget_ok (snd (acquire_haisou_validate_slot now (hs_budget s)))"
    using assms(2) haisou_cache_get_ok acquire_validate_ok by (auto simp: haisou_ok_def)
  then show ?thesis
    using assms haisou_cache_set_ok
    by (auto simp: try_haisou_share_fallback_def get_cached_haisou_validate_def set_cached_haisou_validate_def haisou_ok_def Let_def
        split: if_splits prod.splits option.splits bool.splits sum.splits)
qed

section \<open>Answers from the cache\<close>

lemma lookup_set: "t < now + ttl \<Longrightarrow> haisou_lookup t k (haisou_cache_set ttl now k v saved) = Some v"
  by (simp add: haisou_lookup_eq haisou_cache_set_def update_conv')

lemma get_of_lookup: "haisou_lookup t k saved = Some v \<Longrightarrow> haisou_cache_get t k saved = (Some v, saved)"
  by (auto simp: haisou_lookup_def haisou_cache_get_def split: option.splits if_splits prod.splits)

text \<open>A search that found something is answered from the cache for a quarter of an hour, and pays nothing.\<close>

lemma served_again:
  assumes "search_haisou config source query now later clock post s = (found, s')" "found \<noteq> []"
    "haisou_lookup now (request_key (haisou_request config source) query) (hs_searches s) = None"
    "t < later + SEARCH_CACHE_TTL_SECONDS"
  shows "search_haisou config source query t later' clock' post' s' = (found, s')"
proof -
  let ?k = "request_key (haisou_request config source) query"
  have key: "rq_key (haisou_request config source) \<noteq> []"
    using assms(1,2) by (auto simp: search_haisou_def)
  obtain saved b where s': "hs_searches s' = set_cached_haisou_search later ?k found saved"
    using assms(1-3) key
    by (auto simp: search_haisou_def get_cached_haisou_search_def haisou_lookup_def Let_def
        simp del: try_search.simps split: prod.splits option.splits bool.splits if_splits)
  then have "haisou_cache_get t ?k (hs_searches s') = (Some found, hs_searches s')"
    unfolding set_cached_haisou_search_def by (simp add: get_of_lookup lookup_set assms(4))
  then show ?thesis using key by (simp add: search_haisou_def get_cached_haisou_search_def)
qed

text \<open>
  With one call left a request fails on the way; the repetition gets no slot, the loop over the pages
  ends without an error, and the empty list is kept as the answer of the service.
\<close>

definition last_call :: haisou_state where
  "last_call = \<lparr>hs_budget = \<lparr>search_calls = 39, validate_calls = 0, window_started = 1\<rparr>, hs_searches = [], hs_validations = []\<rparr>"

definition one_key :: haisou_config where
  "one_key = haisou_settings (PDict [(u ''api_key'', PStr (u ''k''))])"

lemma one_key_key: "hc_api_key one_key = u ''k''"
  by (simp add: one_key_def haisou_settings_def or_val_def por_def py_defs re_eval chr_eval)

lemma one_key_request: "rq_key (haisou_request one_key (PDict [])) = u ''k''" "rq_size (haisou_request one_key (PDict [])) = 20"
  by (simp_all add: haisou_request_def one_key_key or_val_def or_str_def por_def one_key_def haisou_settings_def int_or_def py_defs re_eval chr_eval)

lemma starved_search_kept:
  "case search_haisou one_key (PDict []) (u ''x'') 10 10 (\<lambda>_ _. 10) (\<lambda>_ _. Http_Error []) last_call of
     (found, s') \<Rightarrow> found = [] \<and> haisou_lookup 909 (request_key (haisou_request one_key (PDict [])) (u ''x'')) (hs_searches s') = Some []"
proof -
  let ?rq = "haisou_request one_key (PDict [])"
  let ?b = "\<lparr>search_calls = 40, validate_calls = 0, window_started = 1\<rparr> :: budget"
  have slots: "acquire_haisou_search_slot 10 (hs_budget last_call) = (True, ?b)" "acquire_haisou_search_slot 10 ?b = (False, ?b)"
    by (simp_all add: acquire_haisou_search_slot_def roll_window_def last_call_def WINDOW_SECONDS_def MAX_SEARCH_PER_WINDOW_def)
  have query: "strip (u ''x'') \<noteq> []" by (simp add: py_defs re_eval chr_eval)
  have allow: "allow_haisou_search 10 (hs_budget last_call) = (True, hs_budget last_call)"
    by (simp add: allow_haisou_search_def roll_window_def last_call_def WINDOW_SECONDS_def MAX_SEARCH_PER_WINDOW_def)
  have k: "u ''k'' \<noteq> []" by (simp add: u_def)
  have "try_search (one_key\<lparr>hc_api_key := u ''k''\<rparr>) (u ''x'') 20 (\<lambda>_ _. 10) (\<lambda>_ _. Http_Error []) [0, 1] None (hs_budget last_call)
      = (([], None), ?b)"
    using slots query by (simp add: client_post_def u_def)
  then show ?thesis
    using allow one_key_request k
    by (simp add: search_haisou_def get_cached_haisou_search_def haisou_cache_get_def last_call_def map_haisou_items_def
        set_cached_haisou_search_def lookup_set SEARCH_CACHE_TTL_SECONDS_def Let_def del: try_search.simps)
qed

end
