(* ===== verification/Example_Runs.thy ===== *)
theory Example_Runs
  imports Example_Data Job_Worker Concurrency Ed2k_Search Haisou_Search
begin

text \<open>
  Concrete runs of the components that keep state over time: a table with one scheduled search, a
  lock that is held, and a gate after a flood.  The properties with hypotheses are applied here.
\<close>

definition one_search :: job_table where
  "one_search = snd (schedule_subscription_search (\<lambda>_. None) (u ''t0'') 0 7 empty_jobs)"

lemma one_search_reachable: "jobs_reachable (\<lambda>_. None) one_search"
  unfolding one_search_def by (rule r_into_rtranclp) (rule job_step.statement, rule table_step.search)

lemma one_search_queue:
  "map j_id (queued_jobs SUPPORTED_KINDS one_search) = [1]" "map j_status (jt_jobs one_search) = [Queued]" "jt_next one_search = 2"
  by (simp_all add: one_search_def schedule_subscription_search_def reuse_or_create_job_def latest_job_def last_by_def
      create_reply_def create_job_def empty_jobs_def queued_jobs_def wanted_kind_def SUPPORTED_KINDS_def)

lemma one_search_ids: "queued_ids SUPPORTED_KINDS one_search = {1}"
proof -
  have "set (map j_id (queued_jobs SUPPORTED_KINDS one_search)) = {1}" by (simp add: one_search_queue)
  then show ?thesis by (simp add: queued_ids_def)
qed

definition quiet_bodies :: job_bodies where
  "quiet_bodies = \<lparr>jb_search = (\<lambda>_. Created 0), jb_timeout_text = (u ''180''), jb_search_all = (\<lambda>_. Inr (PDict [])),
     jb_emby_sync = Inr (PDict []), jb_retry = (\<lambda>_. Inr (PDict [])), jb_int_error = (\<lambda>_. (u ''invalid literal''))\<rparr>"

definition failed_search :: job_table where
  "failed_search = mark_job_failed (u ''t1'') 1 (u ''e'') one_search"

lemma failed_search_step: "job_step (\<lambda>_. None) one_search failed_search"
  unfolding failed_search_def by (rule job_step.statement) (rule table_step.fail)

lemma failed_search_finished: "finished_in 1 failed_search"
proof -
  have "\<forall>j \<in> set (jt_jobs failed_search). j_id j = 1 \<longrightarrow> j_status j = Failed"
    by (auto simp: failed_search_def mark_job_failed_def jt_jobs_update set_update_rows)
  then show ?thesis
    by (simp add: finished_in_def is_active_def failed_search_def mark_job_failed_def one_search_queue)
qed

lemma one_search_jobs: "map j_id (jt_jobs one_search) = [1]"
  by (simp add: one_search_def schedule_subscription_search_def reuse_or_create_job_def latest_job_def last_by_def
      create_reply_def create_job_def empty_jobs_def)

lemma failed_search_jobs: "length (jt_jobs failed_search) = 1" "\<forall>j \<in> set (jt_jobs failed_search). j_id j = 1 \<and> j_status j \<noteq> Done"
  using one_search_jobs by (auto simp: failed_search_def mark_job_failed_def jt_jobs_update update_rows_def)

definition held_lock :: "pystr locks" where
  "held_lock = \<lparr>lk_loop = Some 0, lk_dict = [(u ''a'', 0)], lk_held = [0], lk_next = 1\<rparr>"

end
