(* ===== verification/Telegram_State.thy ===== *)
theory Telegram_State
  imports Rows Expiring_Cache
begin

text \<open>
  \<open>app/services/adapters/telegram/models.py\<close>: the time budget of a search of Telegram and the state its
  stages share: what was seen, which dialogs to search again, and the results of each query.  Shown:
  every collection stays within its limit; results with an url are kept once; what was
  remembered is filtered out when it is found again; narrowing the dialogs never leaves none.
\<close>

section \<open>The time budget\<close>

record search_budget =
  sb_total :: time
  sb_deadline :: time

definition start_budget :: "time \<Rightarrow> time \<Rightarrow> search_budget" where
  "start_budget now seconds = \<lparr>sb_total = seconds, sb_deadline = now + seconds\<rparr>"

definition remaining :: "time \<Rightarrow> search_budget \<Rightarrow> time" where
  "remaining now b = max 0 (sb_deadline b - now)"

definition exhausted :: "time \<Rightarrow> time \<Rightarrow> search_budget \<Rightarrow> bool" where
  "exhausted reserve now b \<longleftrightarrow> remaining now b \<le> reserve"

definition budget_timeout :: "time \<Rightarrow> time \<Rightarrow> search_budget \<Rightarrow> time" where
  "budget_timeout cap now b = max (1 / 20) (min cap (remaining now b))"

section \<open>Labels of the index\<close>

definition index_origin_source :: "pystr \<Rightarrow> pystr" where
  "index_origin_source value =
     (let text = strip value in
      if starts_with (u ''TelegramIndex:'') text then strip (drop 14 text) else [])"

definition is_telegram_index_source :: "pystr \<Rightarrow> bool" where
  "is_telegram_index_source value =
     (let text = strip value in text = u ''TelegramIndex'' \<or> starts_with (u ''TelegramIndex:'') text)"

section \<open>The shared state\<close>

definition MAX_SEEN_URLS :: nat where "MAX_SEEN_URLS = 5000"
definition MAX_SEEN_MESSAGE_IDS :: nat where "MAX_SEEN_MESSAGE_IDS = 200"
definition MAX_SEEN_MESSAGE_ID_BUCKET :: nat where "MAX_SEEN_MESSAGE_ID_BUCKET = 2000"
definition MAX_QUERY_DIALOG_CACHE :: nat where "MAX_QUERY_DIALOG_CACHE = 500"
definition MAX_DIALOG_HIT_SCORES :: nat where "MAX_DIALOG_HIT_SCORES = 200"

text \<open>A fifth, rounded down, and at least one entry, from the front of the dictionary\<close>

definition evict_oldest_entries :: "nat \<Rightarrow> ('k \<times> 'v) list \<Rightarrow> ('k \<times> 'v) list" where
  "evict_oldest_entries max_size d =
     (if length d \<le> max_size then d else drop (max 1 (length d div 5)) d)"

text \<open>\<open>dialogs\<close>, the list of dialogs kept for the next stage, is only passed through.\<close>

record shared_state =
  sh_seen_ids :: "(pystr \<times> int set) list"
  sh_seen_urls :: "pystr set"
  sh_force_remote :: bool
  sh_preferred :: "pystr list"
  sh_hits :: "(pystr \<times> int) list"
  sh_queries :: "(pystr \<times> search_result list) list"

definition fresh_state :: shared_state where
  "fresh_state = \<lparr>sh_seen_ids = [], sh_seen_urls = {}, sh_force_remote = False, sh_preferred = [], sh_hits = [], sh_queries = []\<rparr>"

definition seen_messages_for :: "pystr \<Rightarrow> shared_state \<Rightarrow> int set \<times> shared_state" where
  "seen_messages_for source sh =
     (case map_of (sh_seen_ids sh) source of
        Some bucket \<Rightarrow> (bucket, sh)
      | None \<Rightarrow> ({}, sh\<lparr>sh_seen_ids := evict_oldest_entries MAX_SEEN_MESSAGE_IDS (dict_set source {} (sh_seen_ids sh))\<rparr>))"

text \<open>
  The bucket is the object in the dictionary, so adding to it changes the entry; a bucket that was
  evicted at once is not changed any more.
\<close>

definition put_bucket :: "pystr \<Rightarrow> int set \<Rightarrow> (pystr \<times> int set) list \<Rightarrow> (pystr \<times> int set) list" where
  "put_bucket source bucket d = (if source \<in> fst ` set d then dict_set source bucket d else d)"

definition add_seen_message :: "pystr \<Rightarrow> int option \<Rightarrow> shared_state \<Rightarrow> shared_state" where
  "add_seen_message source mid_opt sh =
     (case seen_messages_for source sh of
        (bucket, sh') \<Rightarrow>
          (let kept = (if MAX_SEEN_MESSAGE_ID_BUCKET \<le> card bucket then {} else bucket) in
           sh'\<lparr>sh_seen_ids := put_bucket source (case mid_opt of None \<Rightarrow> kept | Some mid \<Rightarrow> insert mid kept) (sh_seen_ids sh')\<rparr>))"

definition result_origin :: "search_result \<Rightarrow> pystr" where
  "result_origin r =
     (let origin = index_origin_source (r_source r) in
      if origin \<noteq> [] then origin
      else if r_source r \<noteq> [] \<and> \<not> is_telegram_index_source (r_source r) then r_source r else [])"

definition remember_message :: "search_result \<Rightarrow> shared_state \<Rightarrow> shared_state" where
  "remember_message r sh =
     (case r_message_id r of
        None \<Rightarrow> sh
      | Some m \<Rightarrow>
          if m = [] \<or> result_origin r = [] then sh
          else add_seen_message (result_origin r) (int_of_str m) sh)"

fun remember_results :: "search_result list \<Rightarrow> shared_state \<Rightarrow> search_result list \<times> shared_state" where
  "remember_results [] sh = ([], sh)"
| "remember_results (r # rs) sh =
     (if r_url r = [] then (case remember_results rs sh of (kept, sh') \<Rightarrow> (r # kept, sh'))
      else if r_url r \<in> sh_seen_urls sh then remember_results rs sh
      else let urls = (if MAX_SEEN_URLS \<le> card (sh_seen_urls sh) then {} else sh_seen_urls sh);
               sh' = remember_message r (sh\<lparr>sh_seen_urls := insert (r_url r) urls\<rparr>)
           in case remember_results rs sh' of (kept, sh'') \<Rightarrow> (r # kept, sh''))"

definition origins :: "search_result list \<Rightarrow> pystr list" where
  "origins rs = filter (\<lambda>s. s \<noteq> []) (map (index_origin_source \<circ> r_source) rs)"

definition set_preferred_sources_from_results :: "search_result list \<Rightarrow> shared_state \<Rightarrow> shared_state" where
  "set_preferred_sources_from_results rs sh =
     (let preferred = rev (remdups (rev (origins rs))) in
      if preferred \<noteq> [] then sh\<lparr>sh_preferred := preferred\<rparr> else sh)"

definition note_dialog_hits :: "pystr \<Rightarrow> int \<Rightarrow> shared_state \<Rightarrow> shared_state" where
  "note_dialog_hits source count sh =
     (let key = strip source in
      if key = [] \<or> count \<le> 0 then sh
      else sh\<lparr>sh_hits := evict_oldest_entries MAX_DIALOG_HIT_SCORES
              (dict_set key ((case map_of (sh_hits sh) key of None \<Rightarrow> 0 | Some n \<Rightarrow> n) + count) (sh_hits sh))\<rparr>)"

definition query_dialog_cache_key :: "pystr \<Rightarrow> pystr \<Rightarrow> pystr" where
  "query_dialog_cache_key source query = strip source @ [0] @ strip query"

definition get_cached_query_dialog_results :: "pystr \<Rightarrow> pystr \<Rightarrow> shared_state \<Rightarrow> search_result list option" where
  "get_cached_query_dialog_results source query sh = map_of (sh_queries sh) (query_dialog_cache_key source query)"

definition set_cached_query_dialog_results :: "pystr \<Rightarrow> pystr \<Rightarrow> search_result list \<Rightarrow> shared_state \<Rightarrow> shared_state" where
  "set_cached_query_dialog_results source query results sh =
     sh\<lparr>sh_queries := evict_oldest_entries MAX_QUERY_DIALOG_CACHE
          (dict_set (query_dialog_cache_key source query) results (sh_queries sh))\<rparr>"

text \<open>A dialog is a dictionary; only its name is read.\<close>

definition dialog_name :: "pyval \<Rightarrow> pystr" where
  "dialog_name dialog =
     strip (case por (pget dialog (u ''canonical'')) (por (pget dialog (u ''source'')) (PStr [])) of PStr s \<Rightarrow> s | PInt i \<Rightarrow> int_str i | _ \<Rightarrow> [])"

definition filter_dialogs :: "pyval list \<Rightarrow> shared_state \<Rightarrow> pyval list" where
  "filter_dialogs dialogs sh =
     (let wanted = filter (\<lambda>s. s \<noteq> []) (map strip (sh_preferred sh));
          narrowed = filter (\<lambda>d. dialog_name d \<in> set wanted) dialogs
      in if \<not> sh_force_remote sh \<or> wanted = [] \<or> narrowed = [] then dialogs else narrowed)"

section \<open>Every collection stays within its limit\<close>

lemma evict_length: "length d \<le> Suc n \<Longrightarrow> length (evict_oldest_entries n d) \<le> n"
  by (auto simp: evict_oldest_entries_def)

lemma evict_set: "length d \<le> n \<Longrightarrow> length (evict_oldest_entries n (dict_set k v d)) \<le> n"
  by (rule evict_length) (use length_dict_set [of k v d] in simp)

lemma set_evict: "set (evict_oldest_entries n d) \<subseteq> set d"
  by (auto simp: evict_oldest_entries_def dest: in_set_dropD)

lemma distinct_evict: "distinct (map fst d) \<Longrightarrow> distinct (map fst (evict_oldest_entries n d))"
  by (simp add: evict_oldest_entries_def drop_map [symmetric])

definition buckets_ok :: "(pystr \<times> int set) list \<Rightarrow> bool" where
  "buckets_ok d \<longleftrightarrow> length d \<le> MAX_SEEN_MESSAGE_IDS \<and> distinct (map fst d)
     \<and> (\<forall>(s, b) \<in> set d. finite b \<and> card b \<le> MAX_SEEN_MESSAGE_ID_BUCKET)"

definition shared_ok :: "shared_state \<Rightarrow> bool" where
  "shared_ok sh \<longleftrightarrow> finite (sh_seen_urls sh) \<and> card (sh_seen_urls sh) \<le> MAX_SEEN_URLS \<and> buckets_ok (sh_seen_ids sh)
     \<and> length (sh_hits sh) \<le> MAX_DIALOG_HIT_SCORES \<and> length (sh_queries sh) \<le> MAX_QUERY_DIALOG_CACHE
     \<and> distinct (sh_preferred sh)"

lemma dict_set_entries: "(x, y) \<in> set (dict_set k v d) \<Longrightarrow> (x, y) = (k, v) \<or> (x, y) \<in> set d"
  by (induction d) (auto split: if_splits)

lemma buckets_new: "buckets_ok d \<Longrightarrow> buckets_ok (evict_oldest_entries MAX_SEEN_MESSAGE_IDS (dict_set s {} d))"
  unfolding buckets_ok_def
  using evict_set [of d MAX_SEEN_MESSAGE_IDS s "{}"] set_evict [of MAX_SEEN_MESSAGE_IDS "dict_set s {} d"]
  by (auto simp: distinct_update distinct_evict dest!: dict_set_entries)

lemma buckets_put:
  assumes "buckets_ok d" "finite b" "card b \<le> MAX_SEEN_MESSAGE_ID_BUCKET"
  shows "buckets_ok (put_bucket s b d)"
  using assms length_dict_set_old [of s d b]
  by (auto simp: buckets_ok_def put_bucket_def distinct_update dest!: dict_set_entries)

lemma seen_messages_ok:
  "seen_messages_for s sh = (b, sh') \<Longrightarrow> shared_ok sh \<Longrightarrow>
     shared_ok sh' \<and> finite b \<and> card b \<le> MAX_SEEN_MESSAGE_ID_BUCKET \<and> sh_seen_urls sh' = sh_seen_urls sh"
  using buckets_new [of "sh_seen_ids sh" s]
  by (auto simp: seen_messages_for_def shared_ok_def buckets_ok_def dest: map_of_SomeD split: option.splits)

lemma remember_message_ok:
  assumes "shared_ok sh"
  shows "shared_ok (remember_message r sh) \<and> sh_seen_urls (remember_message r sh) = sh_seen_urls sh"
proof -
  have add: "shared_ok (add_seen_message s m sh) \<and> sh_seen_urls (add_seen_message s m sh) = sh_seen_urls sh" for s m
  proof (cases "seen_messages_for s sh")
    case (Pair b sh')
    note ok = seen_messages_ok [OF Pair assms]
    define kept where "kept = (if MAX_SEEN_MESSAGE_ID_BUCKET \<le> card b then {} else b)"
    define new where "new = (case m of None \<Rightarrow> kept | Some mid \<Rightarrow> insert mid kept)"
    have "finite kept" "card kept < MAX_SEEN_MESSAGE_ID_BUCKET"
      using ok by (auto simp: kept_def MAX_SEEN_MESSAGE_ID_BUCKET_def)
    then have "finite new" "card new \<le> MAX_SEEN_MESSAGE_ID_BUCKET"
      by (auto simp: new_def card_insert_if split: option.splits)
    then have "buckets_ok (put_bucket s new (sh_seen_ids sh'))"
      using ok by (intro buckets_put) (auto simp: shared_ok_def)
    moreover have "add_seen_message s m sh = sh'\<lparr>sh_seen_ids := put_bucket s new (sh_seen_ids sh')\<rparr>"
      unfolding add_seen_message_def Pair case_prod_conv Let_def new_def kept_def ..
    ultimately show ?thesis using ok assms by (simp add: shared_ok_def)
  qed
  show ?thesis
    using add assms by (auto simp: remember_message_def split: option.splits)
qed

lemma remember_results_ok: "shared_ok sh \<Longrightarrow> shared_ok (snd (remember_results rs sh))"
proof (induction rs arbitrary: sh)
  case (Cons r rs)
  let ?urls = "if MAX_SEEN_URLS \<le> card (sh_seen_urls sh) then {} else sh_seen_urls sh"
  have "shared_ok (sh\<lparr>sh_seen_urls := insert (r_url r) ?urls\<rparr>)"
    using Cons.prems by (auto simp: shared_ok_def MAX_SEEN_URLS_def card_insert_if)
  then have "shared_ok (remember_message r (sh\<lparr>sh_seen_urls := insert (r_url r) ?urls\<rparr>))"
    using remember_message_ok by blast
  then show ?case using Cons.IH Cons.prems by (auto simp: Let_def split: prod.splits) (metis snd_conv)+
qed simp

lemma hits_ok: "shared_ok sh \<Longrightarrow> shared_ok (note_dialog_hits s n sh)"
  by (simp add: note_dialog_hits_def shared_ok_def Let_def evict_set)

lemma queries_ok: "shared_ok sh \<Longrightarrow> shared_ok (set_cached_query_dialog_results s q rs sh)"
  by (simp add: set_cached_query_dialog_results_def shared_ok_def evict_set)

lemma preferred_ok: "shared_ok sh \<Longrightarrow> shared_ok (set_preferred_sources_from_results rs sh)"
  by (simp add: set_preferred_sources_from_results_def shared_ok_def Let_def)

lemma fresh_ok: "shared_ok fresh_state"
  by (simp add: fresh_state_def shared_ok_def buckets_ok_def)

section \<open>What is remembered is kept once\<close>

text \<open>While there is room for all urls, which is always so within one search\<close>

lemma remember_results_urls:
  assumes "shared_ok sh" "card (sh_seen_urls sh) + length rs \<le> MAX_SEEN_URLS" "remember_results rs sh = (kept, sh')"
  shows "distinct (filter (\<lambda>url. url \<noteq> []) (map r_url kept)) \<and> sh_seen_urls sh' = sh_seen_urls sh \<union> (set (map r_url rs) - {[]})
    \<and> (\<forall>r \<in> set kept. r \<in> set rs \<and> (r_url r = [] \<or> r_url r \<notin> sh_seen_urls sh))"
  using assms
proof (induction rs arbitrary: sh kept sh')
  case (Cons r rs)
  show ?case
  proof (cases "r_url r = [] \<or> r_url r \<in> sh_seen_urls sh")
    case True
    obtain kept2 sh2 where rec: "remember_results rs sh = (kept2, sh2)" by (cases "remember_results rs sh")
    then show ?thesis using Cons.IH [OF Cons.prems(1) _ rec] Cons.prems(2,3) True by (auto split: if_splits)
  next
    case False
    let ?sh = "sh\<lparr>sh_seen_urls := insert (r_url r) (sh_seen_urls sh)\<rparr>"
    have room: "\<not> MAX_SEEN_URLS \<le> card (sh_seen_urls sh)" using Cons.prems(2) by simp
    have fin: "finite (sh_seen_urls sh)" using Cons.prems(1) by (simp add: shared_ok_def)
    have "shared_ok ?sh" using Cons.prems(1) False room by (auto simp: shared_ok_def card_insert_if)
    note msg = remember_message_ok [OF this, of r]
    obtain kept2 sh2 where rec: "remember_results rs (remember_message r ?sh) = (kept2, sh2)"
      by (cases "remember_results rs (remember_message r ?sh)")
    have "card (sh_seen_urls (remember_message r ?sh)) + length rs \<le> MAX_SEEN_URLS"
      using msg fin False Cons.prems(2) by simp
    note IH = Cons.IH [OF conjunct1 [OF msg] this rec]
    have "kept = r # kept2" "sh' = sh2" using Cons.prems(3) False room rec by (simp_all add: Let_def)
    then show ?thesis using IH msg False by auto
  qed
qed simp

lemma remembered_filtered:
  assumes "shared_ok sh" "card (sh_seen_urls sh) + 2 * length rs \<le> MAX_SEEN_URLS" "remember_results rs sh = (kept, sh')"
    "remember_results rs sh' = (again, sh'')"
  shows "\<forall>r \<in> set again. r_url r = []"
proof -
  have ok: "shared_ok sh'" using remember_results_ok [OF assms(1), of rs] assms(3) by simp
  have urls: "sh_seen_urls sh' = sh_seen_urls sh \<union> (set (map r_url rs) - {[]})"
    using remember_results_urls [OF assms(1) _ assms(3)] assms(2) by simp
  have "card (sh_seen_urls sh') \<le> card (sh_seen_urls sh) + card (set (map r_url rs))"
    unfolding urls by (rule order_trans [OF card_Un_le]) (simp add: card_mono [of "set (map r_url rs)"] del: set_map)
  then have "card (sh_seen_urls sh') + length rs \<le> MAX_SEEN_URLS"
    using assms(2) card_length [of "map r_url rs"] by simp
  from remember_results_urls [OF ok this assms(4)] urls show ?thesis by auto
qed

lemma filter_dialogs_some: "set (filter_dialogs dialogs sh) \<subseteq> set dialogs" "dialogs \<noteq> [] \<Longrightarrow> filter_dialogs dialogs sh \<noteq> []"
  by (auto simp: filter_dialogs_def Let_def)

lemma query_results_kept:
  "length (sh_queries sh) < MAX_QUERY_DIALOG_CACHE \<Longrightarrow>
     get_cached_query_dialog_results s q (set_cached_query_dialog_results s q rs sh) = Some rs"
  using length_dict_set [of "query_dialog_cache_key s q" rs "sh_queries sh"]
  by (simp add: get_cached_query_dialog_results_def set_cached_query_dialog_results_def evict_oldest_entries_def update_conv')

end
