(* ===== verification/Library_Service.thy ===== *)
theory Library_Service
  imports Library_State Tables Expiring_Cache "HOL-Library.Product_Lexorder"
begin

text \<open>
  \<open>app/services/subscription/library/snapshot.py\<close>, \<open>service.py\<close> and \<open>sync.py\<close>: the snapshot of the
  media library with its lookup tables and its cache, a subscription enriched with it before a search,
  and the synchronisation of the table of subscriptions.  The media server and TMDB are parameters.
  Shown: a lookup table finds what a search of the list finds; a snapshot that is served is at most
  six hours old and a failed refresh never replaces the one that is kept; synchronising is
  idempotent, changes only the rows of the given subscriptions and never takes a completed
  subscription back unless it is given an old copy of its row.
\<close>

section \<open>Lookup tables\<close>

text \<open>\<open>str(value or "")\<close>\<close>

definition str_or_empty :: "pyval \<Rightarrow> pystr" where
  "str_or_empty v = str_of_val (por v (PStr []))"

text \<open>The first item with a key is kept; empty keys are left out.\<close>

definition put_first :: "'a \<Rightarrow> pystr \<Rightarrow> (pystr \<times> 'a) list \<Rightarrow> (pystr \<times> 'a) list" where
  "put_first item k d = (if k = [] \<or> k \<in> fst ` set d then d else d @ [(k, item)])"

definition index_items :: "('a \<Rightarrow> pystr list) \<Rightarrow> 'a list \<Rightarrow> (pystr \<times> 'a) list" where
  "index_items keys items = fold (\<lambda>item d. fold (put_first item) (keys item) d) items []"

definition tmdb_keys :: "pyval \<Rightarrow> pystr list" where
  "tmdb_keys item = map (\<lambda>k. strip (str_or_empty (pget (pget item (u ''ProviderIds'')) k))) provider_keys"

definition name_keys :: "pyval \<Rightarrow> pystr list" where
  "name_keys item = map (\<lambda>k. compact_match_text (str_or_empty (pget item k))) (map u [''Name'', ''OriginalTitle'', ''SortName'', ''SeriesName''])"

definition items_by_tmdb :: "pyval list \<Rightarrow> (pystr \<times> pyval) list" where
  "items_by_tmdb items = index_items tmdb_keys items"

definition items_by_name :: "pyval list \<Rightarrow> (pystr \<times> pyval) list" where
  "items_by_name items = index_items name_keys items"

record library =
  lib_snap :: snapshot
  lib_episodes :: "(pystr \<times> pyval list) list"
  lib_movies_by_tmdb :: "(pystr \<times> pyval) list"
  lib_series_by_tmdb :: "(pystr \<times> pyval) list"
  lib_movies_by_name :: "(pystr \<times> pyval) list"
  lib_series_by_name :: "(pystr \<times> pyval) list"

definition append_to :: "pystr \<Rightarrow> pyval \<Rightarrow> (pystr \<times> pyval list) list \<Rightarrow> (pystr \<times> pyval list) list" where
  "append_to k e d = (if k = [] then d else dict_set k ((case map_of d k of None \<Rightarrow> [] | Some es \<Rightarrow> es) @ [e]) d)"

definition index_snapshot_episodes :: "snapshot \<Rightarrow> library" where
  "index_snapshot_episodes snap =
     \<lparr>lib_snap = snap,
      lib_episodes = fold (\<lambda>e. append_to (strip (episode_series e)) e) (snap_episodes snap) [],
      lib_movies_by_tmdb = items_by_tmdb (snap_movies snap), lib_series_by_tmdb = items_by_tmdb (snap_series snap),
      lib_movies_by_name = items_by_name (snap_movies snap), lib_series_by_name = items_by_name (snap_series snap)\<rparr>"

definition find_snapshot_item :: "subscription \<Rightarrow> (pystr \<times> pyval) list \<Rightarrow> (pystr \<times> pyval) list \<Rightarrow> pyval list \<Rightarrow> pyval option" where
  "find_snapshot_item sub by_tmdb by_name items =
     (let tmdb = strip (tmdb_id_str sub); title = compact_match_text (sub_title sub) in
      case (if tmdb = [] then None else map_of by_tmdb tmdb) of
        Some item \<Rightarrow> Some item
      | None \<Rightarrow>
          (case (if title = [] then None else map_of by_name title) of
             Some item \<Rightarrow> Some item
           | None \<Rightarrow> List.find (emby_item_matches sub) items))"

definition find_movie :: "subscription \<Rightarrow> library \<Rightarrow> pyval option" where
  "find_movie sub lib = find_snapshot_item sub (lib_movies_by_tmdb lib) (lib_movies_by_name lib) (snap_movies (lib_snap lib))"

definition find_series :: "subscription \<Rightarrow> library \<Rightarrow> pyval option" where
  "find_series sub lib = find_snapshot_item sub (lib_series_by_tmdb lib) (lib_series_by_name lib) (snap_series (lib_snap lib))"

section \<open>The cache of the snapshot\<close>

definition EMBY_SNAPSHOT_CACHE_TTL_SECONDS :: time where
  "EMBY_SNAPSHOT_CACHE_TTL_SECONDS = 600"

definition EMBY_SNAPSHOT_STALE_TTL_SECONDS :: time where
  "EMBY_SNAPSHOT_STALE_TTL_SECONDS = 6 * 3600"

type_synonym snapshot_cache = "(time \<times> library) option"

definition cached_snapshot :: "time \<Rightarrow> bool \<Rightarrow> snapshot_cache \<Rightarrow> library option" where
  "cached_snapshot now allow_stale cache =
     (case cache of
        None \<Rightarrow> None
      | Some (stored, lib) \<Rightarrow>
          let age = max 0 (now - stored) in
          if age \<le> EMBY_SNAPSHOT_CACHE_TTL_SECONDS then Some lib
          else if allow_stale \<and> age \<le> EMBY_SNAPSHOT_STALE_TTL_SECONDS then Some lib
          else None)"

text \<open>Not configured, failed without a snapshot to fall back to, or a snapshot\<close>

datatype library_answer = No_Library | Library_Failed | Library library

text \<open>What the media server answers; an answer that is not a snapshot raises like an error.\<close>

datatype emby_answer = Snapshot snapshot | Snapshot_Timeout | Snapshot_Error

definition failed_or_stale :: "time \<Rightarrow> snapshot_cache \<Rightarrow> library_answer" where
  "failed_or_stale now cache = (case cached_snapshot now True cache of Some lib \<Rightarrow> Library lib | None \<Rightarrow> Library_Failed)"

definition refresh_library_snapshot :: "time \<Rightarrow> emby_answer \<Rightarrow> snapshot_cache \<Rightarrow> library_answer \<times> snapshot_cache" where
  "refresh_library_snapshot now answer cache =
     (case answer of
        Snapshot snap \<Rightarrow> let lib = index_snapshot_episodes snap in (Library lib, Some (now, lib))
      | _ \<Rightarrow> (failed_or_stale now cache, cache))"

text \<open>
  \<open>now\<close> is the time of the call, \<open>locked\<close> that of the second look under the lock, by when another task
  may have refreshed the cache to \<open>cache'\<close>, and \<open>later\<close> that of the answer.
\<close>

definition library_snapshot_or_none ::
    "bool \<Rightarrow> bool \<Rightarrow> time \<Rightarrow> time \<Rightarrow> time \<Rightarrow> emby_answer \<Rightarrow> snapshot_cache \<Rightarrow> snapshot_cache \<Rightarrow> library_answer \<times> snapshot_cache" where
  "library_snapshot_or_none configured force now locked later answer cache cache' =
     (if \<not> configured then (No_Library, cache)
      else case (if force then None else cached_snapshot now False cache) of
        Some lib \<Rightarrow> (Library lib, cache)
      | None \<Rightarrow>
          (case (if force then None else cached_snapshot locked False cache') of
             Some lib \<Rightarrow> (Library lib, cache')
           | None \<Rightarrow> refresh_library_snapshot later answer cache'))"

section \<open>Enriching a subscription\<close>

definition TMDB_REFRESH_COOLDOWN_SECONDS :: time where
  "TMDB_REFRESH_COOLDOWN_SECONDS = 6 * 3600"

definition tmdb_refresh_due :: "time \<Rightarrow> (int \<times> time) list \<Rightarrow> subscription \<Rightarrow> bool" where
  "tmdb_refresh_due now memo sub =
     (if sub_id sub = 0 then True
      else TMDB_REFRESH_COOLDOWN_SECONDS \<le> now - (case map_of memo (sub_id sub) of None \<Rightarrow> 0 | Some t \<Rightarrow> t))"

definition has_tmdb_id :: "subscription \<Rightarrow> bool" where
  "has_tmdb_id sub \<longleftrightarrow> tmdb_id sub \<noteq> None \<and> tmdb_id sub \<noteq> Some 0"

definition is_active_sub :: "subscription \<Rightarrow> bool" where
  "is_active_sub sub \<longleftrightarrow> casefold (or_str (sub_status sub) (u ''active'')) = u ''active''"

definition needs_tmdb_enrichment :: "time \<Rightarrow> (int \<times> time) list \<Rightarrow> subscription \<Rightarrow> bool" where
  "needs_tmdb_enrichment now memo sub =
     (if \<not> has_tmdb_id sub then False
      else if tmdb_total_count sub = 0 then True
      else if media_type sub = Tv \<and> \<not> truthy (tmdb_seasons sub) then True
      else if subscription_release_year sub = None \<or> subscription_release_year sub = Some 0 then True
      else if media_type sub \<noteq> Tv then False
      else if casefold (sub_status sub) = COMPLETED then False
      else if 0 < tmdb_total_count sub \<and> tmdb_total_count sub \<le> emby_count sub then tmdb_refresh_due now memo sub
      else if is_active_sub sub \<and> missing_episode_keys sub = {} then tmdb_refresh_due now memo sub
      else False)"

text \<open>A date that starts with four digits; the digits of dates are those \<open>int\<close> reads.\<close>

definition release_year_from_detail :: "pyval \<Rightarrow> subscription \<Rightarrow> int option" where
  "release_year_from_detail detail sub =
     (let text = take 4 (str_or_empty (por (pget detail (u ''first_air_date'')) (pget detail (u ''release_date'')))) in
      if str_isdigit text then int_of_str text else subscription_release_year sub)"

definition detail_total :: "pyval \<Rightarrow> int" where
  "detail_total detail = (case int_of_val (por (pget detail (u ''number_of_episodes'')) (PInt 0)) of None \<Rightarrow> 0 | Some n \<Rightarrow> n)"

definition write_tmdb :: "int \<Rightarrow> pyval \<Rightarrow> int option \<Rightarrow> subscription \<Rightarrow> subscription" where
  "write_tmdb total_n seasons year row = row\<lparr>tmdb_total_count := total_n, tmdb_seasons := seasons, release_year := year\<rparr>"

text \<open>\<open>detail\<close> is \<^const>\<open>None\<close> when the request raised.  The result is the subscription, the table and the memo.\<close>

definition enrich_subscription_with_tmdb ::
    "time \<Rightarrow> pyval option \<Rightarrow> subscription \<Rightarrow> subscription list \<Rightarrow> (int \<times> time) list
     \<Rightarrow> subscription \<times> subscription list \<times> (int \<times> time) list" where
  "enrich_subscription_with_tmdb now detail sub subs memo =
     (if \<not> needs_tmdb_enrichment now memo sub then (sub, subs, memo)
      else case detail of
        None \<Rightarrow> (sub, subs, memo)
      | Some d \<Rightarrow>
          let total_n = detail_total d;
              seasons = (if media_type sub = Tv then tmdb_seasons_from_detail d else []);
              year = release_year_from_detail d sub
          in if total_n = 0 \<and> seasons = [] \<and> (year = None \<or> year = Some 0) then (sub, subs, memo)
             else (write_tmdb total_n (seasons_value seasons) year sub,
                   update_rows (\<lambda>row. sub_id row = sub_id sub) (write_tmdb total_n (seasons_value seasons) year) subs,
                   if sub_id sub = 0 then memo else dict_set (sub_id sub) now memo))"

text \<open>The keys of the owned episodes, in order, as they are stored\<close>

definition stored_keys :: "ekey set \<Rightarrow> pyval" where
  "stored_keys owned = PList (map (PStr \<circ> json_episode_key) (sorted_list_of_set owned))"

definition item_id :: "pyval option \<Rightarrow> pystr" where
  "item_id item_opt = (case item_opt of None \<Rightarrow> [] | Some item \<Rightarrow> str_of_val (por (pget item (u ''Id'')) (PStr [])))"

definition enrich_tv_subscription_with_library :: "subscription \<Rightarrow> library \<Rightarrow> subscription" where
  "enrich_tv_subscription_with_library sub lib =
     (let series_id = item_id (find_series sub lib);
          episodes = (case (if series_id = [] then None else map_of (lib_episodes lib) series_id) of
                        Some es \<Rightarrow> es | None \<Rightarrow> snap_episodes (lib_snap lib));
          owned = episodes_for_subscription sub episodes series_id;
          enriched = sub\<lparr>emby_episodes := Some owned, emby_episode_keys := stored_keys owned\<rparr>
      in if owned \<noteq> {} \<and> int (card owned) \<noteq> emby_count sub then enriched\<lparr>emby_count := int (card owned)\<rparr> else enriched)"

definition apply_library :: "library_answer \<Rightarrow> subscription \<Rightarrow> subscription" where
  "apply_library answer sub =
     (case answer of
        No_Library \<Rightarrow> sub
      | Library_Failed \<Rightarrow> sub\<lparr>emby_snapshot_failed := True\<rparr>
      | Library lib \<Rightarrow>
          if media_type sub = Movie
          then let item = find_movie sub lib in
            sub\<lparr>in_library := (item \<noteq> None), emby_count := (if item \<noteq> None then 1 else 0)\<rparr>
          else enrich_tv_subscription_with_library sub lib)"

text \<open>The snapshot is the one that was passed on, or else the one \<open>library_snapshot_or_none\<close> gives.\<close>

definition enrich_subscription_with_library ::
    "bool \<Rightarrow> time \<Rightarrow> pyval option \<Rightarrow> library_answer \<Rightarrow> subscription \<Rightarrow> subscription list \<Rightarrow> (int \<times> time) list
     \<Rightarrow> subscription \<times> subscription list \<times> (int \<times> time) list" where
  "enrich_subscription_with_library configured now detail answer sub subs memo =
     (case enrich_subscription_with_tmdb now detail sub subs memo of
        (sub', subs', memo') \<Rightarrow> ((if configured then apply_library answer sub' else sub'), subs', memo'))"

section \<open>Synchronising the table\<close>

definition count_up :: "pystr \<Rightarrow> (pystr \<times> int) list \<Rightarrow> (pystr \<times> int) list" where
  "count_up k d = (if k = [] then d else dict_set k (count_of d k + 1) d)"

definition episode_counts :: "pyval list \<Rightarrow> counts" where
  "episode_counts episodes =
     \<lparr>by_series_id = fold (\<lambda>e. count_up (episode_series e)) episodes [],
      by_series_name = fold (\<lambda>e. count_up (compact_match_text (str_or_empty (pget e (u ''SeriesName''))))) episodes []\<rparr>"

definition needs_tmdb_detail :: "subscription \<Rightarrow> bool" where
  "needs_tmdb_detail sub =
     (if media_type sub \<noteq> Tv \<or> \<not> has_tmdb_id sub then False
      else if casefold (sub_status sub) = COMPLETED then False
      else if \<not> (tmdb_total_count sub \<noteq> 0 \<and> truthy (tmdb_seasons sub)) then True
      else if tmdb_total_count sub \<le> emby_count sub \<and> 0 < tmdb_total_count sub then True
      else is_active_sub sub \<and> missing_episode_keys sub = {})"

text \<open>\<^const>\<open>PNone\<close> where no detail was asked for or the request raised\<close>

definition detail_for :: "(int \<Rightarrow> pyval) \<Rightarrow> subscription \<Rightarrow> pyval" where
  "detail_for tmdb sub = (if needs_tmdb_detail sub then tmdb (sub_id sub) else PNone)"

definition subscription_state_unchanged :: "subscription \<Rightarrow> library_state \<Rightarrow> bool" where
  "subscription_state_unchanged sub st \<longleftrightarrow>
     in_library sub = ls_in_library st \<and> emby_count sub = ls_emby_count st \<and> tmdb_total_count sub = ls_total_count st
     \<and> tmdb_seasons sub = ls_seasons st \<and> emby_episode_keys sub = stored_keys (ls_owned st)
     \<and> sub_status sub = ls_status st \<and> completed_at sub = ls_completed_at st"

definition write_state :: "library_state \<Rightarrow> subscription \<Rightarrow> subscription" where
  "write_state st row =
     row\<lparr>in_library := ls_in_library st, emby_count := ls_emby_count st, tmdb_total_count := ls_total_count st,
         tmdb_seasons := ls_seasons st, emby_episode_keys := stored_keys (ls_owned st), sub_status := ls_status st,
         completed_at := ls_completed_at st\<rparr>"

text \<open>The rows the statement of \<open>_update_subscription_state\<close> reaches\<close>

definition state_target :: "subscription \<Rightarrow> library_state \<Rightarrow> subscription \<Rightarrow> bool" where
  "state_target sub st row \<longleftrightarrow> sub_id row = sub_id sub \<and> (ls_newly_completed st \<longrightarrow> sub_status row \<noteq> COMPLETED)"

record sync_report =
  sy_updated :: nat
  sy_matched :: nat
  sy_completed :: nat

definition sync_one ::
    "pystr \<Rightarrow> snapshot \<Rightarrow> counts \<Rightarrow> (int \<Rightarrow> pyval) \<Rightarrow> subscription \<Rightarrow> sync_report \<times> subscription list \<Rightarrow> sync_report \<times> subscription list" where
  "sync_one now snap cs tmdb sub = (\<lambda>(rep, subs).
     let st = library_state now sub snap cs (detail_for tmdb sub);
         rep1 = (if ls_in_library st then rep\<lparr>sy_matched := sy_matched rep + 1\<rparr> else rep)
     in if subscription_state_unchanged sub st then (rep1, subs)
        else if \<not> list_ex (state_target sub st) subs then (rep1, subs)
        else (rep1\<lparr>sy_updated := sy_updated rep1 + 1,
                   sy_completed := sy_completed rep1 + (if ls_newly_completed st then 1 else 0)\<rparr>,
              update_rows (state_target sub st) (write_state st) subs))"

definition sync_subscriptions_with_emby_snapshot ::
    "pystr \<Rightarrow> snapshot \<Rightarrow> (int \<Rightarrow> pyval) \<Rightarrow> subscription list \<Rightarrow> subscription list \<Rightarrow> sync_report \<times> subscription list" where
  "sync_subscriptions_with_emby_snapshot now snap tmdb given subs =
     fold (sync_one now snap (episode_counts (snap_episodes snap)) tmdb) given (\<lparr>sy_updated = 0, sy_matched = 0, sy_completed = 0\<rparr>, subs)"

section \<open>Lookup tables find what a search finds\<close>

lemma map_of_put_first: "k \<noteq> [] \<Longrightarrow> map_of (put_first item k' d) k = (if k' = k \<and> map_of d k = None then Some item else map_of d k)"
proof -
  have "put_first item k' d = (if k' = [] \<or> map_of d k' \<noteq> None then d else d @ [(k', item)])"
    by (simp add: put_first_def map_of_eq_None_iff)
  then show "k \<noteq> [] \<Longrightarrow> ?thesis" by (auto simp: map_add_def split: option.splits)
qed

lemma map_of_put_all:
  "k \<noteq> [] \<Longrightarrow> map_of (fold (put_first item) ks d) k =
     (case map_of d k of Some x \<Rightarrow> Some x | None \<Rightarrow> if k \<in> set ks then Some item else None)"
  by (induction ks arbitrary: d) (auto simp: map_of_put_first split: option.splits)

lemma index_items_find:
  assumes "k \<noteq> []"
  shows "map_of (index_items keys items) k = List.find (\<lambda>item. k \<in> set (keys item)) items"
proof -
  have "map_of (fold (\<lambda>item d. fold (put_first item) (keys item) d) items d) k =
      (case map_of d k of Some x \<Rightarrow> Some x | None \<Rightarrow> List.find (\<lambda>item. k \<in> set (keys item)) items)" for d
    by (induction items arbitrary: d) (auto simp: map_of_put_all [OF assms] split: option.splits)
  then show ?thesis by (simp add: index_items_def)
qed

lemma find_series_eq:
  "find_series sub (index_snapshot_episodes snap) =
     (let tmdb = strip (tmdb_id_str sub); title = compact_match_text (sub_title sub); items = snap_series snap in
      case (if tmdb = [] then None else List.find (\<lambda>item. tmdb \<in> set (tmdb_keys item)) items) of
        Some item \<Rightarrow> Some item
      | None \<Rightarrow>
          (case (if title = [] then None else List.find (\<lambda>item. title \<in> set (name_keys item)) items) of
             Some item \<Rightarrow> Some item
           | None \<Rightarrow> List.find (emby_item_matches sub) items))"
  by (cases "strip (tmdb_id_str sub) = []"; cases "compact_match_text (sub_title sub) = []")
    (simp_all add: find_series_def find_snapshot_item_def index_snapshot_episodes_def items_by_tmdb_def items_by_name_def
      index_items_find Let_def cong: option.case_cong)

lemma index_append:
  "k \<noteq> [] \<Longrightarrow> map_of (append_to k' e d) k =
     (if k' = k then Some ((case map_of d k of None \<Rightarrow> [] | Some es \<Rightarrow> es) @ [e]) else map_of d k)"
  by (simp add: append_to_def update_conv')

lemma indexed_episodes:
  assumes "k \<noteq> []"
  shows "map_of (lib_episodes (index_snapshot_episodes snap)) k =
    (let es = filter (\<lambda>e. strip (episode_series e) = k) (snap_episodes snap) in if es = [] then None else Some es)"
proof -
  have "map_of (fold (\<lambda>e. append_to (strip (episode_series e)) e) es d) k =
      (let found = filter (\<lambda>e. strip (episode_series e) = k) es in
       if found = [] then map_of d k else Some ((case map_of d k of None \<Rightarrow> [] | Some es \<Rightarrow> es) @ found))" for es d
    by (induction es arbitrary: d) (auto simp: index_append [OF assms] Let_def)
  then show ?thesis by (simp add: index_snapshot_episodes_def Let_def)
qed

section \<open>What the cache of the snapshot serves\<close>

definition snapshot_served :: "time \<Rightarrow> snapshot_cache \<Rightarrow> time \<Rightarrow> library \<Rightarrow> bool" where
  "snapshot_served now cache age lib \<longleftrightarrow> (\<exists>stored. cache = Some (stored, lib) \<and> now - stored \<le> age)"

lemma cached_snapshot_Some: "cached_snapshot now stale cache = Some lib \<Longrightarrow>
    snapshot_served now cache (if stale then EMBY_SNAPSHOT_STALE_TTL_SECONDS else EMBY_SNAPSHOT_CACHE_TTL_SECONDS) lib"
  by (auto simp: cached_snapshot_def snapshot_served_def EMBY_SNAPSHOT_STALE_TTL_SECONDS_def EMBY_SNAPSHOT_CACHE_TTL_SECONDS_def
      Let_def split: option.splits if_splits)

lemma snapshot_age:
  assumes "library_snapshot_or_none configured force now locked later answer cache cache' = (Library lib, cache'')"
  shows "snapshot_served now cache EMBY_SNAPSHOT_CACHE_TTL_SECONDS lib \<or> snapshot_served locked cache' EMBY_SNAPSHOT_CACHE_TTL_SECONDS lib
    \<or> (\<exists>snap. answer = Snapshot snap \<and> lib = index_snapshot_episodes snap \<and> cache'' = Some (later, lib))
    \<or> snapshot_served later cache' EMBY_SNAPSHOT_STALE_TTL_SECONDS lib \<and> cache'' = cache'"
  using assms cached_snapshot_Some [of now False cache] cached_snapshot_Some [of locked False cache'] cached_snapshot_Some [of later True cache']
  by (auto simp: library_snapshot_or_none_def refresh_library_snapshot_def failed_or_stale_def Let_def
      split: if_splits option.splits emby_answer.splits)

lemma failed_refresh_keeps:
  assumes "library_snapshot_or_none configured force now locked later answer cache cache' = (out, cache'')" "\<And>snap. answer \<noteq> Snapshot snap"
  shows "cache'' \<in> {cache, cache'}"
  using assms
  by (auto simp: library_snapshot_or_none_def refresh_library_snapshot_def split: if_splits option.splits emby_answer.splits)

section \<open>Synchronising\<close>

definition same_work :: "subscription \<Rightarrow> subscription \<Rightarrow> bool" where
  "same_work a b \<longleftrightarrow> sub_id a = sub_id b \<and> sub_title a = sub_title b \<and> media_type a = media_type b \<and> tmdb_id a = tmdb_id b"

lemma same_work_write [simp]: "same_work (write_state st row) row"
  by (simp add: same_work_def write_state_def)

lemma same_work_matches:
  assumes "same_work a b"
  shows "emby_item_matches a = emby_item_matches b" "episodes_for_subscription a = episodes_for_subscription b"
    "series_episode_count a = series_episode_count b"
proof -
  show m: "emby_item_matches a = emby_item_matches b"
    using assms by (intro ext) (simp add: emby_item_matches_def tmdb_id_str_def same_work_def)
  then have "episode_matches_subscription a = episode_matches_subscription b"
    by (intro ext) (simp add: episode_matches_subscription_def)
  then show "episodes_for_subscription a = episodes_for_subscription b"
    by (intro ext) (simp add: episodes_for_subscription_def)
  have n: "series_episode_count_by_name a d = series_episode_count_by_name b d" for d
    using assms by (simp add: series_episode_count_by_name_def same_work_def)
  show "series_episode_count a = series_episode_count b"
    by (intro ext) (simp only: series_episode_count_def n)
qed

lemma complete_cong:
  assumes "media_type a = media_type b" "tmdb_total_count a = tmdb_total_count b" "tmdb_seasons a = tmdb_seasons b"
    "emby_episodes a = Some e" "emby_episodes b = Some e" "emby_count a = emby_count b"
  shows "subscription_is_complete a (Some l) (Some c) = subscription_is_complete b (Some l) (Some c)"
proof -
  have all: "all_tmdb_episode_keys a = all_tmdb_episode_keys b"
    by (simp only: all_tmdb_episode_keys_def assms)
  have "owned_episode_keys a = owned_episode_keys b"
    by (simp add: owned_episode_keys_def explicit_owned_keys_def all assms Let_def)
  then show ?thesis by (simp add: subscription_is_complete_def all assms Let_def)
qed

lemma complete_same_work:
  assumes "same_work a b"
  shows "subscription_is_complete (a\<lparr>tmdb_total_count := n, tmdb_seasons := s, emby_episodes := Some e, emby_count := c, in_library := l\<rparr>)
      (Some l) (Some c) =
    subscription_is_complete (b\<lparr>tmdb_total_count := n, tmdb_seasons := s, emby_episodes := Some e, emby_count := c, in_library := l\<rparr>)
      (Some l) (Some c)"
  using assms complete_cong [of "a\<lparr>tmdb_total_count := n, tmdb_seasons := s, emby_episodes := Some e, emby_count := c, in_library := l\<rparr>"
    "b\<lparr>tmdb_total_count := n, tmdb_seasons := s, emby_episodes := Some e, emby_count := c, in_library := l\<rparr>"]
  by (simp add: same_work_def)

lemma por_idem [simp]: "por (por a b) b = por a b"
  by (simp add: por_def)

lemma seasons_value_truthy: "ss \<noteq> [] \<Longrightarrow> por (seasons_value ss) b = seasons_value ss"
  by (cases ss) (simp_all add: seasons_value_def por_def)

lemma metadata_again:
  assumes "tmdb_metadata sub detail = (n, s)" "tmdb_total_count sub' = n" "tmdb_seasons sub' = s"
  shows "tmdb_metadata sub' detail = (n, s)" "tmdb_metadata sub' PNone = (n, s)"
proof -
  have "s = por (tmdb_seasons sub) (PList []) \<or> (\<exists>ss. ss \<noteq> [] \<and> s = seasons_value ss)"
    using assms(1) by (auto simp: tmdb_metadata_def Let_def split: if_splits)
  then have s: "por s (PList []) = s"
    by (elim disjE exE conjE) (simp_all add: seasons_value_truthy)
  then show "tmdb_metadata sub' PNone = (n, s)"
    by (simp add: tmdb_metadata_def assms)
  show "tmdb_metadata sub' detail = (n, s)"
    unfolding tmdb_metadata_def assms(2,3) s using assms(1) by (simp add: tmdb_metadata_def Let_def split: if_splits)
qed

lemma library_state_fields:
  obtains n s owned count lib status stamp fin where
    "tmdb_metadata sub detail = (n, s)"
    "(owned, count, lib) =
       (if media_type sub = Movie then
          (let item = List.find (emby_item_matches sub) (snap_movies snap) in ({}, if item = None then 0 else 1, item \<noteq> None))
        else
          (let item = List.find (emby_item_matches sub) (snap_series snap); series_id = item_id item;
               owned = episodes_for_subscription sub (snap_episodes snap) series_id;
               count = series_episode_count sub item series_id owned cs
           in (owned, count, item \<noteq> None \<or> count \<noteq> 0)))"
    "completion_state now sub n s owned count lib = (status, stamp, fin)"
    "library_state now sub snap cs detail =
       \<lparr>ls_in_library = lib, ls_emby_count = count, ls_total_count = n, ls_seasons = s, ls_owned = owned,
        ls_status = status, ls_completed_at = stamp, ls_newly_completed = (fin \<and> sub_status sub \<noteq> COMPLETED)\<rparr>"
proof -
  obtain n s where m: "tmdb_metadata sub detail = (n, s)" by fastforce
  obtain owned count lib where t: "(owned, count, lib) =
       (if media_type sub = Movie then
          (let item = List.find (emby_item_matches sub) (snap_movies snap) in ({}, if item = None then 0 else 1, item \<noteq> None))
        else
          (let item = List.find (emby_item_matches sub) (snap_series snap); series_id = item_id item;
               owned = episodes_for_subscription sub (snap_episodes snap) series_id;
               count = series_episode_count sub item series_id owned cs
           in (owned, count, item \<noteq> None \<or> count \<noteq> 0)))"
    by (metis prod_cases3)
  obtain status stamp fin where c: "completion_state now sub n s owned count lib = (status, stamp, fin)"
    by (metis prod_cases3)
  show thesis
  proof (rule that [OF m t c])
    show "library_state now sub snap cs detail =
       \<lparr>ls_in_library = lib, ls_emby_count = count, ls_total_count = n, ls_seasons = s, ls_owned = owned,
        ls_status = status, ls_completed_at = stamp, ls_newly_completed = (fin \<and> sub_status sub \<noteq> COMPLETED)\<rparr>"
      unfolding library_state_def Let_def m case_prod_conv t [unfolded item_id_def Let_def, symmetric] c ..
  qed
qed

lemma completion_state_again:
  assumes "completion_state now sub n s owned count lib = (status, stamp, fin)" "now \<noteq> []" "same_work row sub"
    "sub_status row = status" "completed_at row = stamp"
  shows "completion_state now' row n s owned count lib = (status, stamp, fin)"
proof -
  have "if status = COMPLETED then \<exists>t. t \<noteq> [] \<and> stamp = Some t else stamp = None"
    using assms(1,2) by (auto simp: completion_state_def Let_def split: if_splits option.splits)
  then show ?thesis
    using assms(1) by (auto simp: completion_state_def Let_def complete_same_work [OF assms(3)] assms(4,5) split: if_splits)
qed

text \<open>The state computed again from the row that was written is the same, and nothing is newly completed.\<close>

lemma library_state_again:
  assumes "now \<noteq> []" "detail' \<in> {detail, PNone}"
  shows "library_state now' (write_state (library_state now sub snap cs detail) sub) snap cs detail' =
    (library_state now sub snap cs detail)\<lparr>ls_newly_completed := False\<rparr>"
proof -
  obtain n s owned count lib status stamp fin where
    m: "tmdb_metadata sub detail = (n, s)" and
    t: "(owned, count, lib) =
       (if media_type sub = Movie then
          (let item = List.find (emby_item_matches sub) (snap_movies snap) in ({}, if item = None then 0 else 1, item \<noteq> None))
        else
          (let item = List.find (emby_item_matches sub) (snap_series snap); series_id = item_id item;
               owned = episodes_for_subscription sub (snap_episodes snap) series_id;
               count = series_episode_count sub item series_id owned cs
           in (owned, count, item \<noteq> None \<or> count \<noteq> 0)))" and
    c: "completion_state now sub n s owned count lib = (status, stamp, fin)" and
    st: "library_state now sub snap cs detail =
       \<lparr>ls_in_library = lib, ls_emby_count = count, ls_total_count = n, ls_seasons = s, ls_owned = owned,
        ls_status = status, ls_completed_at = stamp, ls_newly_completed = (fin \<and> sub_status sub \<noteq> COMPLETED)\<rparr>"
    by (rule library_state_fields)
  define row where "row = write_state (library_state now sub snap cs detail) sub"
  have same: "same_work row sub" by (simp add: row_def)
  have fields: "tmdb_total_count row = n" "tmdb_seasons row = s" "sub_status row = status" "completed_at row = stamp"
    "media_type row = media_type sub"
    using same by (simp_all add: row_def write_state_def st same_work_def)
  have m': "tmdb_metadata row detail' = (n, s)"
    using assms(2) metadata_again [OF m fields(1,2)] by blast
  have c': "completion_state now' row n s owned count lib = (status, stamp, fin)"
    by (rule completion_state_again [OF c assms(1) same fields(3,4)])
  have fin: "fin = (status = COMPLETED)" by (rule completion_state_shape(1) [OF c])
  have "library_state now' row snap cs detail' =
       \<lparr>ls_in_library = lib, ls_emby_count = count, ls_total_count = n, ls_seasons = s, ls_owned = owned,
        ls_status = status, ls_completed_at = stamp, ls_newly_completed = (fin \<and> sub_status row \<noteq> COMPLETED)\<rparr>"
    unfolding library_state_def Let_def m' fields(5) same_work_matches [OF same] case_prod_conv
      t [unfolded item_id_def Let_def, symmetric] c' ..
  then show ?thesis unfolding row_def [symmetric] by (simp add: st fields fin)
qed

lemma sync_idempotent:
  assumes "now \<noteq> []" "row = write_state (library_state now sub snap cs detail) sub" "detail_for tmdb row \<in> {detail, PNone}"
  shows "snd (sync_one now' snap cs tmdb row (rep, subs)) = subs"
proof -
  have "subscription_state_unchanged row (library_state now' row snap cs (detail_for tmdb row))"
    unfolding assms(2) library_state_again [OF assms(1) assms(3) [unfolded assms(2)]]
    by (simp add: subscription_state_unchanged_def write_state_def)
  then show ?thesis by (simp add: sync_one_def Let_def)
qed

section \<open>What synchronising does to the rows\<close>

text \<open>How a row may change when the subscriptions \<open>given\<close> are synchronised\<close>

definition row_kept :: "subscription list \<Rightarrow> subscription \<Rightarrow> subscription \<Rightarrow> bool" where
  "row_kept given row row' \<longleftrightarrow> same_work row' row \<and> (sub_id row \<notin> sub_id ` set given \<longrightarrow> row' = row)"

lemma same_work_refl [simp]: "same_work a a"
  by (simp add: same_work_def)

lemma same_work_trans: "same_work a b \<Longrightarrow> same_work b c \<Longrightarrow> same_work a c"
  by (simp add: same_work_def)

lemma sync_one_rows:
  "\<exists>st. snd (sync_one now snap cs tmdb sub (rep, subs)) \<in> {subs, update_rows (state_target sub st) (write_state st) subs}
     \<and> st = library_state now sub snap cs (detail_for tmdb sub)"
  by (auto simp: sync_one_def Let_def)

lemma sync_one_kept: "list_all2 (row_kept [sub]) subs (snd (sync_one now snap cs tmdb sub (rep, subs)))"
  using sync_one_rows [of now snap cs tmdb sub rep subs]
  by (auto simp: update_rows_def list_all2_map2 row_kept_def state_target_def simp: list_all2_same)

lemma row_kept_trans: "row_kept [s] a b \<Longrightarrow> row_kept given b c \<Longrightarrow> row_kept (s # given) a c"
  by (auto simp: row_kept_def same_work_def)

lemma sync_kept: "list_all2 (row_kept given) subs (snd (fold (sync_one now snap cs tmdb) given (rep, subs)))"
proof (induction given arbitrary: rep subs)
  case Nil
  show ?case by (auto simp: row_kept_def list_all2_same)
next
  case (Cons sub given)
  obtain rep1 subs1 where one: "sync_one now snap cs tmdb sub (rep, subs) = (rep1, subs1)" by fastforce
  have "list_all2 (row_kept [sub]) subs subs1" using sync_one_kept [of sub subs now snap cs tmdb rep] one by simp
  then have "list_all2 (row_kept (sub # given)) subs (snd (fold (sync_one now snap cs tmdb) given (rep1, subs1)))"
    by (rule list_all2_trans [rotated, OF _ Cons.IH]) (rule row_kept_trans)
  then show ?case by (simp add: one)
qed

text \<open>A copy that knows of the completion keeps it.\<close>

definition knows_completed :: "subscription list \<Rightarrow> subscription list \<Rightarrow> bool" where
  "knows_completed given subs \<longleftrightarrow>
     (\<forall>s \<in> set given. \<forall>row \<in> set subs. sub_id row = sub_id s \<longrightarrow> sub_status row = COMPLETED \<longrightarrow> sub_status s = COMPLETED)"

definition stays_completed :: "subscription \<Rightarrow> subscription \<Rightarrow> bool" where
  "stays_completed row row' \<longleftrightarrow> (sub_status row = COMPLETED \<longrightarrow> sub_status row' = COMPLETED)"

lemma sync_one_sticky:
  assumes "knows_completed [sub] subs"
  shows "list_all2 stays_completed subs
    (snd (sync_one now snap cs tmdb sub (rep, subs)))"
proof -
  define st where "st = library_state now sub snap cs (detail_for tmdb sub)"
  have "sub_status (if state_target sub st row then write_state st row else row) = COMPLETED"
    if "row \<in> set subs" "sub_status row = COMPLETED" for row
    using assms that completed_sticky [of sub now snap cs "detail_for tmdb sub"]
    by (auto simp: knows_completed_def state_target_def write_state_def st_def)
  then have "list_all2 stays_completed subs
      (update_rows (state_target sub st) (write_state st) subs)"
    by (simp only: update_rows_def list_all2_map2 list_all2_same stays_completed_def) blast
  then show ?thesis
    using sync_one_rows [of now snap cs tmdb sub rep subs] by (auto simp: list_all2_same stays_completed_def simp flip: st_def)
qed

lemma sync_sticky:
  assumes "knows_completed given subs" "distinct (map sub_id given)"
  shows "list_all2 stays_completed subs
    (snd (fold (sync_one now snap cs tmdb) given (rep, subs)))"
  using assms
proof (induction given arbitrary: rep subs)
  case Nil
  show ?case by (simp add: list_all2_same stays_completed_def)
next
  case (Cons sub given)
  obtain rep1 subs1 where one: "sync_one now snap cs tmdb sub (rep, subs) = (rep1, subs1)" by fastforce
  have kept: "list_all2 (row_kept [sub]) subs subs1" using sync_one_kept [of sub subs now snap cs tmdb rep] one by simp
  have "knows_completed given subs1"
    unfolding knows_completed_def
  proof (intro ballI impI)
    fix s row' assume s: "s \<in> set given" and row': "row' \<in> set subs1" "sub_id row' = sub_id s" "sub_status row' = COMPLETED"
    obtain row where row: "row \<in> set subs" "row_kept [sub] row row'"
      using kept row'(1) by (metis in_set_conv_nth list_all2_conv_all_nth)
    have "sub_id s \<noteq> sub_id sub" using Cons.prems(2) imageI [OF s, of sub_id] by auto
    then have "row' = row" using row row'(2) by (auto simp: row_kept_def same_work_def)
    then show "sub_status s = COMPLETED" using Cons.prems(1) s row row' by (auto simp: knows_completed_def)
  qed
  then have after: "list_all2 stays_completed subs1 (snd (fold (sync_one now snap cs tmdb) given (rep1, subs1)))"
    using Cons by simp
  have "list_all2 stays_completed subs subs1"
    using sync_one_sticky [of sub subs now snap cs tmdb rep] Cons.prems(1) by (simp add: one knows_completed_def)
  then have "list_all2 stays_completed subs (snd (fold (sync_one now snap cs tmdb) given (rep1, subs1)))"
    by (rule list_all2_trans [rotated, OF _ after]) (simp add: stays_completed_def)
  then show ?case by (simp add: one)
qed

text \<open>A copy read before the completion takes it back: the guard stands only where the new state is completed.\<close>

lemma stale_copy_reverts:
  assumes "st = library_state now sub snap cs (detail_for tmdb sub)" "\<not> subscription_state_unchanged sub st"
    "ls_status st \<noteq> COMPLETED" "row \<in> set subs" "sub_id row = sub_id sub"
  shows "\<exists>row' \<in> set (snd (sync_one now snap cs tmdb sub (rep, subs))).
    sub_id row' = sub_id sub \<and> sub_status row' = sub_status sub \<and> completed_at row' = None"
proof -
  have new: "\<not> ls_newly_completed st" "ls_completed_at st = None" "ls_status st = sub_status sub"
    using newly_completed_iff [of now sub snap cs "detail_for tmdb sub"] completed_at_iff [of now sub snap cs "detail_for tmdb sub"]
      library_status_range [of now sub snap cs "detail_for tmdb sub"] assms(1,3) by auto
  have hit: "state_target sub st row" using assms(5) new(1) by (simp add: state_target_def)
  have "snd (sync_one now snap cs tmdb sub (rep, subs)) = update_rows (state_target sub st) (write_state st) subs"
    using assms(1,2,4) hit by (auto simp: sync_one_def Let_def list_ex_iff)
  then have "write_state st row \<in> set (snd (sync_one now snap cs tmdb sub (rep, subs)))"
    using assms(4) hit by (force simp: update_rows_def)
  then show ?thesis
    using assms(5) new by (intro bexI [of _ "write_state st row"]) (simp_all add: write_state_def)
qed

end
