(* ===== verification/Search_Flow.thy ===== *)
theory Search_Flow
  imports Ed2k_Search Telegram_State Library_Service
begin

text \<open>
  \<open>app/services/subscription/search/flow.py\<close>, \<open>discovery.py\<close> and \<open>service.py\<close>: the search of one
  subscription, from the checks that make it unnecessary over the stages of the search of Telegram and
  the delivery of what they found to the second choices.  Telegram, the other sources, the media server
  and the delivery are parameters.  All statements of a run carry one time, and the deliveries that
  run side by side are done in the order of the resources.
  Shown: a run adds and changes rows of its own subscription only; what it returns is in the table;
  a run that is not needed searches nothing; the second choices are left out only where nothing is missing;
  what the fast stage saved is not delivered by the run where episodes are still missing.
\<close>

section \<open>The search of Telegram\<close>

datatype stage = Fast | Full bool | For_Ed2k \<comment> \<open>\<^const>\<open>True\<close>: incremental\<close>

datatype history = Found "search_result list" | History_Timeout | History_Error

type_synonym telegram = "stage \<Rightarrow> shared_state \<Rightarrow> history \<times> shared_state"

definition search_telegram_history :: "telegram \<Rightarrow> stage \<Rightarrow> shared_state \<Rightarrow> search_result list \<times> shared_state" where
  "search_telegram_history telegram stage sh =
     (case telegram stage sh of (ans, sh') \<Rightarrow> ((case ans of Found results \<Rightarrow> results | _ \<Rightarrow> []), sh'))"

type_synonym stage_result = "resource_row list \<times> search_result list \<times> attach_summary"

definition run_telegram_search_stage ::
    "pystr \<Rightarrow> telegram \<Rightarrow> subscription \<Rightarrow> stage \<Rightarrow> shared_state \<Rightarrow> database \<Rightarrow> stage_result \<times> shared_state \<times> database" where
  "run_telegram_search_stage now telegram sub stage sh db =
     (case search_telegram_history telegram stage sh of
        (results, sh1) \<Rightarrow>
          (case attach_telegram_results now sub results db of
             ((p, summary), db') \<Rightarrow>
               ((map snd (pg_created p), pg_matched p, summary),
                if results \<noteq> [] then set_preferred_sources_from_results results sh1 else sh1, db')))"

definition subscription_has_missing_episodes :: "subscription \<Rightarrow> bool" where
  "subscription_has_missing_episodes sub = (if media_type sub \<noteq> Tv then False else missing_episode_keys sub \<noteq> {})"

definition telegram_should_skip_full_after_fast :: "attach_summary \<Rightarrow> subscription \<Rightarrow> bool" where
  "telegram_should_skip_full_after_fast s sub =
     (if 0 < as_created s then True
      else if 0 < as_save_failed s then False
      else if \<not> (0 < as_raw_matched s \<and> as_raw_matched s \<le> as_duplicates s
              \<or> 0 < as_available s \<and> as_available s \<le> as_duplicates s \<and> as_created s = 0) then False
      else if as_from_index s \<and> subscription_has_missing_episodes sub then False
      else True)"

definition telegram_summary_needs_full_retry :: "attach_summary \<Rightarrow> subscription \<Rightarrow> bool" where
  "telegram_summary_needs_full_retry s sub =
     (if as_from_index s \<and> as_created s = 0 then \<not> telegram_should_skip_full_after_fast s sub else 0 < as_save_failed s)"

definition forget_seen :: "shared_state \<Rightarrow> shared_state" where
  "forget_seen sh = sh\<lparr>sh_seen_ids := [], sh_seen_urls := {}\<rparr>"

definition recheck_sources :: "attach_summary \<Rightarrow> search_result list \<Rightarrow> shared_state \<Rightarrow> shared_state" where
  "recheck_sources s matches sh =
     (if as_from_index s \<and> as_created s = 0 then set_preferred_sources_from_results matches (sh\<lparr>sh_force_remote := True\<rparr>) else sh)"

text \<open>The full search, then the search for ed2k files with a state of its own\<close>

definition full_search ::
    "pystr \<Rightarrow> telegram \<Rightarrow> subscription \<Rightarrow> bool \<Rightarrow> shared_state \<Rightarrow> database \<Rightarrow> stage_result \<times> database" where
  "full_search now telegram sub incremental sh db =
     (case run_telegram_search_stage now telegram sub (Full incremental) sh db of
        ((created, matches, summary), _, db1) \<Rightarrow>
          (case search_and_attach_ed2k now sub (fst (search_telegram_history telegram For_Ed2k fresh_state)) db1 of
             (p, db2) \<Rightarrow>
               (if ed_created p = [] then ((created, matches, summary), db2)
                else ((created @ map snd (ed_created p), matches @ ed_matched p,
                       summary\<lparr>as_created := as_created summary + length (ed_created p),
                               as_raw_matched := as_raw_matched summary + length (ed_matched p),
                               as_duplicates := as_duplicates summary + ed_duplicates p\<rparr>), db2))))"

definition search_telegram_first ::
    "pystr \<Rightarrow> telegram \<Rightarrow> bool \<Rightarrow> subscription \<Rightarrow> database \<Rightarrow> stage_result \<times> database" where
  "search_telegram_first now telegram incremental sub db =
     (if incremental then full_search now telegram sub True fresh_state db
      else case run_telegram_search_stage now telegram sub Fast fresh_state db of
        ((created, matches, summary), sh, db1) \<Rightarrow>
          (if created \<noteq> [] then
             (if \<not> subscription_has_missing_episodes sub then ((created, matches, summary), db1)
              else full_search now telegram sub False (recheck_sources summary matches (forget_seen sh)) db1)
           else if telegram_should_skip_full_after_fast summary sub then ((created, matches, summary), db1)
           else if 0 < as_raw_matched summary \<and> \<not> telegram_summary_needs_full_retry summary sub
           then ((created, matches, summary), db1)
           else full_search now telegram sub False (recheck_sources summary matches sh) db1))"

section \<open>The second choices\<close>

definition telegram_should_skip_fallback :: "attach_summary \<Rightarrow> subscription \<Rightarrow> bool" where
  "telegram_should_skip_fallback s sub =
     (if as_available s = 0 then False
      else if 0 < as_created s then True
      else if 0 < as_save_failed s then False
      else if as_duplicates s \<noteq> as_available s then False
      else \<not> subscription_has_missing_episodes sub)"

text \<open>The rows are read when the check is made, before the search.\<close>

definition fallback_usable_checker :: "subscription \<Rightarrow> database \<Rightarrow> search_result \<Rightarrow> bool" where
  "fallback_usable_checker sub db =
     (let rows0 = saved_rows sub db; rows_115 = subscription_115_resources (sub_id sub) (st_rows (db_store db)) in
      (\<lambda>r. is_valid_download_link (r_url r) \<and> matching_results sub [r] [] \<noteq> []
         \<and> \<not> fallback_blocked_by_primary_resource sub r rows_115 \<and> resource_already_exists r (Some sub) rows0 = None))"

datatype sources = Groups "search_result list list" | Sources_Timeout | Sources_Error

type_synonym fallback = "(search_result \<Rightarrow> bool) \<Rightarrow> sources"

definition search_fallback_when_needed ::
    "pystr \<Rightarrow> fallback \<Rightarrow> deliver option \<Rightarrow> subscription \<Rightarrow> database \<Rightarrow> resource_row list \<times> database" where
  "search_fallback_when_needed now fallback deliver_opt sub db =
     (case fallback (fallback_usable_checker sub db) of
        Groups groups \<Rightarrow>
          (let matches = snd (match_fallback_groups sub groups) in
           case deliver_opt of
             None \<Rightarrow> (case attach_first_fallback_result now sub matches db of
                        (row, db') \<Rightarrow> (case row of None \<Rightarrow> [] | Some x \<Rightarrow> [x], db'))
           | Some deliver \<Rightarrow>
               (case attach_fallback_results_until_delivered now sub matches deliver db of
                  (tried, db') \<Rightarrow> (map (\<lambda>(url, row, ok). row) tried, db')))
      | _ \<Rightarrow> ([], db))"

section \<open>The delivery of what was found\<close>

definition change_rows :: "(resource_row \<Rightarrow> bool) \<Rightarrow> (resource_row \<Rightarrow> resource_row) \<Rightarrow> database \<Rightarrow> database" where
  "change_rows P f db = db\<lparr>db_store := (db_store db)\<lparr>st_rows := update_rows P f (st_rows (db_store db))\<rparr>\<rparr>"

definition mark_resource_failed_if_pending :: "pystr \<Rightarrow> int \<Rightarrow> pystr \<Rightarrow> database \<Rightarrow> database" where
  "mark_resource_failed_if_pending now rid err =
     change_rows (\<lambda>row. rr_id row = rid \<and> rr_status row = u ''pending'')
       (\<lambda>row. row\<lparr>rr_status := u ''failed'',
          rr_last_error := (case rr_last_error row of Some e \<Rightarrow> Some e | None \<Rightarrow> Some (take 500 err)), rr_updated_at := Some now\<rparr>)"

definition DELIVERY_FAILED_SEARCH_ON :: pystr where
  "DELIVERY_FAILED_SEARCH_ON = [0x8D44, 0x6E90, 0x6295, 0x9012, 0x5931, 0x8D25, 0xFF0C, 0x7EE7, 0x7EED, 0x641C, 0x7D22,
     0x515C, 0x5E95, 0x8D44, 0x6E90]"

definition deliver_created_resource :: "pystr \<Rightarrow> deliver \<Rightarrow> int \<Rightarrow> database \<Rightarrow> bool \<times> database" where
  "deliver_created_resource now deliver rid db =
     (case deliver rid db of
        (Inr ok, db') \<Rightarrow> (ok, if ok then db' else mark_resource_failed_if_pending now rid DELIVERY_FAILED_SEARCH_ON db')
      | (Inl e, db') \<Rightarrow> (False, mark_resource_failed_if_pending now rid e db'))"

fun deliver_created_resources :: "pystr \<Rightarrow> deliver \<Rightarrow> resource_row list \<Rightarrow> database \<Rightarrow> bool \<times> database" where
  "deliver_created_resources now deliver [] db = (True, db)"
| "deliver_created_resources now deliver (row # rs) db =
     (case deliver_created_resource now deliver (rr_id row) db of
        (ok, db1) \<Rightarrow> (case deliver_created_resources now deliver rs db1 of (oks, db2) \<Rightarrow> (ok \<and> oks, db2)))"

definition STUCK_PENDING :: pystr where
  "STUCK_PENDING = [0x8D44, 0x6E90, 0x6295, 0x9012, 0x5361, 0x4F4F, 0xFF08] @ u ''pending '' @ [0x8D85, 0x65F6, 0xFF09, 0xFF0C,
     0x5DF2, 0x6807, 0x8BB0, 0x4E3A, 0x5931, 0x8D25, 0x7B49, 0x5F85, 0x91CD, 0x8BD5]"

text \<open>\<open>cutoff\<close> is the text of the time ten minutes ago.\<close>

definition retry_stuck_pending_resources :: "pystr \<Rightarrow> pystr \<Rightarrow> int \<Rightarrow> database \<Rightarrow> database" where
  "retry_stuck_pending_resources now cutoff sid db =
     (let stuck = rr_id ` set (list_stuck_pending_resources cutoff (Some sid) 20 (st_rows (db_store db))) in
      change_rows (\<lambda>row. rr_id row \<in> stuck \<and> rr_status row = u ''pending'')
        (\<lambda>row. row\<lparr>rr_status := u ''failed'', rr_last_error := Some STUCK_PENDING, rr_updated_at := Some now\<rparr>) db)"

section \<open>The search of one subscription\<close>

definition subscription_needs_resource_search :: "subscription \<Rightarrow> bool" where
  "subscription_needs_resource_search sub =
     (if emby_snapshot_failed sub then True
      else if media_type sub = Movie then \<not> in_library sub
      else if all_tmdb_episode_keys sub = {} then True
      else missing_episode_keys sub \<noteq> {})"

text \<open>What a run asks the outside for; the library is that passed on, or else that of the cache.\<close>

record outside =
  o_configured :: bool
  o_tmdb :: "pyval option"
  o_library :: library_answer
  o_telegram :: telegram
  o_fallback :: fallback
  o_deliver :: deliver

record times =
  t_now :: pystr
  t_cutoff :: pystr
  t_clock :: time

text \<open>The tables and the memo of the refreshes of TMDB\<close>

type_synonym state = "database \<times> (int \<times> time) list"

definition get_subscription :: "int \<Rightarrow> subscription list \<Rightarrow> subscription option" where
  "get_subscription sid subs = List.find (\<lambda>s. sub_id s = sid) subs"

text \<open>The part after the checks\<close>

definition search_and_deliver :: "outside \<Rightarrow> times \<Rightarrow> bool \<Rightarrow> subscription \<Rightarrow> database \<Rightarrow> resource_row list \<times> database" where
  "search_and_deliver w t incremental sub db =
     (case search_telegram_first (t_now t) (o_telegram w) incremental sub (retry_stuck_pending_resources (t_now t) (t_cutoff t) (sub_id sub) db) of
        ((created, matches, summary), db1) \<Rightarrow>
          (case (if created = [] then (False, db1) else deliver_created_resources (t_now t) (o_deliver w) created db1) of
             (delivered, db2) \<Rightarrow>
               (if delivered then (created, db2)
                else if created = [] \<and> matches \<noteq> [] \<and> telegram_should_skip_fallback summary sub then ([], db2)
                else case search_fallback_when_needed (t_now t) (o_fallback w) (Some (o_deliver w)) sub db2 of
                       (later, db3) \<Rightarrow> (created @ later, db3))))"

definition search_enriched :: "outside \<Rightarrow> times \<Rightarrow> bool \<Rightarrow> subscription \<Rightarrow> database \<Rightarrow> resource_row list \<times> database" where
  "search_enriched w t incremental sub db =
     (if subscription_should_hide sub
      then ([], db\<lparr>db_subs := snd (mark_completed_subscription (t_now t) sub (db_subs db))\<rparr>)
      else if \<not> subscription_needs_resource_search sub then ([], db)
      else search_and_deliver w t incremental sub db)"

definition search_and_attach_resources ::
    "outside \<Rightarrow> times \<Rightarrow> int \<Rightarrow> bool \<Rightarrow> bool \<Rightarrow> state \<Rightarrow> resource_row list \<times> state" where
  "search_and_attach_resources w t sid incremental checked st =
     (case st of (db, memo) \<Rightarrow>
        (case get_subscription sid (db_subs db) of
           None \<Rightarrow> ([], st)
         | Some sub0 \<Rightarrow>
             if sub_status sub0 \<noteq> u ''active'' then ([], st)
             else case enrich_subscription_with_library (o_configured w) (t_clock t) (o_tmdb w) (o_library w) sub0 (db_subs db) memo of
               (sub, subs, memo') \<Rightarrow>
                 (case search_enriched w t incremental sub (db\<lparr>db_subs := subs\<rparr>) of
                    (created, db') \<Rightarrow> (created, (if checked then mark_checked (t_now t) sid db' else db'), memo'))))"

section \<open>Changes to the rows of one subscription\<close>

definition others :: "int \<Rightarrow> database \<Rightarrow> resource_row list" where
  "others sid db = filter (\<lambda>row. rr_subscription row \<noteq> sid) (st_rows (db_store db))"

definition own_link :: "int \<Rightarrow> int \<times> int \<times> pystr \<Rightarrow> bool" where
  "own_link sid l \<longleftrightarrow> fst (snd l) = sid"

definition own_changes :: "int \<Rightarrow> database \<Rightarrow> database \<Rightarrow> bool" where
  "own_changes sid db db' \<longleftrightarrow>
     store_ok (db_store db) \<longrightarrow>
       store_ok (db_store db') \<and> others sid db' = others sid db
       \<and> filter (\<lambda>s. sub_id s \<noteq> sid) (db_subs db') = filter (\<lambda>s. sub_id s \<noteq> sid) (db_subs db)
       \<and> (\<exists>new. links db' = links db @ new \<and> (\<forall>l \<in> set new. own_link sid l))"

definition own_row :: "int \<Rightarrow> int \<Rightarrow> database \<Rightarrow> bool" where
  "own_row sid rid db \<longleftrightarrow> (\<exists>url. (rid, sid, url) \<in> set (links db))"

lemma own_changes_refl [simp]: "own_changes sid db db"
  by (simp add: own_changes_def)

lemma own_changes_trans [trans]: "own_changes sid a b \<Longrightarrow> own_changes sid b c \<Longrightarrow> own_changes sid a c"
  by (fastforce simp: own_changes_def)

lemma own_changes_links: "own_changes sid db db' \<Longrightarrow> store_ok (db_store db) \<Longrightarrow> set (links db) \<subseteq> set (links db')"
  by (auto simp: own_changes_def)

lemma own_changes_ok: "own_changes sid db db' \<Longrightarrow> store_ok (db_store db) \<Longrightarrow> store_ok (db_store db')"
  by (simp add: own_changes_def)

lemma link_ids: "map rr_id (st_rows (db_store db)) = map fst (links db)"
  by (simp add: links_def row_link_def o_def)

lemma store_ok_links:
  "store_ok (db_store db) \<longleftrightarrow> distinct (map fst (links db)) \<and> (\<forall>l \<in> set (links db). fst l < st_next_id (db_store db))
     \<and> distinct (map snd (links db))"
  by (simp add: store_ok_def links_def row_link_def o_def)

lemma one_link: "store_ok (db_store db) \<Longrightarrow> (rid, a) \<in> set (links db) \<Longrightarrow> (rid, b) \<in> set (links db) \<Longrightarrow> a = b"
  unfolding store_ok_links by (metis eq_key_imp_eq_value)

lemma same_links_ok: "same_links db db' \<Longrightarrow> store_ok (db_store db') = store_ok (db_store db)"
  by (simp add: store_ok_links same_links_def)

text \<open>A change that leaves the links and every row but one of the subscription's own\<close>

lemma own_changes_touch:
  assumes "same_links db db'" "touches rid (st_rows (db_store db)) (st_rows (db_store db'))" "own_row sid rid db"
    "db_subs db' = db_subs db"
  shows "own_changes sid db db'"
  unfolding own_changes_def
proof (intro impI conjI)
  let ?rs = "st_rows (db_store db)" and ?rs' = "st_rows (db_store db')"
  assume ok: "store_ok (db_store db)"
  then show "store_ok (db_store db')" using same_links_ok [OF assms(1)] by simp
  have l: "map row_link ?rs' = map row_link ?rs" using assms(1) by (simp add: same_links_def links_def)
  have ids: "distinct (map rr_id ?rs')" using ok assms(2) by (simp add: store_ok_def touches_def)
  have len: "length ?rs' = length ?rs" using l by (metis length_map)
  have "list_all2 (\<lambda>row row'. row_link row' = row_link row \<and> (rr_subscription row \<noteq> sid \<longrightarrow> row' = row)) ?rs ?rs'"
  proof (rule list_all2_all_nthI)
    fix i assume i: "i < length ?rs"
    have link: "row_link (?rs' ! i) = row_link (?rs ! i)" using l i len by (metis nth_map)
    moreover have "?rs' ! i = ?rs ! i" if other: "rr_subscription (?rs ! i) \<noteq> sid"
    proof -
      have "rr_id (?rs ! i) \<noteq> rid"
      proof
        assume "rr_id (?rs ! i) = rid"
        moreover have "row_link (?rs ! i) \<in> set (links db)" using i by (simp add: links_def)
        moreover obtain url where "(rid, sid, url) \<in> set (links db)" using assms(3) by (auto simp: own_row_def)
        ultimately have "(rr_subscription (?rs ! i), rr_url (?rs ! i)) = (sid, url)"
          using one_link [OF ok, of rid "(rr_subscription (?rs ! i), rr_url (?rs ! i))" "(sid, url)"] by (simp add: row_link_def)
        then show False using other by simp
      qed
      then have "?rs ! i \<in> set ?rs'" using assms(2) i by (simp add: touches_def)
      moreover have "rr_id (?rs' ! i) = rr_id (?rs ! i)" using link by (simp add: row_link_def)
      ultimately show ?thesis using same_id_same_row [OF ids] i len by (metis nth_mem)
    qed
    ultimately show "row_link (?rs' ! i) = row_link (?rs ! i) \<and> (rr_subscription (?rs ! i) \<noteq> sid \<longrightarrow> ?rs' ! i = ?rs ! i)"
      by blast
  qed (simp add: len)
  then show "others sid db' = others sid db"
    unfolding others_def by (induction rule: list_all2_induct) (auto simp: row_link_def)
  show "\<exists>new. links db' = links db @ new \<and> (\<forall>l \<in> set new. own_link sid l)"
    using assms(1) by (simp add: same_links_def)
qed (simp add: assms(4))

text \<open>A change of some of the subscription's rows in place\<close>

lemma update_rows_others:
  assumes "\<And>row. row_link (f row) = row_link row" "\<And>row. row \<in> set rs \<Longrightarrow> P row \<Longrightarrow> rr_subscription row = sid"
  shows "filter (\<lambda>row. rr_subscription row \<noteq> sid) (update_rows P f rs) = filter (\<lambda>row. rr_subscription row \<noteq> sid) rs"
  using assms(2)
proof (induction rs)
  case (Cons row rs)
  have "rr_subscription (f row) = rr_subscription row" using assms(1) [of row] by (simp add: row_link_def)
  then show ?case using Cons by (auto simp: update_rows_def)
qed (simp add: update_rows_def)

lemma own_changes_rows:
  assumes "\<And>row. row_link (f row) = row_link row" "\<And>row. row \<in> set (st_rows (db_store db)) \<Longrightarrow> P row \<Longrightarrow> rr_subscription row = sid"
  shows "own_changes sid db (change_rows P f db)"
proof -
  have same: "same_links db (change_rows P f db)"
    using update_rows_keep [of P row_link f "st_rows (db_store db)"] assms(1) by (simp add: same_links_def links_def change_rows_def)
  have "others sid (change_rows P f db) = others sid db"
    using update_rows_others [OF assms] by (simp add: others_def change_rows_def)
  moreover have "db_subs (change_rows P f db) = db_subs db" by (simp add: change_rows_def)
  moreover have "links (change_rows P f db) = links db" using same by (simp add: same_links_def)
  ultimately show ?thesis
    unfolding own_changes_def same_links_ok [OF same] by simp
qed

lemma own_changes_subs:
  assumes "db_store db' = db_store db" "filter (\<lambda>s. sub_id s \<noteq> sid) (db_subs db') = filter (\<lambda>s. sub_id s \<noteq> sid) (db_subs db)"
  shows "own_changes sid db db'"
  using assms by (simp add: own_changes_def others_def links_def)

lemma own_changes_checked: "own_changes sid db (mark_checked now sid db)"
  by (rule own_changes_subs) (auto simp: mark_checked_def intro: filter_update_rows_other)

lemma own_changes_append:
  assumes "st_rows (db_store db') = st_rows (db_store db) @ [row]" "db_subs db' = db_subs db" "rr_subscription row = sid"
    "store_ok (db_store db) \<Longrightarrow> store_ok (db_store db')"
  shows "own_changes sid db db'"
  using assms by (auto simp: own_changes_def others_def links_def own_link_def row_link_def)

lemma insert_into_own: "insert_into now sub r db = (row, db') \<Longrightarrow> own_changes (sub_id sub) db db'"
proof -
  assume ins: "insert_into now sub r db = (row, db')"
  obtain row' st where i: "insert_resource now (sub_id sub) (Some sub) r (db_store db) = (row', st)" by fastforce
  have db': "db_store db' = st" "db_subs db' = db_subs db"
    using ins i by (auto simp: insert_into_def insert_resource_automatic_def split: option.splits prod.splits)
  have st: "st = db_store db \<or> st = snd (insert_row now (sub_id sub) (canonical_result r) (db_store db))"
    using insert_resource_store [of now "sub_id sub" "Some sub" r "db_store db"] i by simp
  show ?thesis
  proof (cases "st = db_store db")
    case True
    then show ?thesis using db' by (intro own_changes_subs) simp_all
  next
    case False
    then have "\<exists>x. st_rows st = st_rows (db_store db) @ [x] \<and> rr_subscription x = sub_id sub"
      using st by (auto simp: insert_row_def Let_def split: if_splits)
    then obtain x where x: "st_rows (db_store db') = st_rows (db_store db) @ [x]" "rr_subscription x = sub_id sub"
      using db' by auto
    have "store_ok (db_store db) \<Longrightarrow> store_ok (db_store db')"
      using insert_resource_ok [of "db_store db" now "sub_id sub" "Some sub" r] i db' by simp
    then show ?thesis using own_changes_append [OF x(1) db'(2) x(2)] by blast
  qed
qed

lemma insert_file_own: "insert_file now sub r db = (row, db') \<Longrightarrow> own_changes (sub_id sub) db db'"
proof -
  assume ins: "insert_file now sub r db = (row, db')"
  then have db': "db_store db' = snd (insert_row now (sub_id sub) r (db_store db))" "db_subs db' = db_subs db"
    by (auto simp: insert_file_def split: prod.splits)
  have ok: "store_ok (db_store db) \<Longrightarrow> store_ok (db_store db')"
    using insert_row_ok db' by simp
  consider "db_store db' = db_store db" | x where "st_rows (db_store db') = st_rows (db_store db) @ [x]" "rr_subscription x = sub_id sub"
    using db' by (auto simp: insert_row_def Let_def split: if_splits)
  then show ?thesis
    using own_changes_append [OF _ db'(2) _ ok] db'(2) own_changes_subs by cases auto
qed

section \<open>The operations of a run\<close>

lemma save_telegram_own: "save_telegram_result now sub r db = (out, db') \<Longrightarrow> own_changes (sub_id sub) db db'"
  by (auto simp: save_telegram_result_def dest: insert_into_own split: option.splits prod.splits)

lemma attach_loop_own: "attach_telegram_loop now sub rs p db = (p', db') \<Longrightarrow> own_changes (sub_id sub) db db'"
proof (induction now sub rs p db rule: attach_telegram_loop.induct)
  case (2 now sub r rs p db)
  obtain out db2 where save: "save_telegram_result now sub r db = (out, db2)" by fastforce
  note step = own_changes_trans [OF save_telegram_own [OF save]]
  show ?case
    using 2 save step save_telegram_own [OF save] by (auto simp: Let_def split: if_splits save_outcome.splits)
qed simp

lemma attach_telegram_own: "attach_telegram_results now sub results db = (out, db') \<Longrightarrow> own_changes (sub_id sub) db db'"
  by (auto simp: attach_telegram_results_def Let_def dest!: attach_loop_own intro: own_changes_trans [OF _ own_changes_checked]
      split: prod.splits)

lemma stage_own: "run_telegram_search_stage now telegram sub stage sh db = (out, sh', db') \<Longrightarrow> own_changes (sub_id sub) db db'"
  by (auto simp: run_telegram_search_stage_def dest: attach_telegram_own split: prod.splits)

lemma ed2k_loop_own: "ed2k_loop now sub needed rs p db = (p', db') \<Longrightarrow> own_changes (sub_id sub) db db'"
proof (induction now sub needed rs p db rule: ed2k_loop.induct)
  case (2 now sub needed r rs p db)
  obtain out db2 where save: "insert_file now sub r db = (out, db2)" by fastforce
  note step = own_changes_trans [OF insert_file_own [OF save]]
  show ?case using 2 save step by (auto split: if_splits option.splits)
qed simp

lemma ed2k_own: "search_and_attach_ed2k now sub results db = (p, db') \<Longrightarrow> own_changes (sub_id sub) db db'"
  by (auto simp: search_and_attach_ed2k_def dest!: ed2k_loop_own intro: own_changes_trans [OF _ own_changes_checked]
      split: if_splits prod.splits)

lemma full_search_own: "full_search now telegram sub inc sh db = (out, db') \<Longrightarrow> own_changes (sub_id sub) db db'"
  by (auto simp: full_search_def dest!: stage_own ed2k_own intro: own_changes_trans split: prod.splits if_splits)

lemma telegram_first_own: "search_telegram_first now telegram inc sub db = (out, db') \<Longrightarrow> own_changes (sub_id sub) db db'"
  by (auto simp: search_telegram_first_def dest!: stage_own full_search_own intro: own_changes_trans split: prod.splits if_splits)

lemma mark_failed_own: "own_row sid rid db \<Longrightarrow> store_ok (db_store db) \<Longrightarrow> own_changes sid db (mark_resource_failed_if_pending now rid err db)"
  unfolding mark_resource_failed_if_pending_def
proof (rule own_changes_rows)
  fix row assume own: "own_row sid rid db" "store_ok (db_store db)" "row \<in> set (st_rows (db_store db))"
    and hit: "rr_id row = rid \<and> rr_status row = u ''pending''"
  have "(rid, rr_subscription row, rr_url row) \<in> set (links db)"
    using own(3) hit by (auto simp: links_def row_link_def image_iff)
  then show "rr_subscription row = sid" using own(1) one_link [OF own(2)] by (auto simp: own_row_def)
qed (simp add: row_link_def)

lemma mark_candidate_own:
  assumes "own_row sid rid db" "store_ok (db_store db)"
  shows "own_changes sid db (mark_candidate_failed now rid err db)"
proof -
  have "mark_candidate_failed now rid err db = change_rows (\<lambda>row. rr_id row = rid \<and> rr_status row = u ''pending'')
         (\<lambda>row. row\<lparr>rr_status := u ''delivery_failed_retryable'',
            rr_last_error := (case err of Some e \<Rightarrow> Some e
               | None \<Rightarrow> (case rr_last_error row of Some e \<Rightarrow> Some e | None \<Rightarrow> Some FAILED_TRY_NEXT)),
            rr_updated_at := Some now\<rparr>) db"
    by (simp add: mark_candidate_failed_def change_rows_def)
  moreover have "own_changes sid db \<dots>"
  proof (rule own_changes_rows)
    fix row assume "row \<in> set (st_rows (db_store db))" and hit: "rr_id row = rid \<and> rr_status row = u ''pending''"
    then have "(rid, rr_subscription row, rr_url row) \<in> set (links db)"
      by (auto simp: links_def row_link_def image_iff)
    then show "rr_subscription row = sid" using assms(1) one_link [OF assms(2)] by (auto simp: own_row_def)
  qed (simp add: row_link_def)
  ultimately show ?thesis by simp
qed

lemma stuck_own:
  assumes "sid \<noteq> 0" "store_ok (db_store db)"
  shows "own_changes sid db (retry_stuck_pending_resources now cutoff sid db)"
  unfolding retry_stuck_pending_resources_def Let_def
proof (rule own_changes_rows)
  let ?stuck = "list_stuck_pending_resources cutoff (Some sid) 20 (st_rows (db_store db))"
  fix row assume row: "row \<in> set (st_rows (db_store db))" and "rr_id row \<in> rr_id ` set ?stuck \<and> rr_status row = u ''pending''"
  then obtain x where x: "x \<in> set ?stuck" "rr_id row = rr_id x" by auto
  have "x \<in> set (st_rows (db_store db)) \<and> rr_subscription x = sid"
    using set_take_subset x(1) assms(1) unfolding list_stuck_pending_resources_def by fastforce
  moreover have "distinct (map rr_id (st_rows (db_store db)))" using assms(2) by (simp add: store_ok_def)
  ultimately show "rr_subscription row = sid" using same_id_same_row row x(2) by metis
qed (simp add: row_link_def)

text \<open>A delivery that changes nothing but the row it is given\<close>

locale careful_delivery = delivery_port +
  assumes deliver_touches: "deliver rid db = (out, db') \<Longrightarrow>
    touches rid (st_rows (db_store db)) (st_rows (db_store db')) \<and> db_subs db' = db_subs db"
begin

lemma deliver_own: "deliver rid db = (out, db') \<Longrightarrow> own_row sid rid db \<Longrightarrow> own_changes sid db db'"
  using own_changes_touch deliver_links deliver_touches by blast

lemma deliver_row_kept: "deliver rid db = (out, db') \<Longrightarrow> own_row sid rid db \<Longrightarrow> own_row sid rid db'"
  using deliver_links by (fastforce simp: own_row_def same_links_def)

lemma deliver_created_own:
  assumes "deliver_created_resource now deliver rid db = (ok, db')" "own_row sid rid db" "store_ok (db_store db)"
  shows "own_changes sid db db'"
proof -
  obtain out db1 where del: "deliver rid db = (out, db1)" by fastforce
  note step = deliver_own [OF del assms(2)]
  have fail: "own_changes sid db (mark_resource_failed_if_pending now rid err db1)" for err
    by (rule own_changes_trans [OF step mark_failed_own [OF deliver_row_kept [OF del assms(2)] own_changes_ok [OF step assms(3)]]])
  show ?thesis
    using assms(1) step fail by (auto simp: deliver_created_resource_def del split: sum.splits if_splits)
qed

lemma own_row_later: "own_changes sid db db' \<Longrightarrow> store_ok (db_store db) \<Longrightarrow> own_row s rid db \<Longrightarrow> own_row s rid db'"
  using own_changes_links by (fastforce simp: own_row_def)

lemma deliver_all_own:
  "deliver_created_resources now deliver rs db = (ok, db') \<Longrightarrow> \<forall>row \<in> set rs. own_row sid (rr_id row) db \<Longrightarrow>
     store_ok (db_store db) \<Longrightarrow> own_changes sid db db'"
proof (induction rs arbitrary: db ok)
  case (Cons row rs)
  obtain ok1 db1 where one: "deliver_created_resource now deliver (rr_id row) db = (ok1, db1)" by fastforce
  obtain ok2 where all: "deliver_created_resources now deliver rs db1 = (ok2, db')"
    using Cons.prems(1) one by (auto split: prod.splits)
  have step: "own_changes sid db db1" using deliver_created_own [OF one] Cons.prems(2,3) by simp
  have "own_changes sid db1 db'"
    using Cons.IH [OF all] own_row_later [OF step Cons.prems(3)] own_changes_ok [OF step Cons.prems(3)] Cons.prems(2) by simp
  then show ?case using own_changes_trans step by blast
qed simp

lemma deliver_candidate_own:
  assumes "deliver_fallback_candidate now deliver rid db = (ok, db')" "own_row sid rid db" "store_ok (db_store db)"
  shows "own_changes sid db db'"
proof -
  obtain out db1 where del: "deliver rid db = (out, db1)" by fastforce
  note step = deliver_own [OF del assms(2)]
  have fail: "own_changes sid db (mark_candidate_failed now rid err db1)" for err
    by (rule own_changes_trans [OF step mark_candidate_own [OF deliver_row_kept [OF del assms(2)] own_changes_ok [OF step assms(3)]]])
  show ?thesis
    using assms(1) step fail by (auto simp: deliver_fallback_candidate_def del split: sum.splits bool.splits)
qed

end

lemma first_saved_own: "first_saved now sub ex excluded is matched db = (out, matched', db') \<Longrightarrow> own_changes (sub_id sub) db db'"
proof (induction "is" arbitrary: matched db)
  case (Cons k "is")
  obtain row_opt db2 where ins: "insert_into now sub (matched ! k) db = (row_opt, db2)" by fastforce
  note step = insert_into_own [OF ins]
  show ?case
  proof (cases "r_url (matched ! k) \<in> excluded \<or> fallback_blocked_by_primary_resource sub (matched ! k) ex")
    case True
    then show ?thesis using Cons by simp
  next
    case False
    show ?thesis
    proof (cases row_opt)
      case None
      then show ?thesis using Cons.prems False ins Cons.IH [of _ db2] own_changes_trans [OF step] by auto
    next
      case (Some row)
      then show ?thesis using Cons.prems False ins own_changes_trans [OF step own_changes_checked] by auto
    qed
  qed
qed simp

lemma attach_first_own: "attach_first_from_group now sub ex matched db = (out, matched', db') \<Longrightarrow> own_changes (sub_id sub) db db'"
  unfolding attach_first_from_group_def by (rule first_saved_own)

lemma attach_first_row: "attach_first_from_group now sub ex matched db = (Some (i, row), matched', db') \<Longrightarrow> own_row (sub_id sub) (rr_id row) db'"
  using attach_first_Some by (fastforce simp: own_row_def row_link_def)

context careful_delivery begin

lemma try_group_own:
  "try_group now deliver sub matched attempted created db = (fin, attempted', created', db') \<Longrightarrow> store_ok (db_store db) \<Longrightarrow>
     own_changes (sub_id sub) db db'"
proof (induction "untried attempted matched" arbitrary: matched attempted created db rule: less_induct)
  case less
  obtain choice matched2 db2 where pass: "attach_first_from_group now sub attempted matched db = (choice, matched2, db2)"
    by (metis prod_cases3)
  note step = attach_first_own [OF pass]
  show ?case
  proof (cases choice)
    case None
    then show ?thesis using less.prems(1) pass step by (simp add: try_group.simps [of now deliver sub matched])
  next
    case (Some c)
    obtain i row where c: "c = (i, row)" by fastforce
    note pass = pass [unfolded Some c]
    obtain ok db3 where del: "deliver_fallback_candidate now deliver (rr_id row) db2 = (ok, db3)" by fastforce
    have two: "own_changes (sub_id sub) db db3"
      by (rule own_changes_trans [OF step deliver_candidate_own [OF del attach_first_row [OF pass] own_changes_ok [OF step less.prems(2)]]])
    show ?thesis
    proof (cases ok)
      case True
      then show ?thesis using less.prems(1) pass del two by (auto simp: try_group.simps [of now deliver sub matched] Let_def)
    next
      case False
      let ?url = "r_url (matched2 ! i)"
      have rec: "try_group now deliver sub matched2 (insert ?url attempted) (created @ [(?url, row, False)]) db3
          = (fin, attempted', created', db')"
        using less.prems(1) pass del False by (simp add: try_group.simps [of now deliver sub matched] Let_def)
      from less.hyps [OF attach_first_untried [OF pass] rec own_changes_ok [OF two less.prems(2)]]
      show ?thesis using own_changes_trans [OF two] by blast
    qed
  qed
qed

lemma try_groups_own:
  "try_groups now deliver sub groups attempted created db = (created', db') \<Longrightarrow> store_ok (db_store db) \<Longrightarrow> own_changes (sub_id sub) db db'"
proof (induction groups arbitrary: attempted created db)
  case (Cons g gs)
  obtain fin attempted2 created2 db2 where g: "try_group now deliver sub g attempted created db = (fin, attempted2, created2, db2)"
    by (metis prod_cases4)
  note step = try_group_own [OF g Cons.prems(2)]
  show ?case
    using Cons.prems g step Cons.IH [of attempted2 created2 db2] own_changes_ok [OF step] own_changes_trans [OF step]
    by (cases fin) auto
qed simp

lemma fallback_own:
  "search_fallback_when_needed now fallback (Some deliver) sub db = (out, db') \<Longrightarrow> store_ok (db_store db) \<Longrightarrow>
     own_changes (sub_id sub) db db'"
  by (auto simp: search_fallback_when_needed_def attach_fallback_results_until_delivered_def Let_def
      dest: try_groups_own split: sources.splits prod.splits)

end

section \<open>The rows a search returns\<close>

lemma stage_rows:
  assumes "run_telegram_search_stage now telegram sub stage sh db = ((created, matches, summary), sh', db')"
  shows "links db' = links db @ map row_link created \<and> as_created summary = length created
    \<and> as_available summary = length created + as_duplicates summary \<and> length matches = as_available summary"
proof -
  obtain results sh1 where h: "search_telegram_history telegram stage sh = (results, sh1)" by fastforce
  obtain p s db1 where a: "attach_telegram_results now sub results db = ((p, s), db1)" by (metis prod.exhaust)
  obtain q db2 raw where l: "attach_telegram_loop now sub raw no_progress db = (q, db2)" "p = q" "db1 = mark_checked now (sub_id sub) db2"
    "as_created s = length (pg_created q)" "as_available s = length (pg_created q) + pg_duplicates q" "as_duplicates s = pg_duplicates q"
    using a by (auto simp: attach_telegram_results_def Let_def split: prod.splits)
  obtain new where "loop_ok sub raw new no_progress db q db2" using attach_loop_ok [OF l(1)] by blast
  then have "links db1 = links db @ map row_link (map snd (pg_created q))" "length (pg_matched q) = length (pg_created q) + pg_duplicates q"
    using l by (simp_all add: loop_ok_def no_progress_def)
  moreover have "created = map snd (pg_created q)" "matches = pg_matched q" "summary = s" "db' = db1"
    using assms h a l(2) by (auto simp: run_telegram_search_stage_def)
  ultimately show ?thesis using l by simp
qed

lemma full_rows:
  assumes "full_search now telegram sub inc sh db = ((created, matches, summary), db')"
  shows "links db' = links db @ map row_link created"
proof -
  obtain c m s sh1 db1 where st: "run_telegram_search_stage now telegram sub (Full inc) sh db = ((c, m, s), sh1, db1)"
    by (metis prod_cases3)
  let ?results = "fst (search_telegram_history telegram For_Ed2k fresh_state)"
  obtain p db2 where e: "search_and_attach_ed2k now sub ?results db1 = (p, db2)" by fastforce
  have "links db2 = links db1 @ map row_link (map snd (ed_created p))"
    using ed2k_saves_needed [OF e] by auto
  then show ?thesis
    using stage_rows [OF st] assms st e by (auto simp: full_search_def split: if_splits)
qed

text \<open>The rows returned are the last of the table; those saved by a fast stage that was not the last are before them.\<close>

lemma telegram_first_rows:
  assumes "search_telegram_first now telegram inc sub db = ((created, matches, summary), db')"
  shows "\<exists>before. links db' = links db @ before @ map row_link created"
proof (cases inc)
  case True
  then show ?thesis using assms full_rows by (fastforce simp: search_telegram_first_def)
next
  case False
  obtain c m s sh1 db1 where st: "run_telegram_search_stage now telegram sub Fast fresh_state db = ((c, m, s), sh1, db1)"
    by (metis prod_cases3)
  consider "created = c" "db' = db1" | sh where "full_search now telegram sub False sh db1 = ((created, matches, summary), db')"
    using assms st False by (auto simp: search_telegram_first_def split: if_splits)
  then show ?thesis
  proof cases
    case 1
    then show ?thesis using stage_rows [OF st] by (intro exI [of _ "[]"]) simp
  next
    case 2
    from full_rows [OF this] show ?thesis using stage_rows [OF st] by (intro exI [of _ "map row_link c"]) simp
  qed
qed

lemma links_own_row:
  assumes "own_changes sid db db'" "store_ok (db_store db)" "links db' = links db @ before @ map row_link created" "row \<in> set created"
  shows "own_row sid (rr_id row) db'"
proof -
  have "own_link sid (row_link row)"
    using assms by (auto simp: own_changes_def)
  then have "row_link row = (rr_id row, sid, rr_url row)" by (simp add: own_link_def row_link_def)
  then show ?thesis using assms(3,4) by (force simp: own_row_def)
qed

section \<open>A run\<close>

context careful_delivery begin

lemma search_and_deliver_own:
  assumes "search_and_deliver w t inc sub db = (out, db')" "o_deliver w = deliver" "sub_id sub \<noteq> 0" "store_ok (db_store db)"
  shows "own_changes (sub_id sub) db db'"
proof -
  define db0 where "db0 = retry_stuck_pending_resources (t_now t) (t_cutoff t) (sub_id sub) db"
  have s0: "own_changes (sub_id sub) db db0" unfolding db0_def by (rule stuck_own [OF assms(3,4)])
  note ok0 = own_changes_ok [OF s0 assms(4)]
  obtain created matches summary db1 where tg:
    "search_telegram_first (t_now t) (o_telegram w) inc sub db0 = ((created, matches, summary), db1)" by (metis prod.exhaust)
  have s1: "own_changes (sub_id sub) db0 db1" by (rule telegram_first_own [OF tg])
  note ok1 = own_changes_ok [OF s1 ok0]
  obtain before where "links db1 = links db0 @ before @ map row_link created" using telegram_first_rows [OF tg] by blast
  then have own: "\<forall>row \<in> set created. own_row (sub_id sub) (rr_id row) db1" using links_own_row [OF s1 ok0] by blast
  obtain delivered db2 where del: "(if created = [] then (False, db1) else deliver_created_resources (t_now t) deliver created db1) = (delivered, db2)"
    by fastforce
  have s2: "own_changes (sub_id sub) db1 db2"
    using del deliver_all_own [OF _ own ok1] by (auto split: if_splits)
  have s3: "own_changes (sub_id sub) db2 db3" if "search_fallback_when_needed now fb (Some deliver) sub db2 = (x, db3)" for now fb x db3
    by (rule fallback_own [OF that own_changes_ok [OF s2 ok1]])
  have "own_changes (sub_id sub) db2 db'"
    using assms(1) del tg s3 by (auto simp: search_and_deliver_def db0_def [symmetric] assms(2) split: prod.splits if_splits)
  then show ?thesis using s0 s1 s2 own_changes_trans by blast
qed

end

lemma mark_completed_own: "own_changes (sub_id sub) db (db\<lparr>db_subs := snd (mark_completed_subscription now sub (db_subs db))\<rparr>)"
proof (rule own_changes_subs)
  show "filter (\<lambda>s. sub_id s \<noteq> sub_id sub) (db_subs (db\<lparr>db_subs := snd (mark_completed_subscription now sub (db_subs db))\<rparr>)) =
      filter (\<lambda>s. sub_id s \<noteq> sub_id sub) (db_subs db)"
    using filter_update_rows_other [of "\<lambda>row. sub_id row = sub_id sub \<and> sub_status row \<noteq> COMPLETED" "\<lambda>s. sub_id s \<noteq> sub_id sub" "complete_row now"]
    by (simp add: mark_completed_subscription_def Let_def update_rows_def complete_row_def)
qed simp

lemma enrich_own:
  assumes "enrich_subscription_with_library conf clock detail ans sub subs memo = (sub', subs', memo')"
  shows "sub_id sub' = sub_id sub \<and> filter (\<lambda>s. sub_id s \<noteq> sub_id sub) subs' = filter (\<lambda>s. sub_id s \<noteq> sub_id sub) subs"
proof -
  obtain s1 where one: "enrich_subscription_with_tmdb clock detail sub subs memo = (s1, subs', memo')"
    and s: "sub' = (if conf then apply_library ans s1 else s1)"
    using assms by (auto simp: enrich_subscription_with_library_def split: prod.splits)
  have "sub_id s1 = sub_id sub \<and> filter (\<lambda>s. sub_id s \<noteq> sub_id sub) subs' = filter (\<lambda>s. sub_id s \<noteq> sub_id sub) subs"
    using one by (auto simp: enrich_subscription_with_tmdb_def Let_def write_tmdb_def filter_update_rows_other
        split: if_splits option.splits)
  moreover have "sub_id (apply_library ans x) = sub_id x" for x
    by (simp add: apply_library_def enrich_tv_subscription_with_library_def Let_def split: library_answer.split)
  ultimately show ?thesis using s by simp
qed

lemma get_subscription_id: "get_subscription sid subs = Some sub \<Longrightarrow> sub_id sub = sid \<and> sub \<in> set subs"
  by (auto simp: get_subscription_def find_Some_iff)

context careful_delivery begin

theorem search_own_rows:
  assumes "search_and_attach_resources w t sid inc checked (db, memo) = (created, db', memo')" "o_deliver w = deliver"
    "sid \<noteq> 0" "store_ok (db_store db)"
  shows "own_changes sid db db'"
proof (cases "get_subscription sid (db_subs db)")
  case None
  then show ?thesis using assms(1) by (simp add: search_and_attach_resources_def)
next
  case (Some sub0)
  show ?thesis
  proof (cases "sub_status sub0 = u ''active''")
    case False
    then show ?thesis using assms(1) Some by (simp add: search_and_attach_resources_def)
  next
    case True
    obtain sub subs memo2 where e:
      "enrich_subscription_with_library (o_configured w) (t_clock t) (o_tmdb w) (o_library w) sub0 (db_subs db) memo = (sub, subs, memo2)"
      by (metis prod_cases3)
    let ?db1 = "db\<lparr>db_subs := subs\<rparr>"
    have id: "sub_id sub = sid" using enrich_own [OF e] get_subscription_id [OF Some] by simp
    have s1: "own_changes sid db ?db1"
      by (rule own_changes_subs) (use enrich_own [OF e] get_subscription_id [OF Some] in auto)
    obtain out db2 where r: "search_enriched w t inc sub ?db1 = (out, db2)" by fastforce
    have "own_changes sid ?db1 db2"
      using r search_and_deliver_own [of w t inc sub ?db1 out db2] mark_completed_own [of sub ?db1 "t_now t"] assms(2-4) id
      by (auto simp: search_enriched_def split: if_splits)
    then have "own_changes sid db db2" using own_changes_trans s1 by blast
    then show ?thesis
      using assms(1) Some True e r own_changes_trans [OF _ own_changes_checked]
      by (auto simp: search_and_attach_resources_def split: if_splits)
  qed
qed

end

text \<open>The delivery service changes only the row it is given.\<close>

lemma deliver_resource_touches: "touches rid rs (snd (deliver_resource w now rid rs))"
proof -
  have "touches (rr_id row) rs (snd (settle now row v rs))" for row v
    by (rule settle_touches) (rule prod.collapse [symmetric])
  then have "touches (rr_id row) rs (snd (deliver_resource_locked w now row rs))" for row
    using touches_status [of "rr_id row" rs now]
    by (auto simp: deliver_resource_locked_def split: verdict_before.splits prod.splits)
  then show ?thesis
    using load_resource_found by (fastforce simp: deliver_resource_def touches_refl split: option.splits)
qed

interpretation service: careful_delivery "deliver_via w now" for w now
proof
  fix rid db out db'
  assume "deliver_via w now rid db = (out, db')"
  then show "touches rid (st_rows (db_store db)) (st_rows (db_store db')) \<and> db_subs db' = db_subs db"
    using deliver_resource_touches [of rid "st_rows (db_store db)" w now] by (auto simp: deliver_via_def split: prod.splits)
qed

section \<open>When a run searches\<close>

text \<open>A run whose subscription is complete, or misses nothing, asks neither Telegram nor the other sources and delivers nothing.\<close>

definition same_library :: "outside \<Rightarrow> outside \<Rightarrow> bool" where
  "same_library w w' \<longleftrightarrow> o_configured w = o_configured w' \<and> o_tmdb w = o_tmdb w' \<and> o_library w = o_library w'"

lemma search_not_needed:
  assumes "enrich_subscription_with_library (o_configured w) (t_clock t) (o_tmdb w) (o_library w) sub0 (db_subs db) memo = (sub, subs, memo')"
    "get_subscription sid (db_subs db) = Some sub0" "subscription_should_hide sub \<or> \<not> subscription_needs_resource_search sub"
    "same_library w w'"
  shows "fst (search_and_attach_resources w t sid inc checked (db, memo)) = []"
    "search_and_attach_resources w' t sid inc checked (db, memo) = search_and_attach_resources w t sid inc checked (db, memo)"
  using assms by (auto simp: search_and_attach_resources_def search_enriched_def same_library_def)

lemma missing_needs_search: "missing_episode_keys sub \<noteq> {} \<Longrightarrow> subscription_needs_resource_search sub"
  by (auto simp: subscription_needs_resource_search_def missing_episode_keys_def split: if_splits)

text \<open>The other sources are left out only where all that was found is known and nothing is known to be missing.\<close>

lemma full_summary:
  assumes "full_search now telegram sub inc sh db = ((created, matches, summary), db')" "created = []"
  shows "as_created summary = 0"
proof -
  obtain c m s sh1 db1 where st: "run_telegram_search_stage now telegram sub (Full inc) sh db = ((c, m, s), sh1, db1)"
    by (metis prod_cases3)
  obtain p db2 where e: "search_and_attach_ed2k now sub (fst (search_telegram_history telegram For_Ed2k fresh_state)) db1 = (p, db2)" by fastforce
  show ?thesis using stage_rows [OF st] assms st e by (auto simp: full_search_def split: if_splits)
qed

lemma first_summary:
  assumes "search_telegram_first now telegram inc sub db = (([], matches, summary), db')"
  shows "as_created summary = 0"
proof -
  obtain c m s sh1 db1 where st: "run_telegram_search_stage now telegram sub Fast fresh_state db = ((c, m, s), sh1, db1)"
    by (metis prod_cases3)
  show ?thesis
    using assms st stage_rows [OF st] by (auto simp: search_telegram_first_def split: if_splits dest: full_summary)
qed

lemma fallback_left_out:
  assumes "search_telegram_first now telegram inc sub db = (([], matches, summary), db')" "telegram_should_skip_fallback summary sub"
  shows "as_save_failed summary = 0 \<and> as_duplicates summary = as_available summary \<and> 0 < as_available summary \<and> missing_episode_keys sub = {}"
  using assms first_summary [OF assms(1)]
  by (auto simp: telegram_should_skip_fallback_def subscription_has_missing_episodes_def missing_episode_keys_def split: if_splits)

section \<open>What the fast stage saved\<close>

text \<open>
  Where episodes are missing after a fast stage that saved rows, the search goes on, and the rows of the
  fast stage are in the table before those that are returned: they are not delivered by this run.
\<close>

lemma fast_rows_not_returned:
  assumes "run_telegram_search_stage now telegram sub Fast fresh_state db = ((fast, m, s), sh, db1)" "fast \<noteq> []"
    "missing_episode_keys sub \<noteq> {}" "search_telegram_first now telegram False sub db = ((created, matches, summary), db')"
    "store_ok (db_store db)"
  shows "set (map rr_id fast) \<inter> set (map rr_id created) = {}"
    "set (map row_link fast) \<subseteq> set (links db')"
proof -
  have "subscription_has_missing_episodes sub"
    using assms(3) by (auto simp: subscription_has_missing_episodes_def missing_episode_keys_def split: if_splits)
  then obtain sh' where full: "full_search now telegram sub False sh' db1 = ((created, matches, summary), db')"
    using assms(1,2,4) by (auto simp: search_telegram_first_def)
  have l: "links db' = links db @ map row_link fast @ map row_link created"
    using full_rows [OF full] stage_rows [OF assms(1)] by simp
  show "set (map row_link fast) \<subseteq> set (links db')" unfolding l by auto
  have "store_ok (db_store db')"
    using telegram_first_own [OF assms(4)] assms(5) own_changes_ok by blast
  then have "distinct (map fst (links db'))" by (simp add: store_ok_links)
  then have "set (map fst (map row_link fast)) \<inter> set (map fst (map row_link created)) = {}"
    unfolding l by simp
  moreover have "map fst (map row_link xs) = map rr_id xs" for xs by (simp add: row_link_def o_def)
  ultimately show "set (map rr_id fast) \<inter> set (map rr_id created) = {}" by simp
qed

text \<open>A row found by the search of Telegram stays pending until it is delivered or marked.\<close>

lemma in_changed_rows: "row \<in> set (st_rows (db_store (change_rows P f db))) \<Longrightarrow> \<exists>x. row = (if P x then f x else x)"
  by (fastforce simp: change_rows_def update_rows_def)

lemma delivery_ends_pending:
  assumes "deliver_created_resource now deliver rid db = (ok, db')" "\<not> ok"
  shows "\<forall>row \<in> set (st_rows (db_store db')). rr_id row = rid \<longrightarrow> rr_status row \<noteq> u ''pending''"
proof -
  have ne: "u ''failed'' \<noteq> u ''pending''" by (simp add: u_def)
  have marked: "\<forall>row \<in> set (st_rows (db_store (mark_resource_failed_if_pending now rid err db2))). rr_id row = rid \<longrightarrow> rr_status row \<noteq> u ''pending''" for err db2
  proof (intro ballI impI)
    fix row assume "row \<in> set (st_rows (db_store (mark_resource_failed_if_pending now rid err db2)))" and id: "rr_id row = rid"
    from in_changed_rows [OF this(1) [unfolded mark_resource_failed_if_pending_def]] show "rr_status row \<noteq> u ''pending''"
    proof
      fix x assume "row = (if rr_id x = rid \<and> rr_status x = u ''pending''
        then x\<lparr>rr_status := u ''failed'', rr_last_error := (case rr_last_error x of Some e \<Rightarrow> Some e | None \<Rightarrow> Some (take 500 err)), rr_updated_at := Some now\<rparr>
        else x)"
      then show ?thesis using id ne by (simp split: if_splits)
    qed
  qed
  obtain out db1 where "deliver rid db = (out, db1)" by fastforce
  then obtain err where "db' = mark_resource_failed_if_pending now rid err db1"
    using assms by (cases out) (auto simp: deliver_created_resource_def split: if_splits)
  then show ?thesis using marked by blast
qed

end
