(* ===== verification/Subscription_Crud.thy ===== *)
theory Subscription_Crud
  imports Library_Service Search_Selection Jobs
begin

text \<open>
  \<open>app/services/subscription/crud/\<close>: the list of subscriptions with its cache, finding a duplicate, creating,
  changing and deleting.  The rows of the table are in the order of their ids, which is the order in
  which they were created; where a query leaves the order open, the first row in this order is taken.
  Quality rules are kept as they came, since they are normalised again where they are read; columns that
  only the pages and the delivery read (poster, overview, mode and path of the delivery) are left out.
  Shown: ids and the index of TMDB ids stay unique; deleting takes the resources along and leaves those
  of others; what was created is found again; a completed copy makes a second creation fail; the list
  can be twelve seconds old.
\<close>

section \<open>The state\<close>

definition SUBSCRIPTION_LIST_CACHE_TTL :: time where
  "SUBSCRIPTION_LIST_CACHE_TTL = 12"

record crud_state =
  cr_db :: database
  cr_next :: int \<comment> \<open>the next id of the table\<close>
  cr_lists :: "bool \<Rightarrow> (time \<times> subscription list) option"

definition cr_subs :: "crud_state \<Rightarrow> subscription list" where
  "cr_subs cs = db_subs (cr_db cs)"

definition put_subs :: "subscription list \<Rightarrow> crud_state \<Rightarrow> crud_state" where
  "put_subs subs cs = cs\<lparr>cr_db := (cr_db cs)\<lparr>db_subs := subs\<rparr>\<rparr>"

definition invalidate_subscription_list_cache :: "crud_state \<Rightarrow> crud_state" where
  "invalidate_subscription_list_cache cs = cs\<lparr>cr_lists := (\<lambda>_. None)\<rparr>"

section \<open>Lists\<close>

text \<open>Newest first; the column \<open>health\<close> that is added is the subject of \<open>Library_Health\<close>.\<close>

definition visible :: "bool \<Rightarrow> subscription list \<Rightarrow> subscription list" where
  "visible include_completed subs = filter (\<lambda>s. include_completed \<or> \<not> subscription_should_hide s) (rev subs)"

definition list_subscriptions :: "time \<Rightarrow> bool \<Rightarrow> crud_state \<Rightarrow> subscription list \<times> crud_state" where
  "list_subscriptions now include_completed cs =
     (case cr_lists cs include_completed of
        Some (expires, payload) \<Rightarrow>
          if now < expires then (payload, cs)
          else (visible include_completed (cr_subs cs),
                cs\<lparr>cr_lists := (cr_lists cs)(include_completed := Some (now + SUBSCRIPTION_LIST_CACHE_TTL, visible include_completed (cr_subs cs)))\<rparr>)
      | None \<Rightarrow>
          (visible include_completed (cr_subs cs),
           cs\<lparr>cr_lists := (cr_lists cs)(include_completed := Some (now + SUBSCRIPTION_LIST_CACHE_TTL, visible include_completed (cr_subs cs)))\<rparr>))"

definition active_subscriptions :: "time \<Rightarrow> crud_state \<Rightarrow> subscription list \<times> crud_state" where
  "active_subscriptions now cs =
     (case list_subscriptions now False cs of (subs, cs') \<Rightarrow> (filter (\<lambda>s. sub_status s = u ''active'') subs, cs'))"

section \<open>Duplicates\<close>

record payload =
  pl_title :: pystr
  pl_media :: media
  pl_tmdb :: "int option"
  pl_year :: "int option"
  pl_keywords :: "pystr list"
  pl_rules :: pyval
  pl_total :: int

fun first_titled :: "pystr \<Rightarrow> pystr \<Rightarrow> subscription list \<Rightarrow> subscription list \<Rightarrow> subscription option \<times> subscription list" where
  "first_titled now title [] subs = (None, subs)"
| "first_titled now title (item # items) subs =
     (if subscription_should_hide item
      then first_titled now title items (snd (mark_completed_subscription now item subs))
      else if compact_match_text (sub_title item) = title then (Some item, subs)
      else first_titled now title items subs)"

definition visible_duplicate_or_none :: "pystr \<Rightarrow> subscription \<Rightarrow> subscription list \<Rightarrow> subscription option \<times> subscription list" where
  "visible_duplicate_or_none now item subs =
     (if subscription_should_hide item then (None, snd (mark_completed_subscription now item subs)) else (Some item, subs))"

definition same_tmdb :: "media \<Rightarrow> int \<Rightarrow> subscription \<Rightarrow> bool" where
  "same_tmdb m i s \<longleftrightarrow> media_type s = m \<and> tmdb_id s = Some i"

definition duplicate_subscription :: "pystr \<Rightarrow> payload \<Rightarrow> subscription list \<Rightarrow> subscription option \<times> subscription list" where
  "duplicate_subscription now p subs =
     (case (case pl_tmdb p of None \<Rightarrow> None | Some i \<Rightarrow> List.find (same_tmdb (pl_media p) i) subs) of
        Some item \<Rightarrow> visible_duplicate_or_none now item subs
      | None \<Rightarrow>
          (let title = compact_match_text (pl_title p) in
           first_titled now title (if title = [] then [] else filter (\<lambda>s. media_type s = pl_media p \<and> tmdb_id s = None) subs) subs))"

section \<open>Creating\<close>

text \<open>The unique index \<open>idx_subscriptions_tmdb_unique\<close>\<close>

definition index_entry :: "subscription \<Rightarrow> (media \<times> int) option" where
  "index_entry s = (case tmdb_id s of None \<Rightarrow> None | Some i \<Rightarrow> if sub_status s = COMPLETED then None else Some (media_type s, i))"

definition clashes :: "subscription \<Rightarrow> subscription list \<Rightarrow> bool" where
  "clashes s subs \<longleftrightarrow> index_entry s \<noteq> None \<and> list_ex (\<lambda>row. index_entry row = index_entry s) subs"

definition new_subscription :: "int \<Rightarrow> payload \<Rightarrow> subscription" where
  "new_subscription sid p =
     blank_subscription\<lparr>sub_id := sid, sub_title := pl_title p, media_type := pl_media p, tmdb_id := pl_tmdb p,
       release_year := (case pl_year p of
          Some y \<Rightarrow> if y \<noteq> 0 then Some y else subscription_release_year (blank_subscription\<lparr>sub_title := pl_title p\<rparr>)
        | None \<Rightarrow> subscription_release_year (blank_subscription\<lparr>sub_title := pl_title p\<rparr>)),
       sub_keywords := (if pl_keywords p = [] then [pl_title p] else pl_keywords p), quality_rules := pl_rules p,
       tmdb_total_count := pl_total p\<rparr>"

text \<open>The id of the new row, or of the duplicate found after the index refused it, or the error of the index\<close>

definition insert_subscription_payload :: "pystr \<Rightarrow> payload \<Rightarrow> crud_state \<Rightarrow> int option \<times> crud_state" where
  "insert_subscription_payload now p cs =
     (let row = new_subscription (cr_next cs) p in
      if clashes row (cr_subs cs) then
        (case duplicate_subscription now p (cr_subs cs) of
           (Some item, subs) \<Rightarrow> (Some (sub_id item), put_subs subs cs)
         | (None, subs) \<Rightarrow> (None, put_subs subs cs))
      else (Some (cr_next cs), (put_subs (cr_subs cs @ [row]) cs)\<lparr>cr_next := cr_next cs + 1\<rparr>))"

definition sync_subscription_list_with_emby ::
    "pystr \<Rightarrow> bool \<Rightarrow> library_answer \<Rightarrow> (int \<Rightarrow> pyval) \<Rightarrow> subscription list \<Rightarrow> subscription list \<Rightarrow> bool \<times> sync_report \<times> subscription list" where
  "sync_subscription_list_with_emby now configured answer tmdb given subs =
     (let nothing = \<lparr>sy_updated = 0, sy_matched = 0, sy_completed = 0\<rparr> in
      if given = [] \<or> \<not> configured then (True, nothing, subs)
      else case answer of
        Library lib \<Rightarrow> (case sync_subscriptions_with_emby_snapshot now (lib_snap lib) tmdb given subs of (rep, subs') \<Rightarrow> (True, rep, subs'))
      | _ \<Rightarrow> (False, nothing, subs))"

definition get_row :: "int \<Rightarrow> subscription list \<Rightarrow> subscription option" where
  "get_row sid subs = List.find (\<lambda>s. sub_id s = sid) subs"

definition sync_created :: "pystr \<Rightarrow> bool \<Rightarrow> library_answer \<Rightarrow> (int \<Rightarrow> pyval) \<Rightarrow> int \<Rightarrow> crud_state \<Rightarrow> crud_state" where
  "sync_created now configured answer tmdb sid cs =
     (case get_row sid (cr_subs cs) of
        None \<Rightarrow> cs
      | Some s \<Rightarrow> (case sync_subscription_list_with_emby now configured answer tmdb [s] (cr_subs cs) of (_, _, subs) \<Rightarrow> put_subs subs cs))"

datatype create_outcome = Existing subscription | Created int | Integrity_Error

text \<open>The search is scheduled at the time \<open>now\<close>, as a text and as a number.\<close>

definition create_subscription ::
    "(pystr \<Rightarrow> time option) \<Rightarrow> pystr \<Rightarrow> time \<Rightarrow> bool \<Rightarrow> library_answer \<Rightarrow> (int \<Rightarrow> pyval) \<Rightarrow> payload
     \<Rightarrow> crud_state \<times> job_table \<Rightarrow> create_outcome \<times> crud_state \<times> job_table" where
  "create_subscription stamp now clock configured answer tmdb p = (\<lambda>(cs, jobs).
     (case duplicate_subscription now p (cr_subs cs) of
        (Some item, subs) \<Rightarrow> (Existing item, put_subs subs cs, jobs)
      | (None, subs) \<Rightarrow>
          (case insert_subscription_payload now p (put_subs subs cs) of
             (None, cs1) \<Rightarrow> (Integrity_Error, cs1, jobs)
           | (Some sid, cs1) \<Rightarrow>
               (Created sid, invalidate_subscription_list_cache (sync_created now configured answer tmdb sid cs1),
                snd (schedule_subscription_search stamp now clock sid jobs)))))"

section \<open>Changing and deleting\<close>

text \<open>A field that is not sent is \<^const>\<open>None\<close>; fields sent as null are not modelled.\<close>

record changes =
  ch_title :: "pystr option"
  ch_keywords :: "pystr list option"
  ch_rules :: "pyval option"
  ch_year :: "int option"
  ch_status :: "pystr option"

definition no_changes :: "changes \<Rightarrow> bool" where
  "no_changes c \<longleftrightarrow> ch_title c = None \<and> ch_keywords c = None \<and> ch_rules c = None \<and> ch_year c = None \<and> ch_status c = None"

definition change_row :: "changes \<Rightarrow> subscription \<Rightarrow> subscription" where
  "change_row c s =
     s\<lparr>sub_title := (case ch_title c of None \<Rightarrow> sub_title s | Some t \<Rightarrow> t),
       sub_keywords := (case ch_keywords c of None \<Rightarrow> sub_keywords s | Some ks \<Rightarrow> ks),
       quality_rules := (case ch_rules c of None \<Rightarrow> quality_rules s | Some r \<Rightarrow> r),
       release_year := (case ch_year c of None \<Rightarrow> release_year s | Some y \<Rightarrow> Some y),
       sub_status := (case ch_status c of None \<Rightarrow> sub_status s | Some st \<Rightarrow> st),
       completed_at := (if ch_status c \<in> {Some (u ''active''), Some (u ''paused'')} then None else completed_at s)\<rparr>"

text \<open>The resources go with the rows (\<open>ON DELETE CASCADE\<close>).\<close>

definition delete_rows :: "(int \<Rightarrow> bool) \<Rightarrow> crud_state \<Rightarrow> crud_state" where
  "delete_rows P cs =
     cs\<lparr>cr_db := (cr_db cs)\<lparr>db_subs := filter (\<lambda>s. \<not> P (sub_id s)) (db_subs (cr_db cs)),
          db_store := (db_store (cr_db cs))\<lparr>st_rows := filter (\<lambda>row. \<not> (P (rr_subscription row) \<and> rr_subscription row \<in> sub_id ` set (db_subs (cr_db cs))))
             (st_rows (db_store (cr_db cs)))\<rparr>\<rparr>\<rparr>"

definition delete_subscription :: "int \<Rightarrow> crud_state \<Rightarrow> crud_state" where
  "delete_subscription sid cs = invalidate_subscription_list_cache (delete_rows (\<lambda>i. i = sid) cs)"

definition delete_subscriptions :: "int list \<Rightarrow> crud_state \<Rightarrow> nat \<times> crud_state" where
  "delete_subscriptions ids0 cs =
     (let ids = filter (\<lambda>i. i \<noteq> 0) ids0 in
      if ids = [] then (0, cs)
      else (length (filter (\<lambda>s. sub_id s \<in> set ids) (cr_subs cs)), invalidate_subscription_list_cache (delete_rows (\<lambda>i. i \<in> set ids) cs)))"

definition title_hit :: "pystr \<Rightarrow> subscription \<Rightarrow> bool" where
  "title_hit needle s =
     (let t = compact_match_text (sub_title s) in t = needle \<or> contains needle t \<or> contains t needle)"

definition delete_subscription_by_title :: "time \<Rightarrow> pystr \<Rightarrow> crud_state \<Rightarrow> nat \<times> crud_state" where
  "delete_subscription_by_title now title cs =
     (let needle = compact_match_text title in
      if needle = [] then (0, cs)
      else case list_subscriptions now False cs of
        (items, cs') \<Rightarrow> delete_subscriptions (map sub_id (filter (title_hit needle) items)) cs')"

datatype update_outcome = Not_Found | Deleted | Unchanged subscription | Updated "subscription option" | Refused

definition update_subscription :: "int \<Rightarrow> changes \<Rightarrow> crud_state \<Rightarrow> update_outcome \<times> crud_state" where
  "update_subscription sid c cs =
     (case get_row sid (cr_subs cs) of
        None \<Rightarrow> (Not_Found, cs)
      | Some found \<Rightarrow>
          if ch_status c = Some COMPLETED then (Deleted, delete_subscription sid cs)
          else if no_changes c then (Unchanged found, cs)
          else if clashes (change_row c found) (filter (\<lambda>s. sub_id s \<noteq> sid) (cr_subs cs)) then (Refused, cs)
          else (let subs = update_rows (\<lambda>s. sub_id s = sid) (change_row c) (cr_subs cs) in
                (Updated (get_row sid subs), invalidate_subscription_list_cache (put_subs subs cs))))"

section \<open>The table stays unique\<close>

definition index_unique :: "subscription list \<Rightarrow> bool" where
  "index_unique subs \<longleftrightarrow>
     (\<forall>s \<in> set subs. \<forall>s' \<in> set subs. index_entry s \<noteq> None \<longrightarrow> index_entry s' = index_entry s \<longrightarrow> sub_id s' = sub_id s)"

definition subs_ok :: "int \<Rightarrow> subscription list \<Rightarrow> bool" where
  "subs_ok next_id subs \<longleftrightarrow> distinct (map sub_id subs) \<and> (\<forall>s \<in> set subs. sub_id s < next_id) \<and> index_unique subs"

definition crud_ok :: "crud_state \<Rightarrow> bool" where
  "crud_ok cs \<longleftrightarrow> subs_ok (cr_next cs) (cr_subs cs) \<and> store_ok (db_store (cr_db cs))
     \<and> (\<forall>row \<in> set (st_rows (db_store (cr_db cs))). rr_subscription row \<in> sub_id ` set (cr_subs cs))"

text \<open>Rows changed in place that leave the index or keep their entry\<close>

definition settled :: "subscription \<Rightarrow> subscription \<Rightarrow> bool" where
  "settled s s' \<longleftrightarrow> sub_id s' = sub_id s \<and> index_entry s' \<in> {None, index_entry s}"

lemma settled_row: "list_all2 settled subs subs' \<Longrightarrow> s' \<in> set subs' \<Longrightarrow> \<exists>s \<in> set subs. settled s s'"
  by (metis in_set_conv_nth list_all2_conv_all_nth)

lemma settled_ids: "list_all2 settled subs subs' \<Longrightarrow> map sub_id subs' = map sub_id subs"
  by (induction rule: list_all2_induct) (auto simp: settled_def)

lemma same_ids: "map sub_id subs' = map sub_id subs \<Longrightarrow> sub_id ` set subs' = sub_id ` set subs"
  by (metis list.set_map)

lemma ids_below: "map sub_id subs' = map sub_id subs \<Longrightarrow> \<forall>s \<in> set subs. sub_id s < n \<Longrightarrow> \<forall>s \<in> set subs'. sub_id s < n"
  using same_ids [of subs' subs] by (metis (no_types, lifting) image_iff)

lemma settled_ok:
  assumes l: "list_all2 settled subs subs'" and ok: "subs_ok n subs"
  shows "subs_ok n subs'"
proof -
  have "index_unique subs'"
    unfolding index_unique_def
  proof (intro ballI impI)
    fix s' t' assume s': "s' \<in> set subs'" and t': "t' \<in> set subs'" and e: "index_entry s' \<noteq> None" "index_entry t' = index_entry s'"
    obtain s t where "s \<in> set subs" "t \<in> set subs" "settled s s'" "settled t t'"
      using settled_row [OF l] s' t' by blast
    then show "sub_id t' = sub_id s'" using e ok unfolding settled_def subs_ok_def index_unique_def by (metis empty_iff insert_iff)
  qed
  then show ?thesis using settled_ids [OF l] ids_below [OF settled_ids [OF l]] ok by (simp add: subs_ok_def)
qed

lemma settled_refl: "list_all2 settled subs subs"
  by (simp add: list_all2_same settled_def)

lemma settled_trans:
  assumes "list_all2 settled a b" "list_all2 settled b c"
  shows "list_all2 settled a c"
  by (rule list_all2_trans [rotated, OF assms]) (auto simp: settled_def)

lemma completed_entry [simp]: "index_entry (complete_row now s) = None" "sub_id (complete_row now s) = sub_id s"
  by (simp_all add: index_entry_def split: option.split) (simp add: complete_row_def)

lemma settled_completed: "list_all2 settled subs (snd (mark_completed_subscription now item subs))"
  by (auto simp: mark_completed_subscription_def Let_def list_all2_map2 list_all2_same settled_def)

lemma first_titled_settled: "first_titled now title items subs = (found, subs') \<Longrightarrow> list_all2 settled subs subs'"
proof (induction items arbitrary: subs)
  case (Cons item items)
  show ?case
  proof (cases "subscription_should_hide item")
    case True
    then have "list_all2 settled (snd (mark_completed_subscription now item subs)) subs'" using Cons by simp
    then show ?thesis by (rule settled_trans [OF settled_completed])
  qed (use Cons settled_refl in \<open>auto split: if_splits\<close>)
qed (simp add: settled_refl)

lemma duplicate_settled: "duplicate_subscription now p subs = (found, subs') \<Longrightarrow> list_all2 settled subs subs'"
  by (auto simp: duplicate_subscription_def visible_duplicate_or_none_def Let_def settled_refl settled_completed
      dest: first_titled_settled split: option.splits if_splits)


section \<open>Creating keeps the table unique\<close>

lemma put_subs_simps [simp]:
  "cr_subs (put_subs subs cs) = subs" "cr_next (put_subs subs cs) = cr_next cs" "db_store (cr_db (put_subs subs cs)) = db_store (cr_db cs)"
  by (simp_all add: put_subs_def cr_subs_def)

lemma invalidate_simps [simp]:
  "cr_subs (invalidate_subscription_list_cache cs) = cr_subs cs" "cr_next (invalidate_subscription_list_cache cs) = cr_next cs"
  "cr_db (invalidate_subscription_list_cache cs) = cr_db cs"
  by (simp_all add: invalidate_subscription_list_cache_def cr_subs_def)

lemma crud_ok_invalidate [simp]: "crud_ok (invalidate_subscription_list_cache cs) = crud_ok cs"
  by (simp add: crud_ok_def)

lemma crud_ok_put:
  assumes "crud_ok cs" "list_all2 settled (cr_subs cs) subs"
  shows "crud_ok (put_subs subs cs)"
proof -
  have "sub_id ` set subs = sub_id ` set (cr_subs cs)" by (rule same_ids [OF settled_ids [OF assms(2)]])
  then show ?thesis using assms settled_ok by (simp add: crud_ok_def)
qed

lemma new_subscription_fields [simp]:
  "sub_id (new_subscription i p) = i" "media_type (new_subscription i p) = pl_media p" "tmdb_id (new_subscription i p) = pl_tmdb p"
  "sub_title (new_subscription i p) = pl_title p" "sub_status (new_subscription i p) = u ''active''"
  by (simp_all add: new_subscription_def blank_subscription_def)

lemma subs_ok_add:
  assumes "subs_ok n subs" "\<not> clashes row subs" "sub_id row = n"
  shows "subs_ok (n + 1) (subs @ [row])"
proof -
  have free: "index_entry row = None \<or> (\<forall>s \<in> set subs. index_entry s \<noteq> index_entry row)"
    using assms(2) unfolding clashes_def list_ex_iff by blast
  have "index_unique (subs @ [row])"
    unfolding index_unique_def
  proof (intro ballI impI)
    fix x y assume x: "x \<in> set (subs @ [row])" and y: "y \<in> set (subs @ [row])"
      and e: "index_entry x \<noteq> None" "index_entry y = index_entry x"
    have cases: "x \<in> set subs \<or> x = row" "y \<in> set subs \<or> y = row" using x y by auto
    have "index_unique subs" using assms(1) by (simp add: subs_ok_def)
    with cases e free show "sub_id y = sub_id x" unfolding index_unique_def by metis
  qed
  then show ?thesis using assms(1,3) by (auto simp: subs_ok_def)
qed

lemma insert_payload_ok:
  assumes "insert_subscription_payload now p cs = (sid_opt, cs')" "crud_ok cs"
  shows "crud_ok cs'"
proof (cases "clashes (new_subscription (cr_next cs) p) (cr_subs cs)")
  case True
  obtain found subs where d: "duplicate_subscription now p (cr_subs cs) = (found, subs)" by fastforce
  then have "cs' = put_subs subs cs" using assms(1) True by (auto simp: insert_subscription_payload_def Let_def split: option.splits)
  then show ?thesis using crud_ok_put [OF assms(2) duplicate_settled [OF d]] by simp
next
  case False
  then have cs': "cs' = (put_subs (cr_subs cs @ [new_subscription (cr_next cs) p]) cs)\<lparr>cr_next := cr_next cs + 1\<rparr>"
    using assms(1) by (simp add: insert_subscription_payload_def Let_def)
  have "subs_ok (cr_next cs + 1) (cr_subs cs @ [new_subscription (cr_next cs) p])"
    using assms(2) False by (intro subs_ok_add) (simp_all add: crud_ok_def)
  moreover have "cr_subs cs' = cr_subs cs @ [new_subscription (cr_next cs) p]" "cr_next cs' = cr_next cs + 1"
    "db_store (cr_db cs') = db_store (cr_db cs)"
    by (simp_all add: cs' put_subs_def cr_subs_def)
  ultimately show ?thesis using assms(2) by (auto simp: crud_ok_def)
qed

text \<open>The synchronisation of a row that is given as it stands in the table\<close>

lemma write_state_entry:
  assumes "ls_status st \<in> {COMPLETED, sub_status row}"
  shows "settled row (write_state st row)"
  using assms by (auto simp: settled_def write_state_def index_entry_def split: option.splits)

lemma sync_current_settled:
  assumes "s \<in> set subs" "distinct (map sub_id subs)"
  shows "list_all2 settled subs (snd (sync_one now snap cs tmdb s (rep, subs)))"
proof -
  obtain st where st: "snd (sync_one now snap cs tmdb s (rep, subs)) \<in> {subs, update_rows (state_target s st) (write_state st) subs}"
    "st = library_state now s snap cs (detail_for tmdb s)"
    using sync_one_rows by blast
  have "settled row (write_state st row)" if "row \<in> set subs" "state_target s st row" for row
  proof -
    have "row = s" using that assms by (auto simp: state_target_def distinct_map inj_on_def)
    then show ?thesis using write_state_entry library_status_range st(2) by blast
  qed
  then have "list_all2 settled subs (update_rows (state_target s st) (write_state st) subs)"
    by (auto simp: update_rows_def list_all2_map2 list_all2_same settled_def)
  then show ?thesis using st(1) settled_refl by auto
qed

lemma get_row_Some: "get_row sid subs = Some s \<Longrightarrow> s \<in> set subs \<and> sub_id s = sid"
  by (auto simp: get_row_def find_Some_iff)

lemma sync_created_ok:
  assumes "crud_ok cs"
  shows "crud_ok (sync_created now configured answer tmdb sid cs)"
proof (cases "get_row sid (cr_subs cs)")
  case (Some s)
  obtain ok rep subs where r: "sync_subscription_list_with_emby now configured answer tmdb [s] (cr_subs cs) = (ok, rep, subs)"
    by (metis prod_cases3)
  have current: "s \<in> set (cr_subs cs)" "distinct (map sub_id (cr_subs cs))"
    using get_row_Some [OF Some] assms by (simp_all add: crud_ok_def subs_ok_def)
  note synced = sync_current_settled [OF current]
  have "list_all2 settled (cr_subs cs) subs"
    using r synced settled_refl
    by (auto simp: sync_subscription_list_with_emby_def sync_subscriptions_with_emby_snapshot_def Let_def
        split: library_answer.splits if_splits prod.splits) (metis snd_conv)
  then show ?thesis using crud_ok_put [OF assms] Some r by (simp add: sync_created_def)
qed (simp add: sync_created_def assms)

theorem create_ok:
  assumes "create_subscription stamp now clock configured answer tmdb p (cs, jobs) = (out, cs', jobs')" "crud_ok cs"
  shows "crud_ok cs'"
proof -
  obtain found subs where d: "duplicate_subscription now p (cr_subs cs) = (found, subs)" by fastforce
  note ok1 = crud_ok_put [OF assms(2) duplicate_settled [OF d]]
  obtain sid_opt cs1 where i: "insert_subscription_payload now p (put_subs subs cs) = (sid_opt, cs1)" by fastforce
  note ok2 = insert_payload_ok [OF i ok1]
  show ?thesis
    using assms(1) d i ok1 ok2 sync_created_ok [OF ok2]
    by (cases found; cases sid_opt) (auto simp: create_subscription_def)
qed

section \<open>Changing and deleting keep it\<close>

lemma delete_rows_ok: "crud_ok cs \<Longrightarrow> crud_ok (delete_rows P cs)"
proof -
  assume ok: "crud_ok cs"
  have "subs_ok n subs \<Longrightarrow> subs_ok n (filter Q subs)" for n subs Q
    by (auto simp: subs_ok_def index_unique_def distinct_map_filter)
  then have "subs_ok (cr_next cs) (filter (\<lambda>s. \<not> P (sub_id s)) (cr_subs cs))" using ok by (simp add: crud_ok_def)
  moreover have "store_ok (st\<lparr>st_rows := filter Q (st_rows st)\<rparr>)" if "store_ok st" for st Q
    using that by (auto simp: store_ok_def distinct_map_filter)
  ultimately show ?thesis
    using ok by (auto simp: crud_ok_def delete_rows_def cr_subs_def)
qed

lemma delete_subscriptions_ok: "crud_ok cs \<Longrightarrow> crud_ok (snd (delete_subscriptions ids cs))"
  by (simp add: delete_subscriptions_def Let_def delete_rows_ok)

lemma list_subscriptions_db: "list_subscriptions now flag cs = (subs, cs') \<Longrightarrow> cr_db cs' = cr_db cs \<and> cr_next cs' = cr_next cs"
  by (auto simp: list_subscriptions_def split: option.splits if_splits)

lemma delete_by_title_ok: "crud_ok cs \<Longrightarrow> crud_ok (snd (delete_subscription_by_title now title cs))"
proof -
  assume ok: "crud_ok cs"
  obtain items cs' where l: "list_subscriptions now False cs = (items, cs')" by fastforce
  then have "crud_ok cs'" using ok list_subscriptions_db [OF l] by (simp add: crud_ok_def cr_subs_def)
  then show ?thesis using ok delete_subscriptions_ok by (simp add: delete_subscription_by_title_def Let_def l)
qed

lemma update_ok:
  assumes "update_subscription sid c cs = (out, cs')" "crud_ok cs"
  shows "crud_ok cs'"
proof (cases "get_row sid (cr_subs cs)")
  case None
  then show ?thesis using assms by (simp add: update_subscription_def)
next
  case (Some found)
  let ?subs = "update_rows (\<lambda>s. sub_id s = sid) (change_row c) (cr_subs cs)"
  let ?rest = "filter (\<lambda>s. sub_id s \<noteq> sid) (cr_subs cs)"
  have row: "found \<in> set (cr_subs cs)" "sub_id found = sid" using get_row_Some [OF Some] by simp_all
  have ids: "map sub_id ?subs = map sub_id (cr_subs cs)" by (rule update_rows_keep) (simp add: change_row_def)
  have cases: "x \<in> set (cr_subs cs) \<and> sub_id x \<noteq> sid \<or> x = change_row c found" if "x \<in> set ?subs" for x
  proof -
    have "y = found" if "y \<in> set (cr_subs cs)" "sub_id y = sid" for y
      using that row assms(2) by (auto simp: crud_ok_def subs_ok_def distinct_map inj_on_def)
    then show ?thesis using that by (auto simp: set_update_rows)
  qed
  have "subs_ok (cr_next cs) ?subs" if free: "\<not> clashes (change_row c found) ?rest"
  proof -
    have fresh: "index_entry x \<noteq> index_entry (change_row c found)"
      if "x \<in> set (cr_subs cs)" "sub_id x \<noteq> sid" "index_entry (change_row c found) \<noteq> None" for x
      using free that by (auto simp: clashes_def list_ex_iff)
    have "index_unique ?subs"
      unfolding index_unique_def
    proof (intro ballI impI)
      fix x y assume x: "x \<in> set ?subs" and y: "y \<in> set ?subs" and e: "index_entry x \<noteq> None" "index_entry y = index_entry x"
      have "index_unique (cr_subs cs)" using assms(2) by (simp add: crud_ok_def subs_ok_def)
      then show "sub_id y = sub_id x"
        using cases [OF x] cases [OF y] fresh e unfolding index_unique_def by metis
    qed
    then show ?thesis using assms(2) ids_below [OF ids] ids by (simp add: crud_ok_def subs_ok_def)
  qed
  moreover have "sub_id ` set ?subs = sub_id ` set (cr_subs cs)" by (rule same_ids [OF ids])
  ultimately show ?thesis
    using assms Some delete_rows_ok by (auto simp: update_subscription_def delete_subscription_def Let_def crud_ok_def split: if_splits)
qed


section \<open>What deleting leaves\<close>

lemma delete_rows_left:
  assumes "crud_ok cs"
  shows "cr_subs (delete_rows P cs) = filter (\<lambda>s. \<not> P (sub_id s)) (cr_subs cs)"
    "st_rows (db_store (cr_db (delete_rows P cs))) = filter (\<lambda>row. \<not> P (rr_subscription row)) (st_rows (db_store (cr_db cs)))"
  using assms by (auto simp: delete_rows_def cr_subs_def crud_ok_def intro!: filter_cong)

lemma delete_subscriptions_left:
  assumes "delete_subscriptions ids cs = (n, cs')" "crud_ok cs" "0 \<notin> sub_id ` set (cr_subs cs)"
  shows "cr_subs cs' = filter (\<lambda>s. sub_id s \<notin> set ids) (cr_subs cs)"
    "st_rows (db_store (cr_db cs')) = filter (\<lambda>row. rr_subscription row \<notin> set ids) (st_rows (db_store (cr_db cs)))"
    "n + length (cr_subs cs') = length (cr_subs cs)"
proof -
  let ?ids = "filter (\<lambda>i. i \<noteq> 0) ids"
  have subs: "filter (\<lambda>s. sub_id s \<notin> set ?ids) (cr_subs cs) = filter (\<lambda>s. sub_id s \<notin> set ids) (cr_subs cs)"
    using assms(3) by (auto intro!: filter_cong)
  have "rr_subscription row \<noteq> 0" if "row \<in> set (st_rows (db_store (cr_db cs)))" for row
    using that assms(2,3) by (force simp: crud_ok_def)
  then have rows: "filter (\<lambda>row. rr_subscription row \<notin> set ?ids) (st_rows (db_store (cr_db cs))) =
      filter (\<lambda>row. rr_subscription row \<notin> set ids) (st_rows (db_store (cr_db cs)))"
    by (auto intro!: filter_cong)
  have out: "(n, cr_subs cs', st_rows (db_store (cr_db cs'))) = (length (filter (\<lambda>s. sub_id s \<in> set ?ids) (cr_subs cs)),
      filter (\<lambda>s. sub_id s \<notin> set ?ids) (cr_subs cs), filter (\<lambda>row. rr_subscription row \<notin> set ?ids) (st_rows (db_store (cr_db cs))))"
    using assms(1) delete_rows_left [OF assms(2), of "\<lambda>i. i \<in> set ?ids"]
    by (cases "?ids = []") (auto simp: delete_subscriptions_def Let_def)
  then show "cr_subs cs' = filter (\<lambda>s. sub_id s \<notin> set ids) (cr_subs cs)"
    "st_rows (db_store (cr_db cs')) = filter (\<lambda>row. rr_subscription row \<notin> set ids) (st_rows (db_store (cr_db cs)))"
    using subs rows by simp_all
  show "n + length (cr_subs cs') = length (cr_subs cs)"
    using out sum_length_filter_compl [of "\<lambda>s. sub_id s \<in> set ?ids" "cr_subs cs"] by simp
qed

text \<open>A subscription whose title has no letters or digits is taken for a hit of every title.\<close>

lemma contains_Nil [simp]: "contains [] t"
  by (cases t) simp_all

lemma empty_title_hit: "compact_match_text (sub_title s) = [] \<Longrightarrow> title_hit needle s"
  by (simp add: title_hit_def)

section \<open>What creating finds\<close>

lemma new_subscription_shown:
  assumes "0 \<le> pl_total p"
  shows "\<not> subscription_should_hide (new_subscription i p)"
proof -
  have "owned_episode_keys (new_subscription i p) = {}"
    by (simp add: owned_episode_keys_def explicit_owned_keys_def new_subscription_def blank_subscription_def episode_keys_from_json_def Let_def)
  moreover have "all_tmdb_episode_keys (new_subscription i p) = (if 0 < pl_total p then keys_upto 1 1 (pl_total p) else {})"
    by (simp add: all_tmdb_episode_keys_def new_subscription_def blank_subscription_def)
  moreover have "emby_count (new_subscription i p) = 0" "\<not> in_library (new_subscription i p)" "tmdb_total_count (new_subscription i p) = pl_total p"
    by (simp_all add: new_subscription_def blank_subscription_def)
  moreover have "finite (keys_upto 1 1 n)" "0 < n \<Longrightarrow> keys_upto 1 1 n \<noteq> {}" for n
    by (auto simp: keys_upto_def)
  ultimately show ?thesis
    using assms by (auto simp: subscription_should_hide_def subscription_is_complete_def Let_def COMPLETED_def u_def)
qed

lemma find_append: "List.find P (xs @ ys) = (case List.find P xs of None \<Rightarrow> List.find P ys | Some x \<Rightarrow> Some x)"
  by (induction xs) auto

text \<open>The row just inserted is found as the duplicate of the same payload, unless an older row with its TMDB id is in the way.\<close>

lemma duplicate_after_insert:
  assumes "pl_tmdb p = Some t" "List.find (same_tmdb (pl_media p) t) subs = None" "0 \<le> pl_total p"
  shows "duplicate_subscription now p (subs @ [new_subscription i p]) = (Some (new_subscription i p), subs @ [new_subscription i p])"
  using assms new_subscription_shown [OF assms(3), of i]
  by (simp add: duplicate_subscription_def find_append same_tmdb_def visible_duplicate_or_none_def)

text \<open>
  A completed copy in front of a row that is followed: the copy is found first and counts as none, and
  then the index refuses the insertion.
\<close>

lemma find_map_eq: "List.find P (map f xs) = map_option f (List.find (P \<circ> f) xs)"
  by (induction xs) auto

lemma mark_completed_eq:
  "snd (mark_completed_subscription now item subs) =
     map (\<lambda>row. if sub_status item \<noteq> COMPLETED \<and> sub_id row = sub_id item \<and> sub_status row \<noteq> COMPLETED then complete_row now row else row) subs"
  by (simp add: mark_completed_subscription_def Let_def)

lemma duplicate_hidden:
  assumes "pl_tmdb p = Some t" "List.find (same_tmdb (pl_media p) t) subs = Some item" "subscription_should_hide item"
  shows "duplicate_subscription now p subs = (None, snd (mark_completed_subscription now item subs))"
  using assms by (simp add: duplicate_subscription_def visible_duplicate_or_none_def)

lemma create_refused:
  assumes "pl_tmdb p = Some t" "List.find (same_tmdb (pl_media p) t) (cr_subs cs) = Some item" "subscription_should_hide item"
    "row \<in> set (cr_subs cs)" "index_entry row = Some (pl_media p, t)" "sub_id row \<noteq> sub_id item"
  shows "fst (create_subscription stamp now clock configured answer tmdb p (cs, jobs)) = Integrity_Error"
proof -
  let ?subs = "snd (mark_completed_subscription now item (cr_subs cs))"
  define f where "f row = (if sub_status item \<noteq> COMPLETED \<and> sub_id row = sub_id item \<and> sub_status row \<noteq> COMPLETED
      then complete_row now row else row)" for row
  have subs: "?subs = map f (cr_subs cs)" by (simp add: mark_completed_eq f_def)
  note dup = duplicate_hidden [OF assms(1-3), of now]
  have same: "same_tmdb (pl_media p) t \<circ> f = same_tmdb (pl_media p) t"
    by (rule ext) (simp add: same_tmdb_def f_def complete_row_def)
  then have found: "List.find (same_tmdb (pl_media p) t) ?subs = Some (f item)"
    using assms(2) by (simp add: subs find_map_eq)
  have hidden: "subscription_should_hide (f item)"
    using assms(3) by (auto simp: f_def subscription_should_hide_def)
  have "f row = row" using assms(6) by (simp add: f_def)
  then have "row \<in> set ?subs" using assms(4) unfolding subs by (metis imageI list.set_map)
  moreover have "index_entry (new_subscription (cr_next cs) p) = Some (pl_media p, t)"
    using assms(1) by (simp add: index_entry_def COMPLETED_def u_def)
  ultimately have "clashes (new_subscription (cr_next cs) p) ?subs"
    using assms(5) by (auto simp: clashes_def list_ex_iff)
  then show ?thesis
    using dup duplicate_hidden [OF assms(1) found hidden, of now]
    by (simp add: create_subscription_def insert_subscription_payload_def Let_def)
qed

section \<open>The age of a list\<close>

text \<open>A list is that of the table, or was made at most twelve seconds ago, whatever was written since without clearing the cache.\<close>

definition lists_from :: "(time \<times> subscription list) list \<Rightarrow> crud_state \<Rightarrow> bool" where
  "lists_from past cs \<longleftrightarrow>
     (\<forall>flag expires items. cr_lists cs flag = Some (expires, items) \<longrightarrow>
        (\<exists>t subs. (t, subs) \<in> set past \<and> expires = t + SUBSCRIPTION_LIST_CACHE_TTL \<and> items = visible flag subs))"

lemma list_subscriptions_cases:
  assumes "list_subscriptions now flag cs = (items, cs')"
  obtains expires where "cr_lists cs flag = Some (expires, items)" "now < expires" "cs' = cs"
  | "items = visible flag (cr_subs cs)"
    "cs' = cs\<lparr>cr_lists := (cr_lists cs)(flag := Some (now + SUBSCRIPTION_LIST_CACHE_TTL, items))\<rparr>"
proof (cases "\<exists>expires shown. cr_lists cs flag = Some (expires, shown) \<and> now < expires")
  case True
  then obtain expires shown where l: "cr_lists cs flag = Some (expires, shown)" "now < expires" by blast
  then have "items = shown" "cs' = cs" using assms by (simp_all add: list_subscriptions_def)
  then show thesis using that(1) l by blast
next
  case False
  then have "list_subscriptions now flag cs = (visible flag (cr_subs cs),
      cs\<lparr>cr_lists := (cr_lists cs)(flag := Some (now + SUBSCRIPTION_LIST_CACHE_TTL, visible flag (cr_subs cs)))\<rparr>)"
    by (cases "cr_lists cs flag") (auto simp: list_subscriptions_def)
  then show thesis using assms that(2) by simp
qed

lemma list_age:
  assumes "list_subscriptions now flag cs = (items, cs')" "lists_from past cs"
  shows "items = visible flag (cr_subs cs) \<or> (\<exists>t subs. (t, subs) \<in> set past \<and> now < t + 12 \<and> items = visible flag subs)"
    "lists_from ((now, cr_subs cs) # past) cs'"
proof -
  show "items = visible flag (cr_subs cs) \<or> (\<exists>t subs. (t, subs) \<in> set past \<and> now < t + 12 \<and> items = visible flag subs)"
    using assms(1)
  proof (cases rule: list_subscriptions_cases)
    case (1 expires)
    then show ?thesis using assms(2) unfolding lists_from_def SUBSCRIPTION_LIST_CACHE_TTL_def by blast
  qed simp
  show "lists_from ((now, cr_subs cs) # past) cs'"
    using assms(1)
  proof (cases rule: list_subscriptions_cases)
    case 1
    then show ?thesis using assms(2) unfolding lists_from_def by (metis list.set_intros(2))
  next
    case 2
    then show ?thesis using assms(2) unfolding lists_from_def by (auto; metis)
  qed
qed

lemma list_kept: "list_subscriptions now flag cs = (items, cs1) \<Longrightarrow> now \<le> now' \<Longrightarrow> now' < now + 12 \<Longrightarrow> cr_lists cs flag = None \<Longrightarrow>
    fst (list_subscriptions now' flag (put_subs subs cs1)) = items"
  by (auto simp: list_subscriptions_def SUBSCRIPTION_LIST_CACHE_TTL_def put_subs_def)

end
