(* ===== verification/Search_Schedule.thy ===== *)
theory Search_Schedule
  imports Search_Flow Subscription_Crud Concurrency Haisou_Budget
begin

text \<open>
  \<open>app/services/subscription/search/schedule.py\<close>, \<open>recent_cache.py\<close>, \<open>all.py\<close> and the guarded search of
  \<open>tasks.py\<close>: which subscriptions a search of all takes up and in which order, the results that are
  reused for 45 seconds, the waves, and the times of the last check.  The searches of a wave run side by
  side; here they are done in their order.  The refresh of TMDB and the synchronisation that run beside the waves are
  left out; they are the subject of \<open>Library_Service\<close>.
  Shown: nothing is skipped that was not checked for ten minutes, nor anything that misses an episode
  and was not checked for two; the most urgent comes first; the waves are the list cut into pieces of
  one to five; every subscription that was taken up is marked as checked, also after a timeout or an
  error; results are reused for 45 seconds at most.
\<close>

section \<open>Which subscriptions, and in which order\<close>

definition SEARCH_ALL_COMPLETE_COOLDOWN_SECONDS :: time where
  "SEARCH_ALL_COMPLETE_COOLDOWN_SECONDS = 600"

definition SEARCH_ALL_ACTIVE_COOLDOWN_SECONDS :: time where
  "SEARCH_ALL_ACTIVE_COOLDOWN_SECONDS = 120"

text \<open>\<open>stamp\<close> reads the text of a time; \<^const>\<open>None\<close> where it is not one.\<close>

definition seconds_since_last_checked :: "(pystr \<Rightarrow> time option) \<Rightarrow> time \<Rightarrow> pystr option \<Rightarrow> time option" where
  "seconds_since_last_checked stamp now value_opt =
     (let text = strip (case value_opt of None \<Rightarrow> [] | Some t \<Rightarrow> t) in
      if text = [] then None
      else case stamp text of None \<Rightarrow> None | Some t \<Rightarrow> Some (max 0 (now - t)))"

definition subscription_is_caught_up :: "subscription \<Rightarrow> bool" where
  "subscription_is_caught_up sub =
     (case media_type sub of
        Movie \<Rightarrow> in_library sub
      | Tv \<Rightarrow> if \<not> (tmdb_total_count sub \<noteq> 0 \<or> truthy (tmdb_seasons sub)) then False else missing_episode_keys sub = {})"

definition should_skip_recent_search_all :: "(pystr \<Rightarrow> time option) \<Rightarrow> time \<Rightarrow> subscription \<Rightarrow> bool" where
  "should_skip_recent_search_all stamp now sub =
     (case seconds_since_last_checked stamp now (last_checked_at sub) of
        None \<Rightarrow> False
      | Some age \<Rightarrow>
          if age < SEARCH_ALL_ACTIVE_COOLDOWN_SECONDS then True
          else if SEARCH_ALL_COMPLETE_COOLDOWN_SECONDS \<le> age then False
          else subscription_is_caught_up sub)"

definition urgency :: "subscription \<Rightarrow> int" where
  "urgency sub = (case media_type sub of Tv \<Rightarrow> int (card (missing_episode_keys sub)) | Movie \<Rightarrow> if in_library sub then 0 else 10000)"

definition subscription_search_sort_key :: "subscription \<Rightarrow> int \<times> pystr \<times> int" where
  "subscription_search_sort_key sub =
     (- urgency sub, (case last_checked_at sub of None \<Rightarrow> [] | Some t \<Rightarrow> t), sub_id sub)"

definition prioritize_subscriptions_for_search :: "subscription list \<Rightarrow> subscription list" where
  "prioritize_subscriptions_for_search subs = sort_key subscription_search_sort_key subs"

definition filter_subscriptions_for_search_all ::
    "(pystr \<Rightarrow> time option) \<Rightarrow> time \<Rightarrow> subscription list \<Rightarrow> subscription list \<times> nat" where
  "filter_subscriptions_for_search_all stamp now subs =
     (prioritize_subscriptions_for_search (filter (\<lambda>s. \<not> should_skip_recent_search_all stamp now s) subs),
      length (filter (should_skip_recent_search_all stamp now) subs))"

section \<open>Recent results\<close>

definition RECENT_SEARCH_TTL_SECONDS :: time where
  "RECENT_SEARCH_TTL_SECONDS = 45"

definition RECENT_SEARCH_MAX_ITEMS :: nat where
  "RECENT_SEARCH_MAX_ITEMS = 256"

type_synonym 'r recent = "((int \<times> bool) \<times> time \<times> 'r list) list"

definition get_recent_search_results :: "time \<Rightarrow> int \<times> bool \<Rightarrow> 'r recent \<Rightarrow> 'r list option \<times> 'r recent" where
  "get_recent_search_results now k recent =
     (case map_of recent k of
        None \<Rightarrow> (None, recent)
      | Some (t, results) \<Rightarrow> if RECENT_SEARCH_TTL_SECONDS < now - t then (None, dict_pop k recent) else (Some results, recent))"

definition drop_oldest :: "nat \<Rightarrow> 'r recent \<Rightarrow> 'r recent" where
  "drop_oldest n recent = fold dict_pop (map fst (take n (sort_key (\<lambda>(_, t, _). t) recent))) recent"

definition store_recent_search_results :: "time \<Rightarrow> int \<times> bool \<Rightarrow> 'r list \<Rightarrow> 'r recent \<Rightarrow> 'r recent" where
  "store_recent_search_results now k results recent =
     (if results = [] then recent
      else dict_set k (now, results)
             (if RECENT_SEARCH_MAX_ITEMS \<le> length recent then drop_oldest (max 1 (RECENT_SEARCH_MAX_ITEMS div 4)) recent else recent))"

definition clear_recent_search_results :: "int option \<Rightarrow> 'r recent \<Rightarrow> 'r recent" where
  "clear_recent_search_results sid_opt recent =
     (case sid_opt of None \<Rightarrow> [] | Some sid \<Rightarrow> dict_pop (sid, False) (dict_pop (sid, True) recent))"

section \<open>One search under its guards\<close>

type_synonym search_state = "resource_row recent \<times> state"

definition default_search :: "outside \<Rightarrow> times \<Rightarrow> int \<Rightarrow> bool \<Rightarrow> bool \<Rightarrow> search_state \<Rightarrow> resource_row list \<times> search_state" where
  "default_search w t sid incremental checked = (\<lambda>(recent, st).
     (case get_recent_search_results (t_clock t) (sid, incremental) recent of
        (Some cached, recent') \<Rightarrow> (cached, recent', st)
      | (None, recent') \<Rightarrow>
          (case search_and_attach_resources w t sid incremental checked st of
             (created, st') \<Rightarrow> (created, store_recent_search_results (t_clock t) (sid, incremental) created recent', st'))))"

text \<open>
  How a search ends: it completes, the lock of the subscription is held by another search, or it is cut
  off by the timeout or an exception after it has done something to the state.
\<close>

datatype ending = Completes | Lock_Held | Timed_Out_After "search_state \<Rightarrow> search_state" | Raised_After "search_state \<Rightarrow> search_state"

definition guarded_search ::
    "ending \<Rightarrow> outside \<Rightarrow> times \<Rightarrow> int \<Rightarrow> bool \<Rightarrow> bool \<Rightarrow> search_state \<Rightarrow> resource_row list option \<times> search_state" where
  "guarded_search e w t sid incremental checked ss =
     (case e of
        Completes \<Rightarrow> (case default_search w t sid incremental checked ss of (results, ss') \<Rightarrow> (Some results, ss'))
      | Lock_Held \<Rightarrow> (Some [], ss)
      | Timed_Out_After f \<Rightarrow> (None, f ss)
      | Raised_After f \<Rightarrow> (None, f ss))"

definition prefer_incremental_telegram :: "subscription \<Rightarrow> bool" where
  "prefer_incremental_telegram sub =
     (if subscription_needs_resource_search sub then False
      else case media_type sub of
        Movie \<Rightarrow> in_library sub
      | Tv \<Rightarrow> strip (case last_checked_at sub of None \<Rightarrow> [] | Some t \<Rightarrow> t) \<noteq> [])"

section \<open>A search of all\<close>

text \<open>Searched, created, failed\<close>

type_synonym outcome = "nat \<times> nat \<times> nat"

text \<open>\<open>pending\<close>: the ids whose check is written at the end\<close>

definition search_one ::
    "(int \<Rightarrow> ending) \<Rightarrow> outside \<Rightarrow> times \<Rightarrow> subscription \<Rightarrow> int list \<times> search_state \<Rightarrow> outcome \<times> int list \<times> search_state" where
  "search_one endings w t given = (\<lambda>(pending, ss).
     (let sub = (case get_subscription (sub_id given) (db_subs (fst (snd ss))) of None \<Rightarrow> given | Some s \<Rightarrow> s) in
      if sub_status sub \<noteq> u ''active'' then ((0, 0, 0), pending, ss)
      else case guarded_search (endings (sub_id sub)) w t (sub_id sub) (prefer_incremental_telegram sub) False ss of
        (Some results, ss') \<Rightarrow> ((1, length results, 0), pending @ [sub_id sub], ss')
      | (None, ss') \<Rightarrow> ((1, 0, 1), pending @ [sub_id sub], ss')))"

fun search_wave ::
    "(int \<Rightarrow> ending) \<Rightarrow> outside \<Rightarrow> times \<Rightarrow> subscription list \<Rightarrow> int list \<times> search_state \<Rightarrow> outcome list \<times> int list \<times> search_state" where
  "search_wave endings w t [] acc = ([], acc)"
| "search_wave endings w t (s # subs) acc =
     (case search_one endings w t s acc of
        (out, acc') \<Rightarrow> (case search_wave endings w t subs acc' of (outs, acc'') \<Rightarrow> (out # outs, acc'')))"

text \<open>The size is asked for before each wave; \<open>intervals\<close> gives the interval of the gate at these times.\<close>

function waves :: "(nat \<Rightarrow> time) \<Rightarrow> nat \<Rightarrow> 'a list \<Rightarrow> 'a list list" where
  "waves intervals n subs =
     (if subs = [] then []
      else let k = nat (max 1 (search_all_wave_size (intervals n))) in
        take k subs # waves intervals (n + 1) (drop k subs))"
  by pat_completeness auto
termination
  by (relation "measure (\<lambda>(intervals, n, subs). length subs)") auto

declare waves.simps [simp del]

fun search_waves ::
    "(int \<Rightarrow> ending) \<Rightarrow> outside \<Rightarrow> times \<Rightarrow> subscription list list \<Rightarrow> int list \<times> search_state \<Rightarrow> outcome list \<times> int list \<times> search_state" where
  "search_waves endings w t [] acc = ([], acc)"
| "search_waves endings w t (wave # ws) acc =
     (case search_wave endings w t wave acc of
        (outs, acc') \<Rightarrow> (case search_waves endings w t ws acc' of (outs', acc'') \<Rightarrow> (outs @ outs', acc'')))"

definition flush_pending_checked :: "pystr \<Rightarrow> int list \<Rightarrow> search_state \<Rightarrow> search_state" where
  "flush_pending_checked now pending = (\<lambda>(recent, db, memo). (recent, fold (mark_checked now) (rev (remdups (rev pending))) db, memo))"

record search_report =
  sr_searched :: nat
  sr_created :: nat
  sr_failed :: nat

definition report_of :: "outcome list \<Rightarrow> search_report" where
  "report_of outs =
     \<lparr>sr_searched = sum_list (map fst outs), sr_created = sum_list (map (fst \<circ> snd) outs), sr_failed = sum_list (map (snd \<circ> snd) outs)\<rparr>"

definition search_all_active_subscriptions ::
    "(int \<Rightarrow> ending) \<Rightarrow> (nat \<Rightarrow> time) \<Rightarrow> (pystr \<Rightarrow> time option) \<Rightarrow> outside \<Rightarrow> times \<Rightarrow> bool \<Rightarrow> subscription list
     \<Rightarrow> search_state \<Rightarrow> search_report \<times> search_state" where
  "search_all_active_subscriptions endings intervals stamp w t force subs0 ss =
     (let subs = (if force then subs0 else fst (filter_subscriptions_for_search_all stamp (t_clock t) subs0)) in
      case search_waves endings w t (waves intervals 0 subs) ([], ss) of
        (outs, pending, ss') \<Rightarrow> (report_of outs, flush_pending_checked (t_now t) pending ss'))"

section \<open>What is skipped\<close>

lemma old_not_skipped:
  "seconds_since_last_checked stamp now (last_checked_at sub) = Some age \<Longrightarrow> 600 \<le> age \<Longrightarrow>
     \<not> should_skip_recent_search_all stamp now sub"
  by (simp add: should_skip_recent_search_all_def SEARCH_ALL_ACTIVE_COOLDOWN_SECONDS_def SEARCH_ALL_COMPLETE_COOLDOWN_SECONDS_def)

lemma missing_not_skipped:
  assumes "missing_episode_keys sub \<noteq> {}" "seconds_since_last_checked stamp now (last_checked_at sub) = Some age" "120 \<le> age"
  shows "\<not> should_skip_recent_search_all stamp now sub"
proof -
  have "media_type sub = Tv" using assms(1) by (auto simp: missing_episode_keys_def split: if_splits)
  then have "\<not> subscription_is_caught_up sub" using assms(1) by (simp add: subscription_is_caught_up_def)
  then show ?thesis using assms(2,3)
    by (simp add: should_skip_recent_search_all_def SEARCH_ALL_ACTIVE_COOLDOWN_SECONDS_def SEARCH_ALL_COMPLETE_COOLDOWN_SECONDS_def)
qed

lemma filter_for_search_all:
  assumes "filter_subscriptions_for_search_all stamp now subs = (kept, skipped)"
  shows "mset kept = mset (filter (\<lambda>s. \<not> should_skip_recent_search_all stamp now s) subs)"
    "length kept + skipped = length subs" "sorted (map subscription_search_sort_key kept)"
proof -
  have kept: "kept = prioritize_subscriptions_for_search (filter (\<lambda>s. \<not> should_skip_recent_search_all stamp now s) subs)"
    and skipped: "skipped = length (filter (should_skip_recent_search_all stamp now) subs)"
    using assms by (auto simp: filter_subscriptions_for_search_all_def)
  show "mset kept = mset (filter (\<lambda>s. \<not> should_skip_recent_search_all stamp now s) subs)"
    by (simp add: kept prioritize_subscriptions_for_search_def)
  show "length kept + skipped = length subs"
    using sum_length_filter_compl [of "should_skip_recent_search_all stamp now" subs]
    by (simp add: kept skipped prioritize_subscriptions_for_search_def)
  show "sorted (map subscription_search_sort_key kept)"
    by (simp add: kept prioritize_subscriptions_for_search_def sorted_sort_key)
qed

lemma most_urgent_first: "sorted (map subscription_search_sort_key subs) \<Longrightarrow> sorted (map (\<lambda>s. - urgency s) subs)"
proof (induction subs)
  case (Cons s subs)
  then show ?case by (auto simp: subscription_search_sort_key_def less_eq_prod_def)
qed simp

section \<open>The waves\<close>

lemma waves_concat: "concat (waves intervals n subs) = subs"
  by (induction intervals n subs rule: waves.induct) (subst waves.simps, auto simp: Let_def)

lemma wave_size_range: "1 \<le> max 1 (search_all_wave_size i) \<and> max 1 (search_all_wave_size i) \<le> 5"
  using concurrency_bounds(3) [of i] by auto

lemma waves_short: "wave \<in> set (waves intervals n subs) \<Longrightarrow> wave \<noteq> [] \<and> length wave \<le> 5"
proof (induction intervals n subs rule: waves.induct)
  case (1 intervals n subs)
  have "nat (max 1 (search_all_wave_size (intervals n))) \<le> 5" "0 < nat (max 1 (search_all_wave_size (intervals n)))"
    using wave_size_range [of "intervals n"] by auto
  then show ?case using 1 by (subst (asm) (2) waves.simps) (auto simp: Let_def split: if_splits)
qed

lemma search_wave_append:
  "search_wave endings w t (xs @ ys) acc =
     (case search_wave endings w t xs acc of (outs, acc') \<Rightarrow>
       (case search_wave endings w t ys acc' of (outs', acc'') \<Rightarrow> (outs @ outs', acc'')))"
  by (induction xs arbitrary: acc) (simp_all split: prod.splits)

lemma search_waves_concat: "search_waves endings w t ws acc = search_wave endings w t (concat ws) acc"
  by (induction ws arbitrary: acc) (simp_all add: search_wave_append)

section \<open>Every subscription that is taken up is marked\<close>

definition ends_badly :: "ending \<Rightarrow> bool" where
  "ends_badly e \<longleftrightarrow> (case e of Timed_Out_After f \<Rightarrow> True | Raised_After f \<Rightarrow> True | Completes \<Rightarrow> False | Lock_Held \<Rightarrow> False)"

text \<open>What a search has done before it is cut off concerns its own subscription.\<close>

definition cut_ok :: "int \<Rightarrow> ending \<Rightarrow> bool" where
  "cut_ok sid e \<longleftrightarrow>
     (\<forall>f recent db memo. e = Timed_Out_After f \<or> e = Raised_After f \<longrightarrow> own_changes sid db (fst (snd (f (recent, db, memo)))))"

definition is_active_in :: "database \<Rightarrow> subscription \<Rightarrow> bool" where
  "is_active_in db s \<longleftrightarrow> (\<exists>x. get_subscription (sub_id s) (db_subs db) = Some x \<and> sub_status x = u ''active'')"

lemma get_other:
  assumes "filter (\<lambda>s. sub_id s \<noteq> sid) subs' = filter (\<lambda>s. sub_id s \<noteq> sid) subs" "k \<noteq> sid"
  shows "get_subscription k subs' = get_subscription k subs"
proof -
  have step: "get_subscription k xs = get_subscription k (filter (\<lambda>s. sub_id s \<noteq> sid) xs)" for xs
    using assms(2) by (induction xs) (auto simp: get_subscription_def)
  show ?thesis using step [of subs'] step [of subs] by (simp only: assms(1))
qed

lemma filter_ids_mono:
  assumes "filter (\<lambda>s. sub_id s \<notin> A) subs' = filter (\<lambda>s. sub_id s \<notin> A) subs" "A \<subseteq> B"
  shows "filter (\<lambda>s. sub_id s \<notin> B) subs' = filter (\<lambda>s. sub_id s \<notin> B) subs"
proof -
  have step: "filter (\<lambda>s. sub_id s \<notin> B) xs = filter (\<lambda>s. sub_id s \<notin> B) (filter (\<lambda>s. sub_id s \<notin> A) xs)" for xs
    using assms(2) by (auto intro: filter_cong)
  show ?thesis using step [of subs'] step [of subs] by (simp only: assms(1))
qed

context careful_delivery begin

lemma default_search_own:
  assumes "default_search w t sid inc checked (recent, db, memo) = (results, recent', db', memo')" "o_deliver w = deliver"
    "sid \<noteq> 0" "store_ok (db_store db)"
  shows "own_changes sid db db'"
  using assms search_own_rows
  by (auto simp: default_search_def split: prod.splits option.splits)

lemma guarded_own:
  assumes "guarded_search e w t sid inc checked (recent, db, memo) = (out, recent', db', memo')" "o_deliver w = deliver"
    "sid \<noteq> 0" "store_ok (db_store db)" "cut_ok sid e"
  shows "own_changes sid db db' \<and> (out = None \<longleftrightarrow> ends_badly e)"
proof (cases e)
  case Completes
  obtain results ss where d: "default_search w t sid inc checked (recent, db, memo) = (results, ss)" by (rule prod.exhaust)
  then show ?thesis using assms Completes default_search_own [of w t sid inc checked recent db memo results]
    by (auto simp: guarded_search_def ends_badly_def)
next
  case (Timed_Out_After f)
  then have "own_changes sid db (fst (snd (f (recent, db, memo))))" using assms(5) by (simp add: cut_ok_def)
  then show ?thesis using assms(1) Timed_Out_After by (auto simp: guarded_search_def ends_badly_def)
next
  case (Raised_After f)
  then have "own_changes sid db (fst (snd (f (recent, db, memo))))" using assms(5) by (simp add: cut_ok_def)
  then show ?thesis using assms(1) Raised_After by (auto simp: guarded_search_def ends_badly_def)
qed (use assms(1) in \<open>auto simp: guarded_search_def ends_badly_def\<close>)

lemma search_one_active:
  assumes "search_one endings w t s (pending, recent, db, memo) = (out, pending', recent', db', memo')" "o_deliver w = deliver"
    "sub_id s \<noteq> 0" "store_ok (db_store db)" "is_active_in db s" "cut_ok (sub_id s) (endings (sub_id s))"
  shows "pending' = pending @ [sub_id s] \<and> own_changes (sub_id s) db db' \<and> fst out = 1
    \<and> snd (snd out) = (if ends_badly (endings (sub_id s)) then 1 else 0)"
proof -
  obtain x where x: "get_subscription (sub_id s) (db_subs db) = Some x" "sub_status x = u ''active''"
    using assms(5) by (auto simp: is_active_in_def)
  have id: "sub_id x = sub_id s" using get_subscription_id [OF x(1)] by simp
  obtain r ss where g: "guarded_search (endings (sub_id s)) w t (sub_id s) (prefer_incremental_telegram x) False (recent, db, memo) = (r, ss)"
    by (rule prod.exhaust)
  obtain recent2 db2 memo2 where ss: "ss = (recent2, db2, memo2)" by (cases ss) auto
  have "own_changes (sub_id s) db db2 \<and> (r = None \<longleftrightarrow> ends_badly (endings (sub_id s)))"
    using guarded_own [OF g [unfolded ss] assms(2-4,6)] .
  then show ?thesis using assms(1) x id g ss by (auto simp: search_one_def Let_def split: option.splits)
qed

lemma active_later: "own_changes sid db db' \<Longrightarrow> store_ok (db_store db) \<Longrightarrow> sub_id s \<noteq> sid \<Longrightarrow> is_active_in db s \<Longrightarrow> is_active_in db' s"
  using get_other [of sid "db_subs db'" "db_subs db" "sub_id s"] by (simp add: is_active_in_def own_changes_def)

lemma search_wave_active:
  assumes "search_wave endings w t subs (pending, recent, db, memo) = (outs, pending', recent', db', memo')" "o_deliver w = deliver"
    "distinct (map sub_id subs)" "0 \<notin> sub_id ` set subs" "store_ok (db_store db)"
    "\<forall>s \<in> set subs. is_active_in db s \<and> cut_ok (sub_id s) (endings (sub_id s))"
  shows "pending' = pending @ map sub_id subs \<and> store_ok (db_store db') \<and> map fst outs = map (\<lambda>_. 1) subs
    \<and> map (snd \<circ> snd) outs = map (\<lambda>s. if ends_badly (endings (sub_id s)) then 1 else 0) subs
    \<and> filter (\<lambda>x. sub_id x \<notin> sub_id ` set subs) (db_subs db') = filter (\<lambda>x. sub_id x \<notin> sub_id ` set subs) (db_subs db)"
  using assms
proof (induction subs arbitrary: pending recent db memo outs)
  case (Cons s subs)
  obtain out p1 r1 db1 m1 where one: "search_one endings w t s (pending, recent, db, memo) = (out, p1, r1, db1, m1)" by (metis prod_cases5)
  obtain outs1 where later: "search_wave endings w t subs (p1, r1, db1, m1) = (outs1, pending', recent', db', memo')" "outs = out # outs1"
    using Cons.prems(1) one by (auto split: prod.splits)
  have o: "p1 = pending @ [sub_id s]" "own_changes (sub_id s) db db1" "fst out = 1"
      "snd (snd out) = (if ends_badly (endings (sub_id s)) then 1 else 0)"
    using search_one_active [OF one Cons.prems(2)] Cons.prems(4-6) by auto
  have ok: "store_ok (db_store db1)" using own_changes_ok [OF o(2)] Cons.prems(5) by simp
  have act: "\<forall>x \<in> set subs. is_active_in db1 x \<and> cut_ok (sub_id x) (endings (sub_id x))"
  proof
    fix x assume x: "x \<in> set subs"
    then have "sub_id x \<noteq> sub_id s" using Cons.prems(3) by (auto simp: image_iff)
    then show "is_active_in db1 x \<and> cut_ok (sub_id x) (endings (sub_id x))"
      using active_later [OF o(2) Cons.prems(5)] Cons.prems(6) x by simp
  qed
  have own: "filter (\<lambda>x. sub_id x \<notin> {sub_id s}) (db_subs db1) = filter (\<lambda>x. sub_id x \<notin> {sub_id s}) (db_subs db)"
    using o(2) Cons.prems(5) by (simp add: own_changes_def)
  note ih = Cons.IH [OF later(1) Cons.prems(2) _ _ ok act]
  have d: "distinct (map sub_id subs)" "0 \<notin> sub_id ` set subs" using Cons.prems(3,4) by auto
  have "filter (\<lambda>x. sub_id x \<notin> sub_id ` set (s # subs)) (db_subs db') = filter (\<lambda>x. sub_id x \<notin> sub_id ` set (s # subs)) (db_subs db1)"
    by (rule filter_ids_mono [of "sub_id ` set subs"]) (use ih [OF d] in auto)
  moreover have "filter (\<lambda>x. sub_id x \<notin> sub_id ` set (s # subs)) (db_subs db1) = filter (\<lambda>x. sub_id x \<notin> sub_id ` set (s # subs)) (db_subs db)"
    by (rule filter_ids_mono [OF own]) auto
  ultimately show ?case using ih [OF d] o by (simp add: later(2))
qed simp

end

lemma mark_all_checked:
  "db_subs (fold (mark_checked now) ids db) =
     update_rows (\<lambda>s. sub_id s \<in> set ids) (\<lambda>s. s\<lparr>last_checked_at := Some now\<rparr>) (db_subs db)
   \<and> db_store (fold (mark_checked now) ids db) = db_store db"
  by (induction ids arbitrary: db) (auto simp: update_rows_def mark_checked_def)

text \<open>What a search of all takes up\<close>

definition taken_up :: "(pystr \<Rightarrow> time option) \<Rightarrow> time \<Rightarrow> bool \<Rightarrow> subscription list \<Rightarrow> subscription list" where
  "taken_up stamp now force subs = (if force then subs else fst (filter_subscriptions_for_search_all stamp now subs))"

lemma search_all_waves:
  "search_all_active_subscriptions endings intervals stamp w t force subs0 ss =
     (case search_wave endings w t (taken_up stamp (t_clock t) force subs0) ([], ss) of
        (outs, pending, ss') \<Rightarrow> (report_of outs, flush_pending_checked (t_now t) pending ss'))"
  by (simp add: search_all_active_subscriptions_def taken_up_def Let_def search_waves_concat waves_concat)

context careful_delivery begin

theorem search_all_marks:
  assumes run: "search_all_active_subscriptions endings intervals stamp w t force subs0 (recent, db, memo) = (report, recent', db', memo')"
    and "o_deliver w = deliver" "distinct (map sub_id subs0)" "0 \<notin> sub_id ` set subs0" "store_ok (db_store db)"
    and "\<forall>s \<in> set subs0. is_active_in db s \<and> cut_ok (sub_id s) (endings (sub_id s))"
  defines "subs \<equiv> taken_up stamp (t_clock t) force subs0"
  shows "sr_searched report = length subs" "sr_failed report = length (filter (\<lambda>s. ends_badly (endings (sub_id s))) subs)"
    "\<forall>s \<in> set (db_subs db'). sub_id s \<in> sub_id ` set subs \<longrightarrow> last_checked_at s = Some (t_now t)"
    "filter (\<lambda>s. sub_id s \<notin> sub_id ` set subs) (db_subs db') = filter (\<lambda>s. sub_id s \<notin> sub_id ` set subs) (db_subs db)"
proof -
  have sub: "set subs \<subseteq> set subs0" "distinct (map sub_id subs)"
    using assms(3)
    by (auto simp: subs_def taken_up_def filter_subscriptions_for_search_all_def prioritize_subscriptions_for_search_def
        distinct_map inj_on_def)
  obtain outs pending r1 db1 m1 where wave: "search_wave endings w t subs ([], recent, db, memo) = (outs, pending, r1, db1, m1)"
    by (metis prod_cases5)
  have all: "pending = map sub_id subs" "map fst outs = map (\<lambda>_. 1) subs"
      "map (snd \<circ> snd) outs = map (\<lambda>s. if ends_badly (endings (sub_id s)) then 1 else 0) subs"
      "filter (\<lambda>x. sub_id x \<notin> sub_id ` set subs) (db_subs db1) = filter (\<lambda>x. sub_id x \<notin> sub_id ` set subs) (db_subs db)"
    using search_wave_active [OF wave assms(2) sub(2)] sub(1) assms(4-6) by auto
  have fin: "report = report_of outs" "db_subs db' = update_rows (\<lambda>s. sub_id s \<in> sub_id ` set subs) (\<lambda>s. s\<lparr>last_checked_at := Some (t_now t)\<rparr>) (db_subs db1)"
    using run wave by (auto simp: search_all_waves subs_def [symmetric] flush_pending_checked_def mark_all_checked all(1))
  show "sr_searched report = length subs" by (simp add: fin(1) report_of_def all(2) sum_list_triv)
  show "sr_failed report = length (filter (\<lambda>s. ends_badly (endings (sub_id s))) subs)"
    unfolding fin(1) report_of_def all(3) search_report.simps by (induction subs) auto
  show "\<forall>s \<in> set (db_subs db'). sub_id s \<in> sub_id ` set subs \<longrightarrow> last_checked_at s = Some (t_now t)"
    by (auto simp: fin(2) update_rows_def)
  show "filter (\<lambda>s. sub_id s \<notin> sub_id ` set subs) (db_subs db') = filter (\<lambda>s. sub_id s \<notin> sub_id ` set subs) (db_subs db)"
  proof -
    have "filter (\<lambda>s. sub_id s \<notin> A) (update_rows (\<lambda>s. sub_id s \<in> A) (\<lambda>s. s\<lparr>last_checked_at := Some now\<rparr>) xs)
        = filter (\<lambda>s. sub_id s \<notin> A) xs" for A xs now
      by (induction xs) (auto simp: update_rows_def)
    from this [of "sub_id ` set subs" "t_now t" "db_subs db1"] show ?thesis using all(4) unfolding fin(2) by (rule trans)
  qed
qed

end

section \<open>Results are reused for 45 seconds at most\<close>

text \<open>Only results that are not empty are kept, so the values of the contract are a first result and the later ones.\<close>

definition recent_lookup :: "time \<Rightarrow> int \<times> bool \<Rightarrow> 'r recent \<Rightarrow> ('r \<times> 'r list) option" where
  "recent_lookup now k recent = (case fst (get_recent_search_results now k recent) of Some (x # xs) \<Rightarrow> Some (x, xs) | _ \<Rightarrow> None)"

definition recent_store :: "time \<Rightarrow> int \<times> bool \<Rightarrow> 'r \<times> 'r list \<Rightarrow> 'r recent \<Rightarrow> 'r recent" where
  "recent_store now k v = store_recent_search_results now k (fst v # snd v)"

lemma recent_lookup_eq:
  "recent_lookup now k c = (case map_of c k of Some (t, x # xs) \<Rightarrow> if 45 < now - t then None else Some (x, xs) | _ \<Rightarrow> None)"
  by (simp add: recent_lookup_def get_recent_search_results_def RECENT_SEARCH_TTL_SECONDS_def split: option.splits list.splits)

interpretation recents: expiring_cache recent_lookup recent_store "\<lambda>_. RECENT_SEARCH_TTL_SECONDS" "\<lambda>v. v"
  "\<lambda>n c. length c + n \<le> RECENT_SEARCH_MAX_ITEMS"
proof
  fix n and c :: "'r recent" and t now k k' and v :: "'r \<times> 'r list"
  assume "length c + Suc n \<le> RECENT_SEARCH_MAX_ITEMS"
  then have set: "recent_store now k v c = dict_set k (now, fst v # snd v) c"
    and short: "length (dict_set k (now, fst v # snd v) c) + n \<le> RECENT_SEARCH_MAX_ITEMS"
    using length_dict_set [of k "(now, fst v # snd v)" c] by (auto simp: recent_store_def store_recent_search_results_def)
  show "recent_lookup t k (recent_store now k v c) = Some v" if "t < now + RECENT_SEARCH_TTL_SECONDS"
    using that by (simp add: set recent_lookup_eq update_conv' RECENT_SEARCH_TTL_SECONDS_def)
  show "recent_lookup t k' (recent_store now k v c) = recent_lookup t k' c" if "k' \<noteq> k"
    using that by (simp add: set recent_lookup_eq update_conv')
  show "recent_lookup t k (recent_store now k v c) = None" if "now + RECENT_SEARCH_TTL_SECONDS < t"
    using that by (simp add: set recent_lookup_eq update_conv' RECENT_SEARCH_TTL_SECONDS_def)
  show "length (recent_store now k v c) + n \<le> RECENT_SEARCH_MAX_ITEMS"
    using short by (simp add: set)
qed

lemma recent_results_from:
  "(found, recent', st') = default_search w t sid inc checked (recent, st) \<Longrightarrow>
   (\<exists>t0 xs. map_of recent (sid, inc) = Some (t0, xs) \<and> t_clock t - t0 \<le> 45 \<and> found = xs \<and> st' = st)
   \<or> (found, st') = search_and_attach_resources w t sid inc checked st"
  by (auto simp: default_search_def get_recent_search_results_def RECENT_SEARCH_TTL_SECONDS_def split: option.splits prod.splits if_splits)

lemma drop_oldest_shorter:
  assumes "c \<noteq> []" "0 < n"
  shows "length (drop_oldest n c) < length c"
proof -
  let ?keys = "map fst (take n (sort_key (\<lambda>(_, t, _). t) c))"
  have "sort_key (\<lambda>(_, t, _). t) c \<noteq> []" using assms(1) by (metis length_0_conv length_sort)
  then obtain k ks where keys: "?keys = k # ks" using assms(2) by (cases ?keys) auto
  then have "k \<in> set ?keys" by simp
  then have "k \<in> fst ` set c" by (auto dest!: in_set_takeD)
  then have "length (dict_pop k c) < length c" by (force simp: AList.delete_eq length_filter_less)
  then show ?thesis using pop_fold_shorter [of ks "dict_pop k c"] by (simp add: drop_oldest_def keys)
qed

lemma recent_bounded: "length c \<le> RECENT_SEARCH_MAX_ITEMS \<Longrightarrow> length (store_recent_search_results now k results c) \<le> RECENT_SEARCH_MAX_ITEMS"
  using drop_oldest_shorter [of c "max 1 (RECENT_SEARCH_MAX_ITEMS div 4)"] length_dict_set [of k "(now, results)" c]
    length_dict_set [of k "(now, results)" "drop_oldest (max 1 (RECENT_SEARCH_MAX_ITEMS div 4)) c"]
  by (cases "c = []") (auto simp: store_recent_search_results_def RECENT_SEARCH_MAX_ITEMS_def)

end
