(* ===== verification/Example_Flow.thy ===== *)
theory Example_Flow
  imports Example_Data Search_Flow
begin

text \<open>
  A search of which the fast stage finds one magnet link and the full search nothing, and a world that
  answers nothing: the inputs at which the properties of a run are applied.
\<close>

section \<open>A link found by the fast stage\<close>

definition blind :: subscription where
  "blind = two_episodes\<lparr>emby_snapshot_failed := True\<rparr>"

lemma blind_fields [simp]:
  "media_type blind = Tv" "sub_title blind = show_title" "sub_keywords blind = []" "release_year blind = None"
  "tmdb_id blind = None" "quality_rules blind = PDict []" "emby_snapshot_failed blind" "sub_id blind = 1"
  by (simp_all add: blind_def)

lemma blind_missing: "missing_episode_keys blind = {(1, 2)}"
proof -
  have keys: "all_tmdb_episode_keys blind = {(1, 1), (1, 2)}"
    by (simp add: blind_def two_episodes_def blank_subscription_def all_tmdb_episode_keys_def keys_upto_def upto.simps insert_commute)
  have "owned_episode_keys blind = {(1, 1)}"
    by (simp add: owned_episode_keys_def explicit_owned_keys_def blind_def two_episodes_def blank_subscription_def Let_def)
  with keys show ?thesis by (auto simp: missing_episode_keys_def)
qed

definition magnet :: search_result where
  "magnet = titled show_title (u ''magnet:?x'')"

lemma magnet_fields [simp]:
  "r_title magnet = show_title" "r_url magnet = u ''magnet:?x''" "r_source magnet = []" "r_context magnet = []"
  "r_message_id magnet = None"
  by (simp_all add: magnet_def)

lemma magnet_kind: "\<not> starts_ed2k magnet" "\<not> is_ed2k_file magnet" "is_valid_download_link (r_url magnet)"
  by (simp_all add: starts_ed2k_def is_ed2k_file_def is_valid_download_link_def MAGNET_PREFIX_def py_defs chr_eval)

lemma magnet_matches: "result_matches_subscription blind magnet []"
proof -
  have plain: "match_text_of magnet [] = show_title" "result_text magnet [] = show_title"
    by (simp_all add: match_text_of_def magnet_kind subscription_match_text_def result_text_def join_lines_def or_str_def py_defs)
  have title: "title_term_in_text (u ''show'', u ''show'') show_title"
    by (rule title_found_exact) (simp_all add: show_texts)
  have terms: "subscription_required_terms blind = (Some (u ''show'', u ''show''), [])"
    by (simp add: subscription_required_terms_def match_term_def show_texts or_str_def Let_def)
  have id: "bare_tmdb_id blind = []"
    by (simp add: bare_tmdb_id_def tmdb_id_str_def py_defs)
  have year: "subscription_release_year blind = None"
    by (simp add: subscription_release_year_def show_texts)
  have "\<not> result_title_identity_conflicts blind magnet"
    by (simp add: result_title_identity_conflicts_def plain show_texts result_has_subscription_tmdb_id_def id Let_def)
  moreover have "release_year_matches blind magnet show_title []"
    by (simp add: release_year_matches_def year)
  moreover have "tmdb_or_title_matches blind show_title (Some (u ''show'', u ''show''))"
    by (simp add: tmdb_or_title_matches_def id title)
  moreover have "result_matches_quality_rules blind magnet []"
    by (simp add: result_matches_quality_rules_def quality_rule_skip_reason_def no_rules u_def)
  ultimately show ?thesis by (simp add: match_unfold plain terms)
qed

lemma magnet_accepted: "d_accepted (decide_resource_candidate blind magnet [])"
  by (simp add: accepted_iff magnet_kind(3) magnet_matches result_matches_missing_episodes_def del: magnet_fields(2))

lemma magnet_canonical: "canonical_result magnet = magnet"
  by (simp add: canonical_result_def canonical_115_url_def normalize_115_share_link_def py_defs re_eval re_pats chr_eval)

definition empty_db :: database where
  "empty_db = \<lparr>db_store = empty_store, db_stats = [], db_subs = [blind]\<rparr>"

lemma nothing_saved: "resource_already_exists r sub [] = None"
  by (simp add: resource_already_exists_def build_resource_row_index_def effective_rows_def List.map_filter_simps Let_def split: option.split)

lemma magnet_saved: "\<exists>row db'. save_telegram_result now blind magnet empty_db = (Saved row, db')"
proof -
  have "saved_rows blind empty_db = []"
    by (simp add: saved_rows_def existing_resource_rows_def empty_db_def empty_store_def)
  moreover have "\<exists>row st. insert_resource now 1 (Some blind) magnet empty_store = (Some row, st)"
    using magnet_accepted magnet_kind(3)
    by (simp add: insert_resource_def magnet_canonical allowed_accepted existing_resource_rows_def empty_store_def nothing_saved
        insert_row_def Let_def del: magnet_fields(2))
  ultimately show ?thesis
    by (auto simp: save_telegram_result_def nothing_saved insert_into_def insert_resource_automatic_def empty_db_def)
qed

definition fast_finds :: telegram where
  "fast_finds stage sh = (case stage of Fast \<Rightarrow> (Found [magnet], sh) | _ \<Rightarrow> (History_Timeout, sh))"

lemma matching_magnet: "matching_results blind [magnet] [] = [magnet]"
  by (simp add: matching_results_def magnet_accepted)

lemma fast_stage_saves:
  "\<exists>row sh db1 matches summary. run_telegram_search_stage now fast_finds blind Fast fresh_state empty_db = (([row], matches, summary), sh, db1)"
proof -
  obtain row db' where save: "save_telegram_result now blind magnet empty_db = (Saved row, db')" using magnet_saved by blast
  have "attach_telegram_loop now blind [magnet] no_progress empty_db = (note_saved blind magnet row no_progress, db')"
    by (simp add: save no_progress_def Let_def)
  then show ?thesis
    by (simp add: run_telegram_search_stage_def search_telegram_history_def fast_finds_def attach_telegram_results_def
        magnet_kind(1) matching_magnet fallback_result_candidates_def note_saved_def no_progress_def Let_def)
qed

lemma empty_db_ok: "store_ok (db_store empty_db)"
  by (simp add: empty_db_def empty_store_ok)

text \<open>The full search finds nothing, so nothing is returned.\<close>

lemma full_stage_empty:
  "\<exists>summary db2. full_search now fast_finds blind False sh db = (([], [], summary), db2)"
  by (simp add: full_search_def run_telegram_search_stage_def search_telegram_history_def fast_finds_def attach_telegram_results_def
      matching_results_def fallback_result_candidates_def no_progress_def search_and_attach_ed2k_def ed2k_results_def no_ed2k_def Let_def)

lemma first_returns_nothing:
  "\<exists>summary db'. search_telegram_first now fast_finds False blind empty_db = (([], [], summary), db')"
proof -
  obtain row sh db1 matches summary where
    st: "run_telegram_search_stage now fast_finds blind Fast fresh_state empty_db = (([row], matches, summary), sh, db1)"
    using fast_stage_saves by blast
  have "subscription_has_missing_episodes blind" by (simp add: subscription_has_missing_episodes_def blind_missing)
  then show ?thesis using full_stage_empty [of now "recheck_sources summary matches (forget_seen sh)" db1]
    by (simp add: search_telegram_first_def st)
qed

section \<open>A world that answers nothing\<close>

definition quiet_outside :: outside where
  "quiet_outside = \<lparr>o_configured = False, o_tmdb = None, o_library = No_Library, o_telegram = fast_finds,
     o_fallback = (\<lambda>_. Sources_Timeout), o_deliver = deliver_via open_world (u ''t1'')\<rparr>"

definition some_times :: times where
  "some_times = \<lparr>t_now = u ''t1'', t_cutoff = u ''t0'', t_clock = 100\<rparr>"

end
