(* ===== verification/Example_Crud.thy ===== *)
theory Example_Crud
  imports Search_Schedule Example_Flow
begin

text \<open>
  Two rows with the same TMDB id, of which the older is completed, a resource of the first one, and a
  search of both that times out for one and meets a held lock for the other: the inputs at which the
  properties of the management and of the search of all are applied.
\<close>

section \<open>A completed copy and a row that is followed\<close>

definition old_copy :: subscription where
  "old_copy = blank_subscription\<lparr>tmdb_id := Some 42, sub_status := COMPLETED\<rparr>"

definition followed :: subscription where
  "followed = blank_subscription\<lparr>sub_id := 2, tmdb_id := Some 42\<rparr>"

definition two_rows :: crud_state where
  "two_rows =
     \<lparr>cr_db = \<lparr>db_store = \<lparr>st_rows = [saved_row], st_next_id = 2\<rparr>, db_stats = [], db_subs = [old_copy, followed]\<rparr>,
      cr_next = 3, cr_lists = (\<lambda>_. None)\<rparr>"

definition same_again :: payload where
  "same_again = \<lparr>pl_title = show_title, pl_media = Tv, pl_tmdb = Some 42, pl_year = None, pl_keywords = [], pl_rules = PDict [], pl_total = 0\<rparr>"

lemma copy_fields [simp]:
  "sub_id old_copy = 1" "sub_status old_copy = COMPLETED" "tmdb_id old_copy = Some 42" "media_type old_copy = Tv"
  "sub_id followed = 2" "sub_status followed = u ''active''" "tmdb_id followed = Some 42" "media_type followed = Tv"
  by (simp_all add: old_copy_def followed_def blank_subscription_def)

lemma two_rows_parts [simp]:
  "cr_subs two_rows = [old_copy, followed]" "st_rows (db_store (cr_db two_rows)) = [saved_row]" "cr_next two_rows = 3"
  "db_subs (cr_db two_rows) = [old_copy, followed]"
  by (simp_all add: two_rows_def cr_subs_def)

lemma active_open [simp]: "u ''active'' \<noteq> COMPLETED"
  by (simp add: COMPLETED_def u_def)

lemma index_of_two [simp]: "index_entry old_copy = None" "index_entry followed = Some (Tv, 42)"
  by (simp_all add: index_entry_def)

lemma saved_row_fields [simp]: "rr_id saved_row = 1" "rr_subscription saved_row = 1"
  by (simp_all add: saved_row_def)

lemma two_rows_ok: "crud_ok two_rows"
proof -
  have "store_ok (db_store (cr_db two_rows))" by (simp add: store_ok_def two_rows_def)
  then show ?thesis by (simp add: crud_ok_def subs_ok_def index_unique_def)
qed

lemma old_copy_hidden: "subscription_should_hide old_copy"
  by (simp add: subscription_should_hide_def)

lemma copy_found: "List.find (same_tmdb Tv 42) (cr_subs two_rows) = Some old_copy"
  by (simp add: same_tmdb_def)

text \<open>The time of the last check has no part in what is missing.\<close>

lemma checked_missing [simp]: "missing_episode_keys (s\<lparr>last_checked_at := v\<rparr>) = missing_episode_keys s"
proof -
  have "all_tmdb_episode_keys (s\<lparr>last_checked_at := v\<rparr>) = all_tmdb_episode_keys s"
    by (simp add: all_tmdb_episode_keys_def Let_def)
  moreover from this have "owned_episode_keys (s\<lparr>last_checked_at := v\<rparr>) = owned_episode_keys s"
    by (simp add: owned_episode_keys_def explicit_owned_keys_def Let_def cong: option.case_cong)
  ultimately show ?thesis by (simp add: missing_episode_keys_def)
qed

section \<open>A search of two subscriptions\<close>

definition two_active :: database where
  "two_active = \<lparr>db_store = empty_store, db_stats = [], db_subs = [blind, followed]\<rparr>"

definition bad_endings :: "int \<Rightarrow> ending" where
  "bad_endings sid = (if sid = 1 then Timed_Out_After (\<lambda>ss. ss) else Lock_Held)"

lemma bad_endings_ok: "cut_ok sid (bad_endings sid)"
  by (simp add: cut_ok_def bad_endings_def)

lemma two_are_active: "\<forall>s \<in> set [blind, followed]. is_active_in two_active s \<and> cut_ok (sub_id s) (bad_endings (sub_id s))"
proof -
  have "sub_status blind = u ''active''" by (simp add: blind_def two_episodes_def blank_subscription_def)
  then show ?thesis by (simp add: is_active_in_def two_active_def get_subscription_def bad_endings_ok)
qed

lemma two_search:
  "search_all_active_subscriptions bad_endings (\<lambda>_. 1) (\<lambda>_. None) quiet_outside some_times True [blind, followed] ([], two_active, []) =
     (\<lparr>sr_searched = 2, sr_created = 0, sr_failed = 1\<rparr>, [], fold (mark_checked (u ''t1'')) [1, 2] two_active, [])"
proof -
  have "sub_status blind = u ''active''" by (simp add: blind_def two_episodes_def blank_subscription_def)
  then show ?thesis
    by (simp add: search_all_waves taken_up_def search_one_def two_active_def get_subscription_def guarded_search_def bad_endings_def
        report_of_def flush_pending_checked_def some_times_def Let_def)
qed

end
