(* ===== verification/Library_Health.thy ===== *)
theory Library_Health
  imports Resource_Store Episode_Summary
begin

text \<open>
  \<open>app/services/subscription/library/health.py\<close>: the column \<open>health\<close> of the list of subscriptions.  The wording of the
  labels is left to the constructors of \<open>health\<close>; the summary of the missing episodes is written out.
  Shown: the summary groups exactly the missing episodes and is the grouping of \<open>Episode_Summary\<close>; a
  subscription that misses episodes is not shown as complete; a delivery that failed in the delivery service is not
  counted.
\<close>

section \<open>The summary of episodes\<close>

definition seasons_of :: "ekey set \<Rightarrow> int list" where
  "seasons_of keys = sorted_list_of_set (fst ` keys)"

definition episodes_of :: "ekey set \<Rightarrow> int \<Rightarrow> int list" where
  "episodes_of keys s = sort (map snd (filter (\<lambda>k. fst k = s) (sorted_list_of_set keys)))"

definition health_ranges :: "ekey set \<Rightarrow> (int \<times> int \<times> int) list" where
  "health_ranges keys = concat (map (\<lambda>s. map (Pair s) (season_ranges (episodes_of keys s))) (seasons_of keys))"

definition health_part :: "int \<times> int \<times> int \<Rightarrow> pystr" where
  "health_part = (\<lambda>(s, a, b). [83] @ fmt02 s @ [69] @ (if a = b then int_str a else int_str a @ [45] @ int_str b))"

definition episode_range_summary :: "nat \<Rightarrow> ekey set \<Rightarrow> pystr" where
  "episode_range_summary limit keys =
     (if keys = {} then []
      else let ranges = map health_part (health_ranges keys) in
        if limit < length ranges then join [0x3001] (take limit ranges) @ [32, 0x7B49, 32] @ dec_str (card keys) @ [32, 0x96C6]
        else join [0x3001] ranges)"

section \<open>The health of a subscription\<close>

datatype health = Subscription_Complete | Deliveries_Failed nat | Waiting_For_Search | Following nat pystr | Running_Well

datatype health_mark = Mark_Ok | Mark_Danger | Mark_Idle

fun mark_of_health :: "health \<Rightarrow> health_mark" where
  "mark_of_health Subscription_Complete = Mark_Ok"
| "mark_of_health (Deliveries_Failed n) = Mark_Danger"
| "mark_of_health Waiting_For_Search = Mark_Idle"
| "mark_of_health (Following n missing) = Mark_Ok"
| "mark_of_health Running_Well = Mark_Ok"

record health_view =
  hv_health :: health
  hv_last_checked :: "pystr option"
  hv_latest_status :: pystr
  hv_failed :: nat
  hv_missing_count :: nat
  hv_missing_summary :: pystr

definition subscription_health_from_stats :: "subscription \<Rightarrow> nat \<Rightarrow> pystr option \<Rightarrow> health_view" where
  "subscription_health_from_stats sub failed latest_status =
     (let missing = missing_episode_keys sub in
      \<lparr>hv_health =
         (if sub_status sub = COMPLETED \<or> subscription_is_complete sub None None then Subscription_Complete
          else if failed \<noteq> 0 then Deliveries_Failed failed
          else if last_checked_at sub \<in> {None, Some []} then Waiting_For_Search
          else if media_type sub = Tv \<and> missing \<noteq> {} then Following (card missing) (episode_range_summary 4 missing)
          else Running_Well),
       hv_last_checked = last_checked_at sub,
       hv_latest_status = (case latest_status of None \<Rightarrow> [] | Some s \<Rightarrow> s),
       hv_failed = failed,
       hv_missing_count = card missing,
       hv_missing_summary = episode_range_summary 4 missing\<rparr>)"

definition failed_resources :: "int \<Rightarrow> resource_row list \<Rightarrow> nat" where
  "failed_resources sid table = length (filter (\<lambda>row. rr_subscription row = sid \<and> rr_status row = u ''failed'') table)"

text \<open>The row of a subscription with the greatest id\<close>

definition latest_resource_status :: "int \<Rightarrow> resource_row list \<Rightarrow> pystr option" where
  "latest_resource_status sid table =
     (let own = filter (\<lambda>row. rr_subscription row = sid) table in
      if own = [] then None else map_option rr_status (List.find (\<lambda>row. rr_id row = Max (rr_id ` set own)) own))"

definition enrich_subscriptions_with_health :: "resource_row list \<Rightarrow> subscription list \<Rightarrow> (subscription \<times> health_view) list" where
  "enrich_subscriptions_with_health table subs =
     map (\<lambda>s. (s, subscription_health_from_stats s (failed_resources (sub_id s) table) (latest_resource_status (sub_id s) table))) subs"

section \<open>The summary covers the episodes\<close>

lemma episodes_of_season: "episodes_of keys s = map snd (filter (\<lambda>k. fst k = s) (sorted_list_of_set keys))"
proof -
  have "sorted_wrt (<) (sorted_list_of_set keys)" by (rule strict_sorted_list_of_set)
  then have "sorted_wrt (<) (map snd (filter (\<lambda>k. fst k = s) (sorted_list_of_set keys)))" by (rule strict_sorted_season)
  then show ?thesis by (simp add: episodes_of_def sorted_sort_id strict_sorted_iff)
qed

lemma remdups_adj_sorted: "sorted (xs :: int list) \<Longrightarrow> remdups_adj xs = sorted_list_of_set (set xs)"
proof -
  assume "sorted xs"
  then have "sorted_wrt (<) (remdups_adj xs)"
    by (induction xs rule: remdups_adj.induct) (auto simp: le_less)
  then show ?thesis using sorted_list_of_set.idem_if_sorted_distinct [of "remdups_adj xs"] by (simp add: strict_sorted_iff)
qed

lemma seasons_grouped: "finite keys \<Longrightarrow> remdups_adj (map fst (sorted_list_of_set keys)) = seasons_of keys"
proof -
  assume fin: "finite keys"
  have "sorted (map fst ks)" if "sorted (ks :: ekey list)" for ks
    using that by (induction ks) (auto simp: less_eq_prod_def)
  then have "sorted (map fst (sorted_list_of_set keys))" by simp
  from remdups_adj_sorted [OF this] show ?thesis using fin by (simp add: seasons_of_def)
qed

theorem health_ranges_same: "finite keys \<Longrightarrow> health_ranges keys = episode_ranges keys"
  using seasons_grouped [of keys] by (simp add: health_ranges_def episode_ranges_def grouped_def episodes_of_season comp_def)

section \<open>What is shown\<close>

lemma missing_not_complete:
  assumes "media_type sub = Tv" "missing_episode_keys sub \<noteq> {}" "sub_status sub \<noteq> COMPLETED" "\<not> subscription_is_complete sub None None"
  shows "hv_health (subscription_health_from_stats sub failed latest) \<notin> {Subscription_Complete, Running_Well}"
  using assms by (auto simp: subscription_health_from_stats_def Let_def)

text \<open>Only the status \<open>failed\<close> counts, not those the delivery writes.\<close>

lemma delivery_failures_unseen:
  assumes "\<forall>row \<in> set table. rr_status row \<in> {u ''delivery_failed_final'', u ''delivery_failed_retryable'', u ''link_invalid''}"
  shows "failed_resources sid table = 0"
  using assms by (auto simp: failed_resources_def filter_empty_conv u_def)

end
