(* ===== verification/Attach.thy ===== *)
theory Attach
  imports Search_Schedule
begin

text \<open>
  \<open>app/services/subscription/attach/\<close> and \<open>delivery/link_validation.py\<close>: links that arrive on their own - a message of a
  watched channel, a feed - are attached to the subscriptions they match and delivered.  The links, the
  library, TMDB and the delivery are parameters; the list of subscriptions is that of \<open>Subscription_Crud\<close> with
  its cache; no row is deleted while a run goes on.  Notifications and logs are left out.
  Shown: the list of 115 resources that the loop carries along is that of the table; what is attached was
  accepted, is new in the table and pending; at most one resource of a fallback source is attached to a
  subscription, and it has the highest priority among those accepted; only subscriptions that are active receive anything.
\<close>

section \<open>One subscription\<close>

definition result_matches :: "subscription \<Rightarrow> search_result \<Rightarrow> bool" where
  "result_matches sub r = d_accepted (decide_resource_candidate sub r [])"

definition is_115_row :: "resource_row \<Rightarrow> bool" where
  "is_115_row row \<longleftrightarrow> re_match PAN115_URL_RE (rr_url row) \<noteq> None"

text \<open>
  The priority of the first fallback that was accepted, and whether one was attached, are carried along.
  The insertion writes the canonical link back into the result, which the next subscriptions see.
\<close>

definition first_priority :: "bool \<Rightarrow> search_result \<Rightarrow> int option \<Rightarrow> int option" where
  "first_priority is_fallback r best = (if is_fallback \<and> best = None then Some (result_priority r) else best)"

definition passed_over :: "bool \<Rightarrow> search_result \<Rightarrow> int option \<Rightarrow> bool \<Rightarrow> bool" where
  "passed_over is_fallback r best picked \<longleftrightarrow>
     is_fallback \<and> (picked \<or> (case best of None \<Rightarrow> False | Some p \<Rightarrow> result_priority r < p))"

fun attach_results_loop ::
    "pystr \<Rightarrow> subscription \<Rightarrow> resource_row list \<Rightarrow> int option \<Rightarrow> bool \<Rightarrow> search_result list \<Rightarrow> database
     \<Rightarrow> resource_row list \<times> search_result list \<times> database" where
  "attach_results_loop now sub existing_115 best picked [] db = ([], [], db)"
| "attach_results_loop now sub existing_115 best picked (r # rs) db =
     (let is_fallback = result_is_fallback_source r in
      if passed_over is_fallback r best picked \<or> \<not> result_matches sub r
      then (case attach_results_loop now sub existing_115 best picked rs db of (made, rs', db') \<Rightarrow> (made, r # rs', db'))
      else if fallback_blocked_by_primary_resource sub r existing_115
      then (case attach_results_loop now sub existing_115 (first_priority is_fallback r best) picked rs db of
              (made, rs', db') \<Rightarrow> (made, r # rs', db'))
      else case insert_into now sub r db of
        (None, db1) \<Rightarrow>
          (case attach_results_loop now sub existing_115 (first_priority is_fallback r best) picked rs db1 of
             (made, rs', db') \<Rightarrow> (made, canonical_result r # rs', db'))
      | (Some row, db1) \<Rightarrow>
          (case attach_results_loop now sub (if is_115_row row then row # existing_115 else existing_115)
                  (first_priority is_fallback r best) (picked \<or> is_fallback) rs db1 of
             (made, rs', db') \<Rightarrow> (row # made, canonical_result r # rs', db')))"

definition attach_results_for_subscription ::
    "pystr \<Rightarrow> subscription \<Rightarrow> search_result list \<Rightarrow> database \<Rightarrow> resource_row list \<times> search_result list \<times> database" where
  "attach_results_for_subscription now sub results db =
     attach_results_loop now sub (subscription_115_resources (sub_id sub) (st_rows (db_store db))) None False results db"

section \<open>All subscriptions\<close>

definition message_id_str :: "search_result \<Rightarrow> pystr" where
  "message_id_str r = (case r_message_id r of None \<Rightarrow> u ''None'' | Some m \<Rightarrow> m)"

definition result_order_key :: "search_result \<Rightarrow> int \<times> pystr \<times> pystr" where
  "result_order_key r = (- result_priority r, r_source r, message_id_str r)"

definition filter_available_115_results :: "search_result list \<Rightarrow> search_result list" where
  "filter_available_115_results results = results"

text \<open>What a run asks the outside for, and its times: \<open>aw_later\<close> is that of the second reading of the list.\<close>

record attach_world =
  aw_configured :: bool
  aw_tmdb :: "int \<Rightarrow> pyval option"
  aw_details :: "int \<Rightarrow> pyval"
  aw_library :: library_answer
  aw_deliver :: deliver
  aw_now :: pystr
  aw_clock :: time
  aw_later :: time

type_synonym attach_state = "search_result list \<times> state"

definition attach_one :: "attach_world \<Rightarrow> pystr \<Rightarrow> subscription \<Rightarrow> attach_state \<Rightarrow> resource_row list \<times> attach_state" where
  "attach_one w message given = (\<lambda>(results, db, memo).
     (if \<not> results_may_match_subscription given results [message] then ([], results, db, memo)
      else let sub0 = (case get_subscription (sub_id given) (db_subs db) of None \<Rightarrow> given | Some s \<Rightarrow> s) in
        if sub_status sub0 \<noteq> u ''active'' then ([], results, db, memo)
        else case enrich_subscription_with_library (aw_configured w) (aw_clock w) (aw_tmdb w (sub_id sub0)) (aw_library w) sub0 (db_subs db) memo of
          (sub, subs, memo') \<Rightarrow>
            (if subscription_should_hide sub
             then ([], results, db\<lparr>db_subs := snd (mark_completed_subscription (aw_now w) sub subs)\<rparr>, memo')
             else case attach_results_for_subscription (aw_now w) sub results (db\<lparr>db_subs := subs\<rparr>) of
               (made, results', db') \<Rightarrow> (made, results', db', memo'))))"

fun attach_each :: "attach_world \<Rightarrow> pystr \<Rightarrow> subscription list \<Rightarrow> attach_state \<Rightarrow> resource_row list \<times> attach_state" where
  "attach_each w message [] st = ([], st)"
| "attach_each w message (s # subs) st =
     (case attach_one w message s st of
        (made, st1) \<Rightarrow> (case attach_each w message subs st1 of (made', st2) \<Rightarrow> (made @ made', st2)))"

text \<open>An exception of a delivery ends the run.\<close>

fun deliver_each :: "deliver \<Rightarrow> int list \<Rightarrow> database \<Rightarrow> pystr option \<times> database" where
  "deliver_each deliver [] db = (None, db)"
| "deliver_each deliver (rid # rids) db =
     (case deliver rid db of
        (Inl e, db1) \<Rightarrow> (Some e, db1)
      | (Inr ok, db1) \<Rightarrow> deliver_each deliver rids db1)"

text \<open>The subscriptions of the run; a library that answers is synchronised first, and the list is read again.\<close>

definition synced_subscriptions :: "attach_world \<Rightarrow> crud_state \<Rightarrow> subscription list \<times> crud_state" where
  "synced_subscriptions w cs =
     (case active_subscriptions (aw_clock w) cs of
        (subs, cs1) \<Rightarrow>
          (case aw_library w of
             Library lib \<Rightarrow>
               active_subscriptions (aw_later w)
                 (put_subs (snd (sync_subscriptions_with_emby_snapshot (aw_now w) (lib_snap lib) (aw_details w) subs (cr_subs cs1))) cs1)
           | _ \<Rightarrow> (subs, cs1)))"

definition attach_results_to_matching_subscriptions ::
    "attach_world \<Rightarrow> search_result list \<Rightarrow> pystr \<Rightarrow> crud_state \<times> (int \<times> time) list
     \<Rightarrow> (pystr + nat) \<times> crud_state \<times> (int \<times> time) list" where
  "attach_results_to_matching_subscriptions w results message = (\<lambda>(cs, memo).
     (case synced_subscriptions w cs of
        (subs, cs1) \<Rightarrow>
          (case attach_each w message subs (filter_available_115_results (sort_key result_order_key results), cr_db cs1, memo) of
             (made, _, db, memo') \<Rightarrow>
               (case deliver_each (aw_deliver w) (map rr_id made) db of
                  (Some e, db') \<Rightarrow> (Inl e, cs1\<lparr>cr_db := db'\<rparr>, memo')
                | (None, db') \<Rightarrow> (Inr (length made), cs1\<lparr>cr_db := db'\<rparr>, memo')))))"

section \<open>Feeds\<close>

definition active_subscription_queries :: "subscription list \<Rightarrow> pystr list" where
  "active_subscription_queries subs =
     concat (map (\<lambda>s. let title = subscription_search_title s in
        if title = [] then []
        else title # map (\<lambda>k. title @ u '' '' @ strip k) (filter (\<lambda>k. strip k \<noteq> [] \<and> strip k \<noteq> title) (extra_search_keywords s))) subs)"

text \<open>\<open>fetch\<close> answers the queries with the links of the feeds that are due.\<close>

definition refresh_rss_sources ::
    "attach_world \<Rightarrow> (pystr list \<Rightarrow> search_result list) \<Rightarrow> crud_state \<times> (int \<times> time) list
     \<Rightarrow> (pystr + nat \<times> nat) \<times> crud_state \<times> (int \<times> time) list" where
  "refresh_rss_sources w fetch = (\<lambda>(cs, memo).
     (case active_subscriptions (aw_clock w) cs of
        (subs, cs1) \<Rightarrow>
          (let results = fetch (active_subscription_queries subs) in
           if results = [] then (Inr (0, 0), cs1, memo)
           else case attach_results_to_matching_subscriptions w results [] (cs1, memo) of
             (Inl e, st) \<Rightarrow> (Inl e, st)
           | (Inr n, st) \<Rightarrow> (Inr (length results, n), st))))"

section \<open>The resources that are carried along\<close>

lemma insert_into_result:
  assumes "insert_into now sub r db = (row_opt, db')"
  shows "db_subs db' = db_subs db"
    "row_opt = None \<Longrightarrow> db_store db' = db_store db"
    "row_opt = Some row \<Longrightarrow> st_rows (db_store db') = st_rows (db_store db) @ [row] \<and> rr_subscription row = sub_id sub
       \<and> rr_status row = u ''pending'' \<and> rr_source row = r_source r \<and> rr_url row = r_url (canonical_result r)"
  using assms
  by (auto simp: insert_into_def insert_resource_automatic_def insert_resource_def insert_row_def canonical_result_def Let_def
      split: option.splits prod.splits if_splits)

lemma pending_not_blocked [simp]: "u ''pending'' \<notin> set BLOCKED_STATUSES"
  by (simp add: BLOCKED_STATUSES_def u_def)

definition carried_115 :: "subscription \<Rightarrow> database \<Rightarrow> resource_row list" where
  "carried_115 sub db = subscription_115_resources (sub_id sub) (st_rows (db_store db))"

lemma carried_after_insert:
  assumes "insert_into now sub r db = (row_opt, db')"
  shows "carried_115 sub db' = (case row_opt of Some row \<Rightarrow> if is_115_row row then row # carried_115 sub db else carried_115 sub db
      | None \<Rightarrow> carried_115 sub db)"
proof (cases row_opt)
  case None
  then show ?thesis using insert_into_result(2) [OF assms] by (simp add: carried_115_def)
next
  case (Some row)
  then show ?thesis using insert_into_result(3) [OF assms Some]
    by (simp add: carried_115_def subscription_115_resources_def is_115_row_def)
qed


text \<open>The loop that reads the resources anew for each result is the same loop.\<close>

fun attach_fresh_loop ::
    "pystr \<Rightarrow> subscription \<Rightarrow> int option \<Rightarrow> bool \<Rightarrow> search_result list \<Rightarrow> database
     \<Rightarrow> resource_row list \<times> search_result list \<times> database" where
  "attach_fresh_loop now sub best picked [] db = ([], [], db)"
| "attach_fresh_loop now sub best picked (r # rs) db =
     (let is_fallback = result_is_fallback_source r; best' = first_priority is_fallback r best in
      if passed_over is_fallback r best picked \<or> \<not> result_matches sub r
      then (case attach_fresh_loop now sub best picked rs db of (made, rs', db') \<Rightarrow> (made, r # rs', db'))
      else if fallback_blocked_by_primary_resource sub r (carried_115 sub db)
      then (case attach_fresh_loop now sub best' picked rs db of (made, rs', db') \<Rightarrow> (made, r # rs', db'))
      else case insert_into now sub r db of
        (row_opt, db1) \<Rightarrow>
          (case attach_fresh_loop now sub best' (picked \<or> row_opt \<noteq> None \<and> is_fallback) rs db1 of
             (made, rs', db') \<Rightarrow> ((case row_opt of None \<Rightarrow> made | Some row \<Rightarrow> row # made), canonical_result r # rs', db')))"

lemma attach_loop_fresh:
  "attach_results_loop now sub (carried_115 sub db) best picked rs db = attach_fresh_loop now sub best picked rs db"
proof (induction rs arbitrary: best picked db)
  case (Cons r rs)
  obtain row_opt db1 where i: "insert_into now sub r db = (row_opt, db1)" by (rule prod.exhaust)
  note carried = carried_after_insert [OF i]
  have later: "attach_results_loop now sub (case row_opt of Some row \<Rightarrow> if is_115_row row then row # carried_115 sub db else carried_115 sub db
      | None \<Rightarrow> carried_115 sub db) best picked rs db1 = attach_fresh_loop now sub best picked rs db1" for best picked
    using Cons.IH [of db1] by (simp only: carried)
  show ?case
    using Cons.IH [of db] later by (cases row_opt) (simp_all add: i Let_def)
qed simp

lemma attach_for_subscription_fresh:
  "attach_results_for_subscription now sub rs db = attach_fresh_loop now sub None False rs db"
  using attach_loop_fresh [of now sub db None False rs] by (simp add: attach_results_for_subscription_def carried_115_def)

section \<open>What is attached to one subscription\<close>

text \<open>The cases of one step\<close>

lemma attach_step:
  assumes "attach_fresh_loop now sub best picked (r # rs) db = (made, rs', db')"
  obtains (passed) rs1 where "passed_over (result_is_fallback_source r) r best picked \<or> \<not> result_matches sub r"
      "attach_fresh_loop now sub best picked rs db = (made, rs1, db')" "rs' = r # rs1"
  | (blocked) rs1 where "\<not> passed_over (result_is_fallback_source r) r best picked" "result_matches sub r"
      "attach_fresh_loop now sub (first_priority (result_is_fallback_source r) r best) picked rs db = (made, rs1, db')" "rs' = r # rs1"
  | (refused) rs1 db1 where "\<not> passed_over (result_is_fallback_source r) r best picked" "result_matches sub r"
      "insert_into now sub r db = (None, db1)"
      "attach_fresh_loop now sub (first_priority (result_is_fallback_source r) r best) picked rs db1 = (made, rs1, db')" "rs' = canonical_result r # rs1"
  | (attached) row made1 rs1 db1 where "\<not> passed_over (result_is_fallback_source r) r best picked" "result_matches sub r"
      "insert_into now sub r db = (Some row, db1)" "made = row # made1"
      "attach_fresh_loop now sub (first_priority (result_is_fallback_source r) r best) (picked \<or> result_is_fallback_source r) rs db1 = (made1, rs1, db')"
      "rs' = canonical_result r # rs1"
proof -
  obtain row_opt db1 where i: "insert_into now sub r db = (row_opt, db1)" by (rule prod.exhaust)
  consider "passed_over (result_is_fallback_source r) r best picked \<or> \<not> result_matches sub r"
    | "\<not> passed_over (result_is_fallback_source r) r best picked" "result_matches sub r" "fallback_blocked_by_primary_resource sub r (carried_115 sub db)"
    | "\<not> passed_over (result_is_fallback_source r) r best picked" "result_matches sub r" "\<not> fallback_blocked_by_primary_resource sub r (carried_115 sub db)"
    by blast
  then show thesis
  proof cases
    case 1
    then show thesis using assms by (auto simp: Let_def split: prod.splits intro!: passed)
  next
    case 2
    then show thesis using assms by (auto simp: Let_def split: prod.splits intro!: blocked)
  next
    case 3
    then show thesis using assms i by (cases row_opt) (auto simp: Let_def split: prod.splits intro: refused attached)
  qed
qed

lemma attach_own: "attach_fresh_loop now sub best picked rs db = (made, rs', db') \<Longrightarrow> own_changes (sub_id sub) db db'"
proof (induction rs arbitrary: best picked db made rs')
  case (Cons r rs)
  from Cons.prems show ?case
    by (cases rule: attach_step) (blast intro: Cons.IH own_changes_trans insert_into_own)+
qed simp

lemma attach_made:
  "attach_fresh_loop now sub best picked rs db = (made, rs', db') \<Longrightarrow>
     st_rows (db_store db') = st_rows (db_store db) @ made \<and> db_subs db' = db_subs db \<and> length rs' = length rs
     \<and> (\<forall>row \<in> set made. rr_subscription row = sub_id sub \<and> rr_status row = u ''pending''
       \<and> (\<exists>x \<in> set rs. result_matches sub x \<and> rr_source row = r_source x \<and> rr_url row = r_url (canonical_result x)))"
proof (induction rs arbitrary: best picked db made rs')
  case (Cons r rs)
  from Cons.prems show ?case
  proof (cases rule: attach_step)
    case (attached row made1 rs1 db1)
    then show ?thesis using Cons.IH [OF attached(5)] insert_into_result [OF attached(3)] by auto
  next
    case (refused rs1 db1)
    then show ?thesis using Cons.IH [OF refused(4)] insert_into_result [OF refused(3)] by auto
  qed (auto dest: Cons.IH)
qed simp

text \<open>One resource of a fallback source at most\<close>

definition fallback_row :: "resource_row \<Rightarrow> bool" where
  "fallback_row row \<longleftrightarrow>
     list_ex (\<lambda>p. starts_with p (casefold (rr_source row))) (map u [''rss:'', ''torznab:'', ''magnet_web:'', ''site_plugin:''])"

lemma fallback_row_iff: "rr_source row = r_source r \<Longrightarrow> fallback_row row = result_is_fallback_source r"
  by (simp add: fallback_row_def result_is_fallback_source_def)

lemma one_fallback:
  "attach_fresh_loop now sub best picked rs db = (made, rs', db') \<Longrightarrow>
     length (filter fallback_row made) \<le> (if picked then 0 else 1)"
proof (induction rs arbitrary: best picked db made rs')
  case (Cons r rs)
  from Cons.prems show ?case
  proof (cases rule: attach_step)
    case (attached row made1 rs1 db1)
    have "result_is_fallback_source r \<Longrightarrow> \<not> picked" using attached(1) by (auto simp: passed_over_def)
    then show ?thesis
      using Cons.IH [OF attached(5)] insert_into_result(3) [OF attached(3) refl] fallback_row_iff [of row r] attached(4)
      by (auto split: if_splits)
  qed (blast intro: Cons.IH)+
qed simp

text \<open>The highest priority among those accepted\<close>

definition attached_from :: "subscription \<Rightarrow> int option \<Rightarrow> search_result list \<Rightarrow> resource_row \<Rightarrow> search_result \<Rightarrow> bool" where
  "attached_from sub best rs row x \<longleftrightarrow>
     rr_source row = r_source x \<and> rr_url row = r_url (canonical_result x) \<and> result_matches sub x
     \<and> (case best of Some p \<Rightarrow> result_priority x = p
        | None \<Rightarrow> \<forall>y \<in> set rs. result_is_fallback_source y \<and> result_matches sub y \<longrightarrow> result_priority y \<le> result_priority x)"

lemma attached_from_step:
  assumes "attached_from sub (first_priority (result_is_fallback_source r) r best) rs row x" "result_priority x \<le> result_priority r"
    "\<forall>y \<in> set rs. result_priority y \<le> result_priority r"
  shows "attached_from sub best (r # rs) row x"
  using assms by (cases best) (auto simp: attached_from_def first_priority_def split: if_splits)

lemma attached_from_skip:
  assumes "attached_from sub best rs row x" "best = None \<Longrightarrow> \<not> (result_is_fallback_source r \<and> result_matches sub r)"
  shows "attached_from sub best (r # rs) row x"
  using assms by (cases best) (auto simp: attached_from_def)

lemma best_fallback_first:
  assumes "attach_fresh_loop now sub best picked rs db = (made, rs', db')" "row \<in> set made" "fallback_row row"
    "sorted (map (\<lambda>r. - result_priority r) rs)" "\<forall>p. best = Some p \<longrightarrow> (\<forall>x \<in> set rs. result_priority x \<le> p)"
  shows "\<exists>x \<in> set rs. attached_from sub best rs row x"
  using assms
proof (induction rs arbitrary: best picked db made rs')
  case (Cons r rs)
  let ?fb = "result_is_fallback_source r"
  have tail: "sorted (map (\<lambda>r. - result_priority r) rs)" "\<forall>x \<in> set rs. result_priority x \<le> result_priority r" using Cons.prems(4) by auto
  have below: "\<forall>p. first_priority ?fb r best = Some p \<longrightarrow> (\<forall>x \<in> set rs. result_priority x \<le> p)"
    using Cons.prems(5) tail(2) by (auto simp: first_priority_def split: if_splits)
  have step: ?case if l: "attach_fresh_loop now sub (first_priority ?fb r best) picked1 rs db2 = (made1, rs1, db')" and row: "row \<in> set made1"
    for picked1 db2 made1 rs1
  proof -
    from Cons.IH [OF l row Cons.prems(3) tail(1) below] obtain x where x: "x \<in> set rs" "attached_from sub (first_priority ?fb r best) rs row x" ..
    have "attached_from sub best (r # rs) row x" using attached_from_step [OF x(2) _ tail(2)] tail(2) x(1) by simp
    then show ?thesis using x(1) by (intro bexI [of _ x]) simp_all
  qed
  from Cons.prems(1) show ?case
  proof (cases rule: attach_step)
    case (passed rs1)
    have "\<not> picked" using one_fallback [OF passed(2)] Cons.prems(2,3) by (cases picked) (auto simp: filter_empty_conv)
    moreover have "\<forall>p. best = Some p \<longrightarrow> (\<forall>x \<in> set rs. result_priority x \<le> p)" using Cons.prems(5) by simp
    from Cons.IH [OF passed(2) Cons.prems(2,3) tail(1) this] obtain x where x: "x \<in> set rs" "attached_from sub best rs row x" ..
    ultimately have "attached_from sub best (r # rs) row x"
      using passed(1) by (intro attached_from_skip [OF x(2)]) (simp add: passed_over_def)
    then show ?thesis using x(1) by (intro bexI [of _ x]) simp_all
  next
    case (blocked rs1)
    from step [OF blocked(3) Cons.prems(2)] show ?thesis .
  next
    case (refused rs1 db1)
    from step [OF refused(4) Cons.prems(2)] show ?thesis .
  next
    case (attached row1 made1 rs1 db1)
    show ?thesis
    proof (cases "row \<in> set made1")
      case True
      from step [OF attached(5) this] show ?thesis .
    next
      case False
      then have row: "row = row1" using attached(4) Cons.prems(2) by simp
      note new = insert_into_result(3) [OF attached(3) refl]
      then have "?fb" using Cons.prems(3) fallback_row_iff [of row r] row by simp
      then have "attached_from sub best (r # rs) row r"
        using new row attached(1,2) Cons.prems(5) tail(2)
        by (cases best) (auto simp: attached_from_def passed_over_def)
      then show ?thesis by (intro bexI [of _ r]) simp_all
    qed
  qed
qed simp

section \<open>A whole run\<close>

lemma attach_one_made:
  assumes "attach_one w message s (results, db, memo) = (made, results', db', memo')" "get_subscription (sub_id s) (db_subs db) \<noteq> None"
  shows "st_rows (db_store db') = st_rows (db_store db) @ made" "own_changes (sub_id s) db db'"
    "length (filter fallback_row made) \<le> 1" "made \<noteq> [] \<Longrightarrow> is_active_in db s"
    "\<forall>row \<in> set made. rr_subscription row = sub_id s \<and> rr_status row = u ''pending''"
proof -
  obtain s0 where s0: "get_subscription (sub_id s) (db_subs db) = Some s0" using assms(2) by auto
  have id0: "sub_id s0 = sub_id s" using get_subscription_id [OF s0] by simp
  obtain sub subs memo1 where e: "enrich_subscription_with_library (aw_configured w) (aw_clock w) (aw_tmdb w (sub_id s0)) (aw_library w) s0 (db_subs db) memo
      = (sub, subs, memo1)" by (rule prod_cases3)
  have id: "sub_id sub = sub_id s" using enrich_own [OF e] id0 by simp
  let ?db1 = "db\<lparr>db_subs := subs\<rparr>"
  have own1: "own_changes (sub_id s) db ?db1"
    by (rule own_changes_subs) (use enrich_own [OF e] id0 in auto)
  obtain made1 results1 db2 where a: "attach_fresh_loop (aw_now w) sub None False results ?db1 = (made1, results1, db2)" by (rule prod_cases3)
  note facts = attach_made [OF a] one_fallback [OF a] own_changes_trans [OF own1 attach_own [OF a, unfolded id]]
  consider "made = []" "db' = db"
    | "made = []" "db' = ?db1\<lparr>db_subs := snd (mark_completed_subscription (aw_now w) sub subs)\<rparr>"
    | "made = made1" "db' = db2" "sub_status s0 = u ''active''"
    using assms(1) by (auto simp: attach_one_def s0 e a attach_for_subscription_fresh Let_def split: if_splits)
  then have "st_rows (db_store db') = st_rows (db_store db) @ made \<and> own_changes (sub_id s) db db' \<and> length (filter fallback_row made) \<le> 1
      \<and> (made \<noteq> [] \<longrightarrow> is_active_in db s) \<and> (\<forall>row \<in> set made. rr_subscription row = sub_id s \<and> rr_status row = u ''pending'')"
  proof cases
    case 2
    have "own_changes (sub_id s) db db'"
      using own_changes_trans [OF own1 mark_completed_own [of sub ?db1 "aw_now w", unfolded id]] 2 by simp
    then show ?thesis using 2 by simp
  next
    case 3
    then show ?thesis using facts s0 id by (auto simp: is_active_in_def)
  qed simp
  then show "st_rows (db_store db') = st_rows (db_store db) @ made" "own_changes (sub_id s) db db'"
    "length (filter fallback_row made) \<le> 1" "made \<noteq> [] \<Longrightarrow> is_active_in db s"
    "\<forall>row \<in> set made. rr_subscription row = sub_id s \<and> rr_status row = u ''pending''" by blast+
qed

text \<open>The rows of subscription \<open>i\<close> among those attached\<close>

definition fallbacks_of :: "int \<Rightarrow> resource_row list \<Rightarrow> nat" where
  "fallbacks_of i made = length (filter (\<lambda>row. fallback_row row \<and> rr_subscription row = i) made)"

lemma fallbacks_of_append [simp]: "fallbacks_of i (xs @ ys) = fallbacks_of i xs + fallbacks_of i ys"
  by (simp add: fallbacks_of_def)

lemma fallbacks_of_none: "\<forall>row \<in> set made. rr_subscription row \<noteq> i \<Longrightarrow> fallbacks_of i made = 0"
  by (auto simp: fallbacks_of_def filter_empty_conv)

lemma fallbacks_of_le: "length (filter fallback_row made) \<le> 1 \<Longrightarrow> fallbacks_of i made \<le> 1"
  by (auto simp: fallbacks_of_def simp flip: filter_filter intro: order_trans [OF length_filter_le])

lemma attach_each_made:
  assumes "attach_each w message subs (results, db, memo) = (made, results', db', memo')" "distinct (map sub_id subs)"
    "\<forall>s \<in> set subs. get_subscription (sub_id s) (db_subs db) \<noteq> None" "store_ok (db_store db)"
  shows "st_rows (db_store db') = st_rows (db_store db) @ made \<and> store_ok (db_store db')
    \<and> (\<forall>row \<in> set made. rr_status row = u ''pending'' \<and> (\<exists>s \<in> set subs. rr_subscription row = sub_id s \<and> is_active_in db s))
    \<and> (\<forall>i. fallbacks_of i made \<le> 1)"
  using assms
proof (induction subs arbitrary: results db memo made)
  case Nil
  then show ?case by (simp add: fallbacks_of_def)
next
  case (Cons s subs)
  obtain made1 results1 db1 memo1 where one: "attach_one w message s (results, db, memo) = (made1, results1, db1, memo1)" by (metis prod_cases4)
  obtain made2 where later: "attach_each w message subs (results1, db1, memo1) = (made2, results', db', memo')" "made = made1 @ made2"
    using Cons.prems(1) one by (auto split: prod.splits)
  have "get_subscription (sub_id s) (db_subs db) \<noteq> None" using Cons.prems(3) by simp
  note o = attach_one_made [OF one this]
  have ok: "store_ok (db_store db1)" using own_changes_ok [OF o(2)] Cons.prems(4) by simp
  have other: "sub_id x \<noteq> sub_id s" if "x \<in> set subs" for x using that Cons.prems(2) by (auto simp: image_iff)
  have same: "get_subscription (sub_id x) (db_subs db1) = get_subscription (sub_id x) (db_subs db)" if "x \<in> set subs" for x
  proof (rule get_other [OF _ other [OF that]])
    show "filter (\<lambda>x. sub_id x \<noteq> sub_id s) (db_subs db1) = filter (\<lambda>x. sub_id x \<noteq> sub_id s) (db_subs db)"
      using o(2) Cons.prems(4) by (simp add: own_changes_def)
  qed
  have "\<forall>x \<in> set subs. get_subscription (sub_id x) (db_subs db1) \<noteq> None" using Cons.prems(3) same by simp
  from Cons.IH [OF later(1) _ this ok] Cons.prems(2)
  have ih: "st_rows (db_store db') = st_rows (db_store db1) @ made2" "store_ok (db_store db')"
      "\<forall>row \<in> set made2. rr_status row = u ''pending'' \<and> (\<exists>x \<in> set subs. rr_subscription row = sub_id x \<and> is_active_in db1 x)"
      "\<forall>i. fallbacks_of i made2 \<le> 1" by auto
  have act: "is_active_in db1 x = is_active_in db x" if "x \<in> set subs" for x using same [OF that] by (simp add: is_active_in_def)
  have "\<forall>row \<in> set made. rr_status row = u ''pending'' \<and> (\<exists>x \<in> set (s # subs). rr_subscription row = sub_id x \<and> is_active_in db x)"
  proof
    fix row assume "row \<in> set made"
    then consider "row \<in> set made1" | "row \<in> set made2" by (auto simp: later(2))
    then show "rr_status row = u ''pending'' \<and> (\<exists>x \<in> set (s # subs). rr_subscription row = sub_id x \<and> is_active_in db x)"
    proof cases
      case 1
      then have "made1 \<noteq> []" by auto
      then show ?thesis using o(4,5) 1 by auto
    next
      case 2
      then show ?thesis using ih(3) act by auto
    qed
  qed
  moreover have "fallbacks_of i made \<le> 1" for i
  proof (cases "i = sub_id s")
    case True
    then have "\<forall>row \<in> set made2. rr_subscription row \<noteq> i" using ih(3) other by auto
    then show ?thesis using fallbacks_of_none fallbacks_of_le [OF o(3)] by (simp add: later(2))
  next
    case False
    then have "\<forall>row \<in> set made1. rr_subscription row \<noteq> i" using o(5) by auto
    then show ?thesis using fallbacks_of_none ih(4) by (simp add: later(2))
  qed
  ultimately show ?case using o(1) ih(1,2) by (simp add: later(2))
qed

text \<open>The deliveries that follow change no link.\<close>

context delivery_port begin

lemma deliver_each_links: "deliver_each deliver rids db = (e, db') \<Longrightarrow> same_links db db'"
proof (induction rids arbitrary: db)
  case (Cons rid rids)
  obtain out db1 where d: "deliver rid db = (out, db1)" by (rule prod.exhaust)
  show ?case
    using Cons.prems Cons.IH [of db1] deliver_links [OF d] by (cases out) (auto simp: d intro: same_links_trans)
qed (simp add: same_links_def)

theorem attach_active_only:
  assumes run: "attach_results_to_matching_subscriptions w results message (cs, memo) = (out, cs', memo')"
    and "synced_subscriptions w cs = (subs, cs1)" "aw_deliver w = deliver" "distinct (map sub_id subs)"
    and "\<forall>s \<in> set subs. get_subscription (sub_id s) (cr_subs cs1) \<noteq> None" "store_ok (db_store (cr_db cs1))"
  shows "\<exists>new. links (cr_db cs') = links (cr_db cs1) @ new
    \<and> (\<forall>l \<in> set new. \<exists>s \<in> set subs. fst (snd l) = sub_id s \<and> is_active_in (cr_db cs1) s)
    \<and> (\<forall>n. out = Inr n \<longrightarrow> n = length new)"
proof -
  obtain made rs db memo1 where a: "attach_each w message subs (filter_available_115_results (sort_key result_order_key results), cr_db cs1, memo)
      = (made, rs, db, memo1)" by (metis prod_cases4)
  obtain e db2 where d: "deliver_each deliver (map rr_id made) db = (e, db2)" by (rule prod.exhaust)
  have fin: "cr_db cs' = db2" "\<forall>n. out = Inr n \<longrightarrow> n = length made"
    using run assms(2,3) a d by (auto simp: attach_results_to_matching_subscriptions_def split: option.splits)
  note facts = attach_each_made [OF a assms(4) assms(5) [unfolded cr_subs_def] assms(6)]
  have "links (cr_db cs') = links (cr_db cs1) @ map row_link made"
    using deliver_each_links [OF d] facts by (simp add: fin(1) same_links_def links_def)
  moreover have "\<forall>l \<in> set (map row_link made). \<exists>s \<in> set subs. fst (snd l) = sub_id s \<and> is_active_in (cr_db cs1) s"
    using facts by (auto simp: row_link_def)
  ultimately show ?thesis using fin(2) by (intro exI [of _ "map row_link made"]) simp
qed

end

section \<open>The list that is read again\<close>

text \<open>The second reading within twelve seconds answers from the cache: the synchronisation before it is not seen.\<close>

lemma reread_stale:
  assumes "cr_lists cs False = None" "aw_clock w \<le> aw_later w" "aw_later w < aw_clock w + 12"
  shows "fst (synced_subscriptions w cs) = fst (active_subscriptions (aw_clock w) cs)"
proof -
  obtain items cs1 where l: "list_subscriptions (aw_clock w) False cs = (items, cs1)" by (rule prod.exhaust)
  note kept = list_kept [OF l assms(2,3,1)]
  have "fst (active_subscriptions (aw_later w) (put_subs subs cs1)) = filter (\<lambda>s. sub_status s = u ''active'') items" for subs
    using kept [of subs] by (simp add: active_subscriptions_def case_prod_beta)
  then show ?thesis
    by (cases "aw_library w") (simp_all add: synced_subscriptions_def active_subscriptions_def [of "aw_clock w"] l)
qed

section \<open>Feeds\<close>

lemma queries_titled:
  "q \<in> set (active_subscription_queries subs) \<Longrightarrow>
     \<exists>s \<in> set subs. subscription_search_title s \<noteq> [] \<and> starts_with (subscription_search_title s) q"
  by (auto simp: active_subscription_queries_def Let_def starts_with_prefix split: if_splits)

end
