(* ===== verification/Log_Buffer.thy ===== *)
theory Log_Buffer
  imports Json_Text Expiring_Cache
begin

text \<open>
  \<open>app/db_logs.py\<close>: the table of logs behind a buffer, with the throttle of debug messages, the pruning to five
  thousand rows and the masking of bot tokens.  A write that finds the database locked drops its batch.
  Shown: the buffer and the table are bounded; a row that was accepted is in the table or in the buffer
  until it is pruned or its batch is dropped; errors are written at once; a debug message that is repeated faster than the
  throttle is written once.
\<close>

section \<open>Masking\<close>

definition plain_word :: "nat \<Rightarrow> bool" where
  [chr_eval]: "plain_word c = (is_ascii_alpha c \<or> is_ascii_digit c \<or> c = 95)"

text \<open>The first pattern ignores case, which lets its class match a few letters beyond ASCII.\<close>

definition TELEGRAM_BOT_API_TOKEN_RE :: re where
  [re_pats]: "TELEGRAM_BOT_API_TOKEN_RE =
     seqs [Grp ''1'' (lit_i ''api.telegram.org/bot''),
       Grp ''2'' (seqs [Rep True 6 None digit, chr 58, Rep True 20 None (Cls (\<lambda>c. ascii_alnum_i c \<or> c = 95 \<or> c = 45))])]"

definition TELEGRAM_BOT_TOKEN_RE :: re where
  [re_pats]: "TELEGRAM_BOT_TOKEN_RE =
     seqs [NotBehind plain_word, Rep True 6 None digit, chr 58, Rep True 20 None (Cls (\<lambda>c. plain_word c \<or> c = 45)),
       NotAhead (Cls plain_word)]"

text \<open>\<open>r.sub(r"\1***", s)\<close>\<close>

definition mask_after_group :: "re \<Rightarrow> pystr \<Rightarrow> pystr" where
  "mask_after_group r s = weave (re_split r s) (map (\<lambda>m. grp ''1'' m @ u ''***'') (re_finditer r s))"

definition sanitize_log_text :: "pystr \<Rightarrow> pystr" where
  "sanitize_log_text text = re_sub TELEGRAM_BOT_TOKEN_RE (u ''***'') (mask_after_group TELEGRAM_BOT_API_TOKEN_RE text)"

text \<open>The keys of a dictionary are kept as they are.\<close>

fun sanitize_log_value :: "pyval \<Rightarrow> pyval" where
  "sanitize_log_value (PStr s) = PStr (sanitize_log_text s)"
| "sanitize_log_value (PDict kvs) = PDict (map (\<lambda>(k, v). (k, sanitize_log_value v)) kvs)"
| "sanitize_log_value (PList xs) = PList (map sanitize_log_value xs)"
| "sanitize_log_value v = v"

section \<open>Buffer and table\<close>

definition LOG_PRUNE_INTERVAL :: nat where
  "LOG_PRUNE_INTERVAL = 200"

definition LOG_ROWS_KEPT :: nat where
  "LOG_ROWS_KEPT = 5000"

definition DEBUG_LOG_THROTTLE_SECONDS :: time where
  "DEBUG_LOG_THROTTLE_SECONDS = 3 / 2"

definition LOG_BATCH_FLUSH_COUNT :: nat where
  "LOG_BATCH_FLUSH_COUNT = 12"

definition LOG_BATCH_FLUSH_SECONDS :: time where
  "LOG_BATCH_FLUSH_SECONDS = 35 / 100"

definition DEBUG_THROTTLED_SCOPES :: "pystr list" where
  "DEBUG_THROTTLED_SCOPES = map u [''telegram'', ''tg_bot'', ''subscription'']"

record log_row =
  lg_level :: pystr
  lg_scope :: pystr
  lg_message :: pystr
  lg_payload :: "pystr option"
  lg_created :: pystr

record log_state =
  lg_table :: "log_row list" \<comment> \<open>in the order of the ids\<close>
  lg_count :: nat
  lg_seen :: "((pystr \<times> pystr) \<times> time) list"
  lg_buffer :: "log_row list"
  lg_flushed :: time

definition prune_logs :: "log_row list \<Rightarrow> log_row list" where
  "prune_logs tbl = drop (length tbl - LOG_ROWS_KEPT) tbl"

text \<open>\<open>locked\<close>: the database is locked when the batch is written.\<close>

definition flush_log_rows :: "bool \<Rightarrow> bool \<Rightarrow> log_row list \<Rightarrow> log_state \<Rightarrow> log_state" where
  "flush_log_rows locked force_prune batch st =
     (if batch = [] \<or> locked then st
      else
        let tbl = lg_table st @ batch; n = lg_count st + length batch in
        if force_prune \<or> LOG_PRUNE_INTERVAL \<le> n then st\<lparr>lg_table := prune_logs tbl, lg_count := 0\<rparr>
        else st\<lparr>lg_table := tbl, lg_count := n\<rparr>)"

definition flush_log_buffer :: "bool \<Rightarrow> time \<Rightarrow> log_state \<Rightarrow> log_state" where
  "flush_log_buffer locked now st =
     (if lg_buffer st = [] then st
      else flush_log_rows locked False (lg_buffer st) (st\<lparr>lg_buffer := [], lg_flushed := now\<rparr>))"

definition should_throttle_debug_log :: "time \<Rightarrow> pystr \<Rightarrow> pystr \<Rightarrow> pystr \<Rightarrow> log_state \<Rightarrow> bool \<times> log_state" where
  "should_throttle_debug_log now level scope message st =
     (if level \<noteq> u ''debug'' \<or> scope \<notin> set DEBUG_THROTTLED_SCOPES then (False, st)
      else
        let last_seen = (case map_of (lg_seen st) (scope, message) of None \<Rightarrow> 0 | Some t \<Rightarrow> t) in
        (now - last_seen < DEBUG_LOG_THROTTLE_SECONDS, st\<lparr>lg_seen := dict_set (scope, message) now (lg_seen st)\<rparr>))"

definition log_values :: "pystr \<Rightarrow> pystr \<Rightarrow> pystr \<Rightarrow> pystr \<Rightarrow> pyval \<Rightarrow> log_row" where
  "log_values created level scope message payload =
     (let safe = (if truthy payload then sanitize_log_value payload else PNone) in
      \<lparr>lg_level = or_str level (u ''info''), lg_scope = or_str scope (u ''app''), lg_message = sanitize_log_text message,
       lg_payload = (if truthy safe then Some (json_dumps safe) else None), lg_created = created\<rparr>)"

definition is_immediate :: "pystr \<Rightarrow> pystr \<Rightarrow> bool" where
  "is_immediate level scope \<longleftrightarrow> casefold level = u ''error'' \<or> casefold scope \<in> {u ''auth'', u ''system''}"

definition add_log :: "bool \<Rightarrow> time \<Rightarrow> pystr \<Rightarrow> pystr \<Rightarrow> pystr \<Rightarrow> pystr \<Rightarrow> pyval \<Rightarrow> log_state \<Rightarrow> log_state" where
  "add_log locked now created level scope message payload st =
     (case should_throttle_debug_log now level scope message st of
        (True, st1) \<Rightarrow> st1
      | (False, st1) \<Rightarrow>
          (let row = log_values created level scope message payload in
           if is_immediate level scope then flush_log_rows locked True [row] st1
           else
             let st2 = st1\<lparr>lg_buffer := lg_buffer st1 @ [row]\<rparr> in
             if LOG_BATCH_FLUSH_COUNT \<le> length (lg_buffer st2) \<or> LOG_BATCH_FLUSH_SECONDS \<le> now - lg_flushed st2
             then flush_log_buffer locked now st2 else st2))"

section \<open>Bounds\<close>

definition logs_ok :: "log_state \<Rightarrow> bool" where
  "logs_ok st \<longleftrightarrow> length (lg_buffer st) < LOG_BATCH_FLUSH_COUNT \<and> lg_count st < LOG_PRUNE_INTERVAL
     \<and> length (lg_table st) \<le> LOG_ROWS_KEPT + lg_count st"

lemma length_prune: "length (prune_logs tbl) \<le> LOG_ROWS_KEPT"
  by (simp add: prune_logs_def)

lemma throttle_keeps [simp]:
  "should_throttle_debug_log now level scope message st = (b, st1) \<Longrightarrow>
     lg_table st1 = lg_table st \<and> lg_count st1 = lg_count st \<and> lg_buffer st1 = lg_buffer st \<and> lg_flushed st1 = lg_flushed st"
  by (auto simp: should_throttle_debug_log_def Let_def split: if_splits)

lemma flush_rows_ok:
  assumes "lg_count st < LOG_PRUNE_INTERVAL" "length (lg_table st) \<le> LOG_ROWS_KEPT + lg_count st"
  shows "lg_count (flush_log_rows locked force batch st) < LOG_PRUNE_INTERVAL
    \<and> length (lg_table (flush_log_rows locked force batch st)) \<le> LOG_ROWS_KEPT + lg_count (flush_log_rows locked force batch st)
    \<and> lg_buffer (flush_log_rows locked force batch st) = lg_buffer st"
  using assms length_prune [of "lg_table st @ batch"]
  by (auto simp: flush_log_rows_def Let_def LOG_PRUNE_INTERVAL_def)

lemma flush_buffer_ok: 
  assumes "lg_count st < LOG_PRUNE_INTERVAL" "length (lg_table st) \<le> LOG_ROWS_KEPT + lg_count st"
  shows "logs_ok (flush_log_buffer locked now st)"
proof (cases "lg_buffer st = []")
  case True
  then show ?thesis using assms by (simp add: flush_log_buffer_def logs_ok_def LOG_BATCH_FLUSH_COUNT_def)
next
  case False
  then show ?thesis
    using flush_rows_ok [of "st\<lparr>lg_buffer := [], lg_flushed := now\<rparr>" locked False "lg_buffer st"] assms
    by (simp add: flush_log_buffer_def logs_ok_def LOG_BATCH_FLUSH_COUNT_def)
qed

lemma add_log_ok: "logs_ok st \<Longrightarrow> logs_ok (add_log locked now created level scope message payload st)"
proof -
  assume ok: "logs_ok st"
  obtain b st1 where t: "should_throttle_debug_log now level scope message st = (b, st1)" by (rule prod.exhaust)
  then have ok1: "logs_ok st1" using ok by (simp add: logs_ok_def)
  let ?row = "log_values created level scope message payload"
  let ?st2 = "st1\<lparr>lg_buffer := lg_buffer st1 @ [?row]\<rparr>"
  have "logs_ok (flush_log_rows locked True [?row] st1)"
    using flush_rows_ok [of st1 locked True "[?row]"] ok1 by (simp add: logs_ok_def)
  moreover have "logs_ok (flush_log_buffer locked now ?st2)" using flush_buffer_ok [of ?st2] ok1 by (simp add: logs_ok_def)
  ultimately show ?thesis using ok1 by (auto simp: add_log_def t Let_def logs_ok_def not_le split: bool.split)
qed

section \<open>Nothing is lost without a lock\<close>

text \<open>The rows written and those waiting, oldest first in either\<close>

definition logged :: "log_state \<Rightarrow> log_row list" where
  "logged st = lg_table st @ lg_buffer st"

lemma flush_keeps_newest:
  assumes "\<not> locked"
  shows "\<exists>gone. gone @ lg_table (flush_log_rows locked force batch st) = lg_table st @ batch
    \<and> (gone \<noteq> [] \<longrightarrow> length (lg_table (flush_log_rows locked force batch st)) = LOG_ROWS_KEPT)"
proof -
  have prune: "\<exists>gone. gone @ prune_logs tbl = tbl \<and> (gone \<noteq> [] \<longrightarrow> length (prune_logs tbl) = LOG_ROWS_KEPT)" for tbl
    by (rule exI [of _ "take (length tbl - LOG_ROWS_KEPT) tbl"]) (auto simp: prune_logs_def)
  show ?thesis using assms prune [of "lg_table st @ batch"] by (auto simp: flush_log_rows_def Let_def)
qed

lemma flush_buffer_keeps:
  assumes "\<not> locked"
  shows "\<exists>gone. gone @ logged (flush_log_buffer locked now st) = logged st"
proof (cases "lg_buffer st = []")
  case False
  obtain gone where "gone @ lg_table (flush_log_rows locked False (lg_buffer st) (st\<lparr>lg_buffer := [], lg_flushed := now\<rparr>)) = logged st"
    using flush_keeps_newest [OF assms, of False "lg_buffer st" "st\<lparr>lg_buffer := [], lg_flushed := now\<rparr>"] by (auto simp: logged_def)
  moreover have "lg_buffer (flush_log_rows locked False batch (st\<lparr>lg_buffer := [], lg_flushed := now\<rparr>)) = []" for batch
    by (simp add: flush_log_rows_def Let_def)
  ultimately show ?thesis using False by (auto simp: flush_log_buffer_def logged_def)
qed (simp add: flush_log_buffer_def)

lemma chatter_kept:
  assumes "\<not> locked" "\<not> is_immediate level scope" "should_throttle_debug_log now level scope message st = (False, st1)"
  shows "\<exists>gone. gone @ logged (add_log locked now created level scope message payload st)
    = logged st @ [log_values created level scope message payload]"
proof -
  let ?st2 = "st1\<lparr>lg_buffer := lg_buffer st1 @ [log_values created level scope message payload]\<rparr>"
  have "logged ?st2 = logged st @ [log_values created level scope message payload]"
    using throttle_keeps [OF assms(3)] by (simp add: logged_def)
  then show ?thesis
    using flush_buffer_keeps [OF assms(1), of now ?st2] assms(2,3) by (auto simp: add_log_def Let_def)
qed

text \<open>An error is in the table at once, before what was accepted earlier and still waits.\<close>

lemma error_written:
  assumes "\<not> locked" "is_immediate level scope" "should_throttle_debug_log now level scope message st = (False, st1)"
  shows "log_values created level scope message payload \<in> set (lg_table (add_log locked now created level scope message payload st))"
    "lg_buffer (add_log locked now created level scope message payload st) = lg_buffer st"
proof -
  have "prune_logs (tbl @ [row]) = (drop (length (tbl @ [row]) - LOG_ROWS_KEPT) tbl) @ [row]" for tbl row
    by (simp add: prune_logs_def LOG_ROWS_KEPT_def)
  then show "log_values created level scope message payload \<in> set (lg_table (add_log locked now created level scope message payload st))"
    using assms by (simp add: add_log_def flush_log_rows_def Let_def)
  show "lg_buffer (add_log locked now created level scope message payload st) = lg_buffer st"
    using assms throttle_keeps [OF assms(3)] by (simp add: add_log_def flush_log_rows_def Let_def)
qed

section \<open>The throttle\<close>

text \<open>
  Every repetition restarts the time of the throttle, also one that is dropped: a message that comes at
  intervals shorter than it is not written again, however long that goes on.
\<close>

fun repeat_debug :: "pystr \<Rightarrow> pystr \<Rightarrow> pystr \<Rightarrow> time list \<Rightarrow> log_state \<Rightarrow> log_state" where
  "repeat_debug created scope message [] st = st"
| "repeat_debug created scope message (now # stamps) st =
     repeat_debug created scope message stamps (add_log False now created (u ''debug'') scope message PNone st)"

fun closely :: "time \<Rightarrow> time list \<Rightarrow> bool" where
  "closely before [] = True"
| "closely before (t # ts) = (t < before + DEBUG_LOG_THROTTLE_SECONDS \<and> closely t ts)"

lemma throttled:
  assumes "scope \<in> set DEBUG_THROTTLED_SCOPES" "map_of (lg_seen st) (scope, message) = Some before" "now < before + DEBUG_LOG_THROTTLE_SECONDS"
  shows "add_log locked now created (u ''debug'') scope message payload st = st\<lparr>lg_seen := dict_set (scope, message) now (lg_seen st)\<rparr>"
  using assms by (simp add: add_log_def should_throttle_debug_log_def algebra_simps)

lemma repetition_written_once:
  assumes "scope \<in> set DEBUG_THROTTLED_SCOPES" "map_of (lg_seen st) (scope, message) = Some before" "closely before stamps"
  shows "logged (repeat_debug created scope message stamps st) = logged st"
  using assms(2,3)
proof (induction stamps arbitrary: before st)
  case (Cons now stamps)
  have "add_log False now created (u ''debug'') scope message PNone st = st\<lparr>lg_seen := dict_set (scope, message) now (lg_seen st)\<rparr>"
    using throttled [OF assms(1) Cons.prems(1)] Cons.prems(2) by simp
  then show ?case
    using Cons.IH [of "st\<lparr>lg_seen := dict_set (scope, message) now (lg_seen st)\<rparr>" now] Cons.prems(2)
    by (simp add: update_conv' logged_def)
qed simp

section \<open>Masking a token\<close>

lemma token_masked:
  "sanitize_log_text (u ''bot 123456:AAAAAAAAAAAAAAAAAAAA!'') = u ''bot ***!''"
  "sanitize_log_text (u ''api.telegram.org/bot123456:AAAAAAAAAAAAAAAAAAAA/x'') = u ''api.telegram.org/bot***/x''"
  by (simp_all add: sanitize_log_text_def mask_after_group_def re_eval re_pats chr_eval py_defs)

end
