(* ===== verification/Monitor.thy ===== *)
theory Monitor
  imports Jobs Expiring_Cache
begin

text \<open>
  \<open>app/services/monitor.py\<close>: the loop that schedules the periodic work.  One round is a function of the clock and
  of what its calls do: an exception ends the round where it is, and what was noted up to there stays.
  Starting and stopping the task, the statements of the database maintenance and logs are left out.
  Shown: two schedulings of the same work are at least its interval apart; a round without exceptions
  leaves nothing that is due; the first round schedules no search of all.
\<close>

section \<open>The loop\<close>

datatype task = Retry_Failed | Index_Prewarm | Emby_Sync | Db_Maintenance | Rescan

record monitor_state =
  ms_last :: "task \<Rightarrow> time"

definition new_monitor :: monitor_state where
  "new_monitor = \<lparr>ms_last = (\<lambda>_. 0)\<rparr>"

fun wait_of :: "task \<Rightarrow> time" where
  "wait_of Retry_Failed = 300"
| "wait_of Index_Prewarm = 480"
| "wait_of Emby_Sync = 600"
| "wait_of Db_Maintenance = 86400"
| "wait_of Rescan = 0"

definition note_run :: "task \<Rightarrow> time \<Rightarrow> monitor_state \<Rightarrow> monitor_state" where
  "note_run k now st = st\<lparr>ms_last := (ms_last st)(k := now)\<rparr>"

text \<open>What happens in a round: the calls that raise, and the interval of the settings\<close>

record round =
  rd_now :: time
  rd_connect_fails :: bool \<comment> \<open>\<open>ensure_monitoring\<close> or \<open>ensure_polling\<close> raises\<close>
  rd_raises :: "task \<Rightarrow> bool"
  rd_rescan_interval :: int

definition is_due :: "task \<Rightarrow> time \<Rightarrow> monitor_state \<Rightarrow> bool" where
  "is_due k now st \<longleftrightarrow> wait_of k < now - ms_last st k"

text \<open>The warming up of the index and the maintenance catch their exceptions themselves.\<close>

definition caught :: "task \<Rightarrow> bool" where
  "caught k \<longleftrightarrow> k \<in> {Index_Prewarm, Db_Maintenance}"

definition run_task :: "round \<Rightarrow> task \<Rightarrow> monitor_state \<Rightarrow> bool \<times> task list \<times> monitor_state" where
  "run_task rd k st =
     (if \<not> is_due k (rd_now rd) st then (True, [], st)
      else if rd_raises rd k \<and> \<not> caught k then (False, [], st)
      else (True, [k], note_run k (rd_now rd) st))"

fun run_tasks :: "round \<Rightarrow> task list \<Rightarrow> monitor_state \<Rightarrow> bool \<times> task list \<times> monitor_state" where
  "run_tasks rd [] st = (True, [], st)"
| "run_tasks rd (k # ks) st =
     (case run_task rd k st of
        (False, done1, st1) \<Rightarrow> (False, done1, st1)
      | (True, done1, st1) \<Rightarrow> (case run_tasks rd ks st1 of (ok, done2, st2) \<Rightarrow> (ok, done1 @ done2, st2)))"

definition maybe_schedule_rescan :: "round \<Rightarrow> monitor_state \<Rightarrow> bool \<times> task list \<times> monitor_state" where
  "maybe_schedule_rescan rd st =
     (if rd_rescan_interval rd \<le> 0 then (True, [], st)
      else if ms_last st Rescan \<le> 0 then (True, [], note_run Rescan (rd_now rd) st)
      else if rd_now rd - ms_last st Rescan < of_int (rd_rescan_interval rd) then (True, [], st)
      else if rd_raises rd Rescan then (False, [], st)
      else (True, [Rescan], note_run Rescan (rd_now rd) st))"

definition monitor_round :: "round \<Rightarrow> monitor_state \<Rightarrow> task list \<times> monitor_state" where
  "monitor_round rd st =
     (if rd_connect_fails rd then ([], st)
      else case run_tasks rd [Retry_Failed, Index_Prewarm, Emby_Sync, Db_Maintenance] st of
        (False, done1, st1) \<Rightarrow> (done1, st1)
      | (True, done1, st1) \<Rightarrow> (case maybe_schedule_rescan rd st1 of (ok, done2, st2) \<Rightarrow> (done1 @ done2, st2)))"

text \<open>The rounds one after the other, with the times at which each task ran\<close>

fun monitor_rounds :: "round list \<Rightarrow> monitor_state \<Rightarrow> (task \<times> time) list \<times> monitor_state" where
  "monitor_rounds [] st = ([], st)"
| "monitor_rounds (rd # rds) st =
     (case monitor_round rd st of
        (ks, st1) \<Rightarrow> (case monitor_rounds rds st1 of (later, st2) \<Rightarrow> (map (\<lambda>k. (k, rd_now rd)) ks @ later, st2)))"

section \<open>One round\<close>

lemma wait_of_pos: "0 \<le> wait_of k"
  by (cases k) simp_all

lemma run_tasks_facts:
  assumes "run_tasks rd ks st = (ok, done_now, st')" "distinct ks"
  shows "set done_now \<subseteq> set ks" "distinct done_now"
    "k \<in> set done_now \<Longrightarrow> is_due k (rd_now rd) st \<and> ms_last st' k = rd_now rd"
    "k \<notin> set done_now \<Longrightarrow> ms_last st' k = ms_last st k"
    "ok \<Longrightarrow> k \<in> set ks \<Longrightarrow> k \<notin> set done_now \<Longrightarrow> \<not> is_due k (rd_now rd) st"
proof -
  have "set done_now \<subseteq> set ks \<and> distinct done_now
    \<and> (\<forall>k \<in> set done_now. is_due k (rd_now rd) st \<and> ms_last st' k = rd_now rd)
    \<and> (\<forall>k. k \<notin> set done_now \<longrightarrow> ms_last st' k = ms_last st k)
    \<and> (ok \<longrightarrow> (\<forall>k \<in> set ks. k \<notin> set done_now \<longrightarrow> \<not> is_due k (rd_now rd) st))"
    using assms
  proof (induction ks arbitrary: st ok done_now)
    case (Cons k ks)
    consider "\<not> is_due k (rd_now rd) st" "run_tasks rd ks st = (ok, done_now, st')"
      | "ok = False" "done_now = []" "st' = st"
      | done2 where "is_due k (rd_now rd) st" "done_now = k # done2" "run_tasks rd ks (note_run k (rd_now rd) st) = (ok, done2, st')"
      using Cons.prems(1) by (auto simp: run_task_def split: if_splits prod.splits bool.splits)
    then show ?case
    proof cases
      case 1
      then show ?thesis using Cons.IH [OF 1(2)] Cons.prems(2) by auto
    next
      case 3
      have due: "is_due x (rd_now rd) (note_run k (rd_now rd) st) = is_due x (rd_now rd) st" if "x \<noteq> k" for x
        using that by (simp add: is_due_def note_run_def)
      have dist: "distinct ks" "k \<notin> set ks" using Cons.prems(2) by simp_all
      note ih = Cons.IH [OF 3(3) dist(1)]
      have "is_due x (rd_now rd) st \<and> ms_last st' x = rd_now rd" if "x \<in> set done_now" for x
      proof (cases "x \<in> set done2")
        case True
        then have "x \<noteq> k" using ih dist(2) by auto
        then show ?thesis using ih True due by blast
      next
        case False
        then have "x = k" using that 3(2) by simp
        moreover have "ms_last st' x = ms_last (note_run k (rd_now rd) st) x" using ih False by blast
        ultimately show ?thesis using 3(1) by (simp add: note_run_def)
      qed
      moreover have "ms_last st' x = ms_last st x" if "x \<notin> set done_now" for x
      proof -
        have "ms_last st' x = ms_last (note_run k (rd_now rd) st) x" using ih that 3(2) by simp
        then show ?thesis using that 3(2) by (simp add: note_run_def)
      qed
      moreover have "\<not> is_due x (rd_now rd) st" if "ok" "x \<in> set (k # ks)" "x \<notin> set done_now" for x
      proof -
        have "x \<noteq> k" "x \<in> set ks" "x \<notin> set done2" using that 3(2) by auto
        then show ?thesis using ih that(1) due by blast
      qed
      moreover have "set done_now \<subseteq> set (k # ks)" "distinct done_now" using ih dist(2) 3(2) by auto
      ultimately show ?thesis by blast
    qed simp
  qed simp
  then show "set done_now \<subseteq> set ks" "distinct done_now"
    "k \<in> set done_now \<Longrightarrow> is_due k (rd_now rd) st \<and> ms_last st' k = rd_now rd"
    "k \<notin> set done_now \<Longrightarrow> ms_last st' k = ms_last st k"
    "ok \<Longrightarrow> k \<in> set ks \<Longrightarrow> k \<notin> set done_now \<Longrightarrow> \<not> is_due k (rd_now rd) st" by blast+
qed

text \<open>How far apart two runs of a task are\<close>

definition apart :: "int \<Rightarrow> task \<Rightarrow> time \<Rightarrow> time \<Rightarrow> bool" where
  "apart interval k a b \<longleftrightarrow> (if k = Rescan then of_int interval \<le> b - a else wait_of k < b - a)"

lemma apart_later: "apart i k a b \<Longrightarrow> b \<le> c \<Longrightarrow> apart i k a c"
  by (auto simp: apart_def)

lemma round_facts:
  assumes "monitor_round rd st = (ks, st')"
  shows "distinct ks" "k \<in> set ks \<Longrightarrow> apart (rd_rescan_interval rd) k (ms_last st k) (rd_now rd) \<and> ms_last st' k = rd_now rd"
    "k \<notin> set ks \<Longrightarrow> ms_last st' k = ms_last st k \<or> k = Rescan \<and> ms_last st k \<le> 0 \<and> ms_last st' k = rd_now rd"
    "Rescan \<in> set ks \<Longrightarrow> 0 < ms_last st Rescan"
proof -
  obtain ok done1 st1 where t: "run_tasks rd [Retry_Failed, Index_Prewarm, Emby_Sync, Db_Maintenance] st = (ok, done1, st1)" by (rule prod_cases3)
  note f = run_tasks_facts [OF t]
  have no: "Rescan \<notin> set done1" using f(1) by auto
  then have same: "ms_last st1 Rescan = ms_last st Rescan" using f(4) by simp
  obtain ok2 done2 st2 where r: "maybe_schedule_rescan rd st1 = (ok2, done2, st2)" by (rule prod_cases3)
  have rescan: "set done2 \<subseteq> {Rescan} \<and> distinct done2 \<and> (\<forall>k. k \<noteq> Rescan \<longrightarrow> ms_last st2 k = ms_last st1 k)
    \<and> (Rescan \<in> set done2 \<longrightarrow> of_int (rd_rescan_interval rd) \<le> rd_now rd - ms_last st Rescan \<and> 0 < ms_last st Rescan \<and> ms_last st2 Rescan = rd_now rd)
    \<and> (Rescan \<notin> set done2 \<longrightarrow> ms_last st2 Rescan = ms_last st Rescan \<or> ms_last st Rescan \<le> 0 \<and> ms_last st2 Rescan = rd_now rd)"
    using r same by (auto simp: maybe_schedule_rescan_def note_run_def split: if_splits)
  consider "ks = []" "st' = st" | "ks = done1" "st' = st1" | "ks = done1 @ done2" "st' = st2"
    using assms t r by (auto simp: monitor_round_def split: if_splits bool.splits)
  then have "distinct ks \<and> (\<forall>k \<in> set ks. apart (rd_rescan_interval rd) k (ms_last st k) (rd_now rd) \<and> ms_last st' k = rd_now rd)
    \<and> (\<forall>k. k \<notin> set ks \<longrightarrow> ms_last st' k = ms_last st k \<or> k = Rescan \<and> ms_last st k \<le> 0 \<and> ms_last st' k = rd_now rd)
    \<and> (Rescan \<in> set ks \<longrightarrow> 0 < ms_last st Rescan)"
  proof cases
    case 2
    then show ?thesis using f no by (auto simp: apart_def is_due_def)
  next
    case 3
    have "apart (rd_rescan_interval rd) k (ms_last st k) (rd_now rd) \<and> ms_last st' k = rd_now rd" if "k \<in> set done1" for k
      using that f(3) no rescan 3(2) by (cases "k = Rescan") (auto simp: apart_def is_due_def)
    moreover have "apart (rd_rescan_interval rd) k (ms_last st k) (rd_now rd) \<and> ms_last st' k = rd_now rd" if "k \<in> set done2" for k
      using that rescan 3(2) by (auto simp: apart_def)
    moreover have "ms_last st' k = ms_last st k \<or> k = Rescan \<and> ms_last st k \<le> 0 \<and> ms_last st' k = rd_now rd" if "k \<notin> set ks" for k
      using that rescan 3 f(4) [of k] by (cases "k = Rescan") auto
    ultimately show ?thesis using f(2) no rescan 3(1) by auto
  qed simp
  note all = this
  from all show "distinct ks" by simp
  from all show "k \<in> set ks \<Longrightarrow> apart (rd_rescan_interval rd) k (ms_last st k) (rd_now rd) \<and> ms_last st' k = rd_now rd" by simp
  from all show "k \<notin> set ks \<Longrightarrow> ms_last st' k = ms_last st k \<or> k = Rescan \<and> ms_last st k \<le> 0 \<and> ms_last st' k = rd_now rd" by simp
  from all show "Rescan \<in> set ks \<Longrightarrow> 0 < ms_last st Rescan" by simp
qed

text \<open>A round in which nothing raises leaves nothing due.\<close>

lemma good_round_done:
  assumes "monitor_round rd st = (ks, st')" "\<not> rd_connect_fails rd" "\<forall>k. \<not> rd_raises rd k" "k \<noteq> Rescan"
  shows "\<not> is_due k (rd_now rd) st'"
proof -
  obtain ok done1 st1 where t: "run_tasks rd [Retry_Failed, Index_Prewarm, Emby_Sync, Db_Maintenance] st = (ok, done1, st1)" by (rule prod_cases3)
  have ok: "ok"
  proof -
    have "fst (run_tasks rd ks st)" for ks st
    proof (induction ks arbitrary: st)
      case (Cons k ks)
      then show ?case using Cons.IH by (simp add: run_task_def assms(3) case_prod_beta)
    qed simp
    then show ?thesis using t by (metis fst_conv)
  qed
  obtain ok2 done2 st2 where r: "maybe_schedule_rescan rd st1 = (ok2, done2, st2)" by (rule prod_cases3)
  have "st' = st2" using assms(1,2) t ok r by (simp add: monitor_round_def)
  moreover have "ms_last st2 k = ms_last st1 k"
    using r assms(4) by (auto simp: maybe_schedule_rescan_def note_run_def split: if_splits)
  ultimately have st': "ms_last st' k = ms_last st1 k" by simp
  have "k \<in> set [Retry_Failed, Index_Prewarm, Emby_Sync, Db_Maintenance]" using assms(4) by (cases k) simp_all
  note f = run_tasks_facts [OF t]
  show ?thesis
  proof (cases "k \<in> set done1")
    case True
    then have "ms_last st' k = rd_now rd" using f(3) st' by simp
    then show ?thesis using wait_of_pos [of k] by (simp add: is_due_def)
  next
    case False
    then have "ms_last st' k = ms_last st k" "\<not> is_due k (rd_now rd) st"
      using f(4) [OF _ False] f(5) [OF _ ok _ False] st' \<open>k \<in> set _\<close> by simp_all
    then show ?thesis by (simp add: is_due_def)
  qed
qed

section \<open>All rounds\<close>

definition run_times :: "task \<Rightarrow> (task \<times> time) list \<Rightarrow> time list" where
  "run_times k runs = map snd (filter (\<lambda>(x, t). x = k) runs)"

lemma run_times_append [simp]: "run_times k (xs @ ys) = run_times k xs @ run_times k ys"
  by (simp add: run_times_def)

lemma run_times_round: "distinct ks \<Longrightarrow> run_times k (map (\<lambda>x. (x, t)) ks) = (if k \<in> set ks then [t] else [])"
  by (induction ks) (auto simp: run_times_def filter_empty_conv)

text \<open>The time of a search of all counts from its first round on.\<close>

definition counted :: "task \<Rightarrow> monitor_state \<Rightarrow> bool" where
  "counted k st \<longleftrightarrow> k = Rescan \<longrightarrow> 0 < ms_last st k"

lemma counted_same: "ms_last st1 k = ms_last st k \<Longrightarrow> counted k st1 = counted k st"
  unfolding counted_def by metis

lemma runs_at_rounds: "monitor_rounds rds st = (runs, st') \<Longrightarrow> snd ` set runs \<subseteq> rd_now ` set rds"
proof (induction rds arbitrary: st runs)
  case (Cons rd rds)
  obtain ks st1 where one: "monitor_round rd st = (ks, st1)" by (rule prod.exhaust)
  obtain later where l: "monitor_rounds rds st1 = (later, st')" "runs = map (\<lambda>x. (x, rd_now rd)) ks @ later"
    using Cons.prems one by (auto split: prod.splits)
  show ?case using Cons.IH [OF l(1)] by (auto simp: l(2))
qed simp

theorem runs_apart:
  assumes "monitor_rounds rds st = (runs, st')" "sorted (map rd_now rds)" "\<forall>rd \<in> set rds. rd_rescan_interval rd = interval \<and> 0 < rd_now rd"
    "\<forall>rd \<in> set rds. ms_last st k \<le> rd_now rd"
  shows "sorted_wrt (apart interval k) (run_times k runs)
    \<and> (\<forall>t \<in> set (run_times k runs). counted k st \<longrightarrow> apart interval k (ms_last st k) t)"
  using assms
proof (induction rds arbitrary: st runs)
  case Nil
  then show ?case by (simp add: run_times_def)
next
  case (Cons rd rds)
  obtain ks st1 where one: "monitor_round rd st = (ks, st1)" by (rule prod.exhaust)
  obtain later where l: "monitor_rounds rds st1 = (later, st')" "runs = map (\<lambda>x. (x, rd_now rd)) ks @ later"
    using Cons.prems(1) one by (auto split: prod.splits)
  note f = round_facts [OF one]
  have int: "rd_rescan_interval rd = interval" "0 < rd_now rd" using Cons.prems(3) by simp_all
  have last1: "ms_last st1 k = rd_now rd \<or> ms_last st1 k = ms_last st k" using f(2) [of k] f(3) [of k] by blast
  have later_ge: "\<forall>rd' \<in> set rds. ms_last st1 k \<le> rd_now rd'" using last1 Cons.prems(2,4) by auto
  have ih: "sorted_wrt (apart interval k) (run_times k later)"
    "\<forall>t \<in> set (run_times k later). counted k st1 \<longrightarrow> apart interval k (ms_last st1 k) t"
    using Cons.IH [OF l(1) _ _ later_ge] Cons.prems(2,3) by auto
  show ?case
  proof (cases "k \<in> set ks")
    case True
    have now: "apart interval k (ms_last st k) (rd_now rd)" "ms_last st1 k = rd_now rd" using f(2) [OF True] int by simp_all
    have gap: "\<forall>t \<in> set (run_times k later). apart interval k (rd_now rd) t" proof -
      have "counted k st1" unfolding counted_def now(2) using int(2) by blast
      then show ?thesis using ih(2) unfolding now(2) by blast
    qed
    have ge: "rd_now rd \<le> t" if "t \<in> set (run_times k later)" for t
    proof -
      have "t \<in> rd_now ` set rds" using runs_at_rounds [OF l(1)] that by (force simp: run_times_def)
      then show ?thesis using Cons.prems(2) by auto
    qed
    show ?thesis using True ih(1) gap now(1) ge apart_later f(1) by (auto simp: l(2) run_times_round)
  next
    case False
    from f(3) [OF False] show ?thesis
    proof
      assume same: "ms_last st1 k = ms_last st k"
      then show ?thesis using False ih f(1) counted_same [OF same] by (simp add: l(2) run_times_round)
    next
      assume a: "k = Rescan \<and> ms_last st k \<le> 0 \<and> ms_last st1 k = rd_now rd"
      then have "\<not> counted k st" by (auto simp: counted_def)
      then show ?thesis using False ih(1) f(1) by (simp add: l(2) run_times_round)
    qed
  qed
qed

lemma first_round_no_rescan: "fst (monitor_rounds [rd] new_monitor) = runs \<Longrightarrow> Rescan \<notin> fst ` set runs"
  using round_facts(4) [OF prod.collapse [symmetric], of rd new_monitor]
  by (auto simp: new_monitor_def case_prod_beta)

end
