(* ===== verification/Source_Stats.thy ===== *)
theory Source_Stats
  imports Resource_Store Expiring_Cache
begin

text \<open>
  \<open>app/services/source_stats.py\<close>: the table of the sources with their counts, and when a source is skipped because
  it failed too often or was too slow.  The texts of times are read by the parameter \<open>stamp\<close>.
  The rate of success shown to the user, a rounded float, is left out.
  Shown: every fetch is counted once; a source is skipped only within ten minutes of its last fetch;
  counting a match here and where a resource is saved is the same as long as the source has a name.
\<close>

section \<open>The table\<close>

record source_row =
  sr_name :: pystr
  sr_type :: pystr
  sr_success :: int
  sr_fail :: int
  sr_match :: int
  sr_items :: int
  sr_latency :: "int option"
  sr_success_at :: "pystr option"
  sr_error_at :: "pystr option"
  sr_error :: "pystr option"
  sr_updated :: pystr

type_synonym source_table = "(pystr \<times> source_row) list"

definition UNKNOWN_SOURCE :: pystr where
  "UNKNOWN_SOURCE = [0x672A, 0x77E5, 0x6E90]"

definition source_stats_key :: "pystr \<Rightarrow> pystr \<Rightarrow> pystr \<Rightarrow> pystr" where
  "source_stats_key source_type name url = source_type @ [58] @ or_str (or_str name url) UNKNOWN_SOURCE"

definition coalesce :: "'a option \<Rightarrow> 'a option \<Rightarrow> 'a option" where
  "coalesce a b = (case a of Some x \<Rightarrow> Some x | None \<Rightarrow> b)"

text \<open>The outcome of a fetch\<close>

record fetch =
  f_ok :: bool
  f_items :: int
  f_latency :: "int option"
  f_error :: pystr

definition new_fetch_row :: "pystr \<Rightarrow> pystr \<Rightarrow> pystr \<Rightarrow> fetch \<Rightarrow> source_row" where
  "new_fetch_row now name source_type f =
     \<lparr>sr_name = name, sr_type = source_type, sr_success = (if f_ok f then 1 else 0), sr_fail = (if f_ok f then 0 else 1),
      sr_match = 0, sr_items = f_items f, sr_latency = f_latency f, sr_success_at = (if f_ok f then Some now else None),
      sr_error_at = (if f_ok f then None else Some now), sr_error = Some (take 500 (f_error f)), sr_updated = now\<rparr>"

definition record_source_fetch :: "pystr \<Rightarrow> pystr \<Rightarrow> pystr \<Rightarrow> pystr \<Rightarrow> fetch \<Rightarrow> source_table \<Rightarrow> source_table" where
  "record_source_fetch now key name source_type f tbl =
     (let new = new_fetch_row now name source_type f in
      case map_of tbl key of
        None \<Rightarrow> dict_set key new tbl
      | Some old \<Rightarrow>
          dict_set key
            (new\<lparr>sr_success := sr_success old + sr_success new, sr_fail := sr_fail old + sr_fail new, sr_match := sr_match old,
               sr_success_at := coalesce (sr_success_at new) (sr_success_at old),
               sr_error_at := coalesce (sr_error_at new) (sr_error_at old),
               sr_error := (if sr_error new \<noteq> Some [] then sr_error new else sr_error old)\<rparr>) tbl)"

definition record_source_match_full :: "pystr \<Rightarrow> pystr \<Rightarrow> source_table \<Rightarrow> source_table" where
  "record_source_match_full now source tbl =
     (case split_once 58 (strip source) of
        None \<Rightarrow> tbl
      | Some (source_type, name) \<Rightarrow>
          (let key = source_stats_key source_type name [] in
           case map_of tbl key of
             None \<Rightarrow>
               dict_set key
                 \<lparr>sr_name = name, sr_type = source_type, sr_success = 0, sr_fail = 0, sr_match = 1, sr_items = 0, sr_latency = None,
                  sr_success_at = None, sr_error_at = None, sr_error = None, sr_updated = now\<rparr> tbl
           | Some old \<Rightarrow> dict_set key (old\<lparr>sr_name := name, sr_type := source_type, sr_match := sr_match old + 1, sr_updated := now\<rparr>) tbl))"

section \<open>Sources that are skipped\<close>

definition SOURCE_HEALTH_COOLDOWN_SECONDS :: time where
  "SOURCE_HEALTH_COOLDOWN_SECONDS = 600"

definition SOURCE_HEALTH_FAIL_MARGIN :: int where
  "SOURCE_HEALTH_FAIL_MARGIN = 3"

definition SOURCE_HEALTH_SLOW_LATENCY_MS :: int where
  "SOURCE_HEALTH_SLOW_LATENCY_MS = 12000"

definition is_recent :: "time \<Rightarrow> time option \<Rightarrow> bool" where
  "is_recent now t_opt = (case t_opt of None \<Rightarrow> False | Some t \<Rightarrow> now - t \<le> SOURCE_HEALTH_COOLDOWN_SECONDS)"

definition latest_time :: "time option \<Rightarrow> time option \<Rightarrow> time option" where
  "latest_time a b = (case (a, b) of (Some x, Some y) \<Rightarrow> Some (max x y) | (Some x, None) \<Rightarrow> Some x | (None, y) \<Rightarrow> y)"

definition parse_time :: "(pystr \<Rightarrow> time option) \<Rightarrow> pystr option \<Rightarrow> time option" where
  "parse_time stamp value_opt = (case value_opt of None \<Rightarrow> None | Some v \<Rightarrow> if v = [] then None else stamp v)"

datatype source_health = Healthy | Recent_Failures | Slow_Source

definition source_health_from_item :: "(pystr \<Rightarrow> time option) \<Rightarrow> time \<Rightarrow> source_row \<Rightarrow> source_health" where
  "source_health_from_item stamp now row =
     (let error_at = parse_time stamp (sr_error_at row); success_at = parse_time stamp (sr_success_at row);
          latency = (case sr_latency row of None \<Rightarrow> 0 | Some l \<Rightarrow> l) in
      if is_recent now error_at \<and> SOURCE_HEALTH_FAIL_MARGIN \<le> sr_fail row - sr_success row then Recent_Failures
      else if SOURCE_HEALTH_SLOW_LATENCY_MS \<le> latency \<and> is_recent now (latest_time error_at success_at) then Slow_Source
      else Healthy)"

definition source_health_status :: "(pystr \<Rightarrow> time option) \<Rightarrow> time \<Rightarrow> pystr \<Rightarrow> source_table \<Rightarrow> source_health" where
  "source_health_status stamp now key tbl =
     (case map_of tbl key of None \<Rightarrow> Healthy | Some row \<Rightarrow> source_health_from_item stamp now row)"

text \<open>Newest first\<close>

definition list_source_stats :: "(pystr \<Rightarrow> time option) \<Rightarrow> time \<Rightarrow> source_table \<Rightarrow> (source_row \<times> source_health) list" where
  "list_source_stats stamp now tbl =
     map (\<lambda>row. (row, source_health_from_item stamp now row)) (rev (sort_key sr_updated (rev (map snd tbl))))"

section \<open>Counting\<close>

definition fetches :: "source_table \<Rightarrow> pystr \<Rightarrow> int" where
  "fetches tbl key = (case map_of tbl key of None \<Rightarrow> 0 | Some row \<Rightarrow> sr_success row + sr_fail row)"

definition matches_of :: "source_table \<Rightarrow> pystr \<Rightarrow> int" where
  "matches_of tbl key = (case map_of tbl key of None \<Rightarrow> 0 | Some row \<Rightarrow> sr_match row)"

lemma fetch_counted:
  "fetches (record_source_fetch now key name ty f tbl) k = fetches tbl k + (if k = key then 1 else 0)"
  "matches_of (record_source_fetch now key name ty f tbl) k = matches_of tbl k"
  by (auto simp: fetches_def matches_of_def record_source_fetch_def new_fetch_row_def Let_def update_conv' split: option.splits)

lemma match_counted:
  assumes "split_once 58 (strip source) = Some (ty, name)"
  shows "matches_of (record_source_match_full now source tbl) k = matches_of tbl k + (if k = source_stats_key ty name [] then 1 else 0)"
    "fetches (record_source_match_full now source tbl) k = fetches tbl k"
  using assms by (auto simp: fetches_def matches_of_def record_source_match_full_def Let_def update_conv' split: option.splits)

text \<open>An error text is kept until a later error has one.\<close>

lemma error_kept:
  "map_of tbl key = Some old \<Longrightarrow> f_error f = [] \<Longrightarrow>
     map_option sr_error (map_of (record_source_fetch now key name ty f tbl) key) = Some (sr_error old)"
  by (simp add: record_source_fetch_def new_fetch_row_def Let_def update_conv')

section \<open>When a source is skipped\<close>

lemma skipped_recently:
  assumes "source_health_from_item stamp now row \<noteq> Healthy"
  shows "\<exists>t. (parse_time stamp (sr_error_at row) = Some t \<or> parse_time stamp (sr_success_at row) = Some t) \<and> now - t \<le> 600"
proof -
  have latest: "\<exists>t. (a = Some t \<or> b = Some t) \<and> now - t \<le> 600" if "is_recent now (latest_time a b)" for a b
    using that by (cases a; cases b) (auto simp: is_recent_def latest_time_def SOURCE_HEALTH_COOLDOWN_SECONDS_def max_def split: if_splits)
  have one: "\<exists>t. a = Some t \<and> now - t \<le> 600" if "is_recent now a" for a
    using that by (cases a) (auto simp: is_recent_def SOURCE_HEALTH_COOLDOWN_SECONDS_def)
  have "is_recent now (parse_time stamp (sr_error_at row)) \<or> is_recent now (latest_time (parse_time stamp (sr_error_at row)) (parse_time stamp (sr_success_at row)))"
    using assms by (auto simp: source_health_from_item_def Let_def split: if_splits)
  then show ?thesis using latest one by blast
qed

text \<open>A fast success does not end the skipping after failures: the counts since ever decide.\<close>

lemma success_keeps_skipping:
  assumes "map_of tbl key = Some old" "4 \<le> sr_fail old - sr_success old" "is_recent clock (parse_time stamp (sr_error_at old))" "f_ok f"
  shows "source_health_status stamp clock key (record_source_fetch now key name ty f tbl) = Recent_Failures"
  using assms
  by (simp add: source_health_status_def record_source_fetch_def new_fetch_row_def Let_def update_conv' source_health_from_item_def
      coalesce_def SOURCE_HEALTH_FAIL_MARGIN_def)

text \<open>After three failures more than successes a source is skipped at once.\<close>

lemma failure_starts_skipping:
  assumes "map_of tbl key = Some old" "2 \<le> sr_fail old - sr_success old" "stamp now = Some t" "now \<noteq> []" "clock - t \<le> 600" "\<not> f_ok f"
  shows "source_health_status stamp clock key (record_source_fetch now key name ty f tbl) = Recent_Failures"
  using assms
  by (simp add: source_health_status_def record_source_fetch_def new_fetch_row_def Let_def update_conv' source_health_from_item_def
      coalesce_def SOURCE_HEALTH_FAIL_MARGIN_def is_recent_def parse_time_def SOURCE_HEALTH_COOLDOWN_SECONDS_def)

section \<open>The match that is counted where a resource is saved\<close>

definition match_part :: "source_row \<Rightarrow> source_stat" where
  "match_part row = \<lparr>ss_name = sr_name row, ss_type = sr_type row, ss_match_count = sr_match row\<rparr>"

definition match_parts :: "source_table \<Rightarrow> (pystr \<times> source_stat) list" where
  "match_parts tbl = map (\<lambda>(k, row). (k, match_part row)) tbl"

lemma match_parts_update: "match_parts (dict_set k row tbl) = dict_set k (match_part row) (match_parts tbl)"
  by (induction tbl) (auto simp: match_parts_def)

lemma map_of_match_parts: "map_of (match_parts tbl) k = map_option match_part (map_of tbl k)"
  by (induction tbl) (auto simp: match_parts_def)

lemma match_refines:
  assumes "\<forall>ty. split_once 58 (strip source) \<noteq> Some (ty, [])"
  shows "match_parts (record_source_match_full now source tbl) = record_source_match source (match_parts tbl)"
proof (cases "split_once 58 (strip source)")
  case None
  then show ?thesis by (simp add: record_source_match_full_def record_source_match_def)
next
  case (Some p)
  obtain ty name where p: "p = (ty, name)" by (cases p)
  then have "name \<noteq> []" using assms Some by auto
  then show ?thesis
    using Some p by (auto simp: record_source_match_full_def record_source_match_def source_stats_key_def or_str_def Let_def
        match_parts_update map_of_match_parts match_part_def split: option.split)
qed

text \<open>Without a name the two count under different keys.\<close>

lemma unnamed_keys_differ: "source_stats_key ty [] [] \<noteq> ty @ [58] @ or_str [] [0x8BA2, 0x9605, 0x6E90]"
  by (simp add: source_stats_key_def or_str_def UNKNOWN_SOURCE_def)

end
