(* ===== verification/Source_Health.thy ===== *)
theory Source_Health
  imports Match_Text Haisou_Budget "HOL-Library.Product_Lexorder" "HOL-Library.Multiset"
begin

text \<open>
  \<open>app/services/source_health.py\<close>: which of the other sources are left alone for a while after failures, and in
  which order the rest is asked.  Three dictionaries of the process; latencies are rational numbers.
  Shown: a source on cooldown has failed twice (a timeout counts as two) since its last success, and is
  left alone for three minutes after its last failure at most; a success ends the cooldown at once; something is always
  left to ask; those on cooldown come last.
\<close>

section \<open>State and operations\<close>

definition COOLDOWN_SECONDS :: time where
  "COOLDOWN_SECONDS = 180"

definition FAILURE_THRESHOLD :: int where
  "FAILURE_THRESHOLD = 2"

definition MAX_ENTRIES :: nat where
  "MAX_ENTRIES = 256"

record health_state =
  hs_failures :: "(pystr \<times> int) list"
  hs_cooldown :: "(pystr \<times> time) list"
  hs_latency :: "(pystr \<times> rat) list"

definition clear_source_health :: "health_state \<Rightarrow> health_state" where
  "clear_source_health st = \<lparr>hs_failures = [], hs_cooldown = [], hs_latency = []\<rparr>"

definition health_key :: "pyval \<Rightarrow> pystr" where
  "health_key source =
     (if is_pdict source
      then casefold (strip (str_of_val (por (por (por (pget source (u ''name'')) (pget source (u ''url''))) (pget source (u ''id''))) (PStr []))))
      else casefold (strip (str_of_val (por source (PStr [])))))"

text \<open>A stored latency of zero counts as none.\<close>

definition note_source_success :: "pyval \<Rightarrow> rat \<Rightarrow> health_state \<Rightarrow> health_state" where
  "note_source_success source latency_ms st =
     (let key = health_key source in
      if key = [] then st
      else
        let sample = max 0 latency_ms;
            prev = (case map_of (hs_latency st) key of None \<Rightarrow> sample | Some l \<Rightarrow> if l = 0 then sample else l)
        in st\<lparr>hs_failures := dict_set key 0 (hs_failures st), hs_cooldown := dict_pop key (hs_cooldown st),
              hs_latency := dict_set key (2 / 5 * sample + 3 / 5 * prev) (hs_latency st)\<rparr>)"

definition drop_expired :: "time \<Rightarrow> health_state \<Rightarrow> health_state" where
  "drop_expired now st =
     (let old = map fst (filter (\<lambda>(_, until). until \<le> now) (hs_cooldown st)) in
      st\<lparr>hs_cooldown := fold dict_pop old (hs_cooldown st), hs_failures := fold dict_pop old (hs_failures st)\<rparr>)"

definition drop_overflow :: "health_state \<Rightarrow> health_state" where
  "drop_overflow st =
     (let over = map fst (drop MAX_ENTRIES (sort_key (\<lambda>(_, n). - n) (hs_failures st))) in
      st\<lparr>hs_failures := fold dict_pop over (hs_failures st), hs_cooldown := fold dict_pop over (hs_cooldown st),
         hs_latency := fold dict_pop over (hs_latency st)\<rparr>)"

definition purge :: "time \<Rightarrow> health_state \<Rightarrow> health_state" where
  "purge now st =
     (if length (hs_failures st) \<le> MAX_ENTRIES \<and> length (hs_cooldown st) \<le> MAX_ENTRIES then st
      else let st' = drop_expired now st in if MAX_ENTRIES < length (hs_failures st') then drop_overflow st' else st')"

definition failures_of :: "pystr \<Rightarrow> health_state \<Rightarrow> int" where
  "failures_of key st = (case map_of (hs_failures st) key of None \<Rightarrow> 0 | Some n \<Rightarrow> n)"

definition note_source_failure :: "time \<Rightarrow> pyval \<Rightarrow> bool \<Rightarrow> health_state \<Rightarrow> health_state" where
  "note_source_failure now source timeout st =
     (let key = health_key source in
      if key = [] then st
      else
        let n = failures_of key st + (if timeout then 2 else 1);
            st1 = st\<lparr>hs_failures := dict_set key n (hs_failures st)\<rparr>
        in purge now (if FAILURE_THRESHOLD \<le> n then st1\<lparr>hs_cooldown := dict_set key (now + COOLDOWN_SECONDS) (hs_cooldown st1)\<rparr> else st1))"

definition source_on_cooldown :: "time \<Rightarrow> pyval \<Rightarrow> health_state \<Rightarrow> bool \<times> health_state" where
  "source_on_cooldown now source st =
     (let key = health_key source; until = (case map_of (hs_cooldown st) key of None \<Rightarrow> 0 | Some t \<Rightarrow> t) in
      if key = [] then (False, st)
      else if until \<le> 0 then (False, st)
      else if until \<le> now
      then (False, st\<lparr>hs_cooldown := dict_pop key (hs_cooldown st), hs_failures := dict_set key 0 (hs_failures st)\<rparr>)
      else (True, st))"

fun split_ready :: "time \<Rightarrow> pyval list \<Rightarrow> health_state \<Rightarrow> pyval list \<times> health_state" where
  "split_ready now [] st = ([], st)"
| "split_ready now (s # ss) st =
     (case source_on_cooldown now s st of
        (cooling, st1) \<Rightarrow> (case split_ready now ss st1 of (ready, st2) \<Rightarrow> (if cooling then ready else s # ready, st2)))"

definition filter_ready_sources :: "time \<Rightarrow> pyval list \<Rightarrow> health_state \<Rightarrow> pyval list \<times> health_state" where
  "filter_ready_sources now sources st =
     (case split_ready now sources st of (ready, st') \<Rightarrow> (if ready = [] then sources else ready, st'))"

text \<open>The keys are computed one after the other, each on the state the one before it left.\<close>

type_synonym rank = "nat \<times> rat \<times> pystr"

fun with_ranks :: "time \<Rightarrow> pyval list \<Rightarrow> health_state \<Rightarrow> (rank \<times> pyval) list \<times> health_state" where
  "with_ranks now [] st = ([], st)"
| "with_ranks now (s # ss) st =
     (case source_on_cooldown now s st of
        (cooling, st1) \<Rightarrow>
          (case with_ranks now ss st1 of
             (ranked, st2) \<Rightarrow>
               (((if cooling then 1 else 0, (case map_of (hs_latency st1) (health_key s) of None \<Rightarrow> 0 | Some l \<Rightarrow> l), health_key s), s) # ranked, st2)))"

definition rank_sources_by_health :: "time \<Rightarrow> pyval list \<Rightarrow> health_state \<Rightarrow> pyval list \<times> health_state" where
  "rank_sources_by_health now sources st =
     (case with_ranks now sources st of (ranked, st') \<Rightarrow> (map snd (sort_key fst ranked), st'))"

section \<open>Cooldowns\<close>

text \<open>
  A cooldown ends in the future of \<open>latest\<close>, the time of the last failure, by three minutes at most, and its source
  has failed often enough; the keys are not empty.
\<close>

definition health_ok :: "time \<Rightarrow> health_state \<Rightarrow> bool" where
  "health_ok latest st \<longleftrightarrow>
     (\<forall>k until. map_of (hs_cooldown st) k = Some until \<longrightarrow>
        k \<noteq> [] \<and> until \<le> latest + COOLDOWN_SECONDS \<and> FAILURE_THRESHOLD \<le> failures_of k st)"

lemma map_of_pop_fold: "map_of (fold dict_pop ks d) k = (if k \<in> set ks then None else map_of d k)"
  by (induction ks arbitrary: d) (auto simp: delete_conv')

lemma health_ok_start: "health_ok latest (clear_source_health st)"
  by (simp add: health_ok_def clear_source_health_def)

lemma health_ok_mono: "health_ok latest st \<Longrightarrow> latest \<le> latest' \<Longrightarrow> health_ok latest' st"
  by (fastforce simp: health_ok_def)

lemma success_ok: "health_ok latest st \<Longrightarrow> health_ok latest (note_source_success source l st)"
  by (auto simp: health_ok_def note_source_success_def Let_def failures_of_def update_conv' delete_conv')

lemma drop_ok:
  "health_ok latest st \<Longrightarrow>
     health_ok latest (st\<lparr>hs_failures := fold dict_pop ks (hs_failures st), hs_cooldown := fold dict_pop ks (hs_cooldown st), hs_latency := ls\<rparr>)"
  by (auto simp: health_ok_def failures_of_def map_of_pop_fold)

lemma purge_ok: "health_ok latest st \<Longrightarrow> health_ok latest (purge now st)"
proof -
  assume ok: "health_ok latest st"
  have expired: "health_ok latest (drop_expired now st)"
    using drop_ok [OF ok, where ks = "map fst (filter (\<lambda>(_, until). until \<le> now) (hs_cooldown st))" and ls = "hs_latency st"]
    by (simp add: drop_expired_def Let_def health_ok_def failures_of_def)
  have over: "health_ok latest (drop_overflow st')" if "health_ok latest st'" for st'
    using drop_ok [OF that] by (simp add: drop_overflow_def Let_def)
  show ?thesis using ok expired over by (simp add: purge_def Let_def)
qed

lemma failure_ok:
  assumes "health_ok latest st" "latest \<le> now"
  shows "health_ok now (note_source_failure now source timeout st)"
proof -
  let ?key = "health_key source"
  let ?n = "failures_of ?key st + (if timeout then 2 else 1)"
  have ok: "health_ok now st" using health_ok_mono assms by blast
  then have "health_ok now (st\<lparr>hs_failures := dict_set ?key ?n (hs_failures st)\<rparr>)"
    by (fastforce simp: health_ok_def failures_of_def update_conv')
  moreover have "health_ok now (st\<lparr>hs_failures := dict_set ?key ?n (hs_failures st), hs_cooldown := dict_set ?key (now + COOLDOWN_SECONDS) (hs_cooldown st)\<rparr>)"
    if "?key \<noteq> []" "FAILURE_THRESHOLD \<le> ?n"
    using ok that by (fastforce simp: health_ok_def failures_of_def update_conv')
  ultimately show ?thesis using ok purge_ok by (simp add: note_source_failure_def Let_def)
qed

lemma asked_ok: "health_ok latest st \<Longrightarrow> source_on_cooldown now source st = (cooling, st') \<Longrightarrow> health_ok latest st'"
  by (fastforce simp: source_on_cooldown_def Let_def health_ok_def failures_of_def update_conv' delete_conv' split: if_splits)

lemma split_ready_ok: "health_ok latest st \<Longrightarrow> split_ready now sources st = (ready, st') \<Longrightarrow> health_ok latest st'"
  by (induction sources arbitrary: st ready) (auto split: prod.splits dest: asked_ok)

lemma ranks_ok: "health_ok latest st \<Longrightarrow> with_ranks now sources st = (ranked, st') \<Longrightarrow> health_ok latest st'"
  by (induction sources arbitrary: st ranked) (auto split: prod.splits dest: asked_ok)

text \<open>A source on cooldown has failed twice, three minutes ago at most; a success lets it be asked again.\<close>

lemma cooling_facts:
  assumes "health_ok latest st" "source_on_cooldown now source st = (True, st')"
  shows "now < latest + 180 \<and> 2 \<le> failures_of (health_key source) st \<and> st' = st"
proof -
  define until where "until = (case map_of (hs_cooldown st) (health_key source) of None \<Rightarrow> 0 | Some t \<Rightarrow> t)"
  have t: "0 < until" "now < until" "st' = st"
    using assms(2) by (simp_all add: source_on_cooldown_def Let_def until_def [symmetric] split: if_splits)
  then have "map_of (hs_cooldown st) (health_key source) = Some until" by (cases "map_of (hs_cooldown st) (health_key source)") (simp_all add: until_def)
  then have "until \<le> latest + COOLDOWN_SECONDS" "FAILURE_THRESHOLD \<le> failures_of (health_key source) st"
    using assms(1) by (simp_all add: health_ok_def)
  then show ?thesis using t by (simp add: COOLDOWN_SECONDS_def FAILURE_THRESHOLD_def)
qed

lemma success_ends_cooldown: "\<not> fst (source_on_cooldown now source (note_source_success source l st))"
  by (simp add: source_on_cooldown_def note_source_success_def Let_def delete_conv')

lemma timeout_starts_cooldown:
  assumes "health_key source \<noteq> []" "0 \<le> failures_of (health_key source) st" "0 \<le> now" "now \<le> later" "later < now + 180"
    "length (hs_failures st) < MAX_ENTRIES" "length (hs_cooldown st) < MAX_ENTRIES"
  shows "fst (source_on_cooldown later source (note_source_failure now source True st))"
proof -
  let ?st = "st\<lparr>hs_failures := dict_set (health_key source) (failures_of (health_key source) st + 2) (hs_failures st),
      hs_cooldown := dict_set (health_key source) (now + COOLDOWN_SECONDS) (hs_cooldown st)\<rparr>"
  have "purge now ?st = ?st"
    using assms(6,7) length_dict_set [of "health_key source" "failures_of (health_key source) st + 2" "hs_failures st"]
      length_dict_set [of "health_key source" "now + COOLDOWN_SECONDS" "hs_cooldown st"]
    by (simp add: purge_def)
  then have "note_source_failure now source True st = ?st"
    using assms(1,2) by (simp add: note_source_failure_def Let_def FAILURE_THRESHOLD_def)
  then show ?thesis using assms(1,3-5) by (simp add: source_on_cooldown_def Let_def update_conv' COOLDOWN_SECONDS_def)
qed

section \<open>What is left to ask\<close>

lemma ready_not_empty: "sources \<noteq> [] \<Longrightarrow> fst (filter_ready_sources now sources st) \<noteq> []"
  by (simp add: filter_ready_sources_def split: prod.split)

lemma ready_subset: "set (fst (filter_ready_sources now sources st)) \<subseteq> set sources"
proof -
  have "set (fst (split_ready now ss st)) \<subseteq> set ss" for ss st
    by (induction ss arbitrary: st) (auto simp: case_prod_beta)
  then show ?thesis by (simp add: filter_ready_sources_def case_prod_beta)
qed

lemma ranks_sources: "map snd (fst (with_ranks now sources st)) = sources"
  by (induction sources arbitrary: st) (simp_all add: case_prod_beta)

lemma rank_permutes: "mset (fst (rank_sources_by_health now sources st)) = mset sources"
  using ranks_sources [of now sources st] by (simp add: rank_sources_by_health_def case_prod_beta) (metis mset_map mset_sort)

text \<open>Whether a source cools down does not depend on what was asked before it.\<close>

definition cooling_now :: "time \<Rightarrow> health_state \<Rightarrow> pyval \<Rightarrow> bool" where
  "cooling_now now st source = fst (source_on_cooldown now source st)"

lemma cooling_now_iff:
  "cooling_now now st source \<longleftrightarrow>
     health_key source \<noteq> [] \<and> (\<exists>until. map_of (hs_cooldown st) (health_key source) = Some until \<and> 0 < until \<and> now < until)"
  by (auto simp: cooling_now_def source_on_cooldown_def Let_def split: option.split)

lemma asked_same: "source_on_cooldown now source st = (cooling, st') \<Longrightarrow> cooling_now now st' = cooling_now now st"
  by (rule ext) (auto simp: source_on_cooldown_def Let_def cooling_now_iff delete_conv' split: if_splits option.splits)

lemma ready_eq: "fst (split_ready now sources st) = filter (\<lambda>s. \<not> cooling_now now st s) sources"
proof (induction sources arbitrary: st)
  case (Cons s ss)
  obtain cooling st1 where c: "source_on_cooldown now s st = (cooling, st1)" by (rule prod.exhaust)
  have "cooling_now now st s = cooling" by (simp add: cooling_now_def c)
  then show ?case using Cons [of st1] asked_same [OF c] by (simp add: c case_prod_beta)
qed simp

lemma ranks_cooling: "\<forall>(rank, s) \<in> set (fst (with_ranks now sources st)). fst rank = (if cooling_now now st s then 1 else 0)"
proof (induction sources arbitrary: st)
  case (Cons s ss)
  obtain cooling st1 where c: "source_on_cooldown now s st = (cooling, st1)" by (rule prod.exhaust)
  obtain ranked st2 where r: "with_ranks now ss st1 = (ranked, st2)" by (rule prod.exhaust)
  have "cooling_now now st s = cooling" by (simp add: cooling_now_def c)
  then show ?case using Cons [of st1] asked_same [OF c] by (auto simp: c r)
qed simp

lemma cooling_last: "sorted (map (\<lambda>s. if cooling_now now st s then 1 else 0 :: nat) (fst (rank_sources_by_health now sources st)))"
proof -
  obtain ranked st' where r: "with_ranks now sources st = (ranked, st')" by (rule prod.exhaust)
  have rank: "\<forall>x \<in> set ranked. fst (fst x) = (if cooling_now now st (snd x) then 1 else 0)"
    using ranks_cooling [of now sources st] by (auto simp: r)
  have "sorted (map fst (sort_key fst ranked))" by (rule sorted_sort_key)
  then have "sorted (map (\<lambda>x. fst (fst x)) (sort_key fst ranked))"
    by (auto simp: sorted_wrt_map less_eq_prod_def elim: sorted_wrt_mono_rel [rotated])
  moreover have "map (\<lambda>x. fst (fst x)) (sort_key fst ranked) = map (\<lambda>x. if cooling_now now st (snd x) then 1 else 0) (sort_key fst ranked)"
    using rank by (intro map_cong) auto
  ultimately show ?thesis by (simp add: rank_sources_by_health_def r comp_def)
qed

end
