(* ===== verification/Py_Utf8.thy ===== *)
theory Py_Utf8
  imports Py_Url
begin

text \<open>
  Percent encoding beyond ASCII: the bytes of every character decode to it, so that a quoted text of any
  characters (surrogates apart, on which \<open>quote\<close> raises) reads back, and with it every query string.
  \<open>quote\<close>, which keeps the slash and writes a space as \<open>%20\<close>.
\<close>

section \<open>Quoting\<close>

definition quote_char :: "nat \<Rightarrow> pystr" where
  "quote_char c = (if quote_safe c \<or> c = 47 then [c] else concat (map quote_byte (utf8_char c)))"

definition quote :: "pystr \<Rightarrow> pystr" where
  "quote s = concat (map quote_char s)"

section \<open>UTF-8 reads back\<close>

definition scalar :: "nat \<Rightarrow> bool" where
  "scalar c \<longleftrightarrow> c < 0x110000 \<and> \<not> (0xD800 \<le> c \<and> c \<le> 0xDFFF)"

lemma split_64: "c = c div 64 * 64 + c mod 64" "c mod 64 < (64 :: nat)" "c div 4096 = c div 64 div 64" "c div 262144 = c div 64 div 64 div 64"
  by (simp_all add: div_mult2_eq [symmetric])

lemma decode_two:
  assumes "128 \<le> c" "c < 2048"
  shows "utf8_decode None (utf8_char c @ bs) = c # utf8_decode None bs"
proof -
  define a d where p: "a = c div 64" "d = c mod 64"
  have c: "c = a * 64 + d" "d < 64" unfolding p by (rule split_64)+
  then have "2 \<le> a" "a < 32" using assms by auto
  moreover have "utf8_char c = [192 + a, 128 + d]" using assms by (simp add: utf8_char_def p)
  ultimately show ?thesis using c(2) by (simp add: utf8_start_def c(1))
qed

lemma decode_three:
  assumes "2048 \<le> c" "c < 65536" "\<not> (0xD800 \<le> c \<and> c \<le> 0xDFFF)"
  shows "utf8_decode None (utf8_char c @ bs) = c # utf8_decode None bs"
proof -
  define a b d where p: "a = c div 64 div 64" "b = c div 64 mod 64" "d = c mod 64"
  have c: "c = (a * 64 + b) * 64 + d" "b < 64" "d < 64" unfolding p using split_64(1) [of c] split_64(1) [of "c div 64"] by simp_all
  have "a * 4096 \<le> c" by (simp add: c(1))
  then have a: "a < 16" using assms(2) by simp
  have first: "32 \<le> b" if "a = 0" using c(1,3) assms(1) that by simp
  have surrogates: "b < 32" if "a = 13" using c assms(3) that by simp
  have bytes: "utf8_char c = [224 + a, 128 + b, 128 + d]" using assms by (simp add: utf8_char_def p split_64)
  consider "a = 0" | "a = 13" | "a \<noteq> 0" "a \<noteq> 13" by blast
  then show ?thesis
  proof cases
    case 1
    then show ?thesis using first c(2,3) unfolding bytes by (simp add: utf8_start_def c(1))
  next
    case 2
    then show ?thesis using surrogates c(2,3) unfolding bytes by (simp add: utf8_start_def c(1))
  next
    case 3
    then have "utf8_start (224 + a) = Some (2, 128, 191, a)" using a by (simp add: utf8_start_def)
    then show ?thesis using c(2,3) unfolding bytes by (simp add: c(1))
  qed
qed

lemma decode_four:
  assumes "65536 \<le> c" "c < 0x110000"
  shows "utf8_decode None (utf8_char c @ bs) = c # utf8_decode None bs"
proof -
  define a b d e where p: "a = c div 64 div 64 div 64" "b = c div 64 div 64 mod 64" "d = c div 64 mod 64" "e = c mod 64"
  have c: "c = ((a * 64 + b) * 64 + d) * 64 + e" "b < 64" "d < 64" "e < 64"
    unfolding p using split_64(1) [of c] split_64(1) [of "c div 64"] split_64(1) [of "c div 64 div 64"] by simp_all
  have "a * 262144 \<le> c" by (simp add: c(1))
  then have a: "a \<le> 4" using assms(2) by simp
  have first: "16 \<le> b" if "a = 0" using c(1,3,4) assms(1) that by simp
  have final: "b < 16" if "a = 4" using c assms(2) that by simp
  have bytes: "utf8_char c = [240 + a, 128 + b, 128 + d, 128 + e]" using assms by (simp add: utf8_char_def p split_64)
  consider "a = 0" | "a = 4" | "a \<noteq> 0" "a \<noteq> 4" by blast
  then show ?thesis
  proof cases
    case 1
    then show ?thesis using first c(2-4) unfolding bytes by (simp add: utf8_start_def c(1))
  next
    case 2
    then show ?thesis using final c(2-4) unfolding bytes by (simp add: utf8_start_def c(1))
  next
    case 3
    then have "utf8_start (240 + a) = Some (3, 128, 191, a)" using a by (simp add: utf8_start_def)
    then show ?thesis using c(2-4) unfolding bytes by (simp add: c(1))
  qed
qed

lemma decode_char: "scalar c \<Longrightarrow> utf8_decode None (utf8_char c @ bs) = c # utf8_decode None bs"
  using decode_two [of c bs] decode_three [of c bs] decode_four [of c bs]
  by (cases "c < 128") (auto simp: scalar_def utf8_char_def)

lemma decode_utf8: "\<forall>c \<in> set s. scalar c \<Longrightarrow> utf8_decode None (concat (map utf8_char s)) = s"
  by (induction s) (simp_all add: decode_char)

lemma utf8_byte: "scalar c \<Longrightarrow> b \<in> set (utf8_char c) \<Longrightarrow> b < 256"
proof -
  assume c: "scalar c" and b: "b \<in> set (utf8_char c)"
  have top: "c div 64 < 32" if "c < 2048" using that by auto
  have mid: "c div 4096 < 16" if "c < 65536" using that by auto
  have high: "c div 262144 \<le> 4" using c by (auto simp: scalar_def)
  have low: "128 + x mod 64 < 256" for x :: nat using split_64(2) [of x] by linarith
  show ?thesis
  proof (cases "c < 128")
    case False
    then show ?thesis using b top mid high low by (auto simp: utf8_char_def split: if_splits)
  qed (use b in \<open>simp add: utf8_char_def\<close>)
qed

lemma percent_bytes_bytes: "\<forall>b \<in> set bs. b < 256 \<Longrightarrow> percent_bytes (concat (map quote_byte bs) @ cs) = bs @ percent_bytes cs"
  by (induction bs) (simp_all add: percent_bytes_quoted)

lemma plus_to_space_bytes: "\<forall>b \<in> set bs. b < 256 \<Longrightarrow> plus_to_space (concat (map quote_byte bs)) = concat (map quote_byte bs)"
  by (induction bs) (simp_all add: plus_to_space_append quote_byte_no_plus, simp add: plus_to_space_def)

lemma quote_safe_ascii: "quote_safe c \<Longrightarrow> c < 128"
  by (auto simp: quote_safe_def is_ascii_alpha_def is_ascii_lower_def is_ascii_upper_def is_ascii_digit_def)

lemma percent_bytes_scalar:
  assumes "scalar c"
  shows "percent_bytes (plus_to_space (quote_plus_char c) @ cs) = utf8_char c @ percent_bytes cs"
proof (cases "c < 128")
  case True
  then show ?thesis by (simp add: percent_bytes_char utf8_char_def)
next
  case False
  then have "quote_plus_char c = concat (map quote_byte (utf8_char c))"
    using quote_safe_ascii [of c] by (auto simp: quote_plus_char_def)
  then show ?thesis using utf8_byte [OF assms] by (simp add: plus_to_space_bytes percent_bytes_bytes)
qed

lemma percent_bytes_quote_plus:
  "\<forall>c \<in> set s. scalar c \<Longrightarrow> percent_bytes (plus_to_space (quote_plus s)) = concat (map utf8_char s)"
  by (induction s) (simp_all add: quote_plus_def plus_to_space_append percent_bytes_scalar, simp add: plus_to_space_def)

lemma quote_byte_set: "b < 256 \<Longrightarrow> x \<in> set (quote_byte b) \<Longrightarrow> x < 128 \<and> x \<noteq> 38 \<and> x \<noteq> 61"
proof -
  assume "b < 256" "x \<in> set (quote_byte b)"
  moreover from this have "b div 16 < 16" by auto
  ultimately show ?thesis
    using hex_char_range [of "b div 16"] hex_char_range [of "b mod 16"] by (auto simp: quote_byte_def)
qed

lemma quote_plus_char_chars:
  assumes "scalar c" "x \<in> set (quote_plus_char c)"
  shows "x < 128 \<and> x \<noteq> 38 \<and> x \<noteq> 61"
proof (cases "c < 128")
  case True
  then show ?thesis using quote_plus_char_set assms(2) by blast
next
  case False
  then have "quote_plus_char c = concat (map quote_byte (utf8_char c))"
    using quote_safe_ascii [of c] by (auto simp: quote_plus_char_def)
  then obtain b where "b \<in> set (utf8_char c)" "x \<in> set (quote_byte b)" using assms(2) by auto
  then show ?thesis using quote_byte_set utf8_byte [OF assms(1)] by blast
qed

lemma quote_plus_chars:
  assumes "\<forall>c \<in> set s. scalar c"
  shows "\<forall>x \<in> set (quote_plus s). x < 128 \<and> x \<noteq> 38 \<and> x \<noteq> 61"
  using assms quote_plus_char_chars by (fastforce simp: quote_plus_def)

lemma unquote_quote_plus:
  assumes "\<forall>c \<in> set s. scalar c"
  shows "unquote (plus_to_space (quote_plus s)) = s"
proof -
  have "\<forall>c \<in> set (plus_to_space (quote_plus s)). c < 128"
    using quote_plus_chars [OF assms] by (auto simp: plus_to_space_def)
  then show ?thesis
    using assms by (simp add: unquote_ascii percent_bytes_quote_plus decode_utf8)
qed

section \<open>Query strings of any characters read back\<close>

lemma parse_urlencode_all:
  assumes "\<forall>(k, v) \<in> set items. \<forall>c \<in> set k \<union> set v. scalar c"
  shows "parse_qsl (urlencode items) = items"
proof (cases "items = []")
  case False
  let ?f = "\<lambda>(k, v). quote_plus k @ [61] @ quote_plus v"
  have no: "38 \<notin> set (?f item)" "parse_field (?f item) = item" "?f item \<noteq> []" if "item \<in> set items" for item
  proof -
    obtain k v where kv: "item = (k, v)" by fastforce
    with assms that have a: "\<forall>c \<in> set k. scalar c" "\<forall>c \<in> set v. scalar c" by auto
    show "38 \<notin> set (?f item)" using quote_plus_chars [OF a(1)] quote_plus_chars [OF a(2)] by (auto simp: kv)
    have "61 \<notin> set (quote_plus k)" using quote_plus_chars [OF a(1)] by blast
    then show "parse_field (?f item) = item"
      using a by (simp add: kv parse_field_def split_once_append unquote_quote_plus)
    show "?f item \<noteq> []" by (simp add: kv)
  qed
  have "split_char 38 (urlencode items) = map ?f items"
    unfolding urlencode_def by (rule split_char_join) (use False no(1) in auto)
  moreover have "filter (\<lambda>f. f \<noteq> []) (map ?f items) = map ?f items"
    using no(3) by (auto simp: filter_id_conv)
  moreover have "map (parse_field \<circ> ?f) items = items"
    using no(2) by (simp add: map_idI)
  ultimately show ?thesis by (simp add: parse_qsl_def)
qed (simp add: urlencode_def parse_qsl_def)

end
