(* ===== verification/Rss_Sources.thy ===== *)
theory Rss_Sources
  imports Source_Stats Source_Health Py_Utf8 Link_Downloads
begin

text \<open>
  \<open>app/services/sources/rss/config.py\<close>, \<open>url_builder.py\<close> and the parts of \<open>search.py\<close> and \<open>refresh_state.py\<close> that look at a
  configured source: its type, plugin, key and priority, the queries it is asked and the address of a query.  A source is the
  dictionary of the settings.  The merging of the built-in sources into the settings is left out.
  Shown: a query reaches a Torznab source as it is, whatever characters it has; two queries at most are asked in the
  search by priority, of different compact texts; the boost from the statistics lies between -80 and 12 and so can turn around
  the priorities of the user; the key under which the boost of a source without a name looks is never written.
\<close>

section \<open>Configured sources\<close>

definition source_text :: "pyval \<Rightarrow> pystr \<Rightarrow> pystr" where
  "source_text source k = str_of_val (por (pget source k) (PStr []))"

definition LEGACY_SITE_PLUGIN_TYPES :: "pystr list" where
  "LEGACY_SITE_PLUGIN_TYPES = map u [''magnet_web'', ''web_magnet'', ''magnet'']"

definition SITE_PLUGIN_TYPES :: "pystr list" where
  "SITE_PLUGIN_TYPES = map u [''site_plugin'', ''site'', ''plugin''] @ LEGACY_SITE_PLUGIN_TYPES"

definition SITE_PLUGIN_ALIASES :: "(pystr \<times> pystr) list" where
  "SITE_PLUGIN_ALIASES =
     [(u ''bt1207'', u ''bt1207''), (u ''bt1207_magnet'', u ''bt1207''), (u ''generic'', u ''generic_magnet''),
      (u ''generic_html'', u ''generic_magnet''), (u ''generic_magnet'', u ''generic_magnet''), (u ''magnet'', u ''generic_magnet''),
      (u ''magnet_web'', u ''generic_magnet''), (u ''qmp4'', u ''qmp4''), (u ''qiwei'', u ''qmp4''), (u ''qmp4_magnet'', u ''qmp4''),
      (u ''haisou'', u ''haisou''), ([0x6D77, 0x641C], u ''haisou'')]"

definition source_type_of :: "pyval \<Rightarrow> pystr" where
  "source_type_of source =
     (let t = lower (strip (str_of_val (por (pget source (u ''type'')) (PStr (u ''rss''))))) in
      if t \<in> set SITE_PLUGIN_TYPES then u ''site_plugin'' else or_str t (u ''rss''))"

definition is_bt1207_url :: "pystr \<Rightarrow> bool" where
  "is_bt1207_url url = contains (u ''bt1207'') (lower (url_netloc (urlparse url)))"

definition is_qmp4_url :: "pystr \<Rightarrow> bool" where
  "is_qmp4_url url = contains (u ''qmp4.com'') (lower (url_netloc (urlparse url)))"

definition site_plugin_id :: "pyval \<Rightarrow> pystr" where
  "site_plugin_id source =
     (let url = source_text source (u ''url'') in
      if is_qmp4_url url then u ''qmp4''
      else if is_bt1207_url url then u ''bt1207''
      else
        let raw = lower (strip (str_of_val (por (por (pget source (u ''plugin'')) (pget source (u ''site_plugin''))) (PStr [])))) in
        case map_of SITE_PLUGIN_ALIASES raw of
          Some p \<Rightarrow> p
        | None \<Rightarrow> if truthy_setting False (pget source (u ''_haisou'')) then u ''haisou'' else u ''generic_magnet'')"

definition source_identity :: "pyval \<Rightarrow> pystr" where
  "source_identity source =
     str_of_val (por (pget source (u ''id'')) (PStr (source_text source (u ''name'') @ [124] @ source_text source (u ''url''))))"

definition source_dedupe_key :: "pyval \<Rightarrow> pystr" where
  "source_dedupe_key source =
     (let plugin_id = site_plugin_id source;
          url = rstrip_chars [47] (strip (source_text source (u ''url''))) in
      if source_type_of source = u ''site_plugin'' \<and> plugin_id \<in> {u ''bt1207'', u ''qmp4'', u ''haisou''}
      then u ''site_plugin:'' @ plugin_id
      else source_type_of source @ [58] @ or_str url (source_identity source))"

section \<open>Priorities\<close>

definition stats_key_of :: "pyval \<Rightarrow> pystr" where
  "stats_key_of source =
     source_stats_key (source_type_of source) (strip (source_text source (u ''name''))) (strip (source_text source (u ''url'')))"

definition boost_of_row :: "source_row \<Rightarrow> int" where
  "boost_of_row row =
     (let total = sr_success row + sr_fail row; rate = of_int (sr_success row) / of_int total :: rat in
      if total \<le> 0 then 0
      else (if 4 / 5 \<le> rate \<and> 5 \<le> total then 8 else if rate \<le> 1 / 4 \<and> 5 \<le> sr_fail row then - 20 else 0)
         + (if 5 \<le> sr_match row then 4 else 0))"

definition source_priority_boost :: "(pystr \<Rightarrow> time option) \<Rightarrow> time \<Rightarrow> source_table \<Rightarrow> pyval \<Rightarrow> int" where
  "source_priority_boost stamp now tbl source =
     (if source_health_status stamp now (stats_key_of source) tbl \<noteq> Healthy then - 80
      else case map_of tbl (stats_key_of source) of None \<Rightarrow> 0 | Some row \<Rightarrow> boost_of_row row)"

definition base_priority :: "pyval \<Rightarrow> int" where
  "base_priority source = (case int_of_val (por (pget source (u ''priority'')) (PInt 0)) of None \<Rightarrow> 0 | Some i \<Rightarrow> i)"

definition source_priority :: "(pystr \<Rightarrow> time option) \<Rightarrow> time \<Rightarrow> source_table \<Rightarrow> pyval \<Rightarrow> int" where
  "source_priority stamp now tbl source = base_priority source + source_priority_boost stamp now tbl source"

text \<open>The enabled sources in the order they are asked; \<open>enabled\<close> are the merged settings in the order of \<open>_order\<close>.\<close>

definition sources_in_order :: "(pystr \<Rightarrow> time option) \<Rightarrow> time \<Rightarrow> source_table \<Rightarrow> pyval list \<Rightarrow> pyval list" where
  "sources_in_order stamp now tbl enabled = sort_key (\<lambda>s. - source_priority stamp now tbl s) enabled"

definition refresh_interval_seconds :: "pyval \<Rightarrow> int" where
  "refresh_interval_seconds source =
     max (case int_of_val (por (pget source (u ''refresh_interval'')) (PInt 30)) of None \<Rightarrow> 30 | Some i \<Rightarrow> i) 5 * 60"

text \<open>\<open>last_checked\<close> reads the number stored with the source, 0 where it is none.\<close>

definition due_sources :: "time \<Rightarrow> (pyval \<Rightarrow> time) \<Rightarrow> pyval list \<Rightarrow> pyval list" where
  "due_sources now last_checked sources = filter (\<lambda>s. of_int (refresh_interval_seconds s) \<le> now - last_checked s) sources"

section \<open>Queries\<close>

definition source_supports_query :: "pyval \<Rightarrow> bool" where
  "source_supports_query source =
     (let url = source_text source (u ''url'') in
      contains (u ''{query}'') url \<or> contains (u ''{title}'') url \<or> source_type_of source \<in> {u ''torznab'', u ''site_plugin''})"

definition QMP4_YEAR_RE :: re where
  [re_pats]: "QMP4_YEAR_RE =
     seqs [many (Cls (\<lambda>c. c \<in> {40, 0xFF08, 91} \<or> is_space c)), Alt (lit ''19'') (lit ''20''), upto 2 2 digit,
       many (Cls (\<lambda>c. c \<in> {41, 0xFF09, 93} \<or> is_space c))]"

definition QMP4_QUALITY_RE :: re where
  [re_pats]: "QMP4_QUALITY_RE =
     seqs [WordB,
       alts [lit_i ''2160p'', lit_i ''1080p'', lit_i ''720p'', lit_i ''4k'', seqs [lit_i ''web'', opt (chr 45), lit_i ''dl''], lit_i ''webrip'',
         lit_i ''hdtv'', lit_i ''bluray'', lit_i ''bdrip'', seqs [lit_i ''x26'', one_of [52, 53]],
         seqs [lit_i ''h'', opt (chr 46), lit ''26'', one_of [52, 53]], lit_i ''hevc'', lit_i ''avc'', lit_i ''aac'',
         seqs [lit_i ''dd'', opt (chr_i 112), lit ''5'', opt (chr 46), lit ''1''], lit_i ''hdr'', lit_i ''dv''],
       WordB]"

definition HAN_RE :: re where
  [re_pats]: "HAN_RE = many1 (Cls (\<lambda>c. 0x4E00 \<le> c \<and> c \<le> 0x9FFF))"

definition squeeze :: "pystr \<Rightarrow> pystr" where
  "squeeze text = strip (re_sub SPACE_RE [32] text)"

definition qmp4_query_variants :: "pystr \<Rightarrow> pystr list" where
  "qmp4_query_variants query =
     (let v = strip query in
      if v = [] then []
      else
        let no_year = squeeze (re_sub QMP4_YEAR_RE [32] v);
            no_quality = squeeze (re_sub QMP4_QUALITY_RE [32] no_year);
            variants = fold add_new (filter (\<lambda>x. x \<noteq> []) [v, no_year, no_quality]) [];
            compact = re_sub SPACE_RE [] (or_str (or_str no_quality no_year) v)
        in if 4 \<le> length compact \<and> re_fullmatch HAN_RE compact \<noteq> None
           then fold add_new (filter (\<lambda>x. 3 \<le> length x) [take (length compact - 2) compact, drop 1 compact]) variants
           else variants)"

text \<open>\<^const>\<open>None\<close>: the source is fetched without a query.\<close>

definition source_queries :: "pyval \<Rightarrow> pystr list \<Rightarrow> pystr option list" where
  "source_queries source queries =
     (if \<not> source_supports_query source then [None]
      else if site_plugin_id source = u ''haisou''
      then (case filter (\<lambda>q. strip q \<noteq> []) queries of [] \<Rightarrow> [] | q # _ \<Rightarrow> [Some (strip q)])
      else if site_plugin_id source \<noteq> u ''qmp4'' then map Some (fold add_new (filter (\<lambda>q. q \<noteq> []) queries) [])
      else map Some (fold add_new (concat (map qmp4_query_variants queries)) []))"

text \<open>Short queries first, those with a year or with spaces last; of those with the same compact text the first\<close>

definition compact_query_key :: "pystr \<Rightarrow> nat \<times> nat \<times> nat \<times> nat" where
  "compact_query_key item =
     (if years_from_text item = {} then 0 else 1, if list_ex is_space item then 1 else 0,
      max 1 (length (query_parts item)), length (compact_search_text item))"

fun select_queries :: "nat \<Rightarrow> pystr list \<Rightarrow> pystr set \<Rightarrow> pystr list \<Rightarrow> pystr list" where
  "select_queries limit [] seen selected = selected"
| "select_queries limit (q # qs) seen selected =
     (let key = compact_search_text q in
      if key = [] \<or> key \<in> seen then select_queries limit qs seen selected
      else if max 1 limit \<le> length (selected @ [q]) then selected @ [q]
      else select_queries limit qs (insert key seen) (selected @ [q]))"

definition prefer_compact_queries :: "pystr list \<Rightarrow> nat \<Rightarrow> pystr list" where
  "prefer_compact_queries queries limit =
     select_queries limit (sort_key compact_query_key (filter (\<lambda>q. q \<noteq> []) (map strip queries))) {} []"

definition RSS_PRIORITY_QUERY_LIMIT :: nat where
  "RSS_PRIORITY_QUERY_LIMIT = 2"

definition search_queries :: "pystr \<Rightarrow> pystr list \<Rightarrow> pystr list" where
  "search_queries title keywords = expanded_search_queries title keywords 16"

definition priority_search_queries :: "pystr \<Rightarrow> pystr list \<Rightarrow> pystr list" where
  "priority_search_queries title keywords = prefer_compact_queries (expanded_search_queries title keywords 6) RSS_PRIORITY_QUERY_LIMIT"

definition refresh_search_queries :: "pystr list \<Rightarrow> pystr list" where
  "refresh_search_queries queries = fold add_new (filter (\<lambda>q. q \<noteq> []) (concat (map (\<lambda>q. expanded_search_queries q [] 16) queries))) []"

definition source_matches_filters :: "pyval \<Rightarrow> pystr \<Rightarrow> bool" where
  "source_matches_filters source text =
     (let raw = casefold text; required = split_filter_words (pget source (u ''keywords'')); quality = split_filter_words (pget source (u ''quality'')) in
      list_all (\<lambda>k. contains (casefold k) raw) required
      \<and> (quality = [] \<or> list_ex (\<lambda>k. contains (casefold k) raw) quality))"

fun dedupe_results :: "search_result list \<Rightarrow> (pystr \<times> pystr \<times> pystr) set \<Rightarrow> search_result list" where
  "dedupe_results [] seen = []"
| "dedupe_results (r # rs) seen =
     (let key = (r_source r, download_link_key (r_url r)) in
      if key \<in> seen then dedupe_results rs seen else r # dedupe_results rs (insert key seen))"

section \<open>Addresses\<close>

text \<open>\<open>urljoin\<close> of a base without a path, or with the path \<open>/\<close>, and a relative path of two segments and more\<close>

definition uses_relative :: "pystr list" where
  "uses_relative = [] # map u [''ftp'', ''http'', ''gopher'', ''nntp'', ''imap'', ''wais'', ''file'', ''https'', ''shttp'', ''mms'', ''prospero'',
     ''rtsp'', ''rtsps'', ''rtspu'', ''sftp'', ''svn'', ''svn+ssh'', ''ws'', ''wss'']"

fun resolve_dots :: "pystr list \<Rightarrow> pystr list \<Rightarrow> pystr list" where
  "resolve_dots kept [] = kept"
| "resolve_dots kept (seg # segs) =
     (if seg = [46, 46] then resolve_dots (butlast kept) segs
      else if seg = [46] then resolve_dots kept segs
      else resolve_dots (kept @ [seg]) segs)"

definition join_at_top :: "url_parts \<Rightarrow> pystr \<Rightarrow> pystr" where
  "join_at_top base relative =
     (if url_scheme base \<notin> set uses_relative then relative
      else
        let segs = split_char 47 relative; inner = filter (\<lambda>x. x \<noteq> []) (butlast segs) in
        urlunparse \<lparr>url_scheme = url_scheme base, url_netloc = url_netloc base,
          url_path = or_str (join [47] (resolve_dots [] ([] # inner @ [last segs]))) [47], url_params = [], url_query = [], url_fragment = []\<rparr>)"

definition templated_source_url :: "pystr \<Rightarrow> pystr option \<Rightarrow> pystr option" where
  "templated_source_url url query_opt =
     (case query_opt of
        None \<Rightarrow> None
      | Some query \<Rightarrow>
          if query = [] then None
          else Some (re_sub (lit ''{title}'') (quote query) (re_sub (lit ''{query}'') (quote query) url)))"

definition torznab_params :: "(pystr \<times> pystr) list \<Rightarrow> pystr \<Rightarrow> (pystr \<times> pystr) list" where
  "torznab_params items query =
     (let keys = map (\<lambda>(k, _). lower k) items in
      items @ (if u ''t'' \<in> set keys then [] else [(u ''t'', u ''search'')]) @ (if u ''q'' \<in> set keys then [] else [(u ''q'', query)]))"

definition torznab_source_url :: "pystr \<Rightarrow> pystr \<Rightarrow> pystr" where
  "torznab_source_url url query =
     (let parsed = urlparse url in urlunparse (parsed\<lparr>url_query := urlencode (torznab_params (parse_qsl (url_query parsed)) query)\<rparr>))"

definition site_plugin_source_url :: "pyval \<Rightarrow> pystr \<Rightarrow> pystr \<Rightarrow> pystr" where
  "site_plugin_source_url source url query =
     (let parsed = urlparse url; plugin_id = site_plugin_id source in
      if plugin_id = u ''qmp4'' \<or> is_qmp4_url url
      then urlunparse (parsed\<lparr>url_path := u ''/index.php/ajax/suggest'', url_query := urlencode [(u ''mid'', u ''1''), (u ''wd'', query)]\<rparr>)
      else if (plugin_id = u ''bt1207'' \<or> is_bt1207_url url) \<and> rstrip_chars [47] (url_path parsed) \<in> {[], u ''/search''}
      then urlunparse (parsed\<lparr>url_path := u ''/search'', url_query := urlencode [(u ''keyword'', query)]\<rparr>)
      else if url_query parsed \<noteq> []
      then
        let items = parse_qsl (url_query parsed) in
        urlunparse (parsed\<lparr>url_query := urlencode
          (if list_ex (\<lambda>(k, _). lower k \<in> set (map u [''q'', ''wd'', ''keyword'', ''search'', ''query''])) items then items
           else items @ [(u ''q'', query)])\<rparr>)
      else if url_path parsed \<in> {[], [47]} then join_at_top parsed (u ''s/'' @ quote query @ u ''.html'')
      else url)"

definition source_url :: "pyval \<Rightarrow> pystr option \<Rightarrow> pystr option" where
  "source_url source query_opt =
     (let url = strip (source_text source (u ''url'')) in
      if url = [] then None
      else if contains (u ''{query}'') url \<or> contains (u ''{title}'') url then templated_source_url url query_opt
      else case query_opt of
        None \<Rightarrow> Some url
      | Some query \<Rightarrow>
          if query = [] then Some url
          else if source_type_of source = u ''torznab'' then Some (torznab_source_url url query)
          else if source_type_of source = u ''site_plugin'' then Some (site_plugin_source_url source url query)
          else Some url)"

definition query_release_year :: "pystr option \<Rightarrow> int option" where
  "query_release_year query_opt =
     (case query_opt of None \<Rightarrow> None
      | Some q \<Rightarrow> if years_from_text q = {} then None else Some (Min (years_from_text q)))"

section \<open>A query arrives as it is\<close>

text \<open>The parameters written in the address of a Torznab source, read back, are its own and the query.\<close>

lemma torznab_query_arrives:
  assumes "\<forall>(k, v) \<in> set (parse_qsl (url_query (urlparse url))). \<forall>c \<in> set k \<union> set v. scalar c" "\<forall>c \<in> set query. scalar c"
    and own: "\<forall>(k, v) \<in> set (parse_qsl (url_query (urlparse url))). lower k \<noteq> u ''q''"
  obtains p where "torznab_source_url url query = urlunparse p" "(u ''q'', query) \<in> set (parse_qsl (url_query p))"
    "set (parse_qsl (url_query (urlparse url))) \<subseteq> set (parse_qsl (url_query p))"
proof
  let ?items = "parse_qsl (url_query (urlparse url))"
  let ?p = "(urlparse url)\<lparr>url_query := urlencode (torznab_params ?items query)\<rparr>"
  show "torznab_source_url url query = urlunparse ?p" by (simp add: torznab_source_url_def Let_def)
  have "\<forall>(k, v) \<in> set (torznab_params ?items query). \<forall>c \<in> set k \<union> set v. scalar c"
    using assms(1,2) by (auto simp: torznab_params_def Let_def u_def scalar_def)
  then have read: "parse_qsl (url_query ?p) = torznab_params ?items query" by (simp add: parse_urlencode_all)
  show "(u ''q'', query) \<in> set (parse_qsl (url_query ?p))" unfolding read using own by (auto simp: torznab_params_def Let_def)
  show "set ?items \<subseteq> set (parse_qsl (url_query ?p))" unfolding read by (auto simp: torznab_params_def Let_def)
qed

section \<open>Few queries\<close>

lemma select_queries_facts:
  assumes "distinct (map compact_search_text selected)" "compact_search_text ` set selected \<subseteq> seen" "length selected < max 1 limit"
  shows "distinct (map compact_search_text (select_queries limit qs seen selected))
    \<and> length (select_queries limit qs seen selected) \<le> max 1 limit
    \<and> set (select_queries limit qs seen selected) \<subseteq> set selected \<union> {q \<in> set qs. compact_search_text q \<noteq> []}"
  using assms
proof (induction qs arbitrary: seen selected)
  case (Cons q qs)
  show ?case
  proof (cases "compact_search_text q = [] \<or> compact_search_text q \<in> seen")
    case True
    then show ?thesis using Cons.IH [OF Cons.prems] by (auto simp: Let_def)
  next
    case False
    have new: "distinct (map compact_search_text (selected @ [q]))" using False Cons.prems by auto
    show ?thesis
    proof (cases "max 1 limit \<le> length (selected @ [q])")
      case True
      then show ?thesis using False Cons.prems(3) new by (auto simp: Let_def)
    next
      case short: False
      have step: "select_queries limit (q # qs) seen selected = select_queries limit qs (insert (compact_search_text q) seen) (selected @ [q])"
        using False short by (simp add: Let_def)
      have "compact_search_text ` set (selected @ [q]) \<subseteq> insert (compact_search_text q) seen" using Cons.prems(2) by auto
      then have "distinct (map compact_search_text (select_queries limit qs (insert (compact_search_text q) seen) (selected @ [q])))
        \<and> length (select_queries limit qs (insert (compact_search_text q) seen) (selected @ [q])) \<le> max 1 limit
        \<and> set (select_queries limit qs (insert (compact_search_text q) seen) (selected @ [q]))
            \<subseteq> set (selected @ [q]) \<union> {q \<in> set qs. compact_search_text q \<noteq> []}"
        using Cons.IH [OF new] short by simp
      then show ?thesis unfolding step using False by auto
    qed
  qed
qed auto

lemma preferred_queries:
  "distinct (map compact_search_text (prefer_compact_queries qs limit))" "length (prefer_compact_queries qs limit) \<le> max 1 limit"
  "q \<in> set (prefer_compact_queries qs limit) \<Longrightarrow> q \<in> strip ` set qs \<and> compact_search_text q \<noteq> []"
proof -
  let ?qs = "sort_key compact_query_key (filter (\<lambda>q. q \<noteq> []) (map strip qs))"
  have facts: "distinct (map compact_search_text (select_queries limit ?qs {} [])) \<and> length (select_queries limit ?qs {} []) \<le> max 1 limit
      \<and> set (select_queries limit ?qs {} []) \<subseteq> set [] \<union> {q \<in> set ?qs. compact_search_text q \<noteq> []}"
    by (rule select_queries_facts) simp_all
  show "distinct (map compact_search_text (prefer_compact_queries qs limit))" "length (prefer_compact_queries qs limit) \<le> max 1 limit"
    using facts by (simp_all add: prefer_compact_queries_def)
  show "q \<in> strip ` set qs \<and> compact_search_text q \<noteq> []" if "q \<in> set (prefer_compact_queries qs limit)"
    using facts that by (auto simp: prefer_compact_queries_def)
qed

lemma priority_queries_few: "length (priority_search_queries title keywords) \<le> 2"
  using preferred_queries(2) [of "expanded_search_queries title keywords 6" 2] by (simp add: priority_search_queries_def RSS_PRIORITY_QUERY_LIMIT_def)

lemma paid_source_asked_once:
  "source_supports_query source \<Longrightarrow> site_plugin_id source = u ''haisou'' \<Longrightarrow> length (source_queries source queries) \<le> 1"
  by (simp add: source_queries_def split: list.split)

text \<open>Without repetitions of a source and link; the first of each stays.\<close>

abbreviation result_key :: "search_result \<Rightarrow> pystr \<times> pystr \<times> pystr" where
  "result_key r \<equiv> (r_source r, download_link_key (r_url r))"

lemma dedupe_facts:
  "distinct (map result_key (dedupe_results rs seen)) \<and> set (dedupe_results rs seen) \<subseteq> set rs
   \<and> result_key ` set (dedupe_results rs seen) = result_key ` set rs - seen"
  by (induction rs arbitrary: seen) (auto simp: Let_def image_iff)

lemma dedupe_empty: "dedupe_results rs {} = [] \<longleftrightarrow> rs = []"
  by (cases rs) simp_all

section \<open>Priorities and statistics\<close>

lemma boost_of_row_values: "boost_of_row row \<in> {-20, -16, 0, 4, 8, 12}"
  by (auto simp: boost_of_row_def Let_def)

lemma boost_bounds: "- 80 \<le> source_priority_boost stamp now tbl source \<and> source_priority_boost stamp now tbl source \<le> 12"
proof (cases "map_of tbl (stats_key_of source)")
  case (Some row)
  then show ?thesis using boost_of_row_values [of row] by (auto simp: source_priority_boost_def)
qed (simp add: source_priority_boost_def)

lemma in_order_sorted:
  "mset (sources_in_order stamp now tbl enabled) = mset enabled"
  "sorted (map (\<lambda>s. - source_priority stamp now tbl s) (sources_in_order stamp now tbl enabled))"
  by (simp_all add: sources_in_order_def)

text \<open>
  A source that failed too often comes after every healthy one whose priority of the user is not lower by 92 and more:
  the order of the user is kept only between priorities so far apart.
\<close>

lemma priorities_far_apart_kept:
  assumes "base_priority a + 92 < base_priority b"
  shows "source_priority stamp now tbl a < source_priority stamp now tbl b"
  using boost_bounds [of stamp now tbl a] boost_bounds [of stamp now tbl b] assms by (simp add: source_priority_def)

lemma priorities_turned_around:
  assumes "source_health_status stamp now (stats_key_of a) tbl \<noteq> Healthy" "source_health_status stamp now (stats_key_of b) tbl = Healthy"
    and "\<forall>row. map_of tbl (stats_key_of b) = Some row \<longrightarrow> 0 \<le> boost_of_row row"
    and "base_priority a < base_priority b + 80"
  shows "source_priority stamp now tbl a < source_priority stamp now tbl b"
  using assms by (auto simp: source_priority_def source_priority_boost_def split: option.split)

lemma interval_at_least: "300 \<le> refresh_interval_seconds source"
  by (simp add: refresh_interval_seconds_def)

end
