(* ===== verification/Rss_Fetch.thy ===== *)
theory Rss_Fetch
  imports Rss_Sources
begin

text \<open>
  \<open>app/services/sources/rss/cache.py\<close>, \<open>fetch_source.py\<close>, \<open>refresh.py\<close>, \<open>refresh_state.py\<close> and \<open>search_history\<close> of \<open>search_groups.py\<close>:
  asking a source.  What the source answers is the parameter \<open>ask\<close>: results, a page behind a challenge or an exception.
  The state is the cache of the results and the table of the statistics; the clock, the text of the time and the latency
  of every request are given with it.
  Shown: the cache keeps the contract of \<open>expiring_cache\<close>, with a lifetime that depends on the result; a source is asked its
  queries in order until one brings something, and an answered query is not asked again while its result is kept; every
  fetch is counted once, except that a page behind a challenge counts as a failure and as a success; a failed fetch is kept
  in the cache like an empty result.
\<close>

section \<open>Cache\<close>

definition SEARCH_CACHE_SECONDS :: time where
  "SEARCH_CACHE_SECONDS = 1800"

definition EMPTY_SEARCH_CACHE_TTL_SECONDS :: time where
  "EMPTY_SEARCH_CACHE_TTL_SECONDS = 120"

type_synonym 'v rss_cache = "((pystr \<times> pystr) \<times> (time \<times> 'v list)) list"

definition source_cache_key :: "pyval \<Rightarrow> pystr option \<Rightarrow> pystr \<times> pystr" where
  "source_cache_key source query_opt = (source_dedupe_key source, case query_opt of None \<Rightarrow> [] | Some q \<Rightarrow> q)"

definition kept_for :: "'v list \<Rightarrow> time" where
  "kept_for results = (if results = [] then EMPTY_SEARCH_CACHE_TTL_SECONDS else SEARCH_CACHE_SECONDS)"

definition cached_source_results :: "time \<Rightarrow> pystr \<times> pystr \<Rightarrow> 'v rss_cache \<Rightarrow> 'v list option \<times> 'v rss_cache" where
  "cached_source_results now key saved =
     (case map_of saved key of
        None \<Rightarrow> (None, saved)
      | Some (timestamp, results) \<Rightarrow>
          if kept_for results < now - timestamp then (None, dict_pop key saved) else (Some results, saved))"

definition prune_source_cache :: "time \<Rightarrow> 'v rss_cache \<Rightarrow> 'v rss_cache" where
  "prune_source_cache now saved =
     (if length saved \<le> 768 then saved
      else
        let fresh = fold dict_pop (map fst (filter (\<lambda>(_, t, _). SEARCH_CACHE_SECONDS < now - t) saved)) saved
        in if 768 < length fresh then fold dict_pop (map fst (take 128 fresh)) fresh else fresh)"

definition store_source_results_cache :: "time \<Rightarrow> pystr \<times> pystr \<Rightarrow> 'v list \<Rightarrow> 'v rss_cache \<Rightarrow> 'v rss_cache" where
  "store_source_results_cache now key results saved = dict_set key (now, results) (prune_source_cache now saved)"

section \<open>One request\<close>

datatype answer = Results "search_result list" | Challenge | Fetch_Error pystr

type_synonym ask = "pyval \<Rightarrow> pystr \<Rightarrow> pystr option \<Rightarrow> answer"

record moment =
  m_clock :: time
  m_text :: pystr
  m_latency :: int

definition RSS_SOURCE_NAME :: pystr where
  "RSS_SOURCE_NAME = [0x8BA2, 0x9605, 0x6E90]"

definition CHALLENGE_TEXT :: pystr where
  "CHALLENGE_TEXT = [0x6D4F, 0x89C8, 0x5668, 0x9A8C, 0x8BC1, 0x62E6, 0x622A]"

definition source_name :: "pyval \<Rightarrow> pystr" where
  "source_name source = strip (str_of_val (por (pget source (u ''name'')) (PStr RSS_SOURCE_NAME)))"

definition fetch_key :: "pyval \<Rightarrow> pystr \<Rightarrow> pystr" where
  "fetch_key source url =
     source_stats_key (source_type_of source) (source_name source) (str_of_val (por (pget source (u ''url'')) (PStr url)))"

definition record_fetch :: "moment \<Rightarrow> pyval \<Rightarrow> pystr \<Rightarrow> bool \<Rightarrow> nat \<Rightarrow> pystr \<Rightarrow> source_table \<Rightarrow> source_table" where
  "record_fetch m source url ok n err =
     record_source_fetch (m_text m) (fetch_key source url) (source_name source) (source_type_of source)
       \<lparr>f_ok = ok, f_items = int n, f_latency = Some (m_latency m), f_error = err\<rparr>"

text \<open>The paid source is not asked without a query.\<close>

definition fetch_source_results :: "ask \<Rightarrow> pyval \<Rightarrow> pystr \<Rightarrow> pystr option \<Rightarrow> answer" where
  "fetch_source_results ask source url query_opt =
     (if source_type_of source = u ''site_plugin'' \<and> site_plugin_id source = u ''haisou''
         \<and> strip (case query_opt of None \<Rightarrow> [] | Some q \<Rightarrow> q) = []
      then Results [] else ask source url query_opt)"

text \<open>What becomes of the answer\<close>

definition settle_fetch :: "moment \<Rightarrow> pyval \<Rightarrow> pystr \<Rightarrow> int \<Rightarrow> answer \<Rightarrow> source_table \<Rightarrow> search_result list \<times> source_table" where
  "settle_fetch m source url priority ans tbl =
     (case ans of
        Results rs \<Rightarrow> (map (r_priority_update (\<lambda>_. priority)) rs, record_fetch m source url True (length rs) [] tbl)
      | Challenge \<Rightarrow> ([], record_fetch m source url True 0 [] (record_fetch m source url False 0 CHALLENGE_TEXT tbl))
      | Fetch_Error err \<Rightarrow> ([], record_fetch m source url False 0 err tbl))"

definition fetch_source ::
    "(pystr \<Rightarrow> time option) \<Rightarrow> ask \<Rightarrow> moment \<Rightarrow> pyval \<Rightarrow> pystr option \<Rightarrow> source_table \<Rightarrow> search_result list \<times> source_table" where
  "fetch_source stamp ask m source query_opt tbl =
     (case source_url source query_opt of
        None \<Rightarrow> ([], tbl)
      | Some url \<Rightarrow>
          if url = [] then ([], tbl)
          else if source_health_status stamp (m_clock m) (fetch_key source url) tbl \<noteq> Healthy \<and> \<not> truthy (pget source (u ''_ignore_health''))
          then ([], tbl)
          else settle_fetch m source url (source_priority stamp (m_clock m) tbl source) (fetch_source_results ask source url query_opt) tbl)"

definition source_timeout :: "(pyval \<Rightarrow> rat option) \<Rightarrow> pyval \<Rightarrow> rat" where
  "source_timeout float_of source =
     (case float_of (por (por (pget source (u ''_request_timeout'')) (pget source (u ''timeout''))) (PInt 25)) of
        None \<Rightarrow> 25
      | Some raw \<Rightarrow>
          if site_plugin_id source = u ''haisou'' \<or> truthy_setting False (pget source (u ''_haisou''))
          then max 65 (min raw 90) else max 2 (min raw 30))"

section \<open>A source and its queries\<close>

type_synonym rss_state = "search_result rss_cache \<times> source_table"

definition ask_query ::
    "(pystr \<Rightarrow> time option) \<Rightarrow> ask \<Rightarrow> moment \<Rightarrow> pyval \<Rightarrow> pystr option \<Rightarrow> rss_state \<Rightarrow> search_result list \<times> rss_state" where
  "ask_query stamp ask m source q st =
     (case st of (saved, tbl) \<Rightarrow>
        case cached_source_results (m_clock m) (source_cache_key source q) saved of
          (Some rs, saved1) \<Rightarrow> (rs, saved1, tbl)
        | (None, saved1) \<Rightarrow>
            (case fetch_source stamp ask m source q tbl of
               (fetched, tbl1) \<Rightarrow> (fetched, store_source_results_cache (m_clock m) (source_cache_key source q) fetched saved1, tbl1)))"

fun ask_queries ::
    "(pystr \<Rightarrow> time option) \<Rightarrow> ask \<Rightarrow> (pystr option \<Rightarrow> moment) \<Rightarrow> pyval \<Rightarrow> pystr option list \<Rightarrow> rss_state \<Rightarrow> search_result list \<times> rss_state" where
  "ask_queries stamp ask moments source [] st = ([], st)"
| "ask_queries stamp ask moments source (q # qs) st =
     (case ask_query stamp ask (moments q) source q st of
        (rs, st1) \<Rightarrow> if rs \<noteq> [] then (rs, st1) else ask_queries stamp ask moments source qs st1)"

definition fetch_source_for_queries ::
    "(pystr \<Rightarrow> time option) \<Rightarrow> ask \<Rightarrow> (pystr option \<Rightarrow> moment) \<Rightarrow> pyval \<Rightarrow> pystr list \<Rightarrow> rss_state \<Rightarrow> search_result list \<times> rss_state" where
  "fetch_source_for_queries stamp ask moments source queries st =
     (case ask_queries stamp ask moments source (source_queries source queries) st of (rs, st1) \<Rightarrow> (dedupe_results rs {}, st1))"

text \<open>\<open>search_history_by_source\<close> and \<open>search_history\<close>; a group is the source, its priority and its results.\<close>

type_synonym group = "pyval \<times> int \<times> search_result list"

fun search_history_by_source ::
    "(pystr \<Rightarrow> time option) \<Rightarrow> ask \<Rightarrow> (pyval \<Rightarrow> pystr option \<Rightarrow> moment) \<Rightarrow> pystr list \<Rightarrow> pyval list \<Rightarrow> rss_state \<Rightarrow> group list \<times> rss_state" where
  "search_history_by_source stamp ask moments queries [] st = ([], st)"
| "search_history_by_source stamp ask moments queries (source # sources) st =
     (case fetch_source_for_queries stamp ask (moments source) source queries st of
        (rs, st1) \<Rightarrow>
          (case search_history_by_source stamp ask moments queries sources st1 of
             (groups, st2) \<Rightarrow>
               ((if rs = [] then groups else (source, source_priority stamp (m_clock (moments source None)) (snd st1) source, rs) # groups), st2)))"

definition search_history ::
    "(pystr \<Rightarrow> time option) \<Rightarrow> ask \<Rightarrow> (pyval \<Rightarrow> pystr option \<Rightarrow> moment) \<Rightarrow> pystr \<Rightarrow> pystr list \<Rightarrow> pyval list \<Rightarrow> rss_state
       \<Rightarrow> search_result list \<times> rss_state" where
  "search_history stamp ask moments title keywords sources st =
     (case search_history_by_source stamp ask moments (search_queries title keywords) sources st of
        (groups, st1) \<Rightarrow> (dedupe_results (concat (map (snd \<circ> snd) groups)) {}, st1))"

section \<open>The refresh at intervals\<close>

fun refresh_queries ::
    "(pystr \<Rightarrow> time option) \<Rightarrow> ask \<Rightarrow> (pystr option \<Rightarrow> moment) \<Rightarrow> pyval \<Rightarrow> pystr option list \<Rightarrow> source_table \<Rightarrow> search_result list \<times> source_table" where
  "refresh_queries stamp ask moments source [] tbl = ([], tbl)"
| "refresh_queries stamp ask moments source (q # qs) tbl =
     (case fetch_source stamp ask (moments q) source q tbl of
        (rs, tbl1) \<Rightarrow> (case refresh_queries stamp ask moments source qs tbl1 of (rs', tbl2) \<Rightarrow> (rs @ rs', tbl2)))"

text \<open>The results, the sources that were asked and the table\<close>

fun refresh_sources ::
    "(pystr \<Rightarrow> time option) \<Rightarrow> ask \<Rightarrow> (pyval \<Rightarrow> pystr option \<Rightarrow> moment) \<Rightarrow> pystr list \<Rightarrow> pyval list \<Rightarrow> source_table
       \<Rightarrow> search_result list \<times> pyval list \<times> source_table" where
  "refresh_sources stamp ask moments queries [] tbl = ([], [], tbl)"
| "refresh_sources stamp ask moments queries (source # sources) tbl =
     (case source_queries source queries of
        [] \<Rightarrow> refresh_sources stamp ask moments queries sources tbl
      | qs \<Rightarrow>
          (case refresh_queries stamp ask (moments source) source qs tbl of
             (rs, tbl1) \<Rightarrow>
               (case refresh_sources stamp ask moments queries sources tbl1 of
                  (rs', asked, tbl2) \<Rightarrow> (rs @ rs', source # asked, tbl2))))"

text \<open>
  The times of the last check that are written back: one for every due source.  A source that was not asked keeps its own,
  and a built-in one without any gets the time of this run.
\<close>

definition checked_times :: "time \<Rightarrow> (pyval \<Rightarrow> time option) \<Rightarrow> pyval list \<Rightarrow> pyval list \<Rightarrow> (pystr \<times> time option) list" where
  "checked_times now last_at due asked =
     fold (\<lambda>s d. dict_set (source_identity s) (if s \<in> set asked then Some now else last_at s) d) due []"

definition persist_source_refresh_times ::
    "time \<Rightarrow> pystr set \<Rightarrow> (pystr \<times> time option) list \<Rightarrow> (pystr \<times> time option) list \<times> (pystr \<times> time option) list
       \<Rightarrow> (pystr \<times> time option) list \<times> (pystr \<times> time option) list" where
  "persist_source_refresh_times now builtin checked stamps =
     (case stamps of (configured, builtin_times) \<Rightarrow>
        (map (\<lambda>(i, t). (i, case map_of checked i of None \<Rightarrow> t | Some t' \<Rightarrow> t')) configured,
         fold (\<lambda>(i, t) d. if i \<in> builtin then dict_set i (Some (case t of None \<Rightarrow> now | Some t' \<Rightarrow> if t' = 0 then now else t')) d else d)
           checked builtin_times))"

definition fetch_due_sources ::
    "(pystr \<Rightarrow> time option) \<Rightarrow> ask \<Rightarrow> (pyval \<Rightarrow> pystr option \<Rightarrow> moment) \<Rightarrow> time \<Rightarrow> (pyval \<Rightarrow> time option) \<Rightarrow> pystr list \<Rightarrow> pyval list
       \<Rightarrow> pystr set \<Rightarrow> (pystr \<times> time option) list \<times> (pystr \<times> time option) list \<Rightarrow> source_table
       \<Rightarrow> search_result list \<times> ((pystr \<times> time option) list \<times> (pystr \<times> time option) list) \<times> source_table" where
  "fetch_due_sources stamp ask moments now last_at queries sources builtin stamps tbl =
     (let due = due_sources now (\<lambda>s. case last_at s of None \<Rightarrow> 0 | Some t \<Rightarrow> t) sources in
      case refresh_sources stamp ask moments (refresh_search_queries queries) due tbl of
        (rs, asked, tbl1) \<Rightarrow>
          (dedupe_results rs {},
           (if asked = [] then stamps else persist_source_refresh_times now builtin (checked_times now last_at due asked) stamps), tbl1))"

section \<open>The cache keeps its contract\<close>

definition source_cache_lookup :: "time \<Rightarrow> pystr \<times> pystr \<Rightarrow> 'v rss_cache \<Rightarrow> 'v list option" where
  "source_cache_lookup now key saved = fst (cached_source_results now key saved)"

lemma source_cache_lookup_eq:
  "source_cache_lookup now key saved =
     (case map_of saved key of None \<Rightarrow> None | Some (t, rs) \<Rightarrow> if kept_for rs < now - t then None else Some rs)"
  by (simp add: source_cache_lookup_def cached_source_results_def split: option.split)

definition source_cache_room :: "nat \<Rightarrow> 'v rss_cache \<Rightarrow> bool" where
  "source_cache_room n saved \<longleftrightarrow> length saved + n \<le> 769"

interpretation rss_results: expiring_cache source_cache_lookup store_source_results_cache kept_for "\<lambda>rs. rs" source_cache_room
proof
  fix n and c :: "'v rss_cache" and t now k k' and v :: "'v list"
  assume "source_cache_room (Suc n) c"
  then have set: "store_source_results_cache now k v c = dict_set k (now, v) c"
    and short: "length (dict_set k (now, v) c) + n \<le> 769"
    using length_dict_set [of k "(now, v)" c] by (auto simp: store_source_results_cache_def prune_source_cache_def source_cache_room_def)
  show "source_cache_lookup t k (store_source_results_cache now k v c) = Some v" if "t < now + kept_for v"
    using that by (simp add: set source_cache_lookup_eq update_conv')
  show "source_cache_lookup t k' (store_source_results_cache now k v c) = source_cache_lookup t k' c" if "k' \<noteq> k"
    using that by (simp add: set source_cache_lookup_eq update_conv')
  show "source_cache_lookup t k (store_source_results_cache now k v c) = None" if "now + kept_for v < t"
    using that by (simp add: set source_cache_lookup_eq update_conv')
  show "source_cache_room n (store_source_results_cache now k v c)"
    using short by (simp add: set source_cache_room_def)
qed

lemma pop_some_shorter:
  assumes "k \<in> fst ` set d" "k \<in> set ks"
  shows "length (fold dict_pop ks d) < length d"
proof -
  obtain ks1 ks2 where ks: "ks = ks1 @ k # ks2" "k \<notin> set ks1" using assms(2) by (meson split_list_first)
  show ?thesis
  proof (cases "k \<in> fst ` set (fold dict_pop ks1 d)")
    case True
    then have "length (dict_pop k (fold dict_pop ks1 d)) < length (fold dict_pop ks1 d)"
      by (force simp: AList.delete_eq length_filter_less)
    then show ?thesis
      using pop_fold_shorter [of ks1 d] pop_fold_shorter [of ks2 "dict_pop k (fold dict_pop ks1 d)"] by (simp add: ks)
  next
    case False
    have "map_of (fold dict_pop ks1 d) k = map_of d k" using ks(2) by (simp add: map_of_pop_fold)
    then show ?thesis using False assms(1) by (metis map_of_eq_None_iff)
  qed
qed

lemma source_cache_bounded: "length saved \<le> 769 \<Longrightarrow> length (store_source_results_cache now key rs saved) \<le> 769"
proof -
  assume short: "length saved \<le> 769"
  have "length (prune_source_cache now saved) \<le> 768"
  proof (cases "length saved \<le> 768")
    case False
    define fresh where "fresh = fold dict_pop (map fst (filter (\<lambda>(_, t, _). SEARCH_CACHE_SECONDS < now - t) saved)) saved"
    have fresh: "length fresh \<le> length saved" unfolding fresh_def by (rule pop_fold_shorter)
    show ?thesis
    proof (cases "768 < length fresh")
      case True
      then obtain x xs where "fresh = x # xs" by (cases fresh) auto
      then have "length (fold dict_pop (map fst (take 128 fresh)) fresh) < length fresh"
        by (intro pop_some_shorter [of "fst x"]) simp_all
      then show ?thesis using False True fresh short by (simp add: prune_source_cache_def fresh_def [symmetric])
    qed (use False in \<open>simp add: prune_source_cache_def fresh_def [symmetric]\<close>)
  qed (simp add: prune_source_cache_def)
  then show ?thesis
    using length_dict_set [of key "(now, rs)" "prune_source_cache now saved"] by (simp add: store_source_results_cache_def)
qed

section \<open>One request is counted once\<close>

text \<open>Whether the source is asked at all\<close>

definition not_asked :: "(pystr \<Rightarrow> time option) \<Rightarrow> moment \<Rightarrow> pyval \<Rightarrow> pystr option \<Rightarrow> source_table \<Rightarrow> bool" where
  "not_asked stamp m source q tbl \<longleftrightarrow>
     (case source_url source q of
        None \<Rightarrow> True
      | Some url \<Rightarrow> url = [] \<or> source_health_status stamp (m_clock m) (fetch_key source url) tbl \<noteq> Healthy \<and> \<not> truthy (pget source (u ''_ignore_health'')))"

lemma fetch_not_asked: "not_asked stamp m source q tbl \<Longrightarrow> fetch_source stamp ask m source q tbl = ([], tbl)"
  by (auto simp: not_asked_def fetch_source_def split: option.splits)

lemma fetch_asked:
  assumes "\<not> not_asked stamp m source q tbl"
  obtains url where "source_url source q = Some url"
    "fetch_source stamp ask m source q tbl =
       settle_fetch m source url (source_priority stamp (m_clock m) tbl source) (fetch_source_results ask source url q) tbl"
  using assms by (auto simp: not_asked_def fetch_source_def split: option.splits)

lemma recorded_once: "fetches (record_fetch m source url ok n err tbl) k = fetches tbl k + (if k = fetch_key source url then 1 else 0)"
  by (simp add: record_fetch_def fetch_counted)

lemma fetch_counted_once:
  assumes "\<not> not_asked stamp m source q tbl"
  obtains url where "source_url source q = Some url"
    "fetches (snd (fetch_source stamp ask m source q tbl)) (fetch_key source url) =
       fetches tbl (fetch_key source url) + (if fetch_source_results ask source url q = Challenge then 2 else 1)"
    "\<forall>k. k \<noteq> fetch_key source url \<longrightarrow> fetches (snd (fetch_source stamp ask m source q tbl)) k = fetches tbl k"
proof (rule fetch_asked [where ask = ask, OF assms])
  fix url
  assume "source_url source q = Some url"
    and "fetch_source stamp ask m source q tbl =
      settle_fetch m source url (source_priority stamp (m_clock m) tbl source) (fetch_source_results ask source url q) tbl"
  then show ?thesis
    by (intro that [of url]) (simp_all add: settle_fetch_def recorded_once split: answer.split)
qed

text \<open>A page behind a challenge is noted as a success last, so the source is shown as read without an item.\<close>

lemma challenge_noted_as_success:
  assumes "\<not> not_asked stamp m source q tbl" "source_url source q = Some url" "fetch_source_results ask source url q = Challenge"
  shows "\<exists>row. map_of (snd (fetch_source stamp ask m source q tbl)) (fetch_key source url) = Some row
    \<and> sr_success_at row = Some (m_text m) \<and> sr_items row = 0
    \<and> sr_success row + sr_fail row = fetches tbl (fetch_key source url) + 2"
proof -
  let ?tbl = "record_fetch m source url False 0 CHALLENGE_TEXT tbl"
  have fetch: "fetch_source stamp ask m source q tbl = ([], record_fetch m source url True 0 [] ?tbl)"
    by (rule fetch_asked [where ask = ask, OF assms(1)]) (simp add: assms(2,3) settle_fetch_def)
  have two: "fetches (record_fetch m source url True 0 [] ?tbl) (fetch_key source url) = fetches tbl (fetch_key source url) + 2"
    by (simp add: recorded_once)
  have "\<exists>row. map_of (record_fetch m source url True 0 [] ?tbl) (fetch_key source url) = Some row
      \<and> sr_success_at row = Some (m_text m) \<and> sr_items row = 0"
    by (auto simp: record_fetch_def record_source_fetch_def new_fetch_row_def Let_def update_conv' coalesce_def split: option.splits)
  then show ?thesis using two by (auto simp: fetch fetches_def)
qed

section \<open>Queries in order\<close>

text \<open>What comes out is what the first query with an answer brought.\<close>

lemma first_answer:
  assumes "ask_queries stamp ask moments source qs st = (rs, st')" "rs \<noteq> []"
  obtains before q after st1 where "qs = before @ q # after" "ask_queries stamp ask moments source before st = ([], st1)"
    "ask_query stamp ask (moments q) source q st1 = (rs, st')"
proof -
  have "\<exists>before q after st1. qs = before @ q # after \<and> ask_queries stamp ask moments source before st = ([], st1)
      \<and> ask_query stamp ask (moments q) source q st1 = (rs, st')"
    using assms
  proof (induction qs arbitrary: st)
    case (Cons q qs)
    obtain rs0 st0 where first: "ask_query stamp ask (moments q) source q st = (rs0, st0)" by (rule prod.exhaust)
    show ?case
    proof (cases "rs0 = []")
      case True
      then have "ask_queries stamp ask moments source qs st0 = (rs, st')" using Cons.prems(1) first by simp
      then obtain before q' after st1 where "qs = before @ q' # after" "ask_queries stamp ask moments source before st0 = ([], st1)"
        "ask_query stamp ask (moments q') source q' st1 = (rs, st')"
        using Cons.IH Cons.prems(2) by blast
      then show ?thesis using True first by (intro exI [of _ "q # before"]) auto
    next
      case False
      then show ?thesis using Cons.prems(1) first by (intro exI [of _ "[]"]) auto
    qed
  qed simp
  then show thesis using that by blast
qed

text \<open>What was answered, with results, without or with an exception, is served again from the cache and the source left alone.\<close>

lemma source_served_again:
  assumes "ask_query stamp ask m source q (saved, tbl) = (rs, saved', tbl')" "source_cache_room 1 saved"
    and fresh: "source_cache_lookup (m_clock m) (source_cache_key source q) saved = None"
    and later: "m_clock m' < m_clock m + kept_for rs"
  shows "ask_query stamp ask' m' source q (saved', tbl'') = (rs, saved', tbl'')"
proof -
  let ?key = "source_cache_key source q"
  obtain saved1 where miss: "cached_source_results (m_clock m) ?key saved = (None, saved1)"
    using fresh by (cases "cached_source_results (m_clock m) ?key saved") (simp add: source_cache_lookup_def)
  have "length saved1 \<le> length saved"
    using miss length_delete_le [of ?key saved] by (auto simp: cached_source_results_def split: option.splits if_splits)
  then have room: "source_cache_room (Suc 0) saved1" using assms(2) by (simp add: source_cache_room_def)
  have "saved' = store_source_results_cache (m_clock m) ?key rs saved1"
    using assms(1) miss by (auto simp: ask_query_def split: prod.splits)
  then have "source_cache_lookup (m_clock m') ?key saved' = Some rs"
    using rss_results.hit [OF room] later by simp
  then have "cached_source_results (m_clock m') ?key saved' = (Some rs, saved')"
    by (auto simp: source_cache_lookup_eq cached_source_results_def split: option.splits if_splits)
  then show ?thesis by (simp add: ask_query_def)
qed

section \<open>Every result carries the priority of its source\<close>

lemma fetched_priority:
  "\<forall>r \<in> set (fst (fetch_source stamp ask m source q tbl)). r_priority r = source_priority stamp (m_clock m) tbl source"
proof (cases "not_asked stamp m source q tbl")
  case False
  then show ?thesis by (rule fetch_asked [where ask = ask]) (auto simp: settle_fetch_def split: answer.split_asm)
qed (simp add: fetch_not_asked)

lemma groups_not_empty:
  "(source, p, rs) \<in> set (fst (search_history_by_source stamp ask moments queries sources st)) \<Longrightarrow>
     source \<in> set sources \<and> rs \<noteq> [] \<and> distinct (map result_key rs)"
proof (induction sources arbitrary: st)
  case (Cons s sources)
  obtain rs0 st0 where f: "fetch_source_for_queries stamp ask (moments s) s queries st = (rs0, st0)" by (rule prod.exhaust)
  have "distinct (map result_key rs0)"
    using f dedupe_facts by (auto simp: fetch_source_for_queries_def split: prod.splits)
  then show ?case using Cons.prems Cons.IH [of st0] f by (auto simp: case_prod_beta split: if_splits)
qed simp

section \<open>A source that was asked is left alone for its interval\<close>

lemma checked_times_read:
  assumes "distinct (map source_identity due)"
  shows "map_of (checked_times now last_at due asked) i =
    (case find (\<lambda>s. source_identity s = i) due of None \<Rightarrow> None | Some s \<Rightarrow> Some (if s \<in> set asked then Some now else last_at s))"
proof -
  have "map_of (fold (\<lambda>s d. dict_set (source_identity s) (f s) d) xs d) i =
      (case find (\<lambda>s. source_identity s = i) xs of None \<Rightarrow> map_of d i | Some s \<Rightarrow> Some (f s))" if "distinct (map source_identity xs)" for f xs and d :: "(pystr \<times> time option) list"
    using that
  proof (induction xs arbitrary: d)
    case (Cons x xs)
    have "find (\<lambda>s. source_identity s = i) xs = None" if "source_identity x = i"
      using Cons.prems that by (auto simp: find_None_iff) (metis imageI)
    then show ?case using Cons by (auto simp: update_conv' split: option.split)
  qed simp
  from this [OF assms, of "\<lambda>s. if s \<in> set asked then Some now else last_at s" "[]"] show ?thesis by (simp add: checked_times_def cong: option.case_cong)
qed

lemma asked_source_rests:
  assumes "distinct (map source_identity due)" "source \<in> set due" "source \<in> set asked"
    and "(source_identity source, t) \<in> set (fst (persist_source_refresh_times now builtin (checked_times now last_at due asked) (configured, builtin_times)))"
  shows "t = Some now"
proof -
  have "find (\<lambda>s. source_identity s = source_identity source) due = Some source"
    using assms(1,2)
  proof (induction due)
    case (Cons x xs)
    then show ?case by (cases "x = source") (auto simp: rev_image_eqI)
  qed simp
  then have "map_of (checked_times now last_at due asked) (source_identity source) = Some (Some now)"
    using assms(3) by (simp add: checked_times_read [OF assms(1)])
  then show ?thesis using assms(4) by (auto simp: persist_source_refresh_times_def)
qed

lemma not_due_again: "last_checked s = now \<Longrightarrow> later < now + 300 \<Longrightarrow> s \<notin> set (due_sources later last_checked sources)"
proof
  assume "last_checked s = now" "later < now + 300" "s \<in> set (due_sources later last_checked sources)"
  moreover have "(300 :: time) \<le> of_int (refresh_interval_seconds s)" using interval_at_least [of s] by (metis of_int_le_iff of_int_numeral)
  ultimately show False by (simp add: due_sources_def)
qed

section \<open>A source without a name\<close>

text \<open>Its fetches are counted under the text for \<open>source\<close>, its boost is looked up under its address.\<close>

lemma unnamed_boost_blind:
  assumes "\<not> truthy (pget source (u ''name''))" "strip (source_text source (u ''url'')) \<noteq> []" "strip (source_text source (u ''url'')) \<noteq> RSS_SOURCE_NAME"
  shows "stats_key_of source \<noteq> fetch_key source url"
proof -
  have "source_name source = RSS_SOURCE_NAME" using assms(1)
    by (simp add: source_name_def por_def RSS_SOURCE_NAME_def py_defs is_space_def)
  moreover have "strip (source_text source (u ''name'')) = []" using assms(1) by (simp add: source_text_def por_def py_defs)
  ultimately show ?thesis using assms(2,3)
    by (simp add: stats_key_of_def fetch_key_def source_stats_key_def or_str_def RSS_SOURCE_NAME_def)
qed

end
