(* ===== verification/Priority_Search.thy ===== *)
theory Priority_Search
  imports Rss_Fetch Search_Flow
begin

text \<open>
  \<open>app/services/sources/rss/search_groups.py\<close>: the other sources are asked in waves of the same priority, three of a wave at a time,
  until a result can be used; the tasks of a wave still running then are cancelled.  What a task of a source ends
  with - results after some milliseconds or an exception - is the parameter \<open>outcome\<close>, the sets of tasks that have ended
  whenever the wave looks, are the parameter \<open>batches\<close>: any order is covered.
  Shown: the sources are asked in descending priority, all of a priority before any lower one, and none of a lower priority once
  a result could be used; without a usable result every source that is not on cooldown is asked; a source whose requests fail is
  noted as healthy, since the failures arrive as empty results.
\<close>

section \<open>Waves\<close>

fun waves_from :: "(pyval \<Rightarrow> int) \<Rightarrow> int \<Rightarrow> pyval list \<Rightarrow> pyval list \<Rightarrow> (int \<times> pyval list) list" where
  "waves_from prio p bucket [] = [(p, bucket)]"
| "waves_from prio p bucket (s # ss) =
     (if prio s = p then waves_from prio p (bucket @ [s]) ss else (p, bucket) # waves_from prio (prio s) [s] ss)"

fun priority_waves :: "(pyval \<Rightarrow> int) \<Rightarrow> pyval list \<Rightarrow> (int \<times> pyval list) list" where
  "priority_waves prio [] = []"
| "priority_waves prio (s # ss) = waves_from prio (prio s) [s] ss"

fun rank_buckets :: "time \<Rightarrow> (int \<times> pyval list) list \<Rightarrow> health_state \<Rightarrow> pyval list \<times> health_state" where
  "rank_buckets now [] st = ([], st)"
| "rank_buckets now ((p, bucket) # waves) st =
     (case rank_sources_by_health now bucket st of
        (ranked, st1) \<Rightarrow> (case rank_buckets now waves st1 of (more_ranked, st2) \<Rightarrow> (ranked @ more_ranked, st2)))"

definition rank_sources_for_priority_search :: "time \<Rightarrow> (pyval \<Rightarrow> int) \<Rightarrow> pyval list \<Rightarrow> health_state \<Rightarrow> pyval list \<times> health_state" where
  "rank_sources_for_priority_search now prio sources =
     rank_buckets now (priority_waves prio (sort_key (\<lambda>s. (- prio s, source_text s (u ''name''))) sources))"

section \<open>One wave\<close>

text \<open>An exception with the time it was noted, and whether it was a timeout\<close>

datatype task_end = Brought "search_result list" rat | Raised bool time

definition note_outcome :: "pyval \<Rightarrow> task_end \<Rightarrow> health_state \<Rightarrow> health_state" where
  "note_outcome source out_come st =
     (case out_come of
        Brought rs ms \<Rightarrow> note_source_success source ms st
      | Raised timeout now \<Rightarrow> note_source_failure now source timeout st)"

definition brought :: "task_end \<Rightarrow> search_result list" where
  "brought out_come = (case out_come of Brought rs ms \<Rightarrow> rs | Raised timeout now \<Rightarrow> [])"

record wave_result =
  wr_groups :: "group list"
  wr_searched :: "pyval list"
  wr_matched :: bool
  wr_health :: health_state

definition batch_groups :: "(pyval \<Rightarrow> int) \<Rightarrow> (pyval \<Rightarrow> task_end) \<Rightarrow> pyval list \<Rightarrow> group list" where
  "batch_groups prio outcome batch =
     map (\<lambda>s. (s, prio s, brought (outcome s))) (filter (\<lambda>s. brought (outcome s) \<noteq> []) batch)"

fun search_priority_wave ::
    "(pyval \<Rightarrow> int) \<Rightarrow> (search_result \<Rightarrow> bool) \<Rightarrow> (pyval \<Rightarrow> task_end) \<Rightarrow> pyval list list \<Rightarrow> health_state \<Rightarrow> wave_result" where
  "search_priority_wave prio usable outcome [] st = \<lparr>wr_groups = [], wr_searched = [], wr_matched = False, wr_health = st\<rparr>"
| "search_priority_wave prio usable outcome (batch # batches) st =
     (let st1 = fold (\<lambda>s. note_outcome s (outcome s)) batch st; groups = batch_groups prio outcome batch in
      if list_ex (\<lambda>(s, p, rs). list_ex usable rs) groups
      then \<lparr>wr_groups = groups, wr_searched = batch, wr_matched = True, wr_health = st1\<rparr>
      else
        let later = search_priority_wave prio usable outcome batches st1 in
        later\<lparr>wr_groups := groups @ wr_groups later, wr_searched := batch @ wr_searched later\<rparr>)"

section \<open>The search\<close>

text \<open>\<open>pr_begun\<close>: the sources of the waves that were begun\<close>

record priority_result = wave_result +
  pr_begun :: "pyval list"

fun search_priority_waves ::
    "(pyval \<Rightarrow> int) \<Rightarrow> (search_result \<Rightarrow> bool) \<Rightarrow> (pyval \<Rightarrow> task_end) \<Rightarrow> (pyval list \<Rightarrow> pyval list list) \<Rightarrow> (int \<times> pyval list) list
       \<Rightarrow> health_state \<Rightarrow> priority_result" where
  "search_priority_waves prio usable outcome batches [] st =
     \<lparr>wr_groups = [], wr_searched = [], wr_matched = False, wr_health = st, pr_begun = []\<rparr>"
| "search_priority_waves prio usable outcome batches ((p, sources) # waves) st =
     (let w = search_priority_wave prio usable outcome (batches sources) st in
      if wr_matched w
      then \<lparr>wr_groups = wr_groups w, wr_searched = wr_searched w, wr_matched = True, wr_health = wr_health w, pr_begun = sources\<rparr>
      else
        let later = search_priority_waves prio usable outcome batches waves (wr_health w) in
        later\<lparr>wr_groups := wr_groups w @ wr_groups later, wr_searched := wr_searched w @ wr_searched later,
              pr_begun := sources @ pr_begun later\<rparr>)"

definition search_history_by_priority_until_match ::
    "time \<Rightarrow> (pyval \<Rightarrow> int) \<Rightarrow> (search_result \<Rightarrow> bool) \<Rightarrow> (pyval \<Rightarrow> task_end) \<Rightarrow> (pyval list \<Rightarrow> pyval list list) \<Rightarrow> pyval list
       \<Rightarrow> health_state \<Rightarrow> priority_result" where
  "search_history_by_priority_until_match now prio usable outcome batches sources st =
     (case filter_ready_sources now sources st of
        (ready, st1) \<Rightarrow>
          (case rank_sources_for_priority_search now prio ready st1 of
             (ranked, st2) \<Rightarrow> search_priority_waves prio usable outcome batches (priority_waves prio ranked) st2))"

text \<open>What a task of a source ends with when it runs undisturbed; a failed request is an empty result.\<close>

definition source_outcome ::
    "(pystr \<Rightarrow> time option) \<Rightarrow> ask \<Rightarrow> (pyval \<Rightarrow> pystr option \<Rightarrow> moment) \<Rightarrow> pystr list \<Rightarrow> rss_state \<Rightarrow> rat \<Rightarrow> pyval \<Rightarrow> task_end" where
  "source_outcome stamp ask moments queries st ms source =
     Brought (fst (fetch_source_for_queries stamp ask (moments source) source queries st)) ms"

text \<open>\<open>search_fallback_sources\<close>: the search is given up after a time, and an exception ends it.\<close>

datatype fallback_end = In_Time | Out_Of_Time | Broken

definition search_fallback_sources ::
    "fallback_end \<Rightarrow> time \<Rightarrow> (pyval \<Rightarrow> int) \<Rightarrow> (pyval \<Rightarrow> task_end) \<Rightarrow> (pyval list \<Rightarrow> pyval list list) \<Rightarrow> pyval list \<Rightarrow> health_state \<Rightarrow> fallback" where
  "search_fallback_sources ending now prio outcome batches sources st usable =
     (case ending of
        Out_Of_Time \<Rightarrow> Sources_Timeout
      | Broken \<Rightarrow> Sources_Error
      | In_Time \<Rightarrow> Groups (map (snd \<circ> snd) (wr_groups (search_history_by_priority_until_match now prio usable outcome batches sources st))))"

section \<open>Waves are the priorities in order\<close>

lemma waves_from_sources: "concat (map snd (waves_from prio p bucket ss)) = bucket @ ss"
  by (induction ss arbitrary: p bucket) auto

lemma waves_sources: "concat (map snd (priority_waves prio ss)) = ss"
  by (cases ss) (simp_all add: waves_from_sources)

lemma waves_from_priority:
  "\<forall>s \<in> set bucket. prio s = p \<Longrightarrow> (q, b) \<in> set (waves_from prio p bucket ss) \<Longrightarrow> s \<in> set b \<Longrightarrow> prio s = q"
proof (induction ss arbitrary: p bucket)
  case (Cons x ss)
  show ?case
  proof (cases "prio x = p")
    case True
    then show ?thesis using Cons.IH [of "bucket @ [x]" p] Cons.prems by auto
  next
    case False
    then show ?thesis using Cons.IH [of "[x]" "prio x"] Cons.prems by auto
  qed
qed auto

lemma waves_priority: "(q, b) \<in> set (priority_waves prio ss) \<Longrightarrow> s \<in> set b \<Longrightarrow> prio s = q"
  by (cases ss) (auto elim: waves_from_priority [rotated])

lemma waves_from_priorities: "fst ` set (waves_from prio p bucket ss) = insert p (prio ` set ss)"
  by (induction ss arbitrary: p bucket) auto

lemma waves_from_descending:
  "sorted_wrt (\<lambda>a b. prio b \<le> prio a) ss \<Longrightarrow> \<forall>s \<in> set ss. prio s \<le> p \<Longrightarrow> sorted_wrt (\<lambda>a b. b < a) (map fst (waves_from prio p bucket ss))"
proof (induction ss arbitrary: p bucket)
  case (Cons s ss)
  show ?case
  proof (cases "prio s = p")
    case True
    then show ?thesis using Cons by simp
  next
    case False
    then have "\<forall>q \<in> fst ` set (waves_from prio (prio s) [s] ss). q < p"
      using Cons.prems unfolding waves_from_priorities by force
    then show ?thesis using False Cons by auto
  qed
qed simp

lemma waves_descending:
  "sorted_wrt (\<lambda>a b. prio b \<le> prio a) ss \<Longrightarrow> sorted_wrt (\<lambda>a b. b < a) (map fst (priority_waves prio ss))"
  by (cases ss) (simp_all add: waves_from_descending)

lemma rank_buckets_facts:
  assumes "sorted_wrt (\<lambda>a b. fst b < fst a) waves" "\<forall>(q, b) \<in> set waves. \<forall>s \<in> set b. prio s = q"
  shows "mset (fst (rank_buckets now waves st)) = mset (concat (map snd waves))
    \<and> sorted_wrt (\<lambda>a b. prio b \<le> prio a) (fst (rank_buckets now waves st))"
  using assms
proof (induction waves arbitrary: st)
  case (Cons w waves)
  obtain p bucket where w: "w = (p, bucket)" by (cases w)
  obtain ranked st1 where r: "rank_sources_by_health now bucket st = (ranked, st1)" by (rule prod.exhaust)
  have ms: "mset ranked = mset bucket" using rank_permutes [of now bucket st] by (simp add: r)
  then have rk: "\<forall>s \<in> set ranked. prio s = p" using Cons.prems(2) by (auto simp: w dest!: mset_eq_setD)
  have IH: "mset (fst (rank_buckets now waves st1)) = mset (concat (map snd waves))"
    "sorted_wrt (\<lambda>a b. prio b \<le> prio a) (fst (rank_buckets now waves st1))"
    using Cons by simp_all
  have "\<forall>s \<in> set (fst (rank_buckets now waves st1)). prio s < p"
  proof -
    have "\<forall>s \<in> set (concat (map snd waves)). prio s < p" using Cons.prems by (fastforce simp: w)
    then show ?thesis using mset_eq_setD [OF IH(1)] by simp
  qed
  moreover have "sorted_wrt (\<lambda>a b. prio b \<le> prio a) ranked" using rk by (simp add: sorted_wrt_iff_nth_less)
  ultimately show ?case using IH ms rk by (auto simp: w r case_prod_beta sorted_wrt_append)
qed simp

lemma rank_facts:
  "mset (fst (rank_sources_for_priority_search now prio sources st)) = mset sources"
  "sorted_wrt (\<lambda>a b. prio b \<le> prio a) (fst (rank_sources_for_priority_search now prio sources st))"
proof -
  let ?ss = "sort_key (\<lambda>s. (- prio s, source_text s (u ''name''))) sources"
  have "sorted (map (\<lambda>s. (- prio s, source_text s (u ''name''))) ?ss)" by (rule sorted_sort_key)
  then have "sorted_wrt (\<lambda>a b. prio b \<le> prio a) ?ss"
    by (auto simp: sorted_wrt_map less_eq_prod_def elim: sorted_wrt_mono_rel [rotated])
  then have "sorted_wrt (\<lambda>a b. b < a) (map fst (priority_waves prio ?ss))" by (rule waves_descending)
  then have "sorted_wrt (\<lambda>a b. fst b < fst a) (priority_waves prio ?ss)" by (simp add: sorted_wrt_map)
  moreover have "\<forall>(q, b) \<in> set (priority_waves prio ?ss). \<forall>s \<in> set b. prio s = q" using waves_priority by fastforce
  ultimately have facts: "mset (fst (rank_buckets now (priority_waves prio ?ss) st)) = mset (concat (map snd (priority_waves prio ?ss)))
      \<and> sorted_wrt (\<lambda>a b. prio b \<le> prio a) (fst (rank_buckets now (priority_waves prio ?ss) st))"
    by (rule rank_buckets_facts)
  then show "mset (fst (rank_sources_for_priority_search now prio sources st)) = mset sources"
    "sorted_wrt (\<lambda>a b. prio b \<le> prio a) (fst (rank_sources_for_priority_search now prio sources st))"
    by (simp_all add: rank_sources_for_priority_search_def waves_sources)
qed

section \<open>One wave ends with a usable result or with all its sources\<close>

abbreviation can_use :: "(search_result \<Rightarrow> bool) \<Rightarrow> (pyval \<Rightarrow> task_end) \<Rightarrow> pyval \<Rightarrow> bool" where
  "can_use usable outcome s \<equiv> list_ex usable (brought (outcome s))"

lemma batch_groups_usable:
  "list_ex (\<lambda>(s, p, rs). list_ex usable rs) (batch_groups prio outcome batch) \<longleftrightarrow> (\<exists>s \<in> set batch. can_use usable outcome s)"
  by (auto simp: batch_groups_def list_ex_iff)

lemma wave_searched: "set (wr_searched (search_priority_wave prio usable outcome bs st)) \<subseteq> set (concat bs)"
  by (induction bs arbitrary: st) (auto simp: Let_def)

lemma batch_groups_append: "batch_groups prio outcome (xs @ ys) = batch_groups prio outcome xs @ batch_groups prio outcome ys"
  by (simp add: batch_groups_def)

lemma wave_groups:
  "wr_groups (search_priority_wave prio usable outcome bs st) = batch_groups prio outcome (wr_searched (search_priority_wave prio usable outcome bs st))"
  by (induction bs arbitrary: st) (simp_all add: Let_def batch_groups_append, simp add: batch_groups_def)

lemma wave_matched:
  "wr_matched (search_priority_wave prio usable outcome bs st) \<longleftrightarrow>
     (\<exists>s \<in> set (wr_searched (search_priority_wave prio usable outcome bs st)). can_use usable outcome s)"
  by (induction bs arbitrary: st) (auto simp: Let_def batch_groups_usable)

lemma wave_whole:
  "\<not> wr_matched (search_priority_wave prio usable outcome bs st) \<Longrightarrow> wr_searched (search_priority_wave prio usable outcome bs st) = concat bs"
  by (induction bs arbitrary: st) (simp_all add: Let_def split: if_splits)

section \<open>Descending priorities, and nothing after a usable result\<close>

lemma search_priority_waves_facts:
  fixes usable :: "search_result \<Rightarrow> bool" and outcome :: "pyval \<Rightarrow> task_end"
  assumes "sorted_wrt (\<lambda>a b. fst b < fst a) waves" "\<forall>(q, b) \<in> set waves. \<forall>s \<in> set b. prio s = q"
    and "\<forall>ss. mset (concat (batches ss)) = mset ss"
  defines "r \<equiv> \<lambda>st. search_priority_waves prio usable outcome batches waves st"
  shows "set (wr_searched (r st)) \<subseteq> set (pr_begun (r st)) \<and> set (pr_begun (r st)) \<subseteq> set (concat (map snd waves))
    \<and> (\<not> wr_matched (r st) \<longrightarrow> mset (wr_searched (r st)) = mset (concat (map snd waves)) \<and> (\<forall>s \<in> set (wr_searched (r st)). \<not> can_use usable outcome s))
    \<and> (wr_matched (r st) \<longrightarrow> (\<exists>s \<in> set (wr_searched (r st)). can_use usable outcome s \<and> (\<forall>t \<in> set (pr_begun (r st)). prio s \<le> prio t)))
    \<and> (\<forall>s \<in> set (pr_begun (r st)). \<forall>t \<in> set (concat (map snd waves)). prio s < prio t \<longrightarrow> t \<in> set (wr_searched (r st)) \<and> \<not> can_use usable outcome t)
    \<and> wr_groups (r st) = batch_groups prio outcome (wr_searched (r st))"
  using assms(1,2) unfolding r_def
proof (induction waves arbitrary: st)
  case (Cons w waves)
  obtain p ss where w: "w = (p, ss)" by (cases w)
  define v where "v = search_priority_wave prio usable outcome (batches ss) st"
  have part: "set (concat (batches ss)) = set ss" using assms(3) mset_eq_setD by blast
  have v: "set (wr_searched v) \<subseteq> set ss" "wr_groups v = batch_groups prio outcome (wr_searched v)"
    "wr_matched v \<longleftrightarrow> (\<exists>s \<in> set (wr_searched v). can_use usable outcome s)"
    "\<not> wr_matched v \<Longrightarrow> wr_searched v = concat (batches ss)"
    unfolding v_def part [symmetric] by (rule wave_searched wave_groups wave_matched wave_whole, assumption?)+
  have ps: "\<forall>s \<in> set ss. prio s = p" using Cons.prems(2) by (auto simp: w)
  have below: "\<forall>t \<in> set (concat (map snd waves)). prio t < p" using Cons.prems by (fastforce simp: w)
  show ?case
  proof (cases "wr_matched v")
    case True
    have step: "search_priority_waves prio usable outcome batches (w # waves) st =
        \<lparr>wr_groups = wr_groups v, wr_searched = wr_searched v, wr_matched = True, wr_health = wr_health v, pr_begun = ss\<rparr>"
      using True by (simp add: w Let_def v_def [symmetric])
    have "\<forall>s \<in> set ss. \<forall>t \<in> set (concat (map snd (w # waves))). \<not> prio s < prio t"
      using ps below by (fastforce simp: w)
    moreover have "\<exists>s \<in> set (wr_searched v). can_use usable outcome s \<and> (\<forall>t \<in> set ss. prio s \<le> prio t)"
      using True v(1,3) ps by (metis order_refl subsetD)
    ultimately show ?thesis unfolding step using v(1,2) by (auto simp: w)
  next
    case False
    define later where "later = search_priority_waves prio usable outcome batches waves (wr_health v)"
    have step: "search_priority_waves prio usable outcome batches (w # waves) st =
        later\<lparr>wr_groups := wr_groups v @ wr_groups later, wr_searched := wr_searched v @ wr_searched later, pr_begun := ss @ pr_begun later\<rparr>"
      using False by (simp add: w Let_def v_def [symmetric] later_def)
    have whole: "wr_searched v = concat (batches ss)" using False by (rule v(4))
    have all: "\<forall>s \<in> set ss. \<not> can_use usable outcome s" using False unfolding v(3) whole part by blast
    have "sorted_wrt (\<lambda>a b. fst b < fst a) waves" "\<forall>(q, b) \<in> set waves. \<forall>s \<in> set b. prio s = q" using Cons.prems by simp_all
    note later_facts = Cons.IH [OF this, of "wr_health v", folded later_def]
    have IH: "set (wr_searched later) \<subseteq> set (pr_begun later)" "set (pr_begun later) \<subseteq> set (concat (map snd waves))"
      "\<not> wr_matched later \<Longrightarrow> mset (wr_searched later) = mset (concat (map snd waves)) \<and> (\<forall>s \<in> set (wr_searched later). \<not> can_use usable outcome s)"
      "wr_matched later \<Longrightarrow> \<exists>s \<in> set (wr_searched later). can_use usable outcome s \<and> (\<forall>t \<in> set (pr_begun later). prio s \<le> prio t)"
      "wr_groups later = batch_groups prio outcome (wr_searched later)"
      using later_facts by simp_all
    have IH_order: "\<And>s t. s \<in> set (pr_begun later) \<Longrightarrow> t \<in> set (concat (map snd waves)) \<Longrightarrow> prio s < prio t \<Longrightarrow> t \<in> set (wr_searched later) \<and> \<not> can_use usable outcome t"
      using later_facts by blast
    have order: "t \<in> set (wr_searched v) \<union> set (wr_searched later) \<and> \<not> can_use usable outcome t"
      if s: "s \<in> set ss \<union> set (pr_begun later)" and t: "t \<in> set ss \<union> set (concat (map snd waves))" and less: "prio s < prio t" for s t
    proof (cases "t \<in> set ss")
      case True
      then show ?thesis using all whole part by simp
    next
      case False
      then have low: "prio t < p" "t \<in> set (concat (map snd waves))" using t below by auto
      then have "s \<in> set (pr_begun later)" using s ps less by auto
      then show ?thesis using IH_order low(2) less by auto
    qed
    have usable_one: "\<exists>s \<in> set (wr_searched later). can_use usable outcome s \<and> (\<forall>t \<in> set ss \<union> set (pr_begun later). prio s \<le> prio t)" if "wr_matched later"
    proof -
      obtain s where s: "s \<in> set (wr_searched later)" "can_use usable outcome s" "\<forall>t \<in> set (pr_begun later). prio s \<le> prio t"
        using IH(4) \<open>wr_matched later\<close> by blast
      then have "prio s < p" using IH(1,2) below by blast
      then show ?thesis using s ps by (intro bexI [of _ s]) auto
    qed
    have none: "\<forall>s \<in> set (wr_searched v). \<not> can_use usable outcome s" using False v(3) by blast
    have same: "mset (wr_searched v @ wr_searched later) = mset (concat (map snd (w # waves)))" if "\<not> wr_matched later"
      using IH(3) [OF that] whole assms(3) by (simp add: w)
    have sub: "set (wr_searched v @ wr_searched later) \<subseteq> set (ss @ pr_begun later)"
      "set (ss @ pr_begun later) \<subseteq> set (concat (map snd (w # waves)))"
      using IH(1,2) v(1) by (auto simp: w)
    have unused: "\<not> wr_matched later \<longrightarrow> mset (wr_searched v @ wr_searched later) = mset (concat (map snd (w # waves)))
        \<and> (\<forall>s \<in> set (wr_searched v @ wr_searched later). \<not> can_use usable outcome s)"
      using same IH(3) none by auto
    have used: "wr_matched later \<longrightarrow> (\<exists>s \<in> set (wr_searched v @ wr_searched later). can_use usable outcome s
        \<and> (\<forall>t \<in> set (ss @ pr_begun later). prio s \<le> prio t))"
      using usable_one unfolding set_append by blast
    have lower: "\<forall>s \<in> set (ss @ pr_begun later). \<forall>t \<in> set (concat (map snd (w # waves))). prio s < prio t \<longrightarrow>
        t \<in> set (wr_searched v @ wr_searched later) \<and> \<not> can_use usable outcome t"
      using order unfolding w list.map concat.simps set_append snd_conv by blast
    have groups: "wr_groups v @ wr_groups later = batch_groups prio outcome (wr_searched v @ wr_searched later)"
      by (simp only: v(2) IH(5) batch_groups_append)
    define R where "R = search_priority_waves prio usable outcome batches (w # waves) st"
    have fields: "wr_searched R = wr_searched v @ wr_searched later" "pr_begun R = ss @ pr_begun later"
      "wr_matched R = wr_matched later" "wr_groups R = wr_groups v @ wr_groups later"
      by (simp_all add: R_def step)
    show ?thesis
      unfolding R_def [symmetric] fields by (intro conjI sub unused used lower groups)
  qed
qed (simp add: batch_groups_def)

text \<open>
  The whole search: whichever order the tasks end in, a source of a lower priority is begun only after all ready sources of a
  higher one have ended without a usable result; a match is one of the last priority begun; without a match every ready source
  has been searched, once.
\<close>

theorem priority_search_orderly:
  fixes now :: time and prio :: "pyval \<Rightarrow> int" and usable :: "search_result \<Rightarrow> bool" and outcome :: "pyval \<Rightarrow> task_end"
    and sources :: "pyval list" and st :: health_state
  assumes "\<forall>ss. mset (concat (batches ss)) = mset ss"
  defines "r \<equiv> search_history_by_priority_until_match now prio usable outcome batches sources st"
    and "ready \<equiv> fst (filter_ready_sources now sources st)"
  shows "s \<in> set (pr_begun r) \<Longrightarrow> t \<in> set ready \<Longrightarrow> prio s < prio t \<Longrightarrow> t \<in> set (wr_searched r) \<and> \<not> can_use usable outcome t"
    and "wr_matched r \<Longrightarrow> \<exists>s \<in> set (wr_searched r). can_use usable outcome s \<and> (\<forall>t \<in> set (pr_begun r). prio s \<le> prio t)"
    and "\<not> wr_matched r \<Longrightarrow> mset (wr_searched r) = mset ready \<and> (\<forall>s \<in> set ready. \<not> can_use usable outcome s)"
    and "wr_groups r = batch_groups prio outcome (wr_searched r)"
    and "set (wr_searched r) \<subseteq> set (pr_begun r)" "set (pr_begun r) \<subseteq> set ready"
proof -
  obtain st1 where f: "filter_ready_sources now sources st = (ready, st1)" by (metis ready_def prod.collapse)
  obtain ranked st2 where k: "rank_sources_for_priority_search now prio ready st1 = (ranked, st2)" by (rule prod.exhaust)
  have ms: "mset ranked = mset ready" and down: "sorted_wrt (\<lambda>a b. prio b \<le> prio a) ranked"
    using rank_facts [where now = now and prio = prio and sources = ready and st = st1] by (simp_all add: k)
  define waves where "waves = priority_waves prio ranked"
  have all: "concat (map snd waves) = ranked" by (simp add: waves_def waves_sources)
  have "sorted_wrt (\<lambda>a b. fst b < fst a) waves" using waves_descending [OF down] by (simp add: waves_def sorted_wrt_map)
  moreover have "\<forall>(q, b) \<in> set waves. \<forall>s \<in> set b. prio s = q" using waves_priority by (fastforce simp: waves_def)
  moreover have r: "r = search_priority_waves prio usable outcome batches waves st2" by (simp add: r_def search_history_by_priority_until_match_def f k waves_def)
  ultimately have facts: "set (wr_searched r) \<subseteq> set (pr_begun r) \<and> set (pr_begun r) \<subseteq> set ranked
    \<and> (\<not> wr_matched r \<longrightarrow> mset (wr_searched r) = mset ranked \<and> (\<forall>s \<in> set (wr_searched r). \<not> can_use usable outcome s))
    \<and> (wr_matched r \<longrightarrow> (\<exists>s \<in> set (wr_searched r). can_use usable outcome s \<and> (\<forall>t \<in> set (pr_begun r). prio s \<le> prio t)))
    \<and> (\<forall>s \<in> set (pr_begun r). \<forall>t \<in> set ranked. prio s < prio t \<longrightarrow> t \<in> set (wr_searched r) \<and> \<not> can_use usable outcome t)
    \<and> wr_groups r = batch_groups prio outcome (wr_searched r)"
    using search_priority_waves_facts [where waves = waves and prio = prio and batches = batches and usable = usable and outcome = outcome and st = st2] assms(1) unfolding all r by blast
  have same: "set ranked = set ready" using ms by (rule mset_eq_setD)
  show "t \<in> set (wr_searched r) \<and> \<not> can_use usable outcome t" if "s \<in> set (pr_begun r)" "t \<in> set ready" "prio s < prio t" for s t
    using facts that unfolding same by blast
  show "\<exists>s \<in> set (wr_searched r). can_use usable outcome s \<and> (\<forall>t \<in> set (pr_begun r). prio s \<le> prio t)" if "wr_matched r"
    using facts that by blast
  show "wr_groups r = batch_groups prio outcome (wr_searched r)" "set (wr_searched r) \<subseteq> set (pr_begun r)" "set (pr_begun r) \<subseteq> set ready"
    using facts unfolding same by blast+
  show "mset (wr_searched r) = mset ready \<and> (\<forall>s \<in> set ready. \<not> can_use usable outcome s)" if "\<not> wr_matched r"
  proof -
    have "mset (wr_searched r) = mset ready" using facts that ms by simp
    moreover from this have "set (wr_searched r) = set ready" by (rule mset_eq_setD)
    ultimately show ?thesis using facts that by simp
  qed
qed

section \<open>A match gives the second choices something to try\<close>

lemma match_gives_candidate:
  assumes "\<forall>ss. mset (concat (batches ss)) = mset ss"
    and "wr_matched (search_history_by_priority_until_match now prio (fallback_usable_checker sub db) outcome batches sources st)"
    and "search_fallback_sources ending now prio outcome batches sources st (fallback_usable_checker sub db) = Groups groups"
  shows "\<exists>g \<in> set (snd (match_fallback_groups sub groups)). g \<noteq> []"
proof -
  define r where "r = search_history_by_priority_until_match now prio (fallback_usable_checker sub db) outcome batches sources st"
  obtain s where s: "s \<in> set (wr_searched r)" "can_use (fallback_usable_checker sub db) outcome s"
    using priority_search_orderly(2) [OF assms(1,2)] unfolding r_def by blast
  have "wr_groups r = batch_groups prio outcome (wr_searched r)"
    unfolding r_def by (rule priority_search_orderly(4) [OF assms(1)])
  then have "(s, prio s, brought (outcome s)) \<in> set (wr_groups r)" using s by (auto simp: batch_groups_def)
  then have g: "brought (outcome s) \<in> set groups"
    using assms(3) unfolding search_fallback_sources_def r_def [symmetric] by (cases ending) force+
  obtain x where x: "x \<in> set (brought (outcome s))" "fallback_usable_checker sub db x" using s(2) by (auto simp: list_ex_iff)
  then have "matching_results sub [x] [] \<noteq> []" by (simp add: fallback_usable_checker_def Let_def)
  then have "x \<in> set (matching_results sub (brought (outcome s)) [])" using x(1) by (simp add: matching_results_def split: if_splits)
  then have "matching_results sub (brought (outcome s)) [] \<noteq> []" by auto
  then show ?thesis using g by (auto simp: match_fallback_groups_def)
qed

section \<open>A source whose requests fail is noted as healthy\<close>

lemma failing_source_noted_healthy:
  "\<not> fst (source_on_cooldown now source (note_outcome source (source_outcome stamp ask moments queries rst ms source) st))"
  by (simp add: note_outcome_def source_outcome_def success_ends_cooldown)

end
