(* ===== verification/Magnet_Ranking.thy ===== *)
theory Magnet_Ranking
  imports Match_Rules Rss_Sources
begin

text \<open>
  \<open>app/services/magnet/ranking.py\<close> and \<open>search_queries.py\<close>: the magnet links the bot shows for a film or series chosen from TMDB -
  the queries, which results count and in which order.  The details of TMDB are a \<^typ>\<open>pyval\<close>; what the subscription made from
  them has beside the fields of \<^typ>\<open>subscription\<close>, the aliases, is given next to it.
  Shown: the two loops over the occurrences of a title find one with boundaries whenever there is one; the results
  come in descending score without a link twice, all with a title of the film; a title in Chinese before a space and Latin letters
  is not found, since the spaces are removed first, and a Latin title only where no other word stands next to it.
\<close>

section \<open>The film or series\<close>

definition detail_title :: "pyval \<Rightarrow> pystr" where
  "detail_title d = strip (str_of_val (por (por (pget d (u ''name'')) (pget d (u ''title''))) (PStr [])))"

definition detail_year :: "pyval \<Rightarrow> pystr" where
  "detail_year d = take 4 (str_of_val (por (por (pget d (u ''first_air_date'')) (pget d (u ''release_date''))) (PStr [])))"

definition magnet_search_title :: "pyval \<Rightarrow> pystr" where
  "magnet_search_title d = strip (detail_title d @ [32] @ detail_year d)"

definition magnet_search_keywords :: "pyval \<Rightarrow> pystr list" where
  "magnet_search_keywords d =
     fold add_new [detail_title d, strip (str_of_val (por (por (pget d (u ''original_name'')) (pget d (u ''original_title''))) (PStr [])))] []"

text \<open>The aliases are \<^const>\<open>magnet_search_keywords\<close>.\<close>

definition subscription_from_detail :: "media \<Rightarrow> int \<Rightarrow> pyval \<Rightarrow> subscription" where
  "subscription_from_detail media tmdb d =
     \<lparr>sub_id = 0, sub_title = detail_title d, media_type = media, tmdb_id = Some tmdb,
      release_year = (if str_isdigit (detail_year d) then int_of_str (detail_year d) else None),
      sub_keywords = [detail_title d], sub_status = [], completed_at = None, last_checked_at = None, quality_rules = PDict [],
      tmdb_total_count = (case int_of_val (pget d (u ''number_of_episodes'')) of None \<Rightarrow> 0 | Some n \<Rightarrow> n),
      tmdb_seasons = por (pget d (u ''seasons'')) (PList []), emby_count = 0, emby_episode_keys = PList [], emby_episodes = None,
      in_library = False, emby_snapshot_failed = False\<rparr>"

section \<open>Texts for the user\<close>

definition display_source :: "pystr \<Rightarrow> pystr" where
  "display_source source =
     (let value = strip (or_str source [0x8BA2, 0x9605, 0x6E90]) in
      take 40 (case split_once 58 value of None \<Rightarrow> value | Some (_, name) \<Rightarrow> or_str name value))"

definition ascii_letter_i :: "nat \<Rightarrow> bool" where
  [chr_eval]: "ascii_letter_i c = is_ascii_lower (re_lower c)"

definition SIZE_RE :: re where
  [re_pats]: "SIZE_RE =
     seqs [NotBehind ascii_alnum_i, Grp ''1'' (seqs [many1 digit, opt (seqs [chr 46, many1 digit])]), spaces,
       Grp ''2'' (alts [lit_i ''tib'', lit_i ''gib'', lit_i ''mib'', lit_i ''tb'', lit_i ''gb'', lit_i ''mb'', lit_i ''t'', lit_i ''g'', lit_i ''m'']),
       NotAhead (Cls ascii_letter_i)]"

definition size_unit :: "pystr \<Rightarrow> pystr" where
  "size_unit unit =
     (let up = map (\<lambda>c. if is_ascii_lower c then c - 32 else if c = 305 then 73 else c) unit in
      case map_of [(u ''GIB'', u ''GB''), (u ''MIB'', u ''MB''), (u ''TIB'', u ''TB''), (u ''G'', u ''GB''), (u ''M'', u ''MB''), (u ''T'', u ''TB'')] up of
        None \<Rightarrow> up | Some name \<Rightarrow> name)"

definition resource_size :: "search_result \<Rightarrow> pystr" where
  "resource_size r =
     (case re_search SIZE_RE (join [10] [r_title r, r_context r, r_url r]) of
        None \<Rightarrow> []
      | Some m \<Rightarrow> grp ''1'' m @ [32] @ size_unit (grp ''2'' m))"

section \<open>Queries\<close>

text \<open>The same function stands in \<open>ranking.py\<close> and in \<open>search_queries.py\<close>.\<close>

definition magnet_query_without_year :: "pystr \<Rightarrow> pystr" where
  "magnet_query_without_year text = strip (re_sub SPACE_RE [32] (re_sub YEAR_RE [32] (re_sub BRACKETED_YEAR_RE [32] text)))"

definition add_query :: "pystr \<Rightarrow> pystr list \<Rightarrow> pystr list" where
  "add_query value queries = add_new (re_sub SPACE_RE [32] (strip value)) queries"

definition fast_magnet_queries :: "pystr \<Rightarrow> pystr list \<Rightarrow> pystr list" where
  "fast_magnet_queries title keywords =
     take 8 (fold add_query (concat (map (\<lambda>v. [v, magnet_query_without_year v]) (title # keywords))) [])"

definition fast_magnet_query_batches :: "pystr \<Rightarrow> pystr list \<Rightarrow> pystr list list" where
  "fast_magnet_query_batches title keywords =
     (let queries = fast_magnet_queries title keywords in filter (\<lambda>b. b \<noteq> []) [take 1 queries, drop 1 queries])"

definition fast_source_options :: "pyval \<Rightarrow> pyval" where
  "fast_source_options source =
     (case source of
        PDict kvs \<Rightarrow>
          PDict (dict_set (u ''_request_timeout'') (PFloat 80 (- 1))
            (dict_set (u ''_parallel_details'') (PBool True)
              (dict_set (u ''_bt1207_detail_delay'') (PFloat 8 (- 2)) (dict_set (u ''_fast_detail_limit'') (PInt 2) kvs))))
      | v \<Rightarrow> v)"

section \<open>A title in a text\<close>

definition contains_cjk :: "pystr \<Rightarrow> bool" where
  "contains_cjk value = list_ex is_cjk value"

definition ascii_alnum :: "nat \<Rightarrow> bool" where
  [chr_eval]: "ascii_alnum c = (is_ascii_alpha c \<or> is_ascii_digit c)"

definition cjk_prefix_boundary :: "nat option \<Rightarrow> bool" where
  "cjk_prefix_boundary char = (case char of None \<Rightarrow> True | Some c \<Rightarrow> \<not> (is_cjk c \<or> ascii_alnum c))"

definition SUFFIX_MARKS :: pystr where
  "SUFFIX_MARKS =
     [91, 93, 40, 41, 0x3010, 0x3011, 0xFF08, 0xFF09, 46, 44, 0xFF0C, 0x3002, 0xFF1A, 58, 0x3001, 0xFF01, 33, 63, 0xFF1F, 59, 0xFF1B,
      95, 45, 47, 0xB7, 34, 39]"

definition cjk_suffix_boundary :: "nat option \<Rightarrow> bool" where
  "cjk_suffix_boundary char = (case char of None \<Rightarrow> True | Some c \<Rightarrow> is_digit c \<or> is_space c \<or> List.member SUFFIX_MARKS c)"

definition char_before :: "pystr \<Rightarrow> nat \<Rightarrow> nat option" where
  "char_before s i = (if 0 < i then char_at s (i - 1) else None)"

text \<open>The \<open>while True\<close> loop over the occurrences of a title, the same in both functions: \<open>ok\<close> looks at the two neighbours.\<close>

function boundary_scan :: "(nat \<Rightarrow> bool) \<Rightarrow> pystr \<Rightarrow> pystr \<Rightarrow> nat \<Rightarrow> bool" where
  "boundary_scan ok t s start =
     (case find_from t s start of
        None \<Rightarrow> False
      | Some index \<Rightarrow> if ok index then True else boundary_scan ok t s (index + 1))"
  by pat_completeness auto
termination
  by (relation "measure (\<lambda>(_, _, s, start). Suc (length s) - start)") (auto dest: find_from_bounds)

declare boundary_scan.simps [simp del]

definition cjk_title_at :: "pystr \<Rightarrow> pystr \<Rightarrow> nat \<Rightarrow> bool" where
  "cjk_title_at t s index \<longleftrightarrow> cjk_prefix_boundary (char_before s index) \<and> cjk_suffix_boundary (char_at s (index + length t))"

definition cjk_title_match :: "pystr \<Rightarrow> pystr \<Rightarrow> bool" where
  "cjk_title_match term text =
     (let t = re_sub SPACE_RE [] term; s = re_sub SPACE_RE [] text in t \<noteq> [] \<and> boundary_scan (cjk_title_at t s) t s 0)"

definition word_char_opt :: "nat option \<Rightarrow> bool" where
  "word_char_opt char = (case char of None \<Rightarrow> False | Some c \<Rightarrow> ascii_alnum c)"

definition latin_title_at :: "pystr \<Rightarrow> pystr \<Rightarrow> nat \<Rightarrow> bool" where
  "latin_title_at term text index =
     (let before = char_before text index; after = char_at text (index + length term) in
      \<not> word_char_opt before \<and> \<not> word_char_opt after
      \<or> index = 0 \<and> (case after of None \<Rightarrow> True | Some c \<Rightarrow> is_digit c))"

definition latin_title_match :: "pystr \<Rightarrow> pystr \<Rightarrow> bool" where
  "latin_title_match term compact_text = (term \<noteq> [] \<and> boundary_scan (latin_title_at term compact_text) term compact_text 0)"

definition bot_title_or_alias_matches :: "subscription \<Rightarrow> pystr list \<Rightarrow> pystr \<Rightarrow> bool" where
  "bot_title_or_alias_matches sub aliases text =
     list_ex (\<lambda>item.
        let term = strip (magnet_query_without_year item); compact = compact_match_text term in
        compact \<noteq> []
        \<and> (if contains_cjk term then cjk_title_match term text else latin_title_match compact (compact_match_text text)))
       (sub_title sub # aliases)"

section \<open>Score and order\<close>

definition QUALITY_POINTS :: "(re \<times> int) list" where
  [re_pats]: "QUALITY_POINTS =
     [(alts [lit ''2160p'', lit ''4k'', lit ''uhd''], 8), (lit ''1080p'', 6),
      (alts [seqs [lit ''web'', opt (chr 45), lit ''dl''], lit ''webrip''], 4),
      (alts [lit ''bluray'', lit ''blu-ray''], 3), (alts [lit ''h.265'', lit ''x265'', lit ''hevc''], 2)]"

definition quality_score :: "pystr \<Rightarrow> int" where
  "quality_score text = sum_list (map (\<lambda>(r, points). if re_found r (casefold text) then points else 0) QUALITY_POINTS)"

definition result_score :: "subscription \<Rightarrow> pystr list \<Rightarrow> search_result \<Rightarrow> int" where
  "result_score sub aliases r =
     (let text = result_text r []; years = years_from_text text in
      if \<not> bot_title_or_alias_matches sub aliases text then 0
      else if (case release_year sub of None \<Rightarrow> False | Some y \<Rightarrow> y \<noteq> 0 \<and> years \<noteq> {} \<and> y \<notin> years) then 0
      else if result_matches_subscription sub r [] then 100 + quality_score text
      else 60 + quality_score text)"

definition is_magnet_result :: "search_result \<Rightarrow> bool" where
  "is_magnet_result r =
     (let url = strip (r_url r) in starts_with (u ''magnet:?'') (casefold url) \<and> is_valid_download_link url)"

text \<open>The first result of every link, with its position\<close>

fun first_of_links :: "(nat \<times> search_result) list \<Rightarrow> (pystr \<times> pystr) set \<Rightarrow> (nat \<times> search_result) list" where
  "first_of_links [] seen = []"
| "first_of_links ((i, r) # rs) seen =
     (if download_link_key (r_url r) \<in> seen then first_of_links rs seen
      else (i, r) # first_of_links rs (insert (download_link_key (r_url r)) seen))"

definition rank_magnet_results :: "subscription \<Rightarrow> pystr list \<Rightarrow> search_result list \<Rightarrow> search_result list" where
  "rank_magnet_results sub aliases results =
     (let scored = filter (\<lambda>(s, p, i, r). 0 < s)
            (map (\<lambda>(i, r). (result_score sub aliases r, r_priority r, i, r)) (first_of_links (enumerate 0 results) {}))
      in map (\<lambda>(s, p, i, r). r) (sort_key (\<lambda>(s, p, i, r). (- s, - p, i)) scored))"

section \<open>The loops find an occurrence with boundaries\<close>

definition occurs_at :: "pystr \<Rightarrow> pystr \<Rightarrow> nat \<Rightarrow> bool" where
  "occurs_at t s i \<longleftrightarrow> i \<le> length s \<and> starts_with t (drop i s)"

lemma scan_step:
  assumes "find_from t s start = Some k" "start \<le> i" "occurs_at t s i"
  shows "i = k \<or> Suc k \<le> i"
  using find_from_least [OF assms(1,2)] assms(3) unfolding occurs_at_def by (meson Suc_leI linorder_less_linear)

lemma boundary_scan_iff: "boundary_scan ok t s start \<longleftrightarrow> (\<exists>i \<ge> start. occurs_at t s i \<and> ok i)"
proof (induction ok t s start rule: boundary_scan.induct)
  case (1 ok t s start)
  show ?case
  proof (cases "find_from t s start")
    case None
    then show ?thesis using find_from_None [OF None] by (auto simp: boundary_scan.simps [of ok t s start] occurs_at_def)
  next
    case (Some k)
    have k: "start \<le> k" "occurs_at t s k" using find_from_sound [OF Some] by (simp_all add: occurs_at_def)
    show ?thesis
    proof (cases "ok k")
      case True
      then show ?thesis using k by (auto simp: boundary_scan.simps [of ok t s start] Some)
    next
      case False
      then have "boundary_scan ok t s start = boundary_scan ok t s (k + 1)" by (subst boundary_scan.simps) (simp add: Some)
      also have "\<dots> \<longleftrightarrow> (\<exists>i \<ge> k + 1. occurs_at t s i \<and> ok i)" using 1 [OF Some] False by simp
      also have "\<dots> \<longleftrightarrow> (\<exists>i \<ge> start. occurs_at t s i \<and> ok i)"
        using scan_step [OF Some] k False by (metis Suc_eq_plus1 le_trans lessI less_imp_le)
      finally show ?thesis .
    qed
  qed
qed

lemma latin_title_match_iff:
  "latin_title_match t s \<longleftrightarrow> t \<noteq> [] \<and> (\<exists>i. occurs_at t s i \<and> latin_title_at t s i)"
  by (auto simp: latin_title_match_def boundary_scan_iff)

text \<open>A Chinese title followed by letters is found nowhere in the text, spaces or not.\<close>

lemma latin_neighbour_blocks:
  assumes "ascii_alnum c" "\<not> is_digit c" "List.member SUFFIX_MARKS c = False"
  shows "\<not> cjk_suffix_boundary (Some c)"
proof -
  have "\<not> is_space c" using assms(1) by (auto simp: ascii_alnum_def is_ascii_alpha_def is_ascii_lower_def is_ascii_upper_def is_ascii_digit_def is_space_def)
  then show ?thesis using assms by (simp add: cjk_suffix_boundary_def)
qed

definition three_body :: pystr where
  "three_body = [0x4E09, 0x4F53]"

lemma cjk_title_before_letters:
  "cjk_title_match three_body (three_body @ u '' 2023'')" "\<not> cjk_title_match three_body (three_body @ u '' S01 1080p'')"
  by (simp_all add: cjk_title_match_def Let_def three_body_def u_def re_sub_def re_split_def re_eval re_pats chr_eval boundary_scan.simps
      cjk_title_at_def cjk_prefix_boundary_def cjk_suffix_boundary_def char_before_def char_at_def SUFFIX_MARKS_def find_from_def)

text \<open>A Latin title is not found after another word, since the compact text has no spaces.\<close>

lemma latin_title_after_word:
  "latin_title_match (u ''dune'') (u ''dune20211080p'')" "\<not> latin_title_match (u ''dune'') (u ''mydune20211080p'')"
  by (simp_all add: latin_title_match_def u_def chr_eval boundary_scan.simps latin_title_at_def Let_def word_char_opt_def char_before_def char_at_def
      find_from_def)

section \<open>Scores and the order of the results\<close>

lemma magnet_quality_range: "0 \<le> quality_score text \<and> quality_score text \<le> 23"
  by (simp add: quality_score_def QUALITY_POINTS_def)

lemma result_score_cases:
  "result_score sub aliases r = 0
   \<or> bot_title_or_alias_matches sub aliases (result_text r [])
     \<and> (60 \<le> result_score sub aliases r \<and> result_score sub aliases r \<le> 83 \<and> \<not> result_matches_subscription sub r []
        \<or> 100 \<le> result_score sub aliases r \<and> result_score sub aliases r \<le> 123 \<and> result_matches_subscription sub r [])"
  using magnet_quality_range [of "result_text r []"] by (auto simp: result_score_def Let_def)

text \<open>A good score is one of a result the matching of subscriptions accepts, with one mark of quality at least.\<close>

lemma good_score: "104 \<le> result_score sub aliases r \<Longrightarrow> result_matches_subscription sub r [] \<and> 4 \<le> quality_score (result_text r [])"
  using result_score_cases [of sub aliases r] magnet_quality_range [of "result_text r []"] by (auto simp: result_score_def Let_def split: if_splits)

lemma first_of_links_facts:
  "distinct (map (\<lambda>(i, r). download_link_key (r_url r)) (first_of_links xs seen)) \<and> set (first_of_links xs seen) \<subseteq> set xs
   \<and> (\<forall>(i, r) \<in> set (first_of_links xs seen). download_link_key (r_url r) \<notin> seen)"
  by (induction xs seen rule: first_of_links.induct) (auto split: if_splits)

text \<open>The scored results in their order, with the keys they are sorted by\<close>

definition scored_results :: "subscription \<Rightarrow> pystr list \<Rightarrow> search_result list \<Rightarrow> (int \<times> int \<times> nat \<times> search_result) list" where
  "scored_results sub aliases results =
     sort_key (\<lambda>(s, p, i, r). (- s, - p, i))
       (filter (\<lambda>(s, p, i, r). 0 < s)
         (map (\<lambda>(i, r). (result_score sub aliases r, r_priority r, i, r)) (first_of_links (enumerate 0 results) {})))"

lemma rank_scored: "rank_magnet_results sub aliases results = map (\<lambda>(s, p, i, r). r) (scored_results sub aliases results)"
  by (simp add: rank_magnet_results_def scored_results_def)

lemma scored_facts:
  assumes "(s, p, i, r) \<in> set (scored_results sub aliases results)"
  shows "s = result_score sub aliases r" "0 < s" "p = r_priority r" "i < length results" "r = results ! i"
  using assms first_of_links_facts [of "enumerate 0 results" "{}"]
  by (auto simp: scored_results_def in_set_enumerate_eq subset_iff)

theorem magnets_ranked:
  "set (rank_magnet_results sub aliases results) \<subseteq> set results"
  "\<forall>r \<in> set (rank_magnet_results sub aliases results). 60 \<le> result_score sub aliases r \<and> bot_title_or_alias_matches sub aliases (result_text r [])"
  "sorted_wrt (\<lambda>a b. result_score sub aliases b \<le> result_score sub aliases a
     \<and> (result_score sub aliases a = result_score sub aliases b \<longrightarrow> r_priority b \<le> r_priority a)) (rank_magnet_results sub aliases results)"
  "distinct (map (\<lambda>r. download_link_key (r_url r)) (rank_magnet_results sub aliases results))"
proof -
  have member: "\<exists>s p i. (s, p, i, r) \<in> set (scored_results sub aliases results)" if "r \<in> set (rank_magnet_results sub aliases results)" for r
    using that by (force simp: rank_scored)
  show "set (rank_magnet_results sub aliases results) \<subseteq> set results"
    using member scored_facts(4,5) by (metis nth_mem subsetI)
  show "\<forall>r \<in> set (rank_magnet_results sub aliases results). 60 \<le> result_score sub aliases r \<and> bot_title_or_alias_matches sub aliases (result_text r [])"
  proof
    fix r assume "r \<in> set (rank_magnet_results sub aliases results)"
    then obtain s p i where "(s, p, i, r) \<in> set (scored_results sub aliases results)" using member by blast
    then have "0 < result_score sub aliases r" using scored_facts(1,2) by blast
    then show "60 \<le> result_score sub aliases r \<and> bot_title_or_alias_matches sub aliases (result_text r [])"
      using result_score_cases [of sub aliases r] by linarith
  qed
  have "sorted (map (\<lambda>(s, p, i, r). (- s, - p, i)) (scored_results sub aliases results))"
    unfolding scored_results_def by (rule sorted_sort_key)
  then have ordered: "sorted_wrt (\<lambda>(s, p, i, r) (s', p', i', r'). s' \<le> s \<and> (s = s' \<longrightarrow> p' \<le> p)) (scored_results sub aliases results)"
    by (auto simp: sorted_wrt_map less_eq_prod_def elim!: sorted_wrt_mono_rel [rotated])
  show "sorted_wrt (\<lambda>a b. result_score sub aliases b \<le> result_score sub aliases a
     \<and> (result_score sub aliases a = result_score sub aliases b \<longrightarrow> r_priority b \<le> r_priority a)) (rank_magnet_results sub aliases results)"
    unfolding rank_scored sorted_wrt_map
  proof (rule sorted_wrt_mono_rel [OF _ ordered])
    fix x y
    assume xs: "x \<in> set (scored_results sub aliases results)" "y \<in> set (scored_results sub aliases results)"
      and le: "(case x of (s, p, i, r) \<Rightarrow> \<lambda>(s', p', i', r'). s' \<le> s \<and> (s = s' \<longrightarrow> p' \<le> p)) y"
    obtain s p i r where x: "x = (s, p, i, r)" by (cases x)
    obtain s' p' i' r' where y: "y = (s', p', i', r')" by (cases y)
    have "s = result_score sub aliases r" "p = r_priority r" "s' = result_score sub aliases r'" "p' = r_priority r'"
      using scored_facts(1,3) [OF xs(1) [unfolded x]] scored_facts(1,3) [OF xs(2) [unfolded y]] by simp_all
    then show "result_score sub aliases (case y of (s, p, i, r) \<Rightarrow> r) \<le> result_score sub aliases (case x of (s, p, i, r) \<Rightarrow> r)
        \<and> (result_score sub aliases (case x of (s, p, i, r) \<Rightarrow> r) = result_score sub aliases (case y of (s, p, i, r) \<Rightarrow> r)
           \<longrightarrow> r_priority (case y of (s, p, i, r) \<Rightarrow> r) \<le> r_priority (case x of (s, p, i, r) \<Rightarrow> r))"
      using le by (simp add: x y)
  qed
  let ?key = "\<lambda>r. download_link_key (r_url r)"
  let ?firsts = "first_of_links (enumerate 0 results) {}"
  let ?scored = "filter (\<lambda>(s, p, i, r). 0 < s) (map (\<lambda>(i, r). (result_score sub aliases r, r_priority r, i, r)) ?firsts)"
  have "distinct (map (\<lambda>(i, r). ?key r) ?firsts)" using first_of_links_facts by blast
  then have "distinct (map (\<lambda>(s, p, i, r). ?key r) (map (\<lambda>(i, r). (result_score sub aliases r, r_priority r, i, r)) ?firsts))"
    by (simp add: comp_def split_def)
  then have "distinct (map (\<lambda>(s, p, i, r). ?key r) ?scored)" by (rule distinct_map_filter)
  moreover have "mset (map f (sort_key k xs)) = mset (map f xs)" for f :: "'a \<Rightarrow> 'b" and k :: "'a \<Rightarrow> 'c :: linorder" and xs
    by simp
  ultimately have "distinct (map (\<lambda>(s, p, i, r). ?key r) (scored_results sub aliases results))"
    unfolding scored_results_def using mset_eq_imp_distinct_iff by blast
  then show "distinct (map ?key (rank_magnet_results sub aliases results))"
    by (simp add: rank_scored comp_def split_def)
qed

section \<open>Few queries\<close>

lemma queries_few: "length (fast_magnet_queries title keywords) \<le> 8" "distinct (fast_magnet_queries title keywords)"
proof -
  have new: "distinct (fold add_query vs qs)" if "distinct qs" for vs qs
    using that by (induction vs arbitrary: qs) (simp_all add: add_query_def add_new_distinct)
  show "distinct (fast_magnet_queries title keywords)" unfolding fast_magnet_queries_def by (intro distinct_take new) simp
qed (simp add: fast_magnet_queries_def)

lemma batches_few: "length (fast_magnet_query_batches title keywords) \<le> 2" "concat (fast_magnet_query_batches title keywords) = fast_magnet_queries title keywords"
  by (simp_all add: fast_magnet_query_batches_def Let_def)

end
