(* ===== verification/Magnet_Search.thy ===== *)
theory Magnet_Search
  imports Magnet_Ranking Priority_Search
begin

text \<open>
  \<open>app/services/magnet/search.py\<close>, \<open>search_fetch.py\<close>, \<open>cache_search.py\<close>, \<open>cache_pending.py\<close> and \<open>reply.py\<close>: the search for magnet links
  the bot starts, the cache of its answers and the list of picks behind the buttons.  Both are dictionaries of the process that
  are written to the table of flows and read again after a restart.  As in \<^theory_text>\<open>Priority_Search\<close> the ends of the tasks and the
  sets of tasks that end together are parameters; a run in which the time is up has no further set.
  Shown: an answer has at most as many results as wanted, all valid magnet links with a title of the film, the best first, no link
  twice; a search is left early only with a good result or enough of them; a finished search is answered from the cache for
  forty minutes, also where it found nothing; a pick is found again after a restart; of eight queries three at most are asked.
\<close>

section \<open>Dictionaries that survive a restart\<close>

definition serialize_search_result :: "search_result \<Rightarrow> pyval" where
  "serialize_search_result r =
     PDict [(u ''title'', PStr (r_title r)), (u ''url'', PStr (r_url r)), (u ''source'', PStr (r_source r)),
       (u ''message_id'', case r_message_id r of None \<Rightarrow> PNone | Some m \<Rightarrow> PStr m), (u ''context'', PStr (r_context r)),
       (u ''priority'', PInt (r_priority r))]"

definition text_field :: "pyval \<Rightarrow> pystr \<Rightarrow> pystr \<Rightarrow> pystr" where
  "text_field v k dflt = str_of_val (por (pget v k) (PStr dflt))"

definition deserialize_search_result :: "pyval \<Rightarrow> search_result" where
  "deserialize_search_result v =
     \<lparr>r_title = text_field v (u ''title'') [], r_url = str_of_val (por (por (pget v (u ''url'')) (pget v (u ''link''))) (PStr [])),
      r_source = text_field v (u ''source'') (u ''tg_bot''),
      r_message_id = (case pget v (u ''message_id'') of PNone \<Rightarrow> None | m \<Rightarrow> Some (str_of_val m)),
      r_context = text_field v (u ''context'') [],
      r_priority = (case int_of_val (por (pget v (u ''priority'')) (PInt 0)) of None \<Rightarrow> 0 | Some i \<Rightarrow> i)\<rparr>"

definition deserialize_search_results :: "pyval list \<Rightarrow> search_result list" where
  "deserialize_search_results items = map deserialize_search_result (filter is_pdict items)"

text \<open>An entry: when it was made, the details, the results\<close>

type_synonym entry = "time \<times> pyval \<times> search_result list"

record flow_cache =
  fc_items :: "(pystr \<times> entry) list"
  fc_flow :: "(pystr \<times> time \<times> pyval \<times> pyval list) list"

definition load_items :: "flow_cache \<Rightarrow> flow_cache" where
  "load_items fc =
     (if fc_items fc \<noteq> [] then fc
      else fc\<lparr>fc_items := map (\<lambda>(k, t, d, rs). (k, t, d, deserialize_search_results rs)) (fc_flow fc)\<rparr>)"

definition save_items :: "time \<Rightarrow> flow_cache \<Rightarrow> flow_cache" where
  "save_items now fc =
     fc\<lparr>fc_flow := map (\<lambda>(k, t, d, rs). (k, if t = 0 then now else t, d, map serialize_search_result rs)) (fc_items fc)\<rparr>"

definition expired_keys :: "time \<Rightarrow> time \<Rightarrow> (pystr \<times> entry) list \<Rightarrow> pystr list" where
  "expired_keys ttl now items = map fst (filter (\<lambda>(_, t, _). ttl < now - t) items)"

definition overflow_keys :: "nat \<Rightarrow> (pystr \<times> entry) list \<Rightarrow> pystr list" where
  "overflow_keys most items = map fst (take (length items - most) (sort_key (\<lambda>(_, t, _). t) items))"

definition prune_items :: "time \<Rightarrow> nat \<Rightarrow> time \<Rightarrow> (pystr \<times> entry) list \<Rightarrow> (pystr \<times> entry) list" where
  "prune_items ttl most now items =
     (let fresh = fold dict_pop (expired_keys ttl now items) items in fold dict_pop (overflow_keys most fresh) fresh)"

section \<open>The cache of the answers\<close>

definition MAGNET_CACHE_TTL :: time where
  "MAGNET_CACHE_TTL = 2400"

definition MAGNET_CACHE_ITEMS :: nat where
  "MAGNET_CACHE_ITEMS = 80"

definition media_name :: "media \<Rightarrow> pystr" where
  "media_name media = (case media of Tv \<Rightarrow> u ''tv'' | Movie \<Rightarrow> u ''movie'')"

text \<open>\<^const>\<open>None\<close>: the name \<open>TG_BOT_MAGNET_LIMIT\<close> is not imported, so a limit of zero raises NameError.\<close>

definition magnet_cache_key :: "media \<Rightarrow> int \<Rightarrow> nat \<Rightarrow> pystr option" where
  "magnet_cache_key media tmdb limit =
     (if limit = 0 then None else Some (media_name media @ [58] @ int_str tmdb @ [58] @ dec_str limit))"

definition prune_magnet_search_cache :: "time \<Rightarrow> flow_cache \<Rightarrow> flow_cache" where
  "prune_magnet_search_cache now fc =
     (let fc1 = load_items fc in fc1\<lparr>fc_items := prune_items MAGNET_CACHE_TTL MAGNET_CACHE_ITEMS now (fc_items fc1)\<rparr>)"

definition cached_magnet_search :: "time \<Rightarrow> pystr \<Rightarrow> flow_cache \<Rightarrow> (pyval \<times> search_result list) option \<times> flow_cache" where
  "cached_magnet_search now key fc =
     (let fc1 = prune_magnet_search_cache now fc in (map_option snd (map_of (fc_items fc1) key), fc1))"

definition store_magnet_search_cache :: "time \<Rightarrow> pystr \<Rightarrow> pyval \<Rightarrow> search_result list \<Rightarrow> flow_cache \<Rightarrow> flow_cache" where
  "store_magnet_search_cache now key detail results fc =
     (let fc1 = load_items fc in
      save_items now (prune_magnet_search_cache now (fc1\<lparr>fc_items := dict_set key (now, detail, results) (fc_items fc1)\<rparr>)))"

section \<open>The picks\<close>

definition PICK_TTL :: time where
  "PICK_TTL = 1800"

definition PICK_ITEMS :: nat where
  "PICK_ITEMS = 50"

definition prune_pending_magnet_results :: "time \<Rightarrow> flow_cache \<Rightarrow> flow_cache" where
  "prune_pending_magnet_results now fc =
     (let fc1 = load_items fc; fresh = fold dict_pop (expired_keys PICK_TTL now (fc_items fc1)) (fc_items fc1);
          fc2 = fc1\<lparr>fc_items := fold dict_pop (overflow_keys PICK_ITEMS fresh) fresh\<rparr> in
      if expired_keys PICK_TTL now (fc_items fc1) \<noteq> [] \<or> PICK_ITEMS < length fresh then save_items now fc2 else fc2)"

text \<open>The token is drawn at random.\<close>

definition store_pending_magnet_results :: "time \<Rightarrow> pystr \<Rightarrow> pyval \<Rightarrow> search_result list \<Rightarrow> flow_cache \<Rightarrow> flow_cache" where
  "store_pending_magnet_results now token detail results fc =
     (let fc1 = prune_pending_magnet_results now (load_items fc) in
      save_items now (fc1\<lparr>fc_items := dict_set token (now, detail, take 20 results) (fc_items fc1)\<rparr>))"

definition pending_results :: "time \<Rightarrow> pystr \<Rightarrow> flow_cache \<Rightarrow> search_result list \<times> flow_cache" where
  "pending_results now token fc =
     (let fc1 = prune_pending_magnet_results now fc in
      ((case map_of (fc_items fc1) token of None \<Rightarrow> [] | Some (t, d, rs) \<Rightarrow> rs), fc1))"

definition pending_magnet_pick :: "time \<Rightarrow> pystr \<Rightarrow> int \<Rightarrow> flow_cache \<Rightarrow> search_result option \<times> flow_cache" where
  "pending_magnet_pick now token index fc =
     (case pending_results now token fc of
        (rs, fc1) \<Rightarrow> (if index < 0 \<or> int (length rs) \<le> index then None else Some (rs ! nat index), fc1))"

definition pending_magnet_choices :: "time \<Rightarrow> pystr \<Rightarrow> int \<Rightarrow> flow_cache \<Rightarrow> (nat \<times> search_result) list \<times> flow_cache" where
  "pending_magnet_choices now token start_index fc =
     (case pending_results now token fc of (rs, fc1) \<Rightarrow> (filter (\<lambda>(i, r). start_index \<le> int i) (enumerate 0 rs), fc1))"

definition pending_magnet_detail :: "time \<Rightarrow> pystr \<Rightarrow> flow_cache \<Rightarrow> pyval \<times> flow_cache" where
  "pending_magnet_detail now token fc =
     (let fc1 = prune_pending_magnet_results now fc in
      ((case map_of (fc_items fc1) token of None \<Rightarrow> PDict [] | Some (t, d, rs) \<Rightarrow> por d (PDict [])), fc1))"

definition pending_magnet_target_path :: "time \<Rightarrow> pystr \<Rightarrow> flow_cache \<Rightarrow> pystr option \<times> flow_cache" where
  "pending_magnet_target_path now token fc =
     (let fc1 = prune_pending_magnet_results now fc in
      ((case map_of (fc_items fc1) token of
          None \<Rightarrow> None
        | Some (t, d, rs) \<Rightarrow>
            (let title = or_str (detail_title d) (strip (str_of_val (por (por (pget d (u ''title'')) (pget d (u ''name''))) (PStr []))));
                 root = (if strip (str_of_val (por (pget d (u ''media_type'')) (PStr []))) = u ''movie'' then [0x7535, 0x5F71] else [0x7535, 0x89C6, 0x5267]) in
             if title = [] then None else Some ([47] @ root @ [47] @ title))), fc1))"

definition pending_magnet_label :: "time \<Rightarrow> pystr \<Rightarrow> int \<Rightarrow> flow_cache \<Rightarrow> pystr \<times> flow_cache" where
  "pending_magnet_label now token index fc =
     (case pending_magnet_pick now token index fc of
        (None, fc1) \<Rightarrow> ([0x78C1, 0x529B, 0x8D44, 0x6E90], fc1)
      | (Some r, fc1) \<Rightarrow>
          (take 48 (strip (or_str (r_title r) [0x78C1, 0x529B, 0x8D44, 0x6E90])) @ [32, 0xB7, 32] @ or_str (resource_size r) [0x672A, 0x77E5], fc1))"

text \<open>The buttons under an answer, five in a row: the number shown and the data sent back\<close>

definition pick_button :: "pystr \<Rightarrow> nat \<Rightarrow> pystr \<times> pystr" where
  "pick_button token i = (dec_str (i + 1), u ''magpick:'' @ token @ [58] @ dec_str i)"

fun rows_of_five :: "'a list \<Rightarrow> 'a list \<Rightarrow> 'a list list" where
  "rows_of_five row [] = (if row = [] then [] else [row])"
| "rows_of_five row (x # xs) = (if 5 \<le> length (row @ [x]) then (row @ [x]) # rows_of_five [] xs else rows_of_five (row @ [x]) xs)"

definition magnet_results_reply_markup ::
    "time \<Rightarrow> pystr \<Rightarrow> pyval \<Rightarrow> search_result list \<Rightarrow> flow_cache \<Rightarrow> (pystr \<times> pystr) list list \<times> flow_cache" where
  "magnet_results_reply_markup now token detail results fc =
     (rows_of_five [] (map (pick_button token) [0..<length results]), store_pending_magnet_results now token detail results fc)"

text \<open>The text of an answer: the film and one paragraph for each result\<close>

definition reply_paragraph :: "nat \<Rightarrow> search_result \<Rightarrow> pystr" where
  "reply_paragraph i r =
     [10] @ dec_str (i + 1) @ u ''. '' @ take 80 (strip (or_str (r_title r) [0x78C1, 0x529B, 0x8D44, 0x6E90])) @ [10]
       @ [0x5927, 0x5C0F, 0xFF1A] @ or_str (resource_size r) [0x672A, 0x77E5] @ [10] @ [0x6765, 0x6E90, 0xFF1A] @ display_source (r_source r) @ [10] @ r_url r"

definition magnet_results_reply :: "pyval \<Rightarrow> search_result list \<Rightarrow> pystr" where
  "magnet_results_reply detail results =
     (let film = or_str (detail_title detail) [0x672A, 0x547D, 0x540D] @ u '' ('' @ or_str (detail_year detail) [0x672A, 0x77E5, 0x5E74, 0x4EFD] @ u '')'' in
      if results = [] then film @ [10] @ [0x6CA1, 0x6709, 0x4ECE, 0x78C1, 0x529B, 0x8BA2, 0x9605, 0x6E90, 0x627E, 0x5230, 0x5339, 0x914D, 0x7ED3, 0x679C, 0x3002]
      else join [10] ([film, [0x627E, 0x5230, 32] @ dec_str (length results) @ [32, 0x6761, 0x6700, 0x5339, 0x914D, 0x78C1, 0x529B, 0xFF1A]] @ map (\<lambda>(i, r). reply_paragraph i r) (enumerate 0 results)))"

text \<open>What TMDB finds, films and series only\<close>

definition tmdb_search_choices :: "pyval list \<Rightarrow> nat \<Rightarrow> pyval list" where
  "tmdb_search_choices found limit =
     take limit (filter (\<lambda>item. pget item (u ''media_type'') \<in> {PStr (u ''tv''), PStr (u ''movie'')}) found)"

section \<open>Asking the sources\<close>

definition GOOD_SCORE :: int where
  "GOOD_SCORE = 104"

definition SOURCE_QUERY_LIMIT :: nat where
  "SOURCE_QUERY_LIMIT = 2"

text \<open>What is looked for: the subscription made from the details, its aliases and the number wanted\<close>

record wanted =
  w_sub :: subscription
  w_aliases :: "pystr list"
  w_limit :: nat

definition ranked :: "wanted \<Rightarrow> search_result list \<Rightarrow> search_result list" where
  "ranked w rs = rank_magnet_results (w_sub w) (w_aliases w) rs"

definition is_good :: "wanted \<Rightarrow> search_result \<Rightarrow> bool" where
  "is_good w r \<longleftrightarrow> GOOD_SCORE \<le> result_score (w_sub w) (w_aliases w) r"

definition enough :: "wanted \<Rightarrow> nat \<Rightarrow> search_result list \<Rightarrow> bool" where
  "enough w required found \<longleftrightarrow>
     found \<noteq> [] \<and> (required \<le> length found \<and> list_ex (is_good w) (take (max 1 required) found) \<or> max required (w_limit w) \<le> length found)"

definition merge_completed :: "(pyval \<Rightarrow> task_end) \<Rightarrow> pyval list \<Rightarrow> search_result list" where
  "merge_completed outcome batch = concat (map (\<lambda>s. filter is_magnet_result (brought (outcome s))) batch)"

fun fetch_until_enough ::
    "wanted \<Rightarrow> nat \<Rightarrow> search_result list \<Rightarrow> (pyval \<Rightarrow> task_end) \<Rightarrow> pyval list list \<Rightarrow> search_result list \<Rightarrow> health_state
       \<Rightarrow> search_result list \<times> bool \<times> health_state" where
  "fetch_until_enough w required existing outcome [] candidates st = (candidates, False, st)"
| "fetch_until_enough w required existing outcome (batch # batches) candidates st =
     (let st1 = fold (\<lambda>s. note_outcome s (outcome s)) batch st; candidates1 = candidates @ merge_completed outcome batch in
      if enough w required (ranked w (existing @ candidates1)) then (candidates1, True, st1)
      else fetch_until_enough w required existing outcome batches candidates1 st1)"

definition fetch_priority_sources_until_ranked ::
    "wanted \<Rightarrow> time \<Rightarrow> nat option \<Rightarrow> search_result list \<Rightarrow> (pyval \<Rightarrow> task_end) \<Rightarrow> (pyval list \<Rightarrow> pyval list list) \<Rightarrow> pyval list
       \<Rightarrow> health_state \<Rightarrow> search_result list \<times> bool \<times> health_state" where
  "fetch_priority_sources_until_ranked w now min_matches existing outcome batches sources st =
     (if sources = [] then ([], False, st)
      else case filter_ready_sources now sources st of
        (ready, st1) \<Rightarrow>
          (case rank_sources_by_health now ready st1 of
             (order, st2) \<Rightarrow>
               fetch_until_enough w (max 1 (case min_matches of None \<Rightarrow> w_limit w | Some n \<Rightarrow> if n = 0 then w_limit w else n))
                 existing outcome (batches order) [] st2))"

section \<open>The search\<close>

definition order_sources_for_magnet :: "(pystr \<Rightarrow> time option) \<Rightarrow> time \<Rightarrow> source_table \<Rightarrow> pyval list \<Rightarrow> pyval list" where
  "order_sources_for_magnet stamp now tbl sources =
     sort_key (\<lambda>s.
       let name = strip (source_text s (u ''name'')); key = source_stats_key (source_type_of s) name (source_text s (u ''url'')) in
       (if source_health_status stamp now key tbl \<noteq> Healthy then 1 else 0 :: nat, - source_priority stamp now tbl s, name)) sources"

text \<open>
  What surrounds a search: the sources and their statistics, how the tasks of a list of queries end, whether there is time left
  when a list of queries is begun, the built-in sources
\<close>

record magnet_world =
  mw_now :: time
  mw_stamp :: "pystr \<Rightarrow> time option"
  mw_table :: source_table
  mw_sources :: "pyval list"
  mw_builtin :: "pyval list"
  mw_outcome :: "pystr list \<Rightarrow> pyval \<Rightarrow> task_end"
  mw_batches :: "pyval list \<Rightarrow> pyval list list"
  mw_in_time :: "pystr list \<Rightarrow> bool"

fun search_query_batches ::
    "magnet_world \<Rightarrow> wanted \<Rightarrow> pystr list list \<Rightarrow> search_result list \<Rightarrow> health_state \<Rightarrow> search_result list \<times> health_state" where
  "search_query_batches mw w [] candidates st = (candidates, st)"
| "search_query_batches mw w (queries # qss) candidates st =
     (if w_limit w \<le> length (ranked w candidates) \<or> list_ex (is_good w) candidates then (candidates, st)
      else if \<not> mw_in_time mw queries then search_query_batches mw w qss candidates st
      else case fetch_priority_sources_until_ranked w (mw_now mw) (Some 1) candidates (mw_outcome mw (take SOURCE_QUERY_LIMIT queries)) (mw_batches mw)
                  (order_sources_for_magnet (mw_stamp mw) (mw_now mw) (mw_table mw) (mw_sources mw)) st of
        (found, early, st1) \<Rightarrow> search_query_batches mw w qss (candidates @ found) st1)"

definition search_priority_magnet_candidates ::
    "magnet_world \<Rightarrow> wanted \<Rightarrow> pystr \<Rightarrow> pystr list \<Rightarrow> health_state \<Rightarrow> search_result list \<times> health_state" where
  "search_priority_magnet_candidates mw w title keywords st =
     (if mw_sources mw = [] then ([], st) else search_query_batches mw w (fast_magnet_query_batches title keywords) [] st)"

definition recovery_sources :: "magnet_world \<Rightarrow> pyval list" where
  "recovery_sources mw =
     filter (\<lambda>s. source_dedupe_key s \<notin> source_dedupe_key ` set (mw_sources mw) \<and> site_plugin_id s = u ''qmp4'') (mw_builtin mw)"

definition search_builtin_recovery_candidates ::
    "magnet_world \<Rightarrow> wanted \<Rightarrow> pystr \<Rightarrow> pystr list \<Rightarrow> health_state \<Rightarrow> search_result list \<times> health_state" where
  "search_builtin_recovery_candidates mw w title keywords st =
     (if recovery_sources mw = [] then ([], st)
      else case fetch_priority_sources_until_ranked w (mw_now mw) None [] (mw_outcome mw (take SOURCE_QUERY_LIMIT (fast_magnet_queries title keywords)))
                  (mw_batches mw) (recovery_sources mw) st of
        (found, early, st1) \<Rightarrow> (found, st1))"

definition wanted_of :: "media \<Rightarrow> int \<Rightarrow> pyval \<Rightarrow> nat \<Rightarrow> wanted" where
  "wanted_of media tmdb detail limit =
     \<lparr>w_sub = subscription_from_detail media tmdb detail, w_aliases = magnet_search_keywords detail, w_limit = limit\<rparr>"

text \<open>The search behind the cache: \<open>ending\<close> tells whether it is given up or raises.\<close>

definition uncached_search ::
    "fallback_end \<Rightarrow> magnet_world \<Rightarrow> wanted \<Rightarrow> pyval \<Rightarrow> health_state \<Rightarrow> search_result list option \<times> health_state" where
  "uncached_search ending mw w detail st =
     (if ending \<noteq> In_Time then (None, st)
      else
        let title = magnet_search_title detail; keywords = magnet_search_keywords detail in
        case search_priority_magnet_candidates mw w title keywords st of
          (candidates, st1) \<Rightarrow>
            (if ranked w candidates \<noteq> [] then (Some (take (w_limit w) (ranked w candidates)), st1)
             else case search_builtin_recovery_candidates mw w title keywords st1 of
               (more_found, st2) \<Rightarrow> (Some (take (w_limit w) (ranked w (candidates @ more_found))), st2)))"

text \<open>\<^const>\<open>None\<close>: the call raises.  The details of TMDB are asked for only behind the cache.\<close>

definition search_magnets_for_tmdb ::
    "fallback_end \<Rightarrow> magnet_world \<Rightarrow> pyval \<Rightarrow> media \<Rightarrow> int \<Rightarrow> nat \<Rightarrow> flow_cache \<times> health_state
       \<Rightarrow> (pyval \<times> search_result list) option \<times> flow_cache \<times> health_state" where
  "search_magnets_for_tmdb ending mw detail media tmdb limit = (\<lambda>(fc, st).
     (case magnet_cache_key media tmdb limit of
        None \<Rightarrow> (None, prune_magnet_search_cache (mw_now mw) fc, st)
      | Some key \<Rightarrow>
          (case cached_magnet_search (mw_now mw) key fc of
             (Some hit, fc1) \<Rightarrow> (Some hit, fc1, st)
           | (None, fc1) \<Rightarrow>
               (if detail_title detail = [] then (Some (detail, []), fc1, st)
                else case uncached_search ending mw (wanted_of media tmdb detail limit) detail st of
                  (None, st1) \<Rightarrow> (Some (detail, []), fc1, st1)
                | (Some found, st1) \<Rightarrow> (Some (detail, found), store_magnet_search_cache (mw_now mw) key detail found fc1, st1)))))"

section \<open>An answer: few, valid, ranked\<close>

lemma merged_magnets: "r \<in> set (merge_completed outcome batch) \<Longrightarrow> is_magnet_result r"
  by (auto simp: merge_completed_def)

lemma fetched_magnets:
  assumes "fetch_until_enough w required existing outcome batches candidates st = (found, early, st')"
    "\<forall>r \<in> set candidates. is_magnet_result r"
  shows "\<forall>r \<in> set found. is_magnet_result r"
    "early \<Longrightarrow> enough w required (ranked w (existing @ found))"
proof -
  have "(\<forall>r \<in> set found. is_magnet_result r) \<and> (early \<longrightarrow> enough w required (ranked w (existing @ found)))"
    using assms
  proof (induction batches arbitrary: candidates st)
    case (Cons b bs)
    have all: "\<forall>r \<in> set (candidates @ merge_completed outcome b). is_magnet_result r"
      using Cons.prems(2) merged_magnets by auto
    show ?case
    proof (cases "enough w required (ranked w (existing @ candidates @ merge_completed outcome b))")
      case True
      then show ?thesis using Cons.prems(1) all by (auto simp: Let_def)
    next
      case False
      then have "fetch_until_enough w required existing outcome bs (candidates @ merge_completed outcome b)
          (fold (\<lambda>s. note_outcome s (outcome s)) b st) = (found, early, st')" using Cons.prems(1) by (simp add: Let_def)
      then show ?thesis using Cons.IH all by blast
    qed
  qed simp
  then show "\<forall>r \<in> set found. is_magnet_result r" "early \<Longrightarrow> enough w required (ranked w (existing @ found))" by blast+
qed

lemma asked_magnets:
  assumes "fetch_priority_sources_until_ranked w now n existing outcome batches sources st = (found, early, st')"
  shows "\<forall>r \<in> set found. is_magnet_result r"
proof (cases "sources = []")
  case True
  then show ?thesis using assms by (simp add: fetch_priority_sources_until_ranked_def)
next
  case False
  obtain ready st1 where f: "filter_ready_sources now sources st = (ready, st1)" by (rule prod.exhaust)
  obtain order st2 where k: "rank_sources_by_health now ready st1 = (order, st2)" by (rule prod.exhaust)
  show ?thesis
    by (rule fetched_magnets(1) [of w "max 1 (case n of None \<Rightarrow> w_limit w | Some n \<Rightarrow> if n = 0 then w_limit w else n)" existing outcome "batches order" "[]" st2 found early st'])
      (use assms False in \<open>simp_all add: fetch_priority_sources_until_ranked_def f k\<close>)
qed

lemma batches_magnets:
  "search_query_batches mw w qss candidates st = (found, st') \<Longrightarrow> \<forall>r \<in> set candidates. is_magnet_result r \<Longrightarrow> \<forall>r \<in> set found. is_magnet_result r"
proof (induction qss arbitrary: candidates st)
  case (Cons qs qss)
  obtain fresh early st1 where f: "fetch_priority_sources_until_ranked w (mw_now mw) (Some 1) candidates (mw_outcome mw (take SOURCE_QUERY_LIMIT qs)) (mw_batches mw)
      (order_sources_for_magnet (mw_stamp mw) (mw_now mw) (mw_table mw) (mw_sources mw)) st = (fresh, early, st1)" by (rule prod_cases3)
  have "\<forall>r \<in> set (candidates @ fresh). is_magnet_result r" using Cons.prems(2) asked_magnets [OF f] by auto
  then show ?case using Cons by (auto simp: f simp del: One_nat_def split: if_splits)
qed simp

lemma candidates_magnets:
  "search_priority_magnet_candidates mw w title keywords st = (found, st') \<Longrightarrow> \<forall>r \<in> set found. is_magnet_result r"
  using batches_magnets by (fastforce simp: search_priority_magnet_candidates_def split: if_splits)

lemma recovery_magnets:
  "search_builtin_recovery_candidates mw w title keywords st = (found, st') \<Longrightarrow> \<forall>r \<in> set found. is_magnet_result r"
  using asked_magnets by (fastforce simp: search_builtin_recovery_candidates_def split: if_splits prod.splits)

definition fine_answer :: "wanted \<Rightarrow> search_result list \<Rightarrow> bool" where
  "fine_answer w found \<longleftrightarrow>
     length found \<le> w_limit w
     \<and> (\<forall>r \<in> set found. is_magnet_result r \<and> 60 \<le> result_score (w_sub w) (w_aliases w) r
          \<and> bot_title_or_alias_matches (w_sub w) (w_aliases w) (result_text r []))
     \<and> sorted_wrt (\<lambda>a b. result_score (w_sub w) (w_aliases w) b \<le> result_score (w_sub w) (w_aliases w) a) found
     \<and> distinct (map (\<lambda>r. download_link_key (r_url r)) found)"

lemma fine_ranked:
  assumes "\<forall>r \<in> set candidates. is_magnet_result r"
  shows "fine_answer w (take (w_limit w) (ranked w candidates))"
proof -
  note facts = magnets_ranked [of "w_sub w" "w_aliases w" candidates, folded ranked_def]
  have "sorted_wrt (\<lambda>a b. result_score (w_sub w) (w_aliases w) b \<le> result_score (w_sub w) (w_aliases w) a) (ranked w candidates)"
    using facts(3) by (rule sorted_wrt_mono_rel [rotated]) simp
  moreover have "\<forall>r \<in> set (ranked w candidates). is_magnet_result r \<and> 60 \<le> result_score (w_sub w) (w_aliases w) r
      \<and> bot_title_or_alias_matches (w_sub w) (w_aliases w) (result_text r [])"
    using facts(1,2) assms by blast
  ultimately show ?thesis using facts(4) in_set_takeD [of _ "w_limit w" "ranked w candidates"]
    by (simp add: fine_answer_def sorted_wrt_take distinct_take take_map [symmetric])
qed

theorem uncached_fine:
  assumes "uncached_search ending mw w detail st = (Some found, st')"
  shows "fine_answer w found"
proof -
  obtain candidates st1 where c: "search_priority_magnet_candidates mw w (magnet_search_title detail) (magnet_search_keywords detail) st = (candidates, st1)"
    by (rule prod.exhaust)
  obtain recovered st2 where r: "search_builtin_recovery_candidates mw w (magnet_search_title detail) (magnet_search_keywords detail) st1 = (recovered, st2)"
    by (rule prod.exhaust)
  have "\<forall>x \<in> set (candidates @ recovered). is_magnet_result x" using candidates_magnets [OF c] recovery_magnets [OF r] by auto
  then show ?thesis
    using assms candidates_magnets [OF c] fine_ranked by (auto simp: uncached_search_def Let_def c r split: if_splits)
qed

section \<open>Three queries at most\<close>

lemma three_queries:
  "q \<in> (\<Union>qs \<in> set (fast_magnet_query_batches title keywords). set (take SOURCE_QUERY_LIMIT qs)) \<Longrightarrow>
     q \<in> set (take 3 (fast_magnet_queries title keywords))"
proof -
  let ?qs = "fast_magnet_queries title keywords"
  have "take 2 (take 1 ?qs) = take 1 ?qs" "set (take 1 ?qs) \<subseteq> set (take 3 ?qs)" by (simp_all add: set_take_subset_set_take)
  moreover have "set (take 2 (drop 1 ?qs)) \<subseteq> set (take 3 ?qs)"
    using set_drop_subset [of 1 "take 3 ?qs"] by (simp add: drop_take)
  moreover assume "q \<in> (\<Union>qs \<in> set (fast_magnet_query_batches title keywords). set (take SOURCE_QUERY_LIMIT qs))"
  then have "q \<in> set (take 2 (take 1 ?qs)) \<or> q \<in> set (take 2 (drop 1 ?qs))"
    by (auto simp: fast_magnet_query_batches_def Let_def SOURCE_QUERY_LIMIT_def split: if_splits)
  ultimately show ?thesis by auto
qed

section \<open>A result reads back from the table of flows\<close>

lemma result_reads_back: "r_source r \<noteq> [] \<Longrightarrow> deserialize_search_result (serialize_search_result r) = r"
  by (cases r) (simp add: serialize_search_result_def deserialize_search_result_def text_field_def por_def u_def split: option.split)

lemma results_read_back:
  "\<forall>r \<in> set rs. r_source r \<noteq> [] \<Longrightarrow> deserialize_search_results (map serialize_search_result rs) = rs"
proof -
  assume "\<forall>r \<in> set rs. r_source r \<noteq> []"
  then have "map (deserialize_search_result \<circ> serialize_search_result) rs = rs"
    by (intro map_idI) (simp add: result_reads_back)
  moreover have "filter is_pdict (map serialize_search_result rs) = map serialize_search_result rs"
    by (simp add: filter_id_conv serialize_search_result_def)
  ultimately show ?thesis by (simp add: deserialize_search_results_def)
qed

lemma map_of_mapped: "map_of (map (\<lambda>(k, x). (k, f x)) xs) k = map_option f (map_of xs k)"
  by (induction xs) auto

lemma restart_reads:
  "map_of (fc_items (load_items ((save_items now fc)\<lparr>fc_items := []\<rparr>))) k =
     map_option (\<lambda>(t, d, rs). (if t = 0 then now else t, d, deserialize_search_results (map serialize_search_result rs))) (map_of (fc_items fc) k)"
proof -
  have "fc_items (load_items ((save_items now fc)\<lparr>fc_items := []\<rparr>)) =
      map (\<lambda>(k, x). (k, (\<lambda>(t, d, rs). (if t = 0 then now else t, d, deserialize_search_results (map serialize_search_result rs))) x)) (fc_items fc)"
    by (auto simp: load_items_def save_items_def)
  then show ?thesis by (simp only: map_of_mapped)
qed

lemma restart_keys: "map fst (fc_items (load_items ((save_items now fc)\<lparr>fc_items := []\<rparr>))) = map fst (fc_items fc)"
  by (auto simp: load_items_def save_items_def)

section \<open>What is kept when entries are dropped\<close>

lemma not_expired_key:
  assumes "distinct (map fst items)" "map_of items k = Some (t, x)" "now - t \<le> ttl"
  shows "k \<notin> set (expired_keys ttl now items)"
proof
  assume "k \<in> set (expired_keys ttl now items)"
  then obtain t' x' where "(k, t', x') \<in> set items" "ttl < now - t'" by (auto simp: expired_keys_def)
  then show False using assms by (simp add: map_of_eq_Some_iff)
qed

lemma pops_keep: "distinct (map fst items) \<Longrightarrow> distinct (map fst (fold dict_pop ks items)) \<and> length (fold dict_pop ks items) \<le> length items"
proof (induction ks arbitrary: items)
  case (Cons k ks)
  then have "distinct (map fst (dict_pop k items))" by (simp add: distinct_delete)
  from Cons.IH [OF this] show ?case using length_delete_le [of k items] by simp
qed simp

lemma prune_keeps:
  assumes "distinct (map fst items)" "length items \<le> most" "map_of items k = Some (t, x)" "now - t \<le> ttl"
  shows "map_of (prune_items ttl most now items) k = Some (t, x)" "distinct (map fst (prune_items ttl most now items))"
    "length (prune_items ttl most now items) \<le> most"
proof -
  define fresh where "fresh = fold dict_pop (expired_keys ttl now items) items"
  have fresh: "distinct (map fst fresh)" "length fresh \<le> most" "map_of fresh k = Some (t, x)"
    using pops_keep [OF assms(1)] assms(2,3) not_expired_key [OF assms(1,3,4)] unfolding fresh_def
    by (auto simp: map_of_pop_fold intro: order_trans)
  then have "overflow_keys most fresh = []" by (simp add: overflow_keys_def)
  then show "map_of (prune_items ttl most now items) k = Some (t, x)" "distinct (map fst (prune_items ttl most now items))"
    "length (prune_items ttl most now items) \<le> most"
    using fresh by (simp_all add: prune_items_def fresh_def [symmetric])
qed

lemma loaded_items: "fc_items fc \<noteq> [] \<Longrightarrow> load_items fc = fc"
  by (simp add: load_items_def)

lemma map_of_nonempty: "map_of xs k = Some v \<Longrightarrow> xs \<noteq> []"
  by (cases xs) auto

lemma set_in_room:
  assumes "distinct (map fst items)" "length items < most"
  shows "distinct (map fst (dict_set k v items))" "length (dict_set k v items) \<le> most" "map_of (dict_set k v items) k = Some v"
  using assms length_dict_set [of k v items] by (simp_all add: distinct_update update_conv')

section \<open>A finished search is answered from the cache\<close>

lemma stored_answer:
  assumes "distinct (map fst (fc_items (load_items fc)))" "length (fc_items (load_items fc)) < MAGNET_CACHE_ITEMS" "now \<le> t" "t \<le> now + 2400"
  shows "fst (cached_magnet_search t key (store_magnet_search_cache now key detail found fc)) = Some (detail, found)"
proof -
  let ?items = "dict_set key (now, detail, found) (fc_items (load_items fc))"
  note put = set_in_room [OF assms(1,2), of key "(now, detail, found)"]
  have "?items \<noteq> []" by (rule map_of_nonempty [OF put(3)])
  then have "load_items ((load_items fc)\<lparr>fc_items := ?items\<rparr>) = (load_items fc)\<lparr>fc_items := ?items\<rparr>" by (intro loaded_items) simp
  then have "fc_items (store_magnet_search_cache now key detail found fc) = prune_items MAGNET_CACHE_TTL MAGNET_CACHE_ITEMS now ?items"
    by (simp add: store_magnet_search_cache_def prune_magnet_search_cache_def Let_def save_items_def)
  moreover note prune_keeps [OF put(1-3), of now MAGNET_CACHE_TTL]
  ultimately have kept: "map_of (fc_items (store_magnet_search_cache now key detail found fc)) key = Some (now, detail, found)"
    "distinct (map fst (fc_items (store_magnet_search_cache now key detail found fc)))"
    "length (fc_items (store_magnet_search_cache now key detail found fc)) \<le> MAGNET_CACHE_ITEMS"
    by (simp_all add: MAGNET_CACHE_TTL_def)
  have "t - now \<le> MAGNET_CACHE_TTL" using assms(4) by (simp add: MAGNET_CACHE_TTL_def)
  then show ?thesis
    using prune_keeps(1) [OF kept(2,3,1)] loaded_items [OF map_of_nonempty [OF kept(1)]]
    by (simp add: cached_magnet_search_def prune_magnet_search_cache_def Let_def)
qed

theorem search_answered_again:
  assumes "search_magnets_for_tmdb In_Time mw detail media tmdb limit (fc, st) = (Some (detail1, found), fc', st')"
    and "magnet_cache_key media tmdb limit = Some key" "cached_magnet_search (mw_now mw) key fc = (None, fc1)" "detail_title detail \<noteq> []"
    and "distinct (map fst (fc_items (load_items fc1)))" "length (fc_items (load_items fc1)) < MAGNET_CACHE_ITEMS"
    and "mw_now mw \<le> mw_now mw'" "mw_now mw' \<le> mw_now mw + 2400"
  shows "fst (search_magnets_for_tmdb ending mw' detail' media tmdb limit (fc', st'')) = Some (detail, found)
    \<and> snd (snd (search_magnets_for_tmdb ending mw' detail' media tmdb limit (fc', st''))) = st''"
proof -
  obtain r st1 where u: "uncached_search In_Time mw (wanted_of media tmdb detail limit) detail st = (r, st1)" by (rule prod.exhaust)
  then obtain found1 where r: "r = Some found1" by (auto simp: uncached_search_def Let_def split: prod.splits if_splits)
  have "found1 = found" "fc' = store_magnet_search_cache (mw_now mw) key detail found1 fc1"
    using assms(1-4) u by (auto simp: search_magnets_for_tmdb_def r)
  then have "fst (cached_magnet_search (mw_now mw') key fc') = Some (detail, found)"
    using stored_answer [OF assms(5-8)] by simp
  then show ?thesis using assms(2)
    by (cases "cached_magnet_search (mw_now mw') key fc'") (simp add: search_magnets_for_tmdb_def)
qed

section \<open>A pick is found again, also after a restart\<close>

lemma pick_found:
  assumes "distinct (map fst (fc_items (load_items fc)))" "length (fc_items (load_items fc)) \<le> PICK_ITEMS"
    and "map_of (fc_items (load_items fc)) token = Some (made, detail, rs)" "t \<le> made + 1800" "i < length rs"
  shows "fst (pending_magnet_pick t token (int i) fc) = Some (rs ! i)"
proof -
  have "t - made \<le> PICK_TTL" using assms(4) by (simp add: PICK_TTL_def)
  note keep = prune_keeps(1) [OF assms(1-3) this]
  have "fc_items (prune_pending_magnet_results t fc) = prune_items PICK_TTL PICK_ITEMS t (fc_items (load_items fc))"
    by (simp add: prune_pending_magnet_results_def prune_items_def Let_def save_items_def)
  then show ?thesis using keep assms(5) by (simp add: pending_magnet_pick_def pending_results_def Let_def)
qed

theorem pick_survives_restart:
  fixes token :: pystr and detail :: pyval
  assumes "distinct (map fst (fc_items (prune_pending_magnet_results now (load_items fc))))"
    and "length (fc_items (prune_pending_magnet_results now (load_items fc))) < PICK_ITEMS"
    and "\<forall>r \<in> set results. r_source r \<noteq> []" "0 < now" "t \<le> now + 1800" "i < length results" "i < 20"
  defines "fc' \<equiv> store_pending_magnet_results now token detail results fc"
  shows "fst (pending_magnet_pick t token (int i) fc') = Some (results ! i)"
    and "fst (pending_magnet_pick t token (int i) (fc'\<lparr>fc_items := []\<rparr>)) = Some (results ! i)"
proof -
  let ?fc1 = "prune_pending_magnet_results now (load_items fc)"
  let ?fc2 = "?fc1\<lparr>fc_items := dict_set token (now, detail, take 20 results) (fc_items ?fc1)\<rparr>"
  note put = set_in_room [OF assms(1,2), of token "(now, detail, take 20 results)"]
  have fc': "fc' = save_items now ?fc2" by (simp add: fc'_def store_pending_magnet_results_def Let_def)
  have items: "fc_items fc' = fc_items ?fc2" by (simp add: fc' save_items_def)
  have load: "load_items fc' = fc'" using map_of_nonempty [OF put(3)] by (simp add: loaded_items items)
  show "fst (pending_magnet_pick t token (int i) fc') = Some (results ! i)"
    using pick_found [of fc' token now detail "take 20 results" t i] put assms(5-7) by (simp add: load items)
  have "map_of (fc_items (load_items (fc'\<lparr>fc_items := []\<rparr>))) token = Some (now, detail, take 20 results)"
    using put(3) assms(3,4) results_read_back [of "take 20 results"] in_set_takeD [of _ 20 results]
    unfolding fc' restart_reads by auto
  moreover have keys: "map fst (fc_items (load_items (fc'\<lparr>fc_items := []\<rparr>))) = map fst (fc_items ?fc2)" unfolding fc' by (rule restart_keys)
  moreover have "length (fc_items (load_items (fc'\<lparr>fc_items := []\<rparr>))) \<le> PICK_ITEMS"
    using arg_cong [OF keys, of length] put(2) by simp
  ultimately show "fst (pending_magnet_pick t token (int i) (fc'\<lparr>fc_items := []\<rparr>)) = Some (results ! i)"
    using pick_found [of "fc'\<lparr>fc_items := []\<rparr>" token now detail "take 20 results" t i] put(1) assms(5-7) by simp
qed

text \<open>Every button sends the position of a result.\<close>

lemma rows_of_five_concat: "concat (rows_of_five row xs) = row @ xs"
  by (induction row xs rule: rows_of_five.induct) auto

lemma rows_of_five_short: "length row < 5 \<Longrightarrow> \<forall>b \<in> set (rows_of_five row xs). length b \<le> 5"
  by (induction row xs rule: rows_of_five.induct) auto

lemma buttons_all:
  "concat (fst (magnet_results_reply_markup now token detail results fc)) = map (pick_button token) [0..<length results]"
  by (simp add: magnet_results_reply_markup_def rows_of_five_concat)

end
