(* ===== verification/Example_Sources.thy ===== *)
theory Example_Sources
  imports Example_Flow Attach Log_Buffer Monitor Priority_Search Magnet_Search
begin

text \<open>
  Concrete inputs for the properties of the other sources, the search for magnet links and the monitor: two sources of which the
  first brings the link of \<^theory_text>\<open>Example_Flow\<close>, a search that asks one source, and rounds in which nothing raises.
\<close>

definition high_source :: pyval where
  "high_source = PDict [(u ''name'', PStr (u ''high''))]"

definition low_source :: pyval where
  "low_source = PDict [(u ''name'', PStr (u ''low''))]"

definition two_outcomes :: "pyval \<Rightarrow> task_end" where
  "two_outcomes s = Brought (if s = high_source then [magnet] else []) 5"

definition small_world :: magnet_world where
  "small_world =
     \<lparr>mw_now = 100, mw_stamp = (\<lambda>_. None), mw_table = [], mw_sources = [high_source], mw_builtin = [], mw_outcome = (\<lambda>_. two_outcomes),
      mw_batches = map (\<lambda>s. [s]), mw_in_time = (\<lambda>_. True)\<rparr>"

definition steady :: "time \<Rightarrow> round" where
  "steady now = \<lparr>rd_now = now, rd_connect_fails = False, rd_raises = (\<lambda>_. False), rd_rescan_interval = 3600\<rparr>"

end
