(* ===== verification/Url_Roundtrip.thy ===== *)
theory Url_Roundtrip
  imports Py_Utf8
begin

text \<open>
  An address with a host that is taken apart, given another query string and put together again: taken apart once more, it
  has that query string.
\<close>

section \<open>Splitting\<close>

lemma split_once_some: "split_once d s = Some (a, b) \<Longrightarrow> s = a @ d # b \<and> d \<notin> set a"
  by (induction s arbitrary: a) (auto split: if_splits)

lemma split_once_none: "split_once d s = None \<longleftrightarrow> d \<notin> set s"
  by (induction s) auto

lemma split_at_parts: "set (fst (split_at d s)) \<union> set (snd (split_at d s)) \<subseteq> set s" "d \<notin> set (fst (split_at d s))"
  "fst (split_at d s) = [] \<or> hd (fst (split_at d s)) = hd s"
  by (auto simp: split_at_def split_once_none dest!: split_once_some split: option.split)
    (metis append_is_Nil_conv hd_append)

lemma split_at_join: "d \<notin> set a \<Longrightarrow> split_at d (a @ (if b = [] then [] else d # b)) = (a, b)"
  using split_once_none [of d a] by (auto simp: split_at_def split_once_append)

section \<open>The parts of an address with a host\<close>

definition url_ok :: "url_parts \<Rightarrow> bool" where
  "url_ok p \<longleftrightarrow>
     url_scheme p \<noteq> [] \<and> is_ascii_alpha (hd (url_scheme p)) \<and> list_all scheme_char (url_scheme p)
     \<and> url_netloc p \<noteq> [] \<and> (\<forall>c \<in> set (url_netloc p). netloc_char c \<and> c \<notin> {9, 10, 13})
     \<and> (\<forall>c \<in> set (url_path p) \<union> set (url_params p). c \<notin> {9, 10, 13, 35, 63})
     \<and> (url_path p = [] \<and> url_params p = [] \<or> url_path p \<noteq> [] \<and> hd (url_path p) = 47)
     \<and> (\<forall>c \<in> set (url_fragment p). c \<notin> {9, 10, 13})"

lemma alpha_range: "is_ascii_alpha c \<longleftrightarrow> 65 \<le> c \<and> c \<le> 90 \<or> 97 \<le> c \<and> c \<le> 122"
  by (auto simp: is_ascii_alpha_def is_ascii_lower_def is_ascii_upper_def)

lemma lower_scheme_char:
  assumes "scheme_char c"
  shows "\<exists>d. lower_char c = [d] \<and> scheme_char d \<and> (is_ascii_alpha c \<longrightarrow> is_ascii_alpha d)"
proof -
  have "c < 128" using assms by (auto simp: scheme_char_def alpha_range is_ascii_digit_def)
  then show ?thesis
    using assms by (auto simp: lower_char_def scheme_char_def alpha_range is_ascii_upper_def is_ascii_digit_def)
qed

lemma lower_scheme:
  assumes "list_all scheme_char s" "s \<noteq> []" "is_ascii_alpha (hd s)"
  shows "list_all scheme_char (concat (map lower_char s)) \<and> concat (map lower_char s) \<noteq> [] \<and> is_ascii_alpha (hd (concat (map lower_char s)))"
proof -
  have all: "list_all scheme_char (concat (map lower_char xs))" if "list_all scheme_char xs" for xs
    using that
  proof (induction xs)
    case (Cons x xs)
    then show ?case using lower_scheme_char [of x] by auto
  qed simp
  obtain c cs where s: "s = c # cs" using assms(2) by (cases s) auto
  then show ?thesis using all [OF assms(1)] lower_scheme_char [of c] assms by auto
qed

lemma split_params_parts:
  assumes "split_params path0 = (path, params)" "path0 = [] \<or> hd path0 = 47"
  shows "set path \<union> set params \<subseteq> set path0" "path = [] \<and> params = [] \<or> path \<noteq> [] \<and> hd path = 47"
proof -
  define seg where "seg = rev (takeWhile (\<lambda>c. c \<noteq> 47) (rev path0))"
  define front where "front = rev (dropWhile (\<lambda>c. c \<noteq> 47) (rev path0))"
  have parts: "path0 = front @ seg"
    unfolding seg_def front_def by (simp flip: rev_append)
  have front: "take (length path0 - length seg) path0 = front" by (simp add: parts)
  have hd_front: "front \<noteq> [] \<and> hd front = 47" if "path0 \<noteq> []"
  proof -
    have h: "hd path0 = 47" using that assms(2) by simp
    then have "47 \<in> set path0" using that hd_in_set [of path0] by simp
    then have "front \<noteq> []" by (auto simp: front_def dropWhile_eq_Nil_conv)
    moreover from this have "hd path0 = hd front" unfolding parts by simp
    ultimately show ?thesis using h by simp
  qed
  have p: "(path, params) = (case split_once 59 seg of None \<Rightarrow> (path0, []) | Some (a, b) \<Rightarrow> (front @ a, b))"
    using assms(1) unfolding split_params_def Let_def seg_def [symmetric] front by (rule sym)
  show "set path \<union> set params \<subseteq> set path0"
    using p parts by (auto dest!: split_once_some split: option.splits)
  show "path = [] \<and> params = [] \<or> path \<noteq> [] \<and> hd path = 47"
    using p parts hd_front assms(2) by (cases "path0 = []") (auto dest!: split_once_some split: option.splits)
qed

lemma urlparse_ok:
  assumes "url_scheme (urlparse url) \<noteq> []" "url_netloc (urlparse url) \<noteq> []"
  shows "url_ok (urlparse url)"
proof -
  obtain sch r1 where s: "split_scheme (url_clean url) = (sch, r1)" by (rule prod.exhaust)
  obtain net r2 where n: "split_netloc r1 = (net, r2)" by (rule prod.exhaust)
  obtain r3 frag where f: "split_at 35 r2 = (r3, frag)" by (rule prod.exhaust)
  obtain path0 query where q: "split_at 63 r3 = (path0, query)" by (rule prod.exhaust)
  obtain path params where p: "(if sch \<in> set params_schemes then split_params path0 else (path0, [])) = (path, params)" by (rule prod.exhaust)
  have u: "urlparse url = \<lparr>url_scheme = sch, url_netloc = net, url_path = path, url_params = params, url_query = query, url_fragment = frag\<rparr>"
    by (simp add: urlparse_def s n f q p)
  have clean: "\<forall>c \<in> set (url_clean url). c \<notin> {9, 10, 13}" by (auto simp: url_clean_def)
  obtain sch0 where sch: "url_clean url = sch0 @ 58 # r1" "sch = concat (map lower_char sch0)" "sch0 \<noteq> []" "is_ascii_alpha (hd sch0)" "list_all scheme_char sch0"
    using s assms(1) unfolding u split_scheme_def by (auto dest!: split_once_some split: option.splits if_splits)
  have scheme: "list_all scheme_char sch \<and> sch \<noteq> [] \<and> is_ascii_alpha (hd sch)" using lower_scheme [OF sch(5,3,4)] sch(2) by simp
  have r1: "\<forall>c \<in> set r1. c \<notin> {9, 10, 13}" using clean sch(1) by auto
  have net: "net = takeWhile netloc_char (drop 2 r1)" "r2 = dropWhile netloc_char (drop 2 r1)"
    using n assms(2) unfolding u split_netloc_def by (auto split: if_splits)
  have two: "set net \<union> set r2 \<subseteq> set r1"
    unfolding net using set_takeWhileD [of _ netloc_char "drop 2 r1"] set_dropWhileD [of _ netloc_char "drop 2 r1"] set_drop_subset [of 2 r1] by blast
  have host: "\<forall>c \<in> set net. netloc_char c" unfolding net by (auto dest: set_takeWhileD)
  have r2: "r2 = [] \<or> hd r2 \<in> {47, 63, 35}" unfolding net(2) using hd_dropWhile [of netloc_char "drop 2 r1"] by (auto simp: netloc_char_def)
  have path0: "set path0 \<subseteq> set r2" "35 \<notin> set path0" "63 \<notin> set path0"
    using split_at_parts [of 35 r2] split_at_parts [of 63 r3] f q by auto
  have start: "path0 = [] \<or> hd path0 = 47"
  proof (cases "path0 = []")
    case False
    then have "hd path0 = hd r2"
      using split_at_parts(3) [of 35 r2] split_at_parts(3) [of 63 r3] f q by (cases "r3 = []") (auto simp: split_at_def)
    moreover have "r2 \<noteq> []" using False path0(1) by auto
    moreover have "hd path0 \<in> set path0" using False by (rule hd_in_set)
    then have "hd path0 \<noteq> 35" "hd path0 \<noteq> 63" using path0(2,3) by (auto simp del: hd_in_set)
    ultimately show ?thesis using r2 by simp
  qed simp
  have parts: "set path \<union> set params \<subseteq> set path0" "path = [] \<and> params = [] \<or> path \<noteq> [] \<and> hd path = 47"
    using split_params_parts [OF _ start] p start by (auto split: if_splits)
  have frag: "set frag \<subseteq> set r2" using split_at_parts(1) [of 35 r2] f by auto
  have "\<forall>c \<in> set net. netloc_char c \<and> c \<notin> {9, 10, 13}" using host two r1 by blast
  moreover have "\<forall>c \<in> set path \<union> set params. c \<notin> {9, 10, 13, 35, 63}"
  proof
    fix c assume "c \<in> set path \<union> set params"
    then have "c \<in> set path0" using parts(1) by blast
    moreover from this have "c \<in> set r1" using path0(1) two by blast
    ultimately show "c \<notin> {9, 10, 13, 35, 63}" using r1 path0(2,3) by (cases "c = 35"; cases "c = 63") auto
  qed
  moreover have "\<forall>c \<in> set frag. c \<notin> {9, 10, 13}" using frag two r1 by blast
  ultimately show ?thesis using scheme assms(2) parts(2) by (simp add: u url_ok_def)
qed

section \<open>Putting together and taking apart\<close>

lemma scheme_no_colon: "list_all scheme_char s \<Longrightarrow> 58 \<notin> set s \<and> (\<forall>c \<in> set s. c \<notin> {9, 10, 13})"
  by (auto simp: list_all_iff scheme_char_def alpha_range is_ascii_digit_def)

theorem parse_unparse_query:
  assumes "url_ok p" "\<forall>c \<in> set (url_query p). c \<notin> {9, 10, 13, 35}"
  shows "url_query (urlparse (urlunparse p)) = url_query p"
proof -
  define path1 where "path1 = (if url_params p = [] then url_path p else url_path p @ [59] @ url_params p)"
  define behind where "behind = (if url_fragment p = [] then [] else 35 # url_fragment p)"
  define before where "before = path1 @ (if url_query p = [] then [] else 63 # url_query p)"
  have path1: "path1 = [] \<or> hd path1 = 47" "\<forall>c \<in> set path1. c \<notin> {9, 10, 13, 35, 63}"
    using assms(1) by (auto simp: path1_def url_ok_def)
  have whole: "urlunparse p = url_scheme p @ 58 # 47 # 47 # url_netloc p @ before @ behind"
    using assms(1) path1(1) by (auto simp: urlunparse_def Let_def path1_def [symmetric] before_def behind_def url_ok_def)
  have sch: "url_scheme p \<noteq> []" "is_ascii_alpha (hd (url_scheme p))" "list_all scheme_char (url_scheme p)" using assms(1) by (simp_all add: url_ok_def)
  have before: "35 \<notin> set before" "\<forall>c \<in> set before. c \<notin> {9, 10, 13}" using path1(2) assms(2) by (auto simp: before_def)
  have behind: "\<forall>c \<in> set behind. c \<notin> {9, 10, 13}" using assms(1) by (auto simp: behind_def url_ok_def)
  have keep: "\<forall>c \<in> set (urlunparse p). c \<notin> {9, 10, 13}"
    using scheme_no_colon [OF sch(3)] before(2) behind assms(1) unfolding whole by (auto simp: url_ok_def)
  have "dropWhile (\<lambda>c. c \<le> 32) (urlunparse p) = urlunparse p"
    using sch(1,2) unfolding whole by (cases "url_scheme p") (auto simp: alpha_range)
  then have "url_clean (urlunparse p) = urlunparse p"
    using keep by (auto simp: url_clean_def lstrip_by_def filter_id_conv)
  then have 1: "split_scheme (url_clean (urlunparse p)) = (concat (map lower_char (url_scheme p)), 47 # 47 # url_netloc p @ before @ behind)"
    using sch scheme_no_colon [OF sch(3)] by (simp add: split_scheme_def whole split_once_append)
  have net: "\<forall>c \<in> set (url_netloc p). netloc_char c" using assms(1) by (simp add: url_ok_def)
  have "before @ behind = [] \<or> \<not> netloc_char (hd (before @ behind))"
    using path1(1) by (auto simp: before_def behind_def netloc_char_def hd_append split: if_splits)
  then have "takeWhile netloc_char (url_netloc p @ before @ behind) = url_netloc p \<and> dropWhile netloc_char (url_netloc p @ before @ behind) = before @ behind"
    using net by (cases "before @ behind") auto
  then have 2: "split_netloc (47 # 47 # url_netloc p @ before @ behind) = (url_netloc p, before @ behind)"
    by (simp add: split_netloc_def)
  have 3: "split_at 35 (before @ behind) = (before, url_fragment p)"
    using split_at_join [OF before(1)] by (simp add: behind_def)
  have "63 \<notin> set path1" using path1(2) by auto
  then have 4: "split_at 63 before = (path1, url_query p)" using split_at_join by (simp add: before_def)
  show ?thesis by (simp add: urlparse_def 1 2 3 4 split: prod.splits if_split)
qed

section \<open>Encoded query strings\<close>

lemma set_join: "set (join sep ws) \<subseteq> set sep \<union> (\<Union>w \<in> set ws. set w)"
  by (induction sep ws rule: join.induct) auto

lemma encoded_clean:
  assumes "\<forall>(k, v) \<in> set items. \<forall>c \<in> set k \<union> set v. scalar c"
  shows "\<forall>c \<in> set (urlencode items). c \<notin> {9, 10, 13, 35}"
proof -
  have byte: "c \<notin> {9, 10, 13, 35}" if "b < 256" "c \<in> set (quote_byte b)" for b c
  proof -
    have "b div 16 < 16" using that(1) by auto
    then show ?thesis using that(2) hex_char_range [of "b div 16"] hex_char_range [of "b mod 16"] by (auto simp: quote_byte_def)
  qed
  have char: "c \<notin> {9, 10, 13, 35}" if "scalar x" "c \<in> set (quote_plus_char x)" for x c
  proof -
    note x = that
    consider "x = 32" | "x \<noteq> 32" "quote_safe x" | b where "x \<noteq> 32" "\<not> quote_safe x" "b \<in> set (utf8_char x)" "c \<in> set (quote_byte b)"
      using x(2) by (auto simp: quote_plus_char_def split: if_splits)
    then show ?thesis
    proof cases
      case 3
      then show ?thesis using byte utf8_byte [OF x(1)] by blast
    qed (use x(2) in \<open>auto simp: quote_plus_char_def quote_safe_def alpha_range is_ascii_digit_def\<close>)
  qed
  have quoted: "c \<notin> {9, 10, 13, 35}" if "\<forall>x \<in> set s. scalar x" "c \<in> set (quote_plus s)" for s c
  proof -
    note here = that
    obtain x where "x \<in> set s" "c \<in> set (quote_plus_char x)" using here(2) by (auto simp: quote_plus_def)
    then show ?thesis using char here(1) by blast
  qed
  show ?thesis
    unfolding urlencode_def
  proof
    fix c assume "c \<in> set (join [38] (map (\<lambda>(k, v). quote_plus k @ [61] @ quote_plus v) items))"
    then have "c = 38 \<or> (\<exists>w \<in> set (map (\<lambda>(k, v). quote_plus k @ [61] @ quote_plus v) items). c \<in> set w)"
      using set_join [of "[38]" "map (\<lambda>(k, v). quote_plus k @ [61] @ quote_plus v) items"] by auto
    then consider "c = 38 \<or> c = 61" | k v where "(k, v) \<in> set items" "c \<in> set (quote_plus k) \<or> c \<in> set (quote_plus v)" by auto
    then show "c \<notin> {9, 10, 13, 35}"
    proof cases
      case 2
      then have "\<forall>x \<in> set k. scalar x" "\<forall>x \<in> set v. scalar x" using assms by auto
      then show ?thesis using 2(2) quoted by blast
    qed auto
  qed
qed

theorem new_query_read_back:
  assumes "url_scheme (urlparse url) \<noteq> []" "url_netloc (urlparse url) \<noteq> []"
    and "\<forall>(k, v) \<in> set items. \<forall>c \<in> set k \<union> set v. scalar c"
  shows "parse_qsl (url_query (urlparse (urlunparse ((urlparse url)\<lparr>url_query := urlencode items\<rparr>)))) = items"
proof -
  have "url_ok ((urlparse url)\<lparr>url_query := urlencode items\<rparr>)"
    using urlparse_ok [OF assms(1,2)] by (simp add: url_ok_def)
  then have "url_query (urlparse (urlunparse ((urlparse url)\<lparr>url_query := urlencode items\<rparr>))) = urlencode items"
    using encoded_clean [OF assms(3)] parse_unparse_query [of "(urlparse url)\<lparr>url_query := urlencode items\<rparr>"] by simp
  then show ?thesis by (simp add: parse_urlencode_all [OF assms(3)])
qed

end
