(* ===== verification/Telegram_Titles.thy ===== *)
theory Telegram_Titles
  imports Link_Downloads Match_Text
begin

text \<open>
  The texts of Telegram messages: \<open>link/telegram_context_segments.py\<close> and \<open>link/telegram_context.py\<close> cut the part of a
  message that belongs to one share out of it, \<open>scan/message_titles.py\<close> reads the title of a resource from such a part.
  The two modules have patterns of the same name with different words; those of the context carry \<open>CONTEXT\<close> in their names.
  Shown: the part of a share is a run of lines around the first line with its link, ends before the next share and begins
  behind the previous one (with one exception, lines of two shares that follow each other); a title
  has at most 120 characters.
\<close>

section \<open>The part of a message that belongs to a share\<close>

definition share_code_from_link :: "pystr \<Rightarrow> pystr" where
  "share_code_from_link link = last (split_char 47 (rstrip_chars [47] (url_path (urlparse link))))"

definition line_matches_link :: "pystr \<Rightarrow> pystr \<Rightarrow> pystr \<Rightarrow> bool" where
  "line_matches_link line link share_code \<longleftrightarrow> contains link line \<or> share_code \<noteq> [] \<and> contains share_code line"

definition line_has_link_hint :: "pystr \<Rightarrow> bool" where
  "line_has_link_hint line \<longleftrightarrow>
     re_found PAN115_URL_RE line \<or> re_found PAN115_LOOSE_URL_RE line
     \<or> contains (u ''115.com/s'') (casefold line) \<or> contains (u ''115cdn.com/s'') (casefold line)"

text \<open>A share in the line right above does not count when the line has the code sought and the one above has not.\<close>

definition previous_link_indexes :: "pystr list \<Rightarrow> nat \<Rightarrow> pystr \<Rightarrow> nat list" where
  "previous_link_indexes lines index share_code =
     (let indexes = filter (\<lambda>i. line_has_link_hint (lines ! i)) [0..<index] in
      if indexes \<noteq> [] \<and> Suc (last indexes) = index \<and> share_code \<noteq> [] \<and> contains share_code (lines ! index)
         \<and> \<not> contains share_code (lines ! (index - 1))
      then butlast indexes else indexes)"

definition RESOURCE_LABEL_RE :: re where
  [re_pats]: "RESOURCE_LABEL_RE =
     seqs [Alt Bos (Cls (\<lambda>c. is_space c \<or> c \<in> set [91, 0x3010, 40, 0xFF08])),
       alts (map lit_u [[0x7535, 0x89C6, 0x5267], [0x7535, 0x5F71], [0x52A8, 0x6F2B], [0x52A8, 0x753B], [0x7EFC, 0x827A], [0x5267, 0x96C6], [0x540D, 0x79F0], [0x7247, 0x540D], [0x6807, 0x9898], [0x8D44, 0x6E90]]),
       spaces, one_of [58, 0xFF1A, 124, 0xFF5C]]"

definition YEAR_QUALITY_RE :: re where
  [re_pats]: "YEAR_QUALITY_RE =
     seqs [YEAR_RE, upto 0 40 any_char,
       alts [lit ''1080'', lit ''2160'', lit_i ''4k'', lit_i ''remux'', lit_i ''bluray'', lit_i ''web'',
         seqs [chr_i 115, upto 1 2 digit, chr_i 101, upto 1 3 digit]]]"

definition looks_like_resource_title_line :: "pystr \<Rightarrow> bool" where
  "looks_like_resource_title_line line =
     (let s = strip line in s \<noteq> [] \<and> \<not> line_has_link_hint s \<and> (re_found RESOURCE_LABEL_RE s \<or> re_found YEAR_QUALITY_RE s))"

fun tail_end :: "pystr list \<Rightarrow> nat \<Rightarrow> nat list \<Rightarrow> nat" where
  "tail_end lines stop [] = stop"
| "tail_end lines stop (i # is) =
     (if line_has_link_hint (lines ! i) \<or> looks_like_resource_title_line (lines ! i) then stop else tail_end lines (Suc i) is)"

definition next_link_end :: "pystr list \<Rightarrow> nat \<Rightarrow> nat" where
  "next_link_end lines index =
     tail_end lines (min (length lines) (index + 1)) [index + 1..<min (length lines) (index + 4)]"

definition field_start :: re where
  [re_pats]: "field_start = seqs [Bos, spaces, many (Cls (\<lambda>c. \<not> is_word c \<or> is_space c))]"

definition field_end :: re where
  [re_pats]: "field_end = seqs [spaces, opt (lit ''**''), spaces, one_of [58, 0xFF1A], spaces]"

definition FIELD_NAMES :: "pystr list" where
  "FIELD_NAMES =
     [[0x5730, 0x533A], [0x56FD, 0x5BB6], [0x8BED, 0x8A00], [0x5B57, 0x5E55], [0x6807, 0x7B7E], [0x7B80, 0x4ECB], [0x4E3B, 0x6F14], [0x5BFC, 0x6F14], [0x8BC4, 0x5206], [0x7C7B, 0x578B], [0x5206, 0x7C7B], [0x5E74, 0x4EFD], [0x5E74, 0x4EE3], [0x5B63, 0x96C6], [0x96C6, 0x6570],
      [0x66F4, 0x65B0], [0x5927, 0x5C0F], [0x8D28, 0x91CF]]"

definition tmdb_id_word :: re where
  [re_pats]: "tmdb_id_word = seqs [lit_i ''tmdb'', spaces, lit_i ''id'']"

definition CONTEXT_METADATA_FIELD_LINE_RE :: re where
  [re_pats]: "CONTEXT_METADATA_FIELD_LINE_RE = seqs [field_start, alts (map lit_u FIELD_NAMES @ [tmdb_id_word]), field_end]"

definition context_metadata_field_line :: "pystr \<Rightarrow> bool" where
  "context_metadata_field_line line = re_found CONTEXT_METADATA_FIELD_LINE_RE (strip line)"

definition TITLE_LABELS :: "pystr list" where
  "TITLE_LABELS =
     [[0x7535, 0x89C6, 0x5267], [0x7535, 0x5F71], [0x52A8, 0x6F2B], [0x52A8, 0x753B], [0x7EFC, 0x827A], [0x5267, 0x96C6], [0x77ED, 0x5267], [0x756A, 0x5267], [0x540D, 0x79F0], [0x7247, 0x540D], [0x5267, 0x540D], [0x6807, 0x9898], [0x8D44, 0x6E90, 0x540D], [0x8D44, 0x6E90]]"

definition TITLE_LABEL_RE :: re where
  [re_pats]: "TITLE_LABEL_RE =
     seqs [Alt Bos (Cls (\<lambda>c. is_space c \<or> c \<in> set [91, 0x3010, 0xFF08, 40])), alts (map lit_u TITLE_LABELS), spaces, one_of [58, 0xFF1A, 0xFF5C, 124]]"

definition SCORE_LABEL_RE :: re where
  [re_pats]: "SCORE_LABEL_RE =
     seqs [Alt Bos (Cls (\<lambda>c. is_space c \<or> c \<in> set [0x1F4FA, 0x1F3AC, 0x1F39E, 0xFE0F, 0x1F48E, 0x3001, 0x3002, 91, 0x3010])),
       alts (map lit_u [[0x7535, 0x89C6, 0x5267], [0x7535, 0x5F71], [0x52A8, 0x6F2B], [0x52A8, 0x753B], [0x7EFC, 0x827A], [0x5267, 0x96C6], [0x540D, 0x79F0], [0x7247, 0x540D], [0x6807, 0x9898], [0x8D44, 0x6E90]]), spaces, many (one_of [0xFF1A, 58])]"

definition SCORE_SKIP_RE :: re where
  [re_pats]: "SCORE_SKIP_RE = alts (map lit_u [[0x6807, 0x7B7E], [0x7B80, 0x4ECB], [0x4E3B, 0x6F14], [0x8BC4, 0x5206], [0x7C7B, 0x578B], [0x5206, 0x7C7B], [0x5927, 0x5C0F], [0x8D28, 0x91CF]] @ [tmdb_id_word])"

definition season_episode :: re where
  [re_pats]: "season_episode = seqs [chr_i 115, upto 1 2 digit, chr_i 101, upto 1 3 digit]"

definition nth_episode :: re where
  [re_pats]: "nth_episode = seqs [lit_u [0x7B2C], spaces, upto 1 3 digit, spaces, one_of [0x96C6, 0x8BDD, 0x8A71]]"

definition SCORE_QUALITY_RE :: re where
  [re_pats]: "SCORE_QUALITY_RE =
     alts [season_episode, nth_episode, lit ''1080'', lit ''2160'', lit_i ''4k'', lit_i ''remux'', lit_i ''bluray'', lit_i ''web'']"

definition resource_title_line_score :: "pystr \<Rightarrow> nat" where
  "resource_title_line_score line =
     (let s = strip line; has_year = search_years_from_text s \<noteq> {} in
      if s = [] \<or> context_metadata_field_line s then 0
      else if \<not> re_found SCORE_LABEL_RE s \<and> \<not> re_found TITLE_LABEL_RE s then 0
      else if re_found SCORE_SKIP_RE s then (if has_year then 1 else 0)
      else 2 + (if has_year then 3 else 0) + (if re_found SCORE_QUALITY_RE s then 1 else 0))"

definition PLAIN_SKIP_RE :: re where
  [re_pats]: "PLAIN_SKIP_RE =
     alts (map lit_u [[0x63D0, 0x53D6, 0x7801], [0x8BBF, 0x95EE, 0x7801], [0x5BC6, 0x7801], [0x94FE, 0x63A5], [0x590D, 0x5236], [0x4E0B, 0x8F7D], [0x6587, 0x4EF6, 0x5927, 0x5C0F], [0x6587, 0x4EF6, 0x6570, 0x91CF]])"

definition looks_like_plain_title_line :: "pystr \<Rightarrow> bool" where
  "looks_like_plain_title_line line =
     (let s = strip line in
      2 \<le> length s \<and> length s \<le> 120 \<and> \<not> context_metadata_field_line s
      \<and> 60 \<notin> set s \<and> 62 \<notin> set s \<and> \<not> starts_with (u ''http'') (casefold s)
      \<and> \<not> contains (u ''115.com/s/'') s \<and> \<not> contains (u ''115cdn.com/s/'') s \<and> \<not> starts_with (u ''magnet:?'') (casefold s)
      \<and> \<not> re_found PLAIN_SKIP_RE s
      \<and> list_ex (\<lambda>c. 0x3400 \<le> c \<and> c \<le> 0x9FFF) s
      \<and> (search_years_from_text s \<noteq> {} \<or> re_found (Alt season_episode nth_episode) s))"

text \<open>The closest strong title above the link; else the closest weak one; else a plain title within four lines; else eight lines\<close>

definition context_start_line :: "pystr list \<Rightarrow> nat \<Rightarrow> pystr \<Rightarrow> nat" where
  "context_start_line lines index share_code =
     (let previous = previous_link_indexes lines index share_code;
          segment_start = (if previous = [] then 0 else Suc (last previous));
          markers = filter (\<lambda>i. 0 < resource_title_line_score (lines ! i)) [segment_start..<Suc index] in
      if markers \<noteq> []
      then (case List.find (\<lambda>i. 2 \<le> resource_title_line_score (lines ! i)) (rev markers) of
              Some i \<Rightarrow> i
            | None \<Rightarrow> last markers)
      else (case List.find (\<lambda>i. looks_like_plain_title_line (lines ! i)) (rev [max segment_start (index - 4)..<index]) of
              Some i \<Rightarrow> i
            | None \<Rightarrow> max segment_start (index - 8)))"

definition nonblank_lines :: "pystr list \<Rightarrow> pystr" where
  "nonblank_lines parts = join [10] (filter (\<lambda>p. strip p \<noteq> []) parts)"

definition around :: "pystr \<Rightarrow> nat \<Rightarrow> nat \<Rightarrow> pystr" where
  "around message position width = take (min (length message) (position + width + 160) - (position - 160)) (drop (position - 160) message)"

definition context_for_115_link :: "pystr \<Rightarrow> pystr \<Rightarrow> pystr" where
  "context_for_115_link message link =
     (if message = [] then []
      else
        let share_code = share_code_from_link link; lines = splitlines message in
        case List.find (\<lambda>i. line_matches_link (lines ! i) link share_code) [0..<length lines] of
          Some index \<Rightarrow>
            or_str (nonblank_lines (drop (context_start_line lines index share_code) (take (next_link_end lines index) lines))) message
        | None \<Rightarrow>
            (case (case find_sub link message of Some p \<Rightarrow> Some p
                   | None \<Rightarrow> if share_code = [] then None else find_sub share_code message) of
               None \<Rightarrow> take 500 message
             | Some position \<Rightarrow> around message position (max (length link) (length share_code))))"

definition context_for_ed2k_link :: "pystr \<Rightarrow> pystr \<Rightarrow> pystr" where
  "context_for_ed2k_link message link =
     (if message = [] then []
      else case List.find (contains link) (splitlines message) of
        Some line \<Rightarrow> line
      | None \<Rightarrow>
          (case find_sub link message of
             None \<Rightarrow> take 500 message
           | Some position \<Rightarrow> around message position (length link)))"

section \<open>The title of a resource\<close>

definition TITLE_SKIP_RE :: re where
  [re_pats]: "TITLE_SKIP_RE =
     alts (map lit_u [[0x6807, 0x7B7E], [0x7B80, 0x4ECB], [0x4E3B, 0x6F14], [0x8BC4, 0x5206], [0x7C7B, 0x578B], [0x5206, 0x7C7B], [0x5927, 0x5C0F], [0x8D28, 0x91CF], [0x63D0, 0x53D6, 0x7801], [0x8BBF, 0x95EE, 0x7801], [0x94FE, 0x63A5]] @ [tmdb_id_word])"

definition TITLE_CLEAN_RE :: re where
  [re_pats]: "TITLE_CLEAN_RE =
     seqs [Bos, many (Cls (\<lambda>c. is_space c \<or> c \<in> set [91, 0x3010, 0xFF08, 40])), alts (map lit_u TITLE_LABELS), spaces, one_of [58, 0xFF1A, 0xFF5C, 124], spaces]"

definition NON_TITLE_RE :: re where
  [re_pats]: "NON_TITLE_RE =
     alts (map lit_u [[0x63D0, 0x53D6, 0x7801], [0x8BBF, 0x95EE, 0x7801], [0x5BC6, 0x7801], [0x590D, 0x5236], [0x4E0B, 0x8F7D], [0x94FE, 0x63A5], [0x6587, 0x4EF6, 0x5927, 0x5C0F], [0x6587, 0x4EF6, 0x6570, 0x91CF], [0x6536, 0x5F55, 0x65F6, 0x95F4], [0x5206, 0x4EAB, 0x65F6, 0x95F4]])"

definition METADATA_FIELD_LINE_RE :: re where
  [re_pats]: "METADATA_FIELD_LINE_RE =
     seqs [field_start, alts (map lit_u (FIELD_NAMES @ [[0x6295, 0x7A3F, 0x4EBA], [0x6295, 0x7A3F], [0x6765, 0x6E90], [0x4F5C, 0x8005], [0x53D1, 0x5E03]]) @ [tmdb_id_word]), field_end]"

definition EPISODE_QUALITY_RE :: re where
  [re_pats]: "EPISODE_QUALITY_RE =
     alts [season_episode, nth_episode, lit_i ''1080p'', lit_i ''2160p'', lit_i ''4k'', lit_i ''bluray'', lit_i ''web'']"

definition all_episodes :: re where
  [re_pats]: "all_episodes = seqs [lit_u [0x5168], spaces, upto 1 3 digit, spaces, one_of [0x96C6, 0x8BDD, 0x8A71]]"

definition EPISODE_MARKER_RE :: re where
  [re_pats]: "EPISODE_MARKER_RE = alts [season_episode, nth_episode, lit_u [0x66F4, 0x65B0, 0x81F3], all_episodes]"

definition SENTENCE_PUNCT_RE :: re where
  [re_pats]: "SENTENCE_PUNCT_RE = one_of [0x3002, 0xFF01, 0xFF1F]"

definition UNLABELED_TITLE_MAX_LENGTH :: nat where
  "UNLABELED_TITLE_MAX_LENGTH = 80"

definition ED2K_FILENAME_RE :: re where
  [re_pats]: "ED2K_FILENAME_RE =
     seqs [lit_i ''ed2k://|file|'', Grp ''1'' (many1 (none_of [124])), chr 124, many1 digit, chr 124,
       upto 32 32 (Cls hex_digit_i), chr 124, opt (seqs [chr 47, many any_char])]"

definition metadata_field_line :: "pystr \<Rightarrow> bool" where
  "metadata_field_line line = re_found METADATA_FIELD_LINE_RE (strip line)"

definition HTTP_URL_WORD_RE :: re where
  [re_pats]: "HTTP_URL_WORD_RE = seqs [lit ''http'', opt (chr 115), lit ''://'', many1 (Cls not_space)]"

definition SECRET_TAIL_RE :: re where
  [re_pats]: "SECRET_TAIL_RE =
     seqs [alts (map lit_u [[0x94FE, 0x63A5], [0x5730, 0x5740], [0x63D0, 0x53D6, 0x7801], [0x8BBF, 0x95EE, 0x7801], [0x5BC6, 0x7801]]), spaces, one_of [58, 0xFF1A], many any_char, Eos]"

definition strip_title_label :: "pystr \<Rightarrow> pystr" where
  "strip_title_label line =
     (let cleaned = re_sub HTTP_URL_WORD_RE [32] (re_sub TITLE_CLEAN_RE [] (strip line));
          named = (case re_match ED2K_FILENAME_RE cleaned of None \<Rightarrow> cleaned | Some m \<Rightarrow> grp ''1'' m) in
      strip_chars [45, 95, 0x00B7, 124, 32] (re_sub SPACE_RE [32] (re_sub SECRET_TAIL_RE [32] named)))"

definition title_char :: "nat \<Rightarrow> bool" where
  "title_char c \<longleftrightarrow> 0x3400 \<le> c \<and> c \<le> 0x9FFF \<or> is_ascii_alpha c \<or> is_ascii_digit c"

definition usable_title_line :: "pystr \<Rightarrow> bool" where
  "usable_title_line line =
     (let s = strip line in
      2 \<le> length s \<and> \<not> metadata_field_line s \<and> \<not> re_found TITLE_SKIP_RE s
      \<and> \<not> contains (u ''115.com/s/'') s \<and> \<not> contains (u ''115cdn.com/s/'') s
      \<and> \<not> starts_with (u ''magnet:?'') (casefold s) \<and> \<not> starts_with (u ''ed2k://'') (casefold s)
      \<and> \<not> re_found NON_TITLE_RE s \<and> list_ex title_char s)"

definition title_label_score :: "pystr \<Rightarrow> nat" where
  "title_label_score line =
     (let s = strip line in
      if metadata_field_line s \<or> s = [] \<or> re_found TITLE_SKIP_RE s \<or> \<not> re_found TITLE_LABEL_RE s then 0
      else if re_found YEAR_RE s then 2 else 1)"

definition title_line_score :: "pystr \<Rightarrow> pystr \<Rightarrow> nat" where
  "title_line_score line title =
     1 + (if re_found YEAR_RE title then 4 else 0) + (if re_found EPISODE_QUALITY_RE title then 2 else 0)
       + (if 4 \<le> length title \<and> length title \<le> UNLABELED_TITLE_MAX_LENGTH then 1 else 0)
       + (if re_match ED2K_FILENAME_RE line \<noteq> None then 3 else 0)"

definition scored_title_lines :: "pystr list \<Rightarrow> (nat \<times> pystr) list" where
  "scored_title_lines lines =
     map (\<lambda>line. (title_line_score line (strip_title_label line), take 120 (strip_title_label line)))
       (filter (\<lambda>line. let title = strip_title_label line in
          usable_title_line title \<and> \<not> re_found SENTENCE_PUNCT_RE title \<and> length title \<le> UNLABELED_TITLE_MAX_LENGTH) lines)"

definition range_sign :: re where
  [re_pats]: "range_sign = one_of [45, 126, 0x2013, 0x2014, 0x81F3, 0x5230]"

definition EPISODE_MARKER_PATTERNS :: "re list" where
  "EPISODE_MARKER_PATTERNS =
     [seqs [season_episode, spaces, range_sign, spaces, opt (chr_i 101), upto 1 3 digit],
      season_episode,
      seqs [lit_u [0x7B2C], spaces, upto 1 3 digit, spaces, range_sign, spaces, upto 1 3 digit, spaces, one_of [0x96C6, 0x8BDD, 0x8A71]],
      seqs [lit_u [0x66F4, 0x65B0, 0x81F3], spaces, opt (lit_u [0x7B2C]), spaces, upto 1 3 digit, spaces, opt (one_of [0x96C6, 0x8BDD, 0x8A71])],
      all_episodes]"

fun first_found :: "re list \<Rightarrow> pystr \<Rightarrow> mtch option" where
  "first_found [] s = None"
| "first_found (r # rs) s = (case re_search r s of Some m \<Rightarrow> Some m | None \<Rightarrow> first_found rs s)"

definition episode_marker_from_context :: "pystr \<Rightarrow> pystr" where
  "episode_marker_from_context context =
     (case first_found EPISODE_MARKER_PATTERNS context of None \<Rightarrow> [] | Some m \<Rightarrow> re_sub SPACE_RE [] (m_text m))"

definition enrich_title_with_episode_marker :: "pystr \<Rightarrow> pystr \<Rightarrow> pystr" where
  "enrich_title_with_episode_marker title context =
     (let s = strip title; marker = episode_marker_from_context context in
      if s = [] then s
      else if re_found EPISODE_MARKER_RE s \<or> marker = [] then take 120 s
      else take 120 (strip (s @ [32] @ marker)))"

definition NO_TITLE :: pystr where
  "NO_TITLE = [84, 101, 108, 101, 103, 114, 97, 109, 32, 0x8D44, 0x6E90]"

definition telegram_resource_title :: "pystr \<Rightarrow> pystr" where
  "telegram_resource_title context =
     (let lines = filter (\<lambda>l. l \<noteq> []) (map strip (splitlines context));
          labeled = map strip_title_label (filter (\<lambda>l. 0 < title_label_score l) lines);
          base = (case List.find usable_title_line labeled of
                    Some title \<Rightarrow> take 120 title
                  | None \<Rightarrow> (case sort_key (\<lambda>(score, t). - int score) (scored_title_lines lines) of
                              [] \<Rightarrow> []
                            | (score, t) # _ \<Rightarrow> t)) in
      if base = [] then NO_TITLE else enrich_title_with_episode_marker base context)"

section \<open>The part of a share\<close>

lemma tail_end_bounds:
  assumes "tail_end lines (min (length lines) a) [a..<b] = e" "b \<le> length lines" "a \<le> length lines"
  shows "a \<le> e \<and> e \<le> max a b \<and> (\<forall>i. a \<le> i \<and> i < e \<longrightarrow> \<not> line_has_link_hint (lines ! i) \<and> \<not> looks_like_resource_title_line (lines ! i))"
  using assms
proof (induction "b - a" arbitrary: a)
  case (Suc n)
  then have ab: "a < b" by simp
  then have up: "[a..<b] = a # [Suc a..<b]" by (simp add: upt_conv_Cons)
  have mins: "min (length lines) a = a" "min (length lines) (Suc a) = Suc a" using Suc.prems ab by simp_all
  have e: "(if line_has_link_hint (lines ! a) \<or> looks_like_resource_title_line (lines ! a) then a else tail_end lines (Suc a) [Suc a..<b]) = e"
    using Suc.prems(1) unfolding up tail_end.simps mins .
  show ?case
  proof (cases "line_has_link_hint (lines ! a) \<or> looks_like_resource_title_line (lines ! a)")
    case True
    then show ?thesis using e Suc.prems ab by auto
  next
    case False
    have "Suc a \<le> e \<and> e \<le> max (Suc a) b \<and> (\<forall>i. Suc a \<le> i \<and> i < e \<longrightarrow> \<not> line_has_link_hint (lines ! i) \<and> \<not> looks_like_resource_title_line (lines ! i))"
      using e False Suc.prems ab Suc.hyps(2) mins by (intro Suc.hyps(1)) auto
    moreover have "a = i \<or> Suc a \<le> i" if "a \<le> i" for i using that by auto
    ultimately show ?thesis using False ab by auto
  qed
qed auto

lemma next_link_end_bounds:
  assumes "index < length lines"
  shows "index < next_link_end lines index \<and> next_link_end lines index \<le> index + 4 \<and> next_link_end lines index \<le> length lines
    \<and> (\<forall>i. index < i \<and> i < next_link_end lines index \<longrightarrow> \<not> line_has_link_hint (lines ! i) \<and> \<not> looks_like_resource_title_line (lines ! i))"
  using tail_end_bounds [of lines "index + 1" "min (length lines) (index + 4)" "next_link_end lines index"] assms
  by (auto simp: next_link_end_def Suc_le_eq)

definition segment_start :: "pystr list \<Rightarrow> nat \<Rightarrow> pystr \<Rightarrow> nat" where
  "segment_start lines index share_code =
     (let previous = previous_link_indexes lines index share_code in if previous = [] then 0 else Suc (last previous))"

lemma hints_between: "filter P [0..<n] = is \<Longrightarrow> i < n \<Longrightarrow> P i \<Longrightarrow> i \<in> set is"
  by auto

lemma sorted_last: "sorted xs \<Longrightarrow> x \<in> set xs \<Longrightarrow> x \<le> last (xs :: nat list)"
  by (induction xs rule: rev_induct) (auto simp: sorted_append)

lemma member_nonempty: "x \<in> set xs \<Longrightarrow> xs \<noteq> []"
  by auto

lemma segment_no_hint:
  assumes "segment_start lines index share_code \<le> i" "i < index" "Suc i \<noteq> index"
  shows "\<not> line_has_link_hint (lines ! i)"
proof
  assume hint: "line_has_link_hint (lines ! i)"
  let ?all = "filter (\<lambda>i. line_has_link_hint (lines ! i)) [0..<index]"
  have all: "i \<in> set ?all" using hint assms(2) by auto
  have sorted: "sorted ?all" by (rule sorted_wrt_filter) simp
  consider "previous_link_indexes lines index share_code = ?all"
    | "previous_link_indexes lines index share_code = butlast ?all" "Suc (last ?all) = index"
  proof -
    have "previous_link_indexes lines index share_code = ?all
      \<or> previous_link_indexes lines index share_code = butlast ?all \<and> Suc (last ?all) = index"
      unfolding previous_link_indexes_def Let_def by simp
    then show thesis using that by blast
  qed
  then show False
  proof cases
    case 1
    have "?all \<noteq> []" using all by (rule member_nonempty)
    then have "segment_start lines index share_code = Suc (last ?all)" unfolding segment_start_def Let_def 1 by simp
    then show False using sorted_last [OF sorted all] assms(1) by linarith
  next
    case 2
    have ne: "?all \<noteq> []" using all by (rule member_nonempty)
    have "i \<noteq> last ?all" using 2(2) assms(3) by auto
    then have in_front: "i \<in> set (butlast ?all)" 
      using all append_butlast_last_id [OF ne] in_set_conv_decomp by (metis (no_types, lifting) Un_iff empty_iff insert_iff list.set(1) list.simps(15) set_append)
    have "sorted (butlast ?all)" using sorted by (rule sorted_butlast)
    then have "i \<le> last (butlast ?all)" using in_front by (rule sorted_last)
    moreover have "butlast ?all \<noteq> []" using in_front by (rule member_nonempty)
    then have "segment_start lines index share_code = Suc (last (butlast ?all))" unfolding segment_start_def Let_def 2(1) by simp
    ultimately show False using assms(1) by linarith
  qed
qed

lemma segment_start_le: "segment_start lines index share_code \<le> index"
proof -
  have "set (previous_link_indexes lines index share_code) \<subseteq> {0..<index}"
    by (auto simp: previous_link_indexes_def Let_def dest: in_set_butlastD)
  then have "previous_link_indexes lines index share_code \<noteq> [] \<Longrightarrow> last (previous_link_indexes lines index share_code) < index"
    using last_in_set by fastforce
  then show ?thesis by (auto simp: segment_start_def Let_def)
qed

lemma find_member: "List.find P xs = Some x \<Longrightarrow> x \<in> set xs \<and> P x"
  by (auto simp: find_Some_iff)

lemma context_start_bounds:
  "segment_start lines index share_code \<le> context_start_line lines index share_code \<and> context_start_line lines index share_code \<le> index"
proof -
  let ?s = "segment_start lines index share_code"
  define markers where "markers = filter (\<lambda>i. 0 < resource_title_line_score (lines ! i)) [?s..<Suc index]"
  have in_markers: "?s \<le> i \<and> i \<le> index" if "i \<in> set markers" for i using that by (auto simp: markers_def)
  have start: "context_start_line lines index share_code =
     (if markers \<noteq> []
      then (case List.find (\<lambda>i. 2 \<le> resource_title_line_score (lines ! i)) (rev markers) of Some i \<Rightarrow> i | None \<Rightarrow> last markers)
      else (case List.find (\<lambda>i. looks_like_plain_title_line (lines ! i)) (rev [max ?s (index - 4)..<index]) of
              Some i \<Rightarrow> i | None \<Rightarrow> max ?s (index - 8)))"
    unfolding context_start_line_def segment_start_def markers_def Let_def by (rule refl)
  show ?thesis
  proof (cases "markers = []")
    case True
    then show ?thesis using segment_start_le [of lines index share_code]
      by (auto simp: start dest!: find_member split: option.split)
  next
    case False
    then show ?thesis using in_markers last_in_set [OF False] by (auto simp: start dest!: find_member split: option.split)
  qed
qed

theorem share_context:
  assumes "List.find (\<lambda>i. line_matches_link (splitlines message ! i) link (share_code_from_link link)) [0..<length (splitlines message)] = Some index"
  obtains start stop where
    "context_for_115_link message link = or_str (nonblank_lines (drop start (take stop (splitlines message)))) message"
    "start \<le> index" "index < stop" "stop \<le> length (splitlines message)" "stop \<le> index + 4"
    "\<forall>i. start \<le> i \<and> i < stop \<and> i \<noteq> index \<and> Suc i \<noteq> index \<longrightarrow> \<not> line_has_link_hint (splitlines message ! i)"
proof
  let ?lines = "splitlines message" and ?code = "share_code_from_link link"
  have index: "index < length ?lines" using find_member [OF assms] by auto
  then have "message \<noteq> []" by (auto simp: splitlines_def)
  then show "context_for_115_link message link
      = or_str (nonblank_lines (drop (context_start_line ?lines index ?code) (take (next_link_end ?lines index) ?lines))) message"
    using assms by (simp add: context_for_115_link_def Let_def)
  show "context_start_line ?lines index ?code \<le> index" using context_start_bounds by blast
  note stop = next_link_end_bounds [OF index]
  then show "index < next_link_end ?lines index" "next_link_end ?lines index \<le> length ?lines" "next_link_end ?lines index \<le> index + 4" by simp_all
  show "\<forall>i. context_start_line ?lines index ?code \<le> i \<and> i < next_link_end ?lines index \<and> i \<noteq> index \<and> Suc i \<noteq> index
      \<longrightarrow> \<not> line_has_link_hint (?lines ! i)"
  proof (intro allI impI, elim conjE)
    fix i assume i: "context_start_line ?lines index ?code \<le> i" "i < next_link_end ?lines index" "i \<noteq> index" "Suc i \<noteq> index"
    show "\<not> line_has_link_hint (?lines ! i)"
    proof (cases "i < index")
      case True
      have "segment_start ?lines index ?code \<le> i" using i(1) context_start_bounds le_trans by blast
      then show ?thesis using True i(4) by (rule segment_no_hint)
    next
      case False
      then show ?thesis using stop i(2,3) by auto
    qed
  qed
qed

section \<open>Titles\<close>

lemma usable_nonempty: "usable_title_line t \<Longrightarrow> strip t \<noteq> []"
  by (auto simp: usable_title_line_def Let_def)

lemma title_nonempty: "take 120 (strip t) = [] \<longleftrightarrow> strip t = []"
  by simp

lemma length_enriched: "length (enrich_title_with_episode_marker t context) \<le> 120"
  by (simp add: enrich_title_with_episode_marker_def Let_def)

lemma title_bounded: "length (telegram_resource_title context) \<le> 120"
  by (simp add: telegram_resource_title_def Let_def NO_TITLE_def length_enriched)

end
