(* ===== verification/Telegram_Message.thy ===== *)
theory Telegram_Message
  imports Telegram_Titles "HOL-Library.Product_Lexorder"
begin

text \<open>
  Messages of Telegram: their text (\<open>link/telegram_message.py\<close>), what in them hints at a share (\<open>link/telegram_hints.py\<close>), the
  neighbours that belong to a message (\<open>scan/message_context.py\<close>) and the text each link is judged by
  (\<open>scan/message_candidates.py\<close>).  A message is what the code reads of the client's object; its address stands for \<open>id(message)\<close>.
  An attribute that is missing is an empty text, no group an empty text, no id the number 0.
  Shown: the parts of the text of a message are different; the related messages begin with the message, have
  different ids and are the message and its siblings; every link that gets a context stands in
  a text of the messages or of the caller, once.
\<close>

section \<open>Messages\<close>

text \<open>Bytes are given by their text, without what is not UTF-8, and by the text \<open>str\<close> makes of them.\<close>

datatype raw_data = Text_data pystr | Byte_data pystr pystr

record button =
  bt_text :: pystr
  bt_url :: pystr
  bt_raw :: "(pystr \<times> raw_data) option" \<comment> \<open>\<open>button.url\<close> and \<open>button.data\<close>\<close>

text \<open>
  \<open>tm_own\<close> has \<open>raw_text\<close>, \<open>message\<close>, \<open>text\<close> and \<open>caption\<close>; \<open>tm_entities\<close> the texts and urls of \<open>get_entities_text\<close>; \<open>tm_preview\<close> the
  five fields of \<open>media\<close> and of \<open>web_preview\<close>; \<open>tm_serial\<close> what \<open>to_json\<close> and \<open>stringify\<close> return.
\<close>

record message =
  tm_id :: int
  tm_addr :: nat
  tm_own :: "pystr list"
  tm_entity_urls :: "pystr list"
  tm_entities :: "(pystr \<times> pystr) list"
  tm_preview :: "pystr list"
  tm_serial :: "pystr list"
  tm_dict :: pyval
  tm_group :: pystr
  tm_buttons :: "button list list"

definition text_part :: "raw_data \<Rightarrow> pystr" where
  "text_part v = (case v of Text_data s \<Rightarrow> strip s | Byte_data s _ \<Rightarrow> strip s)"

definition add_text_part :: "pystr \<Rightarrow> pystr list \<Rightarrow> pystr list" where
  "add_text_part value parts = (let s = strip value in if s \<noteq> [] \<and> s \<notin> set parts then parts @ [s] else parts)"

definition TEXT_KEYS :: "pystr list" where
  "TEXT_KEYS = map u [''message'', ''text'', ''caption'', ''raw_text'', ''url'', ''display_url'', ''title'', ''description'', ''site_name'']"

definition is_container :: "pyval \<Rightarrow> bool" where
  "is_container v = (case v of PDict _ \<Rightarrow> True | PList _ \<Rightarrow> True | _ \<Rightarrow> False)"

text \<open>The number is how many levels may still be entered.\<close>

fun collect_dict_texts :: "nat \<Rightarrow> pyval \<Rightarrow> pystr list \<Rightarrow> pystr list" where
  "collect_dict_texts 0 v parts = parts"
| "collect_dict_texts (Suc depth) v parts =
     (case v of
        PStr s \<Rightarrow> add_text_part s parts
      | PDict items \<Rightarrow>
          fold (\<lambda>(key, item) parts.
              if casefold key \<in> set TEXT_KEYS \<or> is_container item then collect_dict_texts depth item parts else parts) items parts
      | PList items \<Rightarrow> fold (collect_dict_texts depth) items parts
      | _ \<Rightarrow> parts)"

definition text_parts :: "message \<Rightarrow> pystr list" where
  "text_parts m =
     (let shown = tm_own m @ tm_entity_urls m @ concat (map (\<lambda>(t, url). [t, url]) (tm_entities m)) @ tm_preview m @ tm_serial m;
          parts = fold add_text_part shown []
      in case tm_dict m of PDict items \<Rightarrow> collect_dict_texts 6 (PDict items) parts | _ \<Rightarrow> parts)"

definition telegram_message_text :: "message \<Rightarrow> pystr" where
  "telegram_message_text m = join [10] (text_parts m)"

section \<open>Hints\<close>

definition TELEGRAM_LINK_BUTTON_WORDS :: "pystr list" where
  "TELEGRAM_LINK_BUTTON_WORDS =
     [u ''115'', [0x94FE, 0x63A5], [0x67E5, 0x770B], [0x6253, 0x5F00], [0x7785, 0x6211], [0x70B9, 0x6211], [0x70B9, 0x51FB], [0x8D44, 0x6E90], [0x83B7, 0x53D6], [0x4E0B, 0x8F7D], [0x63D0, 0x53D6], [0x53D6, 0x94FE], [0x7F51, 0x76D8], [0x8BE6, 0x60C5], u ''link'']"

definition TELEGRAM_EXTERNAL_HINT_HOSTS :: "pystr list" where
  "TELEGRAM_EXTERNAL_HINT_HOSTS = map u [''telegra.ph'', ''115.com'', ''www.115.com'']"

definition HTTP_URL_RE :: re where
  [re_pats]: "HTTP_URL_RE =
     seqs [lit_i ''http'', opt (chr_i 115), lit ''://'', many1 (Cls (\<lambda>c. \<not> is_space c \<and> c \<notin> {34, 39, 60, 62}))]"

definition CONTEXT_MESSAGE_RE :: re where
  [re_pats]: "CONTEXT_MESSAGE_RE =
     alts (map lit_u [[0x7535, 0x89C6, 0x5267], [0x7535, 0x5F71], [0x52A8, 0x6F2B], [0x52A8, 0x753B], [0x7EFC, 0x827A], [0x77ED, 0x5267], [0x756A, 0x5267], [0x5267, 0x96C6], [0x540D, 0x79F0], [0x7247, 0x540D], [0x6807, 0x9898], [0x8D44, 0x6E90]]
       @ [season_episode, seqs [chr_i 101, upto 1 3 digit], nth_episode,
          seqs [Alt (lit ''19'') (lit ''20''), upto 2 2 digit], lit ''1080'', lit ''2160'', lit_i ''4k'', lit_i ''web'', lit_i ''bluray''])"

definition SECRET_WORD_RE :: re where
  [re_pats]: "SECRET_WORD_RE =
     seqs [WordB, alts (map lit_i [''password'', ''pwd'', ''pass'', ''code'']), spaces, one_of (u '':=''), spaces,
       Rep True 2 None (Cls (\<lambda>c. ascii_alnum_i c \<or> c = 95 \<or> c = 45))]"

definition LINK_WORDS_RE :: re where
  [re_pats]: "LINK_WORDS_RE =
     many1 (alts (map lit_u [[0x94FE, 0x63A5], [0x63D0, 0x53D6, 0x7801], [0x8BBF, 0x95EE, 0x7801], [0x5BC6, 0x7801], [0x7F51, 0x76D8], u ''115'', [58], [0xFF1A], [47], u [CHR 0x5C], [63], [61], [38], [45], [95]] @ [space]))"

definition remove_115_links_for_hint :: "(pystr \<Rightarrow> pystr) \<Rightarrow> pystr \<Rightarrow> pystr" where
  "remove_115_links_for_hint unescape text0 =
     (let t1 = re_sub PAN115_URL_RE [32] (re_sub PAN115_LOOSE_URL_RE [32] (normalize_download_text unescape text0))
      in strip (re_sub LINK_WORDS_RE [32] (re_sub SECRET_WORD_RE [32] t1)))"

definition looks_like_link_only_message :: "(pystr \<Rightarrow> pystr) \<Rightarrow> pystr \<Rightarrow> bool" where
  "looks_like_link_only_message unescape t \<longleftrightarrow>
     extract_115_links unescape t \<noteq> [] \<and> length (compact_search_text (remove_115_links_for_hint unescape t)) \<le> 12"

definition matches_any :: "pystr list \<Rightarrow> pystr \<Rightarrow> bool" where
  "matches_any queries t = list_ex (local_text_matches_query t) queries"

definition nearby_link_text_matches :: "(pystr \<Rightarrow> pystr) \<Rightarrow> pystr list \<Rightarrow> pystr \<Rightarrow> bool" where
  "nearby_link_text_matches unescape queries t \<longleftrightarrow>
     extract_115_links unescape t \<noteq> [] \<and> (queries = [] \<or> matches_any queries t)"

definition button_text_values :: "button \<Rightarrow> pystr list" where
  "button_text_values b =
     filter (\<lambda>v. v \<noteq> [])
       ([strip (bt_text b), strip (bt_url b)]
        @ (case bt_raw b of None \<Rightarrow> [] | Some (url, data) \<Rightarrow> [strip url, text_part data]))"

definition message_button_values :: "message \<Rightarrow> pystr list" where
  "message_button_values m = concat (map button_text_values (concat (tm_buttons m)))"

definition message_has_link_button_hint :: "(pystr \<Rightarrow> pystr) \<Rightarrow> message \<Rightarrow> bool" where
  "message_has_link_button_hint unescape m =
     list_ex (\<lambda>v. extract_115_links unescape v \<noteq> [] \<or> list_ex (\<lambda>w. contains w (casefold v)) TELEGRAM_LINK_BUTTON_WORDS)
       (message_button_values m)"

definition text_has_external_resource_page_hint :: "pystr \<Rightarrow> bool" where
  "text_has_external_resource_page_hint t =
     list_ex (\<lambda>raw. casefold (url_netloc (urlparse (m_text raw))) \<in> set TELEGRAM_EXTERNAL_HINT_HOSTS) (re_finditer HTTP_URL_RE t)"

definition looks_like_context_message :: "(pystr \<Rightarrow> pystr) \<Rightarrow> pystr \<Rightarrow> bool" where
  "looks_like_context_message unescape t =
     (let value = strip t; compact = compact_search_text value in
      value \<noteq> [] \<and> extract_115_links unescape value = [] \<and> 2 \<le> length compact
      \<and> (re_found CONTEXT_MESSAGE_RE value \<or> length compact \<le> 80))"

definition same_message_group :: "message \<Rightarrow> message \<Rightarrow> bool" where
  "same_message_group a b \<longleftrightarrow> tm_group a \<noteq> [] \<and> tm_group a = tm_group b"

text \<open>The positions around a message, without its own\<close>

definition around_index :: "nat \<Rightarrow> nat \<Rightarrow> nat \<Rightarrow> nat list" where
  "around_index window index n = filter (\<lambda>i. i \<noteq> index) [index - window..<min n (index + window + 1)]"

definition nearby_recent_message_texts :: "(pystr \<Rightarrow> pystr) \<Rightarrow> message list \<Rightarrow> nat \<Rightarrow> pystr list \<Rightarrow> pystr list" where
  "nearby_recent_message_texts unescape messages index queries =
     (if length messages \<le> index then []
      else fold (\<lambda>i texts.
          let nearby = messages ! i; t = telegram_message_text nearby in
          if t = [] \<or> t \<in> set texts then texts
          else if same_message_group nearby (messages ! index) \<or> nearby_link_text_matches unescape queries t
          then texts @ [t] else texts) (around_index 4 index (length messages)) [])"

definition nearby_recent_messages_have_button_hint :: "(pystr \<Rightarrow> pystr) \<Rightarrow> message list \<Rightarrow> nat \<Rightarrow> bool" where
  "nearby_recent_messages_have_button_hint unescape messages index =
     list_ex (\<lambda>i. message_has_link_button_hint unescape (messages ! i)
                \<or> text_has_external_resource_page_hint (telegram_message_text (messages ! i)))
       (around_index 4 index (length messages))"

section \<open>The neighbours of a message\<close>

definition message_distance :: "message \<Rightarrow> message \<Rightarrow> int" where
  "message_distance a b = (if tm_id a = 0 \<or> tm_id b = 0 then 99 else \<bar>tm_id a - tm_id b\<bar>)"

definition CONTEXT_EPISODE_RE :: re where
  [re_pats]: "CONTEXT_EPISODE_RE = alts [YEAR_RE, season_episode, seqs [chr_i 101, upto 1 3 digit]]"

definition looks_like_button_prompt :: "pystr \<Rightarrow> bool" where
  "looks_like_button_prompt t =
     (let hint = re_sub SPACE_RE [] t in
      hint \<noteq> [] \<and> length hint \<le> 16 \<and> \<not> re_found CONTEXT_EPISODE_RE hint
      \<and> list_ex (\<lambda>w. contains w (casefold hint))
          [[0x70B9, 0x51FB], [0x67E5, 0x770B], [0x8D44, 0x6E90], [0x94FE, 0x63A5], [0x9886, 0x53D6], [0x83B7, 0x53D6], [0x6253, 0x5F00], u ''115'', u ''link''])"

definition button_sibling_belongs_to_base :: "(pystr \<Rightarrow> pystr) \<Rightarrow> message \<Rightarrow> message \<Rightarrow> pystr list \<Rightarrow> bool" where
  "button_sibling_belongs_to_base unescape m sibling queries =
     (let t = strip (telegram_message_text sibling) in
      message_distance m sibling \<le> 2
      \<and> (t = [] \<or> nearby_link_text_matches unescape queries t \<or> matches_any queries t \<or> looks_like_button_prompt t))"

definition should_merge_sibling :: "(pystr \<Rightarrow> pystr) \<Rightarrow> message \<Rightarrow> message \<Rightarrow> bool \<Rightarrow> pystr list \<Rightarrow> bool" where
  "should_merge_sibling unescape m sibling base_matches_query queries =
     (let t = telegram_message_text sibling in
      tm_id sibling \<noteq> tm_id m
      \<and> (same_message_group m sibling
         \<or> nearby_link_text_matches unescape queries t
         \<or> base_matches_query \<and> message_distance m sibling = 1 \<and> extract_115_links unescape t \<noteq> []
           \<and> looks_like_link_only_message unescape t
         \<or> base_matches_query \<and> message_has_link_button_hint unescape sibling
           \<and> button_sibling_belongs_to_base unescape m sibling queries))"

definition context_candidates :: "(pystr \<Rightarrow> pystr) \<Rightarrow> message \<Rightarrow> message list \<Rightarrow> bool \<Rightarrow> pystr list \<Rightarrow> message list" where
  "context_candidates unescape m siblings base_has_link_or_button queries =
     (if \<not> base_has_link_or_button \<or> queries \<noteq> [] then []
      else filter (\<lambda>s. looks_like_context_message unescape (telegram_message_text s)
             \<and> 0 < message_distance m s \<and> message_distance m s \<le> 4) siblings)"

text \<open>What names a message in the sets of seen ones: its id, and its address without one\<close>

definition message_key :: "message \<Rightarrow> int" where
  "message_key m = (if tm_id m \<noteq> 0 then tm_id m else int (tm_addr m))"

definition collect_message :: "message \<Rightarrow> message list \<Rightarrow> message list" where
  "collect_message m ms = (if message_key m \<in> message_key ` set ms then ms else ms @ [m])"

definition neighbor_ids :: "message \<Rightarrow> int list" where
  "neighbor_ids m = [max 1 (tm_id m - 8)..tm_id m + 8]"

text \<open>
  The peers are asked in turn until one answers; \<open>get_messages\<close> is the client with its time limit.  No client is no peer, and the
  messages that do not exist are left out of its list.
\<close>

fun first_answer :: "('p \<Rightarrow> 'a list option) \<Rightarrow> 'p list \<Rightarrow> 'a list" where
  "first_answer get [] = []"
| "first_answer get (p # ps) = (case get p of Some answer \<Rightarrow> answer | None \<Rightarrow> first_answer get ps)"

definition neighbor_messages :: "'p list \<Rightarrow> ('p \<Rightarrow> int list \<Rightarrow> message list option) \<Rightarrow> message \<Rightarrow> message list" where
  "neighbor_messages peers get_messages m =
     (if tm_id m = 0 then [] else first_answer (\<lambda>p. get_messages p (neighbor_ids m)) peers)"

definition related_messages_for_link_scan :: "(pystr \<Rightarrow> pystr) \<Rightarrow> message \<Rightarrow> message list \<Rightarrow> pystr list \<Rightarrow> message list" where
  "related_messages_for_link_scan unescape m siblings queries =
     (let t = telegram_message_text m;
          base_matches = matches_any queries t;
          has_link = extract_115_links unescape t \<noteq> [] \<or> message_has_link_button_hint unescape m;
          contexts = take 2 (sort_key (message_distance m) (context_candidates unescape m siblings has_link queries));
          merged = filter (\<lambda>s. should_merge_sibling unescape m s base_matches queries) siblings
      in if siblings = [] then [m] else fold collect_message (m # merged @ contexts) [])"

section \<open>The text a link is judged by\<close>

definition ordered_messages :: "message list \<Rightarrow> message list" where
  "ordered_messages messages = sort_key (\<lambda>m. (tm_id m, tm_addr m)) (fold collect_message messages [])"

text \<open>Texts, stripped, in order, each once\<close>

definition combined_text :: "pystr list \<Rightarrow> pystr" where
  "combined_text texts = join [10] (fold add_text_part texts [])"

definition split_title_extras :: "(pystr \<Rightarrow> pystr) \<Rightarrow> pystr list \<Rightarrow> pystr list \<times> pystr list" where
  "split_title_extras unescape extras =
     (let values = filter (\<lambda>v. v \<noteq> []) (map strip extras);
          is_title = (\<lambda>v. \<not> (extract_115_links unescape v \<noteq> [] \<and> looks_like_link_only_message unescape v)
                       \<and> (looks_like_context_message unescape v \<or> extract_115_links unescape v = []))
      in (filter is_title values, filter (\<lambda>v. \<not> is_title v) values))"

definition same_group_as :: "message \<Rightarrow> message \<Rightarrow> bool" where
  "same_group_as anchor m \<longleftrightarrow> tm_group anchor \<noteq> [] \<and> tm_group m = tm_group anchor"

definition previous_link_message_id :: "(pystr \<Rightarrow> pystr) \<Rightarrow> message \<Rightarrow> message list \<Rightarrow> int" where
  "previous_link_message_id unescape anchor messages =
     fold (\<lambda>m previous.
         if tm_id m = 0 \<or> tm_id anchor \<le> tm_id m then previous
         else if \<not> same_group_as anchor m \<and> extract_115_links unescape (telegram_message_text m) \<noteq> [] then tm_id m else previous)
       (ordered_messages messages) 0"

definition belongs_to_anchor :: "(pystr \<Rightarrow> pystr) \<Rightarrow> message \<Rightarrow> int \<Rightarrow> message \<Rightarrow> bool" where
  "belongs_to_anchor unescape anchor previous_link_id m =
     (let t = telegram_message_text m; same_group = same_group_as anchor m in
      tm_addr m \<noteq> tm_addr anchor \<and> t \<noteq> []
      \<and> (same_group \<or> message_distance m anchor \<le> 4)
      \<and> \<not> (previous_link_id \<noteq> 0 \<and> tm_id m \<le> previous_link_id)
      \<and> (extract_115_links unescape t = [] \<or> same_group)
      \<and> (same_group \<or> looks_like_context_message unescape t \<or> length t \<le> 160))"

definition is_before :: "message \<Rightarrow> message \<Rightarrow> bool" where
  "is_before anchor m \<longleftrightarrow> tm_id m \<noteq> 0 \<and> tm_id anchor \<noteq> 0 \<and> tm_id m < tm_id anchor"

definition last_three :: "'a list \<Rightarrow> 'a list" where
  "last_three xs = drop (length xs - 3) xs"

definition telegram_candidate_context_text :: "(pystr \<Rightarrow> pystr) \<Rightarrow> message \<Rightarrow> message list \<Rightarrow> pystr list \<Rightarrow> pystr" where
  "telegram_candidate_context_text unescape anchor messages extras =
     (let anchor_text = telegram_message_text anchor;
          has_link = extract_115_links unescape anchor_text \<noteq> [];
          previous = (if has_link then previous_link_message_id unescape anchor messages else 0);
          near = filter (belongs_to_anchor unescape anchor previous) (ordered_messages messages);
          before = map telegram_message_text (filter (is_before anchor) near);
          after = map telegram_message_text (filter (\<lambda>m. \<not> is_before anchor m \<and> (same_group_as anchor m \<or> \<not> has_link)) near)
      in case split_title_extras unescape extras of
           (titles, others) \<Rightarrow> combined_text (titles @ last_three before @ [anchor_text] @ take 2 after @ others))"

type_synonym contexts = "(pystr \<times> pystr) list"

text \<open>\<open>contexts.setdefault(link, context)\<close>\<close>

definition set_default :: "pystr \<Rightarrow> pystr \<Rightarrow> contexts \<Rightarrow> contexts" where
  "set_default link context contexts = (if link \<in> fst ` set contexts then contexts else contexts @ [(link, context)])"

definition merge_link_contexts :: "(pystr \<Rightarrow> pystr) \<Rightarrow> pystr \<Rightarrow> contexts \<Rightarrow> contexts" where
  "merge_link_contexts unescape t contexts =
     fold (\<lambda>link. set_default link (context_for_ed2k_link t link)) (extract_ed2k_links unescape t)
       (fold (\<lambda>link. set_default link (context_for_115_link t link)) (extract_115_links unescape t) contexts)"

definition no_spaces :: "pystr \<Rightarrow> pystr" where
  "no_spaces t = filter (\<lambda>c. \<not> is_space c) t"

definition title_blob_in_context :: "pystr \<Rightarrow> pystr \<Rightarrow> bool" where
  "title_blob_in_context context title \<longleftrightarrow>
     no_spaces title \<noteq> []
     \<and> (contains (take 12 (no_spaces title)) (no_spaces context) \<or> contains (take 12 (no_spaces context)) (no_spaces title))"

definition is_ed2k :: "pystr \<Rightarrow> bool" where
  "is_ed2k link = starts_with (u ''ed2k://'') (casefold link)"

definition context_for_link :: "pystr \<Rightarrow> pystr \<Rightarrow> pystr" where
  "context_for_link t link = (if is_ed2k link then context_for_ed2k_link t link else context_for_115_link t link)"

definition title_first_context_block :: "(pystr \<Rightarrow> pystr) \<Rightarrow> contexts \<Rightarrow> pystr list \<Rightarrow> contexts option" where
  "title_first_context_block unescape contexts extras =
     (let titles = fst (split_title_extras unescape extras) in
      if titles = [] \<or> contexts = [] then None
      else Some (map (\<lambda>(link, context).
          let combined = combined_text (titles @ [context]) in
          (link, if list_ex (title_blob_in_context context) titles then context
                 else or_str (context_for_link combined link) combined)) contexts))"

definition has_links :: "(pystr \<Rightarrow> pystr) \<Rightarrow> pystr \<Rightarrow> bool" where
  "has_links unescape t \<longleftrightarrow> extract_115_links unescape t \<noteq> [] \<or> extract_ed2k_links unescape t \<noteq> []"

definition telegram_candidate_link_contexts :: "(pystr \<Rightarrow> pystr) \<Rightarrow> message list \<Rightarrow> pystr list \<Rightarrow> contexts" where
  "telegram_candidate_link_contexts unescape messages extras =
     (let ordered = ordered_messages messages;
          own = fold (\<lambda>m contexts.
              if has_links unescape (telegram_message_text m)
              then merge_link_contexts unescape (telegram_candidate_context_text unescape m ordered extras) contexts
              else contexts) ordered [];
          extra_block = join [10] (filter (\<lambda>t. t \<noteq> []) extras);
          contexts = (if has_links unescape extra_block
                      then merge_link_contexts unescape
                             (if messages = [] then extra_block else telegram_candidate_context_text unescape (hd messages) ordered extras) own
                      else own)
      in if contexts \<noteq> []
         then (case title_first_context_block unescape contexts extras of Some block \<Rightarrow> block | None \<Rightarrow> contexts)
         else merge_link_contexts unescape (combined_text (map telegram_message_text ordered @ extras)) [])"

section \<open>Texts\<close>

definition parts_ok :: "pystr list \<Rightarrow> bool" where
  "parts_ok parts \<longleftrightarrow> distinct parts \<and> [] \<notin> set parts"

lemma parts_ok_add: "parts_ok parts \<Longrightarrow> parts_ok (add_text_part v parts)"
  by (auto simp: parts_ok_def add_text_part_def Let_def)

lemma fold_maintains: "(\<And>x a. x \<in> set xs \<Longrightarrow> P a \<Longrightarrow> P (f x a)) \<Longrightarrow> P a \<Longrightarrow> P (fold f xs a)"
  by (induction xs arbitrary: a) auto

lemma parts_ok_fold: "parts_ok parts \<Longrightarrow> parts_ok (fold add_text_part vs parts)"
  by (rule fold_maintains) (simp_all add: parts_ok_add)

lemma parts_ok_collect: "parts_ok parts \<Longrightarrow> parts_ok (collect_dict_texts depth v parts)"
proof (induction depth v parts rule: collect_dict_texts.induct)
  case (2 depth v parts)
  show ?case
  proof (cases v)
    case (PDict items)
    have "parts_ok (fold (\<lambda>(key, item) parts.
        if casefold key \<in> set TEXT_KEYS \<or> is_container item then collect_dict_texts depth item parts else parts) items parts)"
      by (rule fold_maintains) (use 2(2) [OF PDict] 2(3) in \<open>auto split: prod.splits\<close>)
    then show ?thesis by (simp add: PDict)
  next
    case (PList items)
    have "parts_ok (fold (collect_dict_texts depth) items parts)"
      by (rule fold_maintains) (use 2(1) [OF PList] 2(3) in auto)
    then show ?thesis by (simp add: PList)
  qed (simp_all add: 2(3) parts_ok_add)
qed simp

lemma text_parts_ok: "parts_ok (text_parts m)"
proof -
  have "parts_ok []" by (simp add: parts_ok_def)
  then show ?thesis
    by (cases "tm_dict m") (simp_all add: text_parts_def Let_def parts_ok_fold parts_ok_collect del: collect_dict_texts.simps)
qed

lemma fold_add_text_part:
  "set (fold add_text_part vs parts) = set parts \<union> (strip ` set vs - {[]})"
  by (induction vs arbitrary: parts) (auto simp: add_text_part_def Let_def)

lemma combined_text_parts:
  "\<exists>parts. combined_text ts = join [10] parts \<and> distinct parts \<and> set parts = strip ` set ts - {[]}"
  using parts_ok_fold [of "[]" ts] fold_add_text_part [of ts "[]"] by (auto simp: combined_text_def parts_ok_def)

section \<open>Related messages\<close>

lemma fold_collect:
  "distinct (map message_key acc) \<Longrightarrow> distinct (map message_key (fold collect_message ms acc))"
  "\<exists>more. fold collect_message ms acc = acc @ more \<and> set more \<subseteq> set ms"
  "message_key ` set (fold collect_message ms acc) = message_key ` (set acc \<union> set ms)"
proof -
  show "distinct (map message_key acc) \<Longrightarrow> distinct (map message_key (fold collect_message ms acc))"
    by (induction ms arbitrary: acc) (auto simp: collect_message_def)
  show "\<exists>more. fold collect_message ms acc = acc @ more \<and> set more \<subseteq> set ms"
  proof (induction ms arbitrary: acc)
    case (Cons m ms)
    obtain more where more: "fold collect_message ms (collect_message m acc) = collect_message m acc @ more" "set more \<subseteq> set ms"
      using Cons by blast
    moreover have "\<exists>own. collect_message m acc = acc @ own \<and> set own \<subseteq> {m}" by (auto simp: collect_message_def)
    then obtain own where "collect_message m acc = acc @ own" "set own \<subseteq> {m}" by blast
    ultimately have "fold collect_message (m # ms) acc = acc @ (own @ more)" "set (own @ more) \<subseteq> set (m # ms)" by auto
    then show ?case by blast
  qed simp
  show "message_key ` set (fold collect_message ms acc) = message_key ` (set acc \<union> set ms)"
    by (induction ms arbitrary: acc) (auto simp: collect_message_def)
qed

lemma related_messages:
  fixes unescape m siblings queries
  defines "related \<equiv> related_messages_for_link_scan unescape m siblings queries"
  shows "related \<noteq> []" "hd related = m" "distinct (map message_key related)" "set related \<subseteq> insert m (set siblings)"
proof -
  let ?merged = "filter (\<lambda>s. should_merge_sibling unescape m s (matches_any queries (telegram_message_text m)) queries) siblings"
  let ?contexts = "take 2 (sort_key (message_distance m) (context_candidates unescape m siblings
    (extract_115_links unescape (telegram_message_text m) \<noteq> [] \<or> message_has_link_button_hint unescape m) queries))"
  have contexts: "set ?contexts \<subseteq> set siblings"
  proof -
    have "set ?contexts \<subseteq> set (sort_key (message_distance m) (context_candidates unescape m siblings
      (extract_115_links unescape (telegram_message_text m) \<noteq> [] \<or> message_has_link_button_hint unescape m) queries))"
      by (rule set_take_subset)
    then show ?thesis by (auto simp: context_candidates_def)
  qed
  obtain more where more: "fold collect_message (?merged @ ?contexts) [m] = [m] @ more" "set more \<subseteq> set (?merged @ ?contexts)"
    using fold_collect(2) by blast
  have related: "related = (if siblings = [] then [m] else [m] @ more)"
    using more(1) unfolding related_def related_messages_for_link_scan_def Let_def by (simp add: collect_message_def)
  have "distinct (map message_key ([m] @ more))"
    using fold_collect(1) [of "[m]" "?merged @ ?contexts"] more(1) by simp
  then show "related \<noteq> []" "hd related = m" "distinct (map message_key related)" "set related \<subseteq> insert m (set siblings)"
    using related more(2) contexts by auto
qed

text \<open>A sibling with another id that is merged without being of the group has a share of its own or a button next to a matching message.\<close>

lemma merged_sibling:
  assumes "should_merge_sibling unescape m sibling base_matches queries" "\<not> same_message_group m sibling" "queries \<noteq> []"
  shows "nearby_link_text_matches unescape queries (telegram_message_text sibling)
       \<or> base_matches \<and> message_distance m sibling \<le> 2"
  using assms by (auto simp: should_merge_sibling_def Let_def button_sibling_belongs_to_base_def)

section \<open>Contexts\<close>

lemma ordered_messages_set: "set (ordered_messages messages) \<subseteq> set messages" "distinct (map message_key (ordered_messages messages))"
proof -
  obtain more where "fold collect_message messages [] = [] @ more" "set more \<subseteq> set messages" using fold_collect(2) by blast
  then show "set (ordered_messages messages) \<subseteq> set messages" by (simp add: ordered_messages_def)
  have "distinct (map message_key (fold collect_message messages []))" by (rule fold_collect(1)) simp
  then show "distinct (map message_key (ordered_messages messages))" by (simp add: ordered_messages_def distinct_map)
qed

text \<open>
  The context of a message holds, beside its own text and the texts of the caller, only texts of its group or of messages
  without a share, at most four ids away.
\<close>

definition context_neighbour :: "(pystr \<Rightarrow> pystr) \<Rightarrow> message \<Rightarrow> message \<Rightarrow> bool" where
  "context_neighbour unescape anchor m \<longleftrightarrow>
     same_group_as anchor m \<or> message_distance m anchor \<le> 4 \<and> extract_115_links unescape (telegram_message_text m) = []"

lemma belongs_neighbour: "belongs_to_anchor unescape anchor previous m \<Longrightarrow> context_neighbour unescape anchor m"
  by (auto simp: belongs_to_anchor_def context_neighbour_def Let_def)

lemma title_extras_stripped:
  "split_title_extras unescape extras = (titles, others) \<Longrightarrow> set titles \<union> set others \<subseteq> strip ` set extras"
  by (auto simp: split_title_extras_def Let_def)

lemma union_below: "A \<subseteq> X \<Longrightarrow> B \<subseteq> Y \<Longrightarrow> Y \<subseteq> Z \<Longrightarrow> A \<union> B \<union> C \<subseteq> C \<union> X \<union> Z"
  by blast

lemma candidate_context_parts:
  "\<exists>parts. telegram_candidate_context_text unescape anchor messages extras = join [10] parts \<and> distinct parts
     \<and> set parts \<subseteq> {strip (telegram_message_text anchor)} \<union> strip ` strip ` set extras
         \<union> {strip (telegram_message_text m) |m. m \<in> set messages \<and> context_neighbour unescape anchor m}"
proof -
  obtain titles others where split: "split_title_extras unescape extras = (titles, others)" by fastforce
  define previous where "previous =
    (if extract_115_links unescape (telegram_message_text anchor) \<noteq> [] then previous_link_message_id unescape anchor messages else 0)"
  define near where "near = filter (belongs_to_anchor unescape anchor previous) (ordered_messages messages)"
  define before where "before = map telegram_message_text (filter (is_before anchor) near)"
  define after where "after = map telegram_message_text (filter (\<lambda>m. \<not> is_before anchor m
    \<and> (same_group_as anchor m \<or> \<not> extract_115_links unescape (telegram_message_text anchor) \<noteq> [])) near)"
  let ?ts = "titles @ last_three before @ [telegram_message_text anchor] @ take 2 after @ others"
  have "telegram_candidate_context_text unescape anchor messages extras = combined_text ?ts"
    unfolding telegram_candidate_context_text_def Let_def split by (simp add: previous_def near_def before_def after_def)
  have near: "m \<in> set messages \<and> context_neighbour unescape anchor m" if "m \<in> set near" for m
    using that ordered_messages_set belongs_neighbour by (auto simp: near_def)
  have close: "set (last_three before) \<union> set (take 2 after) \<subseteq> telegram_message_text ` set near"
    by (auto simp: before_def after_def last_three_def dest!: in_set_dropD in_set_takeD)
  have near_in: "strip ` telegram_message_text ` set near
      \<subseteq> {strip (telegram_message_text m) |m. m \<in> set messages \<and> context_neighbour unescape anchor m}"
    using near by blast
  have all: "set ?ts = (set titles \<union> set others) \<union> (set (last_three before) \<union> set (take 2 after)) \<union> {telegram_message_text anchor}"
    by auto
  have "strip ` set ?ts = strip ` (set titles \<union> set others) \<union> strip ` (set (last_three before) \<union> set (take 2 after))
      \<union> {strip (telegram_message_text anchor)}"
    unfolding all by (simp only: image_Un image_insert image_empty)
  also have "\<dots> \<subseteq> {strip (telegram_message_text anchor)} \<union> strip ` strip ` set extras
      \<union> {strip (telegram_message_text m) |m. m \<in> set messages \<and> context_neighbour unescape anchor m}"
    by (rule union_below [OF image_mono [OF title_extras_stripped [OF split]] image_mono [OF close] near_in])
  finally have "strip ` set ?ts \<subseteq> {strip (telegram_message_text anchor)} \<union> strip ` strip ` set extras
      \<union> {strip (telegram_message_text m) |m. m \<in> set messages \<and> context_neighbour unescape anchor m}" .
  moreover obtain parts where "combined_text ?ts = join [10] parts" "distinct parts" "set parts = strip ` set ?ts - {[]}"
    using combined_text_parts [of ?ts] by blast
  ultimately have "telegram_candidate_context_text unescape anchor messages extras = join [10] parts" "distinct parts"
    "set parts \<subseteq> {strip (telegram_message_text anchor)} \<union> strip ` strip ` set extras
      \<union> {strip (telegram_message_text m) |m. m \<in> set messages \<and> context_neighbour unescape anchor m}"
    using \<open>telegram_candidate_context_text unescape anchor messages extras = combined_text ?ts\<close> by (simp_all only:) blast
  then show ?thesis by blast
qed

lemma set_default_keys: "fst ` set (set_default link c contexts) = insert link (fst ` set contexts)"
  "distinct (map fst contexts) \<Longrightarrow> distinct (map fst (set_default link c contexts))"
  by (auto simp: set_default_def)

lemma fold_set_default:
  "fst ` set (fold (\<lambda>link. set_default link (f link)) links contexts) = fst ` set contexts \<union> set links"
  "distinct (map fst contexts) \<Longrightarrow> distinct (map fst (fold (\<lambda>link. set_default link (f link)) links contexts))"
  by (induction links arbitrary: contexts) (auto simp: set_default_keys)

lemma merge_link_contexts_keys:
  "fst ` set (merge_link_contexts unescape t contexts)
     = fst ` set contexts \<union> set (extract_115_links unescape t) \<union> set (extract_ed2k_links unescape t)"
  "distinct (map fst contexts) \<Longrightarrow> distinct (map fst (merge_link_contexts unescape t contexts))"
  by (simp_all add: merge_link_contexts_def fold_set_default)

definition link_in :: "(pystr \<Rightarrow> pystr) \<Rightarrow> pystr \<Rightarrow> pystr \<Rightarrow> bool" where
  "link_in unescape t link \<longleftrightarrow> link \<in> set (extract_115_links unescape t) \<union> set (extract_ed2k_links unescape t)"

definition contexts_from :: "(pystr \<Rightarrow> pystr) \<Rightarrow> pystr set \<Rightarrow> contexts \<Rightarrow> bool" where
  "contexts_from unescape ts contexts \<longleftrightarrow>
     distinct (map fst contexts) \<and> (\<forall>link \<in> fst ` set contexts. \<exists>t \<in> ts. link_in unescape t link)"

lemma contexts_from_keys: "map fst a = map fst b \<Longrightarrow> contexts_from unescape ts a = contexts_from unescape ts b"
  by (simp only: contexts_from_def image_set)

lemma contexts_from_merge: "t \<in> ts \<Longrightarrow> contexts_from unescape ts contexts \<Longrightarrow> contexts_from unescape ts (merge_link_contexts unescape t contexts)"
  by (auto simp: contexts_from_def merge_link_contexts_keys link_in_def)

lemma title_first_keys: "title_first_context_block unescape contexts extras = Some block \<Longrightarrow> map fst block = map fst contexts"
  by (auto simp: title_first_context_block_def Let_def case_prod_unfold comp_def split: if_splits)

text \<open>Each link is named once, and stands in the context of one of the messages, in the texts of the caller or in all texts together.\<close>

lemma message_candidate_links:
  fixes unescape messages extras
  defines "blocks \<equiv> {telegram_candidate_context_text unescape m (ordered_messages messages) extras |m. m \<in> set messages}
    \<union> {join [10] (filter (\<lambda>t. t \<noteq> []) extras), combined_text (map telegram_message_text (ordered_messages messages) @ extras)}"
  shows "contexts_from unescape blocks (telegram_candidate_link_contexts unescape messages extras)"
proof -
  let ?ordered = "ordered_messages messages"
  define own where "own = fold (\<lambda>m contexts.
      if has_links unescape (telegram_message_text m)
      then merge_link_contexts unescape (telegram_candidate_context_text unescape m ?ordered extras) contexts
      else contexts) ?ordered []"
  let ?block = "join [10] (filter (\<lambda>t. t \<noteq> []) extras)"
  define all where "all = (if has_links unescape ?block
    then merge_link_contexts unescape (if messages = [] then ?block else telegram_candidate_context_text unescape (hd messages) ?ordered extras) own
    else own)"
  have start: "contexts_from unescape blocks []" by (simp add: contexts_from_def)
  have "telegram_candidate_context_text unescape m ?ordered extras \<in> blocks" if "m \<in> set ?ordered" for m
    using that ordered_messages_set(1) [of messages] unfolding blocks_def by blast
  then have "contexts_from unescape blocks own" unfolding own_def
    by (intro fold_maintains [where P = "contexts_from unescape blocks"] start) (metis contexts_from_merge)
  moreover have "(if messages = [] then ?block else telegram_candidate_context_text unescape (hd messages) ?ordered extras) \<in> blocks"
    unfolding blocks_def using list.set_sel(1) [of messages] by auto
  ultimately have all_ok: "contexts_from unescape blocks all"
    unfolding all_def using contexts_from_merge by presburger
  have shape: "telegram_candidate_link_contexts unescape messages extras =
    (if all \<noteq> [] then (case title_first_context_block unescape all extras of Some block \<Rightarrow> block | None \<Rightarrow> all)
     else merge_link_contexts unescape (combined_text (map telegram_message_text ?ordered @ extras)) [])"
    unfolding telegram_candidate_link_contexts_def Let_def own_def all_def by (rule refl)
  show ?thesis
  proof (cases "all = []")
    case True
    then show ?thesis using contexts_from_merge [OF _ start] by (auto simp: shape blocks_def)
  next
    case False
    show ?thesis
    proof (cases "title_first_context_block unescape all extras")
      case (Some block)
      then have "contexts_from unescape blocks block = contexts_from unescape blocks all" by (intro contexts_from_keys title_first_keys)
      then show ?thesis using all_ok Some False by (simp only: shape option.case) simp
    qed (use all_ok False in \<open>simp add: shape\<close>)
  qed
qed

end
