(* ===== verification/Telegram_Caches.thy ===== *)
theory Telegram_Caches
  imports Telegram_State "HOL-Library.Product_Lexorder"
begin

text \<open>
  \<open>scan/extract_cache.py\<close>: the links of a message and of a page are kept in the process; the least recently used go first.
  The clock is read once for each call.
  Shown: a cache keeps its size; an entry is served until it expires, which makes the cache one of \<open>expiring_cache\<close>; an entry that was just
  used outlives as many other stores as the cache has places beside its own.
\<close>

section \<open>Least recently used\<close>

text \<open>The front of the list is the entry that was not used for the longest time.\<close>

record 'v ttl_cache =
  tc_max :: nat
  tc_ttl :: time
  tc_items :: "(pystr \<times> 'v \<times> time) list"
  tc_hits :: nat
  tc_misses :: nat

definition new_ttl_cache :: "nat \<Rightarrow> time \<Rightarrow> 'v ttl_cache" where
  "new_ttl_cache max_size ttl_seconds =
     \<lparr>tc_max = max 1 max_size, tc_ttl = max 1 ttl_seconds, tc_items = [], tc_hits = 0, tc_misses = 0\<rparr>"

definition ttl_get :: "time \<Rightarrow> pystr \<Rightarrow> 'v ttl_cache \<Rightarrow> 'v option \<times> 'v ttl_cache" where
  "ttl_get now key c =
     (case map_of (tc_items c) key of
        None \<Rightarrow> (None, c\<lparr>tc_misses := tc_misses c + 1\<rparr>)
      | Some (v, expires_at) \<Rightarrow>
          if expires_at \<le> now then (None, c\<lparr>tc_items := dict_pop key (tc_items c), tc_misses := tc_misses c + 1\<rparr>)
          else (Some v, c\<lparr>tc_items := dict_pop key (tc_items c) @ [(key, v, expires_at)], tc_hits := tc_hits c + 1\<rparr>))"

definition ttl_set :: "time \<Rightarrow> pystr \<Rightarrow> 'v \<Rightarrow> 'v ttl_cache \<Rightarrow> 'v ttl_cache" where
  "ttl_set now key v c =
     (let items = dict_pop key (tc_items c) @ [(key, v, now + tc_ttl c)] in
      c\<lparr>tc_items := drop (length items - tc_max c) items\<rparr>)"

definition ttl_clear :: "'v ttl_cache \<Rightarrow> 'v ttl_cache" where
  "ttl_clear c = c\<lparr>tc_items := [], tc_hits := 0, tc_misses := 0\<rparr>"

definition ttl_stats :: "'v ttl_cache \<Rightarrow> nat \<times> nat \<times> nat" where
  "ttl_stats c = (tc_hits c, tc_misses c, length (tc_items c))"

definition message_extracts :: "search_result list ttl_cache" where
  "message_extracts = new_ttl_cache 512 900"

definition external_pages :: "pystr list ttl_cache" where
  "external_pages = new_ttl_cache 256 1800"

definition message_extract_cache_key :: "pystr \<Rightarrow> int \<Rightarrow> pystr" where
  "message_extract_cache_key source message_id = source @ [58] @ int_str message_id"

definition get_cached_message_extract ::
    "time \<Rightarrow> pystr \<Rightarrow> int \<Rightarrow> search_result list ttl_cache \<Rightarrow> search_result list option \<times> search_result list ttl_cache" where
  "get_cached_message_extract now source message_id c =
     (if message_id = 0 then (None, c) else ttl_get now (message_extract_cache_key source message_id) c)"

definition set_cached_message_extract ::
    "time \<Rightarrow> pystr \<Rightarrow> int \<Rightarrow> search_result list \<Rightarrow> search_result list ttl_cache \<Rightarrow> search_result list ttl_cache" where
  "set_cached_message_extract now source message_id results c =
     (if message_id = 0 then c else ttl_set now (message_extract_cache_key source message_id) results c)"

definition get_cached_external_page_links :: "time \<Rightarrow> pystr \<Rightarrow> pystr list ttl_cache \<Rightarrow> pystr list option \<times> pystr list ttl_cache" where
  "get_cached_external_page_links now page_url c = ttl_get now page_url c"

definition set_cached_external_page_links :: "time \<Rightarrow> pystr \<Rightarrow> pystr list \<Rightarrow> pystr list ttl_cache \<Rightarrow> pystr list ttl_cache" where
  "set_cached_external_page_links now page_url links c = (if page_url = [] then c else ttl_set now page_url links c)"

definition ttl_ok :: "'v ttl_cache \<Rightarrow> bool" where
  "ttl_ok c \<longleftrightarrow> distinct (map fst (tc_items c)) \<and> length (tc_items c) \<le> tc_max c \<and> 0 < tc_max c"

lemma pop_keys [simp]: "map fst (dict_pop k d) = filter (\<lambda>x. x \<noteq> k) (map fst d)"
  by (induction d) auto

lemma pop_length_new: "k \<notin> fst ` set d \<Longrightarrow> dict_pop k d = d"
  by (induction d) auto

lemma pop_length_old: "k \<in> fst ` set d \<Longrightarrow> length (dict_pop k d) < length d"
  by (induction d) (auto intro: le_imp_less_Suc length_delete_le)

lemma new_cache_ok: "ttl_ok (new_ttl_cache n ttl)"
  by (simp add: ttl_ok_def new_ttl_cache_def)

lemma drop_distinct: "distinct (map f xs) \<Longrightarrow> distinct (map f (drop n xs))"
  by (simp add: drop_map [symmetric])

lemma tc_items_set: "tc_items (ttl_set now k v c) =
    (let items = dict_pop k (tc_items c) @ [(k, v, now + tc_ttl c)] in drop (length items - tc_max c) items)"
  "tc_max (ttl_set now k v c) = tc_max c" "tc_ttl (ttl_set now k v c) = tc_ttl c"
  by (simp_all add: ttl_set_def Let_def)

lemma ttl_set_ok: "ttl_ok c \<Longrightarrow> ttl_ok (ttl_set now key v c)"
proof -
  let ?items = "dict_pop key (tc_items c) @ [(key, v, now + tc_ttl c)]"
  assume ok: "ttl_ok c"
  then have "distinct (map fst ?items)" by (simp add: ttl_ok_def)
  then have "distinct (map fst (drop (length ?items - tc_max c) ?items))" by (rule drop_distinct)
  moreover have "length (drop (length ?items - tc_max c) ?items) \<le> tc_max c" by (simp del: drop_append)
  ultimately show ?thesis using ok unfolding ttl_ok_def tc_items_set Let_def by blast
qed

lemma ttl_get_ok: "ttl_ok c \<Longrightarrow> ttl_ok (snd (ttl_get now key c))"
proof -
  assume ok: "ttl_ok c"
  have in_keys: "key \<in> fst ` set (tc_items c)" if "map_of (tc_items c) key = Some p" for p
    using that by (force dest: map_of_SomeD)
  then show ?thesis
    using ok length_delete_le [of key "tc_items c"] pop_length_old [of key "tc_items c"]
    by (fastforce simp: ttl_ok_def ttl_get_def split: option.splits)
qed

lemma map_of_drop_front:
  assumes "distinct (map fst xs)" "k \<in> fst ` set (drop n xs)"
  shows "map_of (drop n xs) k = map_of xs k"
proof -
  have "k \<notin> fst ` set (take n xs)"
    using assms by (metis append_take_drop_id distinct_append disjoint_iff image_set map_append)
  then have none: "map_of (take n xs) k = None" by (simp add: map_of_eq_None_iff)
  have "map_of xs = map_of (take n xs @ drop n xs)" by simp
  also have "\<dots> = map_of (take n xs) ++ map_of (drop n xs)"
    using assms(1) map_of_append [of "take n xs" "drop n xs"] map_add_comm [of "map_of (take n xs)" "map_of (drop n xs)"]
      distinct_append [of "map fst (take n xs)" "map fst (drop n xs)"]
    by (metis append_take_drop_id dom_map_of_conv_image_fst image_set map_append)
  finally show ?thesis using none assms(2)
    by (metis map_add_Some_iff map_of_eq_None_iff not_None_eq)
qed

text \<open>Where there is room nothing but the key is touched.\<close>

interpretation lru: expiring_cache "\<lambda>t k c. fst (ttl_get t k c)" ttl_set "\<lambda>_. ttl" "\<lambda>v. v"
    "\<lambda>n c. distinct (map fst (tc_items c)) \<and> length (tc_items c) + n \<le> tc_max c \<and> tc_ttl c = ttl" for ttl
proof
  fix n t now k k' v and c :: "'v ttl_cache"
  let ?room = "\<lambda>n c. distinct (map fst (tc_items c)) \<and> length (tc_items c) + n \<le> tc_max c \<and> tc_ttl c = ttl"
  assume room: "?room (Suc n) c"
  have "length (dict_pop k (tc_items c)) \<le> length (tc_items c)" by (rule length_delete_le)
  then have set: "ttl_set now k v c = c\<lparr>tc_items := dict_pop k (tc_items c) @ [(k, v, now + ttl)]\<rparr>"
    using room by (simp add: ttl_set_def Let_def)
  have none: "map_of (dict_pop k (tc_items c)) k = None" by (simp add: delete_conv')
  show "t < now + ttl \<Longrightarrow> fst (ttl_get t k (ttl_set now k v c)) = Some v"
    using none by (simp add: set ttl_get_def map_add_def)
  show "k' \<noteq> k \<Longrightarrow> fst (ttl_get t k' (ttl_set now k v c)) = fst (ttl_get t k' c)"
    by (simp add: set ttl_get_def map_add_def delete_conv' split: option.split)
  show "now + ttl < t \<Longrightarrow> fst (ttl_get t k (ttl_set now k v c)) = None"
    using none by (simp add: set ttl_get_def map_add_def)
  show "?room n (ttl_set now k v c)"
    using room \<open>length (dict_pop k (tc_items c)) \<le> length (tc_items c)\<close> by (simp add: set)
qed

text \<open>How many entries were used after an entry\<close>

definition behind :: "pystr \<Rightarrow> (pystr \<times> 'a) list \<Rightarrow> nat" where
  "behind k items = length (takeWhile (\<lambda>x. x \<noteq> k) (rev (map fst items)))"

lemma behind_member: "behind k items < length items \<longleftrightarrow> k \<in> fst ` set items"
proof -
  have "length (takeWhile (\<lambda>x. x \<noteq> k) ys) < length ys \<longleftrightarrow> k \<in> set ys" for ys
    by (induction ys) auto
  from this [of "rev (map fst items)"] show ?thesis by (simp add: behind_def)
qed

lemma behind_pop: "x \<noteq> k \<Longrightarrow> behind k (dict_pop x items) \<le> behind k items"
proof -
  assume "x \<noteq> k"
  have "length (takeWhile (\<lambda>y. y \<noteq> k) (filter (\<lambda>y. y \<noteq> x) ys)) \<le> length (takeWhile (\<lambda>y. y \<noteq> k) ys)" for ys
    using \<open>x \<noteq> k\<close> by (induction ys) auto
  from this [of "rev (map fst items)"] show ?thesis by (simp add: behind_def rev_filter)
qed

lemma behind_snoc: "behind k (items @ [(x, v)]) = (if x = k then 0 else Suc (behind k items))"
  by (simp add: behind_def)

lemma behind_drop:
  assumes "behind k items < length items - n"
  shows "k \<in> fst ` set (drop n items)" "behind k (drop n items) = behind k items"
proof -
  have "takeWhile (\<lambda>x. x \<noteq> k) (take m ys) = takeWhile (\<lambda>x. x \<noteq> k) ys" if "length (takeWhile (\<lambda>x. x \<noteq> k) ys) < m" for m ys
    using that by (induction ys arbitrary: m) (auto simp: take_Cons' split: if_splits)
  moreover have "rev (map fst (drop n items)) = take (length items - n) (rev (map fst items))"
    by (simp add: drop_map rev_drop take_map rev_map)
  ultimately show "behind k (drop n items) = behind k items" using assms by (simp only: behind_def)
  then have "behind k (drop n items) < length (drop n items)" using assms by simp
  then show "k \<in> fst ` set (drop n items)" by (simp only: behind_member)
qed

lemma set_other_behind:
  assumes "ttl_ok c" "x \<noteq> k" "k \<in> fst ` set (tc_items c)" "Suc (behind k (tc_items c)) < tc_max c"
  shows "k \<in> fst ` set (tc_items (ttl_set now x v c))" "behind k (tc_items (ttl_set now x v c)) \<le> Suc (behind k (tc_items c))"
    "map_of (tc_items (ttl_set now x v c)) k = map_of (tc_items c) k"
proof -
  let ?items = "dict_pop x (tc_items c) @ [(x, v, now + tc_ttl c)]"
  let ?n = "length ?items - tc_max c"
  have b: "behind k ?items \<le> Suc (behind k (tc_items c))" using assms(2) behind_pop [of x k "tc_items c"] by (simp add: behind_snoc)
  have "k \<in> fst ` set (dict_pop x (tc_items c))" using assms(2,3) pop_keys [of x "tc_items c"] by (metis (mono_tags, lifting) filter_set list.set_map mem_Collect_eq set_filter)
  then have "behind k ?items < length ?items" using behind_member [of k ?items] by auto
  then have "behind k ?items < length ?items - ?n" using b assms(4) by linarith
  note d = behind_drop [OF this]
  have new: "tc_items (ttl_set now x v c) = drop ?n ?items" by (simp add: ttl_set_def Let_def)
  show "k \<in> fst ` set (tc_items (ttl_set now x v c))" "behind k (tc_items (ttl_set now x v c)) \<le> Suc (behind k (tc_items c))"
    unfolding new using d b by simp_all
  have "distinct (map fst ?items)" using assms(1) by (simp add: ttl_ok_def)
  then have "map_of (drop ?n ?items) k = map_of ?items k" using d(1) by (rule map_of_drop_front)
  also have "\<dots> = map_of (tc_items c) k" using assms(2) by (simp add: map_add_def delete_conv' split: option.split)
  finally show "map_of (tc_items (ttl_set now x v c)) k = map_of (tc_items c) k" by (simp add: new)
qed

lemma outlives:
  assumes "ttl_ok c" "\<forall>(s, x, w) \<in> set ws. x \<noteq> k" "k \<in> fst ` set (tc_items c)" "behind k (tc_items c) + length ws < tc_max c"
  shows "map_of (tc_items (fold (\<lambda>(s, x, w). ttl_set s x w) ws c)) k = map_of (tc_items c) k"
  using assms
proof (induction ws arbitrary: c)
  case (Cons y ws)
  obtain s x w where y: "y = (s, x, w)" by (cases y)
  have max: "tc_max (ttl_set s x w c) = tc_max c" by (simp add: ttl_set_def Let_def)
  have ne: "x \<noteq> k" using Cons.prems(2) by (simp add: y)
  note o = set_other_behind [OF Cons.prems(1) ne Cons.prems(3), of s w]
  have "map_of (tc_items (fold (\<lambda>(s, x, w). ttl_set s x w) ws (ttl_set s x w c))) k = map_of (tc_items (ttl_set s x w c)) k"
    using Cons.prems o ttl_set_ok [OF Cons.prems(1)] by (intro Cons.IH) (auto simp: max)
  then show ?case using o(3) Cons.prems(4) by (simp add: y)
qed simp

theorem used_entry_outlives:
  assumes "ttl_ok c" "\<forall>(s, x, w) \<in> set ws. x \<noteq> k" "length ws < tc_max c" "t < now + tc_ttl c"
  shows "fst (ttl_get t k (fold (\<lambda>(s, x, w). ttl_set s x w) ws (ttl_set now k v c))) = Some v"
proof -
  have max: "tc_max (ttl_set now k v c) = tc_max c" by (simp add: ttl_set_def Let_def)
  let ?items = "dict_pop k (tc_items c) @ [(k, v, now + tc_ttl c)]"
  have "behind k ?items = 0" by (simp add: behind_snoc)
  moreover have "length ?items - (length ?items - tc_max c) > 0" using assms(1) by (auto simp: ttl_ok_def)
  ultimately have "behind k ?items < length ?items - (length ?items - tc_max c)" by simp
  note d = behind_drop [OF this]
  have new: "tc_items (ttl_set now k v c) = drop (length ?items - tc_max c) ?items" by (simp add: ttl_set_def Let_def)
  have "distinct (map fst ?items)" using assms(1) by (simp add: ttl_ok_def)
  then have "map_of (drop (length ?items - tc_max c) ?items) k = map_of ?items k" using d(1) by (rule map_of_drop_front)
  then have "map_of (tc_items (ttl_set now k v c)) k = Some (v, now + tc_ttl c)"
    by (simp add: new map_add_def delete_conv')
  moreover have "map_of (tc_items (fold (\<lambda>(s, x, w). ttl_set s x w) ws (ttl_set now k v c))) k = map_of (tc_items (ttl_set now k v c)) k"
    by (rule outlives [OF ttl_set_ok [OF assms(1)] assms(2)]) (use d assms(3) \<open>behind k ?items = 0\<close> in \<open>simp_all add: new max\<close>)
  ultimately show ?thesis using assms(4) by (simp add: ttl_get_def)
qed

end
