(* ===== verification/Telegram_Links.thy ===== *)
theory Telegram_Links
  imports Telegram_Message Telegram_Caches
begin

text \<open>
  From a message to search results: the filter by query (\<open>scan/message_links_filter.py\<close>), pages and buttons that lead to shares
  (\<open>scan/button_links.py\<close>), the extraction with its cache (\<open>scan/message_links_extract.py\<close>, \<open>scan/message_links.py\<close>) and the
  quick variant (\<open>history/fast_message.py\<close>).  What a click, a page and the client answer are parameters.  The
  adapter inherits \<open>_filter_cached_results_by_query\<close> twice; the order of its base classes makes the one of the quick variant the
  one both extractions use, which returns all results when none fits.
  Shown: without the cache a share is returned only when the text it is judged by and its title fit a query; the cache returns
  nothing that was not extracted, and something whenever it holds something; at most three pages are fetched for one list
  and three buttons pressed for one message; a page that failed is not asked again while its entry lasts.
\<close>

section \<open>The filter by query\<close>

definition CONTEXT_TITLE_NOISE_RE :: re where
  [re_pats]: "CONTEXT_TITLE_NOISE_RE =
     alts (map lit_u [[0x5730, 0x533A], [0x56FD, 0x5BB6], [0x6807, 0x7B7E], [0x7B80, 0x4ECB], [0x4E3B, 0x6F14], [0x8BC4, 0x5206], [0x7C7B, 0x578B], [0x5206, 0x7C7B], [0x5927, 0x5C0F], [0x8D28, 0x91CF], [0x8BED, 0x8A00], [0x5B57, 0x5E55]]
       @ [tmdb_id_word] @ map lit_u [[0x94FE, 0x63A5], [0x63D0, 0x53D6, 0x7801], [0x8BBF, 0x95EE, 0x7801], [0x5BC6, 0x7801]])"

definition query_title_line :: "(pystr \<Rightarrow> pystr) \<Rightarrow> pystr list \<Rightarrow> pystr \<Rightarrow> pystr" where
  "query_title_line unescape queries context =
     (case List.find (\<lambda>value. value \<noteq> [] \<and> extract_115_links unescape value = [] \<and> \<not> metadata_field_line value
               \<and> \<not> re_found CONTEXT_TITLE_NOISE_RE value \<and> matches_any queries value) (map strip (splitlines context)) of
        Some value \<Rightarrow> take 160 value
      | None \<Rightarrow> [])"

definition restore_query_title_context :: "(pystr \<Rightarrow> pystr) \<Rightarrow> pystr list \<Rightarrow> pystr \<Rightarrow> pystr \<Rightarrow> pystr" where
  "restore_query_title_context unescape queries context scoped =
     (let title = query_title_line unescape queries context in
      if queries = [] \<or> matches_any queries scoped \<or> title = [] \<or> contains title scoped then scoped
      else strip (title @ [10] @ scoped))"

definition scoped_context :: "(pystr \<Rightarrow> pystr) \<Rightarrow> pystr list \<Rightarrow> pystr \<Rightarrow> pystr \<Rightarrow> pystr" where
  "scoped_context unescape queries link context =
     restore_query_title_context unescape queries context (or_str (context_for_link context link) context)"

definition title_fits :: "pystr list \<Rightarrow> pystr \<Rightarrow> bool" where
  "title_fits queries title \<longleftrightarrow> title = [] \<or> starts_with (u ''Telegram '') title \<or> matches_any queries title"

definition filter_link_contexts_by_query :: "(pystr \<Rightarrow> pystr) \<Rightarrow> pystr list \<Rightarrow> contexts \<Rightarrow> contexts" where
  "filter_link_contexts_by_query unescape queries contexts =
     (if queries = [] then contexts
      else filter (\<lambda>(link, scoped).
             is_ed2k link \<or> matches_any queries scoped \<and> title_fits queries (telegram_resource_title scoped))
           (map (\<lambda>(link, context). (link, scoped_context unescape queries link context)) contexts))"

definition search_results_from_contexts :: "message \<Rightarrow> pystr \<Rightarrow> contexts \<Rightarrow> search_result list" where
  "search_results_from_contexts m source contexts =
     map (\<lambda>(link, context). \<lparr>r_title = telegram_resource_title context, r_url = link, r_source = source,
            r_message_id = Some (int_str (tm_id m)), r_context = context, r_priority = 0\<rparr>) contexts"

text \<open>\<open>TelegramMessageLinkFilterMixin._filter_cached_results_by_query\<close>, which the adapter does not reach\<close>

definition filter_cached_results_strictly :: "(pystr \<Rightarrow> pystr) \<Rightarrow> search_result list \<Rightarrow> pystr list \<Rightarrow> search_result list" where
  "filter_cached_results_strictly unescape results queries =
     (if queries = [] then results
      else let contexts = fold (\<lambda>r. AList.update (r_url r) (or_str (r_context r) (r_title r))) results [];
               allowed = map fst (filter_link_contexts_by_query unescape queries contexts)
           in filter (\<lambda>r. r_url r \<in> set allowed) results)"

text \<open>\<open>TelegramFastMessageMixin._filter_cached_results_by_query\<close>\<close>

definition filter_cached_results_by_query :: "search_result list \<Rightarrow> pystr list \<Rightarrow> search_result list" where
  "filter_cached_results_by_query results queries =
     (if queries = [] then results
      else let filtered = filter (\<lambda>r. matches_any queries (or_str (r_context r) (r_title r))) results in
           if filtered = [] then results else filtered)"

definition result_key :: "search_result \<Rightarrow> pystr \<times> pystr option \<times> pystr" where
  "result_key r = (r_source r, r_message_id r, r_url r)"

definition dedupe_results :: "search_result list \<Rightarrow> search_result list" where
  "dedupe_results results = fold (\<lambda>r kept. if result_key r \<in> result_key ` set kept then kept else kept @ [r]) results []"

section \<open>Pages\<close>

definition TELEGRAM_EXTERNAL_PAGE_HOSTS :: "pystr list" where
  "TELEGRAM_EXTERNAL_PAGE_HOSTS =
     map u [''caiyun.139.com'', ''ctfile.com'', ''docs.qq.com'', ''drive.uc.cn'', ''feijipan.com'', ''flowus.cn'', ''kdocs.cn'',
       ''lanzouj.com'', ''lanzoui.com'', ''lanzoux.com'', ''lanzn.com'', ''pan.baidu.com'', ''pan.quark.cn'', ''pan.xunlei.com'',
       ''share.weiyun.com'', ''www.aliyundrive.com'', ''www.123pan.com'', ''123pan.com'', ''telegra.ph'']"

definition TELEGRAM_EXTERNAL_PAGE_MAX_FETCHES :: nat where "TELEGRAM_EXTERNAL_PAGE_MAX_FETCHES = 3"
definition TELEGRAM_BUTTON_CLICK_MAX_PER_MESSAGE :: nat where "TELEGRAM_BUTTON_CLICK_MAX_PER_MESSAGE = 3"
definition TELEGRAM_HISTORY_MAX_RESULTS :: nat where "TELEGRAM_HISTORY_MAX_RESULTS = 30"

definition without_www :: "pystr \<Rightarrow> pystr" where
  "without_www host = (if starts_with (u ''www.'') host then drop 4 host else host)"

definition page_host :: "pystr \<Rightarrow> pystr" where
  "page_host url = without_www (casefold (url_netloc (urlparse url)))"

definition external_resource_page_urls :: "(pystr \<Rightarrow> pystr) \<Rightarrow> pystr \<Rightarrow> pystr list" where
  "external_resource_page_urls unescape t =
     fold (add_link (\<lambda>l. l))
       (filter (\<lambda>url. extract_115_links unescape url = [] \<and> starts_with (u ''http'') (url_scheme (urlparse url))
                  \<and> page_host url \<in> set TELEGRAM_EXTERNAL_PAGE_HOSTS)
          (map (clean_download_link \<circ> m_text) (re_finditer HTTP_URL_RE (unescape t)))) []"

definition join_lines :: "pystr list \<Rightarrow> pystr" where
  "join_lines parts = join [10] (filter (\<lambda>p. p \<noteq> []) parts)"

type_synonym page_cache = "pystr list ttl_cache"
type_synonym labelled = "(pystr \<times> pystr) list" \<comment> \<open>what is handed to \<open>collect\<close>: a text and its label\<close>

text \<open>
  Which pages are fetched: not twice the same, not those in the cache, three at most.  The links of a cached page are
  shares, from which \<open>collect\<close> takes no further pages.
\<close>

fun plan_pages :: "time \<Rightarrow> labelled \<Rightarrow> pystr list \<Rightarrow> nat \<Rightarrow> page_cache \<Rightarrow> labelled \<times> labelled \<times> page_cache" where
  "plan_pages now [] seen fetched cache = ([], [], cache)"
| "plan_pages now ((page_url, label) # pages) seen fetched cache =
     (if page_url \<in> set seen then plan_pages now pages seen fetched cache
      else case get_cached_external_page_links now page_url cache of
          (Some links, cache') \<Rightarrow>
            (case plan_pages now pages (page_url # seen) fetched cache' of
               (collected, pending, cache'') \<Rightarrow>
                 (map (\<lambda>link. (link, join_lines [label, page_url])) links @ collected, pending, cache''))
        | (None, cache') \<Rightarrow>
            if TELEGRAM_EXTERNAL_PAGE_MAX_FETCHES \<le> fetched then plan_pages now pages (page_url # seen) fetched cache'
            else (case plan_pages now pages (page_url # seen) (Suc fetched) cache' of
                    (collected, pending, cache'') \<Rightarrow> (collected, (page_url, label) # pending, cache'')))"

text \<open>A page that was read is its text and the absolute addresses of its links.\<close>

type_synonym get_page = "pystr \<Rightarrow> (pystr \<times> pystr list) option"

definition page_values :: "pystr \<times> pystr list \<Rightarrow> pystr list" where
  "page_values page = [fst page, unquote (fst page)] @ concat (map (\<lambda>href. [href, unquote href]) (snd page))"

definition first_only :: "'a list \<Rightarrow> 'a list" where
  "first_only xs = rev (remdups (rev xs))"

definition collect_one_external_page ::
    "(pystr \<Rightarrow> pystr) \<Rightarrow> get_page \<Rightarrow> time \<Rightarrow> pystr \<times> pystr \<Rightarrow> labelled \<times> page_cache \<Rightarrow> labelled \<times> page_cache" where
  "collect_one_external_page unescape get_page now p st =
     (case (p, st) of
        ((page_url, label), (collected, cache)) \<Rightarrow>
          (case get_page page_url of
             None \<Rightarrow> (collected, set_cached_external_page_links now page_url [] cache)
           | Some page \<Rightarrow>
               (collected @ map (\<lambda>v. (v, join_lines [label, page_url])) (page_values page),
                set_cached_external_page_links now page_url
                  (first_only (concat (map (extract_115_links unescape) (page_values page)))) cache)))"

definition collect_external_page_links ::
    "(pystr \<Rightarrow> pystr) \<Rightarrow> get_page \<Rightarrow> time \<Rightarrow> labelled \<Rightarrow> page_cache \<Rightarrow> labelled \<times> page_cache" where
  "collect_external_page_links unescape get_page now pages cache =
     (case plan_pages now pages [] 0 cache of
        (collected, pending, cache') \<Rightarrow> fold (collect_one_external_page unescape get_page now) pending (collected, cache'))"

definition collect_page_text :: "(pystr \<Rightarrow> pystr) \<Rightarrow> pystr \<Rightarrow> pystr \<times> pystr \<Rightarrow> contexts \<Rightarrow> contexts" where
  "collect_page_text unescape message_text v contexts =
     (let context_source = join_lines [message_text, snd v, fst v] in
      fold (\<lambda>link. set_default link (context_for_ed2k_link context_source link)) (extract_ed2k_links unescape (fst v))
        (fold (\<lambda>link. set_default link (context_for_115_link context_source link)) (extract_115_links unescape (fst v)) contexts))"

definition collect_text_external_page_contexts ::
    "(pystr \<Rightarrow> pystr) \<Rightarrow> get_page \<Rightarrow> time \<Rightarrow> pystr \<Rightarrow> contexts \<Rightarrow> page_cache \<Rightarrow> contexts \<times> page_cache" where
  "collect_text_external_page_contexts unescape get_page now message_text contexts cache =
     (let known = fst ` set contexts \<union> set (extract_115_links unescape message_text) \<union> set (extract_ed2k_links unescape message_text);
          pages = map (\<lambda>url. (url, [0x6D88, 0x606F, 0x5916, 0x94FE]))
            (filter (\<lambda>url. url \<notin> known \<and> \<not> has_links unescape url) (external_resource_page_urls unescape message_text))
      in if pages = [] then (contexts, cache)
         else case collect_external_page_links unescape get_page now pages cache of
           (collected, cache') \<Rightarrow> (fold (collect_page_text unescape message_text) collected contexts, cache'))"

section \<open>Buttons\<close>

text \<open>The bytes of a button without data have no text by \<open>str\<close> either, since \<open>value or ''\<close> replaces them.\<close>

definition data_text :: "raw_data \<Rightarrow> pystr" where
  "data_text v = (case v of Text_data s \<Rightarrow> s | Byte_data s _ \<Rightarrow> s)"

definition data_str :: "raw_data \<Rightarrow> pystr" where
  "data_str v = (case v of Text_data s \<Rightarrow> s | Byte_data _ r \<Rightarrow> r)"

definition button_values :: "button \<Rightarrow> raw_data list" where
  "button_values b =
     [Text_data (bt_text b), Text_data (bt_url b)] @ (case bt_raw b of None \<Rightarrow> [] | Some (url, data) \<Rightarrow> [Text_data url, data])"

definition button_should_click :: "(pystr \<Rightarrow> pystr) \<Rightarrow> pystr list \<Rightarrow> bool" where
  "button_should_click unescape values =
     (let t = casefold (join [32] values) in
      extract_115_links unescape t = [] \<and> external_resource_page_urls unescape t = []
      \<and> list_ex (\<lambda>w. contains w t) TELEGRAM_LINK_BUTTON_WORDS)"

record button_scan =
  bs_links :: labelled
  bs_pages :: labelled
  bs_clicked :: nat

definition collect_button_text_links :: "(pystr \<Rightarrow> pystr) \<Rightarrow> pystr \<Rightarrow> pystr \<Rightarrow> button_scan \<Rightarrow> button_scan" where
  "collect_button_text_links unescape label value st =
     st\<lparr>bs_links := bs_links st @ map (\<lambda>link. (link, join_lines [label, value])) (extract_115_links unescape value),
        bs_pages := bs_pages st @ map (\<lambda>page_url. (page_url, label)) (external_resource_page_urls unescape value)\<rparr>"

text \<open>
  What a click brings, by row and column: nothing when it fails, else the url, the text and the message text of the answer, and the message
  read again, if that worked.
\<close>

type_synonym click = "nat \<times> nat \<Rightarrow> (pystr list \<times> message option) option"

definition process_message_button :: "(pystr \<Rightarrow> pystr) \<Rightarrow> click \<Rightarrow> nat \<times> nat \<Rightarrow> button \<Rightarrow> button_scan \<Rightarrow> button_scan" where
  "process_message_button unescape click position b st =
     (let collect = collect_button_text_links unescape (bt_text b);
          st1 = fold (\<lambda>v. collect (data_text v)) (button_values b) st
      in if \<not> button_should_click unescape (map data_str (button_values b)) then st1
         else let st2 = st1\<lparr>bs_clicked := Suc (bs_clicked st1)\<rparr> in
           (case click position of
              None \<Rightarrow> st2
            | Some (response, refreshed) \<Rightarrow>
                (let st3 = fold collect response st2 in
                 case refreshed of
                   None \<Rightarrow> st3
                 | Some m \<Rightarrow> fold collect (telegram_message_text m # message_button_values m) st3)))"

definition positioned :: "button list list \<Rightarrow> ((nat \<times> nat) \<times> button) list" where
  "positioned rows = concat (map (\<lambda>(i, row). map (\<lambda>(j, b). ((i, j), b)) (zip [0..<length row] row)) (zip [0..<length rows] rows))"

text \<open>After the limit a row is left, and the rows below are left at their first button.\<close>

definition scan_message_buttons :: "(pystr \<Rightarrow> pystr) \<Rightarrow> click \<Rightarrow> message \<Rightarrow> button_scan \<Rightarrow> button_scan" where
  "scan_message_buttons unescape click m st =
     fold (\<lambda>(position, b) st.
         if TELEGRAM_BUTTON_CLICK_MAX_PER_MESSAGE \<le> bs_clicked st \<or> TELEGRAM_HISTORY_MAX_RESULTS \<le> length (bs_links st) then st
         else process_message_button unescape click position b st) (positioned (tm_buttons m)) st"

definition dedupe_link_pairs :: "labelled \<Rightarrow> labelled" where
  "dedupe_link_pairs links = fold (\<lambda>(link, t) kept. if link \<in> fst ` set kept then kept else kept @ [(link, t)]) links []"

definition click_buttons_for_links ::
    "(pystr \<Rightarrow> pystr) \<Rightarrow> click \<Rightarrow> get_page \<Rightarrow> time \<Rightarrow> message \<Rightarrow> page_cache \<Rightarrow> labelled \<times> page_cache" where
  "click_buttons_for_links unescape click get_page now m cache =
     (let st = scan_message_buttons unescape click m \<lparr>bs_links = [], bs_pages = [], bs_clicked = 0\<rparr> in
      case collect_external_page_links unescape get_page now (bs_pages st) cache of
        (collected, cache') \<Rightarrow>
          (dedupe_link_pairs (bs_links (fold (\<lambda>(value, label). collect_button_text_links unescape label value) collected st)), cache'))"

definition merge_button_link_contexts ::
    "(pystr \<Rightarrow> pystr) \<Rightarrow> (message \<Rightarrow> click) \<Rightarrow> get_page \<Rightarrow> time \<Rightarrow> message list \<Rightarrow> pystr list \<Rightarrow> contexts \<times> page_cache \<Rightarrow> contexts \<times> page_cache" where
  "merge_button_link_contexts unescape click get_page now related extras st =
     fold (\<lambda>m (contexts, cache).
         if tm_buttons m = [] then (contexts, cache)
         else case click_buttons_for_links unescape (click m) get_page now m cache of
           (expanded, cache') \<Rightarrow>
             (fold (\<lambda>(link, button_text).
                 set_default link (context_for_link (join_lines [telegram_candidate_context_text unescape m related extras, button_text]) link))
               expanded contexts, cache')) related st"

section \<open>The links of a message\<close>

definition combined_message_text :: "message list \<Rightarrow> pystr list \<Rightarrow> pystr" where
  "combined_message_text messages extras = join [10] (first_only (filter (\<lambda>t. t \<noteq> []) (map telegram_message_text messages @ extras)))"

definition messages_for_link_extraction :: "(pystr \<Rightarrow> pystr) \<Rightarrow> message \<Rightarrow> message list \<Rightarrow> pystr list \<Rightarrow> pystr list \<Rightarrow> message list" where
  "messages_for_link_extraction unescape m siblings queries extras =
     (if has_links unescape (join [10] extras) then [m] else related_messages_for_link_scan unescape m siblings queries)"

text \<open>What the client and the network answer\<close>

record telegram_world =
  tw_siblings :: "message \<Rightarrow> message list"
  tw_click :: "message \<Rightarrow> click"
  tw_page :: get_page

definition extracted_contexts ::
    "(pystr \<Rightarrow> pystr) \<Rightarrow> telegram_world \<Rightarrow> time \<Rightarrow> message \<Rightarrow> pystr list \<Rightarrow> pystr list \<Rightarrow> page_cache \<Rightarrow> contexts \<times> page_cache" where
  "extracted_contexts unescape w now m queries extras pages =
     (let related = messages_for_link_extraction unescape m (tw_siblings w m) queries extras;
          direct = telegram_candidate_link_contexts unescape related extras
      in if direct \<noteq> [] then (direct, pages)
         else merge_button_link_contexts unescape (tw_click w) (tw_page w) now related extras
                (collect_text_external_page_contexts unescape (tw_page w) now (combined_message_text related extras) direct pages))"

type_synonym link_caches = "search_result list ttl_cache \<times> page_cache"

definition finalize_message_extract ::
    "(pystr \<Rightarrow> pystr) \<Rightarrow> time \<Rightarrow> message \<Rightarrow> pystr \<Rightarrow> contexts \<Rightarrow> bool \<Rightarrow> pystr list \<Rightarrow> search_result list ttl_cache
       \<Rightarrow> search_result list \<times> search_result list ttl_cache" where
  "finalize_message_extract unescape now m source contexts cacheable queries cache =
     (search_results_from_contexts m source (filter_link_contexts_by_query unescape queries contexts),
      if cacheable then set_cached_message_extract now source (tm_id m) (search_results_from_contexts m source contexts) cache else cache)"

definition links_from_message ::
    "(pystr \<Rightarrow> pystr) \<Rightarrow> telegram_world \<Rightarrow> time \<Rightarrow> message \<Rightarrow> pystr \<Rightarrow> pystr list \<Rightarrow> pystr list \<Rightarrow> link_caches
       \<Rightarrow> search_result list \<times> link_caches" where
  "links_from_message unescape w now m source queries extras caches =
     (let cacheable = (extras = []);
          looked = (if cacheable then get_cached_message_extract now source (tm_id m) (fst caches) else (None, fst caches))
      in case looked of
           (Some cached, cache) \<Rightarrow> (filter_cached_results_by_query cached queries, (cache, snd caches))
         | (None, cache) \<Rightarrow>
             (case extracted_contexts unescape w now m queries extras (snd caches) of
                (contexts, pages) \<Rightarrow>
                  (case finalize_message_extract unescape now m source contexts cacheable queries cache of
                     (results, cache') \<Rightarrow> (results, (cache', pages)))))"

section \<open>The quick variant\<close>

definition fast_link_contexts :: "(pystr \<Rightarrow> pystr) \<Rightarrow> pystr \<Rightarrow> contexts" where
  "fast_link_contexts unescape t = merge_link_contexts unescape t []"

definition fast_neighbor_ids :: "message \<Rightarrow> int list" where
  "fast_neighbor_ids m = [max 1 (tm_id m - 3)..tm_id m + 3]"

definition fast_neighbor_texts :: "(int list \<Rightarrow> message list option) \<Rightarrow> message \<Rightarrow> pystr list" where
  "fast_neighbor_texts get_messages m =
     (if tm_id m = 0 then []
      else case get_messages (fast_neighbor_ids m) of
          None \<Rightarrow> []
        | Some siblings \<Rightarrow> map telegram_message_text (filter (\<lambda>s. tm_id s \<noteq> tm_id m) siblings))"

definition update_contexts :: "contexts \<Rightarrow> contexts \<Rightarrow> contexts" where
  "update_contexts new contexts = fold (\<lambda>(link, context). AList.update link context) new contexts"

definition fast_button_values :: "button \<Rightarrow> pystr list" where
  "fast_button_values b = [bt_text b, bt_url b, case bt_raw b of None \<Rightarrow> [] | Some (url, _) \<Rightarrow> url]"

definition fast_button_value_contexts :: "(pystr \<Rightarrow> pystr) \<Rightarrow> pystr \<Rightarrow> button \<Rightarrow> contexts" where
  "fast_button_value_contexts unescape base_text b =
     fold (\<lambda>value. update_contexts (fast_link_contexts unescape (join_lines [base_text, bt_text b, value]))) (fast_button_values b) []"

text \<open>A click is answered by a url and a message text; \<open>refreshed\<close> is the message read again.\<close>

type_synonym fast_click = "nat \<times> nat \<Rightarrow> ((pystr \<times> pystr) \<times> message list option) option"

definition fast_click_button_for_context :: "(pystr \<Rightarrow> pystr) \<Rightarrow> fast_click \<Rightarrow> nat \<times> nat \<Rightarrow> pystr \<Rightarrow> pystr \<Rightarrow> contexts" where
  "fast_click_button_for_context unescape click position label base_text =
     (case click position of
        None \<Rightarrow> []
      | Some ((url, response_text), refreshed) \<Rightarrow>
          (let t = join_lines [base_text, label, url, response_text];
               contexts = fast_link_contexts unescape t
           in if contexts \<noteq> [] then contexts
              else case refreshed of
                  None \<Rightarrow> []
                | Some items \<Rightarrow> fast_link_contexts unescape (join [10] (t # map telegram_message_text items))))"

definition fast_button_link_contexts :: "(pystr \<Rightarrow> pystr) \<Rightarrow> fast_click \<Rightarrow> message \<Rightarrow> pystr list \<Rightarrow> contexts" where
  "fast_button_link_contexts unescape click m texts =
     (let base_text = join_lines texts in
      fst (fold (\<lambda>(position, b) (contexts, clicked).
          let contexts' = update_contexts (fast_button_value_contexts unescape base_text b) contexts in
          if contexts' \<noteq> [] \<or> clicked \<or> \<not> button_should_click unescape (fast_button_values b) then (contexts', clicked)
          else (update_contexts (fast_click_button_for_context unescape click position (bt_text b) base_text) contexts', True))
        (positioned (tm_buttons m)) ([], False)))"

record fast_world =
  fw_get :: "int list \<Rightarrow> message list option"
  fw_click :: "message \<Rightarrow> fast_click"

definition fast_contexts :: "(pystr \<Rightarrow> pystr) \<Rightarrow> fast_world \<Rightarrow> message \<Rightarrow> contexts" where
  "fast_contexts unescape w m =
     (let own = telegram_message_text m;
          direct = fast_link_contexts unescape own;
          texts = own # fast_neighbor_texts (fw_get w) m;
          near = fast_link_contexts unescape (join_lines texts)
      in if direct \<noteq> [] then direct
         else if near \<noteq> [] then near
         else fast_button_link_contexts unescape (fw_click w m) m texts)"

definition fast_links_from_message ::
    "(pystr \<Rightarrow> pystr) \<Rightarrow> fast_world \<Rightarrow> time \<Rightarrow> pystr \<Rightarrow> message \<Rightarrow> pystr list \<Rightarrow> search_result list ttl_cache
       \<Rightarrow> search_result list \<times> search_result list ttl_cache" where
  "fast_links_from_message unescape w now source m queries cache =
     (case get_cached_message_extract now source (tm_id m) cache of
        (Some cached, cache') \<Rightarrow> (filter_cached_results_by_query cached queries, cache')
      | (None, cache') \<Rightarrow>
          (let unfiltered = search_results_from_contexts m source (fast_contexts unescape w m) in
           (filter_cached_results_by_query unfiltered queries,
            set_cached_message_extract now source (tm_id m) unfiltered cache')))"

section \<open>What the filters let through\<close>

lemma filtered_contexts_fit:
  assumes "queries \<noteq> []" "(link, scoped) \<in> set (filter_link_contexts_by_query unescape queries contexts)" "\<not> is_ed2k link"
  shows "matches_any queries scoped \<and> title_fits queries (telegram_resource_title scoped)"
  using assms by (auto simp: filter_link_contexts_by_query_def)

lemma filtered_keys: "fst ` set (filter_link_contexts_by_query unescape queries contexts) \<subseteq> fst ` set contexts"
  "distinct (map fst contexts) \<Longrightarrow> distinct (map fst (filter_link_contexts_by_query unescape queries contexts))"
proof -
  let ?scope = "map (\<lambda>(link, context). (link, scoped_context unescape queries link context)) contexts"
  have keys: "map fst ?scope = map fst contexts" by (auto simp: case_prod_unfold)
  then have "set (map fst ?scope) = set (map fst contexts)" by simp
  then show "fst ` set (filter_link_contexts_by_query unescape queries contexts) \<subseteq> fst ` set contexts"
    by (auto simp: filter_link_contexts_by_query_def) (metis fst_conv image_eqI)+
  show "distinct (map fst (filter_link_contexts_by_query unescape queries contexts))" if "distinct (map fst contexts)"
  proof -
    have "distinct (map fst ?scope)" using that by (simp only: keys)
    then show ?thesis using that unfolding filter_link_contexts_by_query_def by (simp only: distinct_map_filter split: if_split) simp
  qed
qed

lemma strict_filter_sound:
  assumes "r \<in> set (filter_cached_results_strictly unescape results queries)" "queries \<noteq> []" "\<not> is_ed2k (r_url r)"
    "distinct (map r_url results)"
  shows "matches_any queries (scoped_context unescape queries (r_url r) (or_str (r_context r) (r_title r)))"
proof -
  define contexts where "contexts = fold (\<lambda>r. AList.update (r_url r) (or_str (r_context r) (r_title r))) results []"
  have shape: "\<forall>(k, v) \<in> set (fold (\<lambda>r. AList.update (r_url r) (or_str (r_context r) (r_title r))) rs d).
      (k, v) \<in> set d \<or> (\<exists>r \<in> set rs. k = r_url r \<and> v = or_str (r_context r) (r_title r))" for rs and d :: contexts
  proof (induction rs arbitrary: d)
    case (Cons x rs)
    have "p \<in> set (AList.update k v d) \<Longrightarrow> p = (k, v) \<or> p \<in> set d" for p k v and d :: contexts
      by (induction d) (auto split: if_splits)
    then show ?case using Cons [of "AList.update (r_url x) (or_str (r_context x) (r_title x)) d"] by fastforce
  qed auto
  obtain scoped where "(r_url r, scoped) \<in> set (filter_link_contexts_by_query unescape queries contexts)" and r: "r \<in> set results"
    using assms(1,2) by (auto simp: filter_cached_results_strictly_def Let_def contexts_def)
  then obtain ctx where c: "(r_url r, ctx) \<in> set contexts" "matches_any queries (scoped_context unescape queries (r_url r) ctx)"
    using assms(2,3) by (auto simp: filter_link_contexts_by_query_def)
  then obtain r' where "r' \<in> set results" "r_url r = r_url r'" "ctx = or_str (r_context r') (r_title r')"
    using shape [of results "[]"] by (auto simp: contexts_def)
  moreover then have "r' = r" using r assms(4) by (auto simp: distinct_map inj_on_def)
  ultimately show ?thesis using c(2) by simp
qed

lemma lenient_filter:
  "set (filter_cached_results_by_query results queries) \<subseteq> set results"
  "filter_cached_results_by_query results queries = [] \<longleftrightarrow> results = []"
  "\<exists>r \<in> set results. matches_any queries (or_str (r_context r) (r_title r)) \<Longrightarrow> r \<in> set (filter_cached_results_by_query results queries)
     \<Longrightarrow> queries \<noteq> [] \<Longrightarrow> matches_any queries (or_str (r_context r) (r_title r))"
  "\<forall>r \<in> set results. \<not> matches_any queries (or_str (r_context r) (r_title r)) \<Longrightarrow> filter_cached_results_by_query results queries = results"
  by (auto simp: filter_cached_results_by_query_def Let_def filter_empty_conv split: if_splits)

lemma results_of_contexts:
  "r \<in> set (search_results_from_contexts m source contexts) \<Longrightarrow>
     (r_url r, r_context r) \<in> set contexts \<and> r_title r = telegram_resource_title (r_context r) \<and> r_source r = source
     \<and> r_message_id r = Some (int_str (tm_id m))"
  "map r_url (search_results_from_contexts m source contexts) = map fst contexts"
  by (auto simp: search_results_from_contexts_def)

section \<open>Pages and buttons are bounded\<close>

lemma plan_pages_bounded:
  "plan_pages now pages seen fetched cache = (collected, pending, cache') \<Longrightarrow> fetched \<le> 3 \<Longrightarrow>
     fetched + length pending \<le> 3 \<and> distinct (map fst pending) \<and> fst ` set pending \<inter> set seen = {} \<and> set pending \<subseteq> set pages"
proof (induction now pages seen fetched cache arbitrary: collected pending cache' rule: plan_pages.induct)
  case (2 now page_url label pages seen fetched cache)
  show ?case
  proof (cases "page_url \<in> set seen")
    case True
    then show ?thesis using "2.IH"(1) "2.prems" by auto
  next
    case False
    obtain found cache1 where got: "get_cached_external_page_links now page_url cache = (found, cache1)" by fastforce
    show ?thesis
    proof (cases found)
      case (Some links)
      obtain c p d where rest: "plan_pages now pages (page_url # seen) fetched cache1 = (c, p, d)" by (cases "plan_pages now pages (page_url # seen) fetched cache1")
      note ih = "2.IH"(4) [OF False got [symmetric] Some rest "2.prems"(2)]
      have "pending = p" using "2.prems"(1) False got Some rest by simp
      then show ?thesis using ih by auto
    next
      case None
      show ?thesis
      proof (cases "TELEGRAM_EXTERNAL_PAGE_MAX_FETCHES \<le> fetched")
        case True
        have "plan_pages now pages (page_url # seen) fetched cache1 = (collected, pending, cache')"
          using "2.prems"(1) False got None True by simp
        from "2.IH"(2) [OF False got [symmetric] None True this "2.prems"(2)] show ?thesis by auto
      next
        case le: False
        obtain c p d where rest: "plan_pages now pages (page_url # seen) (Suc fetched) cache1 = (c, p, d)"
          by (cases "plan_pages now pages (page_url # seen) (Suc fetched) cache1")
        have "Suc fetched \<le> 3" using le by (simp add: TELEGRAM_EXTERNAL_PAGE_MAX_FETCHES_def)
        note ih = "2.IH"(3) [OF False got [symmetric] None le rest this]
        have "pending = (page_url, label) # p" using "2.prems"(1) False got None le rest by simp
        then show ?thesis using ih False by (auto simp: image_iff)
      qed
    qed
  qed
qed simp

lemma clicks_bounded:
  assumes "bs_clicked st \<le> 3"
  shows "bs_clicked (scan_message_buttons unescape click m st) \<le> 3"
proof -
  have same: "bs_clicked (fold (collect_button_text_links unescape label) xs s) = bs_clicked s"
    "bs_clicked (fold (\<lambda>v. collect_button_text_links unescape label (f v)) vs s) = bs_clicked s" for label xs f s and vs :: "raw_data list"
    by (induction xs arbitrary: s, simp_all add: collect_button_text_links_def)
       (induction vs arbitrary: s, simp_all add: collect_button_text_links_def)
  have one: "bs_clicked (process_message_button unescape click p b s) \<le> Suc (bs_clicked s)" for p b s
    by (auto simp: process_message_button_def Let_def same collect_button_text_links_def simp del: fold.simps split: option.splits)
  then have below: "bs_clicked (process_message_button unescape click p b s) \<le> 3" if "bs_clicked s < 3" for p b s
    using that by (meson Suc_leI le_trans)
  show ?thesis
    unfolding scan_message_buttons_def
    by (rule fold_maintains [where P = "\<lambda>s. bs_clicked s \<le> 3"])
       (auto simp: assms below TELEGRAM_BUTTON_CLICK_MAX_PER_MESSAGE_def split: prod.splits)
qed

text \<open>Hosts are compared without their \<open>www.\<close>, so the two of the list that have it are never found.\<close>

lemma page_urls:
  "url \<in> set (external_resource_page_urls unescape t) \<Longrightarrow>
     extract_115_links unescape url = [] \<and> page_host url \<in> set TELEGRAM_EXTERNAL_PAGE_HOSTS"
  "distinct (external_resource_page_urls unescape t)"
proof -
  have member: "x \<in> set (fold (add_link (\<lambda>l. l)) xs ls) \<longleftrightarrow> x \<in> set ls \<union> set xs" for x :: pystr and xs ls
    by (induction xs arbitrary: ls) (auto simp: add_link_def)
  show "url \<in> set (external_resource_page_urls unescape t) \<Longrightarrow>
     extract_115_links unescape url = [] \<and> page_host url \<in> set TELEGRAM_EXTERNAL_PAGE_HOSTS"
    by (auto simp: external_resource_page_urls_def member simp del: fold_append)
  show "distinct (external_resource_page_urls unescape t)"
    using fold_add_link_distinct [of "\<lambda>l. l" "[]"] by (simp add: external_resource_page_urls_def del: fold_append)
qed

lemma www_page_unknown:
  assumes "casefold (url_netloc (urlparse url)) = u ''www.aliyundrive.com''"
  shows "url \<notin> set (external_resource_page_urls unescape t)"
proof
  assume "url \<in> set (external_resource_page_urls unescape t)"
  then have "page_host url \<in> set TELEGRAM_EXTERNAL_PAGE_HOSTS" using page_urls(1) by blast
  moreover have "without_www (u ''www.aliyundrive.com'') \<notin> set TELEGRAM_EXTERNAL_PAGE_HOSTS"
    by (simp add: without_www_def TELEGRAM_EXTERNAL_PAGE_HOSTS_def u_def)
  ultimately show False by (simp add: page_host_def assms)
qed

section \<open>Results of a message\<close>

lemma collected_contexts_distinct:
  "distinct (map fst contexts) \<Longrightarrow> distinct (map fst (fold (collect_page_text unescape t) vs contexts))"
  by (rule fold_maintains) (simp_all add: collect_page_text_def Let_def fold_set_default)

lemma page_contexts_distinct:
  assumes "distinct (map fst contexts)"
  shows "distinct (map fst (fst (collect_text_external_page_contexts unescape get_page now t contexts cache)))"
proof -
  note step = collected_contexts_distinct [OF assms]
  show ?thesis
    unfolding collect_text_external_page_contexts_def Let_def by (auto simp: step assms split: prod.splits)
qed

lemma button_contexts_distinct:
  assumes "distinct (map fst (fst st))"
  shows "distinct (map fst (fst (merge_button_link_contexts unescape click get_page now related extras st)))"
proof -
  have pairs: "distinct (map fst (fold (\<lambda>(link, t). set_default link (f link t)) ps c))" if "distinct (map fst c)" for f ps c
    using that by (intro fold_maintains [where P = "\<lambda>c. distinct (map fst c)"]) (auto simp: set_default_keys)
  show ?thesis
    unfolding merge_button_link_contexts_def
    by (rule fold_maintains [where P = "\<lambda>st. distinct (map fst (fst st))"]) (auto simp: assms pairs split: prod.splits if_splits)
qed

lemma extracted_contexts_distinct: "distinct (map fst (fst (extracted_contexts unescape w now m queries extras pages)))"
proof -
  define related where "related = messages_for_link_extraction unescape m (tw_siblings w m) queries extras"
  have "distinct (map fst (telegram_candidate_link_contexts unescape related extras))"
    using message_candidate_links [of unescape related extras] by (simp only: contexts_from_def)
  then show ?thesis
    unfolding extracted_contexts_def Let_def related_def [symmetric] by (auto intro!: button_contexts_distinct page_contexts_distinct)
qed

text \<open>The answer of a message that is not in the cache: distinct links, each fitting a query by its context and its title\<close>

definition answered_from_cache :: "time \<Rightarrow> pystr \<Rightarrow> message \<Rightarrow> pystr list \<Rightarrow> link_caches \<Rightarrow> bool" where
  "answered_from_cache now source m extras caches \<longleftrightarrow>
     extras = [] \<and> fst (get_cached_message_extract now source (tm_id m) (fst caches)) \<noteq> None"

lemma uncached_answer:
  assumes "\<not> answered_from_cache now source m extras caches"
  shows "fst (links_from_message unescape w now m source queries extras caches)
    = search_results_from_contexts m source (filter_link_contexts_by_query unescape queries
        (fst (extracted_contexts unescape w now m queries extras (snd caches))))"
  using assms
  by (auto simp: links_from_message_def answered_from_cache_def finalize_message_extract_def Let_def split: prod.splits option.splits)

theorem uncached_results_fit:
  assumes "\<not> answered_from_cache now source m extras caches"
  shows "distinct (map r_url (fst (links_from_message unescape w now m source queries extras caches)))"
    "\<forall>r \<in> set (fst (links_from_message unescape w now m source queries extras caches)).
       r_source r = source \<and> r_message_id r = Some (int_str (tm_id m))
       \<and> (is_ed2k (r_url r) \<or> queries = [] \<or> matches_any queries (r_context r) \<and> title_fits queries (r_title r))"
proof -
  let ?contexts = "fst (extracted_contexts unescape w now m queries extras (snd caches))"
  show "distinct (map r_url (fst (links_from_message unescape w now m source queries extras caches)))"
    unfolding uncached_answer [OF assms] results_of_contexts(2) by (rule filtered_keys(2) [OF extracted_contexts_distinct])
  show "\<forall>r \<in> set (fst (links_from_message unescape w now m source queries extras caches)).
       r_source r = source \<and> r_message_id r = Some (int_str (tm_id m))
       \<and> (is_ed2k (r_url r) \<or> queries = [] \<or> matches_any queries (r_context r) \<and> title_fits queries (r_title r))"
  proof
    fix r assume "r \<in> set (fst (links_from_message unescape w now m source queries extras caches))"
    then have "r \<in> set (search_results_from_contexts m source (filter_link_contexts_by_query unescape queries ?contexts))"
      by (simp only: uncached_answer [OF assms])
    note r = results_of_contexts(1) [OF this]
    then show "r_source r = source \<and> r_message_id r = Some (int_str (tm_id m))
       \<and> (is_ed2k (r_url r) \<or> queries = [] \<or> matches_any queries (r_context r) \<and> title_fits queries (r_title r))"
      using filtered_contexts_fit [of queries "r_url r" "r_context r"] by auto
  qed
qed

text \<open>
  What was extracted answers every later query of the same message, as long as its entry is served: with those that fit, and with
  all of them when none fits.
\<close>

lemma get_after_set:
  assumes "ttl_ok c" "t < now + tc_ttl c"
  shows "fst (ttl_get t k (ttl_set now k v c)) = Some v"
  using used_entry_outlives [of c "[]" k t now v] assms by (simp add: ttl_ok_def)

theorem extract_answers_again:
  assumes "\<not> answered_from_cache now source m [] caches" "tm_id m \<noteq> 0" "ttl_ok (fst caches)" "t < now + tc_ttl (fst caches)"
  shows "fst (links_from_message unescape w' t m source queries' [] (snd (links_from_message unescape w now m source queries [] caches)))
    = filter_cached_results_by_query
        (search_results_from_contexts m source (fst (extracted_contexts unescape w now m queries [] (snd caches)))) queries'"
proof -
  obtain cache where look: "get_cached_message_extract now source (tm_id m) (fst caches) = (None, cache)"
    using assms(1) by (auto simp: answered_from_cache_def) (metis prod.collapse)
  then have cache: "cache = snd (ttl_get now (message_extract_cache_key source (tm_id m)) (fst caches))"
    using assms(2) by (auto simp: get_cached_message_extract_def)
  have ok: "ttl_ok cache" using ttl_get_ok assms(3) by (simp add: cache)
  have ttl: "tc_ttl cache = tc_ttl (fst caches)" by (auto simp: cache ttl_get_def split: option.splits)
  let ?all = "search_results_from_contexts m source (fst (extracted_contexts unescape w now m queries [] (snd caches)))"
  obtain contexts pages where ex: "extracted_contexts unescape w now m queries [] (snd caches) = (contexts, pages)" by fastforce
  let ?cache = "set_cached_message_extract now source (tm_id m) ?all cache"
  have first: "snd (links_from_message unescape w now m source queries [] caches) = (?cache, pages)"
    by (simp add: links_from_message_def look ex finalize_message_extract_def)
  have "fst (get_cached_message_extract t source (tm_id m) ?cache) = Some ?all"
    using get_after_set [OF ok] assms(2,4) by (simp add: get_cached_message_extract_def set_cached_message_extract_def ttl)
  then obtain cache' where "get_cached_message_extract t source (tm_id m) ?cache = (Some ?all, cache')" by (metis prod.collapse)
  then show ?thesis unfolding first by (simp add: links_from_message_def)
qed

text \<open>A page that could not be read is not asked again while its entry lasts.\<close>

lemma dead_page_rests:
  assumes "ttl_ok cache" "page_url \<noteq> []" "get_page page_url = None" "t < now + tc_ttl cache"
  shows "fst (snd (plan_pages t [(page_url, label)] [] 0
           (snd (collect_one_external_page unescape get_page now (page_url, label) (collected, cache))))) = []"
proof -
  have "fst (ttl_get t page_url (ttl_set now page_url [] cache)) = Some []" by (rule get_after_set) (use assms in auto)
  then obtain cache' where "ttl_get t page_url (ttl_set now page_url [] cache) = (Some [], cache')" by (metis prod.collapse)
  then show ?thesis
    using assms(2,3) by (simp add: collect_one_external_page_def set_cached_external_page_links_def get_cached_external_page_links_def)
qed

end
