(* ===== verification/Telegram_Memory.thy ===== *)
theory Telegram_Memory
  imports Telegram_State Source_Health
begin

text \<open>
  What the Telegram search remembers between two searches: the results of a query in a dialog
  (\<open>history/query_result_cache.py\<close>), the searches the index could not answer (\<open>scan/index_cache.py\<close>), how dialogs
  did (\<open>history/dialog_rank.py\<close>), how far their recent messages were read (\<open>history/recent.py\<close>) and the cursors of the monitor
  (\<open>history/cursor.py\<close>).  Shown: every table keeps its size; a result is served
  until it expires and never after; the ranking permutes the dialogs, with the preferred ones
  first; a slow dialog is behind the others for two minutes or until it has a hit; a watermark is
  forgotten after ten minutes; a cursor never goes back.  The clock is read once for each call.
\<close>

section \<open>Results of a query\<close>

definition POSITIVE_TTL_SECONDS :: time where "POSITIVE_TTL_SECONDS = 180"
definition NEGATIVE_TTL_SECONDS :: time where "NEGATIVE_TTL_SECONDS = 45"
definition QUERY_MAX_ENTRIES :: nat where "QUERY_MAX_ENTRIES = 512"

type_synonym query_cache = "(pystr \<times> (time \<times> search_result list)) list"

definition result_cache_key :: "pystr \<Rightarrow> pystr \<Rightarrow> pystr" where
  "result_cache_key source query = strip source @ [0] @ strip query"

definition purge_expired :: "time \<Rightarrow> query_cache \<Rightarrow> query_cache" where
  "purge_expired now d =
     (let kept = fold dict_pop (map fst (filter (\<lambda>(_, e, _). e \<le> now) d)) d in
      if length kept \<le> QUERY_MAX_ENTRIES then kept
      else fold dict_pop (map fst (take (length kept - QUERY_MAX_ENTRIES) (sort_key (fst \<circ> snd) kept))) kept)"

definition get_cached_query_results ::
    "time \<Rightarrow> pystr \<Rightarrow> pystr \<Rightarrow> query_cache \<Rightarrow> search_result list option \<times> query_cache" where
  "get_cached_query_results now source query d =
     (let key = result_cache_key source query in
      if strip_chars [0] key = [] then (None, d)
      else case map_of d key of
          None \<Rightarrow> (None, d)
        | Some (expires_at, results) \<Rightarrow>
            if expires_at \<le> now then (None, dict_pop key d) else (Some results, d))"

definition result_ttl :: "search_result list \<Rightarrow> time" where
  "result_ttl results = (if results \<noteq> [] then POSITIVE_TTL_SECONDS else NEGATIVE_TTL_SECONDS)"

definition set_cached_query_results :: "time \<Rightarrow> pystr \<Rightarrow> pystr \<Rightarrow> search_result list \<Rightarrow> query_cache \<Rightarrow> query_cache" where
  "set_cached_query_results now source query results d =
     (let key = result_cache_key source query in
      if strip_chars [0] key = [] then d
      else purge_expired now (dict_set key (now + result_ttl results, results) d))"

definition query_result_cache_stats :: "time \<Rightarrow> query_cache \<Rightarrow> nat \<times> nat \<times> nat" where
  "query_result_cache_stats now d =
     (let live = filter (\<lambda>(_, e, _). \<not> e \<le> now) d;
          positive = length (filter (\<lambda>(_, _, rs). rs \<noteq> []) live);
          negative = length (filter (\<lambda>(_, _, rs). rs = []) live)
      in (positive + negative, positive, negative))"

section \<open>Searches the index could not answer\<close>

definition TELEGRAM_INDEX_NEGATIVE_TTL_SECONDS :: time where "TELEGRAM_INDEX_NEGATIVE_TTL_SECONDS = 120"

definition negative_cache_key :: "pystr list \<Rightarrow> pystr list \<Rightarrow> pystr" where
  "negative_cache_key sources queries = join [44] (sort sources) @ u ''::'' @ join [124] queries"

definition negative_cache_hit :: "time \<Rightarrow> pystr list \<Rightarrow> pystr list \<Rightarrow> (pystr \<times> time) list \<Rightarrow> bool \<times> (pystr \<times> time) list" where
  "negative_cache_hit now sources queries d =
     (case map_of d (negative_cache_key sources queries) of
        None \<Rightarrow> (False, d)
      | Some expires \<Rightarrow>
          if expires \<le> now then (False, dict_pop (negative_cache_key sources queries) d) else (True, d))"

definition negative_cache_prune :: "time \<Rightarrow> (pystr \<times> time) list \<Rightarrow> (pystr \<times> time) list" where
  "negative_cache_prune now d =
     (let kept = fold dict_pop (map fst (filter (\<lambda>(_, e). e \<le> now) d)) d in
      if length kept > 512 then fold dict_pop (map fst (take 128 (sort_key snd kept))) kept else kept)"

definition negative_cache_store :: "time \<Rightarrow> pystr list \<Rightarrow> pystr list \<Rightarrow> (pystr \<times> time) list \<Rightarrow> (pystr \<times> time) list" where
  "negative_cache_store now sources queries d =
     (let d' = dict_set (negative_cache_key sources queries) (now + TELEGRAM_INDEX_NEGATIVE_TTL_SECONDS) d in
      if length d' > 512 then negative_cache_prune now d' else d')"

section \<open>How dialogs did\<close>

definition SLOW_DIALOG_MS :: rat where "SLOW_DIALOG_MS = 2500"
definition SLOW_DIALOG_COOLDOWN_SECONDS :: time where "SLOW_DIALOG_COOLDOWN_SECONDS = 120"
definition LATENCY_EWMA_ALPHA :: rat where "LATENCY_EWMA_ALPHA = 35 / 100"

record dialog_memory =
  dm_hits :: "(pystr \<times> int) list"
  dm_until :: "(pystr \<times> time) list"
  dm_latency :: "(pystr \<times> rat) list"

definition value_or :: "'v \<Rightarrow> 'k \<Rightarrow> ('k \<times> 'v) list \<Rightarrow> 'v" where
  "value_or d k m = (case map_of m k of None \<Rightarrow> d | Some v \<Rightarrow> v)"

definition note_dialog_hit :: "pystr \<Rightarrow> int \<Rightarrow> dialog_memory \<Rightarrow> dialog_memory" where
  "note_dialog_hit source amount m =
     (let key = strip source in
      if key = [] \<or> amount \<le> 0 then m
      else m\<lparr>dm_hits := dict_set key (value_or 0 key (dm_hits m) + amount) (dm_hits m), dm_until := dict_pop key (dm_until m)\<rparr>)"

definition ewma :: "rat \<Rightarrow> pystr \<Rightarrow> dialog_memory \<Rightarrow> rat" where
  "ewma sample key m =
     (let stored = value_or sample key (dm_latency m);
          prev = (if stored = 0 then sample else stored)
      in LATENCY_EWMA_ALPHA * sample + (1 - LATENCY_EWMA_ALPHA) * prev)"

definition note_dialog_latency :: "time \<Rightarrow> pystr \<Rightarrow> rat \<Rightarrow> bool \<Rightarrow> dialog_memory \<Rightarrow> dialog_memory" where
  "note_dialog_latency now source latency_ms had_hits m =
     (let key = strip source; sample = max 0 latency_ms; mean = ewma sample key m in
      if key = [] then m
      else let m' = m\<lparr>dm_latency := dict_set key mean (dm_latency m)\<rparr> in
           if had_hits then m'\<lparr>dm_until := dict_pop key (dm_until m)\<rparr>
           else if SLOW_DIALOG_MS \<le> sample \<or> SLOW_DIALOG_MS \<le> mean
           then m'\<lparr>dm_until := dict_set key (now + SLOW_DIALOG_COOLDOWN_SECONDS) (dm_until m)\<rparr>
           else m')"

definition dialog_hit_score :: "pystr \<Rightarrow> (pystr \<times> int) list \<Rightarrow> dialog_memory \<Rightarrow> int" where
  "dialog_hit_score source extra_scores m =
     (let key = strip source in
      if key = [] then 0 else value_or 0 key (dm_hits m) + value_or 0 key extra_scores)"

definition dialog_on_cooldown :: "time \<Rightarrow> pystr \<Rightarrow> dialog_memory \<Rightarrow> bool \<times> dialog_memory" where
  "dialog_on_cooldown now source m =
     (let key = strip source; until = value_or 0 key (dm_until m) in
      if key = [] then (False, m)
      else if until \<le> 0 then (False, m)
      else if until \<le> now then (False, m\<lparr>dm_until := dict_pop key (dm_until m)\<rparr>)
      else (True, m))"

definition dialog_latency_ms :: "pystr \<Rightarrow> dialog_memory \<Rightarrow> rat" where
  "dialog_latency_ms source m = (let key = strip source in if key = [] then 0 else value_or 0 key (dm_latency m))"

type_synonym dialog_key = "nat \<times> nat \<times> int \<times> rat \<times> pystr"

fun keyed_dialogs ::
    "time \<Rightarrow> pystr list \<Rightarrow> (pystr \<times> int) list \<Rightarrow> pyval list \<Rightarrow> dialog_memory \<Rightarrow> (dialog_key \<times> pyval) list \<times> dialog_memory" where
  "keyed_dialogs now preferred extra [] m = ([], m)"
| "keyed_dialogs now preferred extra (d # ds) m =
     (let source = dialog_name d in
      case dialog_on_cooldown now source m of
        (cooling, m1) \<Rightarrow>
          (case keyed_dialogs now preferred extra ds m1 of
             (keyed, m2) \<Rightarrow>
               (((if source \<noteq> [] \<and> source \<in> set preferred then 0 else 1, if cooling then 1 else 0,
                  - dialog_hit_score source extra m1, dialog_latency_ms source m1, source), d) # keyed, m2)))"

definition rank_dialogs ::
    "time \<Rightarrow> pystr list \<Rightarrow> (pystr \<times> int) list \<Rightarrow> pyval list \<Rightarrow> dialog_memory \<Rightarrow> pyval list \<times> dialog_memory" where
  "rank_dialogs now preferred_sources hit_scores dialogs m =
     (let preferred = filter (\<lambda>s. s \<noteq> []) (map strip preferred_sources) in
      case keyed_dialogs now preferred hit_scores dialogs m of
        (keyed, m') \<Rightarrow> (map snd (sort_key fst keyed), m'))"

section \<open>How far the recent messages were read\<close>

definition RECENT_WATERMARK_TTL_SECONDS :: time where "RECENT_WATERMARK_TTL_SECONDS = 600"

type_synonym watermarks = "(pystr \<times> (time \<times> int)) list"

definition recent_watermark_get :: "time \<Rightarrow> pystr \<Rightarrow> watermarks \<Rightarrow> int \<times> watermarks" where
  "recent_watermark_get now source d =
     (let key = strip source in
      if key = [] then (0, d)
      else case map_of d key of
          None \<Rightarrow> (0, d)
        | Some (stamp, message_id) \<Rightarrow>
            if RECENT_WATERMARK_TTL_SECONDS < now - stamp then (0, dict_pop key d) else (message_id, d))"

text \<open>Entries up to the threshold go, in the order of the dictionary, until the table has its size.\<close>

fun prune_up_to :: "time \<Rightarrow> watermarks \<Rightarrow> watermarks \<Rightarrow> watermarks" where
  "prune_up_to threshold [] d = d"
| "prune_up_to threshold ((k, stamp, _) # entries) d =
     (let d' = (if stamp \<le> threshold then dict_pop k d else d) in
      if length d' \<le> 512 then d' else prune_up_to threshold entries d')"

definition watermarks_prune :: "time \<Rightarrow> watermarks \<Rightarrow> watermarks" where
  "watermarks_prune now d =
     (let kept = fold dict_pop (map fst (filter (\<lambda>(_, stamp, _). RECENT_WATERMARK_TTL_SECONDS < now - stamp) d)) d in
      if length kept > 512 then
        (let oldest = take (length kept div 5 + 1) (sort_key (fst \<circ> snd) kept) in
         if oldest \<noteq> [] then prune_up_to (fst (snd (last oldest))) kept kept else kept)
      else kept)"

definition recent_watermark_set :: "time \<Rightarrow> pystr \<Rightarrow> int \<Rightarrow> watermarks \<Rightarrow> watermarks" where
  "recent_watermark_set now source message_id d =
     (let key = strip source in
      if key = [] \<or> message_id \<le> 0 then d
      else let d' = dict_set key (now, message_id) d in
           if length d' > 512 then watermarks_prune now d' else d')"

definition clear_recent_watermarks :: "pystr option \<Rightarrow> watermarks \<Rightarrow> watermarks" where
  "clear_recent_watermarks source_opt d =
     (case source_opt of
        None \<Rightarrow> []
      | Some source \<Rightarrow> (let key = strip source in if key \<noteq> [] then dict_pop key d else d))"

section \<open>The cursors of the monitor\<close>

text \<open>The table \<open>telegram_scan_cursors\<close>, by its unique column\<close>

definition telegram_cursor :: "pystr \<Rightarrow> (pystr \<times> int) list \<Rightarrow> int" where
  "telegram_cursor source table = value_or 0 source table"

definition update_telegram_cursor :: "pystr \<Rightarrow> int \<Rightarrow> (pystr \<times> int) list \<Rightarrow> (pystr \<times> int) list" where
  "update_telegram_cursor source message_id table =
     (if message_id \<le> 0 then table
      else dict_set source (case map_of table source of None \<Rightarrow> message_id | Some old \<Rightarrow> max old message_id) table)"

section \<open>Sizes\<close>

lemma pops_shorter: "k \<in> set ks \<Longrightarrow> k \<in> fst ` set d \<Longrightarrow> length (fold dict_pop ks d) < length d"
proof (induction ks arbitrary: d)
  case (Cons x ks)
  show ?case
  proof (cases "x \<in> fst ` set d")
    case True
    then have "length (dict_pop x d) < length d" by (induction d) (auto intro: le_imp_less_Suc length_delete_le)
    then show ?thesis using pop_fold_shorter [of ks "dict_pop x d"] by simp
  next
    case False
    then have "dict_pop x d = d" by (induction d) auto
    then show ?thesis using Cons False by (auto simp: image_iff)
  qed
qed simp

lemma pops_some:
  assumes "d \<noteq> []" "0 < n"
  shows "length (fold dict_pop (map fst (take n (sort_key f d))) d) < length d"
proof -
  obtain x xs where "sort_key f d = x # xs" using assms(1) by (metis list.exhaust length_0_conv length_sort)
  moreover then have "x \<in> set d" by (metis list.set_intros(1) set_sort)
  ultimately show ?thesis using assms(2) by (intro pops_shorter [of "fst x"]) (auto simp: take_Cons')
qed

lemma purged_size: "length d \<le> Suc QUERY_MAX_ENTRIES \<Longrightarrow> length (purge_expired now d) \<le> QUERY_MAX_ENTRIES"
proof -
  assume short: "length d \<le> Suc QUERY_MAX_ENTRIES"
  define kept where "kept = fold dict_pop (map fst (filter (\<lambda>(_, e, _). e \<le> now) d)) d"
  have "length kept \<le> Suc QUERY_MAX_ENTRIES" using short pop_fold_shorter le_trans unfolding kept_def by blast
  moreover have "length (fold dict_pop (map fst (take (length kept - QUERY_MAX_ENTRIES) (sort_key (fst \<circ> snd) kept))) kept) < length kept"
    if "\<not> length kept \<le> QUERY_MAX_ENTRIES"
  proof (rule pops_some)
    show "kept \<noteq> []" using that by force
  qed (use that in simp)
  ultimately show ?thesis by (auto simp: purge_expired_def Let_def kept_def [symmetric])
qed

lemma query_cache_size: "length d \<le> QUERY_MAX_ENTRIES \<Longrightarrow> length (set_cached_query_results now source query results d) \<le> QUERY_MAX_ENTRIES"
  unfolding set_cached_query_results_def Let_def
  using purged_size length_dict_set [of "result_cache_key source query" "(now + result_ttl results, results)" d] by auto

lemma negative_cache_size: "length d \<le> 512 \<Longrightarrow> length (negative_cache_store now sources queries d) \<le> 512"
proof -
  assume short: "length d \<le> 512"
  let ?d = "dict_set (negative_cache_key sources queries) (now + TELEGRAM_INDEX_NEGATIVE_TTL_SECONDS) d"
  define kept where "kept = fold dict_pop (map fst (filter (\<lambda>(_, e). e \<le> now) ?d)) ?d"
  have "length kept \<le> length ?d" unfolding kept_def by (rule pop_fold_shorter)
  also have "\<dots> \<le> Suc (length d)" by (rule length_dict_set)
  also have "\<dots> \<le> Suc 512" using short by simp
  finally have "length kept \<le> Suc 512" .
  then have "length (negative_cache_prune now ?d) \<le> 512"
    using pops_some [of kept 128 snd] by (cases "kept = []") (auto simp: negative_cache_prune_def Let_def kept_def [symmetric])
  then show ?thesis by (simp add: negative_cache_store_def Let_def)
qed

lemma prune_up_to_size:
  "(k, stamp, m) \<in> set entries \<Longrightarrow> stamp \<le> threshold \<Longrightarrow> k \<in> fst ` set d \<Longrightarrow> length d \<le> 513 \<Longrightarrow>
     length (prune_up_to threshold entries d) \<le> 512"
proof (induction threshold entries d rule: prune_up_to.induct)
  case (2 threshold k' stamp' m' entries d)
  have pop: "length (dict_pop x d) < length d" if "x \<in> fst ` set d" for x
    using that by (induction d) (auto intro: le_imp_less_Suc length_delete_le)
  show ?case
  proof (cases "stamp' \<le> threshold \<and> k' \<in> fst ` set d")
    case True
    then show ?thesis using pop [of k'] 2(5) by simp
  next
    case False
    have gone: "dict_pop k' d = d" if "k' \<notin> fst ` set d" using that by (induction d) auto
    then have same: "(if stamp' \<le> threshold then dict_pop k' d else d) = d" using False by auto
    have "(k, stamp, m) \<in> set entries" using 2(2-4) False by auto
    then show ?thesis using 2(1) 2(3-5) unfolding prune_up_to.simps Let_def same by (simp del: prune_up_to.simps)
  qed
qed simp

lemma watermarks_size: "length d \<le> 512 \<Longrightarrow> length (recent_watermark_set now source message_id d) \<le> 512"
proof -
  assume short: "length d \<le> 512"
  let ?d = "dict_set (strip source) (now, message_id) d"
  define kept where "kept = fold dict_pop (map fst (filter (\<lambda>(_, stamp, _). RECENT_WATERMARK_TTL_SECONDS < now - stamp) ?d)) ?d"
  have "length kept \<le> length ?d" unfolding kept_def by (rule pop_fold_shorter)
  also have "\<dots> \<le> Suc (length d)" by (rule length_dict_set)
  also have "\<dots> \<le> 513" using short by simp
  finally have len: "length kept \<le> 513" .
  have "length (watermarks_prune now ?d) \<le> 512"
  proof (cases "length kept > 512")
    case True
    define oldest where "oldest = take (length kept div 5 + 1) (sort_key (fst \<circ> snd) kept)"
    have "oldest \<noteq> []" using True by (simp add: oldest_def take_eq_Nil) (metis length_0_conv length_sort not_less_zero)
    moreover then have "last oldest \<in> set kept" by (metis last_in_set oldest_def set_sort set_take_subset subsetD)
    ultimately have "length (prune_up_to (fst (snd (last oldest))) kept kept) \<le> 512"
      using len by (intro prune_up_to_size [of "fst (last oldest)" "fst (snd (last oldest))" "snd (snd (last oldest))"]) auto
    then show ?thesis using True \<open>oldest \<noteq> []\<close>
      unfolding watermarks_prune_def Let_def kept_def [symmetric] oldest_def [symmetric] by simp
  qed (simp add: watermarks_prune_def Let_def kept_def [symmetric])
  then show ?thesis using short by (simp add: recent_watermark_set_def Let_def)
qed

section \<open>Lifetimes\<close>

lemma purge_with_room:
  "length d \<le> QUERY_MAX_ENTRIES \<Longrightarrow> purge_expired now d = fold dict_pop (map fst (filter (\<lambda>(_, e, _). e \<le> now) d)) d"
  using pop_fold_shorter [of "map fst (filter (\<lambda>(_, e, _). e \<le> now) d)" d] by (simp add: purge_expired_def Let_def)

lemma result_served:
  assumes "length d < QUERY_MAX_ENTRIES" "distinct (map fst d)" "strip_chars [0] (result_cache_key source query) \<noteq> []"
    "t < now + result_ttl results"
  shows "fst (get_cached_query_results t source query (set_cached_query_results now source query results d)) = Some results"
proof -
  let ?k = "result_cache_key source query"
  let ?d = "dict_set ?k (now + result_ttl results, results) d"
  have room: "length ?d \<le> QUERY_MAX_ENTRIES" using assms(1) length_dict_set [of ?k "(now + result_ttl results, results)" d] by linarith
  have own: "map_of ?d ?k = Some (now + result_ttl results, results)" by (simp add: update_conv')
  have late: "now < now + result_ttl results" by (simp add: result_ttl_def POSITIVE_TTL_SECONDS_def NEGATIVE_TTL_SECONDS_def)
  have "distinct (map fst ?d)" using assms(2) by (rule distinct_update)
  then have "e = now + result_ttl results" if "(?k, e, rs) \<in> set ?d" for e rs
    using map_of_is_SomeI [of ?d ?k] that own by fastforce
  then have "?k \<notin> set (map fst (filter (\<lambda>(_, e, _). e \<le> now) ?d))"
    using late by fastforce
  then show ?thesis
    using assms(3,4) own by (simp add: get_cached_query_results_def set_cached_query_results_def Let_def purge_with_room [OF room] map_of_pop_fold)
qed

lemma result_not_served_late:
  "fst (get_cached_query_results t source query d) = Some results \<Longrightarrow>
     \<exists>e > t. (result_cache_key source query, e, results) \<in> set d"
  by (auto simp: get_cached_query_results_def Let_def not_le split: if_splits option.splits dest!: map_of_SomeD)

lemma negative_hit_after_store:
  "length d < 512 \<Longrightarrow>
     fst (negative_cache_hit t sources queries (negative_cache_store now sources queries d))
     \<longleftrightarrow> t < now + TELEGRAM_INDEX_NEGATIVE_TTL_SECONDS"
  using length_dict_set [of "negative_cache_key sources queries" "now + TELEGRAM_INDEX_NEGATIVE_TTL_SECONDS" d]
  by (auto simp: negative_cache_hit_def negative_cache_store_def Let_def update_conv')

lemma watermark_read:
  assumes "length d < 512" "strip source \<noteq> []" "0 < message_id"
  shows "fst (recent_watermark_get t source (recent_watermark_set now source message_id d))
      = (if t \<le> now + RECENT_WATERMARK_TTL_SECONDS then message_id else 0)"
proof -
  have "length (dict_set (strip source) (now, message_id) d) \<le> 512"
    using assms(1) length_dict_set [of "strip source" "(now, message_id)" d] by linarith
  then show ?thesis using assms(2,3) by (auto simp: recent_watermark_set_def recent_watermark_get_def Let_def update_conv')
qed

lemma watermark_cleared: "fst (recent_watermark_get t source (clear_recent_watermarks (Some source) d)) = 0"
  by (simp add: recent_watermark_get_def clear_recent_watermarks_def Let_def delete_conv')

section \<open>Ranking\<close>

definition key_of_dialog :: "time \<Rightarrow> pystr list \<Rightarrow> (pystr \<times> int) list \<Rightarrow> dialog_memory \<Rightarrow> pyval \<Rightarrow> dialog_key" where
  "key_of_dialog now preferred extra m d =
     (let source = dialog_name d in
      (if source \<noteq> [] \<and> source \<in> set preferred then 0 else 1, if fst (dialog_on_cooldown now source m) then 1 else 0,
       - dialog_hit_score source extra m, dialog_latency_ms source m, source))"

lemma cooldown_effect:
  "fst (dialog_on_cooldown now s (snd (dialog_on_cooldown now s' m))) = fst (dialog_on_cooldown now s m)"
  "dm_hits (snd (dialog_on_cooldown now s' m)) = dm_hits m" "dm_latency (snd (dialog_on_cooldown now s' m)) = dm_latency m"
  by (auto simp: dialog_on_cooldown_def Let_def value_or_def delete_conv' split: option.splits)

lemma dialog_key_stable: "key_of_dialog now preferred extra (snd (dialog_on_cooldown now s m)) = key_of_dialog now preferred extra m"
  by (rule ext) (simp add: key_of_dialog_def Let_def cooldown_effect dialog_hit_score_def dialog_latency_ms_def)

lemma keyed_dialogs_map: "fst (keyed_dialogs now preferred extra ds m) = map (\<lambda>d. (key_of_dialog now preferred extra m d, d)) ds"
proof (induction ds arbitrary: m)
  case (Cons d ds)
  obtain cooling m1 where c: "dialog_on_cooldown now (dialog_name d) m = (cooling, m1)" by fastforce
  then have m1: "m1 = snd (dialog_on_cooldown now (dialog_name d) m)" "cooling = fst (dialog_on_cooldown now (dialog_name d) m)" by simp_all
  obtain keyed m2 where k: "keyed_dialogs now preferred extra ds m1 = (keyed, m2)" by fastforce
  then have "keyed = map (\<lambda>d. (key_of_dialog now preferred extra m d, d)) ds"
    using Cons [of m1] by (simp add: m1 dialog_key_stable)
  moreover have "dm_hits m1 = dm_hits m" "dm_latency m1 = dm_latency m" by (simp_all add: m1(1) cooldown_effect)
  ultimately show ?case by (simp add: c k Let_def key_of_dialog_def dialog_hit_score_def dialog_latency_ms_def)
qed simp

lemma rank_dialogs_sorts:
  "fst (rank_dialogs now preferred_sources hit_scores dialogs m)
   = sort_key (key_of_dialog now (filter (\<lambda>s. s \<noteq> []) (map strip preferred_sources)) hit_scores m) dialogs"
proof -
  have decorate: "map snd (sort_key fst (map (\<lambda>d. (f d, d)) ds)) = sort_key f ds" for f :: "pyval \<Rightarrow> dialog_key" and ds
  proof -
    have ins: "map snd (insort_key fst (f x, x) (map (\<lambda>d. (f d, d)) xs)) = insort_key f x xs"
      "insort_key fst (f x, x) (map (\<lambda>d. (f d, d)) xs) = map (\<lambda>d. (f d, d)) (insort_key f x xs)" for x xs
      by (induction xs) (auto simp: comp_def)
    have "sort_key fst (map (\<lambda>d. (f d, d)) ds) = map (\<lambda>d. (f d, d)) (sort_key f ds)"
      by (induction ds) (simp_all add: sort_key_def ins(2))
    then show ?thesis by (simp add: comp_def)
  qed
  show ?thesis
    using keyed_dialogs_map [of now "filter (\<lambda>s. s \<noteq> []) (map strip preferred_sources)" hit_scores dialogs m] decorate
    by (auto simp: rank_dialogs_def Let_def split: prod.splits)
qed

lemma sorted_split: "sorted (map f xs) \<Longrightarrow> xs = filter (\<lambda>x. f x < c) xs @ filter (\<lambda>x. \<not> f x < c) xs"
proof (induction xs)
  case (Cons x xs)
  show ?case
  proof (cases "f x < c")
    case False
    then have "filter (\<lambda>x. f x < c) xs = []" "filter (\<lambda>x. \<not> f x < c) xs = xs"
      using Cons.prems by (auto simp: filter_empty_conv filter_id_conv not_less)
    then show ?thesis using False by simp
  qed (use Cons in simp)
qed simp

text \<open>Nothing is lost or invented, and the dialogs with preferred sources come first.\<close>

lemma dialogs_permuted: "mset (fst (rank_dialogs now preferred_sources hit_scores dialogs m)) = mset dialogs"
  by (simp add: rank_dialogs_sorts)

lemma preferred_first:
  assumes preferred: "preferred = (\<lambda>d. dialog_name d \<in> set (filter (\<lambda>s. s \<noteq> []) (map strip preferred_sources)))"
    and ranked: "ranked = fst (rank_dialogs now preferred_sources hit_scores dialogs m)"
  shows "ranked = filter preferred ranked @ filter (\<lambda>d. \<not> preferred d) ranked"
proof -
  let ?key = "key_of_dialog now (filter (\<lambda>s. s \<noteq> []) (map strip preferred_sources)) hit_scores m"
  have "sorted (map ?key (sort_key ?key dialogs))" by (rule sorted_sort_key)
  then have mono: "sorted (map (fst \<circ> ?key) (sort_key ?key dialogs))"
    unfolding sorted_map by (auto elim!: sorted_wrt_mono_rel [rotated] simp: less_eq_prod_def)
  have "((fst \<circ> ?key) d < 1) = preferred d" for d by (auto simp: key_of_dialog_def Let_def preferred)
  then show ?thesis using sorted_split [OF mono, of 1] by (simp add: ranked rank_dialogs_sorts)
qed

text \<open>A slow answer puts the dialog behind the others that are as preferred, for two minutes or until it has a hit.\<close>

lemma slow_dialog_cools:
  assumes "strip source \<noteq> []" "SLOW_DIALOG_MS \<le> latency" "0 \<le> now"
  shows "fst (dialog_on_cooldown t source (note_dialog_latency now source latency False m))
      \<longleftrightarrow> t < now + SLOW_DIALOG_COOLDOWN_SECONDS"
  using assms by (auto simp: dialog_on_cooldown_def note_dialog_latency_def Let_def value_or_def update_conv'
      SLOW_DIALOG_COOLDOWN_SECONDS_def)

lemma hit_ends_cooldown:
  "0 < amount \<Longrightarrow> \<not> fst (dialog_on_cooldown t source (note_dialog_hit source amount m))"
  "\<not> fst (dialog_on_cooldown t source (note_dialog_latency now source latency True m))"
  by (auto simp: dialog_on_cooldown_def note_dialog_hit_def note_dialog_latency_def Let_def value_or_def delete_conv')

section \<open>Cursors\<close>

lemma cursor_after:
  "0 \<le> telegram_cursor source table \<Longrightarrow>
     telegram_cursor s (update_telegram_cursor source message_id table)
     = (if s = source then max (telegram_cursor source table) message_id else telegram_cursor s table)"
  by (auto simp: telegram_cursor_def update_telegram_cursor_def value_or_def update_conv' split: option.splits)

text \<open>Whatever the order of the updates, the cursor is the largest id that was reported.\<close>

lemma cursor_is_largest:
  assumes "\<forall>s. 0 \<le> telegram_cursor s table"
  shows "telegram_cursor s (fold (\<lambda>(source, message_id). update_telegram_cursor source message_id) updates table)
      = Max (insert (telegram_cursor s table) (snd ` {p \<in> set updates. fst p = s}))"
  using assms
proof (induction updates arbitrary: table)
  case (Cons x updates)
  obtain source i where x: "x = (source, i)" by fastforce
  let ?t = "update_telegram_cursor source i table"
  have fin: "finite (snd ` {p \<in> set updates. fst p = s})" by simp
  have max_step: "Max (insert (max a b) A) = Max (insert a (insert b A))" if "finite A" for a b :: int and A
    using that by (cases "A = {}") (simp_all add: max.assoc)
  have t: "telegram_cursor s' ?t = (if s' = source then max (telegram_cursor source table) i else telegram_cursor s' table)" for s'
    using Cons.prems by (intro cursor_after) blast
  then have "\<forall>s. 0 \<le> telegram_cursor s ?t" using Cons.prems by (auto simp: le_max_iff_disj)
  then have "telegram_cursor s (fold (\<lambda>(source, message_id). update_telegram_cursor source message_id) (x # updates) table)
      = Max (insert (telegram_cursor s ?t) (snd ` {p \<in> set updates. fst p = s}))"
    using Cons.IH by (simp add: x)
  also have "\<dots> = Max (insert (telegram_cursor s table) (snd ` {p \<in> set (x # updates). fst p = s}))"
  proof (cases "source = s")
    case True
    then have "{p \<in> set (x # updates). fst p = s} = insert (s, i) {p \<in> set updates. fst p = s}" by (auto simp: x)
    then have "snd ` {p \<in> set (x # updates). fst p = s} = insert i (snd ` {p \<in> set updates. fst p = s})" by simp
    then show ?thesis using max_step [OF fin, of "telegram_cursor s table" i] True t [of s] by simp
  next
    case False
    then have "{p \<in> set (x # updates). fst p = s} = {p \<in> set updates. fst p = s}" by (auto simp: x)
    then show ?thesis using False by (simp add: t)
  qed
  finally show ?case .
qed simp

end
