(* ===== verification/Telegram_Index.thy ===== *)
theory Telegram_Index
  imports Telegram_Links Telegram_Memory
begin

text \<open>
  The index of Telegram messages in the database: its rows (\<open>scan/message_index_build.py\<close>), the choice of candidates
  (\<open>scan/message_index_query.py\<close>), and saving, pruning and searching (\<open>scan/message_index.py\<close>).  The table is a list of rows; the full
  text search of SQLite is a parameter, which holds of a row or fails.  Rows of the same id are taken in the order of the table.
  Shown: the table has one row for a message and at most 2500 for a source; indexing one source leaves the others alone; a search
  returns at most the number asked for, each link once, and only shares whose part of the message fits a query; a
  search without result hides for two minutes whatever is indexed meanwhile.
\<close>

definition TELEGRAM_INDEX_MAX_PER_SOURCE :: nat where "TELEGRAM_INDEX_MAX_PER_SOURCE = 2500"
definition TELEGRAM_INDEX_QUERY_LIMIT :: nat where "TELEGRAM_INDEX_QUERY_LIMIT = 600"
definition TELEGRAM_INDEX_PREFILTER_LIMIT :: nat where "TELEGRAM_INDEX_PREFILTER_LIMIT = 120"
definition TELEGRAM_INDEX_FTS_LIMIT :: nat where "TELEGRAM_INDEX_FTS_LIMIT = 160"

section \<open>Rows\<close>

record index_row =
  ix_source :: pystr
  ix_message_id :: int
  ix_text :: pystr
  ix_context :: pystr
  ix_blob :: pystr
  ix_has_115 :: bool
  ix_has_hint :: bool
  ix_date :: "pystr option"
  ix_at :: pystr

definition search_blob_for :: "pystr \<Rightarrow> pystr \<Rightarrow> pystr" where
  "search_blob_for t context = compact_search_text (context @ [10] @ t)"

text \<open>The message before in the list; in the lists of the client, newest first, it is the one that was sent after.\<close>

definition message_context :: "(pystr \<Rightarrow> pystr) \<Rightarrow> message list \<Rightarrow> nat \<Rightarrow> pystr" where
  "message_context unescape messages index =
     (let current = strip (telegram_message_text (messages ! index));
          previous = strip (telegram_message_text (messages ! (index - 1)))
      in if current = [] \<or> extract_115_links unescape current = [] \<or> index = 0
            \<or> previous = [] \<or> extract_115_links unescape previous \<noteq> []
         then current else previous @ [10] @ current)"

definition has_link_hint :: "(pystr \<Rightarrow> pystr) \<Rightarrow> message \<Rightarrow> pystr \<Rightarrow> bool" where
  "has_link_hint unescape m context \<longleftrightarrow>
     extract_115_links unescape context \<noteq> [] \<or> text_has_external_resource_page_hint context \<or> message_has_link_button_hint unescape m"

definition index_row_of :: "(pystr \<Rightarrow> pystr) \<Rightarrow> (message \<Rightarrow> pystr option) \<Rightarrow> pystr \<Rightarrow> pystr \<Rightarrow> message list \<Rightarrow> nat \<Rightarrow> index_row" where
  "index_row_of unescape date now source messages i =
     (let m = messages ! i; t = telegram_message_text m; context = message_context unescape messages i in
      \<lparr>ix_source = source, ix_message_id = tm_id m, ix_text = t, ix_context = context, ix_blob = search_blob_for t context,
       ix_has_115 = (extract_115_links unescape t \<noteq> []), ix_has_hint = has_link_hint unescape m context,
       ix_date = date m, ix_at = now\<rparr>)"

definition index_rows :: "(pystr \<Rightarrow> pystr) \<Rightarrow> (message \<Rightarrow> pystr option) \<Rightarrow> pystr \<Rightarrow> pystr \<Rightarrow> message list \<Rightarrow> index_row list" where
  "index_rows unescape date now source messages =
     map (index_row_of unescape date now source messages)
       (filter (\<lambda>i. tm_id (messages ! i) \<noteq> 0 \<and> telegram_message_text (messages ! i) \<noteq> []) [0..<length messages])"

section \<open>Saving\<close>

definition index_row_key :: "index_row \<Rightarrow> pystr \<times> int" where
  "index_row_key r = (ix_source r, ix_message_id r)"

text \<open>\<open>INSERT ... ON CONFLICT(source, message_id) DO UPDATE\<close>: the other columns are all replaced.\<close>

definition upsert_row :: "index_row \<Rightarrow> index_row list \<Rightarrow> index_row list" where
  "upsert_row r table =
     (if index_row_key r \<in> index_row_key ` set table then map (\<lambda>old. if index_row_key old = index_row_key r then r else old) table else table @ [r])"

definition newest_ids :: "nat \<Rightarrow> pystr \<Rightarrow> index_row list \<Rightarrow> int list" where
  "newest_ids n source table = take n (rev (sort (map ix_message_id (filter (\<lambda>r. ix_source r = source) table))))"

text \<open>\<open>cutoff\<close> is the text of the time four weeks ago.\<close>

definition prune_source_index :: "pystr \<Rightarrow> pystr \<Rightarrow> index_row list \<Rightarrow> index_row list" where
  "prune_source_index cutoff source table =
     (let count = length (filter (\<lambda>r. ix_source r = source) table);
          keep = newest_ids TELEGRAM_INDEX_MAX_PER_SOURCE source table;
          capped = (if TELEGRAM_INDEX_MAX_PER_SOURCE < count
                    then filter (\<lambda>r. \<not> (ix_source r = source \<and> ix_message_id r \<notin> set keep)) table else table)
      in filter (\<lambda>r. \<not> (ix_source r = source \<and> ix_at r < cutoff)) capped)"

definition index_telegram_messages ::
    "(pystr \<Rightarrow> pystr) \<Rightarrow> (message \<Rightarrow> pystr option) \<Rightarrow> pystr \<Rightarrow> pystr \<Rightarrow> pystr \<Rightarrow> message list \<Rightarrow> index_row list \<Rightarrow> nat \<times> index_row list" where
  "index_telegram_messages unescape date now cutoff source messages table =
     (let items = index_rows unescape date now source messages in
      if items = [] then (0, table)
      else (length items, prune_source_index cutoff source (fold upsert_row items table)))"

definition max_indexed_message_id :: "pystr \<Rightarrow> index_row list \<Rightarrow> int" where
  "max_indexed_message_id source table =
     (let ids = map ix_message_id (filter (\<lambda>r. ix_source r = strip source) table) in
      if strip source = [] \<or> ids = [] then 0 else Max (set ids))"

definition prune_old_index_rows :: "int \<Rightarrow> pystr \<Rightarrow> index_row list \<Rightarrow> nat \<times> index_row list" where
  "prune_old_index_rows days cutoff table =
     (if days \<le> 0 then (0, table)
      else (length (filter (\<lambda>r. ix_at r < cutoff) table), filter (\<lambda>r. \<not> ix_at r < cutoff) table))"

section \<open>Candidates\<close>

definition prefilter_term :: "pystr \<Rightarrow> pystr option" where
  "prefilter_term value =
     (let s = strip value; t = re_sub SPACE_RE [] (re_sub YEAR_RE [32] s) in
      if length s < 2 \<or> length t < 2 then None else Some (take 24 t))"

definition add_prefilter_term :: "pystr \<Rightarrow> pystr list \<Rightarrow> pystr list" where
  "add_prefilter_term value terms =
     (case prefilter_term value of
        None \<Rightarrow> terms
      | Some t \<Rightarrow> if casefold t \<in> casefold ` set terms then terms else terms @ [t])"

text \<open>No further alias is taken once there are twelve stems.\<close>

definition add_alias_terms :: "pystr \<Rightarrow> pystr list \<Rightarrow> pystr list" where
  "add_alias_terms a terms =
     (if 12 \<le> length terms then terms
      else let terms' = add_prefilter_term a terms in
           if compact_search_text a \<noteq> [] then add_prefilter_term (compact_search_text a) terms' else terms')"

definition term_aliases :: "pystr \<Rightarrow> pystr list" where
  "term_aliases query = (if query_match_aliases query = [] then [strip query] else query_match_aliases query)"

text \<open>The first alias of the first query is always taken, for the list is empty then.\<close>

definition index_prefilter_terms :: "pystr list \<Rightarrow> pystr list" where
  "index_prefilter_terms queries =
     sort_key (\<lambda>t. (- int (length t), casefold t)) (fold add_alias_terms (concat (map term_aliases queries)) [])"

definition compact_terms :: "pystr list \<Rightarrow> pystr list" where
  "compact_terms terms =
     sort_key (\<lambda>t. (- int (length t), t))
       (first_only (filter (\<lambda>t. t \<noteq> []) (map compact_search_text (filter (\<lambda>t. t \<noteq> []) (map strip terms)))))"

definition cjk_char :: "nat \<Rightarrow> bool" where
  "cjk_char c \<longleftrightarrow> 0x4E00 \<le> c \<and> c \<le> 0x9FFF"

definition cjk_ngrams :: "nat \<Rightarrow> pystr \<Rightarrow> pystr list" where
  "cjk_ngrams n t =
     concat (map (\<lambda>m. let chunk = m_text m in
         if length chunk < n then [] else map (\<lambda>i. take n (drop i chunk)) [0..<length chunk - n + 1])
       (re_finditer (many1 (Cls cjk_char)) (re_sub SPACE_RE [] t)))"

definition FTS_DROP_RE :: re where
  [re_pats]: "FTS_DROP_RE = many1 (Cls (\<lambda>c. \<not> is_word c \<and> \<not> cjk_char c))"

definition quoted :: "pystr \<Rightarrow> pystr" where
  "quoted t = [34] @ t @ [34]"

definition fts_parts :: "pystr \<Rightarrow> pystr list \<Rightarrow> pystr list" where
  "fts_parts t parts =
     (let token = strip (re_sub FTS_DROP_RE [32] t) in
      if 12 \<le> length parts \<or> length token < 2 then parts else parts @ quoted token # map quoted (cjk_ngrams 2 token))"

definition fts_match_query :: "pystr list \<Rightarrow> pystr" where
  "fts_match_query terms = join (u '' OR '') (take 12 (first_only (fold fts_parts terms [])))"

text \<open>\<open>ORDER BY message_id DESC LIMIT n\<close> on the rows with a share of some sources\<close>

definition newest_rows :: "nat \<Rightarrow> pystr list \<Rightarrow> (index_row \<Rightarrow> bool) \<Rightarrow> index_row list \<Rightarrow> index_row list" where
  "newest_rows n sources P table =
     take n (sort_key (\<lambda>r. - ix_message_id r) (filter (\<lambda>r. ix_has_115 r \<and> ix_source r \<in> set sources \<and> P r) table))"

type_synonym fts = "pystr \<Rightarrow> (index_row \<Rightarrow> bool) option"

definition candidate_rows_fts :: "fts \<Rightarrow> pystr list \<Rightarrow> pystr list \<Rightarrow> index_row list \<Rightarrow> index_row list" where
  "candidate_rows_fts fts sources stems table =
     (let expr = fts_match_query (take 4 stems) in
      if stems = [] \<or> expr = [] then []
      else case fts expr of None \<Rightarrow> [] | Some matches \<Rightarrow> newest_rows TELEGRAM_INDEX_FTS_LIMIT sources matches table)"

text \<open>The stems are letters and digits in small letters, as the blob: \<open>LIKE\<close> finds them where they occur.\<close>

definition candidate_rows_like :: "pystr list \<Rightarrow> pystr list \<Rightarrow> index_row list \<Rightarrow> index_row list" where
  "candidate_rows_like sources stems table =
     (if stems = [] then []
      else newest_rows TELEGRAM_INDEX_PREFILTER_LIMIT sources (\<lambda>r. list_ex (\<lambda>t. contains t (ix_blob r)) (take 4 stems)) table)"

definition candidate_rows_recent :: "pystr list \<Rightarrow> index_row list \<Rightarrow> index_row list" where
  "candidate_rows_recent sources table =
     newest_rows (min TELEGRAM_INDEX_QUERY_LIMIT (max 80 (40 * length sources))) sources (\<lambda>_. True) table"

definition candidate_rows :: "fts \<Rightarrow> pystr list \<Rightarrow> pystr list \<Rightarrow> index_row list \<Rightarrow> index_row list" where
  "candidate_rows fts sources terms table =
     (let clean = filter (\<lambda>s. s \<noteq> []) (map strip sources);
          stems = compact_terms terms;
          by_fts = candidate_rows_fts fts clean stems table;
          by_like = candidate_rows_like clean stems table
      in if clean = [] then []
         else if by_fts \<noteq> [] then by_fts
         else if by_like \<noteq> [] then by_like
         else candidate_rows_recent clean table)"

section \<open>Searching\<close>

definition title_from_context :: "pystr \<Rightarrow> pystr \<Rightarrow> pystr" where
  "title_from_context context matched_query =
     (let title = telegram_resource_title context in
      if title \<noteq> [] \<and> \<not> starts_with (u ''Telegram '') title then take 160 title
      else case List.find (\<lambda>line. matched_query \<noteq> [] \<and> local_text_matches_query line matched_query) (splitlines context) of
          Some line \<Rightarrow> take 160 (strip line)
        | None \<Rightarrow> or_str matched_query (u ''Telegram index hit''))"

definition row_to_result :: "index_row \<Rightarrow> pystr \<Rightarrow> pystr \<Rightarrow> pystr \<Rightarrow> search_result" where
  "row_to_result row url context matched_query =
     (let title = title_from_context context matched_query;
          named = title \<noteq> [] \<and> \<not> starts_with (u ''Telegram '') title;
          safe_context = (if named \<and> \<not> contains title context then title @ [10] @ url
                          else if named then or_str (context_for_115_link context url) context else context);
          origin = strip (ix_source row)
      in \<lparr>r_title = title, r_url = url,
          r_source = (if origin \<noteq> [] then u ''TelegramIndex:'' @ origin else u ''TelegramIndex''),
          r_message_id = Some (int_str (ix_message_id row)), r_context = safe_context, r_priority = 30\<rparr>)"

definition row_context :: "index_row \<Rightarrow> pystr" where
  "row_context row = or_str (ix_context row) (ix_text row)"

definition url_fits :: "index_row \<Rightarrow> pystr \<Rightarrow> pystr \<Rightarrow> bool" where
  "url_fits row matched_query url =
     (let scoped = context_for_115_link (row_context row) url; title = telegram_resource_title scoped in
      local_text_matches_query scoped matched_query
      \<and> (title = [] \<or> starts_with (u ''Telegram '') title \<or> local_text_matches_query title matched_query))"

text \<open>The links of a row that fit, with the query that fits its text\<close>

definition row_hits :: "(pystr \<Rightarrow> pystr) \<Rightarrow> pystr list \<Rightarrow> index_row \<Rightarrow> search_result list" where
  "row_hits unescape queries row =
     (case List.find (\<lambda>q. local_text_matches_query (row_context row) q) queries of
        None \<Rightarrow> []
      | Some q \<Rightarrow>
          if q = [] then []
          else map (\<lambda>url. row_to_result row url (context_for_115_link (row_context row) url) q)
                 (filter (url_fits row q) (extract_115_links unescape (ix_text row))))"

definition add_hit :: "nat \<Rightarrow> search_result \<Rightarrow> search_result list \<Rightarrow> search_result list" where
  "add_hit limit r results =
     (if limit \<le> length results \<or> r_url r \<in> r_url ` set results then results else results @ [r])"

definition search_telegram_message_index ::
    "(pystr \<Rightarrow> pystr) \<Rightarrow> fts \<Rightarrow> time \<Rightarrow> pystr list \<Rightarrow> pystr list \<Rightarrow> nat \<Rightarrow> index_row list \<Rightarrow> (pystr \<times> time) list
       \<Rightarrow> search_result list \<times> (pystr \<times> time) list" where
  "search_telegram_message_index unescape fts now sources queries limit table negative =
     (if sources = [] \<or> queries = [] \<or> limit = 0 then ([], negative)
      else case negative_cache_hit now sources queries negative of
          (True, negative') \<Rightarrow> ([], negative')
        | (False, negative') \<Rightarrow>
            (let rows = candidate_rows fts sources (index_prefilter_terms queries) table;
                 results = fold (add_hit limit) (concat (map (row_hits unescape queries) rows)) []
             in (results, if results = [] then negative_cache_store now sources queries negative' else negative')))"

section \<open>The table\<close>

definition index_ok :: "index_row list \<Rightarrow> bool" where
  "index_ok table \<longleftrightarrow> distinct (map index_row_key table)"

definition of_source :: "pystr \<Rightarrow> index_row list \<Rightarrow> index_row list" where
  "of_source source table = filter (\<lambda>r. ix_source r = source) table"

lemma upsert_ok: "index_ok table \<Longrightarrow> index_ok (upsert_row r table)"
proof -
  assume ok: "index_ok table"
  have "map index_row_key (map (\<lambda>old. if index_row_key old = index_row_key r then r else old) table) = map index_row_key table" by simp
  then have "index_ok (map (\<lambda>old. if index_row_key old = index_row_key r then r else old) table)"
    using ok unfolding index_ok_def by (simp only:)
  then show ?thesis using ok by (auto simp: upsert_row_def index_ok_def)
qed

lemma upsert_other: "ix_source r \<noteq> s \<Longrightarrow> of_source s (upsert_row r table) = of_source s table"
proof -
  assume other: "ix_source r \<noteq> s"
  have "of_source s (map (\<lambda>old. if index_row_key old = index_row_key r then r else old) table) = of_source s table"
    using other by (induction table) (auto simp: of_source_def index_row_key_def)
  then show ?thesis using other by (simp add: upsert_row_def) (simp add: of_source_def)
qed

lemma prune_ok: "index_ok table \<Longrightarrow> index_ok (prune_source_index cutoff source table)"
  by (simp add: index_ok_def prune_source_index_def Let_def distinct_map_filter)

lemma prune_other: "s \<noteq> source \<Longrightarrow> of_source s (prune_source_index cutoff source table) = of_source s table"
  by (auto simp: prune_source_index_def Let_def of_source_def intro!: filter_cong)

lemma source_ids_distinct: "index_ok table \<Longrightarrow> distinct (map ix_message_id (of_source source table))"
proof -
  assume "index_ok table"
  then have "distinct (map index_row_key (of_source source table))" by (simp add: index_ok_def of_source_def distinct_map_filter)
  then show ?thesis by (auto simp: distinct_map inj_on_def of_source_def index_row_key_def)
qed

lemma kept_rows_bounded:
  assumes "distinct (map f xs)" "set (map f xs) \<subseteq> set ks"
  shows "length xs \<le> length ks"
  using card_mono [OF finite_set assms(2)] card_length [of ks] distinct_card [OF assms(1)] by (simp del: set_map)

lemma prune_bounded:
  assumes "index_ok table"
  shows "length (of_source source (prune_source_index cutoff source table)) \<le> TELEGRAM_INDEX_MAX_PER_SOURCE"
proof -
  let ?keep = "newest_ids TELEGRAM_INDEX_MAX_PER_SOURCE source table"
  let ?capped = "if TELEGRAM_INDEX_MAX_PER_SOURCE < length (filter (\<lambda>r. ix_source r = source) table)
    then filter (\<lambda>r. \<not> (ix_source r = source \<and> ix_message_id r \<notin> set ?keep)) table else table"
  have cap: "length (of_source source ?capped) \<le> TELEGRAM_INDEX_MAX_PER_SOURCE"
  proof (cases "TELEGRAM_INDEX_MAX_PER_SOURCE < length (filter (\<lambda>r. ix_source r = source) table)")
    case True
    have "index_ok ?capped" using assms by (simp add: index_ok_def distinct_map_filter)
    then have "distinct (map ix_message_id (of_source source ?capped))" by (rule source_ids_distinct)
    moreover have "set (map ix_message_id (of_source source ?capped)) \<subseteq> set ?keep" using True by (auto simp: of_source_def)
    ultimately have "length (of_source source ?capped) \<le> length ?keep" by (rule kept_rows_bounded)
    also have "\<dots> \<le> TELEGRAM_INDEX_MAX_PER_SOURCE" by (simp add: newest_ids_def)
    finally show ?thesis .
  qed (simp add: of_source_def)
  have "prune_source_index cutoff source table = filter (\<lambda>r. \<not> (ix_source r = source \<and> ix_at r < cutoff)) ?capped"
    by (simp add: prune_source_index_def Let_def)
  then have shape: "of_source source (prune_source_index cutoff source table)
      = filter (\<lambda>r. \<not> (ix_source r = source \<and> ix_at r < cutoff)) (of_source source ?capped)"
    by (simp only: of_source_def filter_filter conj_commute)
  show ?thesis unfolding shape by (rule le_trans [OF length_filter_le cap])
qed

lemma index_rows_member:
  "r \<in> set (index_rows unescape date now source messages) \<Longrightarrow>
     ix_source r = source \<and> ix_at r = now
     \<and> (\<exists>m \<in> set messages. tm_id m \<noteq> 0 \<and> ix_message_id r = tm_id m \<and> ix_text r = telegram_message_text m
          \<and> ix_has_115 r = (extract_115_links unescape (ix_text r) \<noteq> []))"
  by (auto simp: index_rows_def index_row_of_def Let_def)

lemma upserts_ok: "index_ok table \<Longrightarrow> index_ok (fold upsert_row items table)"
  by (rule fold_maintains) (simp_all add: upsert_ok)

lemma upserts_other: "\<forall>r \<in> set items. ix_source r \<noteq> s \<Longrightarrow> of_source s (fold upsert_row items table) = of_source s table"
  by (induction items arbitrary: table) (auto simp: upsert_other)

text \<open>Indexing keeps the key, bounds the rows of its source, and leaves other sources alone.\<close>

theorem indexing_keeps_table:
  assumes "index_ok table" "length (of_source source table) \<le> TELEGRAM_INDEX_MAX_PER_SOURCE"
  shows "index_ok (snd (index_telegram_messages unescape date now cutoff source messages table))"
    "length (of_source source (snd (index_telegram_messages unescape date now cutoff source messages table))) \<le> TELEGRAM_INDEX_MAX_PER_SOURCE"
    "s \<noteq> source \<Longrightarrow> of_source s (snd (index_telegram_messages unescape date now cutoff source messages table)) = of_source s table"
proof -
  let ?items = "index_rows unescape date now source messages"
  have ok: "index_ok (fold upsert_row ?items table)" using assms(1) by (rule upserts_ok)
  show "index_ok (snd (index_telegram_messages unescape date now cutoff source messages table))"
    using assms prune_ok [OF ok] by (auto simp: index_telegram_messages_def Let_def)
  show "length (of_source source (snd (index_telegram_messages unescape date now cutoff source messages table))) \<le> TELEGRAM_INDEX_MAX_PER_SOURCE"
    using assms prune_bounded [OF ok] by (auto simp: index_telegram_messages_def Let_def)
  have "\<forall>r \<in> set ?items. ix_source r \<noteq> s" if "s \<noteq> source" using that index_rows_member by blast
  then show "of_source s (snd (index_telegram_messages unescape date now cutoff source messages table)) = of_source s table" if "s \<noteq> source"
    using that prune_other [OF that] upserts_other by (auto simp: index_telegram_messages_def Let_def)
qed

section \<open>Searches\<close>

lemma newest_rows_member: "r \<in> set (newest_rows n sources P table) \<Longrightarrow> r \<in> set table \<and> ix_source r \<in> set sources \<and> P r \<and> ix_has_115 r"
  by (auto simp: newest_rows_def dest!: in_set_takeD)

lemma candidate_rows_member:
  "r \<in> set (candidate_rows fts sources terms table) \<Longrightarrow> r \<in> set table \<and> ix_source r \<in> strip ` set sources"
  by (auto simp: candidate_rows_def candidate_rows_fts_def candidate_rows_like_def candidate_rows_recent_def Let_def
      split: if_splits option.splits dest!: newest_rows_member)

lemma newest_rows_bounded: "n \<le> limit \<Longrightarrow> length (newest_rows n sources P table) \<le> limit"
  by (simp add: newest_rows_def)

lemma candidate_rows_bounded: "length (candidate_rows fts sources terms table) \<le> TELEGRAM_INDEX_QUERY_LIMIT"
proof -
  have "length (candidate_rows_fts fts ss ts table) \<le> TELEGRAM_INDEX_QUERY_LIMIT" for ss ts
    unfolding candidate_rows_fts_def Let_def
    by (cases "fts (fts_match_query (take 4 ts))")
       (simp_all add: newest_rows_bounded TELEGRAM_INDEX_QUERY_LIMIT_def TELEGRAM_INDEX_FTS_LIMIT_def)
  moreover have "length (candidate_rows_like ss ts table) \<le> TELEGRAM_INDEX_QUERY_LIMIT" for ss ts
    unfolding candidate_rows_like_def
    by (simp add: newest_rows_bounded TELEGRAM_INDEX_QUERY_LIMIT_def TELEGRAM_INDEX_PREFILTER_LIMIT_def)
  moreover have "length (candidate_rows_recent ss table) \<le> TELEGRAM_INDEX_QUERY_LIMIT" for ss
    unfolding candidate_rows_recent_def by (rule newest_rows_bounded) simp
  ultimately show ?thesis by (simp add: candidate_rows_def Let_def)
qed

lemma fold_add_hit:
  assumes "distinct (map r_url acc)" "length acc \<le> limit"
  shows "distinct (map r_url (fold (add_hit limit) hits acc)) \<and> length (fold (add_hit limit) hits acc) \<le> limit"
    "set (fold (add_hit limit) hits acc) \<subseteq> set acc \<union> set hits"
proof -
  show "distinct (map r_url (fold (add_hit limit) hits acc)) \<and> length (fold (add_hit limit) hits acc) \<le> limit"
    by (rule fold_maintains [where P = "\<lambda>acc. distinct (map r_url acc) \<and> length acc \<le> limit"]) (use assms in \<open>auto simp: add_hit_def\<close>)
  show "set (fold (add_hit limit) hits acc) \<subseteq> set acc \<union> set hits"
  proof (induction hits arbitrary: acc)
    case (Cons h hits)
    have "set (add_hit limit h acc) \<subseteq> insert h (set acc)" by (auto simp: add_hit_def)
    then show ?case using Cons [of "add_hit limit h acc"] by auto
  qed simp
qed

definition hit_sound :: "(pystr \<Rightarrow> pystr) \<Rightarrow> pystr list \<Rightarrow> index_row \<Rightarrow> search_result \<Rightarrow> bool" where
  "hit_sound unescape queries row r \<longleftrightarrow>
     r_url r \<in> set (extract_115_links unescape (ix_text row)) \<and> r_message_id r = Some (int_str (ix_message_id row)) \<and> r_priority r = 30
     \<and> (\<exists>q \<in> set queries. q \<noteq> [] \<and> local_text_matches_query (context_for_115_link (row_context row) (r_url r)) q)"

lemma row_hits_sound: "r \<in> set (row_hits unescape queries row) \<Longrightarrow> hit_sound unescape queries row r"
proof -
  assume r: "r \<in> set (row_hits unescape queries row)"
  then obtain q where q: "List.find (\<lambda>q. local_text_matches_query (row_context row) q) queries = Some q"
    by (cases "List.find (\<lambda>q. local_text_matches_query (row_context row) q) queries") (simp_all add: row_hits_def)
  then have "q \<noteq> []" using r by (auto simp: row_hits_def)
  then obtain url where url: "url \<in> set (extract_115_links unescape (ix_text row))" "url_fits row q url"
    and res: "r = row_to_result row url (context_for_115_link (row_context row) url) q"
    using r q by (auto simp: row_hits_def)
  have "q \<in> set queries" using q by (auto simp: find_Some_iff)
  then show ?thesis using \<open>q \<noteq> []\<close> url res by (auto simp: hit_sound_def row_to_result_def Let_def url_fits_def)
qed

theorem index_results_sound:
  assumes "results = fst (search_telegram_message_index unescape fts now sources queries limit table negative)"
  shows "length results \<le> limit" "distinct (map r_url results)"
    "\<forall>r \<in> set results. \<exists>row \<in> set table. ix_source row \<in> strip ` set sources \<and> hit_sound unescape queries row r"
proof -
  let ?rows = "candidate_rows fts sources (index_prefilter_terms queries) table"
  let ?hits = "concat (map (row_hits unescape queries) ?rows)"
  note acc = fold_add_hit [of "[]" limit ?hits]
  have cases: "results = [] \<or> results = fold (add_hit limit) ?hits []"
    by (auto simp: assms search_telegram_message_index_def Let_def split: prod.splits bool.splits)
  then show "length results \<le> limit" "distinct (map r_url results)" using acc(1) by auto
  show "\<forall>r \<in> set results. \<exists>row \<in> set table. ix_source row \<in> strip ` set sources \<and> hit_sound unescape queries row r"
  proof
    fix r assume "r \<in> set results"
    then have "r \<in> set ?hits" using cases acc(2) by auto
    then obtain row where "row \<in> set ?rows" "r \<in> set (row_hits unescape queries row)" by auto
    then show "\<exists>row \<in> set table. ix_source row \<in> strip ` set sources \<and> hit_sound unescape queries row r"
      using candidate_rows_member row_hits_sound by blast
  qed
qed

text \<open>A search that found nothing is not made again for two minutes, whatever the table holds by then.\<close>

theorem empty_search_remembered:
  assumes "search_telegram_message_index unescape fts now sources queries limit table negative = ([], negative')"
    "sources \<noteq> []" "queries \<noteq> []" "limit \<noteq> 0" "length negative < 512"
    "\<not> fst (negative_cache_hit now sources queries negative)" "t < now + TELEGRAM_INDEX_NEGATIVE_TTL_SECONDS"
  shows "fst (search_telegram_message_index unescape fts t sources queries limit table' negative') = []"
proof -
  obtain negative1 where look: "negative_cache_hit now sources queries negative = (False, negative1)"
    using assms(6) by (metis (full_types) prod.collapse)
  then have "length negative1 \<le> length negative"
    by (auto simp: negative_cache_hit_def length_delete_le split: option.splits if_splits)
  then have "length negative1 < 512" using assms(5) by simp
  moreover have "negative' = negative_cache_store now sources queries negative1"
    using assms(1-4) look by (auto simp: search_telegram_message_index_def Let_def split: if_splits)
  ultimately have "fst (negative_cache_hit t sources queries negative')" using negative_hit_after_store assms(7) by simp
  then show ?thesis
    by (cases "negative_cache_hit t sources queries negative'") (auto simp: search_telegram_message_index_def split: bool.splits)
qed

end
