(* ===== verification/Telegram_Recent.thy ===== *)
theory Telegram_Recent
  imports Telegram_Index
begin

text \<open>
  The scan of the recent messages of a dialog: the windows around a message (\<open>history/recent_windows.py\<close>), the extraction of their
  links (\<open>history/recent_extract.py\<close>, \<open>pipeline.py\<close>), and the reading with its watermarks and cursors (\<open>history/recent.py\<close>), with the
  options of \<open>history/config.py\<close>.  Whether the budget is used up when a message is reached is a parameter, as are the answers of the
  client.  Timings and logs are left out.
  Shown: a message that gave links is not read again within a search; a second
  scan of the same messages within ten minutes reads none of them, whatever it looks for; the cursor never goes
  back, and stops at the oldest message of the run of safe ones that begins with the newest, so that unsafe messages
  below it are not read again.
\<close>

section \<open>Options\<close>

definition TELEGRAM_HISTORY_DEFAULT_FALLBACK_LIMIT :: int where "TELEGRAM_HISTORY_DEFAULT_FALLBACK_LIMIT = 300"
definition TELEGRAM_HISTORY_MAX_FALLBACK_LIMIT :: int where "TELEGRAM_HISTORY_MAX_FALLBACK_LIMIT = 500"
definition TELEGRAM_HISTORY_DEFAULT_MESSAGES_PER_QUERY :: int where "TELEGRAM_HISTORY_DEFAULT_MESSAGES_PER_QUERY = 12"

text \<open>The three counts; the time limits are numbers with a fraction and stay parameters where they matter.\<close>

record history_options =
  ho_history_limit :: int
  ho_fallback_scan_limit :: int
  ho_messages_per_query :: int

definition build_history_options :: "pyval \<Rightarrow> history_options" where
  "build_history_options config =
     (let history_limit = bounded_int (pget config (u ''history_limit'')) TELEGRAM_HISTORY_DEFAULT_FALLBACK_LIMIT 1 TELEGRAM_HISTORY_MAX_FALLBACK_LIMIT
      in \<lparr>ho_history_limit = history_limit,
          ho_fallback_scan_limit =
            bounded_int (pget config (u ''fallback_scan_limit'')) history_limit 20 TELEGRAM_HISTORY_MAX_FALLBACK_LIMIT,
          ho_messages_per_query =
            bounded_int (pget config (u ''messages_per_query'')) (min history_limit TELEGRAM_HISTORY_DEFAULT_MESSAGES_PER_QUERY)
              1 history_limit\<rparr>)"

definition word_count :: "pystr \<Rightarrow> nat" where
  "word_count s = length (filter (\<lambda>p. p \<noteq> []) (re_split SPACE_RE s))"

definition server_query_key :: "pystr \<Rightarrow> int \<times> int \<times> int \<times> int \<times> int" where
  "server_query_key item =
     (if search_years_from_text item \<noteq> {} then -1 else 0, if list_ex (\<lambda>c. 0x3400 \<le> c \<and> c \<le> 0x9FFF) item then 1 else 0,
      - int (max 1 (word_count item)), int (length (compact_search_text item)), int (length item))"

text \<open>The limit is looked at after a query was taken.\<close>

fun select_queries :: "int \<Rightarrow> pystr list \<Rightarrow> pystr list \<Rightarrow> pystr list" where
  "select_queries limit [] selected = selected"
| "select_queries limit (q # qs) selected =
     (let key = compact_search_text q in
      if key = [] \<or> key \<in> compact_search_text ` set selected then select_queries limit qs selected
      else if limit \<le> int (length selected) + 1 then selected @ [q]
      else select_queries limit qs (selected @ [q]))"

definition server_search_queries :: "pystr list \<Rightarrow> int \<Rightarrow> pystr list" where
  "server_search_queries queries limit =
     select_queries limit (sort_key server_query_key (filter (\<lambda>s. s \<noteq> []) (map strip queries))) []"

text \<open>\<open>p95\<close> is the latency the metrics report, if they can be read.\<close>

definition adaptive_messages_per_query :: "rat option \<Rightarrow> int \<Rightarrow> int" where
  "adaptive_messages_per_query p95 base =
     (case p95 of
        None \<Rightarrow> base
      | Some p \<Rightarrow>
          (let value = max 1 (if base = 0 then 1 else base) in
           if p \<le> 0 then value
           else if 900 \<le> p then max 3 (min value 5)
           else if 450 \<le> p then max 4 (min value 8)
           else value))"

section \<open>Windows\<close>

definition matched_recent_queries_in_text :: "pystr \<Rightarrow> pystr list \<Rightarrow> pystr list" where
  "matched_recent_queries_in_text t queries = filter (local_text_matches_query t) queries"

definition recent_window_messages :: "message list \<Rightarrow> nat \<Rightarrow> message list" where
  "recent_window_messages messages index = map (\<lambda>i. messages ! i) (around_index 4 index (length messages))"

definition recent_window_texts :: "message list \<Rightarrow> message \<Rightarrow> pystr list" where
  "recent_window_texts window base =
     fold (\<lambda>m texts. let t = telegram_message_text m in
         if t = [] \<or> t = telegram_message_text base \<or> t \<in> set texts then texts else texts @ [t]) window []"

definition message_has_link_hint :: "(pystr \<Rightarrow> pystr) \<Rightarrow> message \<Rightarrow> bool" where
  "message_has_link_hint unescape m \<longleftrightarrow>
     (let t = telegram_message_text m in
      extract_115_links unescape t \<noteq> [] \<or> text_has_external_resource_page_hint t \<or> message_has_link_button_hint unescape m)"

definition recent_link_anchor :: "(pystr \<Rightarrow> pystr) \<Rightarrow> message \<Rightarrow> message list \<Rightarrow> pystr list \<Rightarrow> message option" where
  "recent_link_anchor unescape m window texts =
     (case List.find (message_has_link_hint unescape) (m # window) of
        Some anchor \<Rightarrow> Some anchor
      | None \<Rightarrow>
          if list_ex (\<lambda>t. extract_115_links unescape t \<noteq> [] \<or> text_has_external_resource_page_hint t) texts then Some m else None)"

definition recent_extract_extra_texts :: "message \<Rightarrow> message \<Rightarrow> pystr list \<Rightarrow> pystr list" where
  "recent_extract_extra_texts m anchor texts =
     fold add_text_part (telegram_message_text m # telegram_message_text anchor # texts) []"

section \<open>Extraction\<close>

record pipeline_stats =
  ps_title_matched :: nat
  ps_link_windows :: nat
  ps_extracted_links :: nat
  ps_no_link :: nat
  ps_duplicate_messages :: nat
  ps_skipped_no_link_hint :: nat

definition new_pipeline_stats :: pipeline_stats where
  "new_pipeline_stats = \<lparr>ps_title_matched = 0, ps_link_windows = 0, ps_extracted_links = 0, ps_no_link = 0,
     ps_duplicate_messages = 0, ps_skipped_no_link_hint = 0\<rparr>"

text \<open>What a search of a dialog changes: the seen messages, the messages that are safe to skip, the counts and the caches\<close>

record dialog_state =
  ds_seen :: "int set"
  ds_safe :: "int set"
  ds_stats :: pipeline_stats
  ds_caches :: link_caches

definition pipeline_is_seen :: "message \<Rightarrow> dialog_state \<Rightarrow> bool" where
  "pipeline_is_seen m st \<longleftrightarrow> tm_id m \<noteq> 0 \<and> tm_id m \<in> ds_seen st"

definition pipeline_mark_seen :: "message \<Rightarrow> dialog_state \<Rightarrow> dialog_state" where
  "pipeline_mark_seen m st = (if tm_id m \<noteq> 0 then st\<lparr>ds_seen := insert (tm_id m) (ds_seen st)\<rparr> else st)"

definition count_stats :: "(pipeline_stats \<Rightarrow> pipeline_stats) \<Rightarrow> dialog_state \<Rightarrow> dialog_state" where
  "count_stats f st = st\<lparr>ds_stats := f (ds_stats st)\<rparr>"

definition pipeline_extract_message_links ::
    "(pystr \<Rightarrow> pystr) \<Rightarrow> telegram_world \<Rightarrow> time \<Rightarrow> pystr \<Rightarrow> message \<Rightarrow> pystr list \<Rightarrow> pystr list \<Rightarrow> dialog_state
       \<Rightarrow> search_result list \<times> dialog_state" where
  "pipeline_extract_message_links unescape w now source m queries extras st =
     (if pipeline_is_seen m st
      then ([], count_stats (\<lambda>s. s\<lparr>ps_duplicate_messages := ps_duplicate_messages s + 1\<rparr>) st)
      else case links_from_message unescape w now m source queries extras (ds_caches st) of
          (hits, caches) \<Rightarrow>
            (let st1 = st\<lparr>ds_caches := caches\<rparr> in
             if hits \<noteq> []
             then (hits, count_stats (\<lambda>s. s\<lparr>ps_extracted_links := ps_extracted_links s + length hits\<rparr>) (pipeline_mark_seen m st1))
             else (hits, count_stats (\<lambda>s. s\<lparr>ps_no_link := ps_no_link s + 1\<rparr>) st1)))"

definition mark_recent_message_safe :: "message \<Rightarrow> dialog_state \<Rightarrow> dialog_state" where
  "mark_recent_message_safe m st = st\<lparr>ds_safe := insert (tm_id m) (ds_safe st)\<rparr>"

definition extract_recent_title_window ::
    "(pystr \<Rightarrow> pystr) \<Rightarrow> telegram_world \<Rightarrow> time \<Rightarrow> pystr \<Rightarrow> pystr list \<Rightarrow> message list \<Rightarrow> nat \<Rightarrow> dialog_state
       \<Rightarrow> search_result list \<times> dialog_state" where
  "extract_recent_title_window unescape w now source queries messages index st =
     (let m = messages ! index;
          window = recent_window_messages messages index;
          texts = recent_window_texts window m;
          matched = matched_recent_queries_in_text (join [10] (telegram_message_text m # texts)) queries
      in if matched = [] then ([], mark_recent_message_safe m st)
         else let st1 = count_stats (\<lambda>s. s\<lparr>ps_title_matched := ps_title_matched s + 1\<rparr>) st in
           case recent_link_anchor unescape m window texts of
             None \<Rightarrow>
               ([], mark_recent_message_safe m
                      (count_stats (\<lambda>s. s\<lparr>ps_skipped_no_link_hint := ps_skipped_no_link_hint s + 1\<rparr>) st1))
           | Some anchor \<Rightarrow>
               (case pipeline_extract_message_links unescape w now source anchor matched (recent_extract_extra_texts m anchor texts)
                       (count_stats (\<lambda>s. s\<lparr>ps_link_windows := ps_link_windows s + 1\<rparr>) st1) of
                  (hits, st2) \<Rightarrow> (hits, if hits \<noteq> [] then mark_recent_message_safe m st2 else st2)))"

text \<open>\<open>late i\<close>: the budget is used up when message \<open>i\<close> is reached.\<close>

fun extract_recent_title_windows ::
    "(pystr \<Rightarrow> pystr) \<Rightarrow> telegram_world \<Rightarrow> time \<Rightarrow> (nat \<Rightarrow> bool) \<Rightarrow> pystr \<Rightarrow> pystr list \<Rightarrow> message list \<Rightarrow> nat list
       \<Rightarrow> search_result list \<times> dialog_state \<Rightarrow> search_result list \<times> dialog_state" where
  "extract_recent_title_windows unescape w now late source queries messages [] acc = acc"
| "extract_recent_title_windows unescape w now late source queries messages (i # is) (results, st) =
     (if late i \<or> TELEGRAM_HISTORY_MAX_RESULTS \<le> length results then (results, st)
      else case extract_recent_title_window unescape w now source queries messages i st of
          (hits, st') \<Rightarrow> extract_recent_title_windows unescape w now late source queries messages is (results @ hits, st'))"

definition RECENT_LINK_WINDOW_FALLBACK_LIMIT :: nat where "RECENT_LINK_WINDOW_FALLBACK_LIMIT = 10"

fun extract_recent_link_windows ::
    "(pystr \<Rightarrow> pystr) \<Rightarrow> telegram_world \<Rightarrow> time \<Rightarrow> (nat \<Rightarrow> bool) \<Rightarrow> pystr \<Rightarrow> message list \<Rightarrow> nat list
       \<Rightarrow> nat \<times> search_result list \<times> dialog_state \<Rightarrow> nat \<times> search_result list \<times> dialog_state" where
  "extract_recent_link_windows unescape w now late source messages [] acc = acc"
| "extract_recent_link_windows unescape w now late source messages (i # is) (windows, results, st) =
     (if late i \<or> TELEGRAM_HISTORY_MAX_RESULTS \<le> length results \<or> RECENT_LINK_WINDOW_FALLBACK_LIMIT \<le> windows then (windows, results, st)
      else let m = messages ! i; window = recent_window_messages messages i; texts = recent_window_texts window m in
        case recent_link_anchor unescape m window texts of
          None \<Rightarrow> extract_recent_link_windows unescape w now late source messages is (windows, results, mark_recent_message_safe m st)
        | Some anchor \<Rightarrow>
            (case pipeline_extract_message_links unescape w now source anchor [] (recent_extract_extra_texts m anchor texts) st of
               (hits, st') \<Rightarrow>
                 extract_recent_link_windows unescape w now late source messages is
                   (Suc windows, results @ hits, if hits \<noteq> [] then mark_recent_message_safe m st' else st')))"

text \<open>\<open>late\<close> is asked anew for the second pass.\<close>

definition extract_recent_message_links ::
    "(pystr \<Rightarrow> pystr) \<Rightarrow> telegram_world \<Rightarrow> time \<Rightarrow> (nat \<Rightarrow> bool) \<Rightarrow> bool \<Rightarrow> (nat \<Rightarrow> bool) \<Rightarrow> pystr \<Rightarrow> pystr list \<Rightarrow> message list
       \<Rightarrow> dialog_state \<Rightarrow> search_result list \<times> dialog_state" where
  "extract_recent_message_links unescape w now late used_up late2 source queries messages st =
     (case extract_recent_title_windows unescape w now late source queries messages [0..<length messages] ([], st) of
        (results, st1) \<Rightarrow>
          if results = [] \<and> \<not> used_up
          then (case extract_recent_link_windows unescape w now late2 source messages [0..<length messages] (0, [], st1) of
                  (windows, fallback, st2) \<Rightarrow>
                    (fallback, count_stats (\<lambda>s. s\<lparr>ps_link_windows := ps_link_windows s + windows\<rparr>) st2))
          else (results, st1))"

section \<open>Reading\<close>

record recent_memory =
  rm_cursors :: "(pystr \<times> int) list"
  rm_watermarks :: watermarks
  rm_index :: "index_row list"

definition unread :: "int \<Rightarrow> message list \<Rightarrow> message list" where
  "unread bound messages = takeWhile (\<lambda>m. \<not> (bound \<noteq> 0 \<and> tm_id m \<noteq> 0 \<and> tm_id m \<le> bound)) messages"

definition max_message_id :: "int \<Rightarrow> message list \<Rightarrow> int" where
  "max_message_id start messages = fold (\<lambda>m peak. if tm_id m \<noteq> 0 then max peak (tm_id m) else peak) messages start"

text \<open>
  \<open>answer\<close> is what the client returned, with its fallback: an empty list when both ways failed, nothing when the time for both ran
  out.  \<open>index\<close> saves the messages in the index.
\<close>

definition read_recent_messages ::
    "time \<Rightarrow> (pystr \<Rightarrow> message list \<Rightarrow> index_row list \<Rightarrow> index_row list) \<Rightarrow> pystr \<Rightarrow> bool \<Rightarrow> message list option \<Rightarrow> recent_memory
       \<Rightarrow> (message list \<times> int) \<times> recent_memory" where
  "read_recent_messages now index source incremental answer mem =
     (let cursor = (if incremental then telegram_cursor source (rm_cursors mem) else 0) in
      case (if incremental then (0, rm_watermarks mem) else recent_watermark_get now source (rm_watermarks mem)) of
        (watermark, marks) \<Rightarrow>
          (let bound = (if incremental then cursor else watermark);
               recent = (case answer of None \<Rightarrow> [] | Some messages \<Rightarrow> unread bound messages);
               peak = max_message_id cursor recent;
               marks' = (if \<not> incremental \<and> answer \<noteq> None \<and> 0 < peak then recent_watermark_set now source peak marks else marks)
           in ((recent, peak), mem\<lparr>rm_watermarks := marks', rm_index := (if recent \<noteq> [] then index source recent (rm_index mem) else rm_index mem)\<rparr>)))"

text \<open>The ids from the newest down, as far as they are above the cursor and safe\<close>

fun safe_cursor :: "int \<Rightarrow> int set \<Rightarrow> int list \<Rightarrow> int \<Rightarrow> int" where
  "safe_cursor cursor safe [] reached = reached"
| "safe_cursor cursor safe (i # is) reached =
     (if i \<le> 0 then safe_cursor cursor safe is reached
      else if i \<le> cursor \<or> i \<notin> safe then reached
      else safe_cursor cursor safe is i)"

definition ids_from_newest :: "message list \<Rightarrow> int list" where
  "ids_from_newest messages = rev (sorted_list_of_set (tm_id ` set messages))"

definition scan_recent_messages ::
    "(pystr \<Rightarrow> pystr) \<Rightarrow> telegram_world \<Rightarrow> time \<Rightarrow> (nat \<Rightarrow> bool) \<Rightarrow> bool \<Rightarrow> (nat \<Rightarrow> bool)
       \<Rightarrow> (pystr \<Rightarrow> message list \<Rightarrow> index_row list \<Rightarrow> index_row list) \<Rightarrow> pystr \<Rightarrow> pystr list \<Rightarrow> bool \<Rightarrow> message list option
       \<Rightarrow> dialog_state \<times> recent_memory \<Rightarrow> search_result list \<times> dialog_state \<times> recent_memory" where
  "scan_recent_messages unescape w now late used_up late2 index source queries incremental answer sts =
     (case read_recent_messages now index source incremental answer (snd sts) of
        ((recent, _), mem) \<Rightarrow>
          (case extract_recent_message_links unescape w now late used_up late2 source queries recent (fst sts) of
             (results, st) \<Rightarrow>
               (let cursor = (if incremental then telegram_cursor source (rm_cursors mem) else 0);
                    reached = safe_cursor cursor (ds_safe st) (ids_from_newest recent) cursor;
                    mem' = (if incremental \<and> cursor < reached
                            then mem\<lparr>rm_cursors := update_telegram_cursor source reached (rm_cursors mem)\<rparr> else mem)
                in (results, st\<lparr>ds_safe := {}\<rparr>, mem'))))"

section \<open>Bounds\<close>

lemma history_options_bounds:
  "ho_history_limit (build_history_options config) \<in> {1..500}"
  "ho_fallback_scan_limit (build_history_options config) \<in> {20..500}"
  "ho_messages_per_query (build_history_options config) \<in> {1..ho_history_limit (build_history_options config)}"
proof -
  have history: "bounded_int (pget config (u ''history_limit'')) 300 1 500 \<in> {1..500}" by (rule bounded_int_bounds) simp
  then show "ho_history_limit (build_history_options config) \<in> {1..500}"
    by (simp add: build_history_options_def Let_def TELEGRAM_HISTORY_DEFAULT_FALLBACK_LIMIT_def TELEGRAM_HISTORY_MAX_FALLBACK_LIMIT_def)
  then have "1 \<le> ho_history_limit (build_history_options config)" by simp
  then show "ho_messages_per_query (build_history_options config) \<in> {1..ho_history_limit (build_history_options config)}"
    unfolding build_history_options_def Let_def history_options.simps by (rule bounded_int_bounds)
  show "ho_fallback_scan_limit (build_history_options config) \<in> {20..500}"
    unfolding build_history_options_def Let_def history_options.simps TELEGRAM_HISTORY_MAX_FALLBACK_LIMIT_def
    by (rule bounded_int_bounds) simp
qed

lemma select_queries_props:
  assumes "distinct (map compact_search_text selected)" "set selected \<subseteq> X" "set qs \<subseteq> X" "int (length selected) \<le> max 1 limit"
    "selected = [] \<or> int (length selected) < limit"
  shows "distinct (map compact_search_text (select_queries limit qs selected)) \<and> set (select_queries limit qs selected) \<subseteq> X
    \<and> int (length (select_queries limit qs selected)) \<le> max 1 limit"
  using assms
proof (induction qs arbitrary: selected)
  case (Cons q qs)
  then show ?case by (auto simp: Let_def)
qed auto

lemma server_queries:
  "distinct (map compact_search_text (server_search_queries queries limit))"
  "set (server_search_queries queries limit) \<subseteq> strip ` set queries - {[]}"
  "int (length (server_search_queries queries limit)) \<le> max 1 limit"
proof -
  let ?qs = "sort_key server_query_key (filter (\<lambda>s. s \<noteq> []) (map strip queries))"
  have "set ?qs \<subseteq> strip ` set queries - {[]}" by auto
  note all = select_queries_props [OF _ _ this, of "[]" limit, folded server_search_queries_def]
  show "distinct (map compact_search_text (server_search_queries queries limit))"
    "set (server_search_queries queries limit) \<subseteq> strip ` set queries - {[]}"
    "int (length (server_search_queries queries limit)) \<le> max 1 limit"
    using all by simp_all
qed

lemma adaptive_bounds: "1 \<le> base \<Longrightarrow> 1 \<le> adaptive_messages_per_query p95 base \<and> adaptive_messages_per_query p95 base \<le> max base 4"
  by (auto simp: adaptive_messages_per_query_def Let_def split: option.splits)

text \<open>Meant to shrink the number of messages, it raises the smallest ones.\<close>

lemma adaptive_may_raise: "adaptive_messages_per_query (Some 900) 1 = 3"
  by (simp add: adaptive_messages_per_query_def)

section \<open>Messages are read once\<close>

lemma seen_not_read:
  "pipeline_is_seen m st \<Longrightarrow> fst (pipeline_extract_message_links unescape w now source m queries extras st) = []
     \<and> ds_caches (snd (pipeline_extract_message_links unescape w now source m queries extras st)) = ds_caches st"
  by (simp add: pipeline_extract_message_links_def count_stats_def)

lemma seen_after_hits:
  "fst (pipeline_extract_message_links unescape w now source m queries extras st) \<noteq> [] \<Longrightarrow> tm_id m \<noteq> 0 \<Longrightarrow>
     pipeline_is_seen m (snd (pipeline_extract_message_links unescape w now source m queries extras st))"
  by (auto simp: pipeline_extract_message_links_def count_stats_def pipeline_mark_seen_def pipeline_is_seen_def Let_def split: prod.splits if_splits)

lemma pipeline_seen:
  "ds_seen st \<subseteq> ds_seen (snd (pipeline_extract_message_links unescape w now source m queries extras st))"
  "ds_seen (snd (pipeline_extract_message_links unescape w now source m queries extras st)) \<subseteq> insert (tm_id m) (ds_seen st)"
  by (auto simp: pipeline_extract_message_links_def count_stats_def pipeline_mark_seen_def Let_def split: prod.splits)

section \<open>Watermarks\<close>

lemma unread_above: "m \<in> set (unread bound messages) \<Longrightarrow> bound \<noteq> 0 \<Longrightarrow> tm_id m \<noteq> 0 \<Longrightarrow> bound < tm_id m"
  by (auto simp: unread_def dest: set_takeWhileD)

lemma max_message_id_bound:
  assumes "\<forall>m \<in> set messages. tm_id m \<le> peak" "start \<le> peak"
  shows "max_message_id start messages \<le> peak" "start \<le> max_message_id start messages"
proof -
  show "max_message_id start messages \<le> peak" unfolding max_message_id_def
    by (rule fold_maintains [where P = "\<lambda>x. x \<le> peak"]) (use assms in auto)
  show "start \<le> max_message_id start messages" unfolding max_message_id_def
    by (rule fold_maintains [where P = "\<lambda>x. start \<le> x"]) auto
qed

text \<open>What was read once is not read again for ten minutes, also by a search for another title.\<close>

theorem second_scan_reads_nothing:
  assumes "strip source \<noteq> []" "length (rm_watermarks mem) < 512" "fst (recent_watermark_get now source (rm_watermarks mem)) = 0"
    "0 < tm_id m" "\<forall>m' \<in> set messages. tm_id m' \<le> tm_id m" "t \<le> now + RECENT_WATERMARK_TTL_SECONDS"
    "read_recent_messages now index source False (Some (m # messages)) mem = ((recent, peak), mem')"
  shows "recent = m # messages" "peak = tm_id m"
    "fst (fst (read_recent_messages t index source False (Some (m # messages)) mem')) = []"
proof -
  obtain marks where get: "recent_watermark_get now source (rm_watermarks mem) = (0, marks)"
    using assms(3) by (metis prod.collapse)
  have marks: "length marks \<le> length (rm_watermarks mem)"
    using get assms(1) by (auto simp: recent_watermark_get_def Let_def length_delete_le split: option.splits if_splits)
  have all: "unread 0 (m # messages) = m # messages" by (simp add: unread_def)
  have "max_message_id 0 (m # messages) = max_message_id (tm_id m) messages" using assms(4) by (simp add: max_message_id_def)
  also have "\<dots> = tm_id m" using max_message_id_bound [of messages "tm_id m" "tm_id m"] assms(5) by simp
  finally have max: "max_message_id 0 (m # messages) = tm_id m" .
  have mem': "rm_watermarks mem' = recent_watermark_set now source (tm_id m) marks"
    and res: "recent = m # messages" "peak = tm_id m"
    using assms(4,7) by (auto simp: read_recent_messages_def get all max Let_def)
  show "recent = m # messages" "peak = tm_id m" using res by simp_all
  have "fst (recent_watermark_get t source (rm_watermarks mem')) = tm_id m"
    unfolding mem' using watermark_read [of marks source "tm_id m" t now] assms(1,2,4,6) marks by simp
  then obtain marks' where "recent_watermark_get t source (rm_watermarks mem') = (tm_id m, marks')" by (metis prod.collapse)
  then show "fst (fst (read_recent_messages t index source False (Some (m # messages)) mem')) = []"
    using assms(4) by (simp add: read_recent_messages_def Let_def unread_def)
qed

section \<open>Cursors\<close>

lemma safe_cursor_below:
  "sorted_wrt (>) ids \<Longrightarrow> \<forall>i \<in> set ids. i < reached \<Longrightarrow> safe_cursor cursor safe ids reached \<le> reached"
proof (induction ids arbitrary: reached)
  case (Cons i ids)
  then have "safe_cursor cursor safe ids i \<le> i" by simp
  moreover have "safe_cursor cursor safe ids reached \<le> reached" using Cons by simp
  ultimately show ?case using Cons.prems by auto
qed simp

lemma safe_cursor_above:
  "cursor \<le> reached \<Longrightarrow> cursor \<le> safe_cursor cursor safe ids reached"
  by (induction ids arbitrary: reached) auto

lemma unsafe_below:
  assumes "sorted_wrt (>) ids" "\<forall>i \<in> set ids. i < reached" "i \<in> set ids" "i \<notin> safe" "0 \<le> cursor" "cursor < reached"
  shows "i < safe_cursor cursor safe ids reached"
  using assms
proof (induction ids arbitrary: reached)
  case (Cons j ids)
  show ?case
  proof (cases "j \<le> 0")
    case True
    then have "i \<le> 0" using Cons.prems(1,3) by auto
    moreover have "\<forall>k \<in> set ids. k \<le> 0" using Cons.prems(1) True by auto
    then have "safe_cursor cursor safe ids reached = reached" by (induction ids) auto
    ultimately show ?thesis using True Cons.prems(5,6) by simp
  next
    case False
    then show ?thesis using Cons by (cases "i = j") auto
  qed
qed simp

text \<open>
  When the newest message is safe, the cursor passes over the messages that were not: they are below it, and no later scan
  reads them.
\<close>

theorem unsafe_messages_passed_over:
  assumes "ids_from_newest recent = newest # ids" "newest \<in> safe" "0 \<le> cursor" "cursor < newest"
    "m \<in> set recent" "tm_id m \<notin> safe" "tm_id m \<noteq> 0"
  shows "tm_id m < safe_cursor cursor safe (ids_from_newest recent) cursor"
    "m \<notin> set (unread (safe_cursor cursor safe (ids_from_newest recent) cursor) messages)"
proof -
  have "sorted_wrt (<) (sorted_list_of_set (tm_id ` set recent))" by simp
  then have desc: "sorted_wrt (>) (newest # ids)"
    unfolding assms(1) [symmetric] ids_from_newest_def by (simp add: sorted_wrt_rev)
  have "set (ids_from_newest recent) = tm_id ` set recent" by (simp add: ids_from_newest_def)
  then have "tm_id m \<in> set (newest # ids)" using assms(1,5) by auto
  then have "tm_id m \<in> set ids" using assms(2,6) by auto
  then have "tm_id m < safe_cursor cursor safe ids newest" using desc assms(3,4,6) by (intro unsafe_below) auto
  moreover have step: "safe_cursor cursor safe (newest # ids) cursor = safe_cursor cursor safe ids newest" using assms(2-4) by simp
  ultimately show below: "tm_id m < safe_cursor cursor safe (ids_from_newest recent) cursor" by (simp only: assms(1))
  have "0 < safe_cursor cursor safe (ids_from_newest recent) cursor"
  proof -
    have "0 < reached \<Longrightarrow> 0 < safe_cursor cursor safe ids reached" for reached ids
      by (induction ids arbitrary: reached) auto
    then show ?thesis using assms(1,3,4) step by simp
  qed
  then show "m \<notin> set (unread (safe_cursor cursor safe (ids_from_newest recent) cursor) messages)"
    using unread_above below assms(7) by fastforce
qed

text \<open>The same of a whole scan: what it read but did not deal with is not read by any later scan with the cursor.\<close>

lemma scan_passes_over:
  assumes read: "read_recent_messages now index source True answer mem = ((recent, peak), mem1)"
    and taken: "extract_recent_message_links unescape w now late used_up late2 source queries recent st = (results, st1)"
    and ids: "ids_from_newest recent = newest # ids" "newest \<in> ds_safe st1"
    and cursor: "0 \<le> telegram_cursor source (rm_cursors mem)" "telegram_cursor source (rm_cursors mem) < newest"
    and m: "m \<in> set recent" "tm_id m \<notin> ds_safe st1" "tm_id m \<noteq> 0"
    and scan: "scan_recent_messages unescape w now late used_up late2 index source queries True answer (st, mem) = (found, st2, mem2)"
  shows "m \<notin> set (fst (fst (read_recent_messages t index' source True (Some messages) mem2)))"
proof -
  let ?old = "telegram_cursor source (rm_cursors mem)"
  let ?new = "safe_cursor ?old (ds_safe st1) (ids_from_newest recent) ?old"
  have same: "rm_cursors mem1 = rm_cursors mem" using read by (auto simp: read_recent_messages_def Let_def split: prod.splits)
  note passed = unsafe_messages_passed_over [OF ids cursor m]
  have up: "?old \<le> ?new" by (rule safe_cursor_above) simp
  have mem2: "rm_cursors mem2 = (if ?old < ?new then update_telegram_cursor source ?new (rm_cursors mem) else rm_cursors mem)"
    using scan same by (auto simp: scan_recent_messages_def read taken Let_def split: if_splits)
  have "telegram_cursor source (rm_cursors mem2) = ?new"
    using up by (auto simp: mem2 cursor_after [OF cursor(1)])
  then show ?thesis using passed(2) [of messages] by (simp add: read_recent_messages_def Let_def)
qed

text \<open>The cursor never goes back.\<close>

lemma cursor_kept:
  assumes "0 \<le> telegram_cursor source (rm_cursors mem)"
    "scan_recent_messages unescape w now late used_up late2 index source queries incremental answer (st, mem) = (results, st', mem')"
  shows "telegram_cursor s (rm_cursors mem) \<le> telegram_cursor s (rm_cursors mem')"
    "\<not> incremental \<Longrightarrow> rm_cursors mem' = rm_cursors mem"
proof -
  obtain recent peak mem1 where r: "read_recent_messages now index source incremental answer mem = ((recent, peak), mem1)" by (metis surj_pair)
  then have same: "rm_cursors mem1 = rm_cursors mem"
    by (auto simp: read_recent_messages_def Let_def split: prod.splits)
  obtain rs st1 where e: "extract_recent_message_links unescape w now late used_up late2 source queries recent st = (rs, st1)" by fastforce
  define reached where "reached = safe_cursor (if incremental then telegram_cursor source (rm_cursors mem1) else 0) (ds_safe st1)
    (ids_from_newest recent) (if incremental then telegram_cursor source (rm_cursors mem1) else 0)"
  have mem': "rm_cursors mem' = (if incremental \<and> telegram_cursor source (rm_cursors mem) < reached
      then update_telegram_cursor source reached (rm_cursors mem) else rm_cursors mem)"
  proof -
    have "mem' = (if incremental \<and> (if incremental then telegram_cursor source (rm_cursors mem1) else 0) < reached
        then mem1\<lparr>rm_cursors := update_telegram_cursor source reached (rm_cursors mem1)\<rparr> else mem1)"
      using assms(2) unfolding reached_def by (simp add: scan_recent_messages_def r e Let_def)
    then show ?thesis by (simp add: same)
  qed
  show "telegram_cursor s (rm_cursors mem) \<le> telegram_cursor s (rm_cursors mem')"
    using cursor_after [OF assms(1)] by (simp add: mem')
  show "rm_cursors mem' = rm_cursors mem" if "\<not> incremental" using that by (simp add: mem')
qed

end
