(* ===== verification/Telegram_Dialogs.thy ===== *)
theory Telegram_Dialogs
  imports Telegram_Recent
begin

text \<open>
  The search of the dialogs: one query on the server (\<open>history/dialog_search_query_run.py\<close>), one dialog
  (\<open>history/dialog_search_query.py\<close>), all of them (\<open>history/dialog_search.py\<close>), the whole search (\<open>history/search.py\<close>) and the quick one
  (\<open>history/fast.py\<close>).  Several dialogs are searched at once; what each of them finds is a parameter of the search of all, which puts the
  answers together.  The answers of the client and the moments at which the time runs out are parameters.
  Shown: what a query takes from a cache fits the query; a saved search without result does not keep the query from being sent
  again; the answer for all dialogs does not depend on the order in which they finish, has no link twice and at most thirty; a
  stage returns nothing that was returned before with the same state.
\<close>

section \<open>One message, its own text only\<close>

definition cached_result_fits :: "pystr \<Rightarrow> search_result \<Rightarrow> bool" where
  "cached_result_fits query r \<longleftrightarrow>
     contains (u ''ed2k://'') (casefold (r_url r))
     \<or> local_text_matches_query (or_str (r_context r) (r_title r)) query
       \<and> (r_title r = [] \<or> starts_with (u ''Telegram '') (r_title r) \<or> local_text_matches_query (r_title r) query)"

definition cached_results_matching_query :: "search_result list \<Rightarrow> pystr \<Rightarrow> search_result list" where
  "cached_results_matching_query results query = filter (cached_result_fits query) results"

definition magnet_word :: pystr where
  "magnet_word = u ''magnet:?''"

definition message_suggests_resource_links :: "(pystr \<Rightarrow> pystr) \<Rightarrow> message \<Rightarrow> bool" where
  "message_suggests_resource_links unescape m \<longleftrightarrow>
     (let t = telegram_message_text m in
      (t \<noteq> [] \<or> message_has_link_button_hint unescape m)
      \<and> (has_links unescape t \<or> contains magnet_word (casefold t) \<or> text_has_external_resource_page_hint t
         \<or> message_has_link_button_hint unescape m))"

definition split_words :: "pystr \<Rightarrow> pystr list" where
  "split_words s = filter (\<lambda>p. p \<noteq> []) (re_split SPACE_RE s)"

definition magnet_tokens :: "pystr \<Rightarrow> pystr list" where
  "magnet_tokens t =
     (if contains magnet_word (casefold t)
      then filter (\<lambda>w. starts_with magnet_word (casefold w)) (map (\<lambda>w. strip_chars (u ''<>()[]'' @ [34, 39]) (strip w)) (split_words t))
      else [])"

definition body_urls :: "(pystr \<Rightarrow> pystr) \<Rightarrow> pystr \<Rightarrow> pystr list" where
  "body_urls unescape t =
     fold (add_link (\<lambda>l. l)) (magnet_tokens t) (extract_115_links unescape t @ extract_ed2k_links unescape t)"

definition ed2k_url :: "pystr \<Rightarrow> bool" where
  "ed2k_url url = contains (u ''ed2k://'') (casefold url)"

definition pan_url :: "pystr \<Rightarrow> bool" where
  "pan_url url = contains (u ''115'') url"

definition body_scope :: "(pystr \<Rightarrow> pystr) \<Rightarrow> pystr \<Rightarrow> pystr \<Rightarrow> pystr \<Rightarrow> pystr" where
  "body_scope unescape t query url =
     (let scoped = (if ed2k_url url then context_for_ed2k_link t url
                    else if pan_url url then context_for_115_link t url else t)
      in if pan_url url then restore_query_title_context unescape [query] t scoped else scoped)"

definition body_title :: "pystr \<Rightarrow> pystr \<Rightarrow> pystr \<Rightarrow> pystr" where
  "body_title query url scoped =
     (if pan_url url \<or> ed2k_url url then telegram_resource_title scoped
      else if scoped \<noteq> [] then take 120 (hd (splitlines scoped)) else query)"

definition body_hit :: "(pystr \<Rightarrow> pystr) \<Rightarrow> pystr \<Rightarrow> message \<Rightarrow> pystr \<Rightarrow> pystr \<Rightarrow> search_result" where
  "body_hit unescape source m query url =
     (let t = telegram_message_text m; scoped = body_scope unescape t query url in
      \<lparr>r_title = or_str (body_title query url scoped) query, r_url = url, r_source = source,
       r_message_id = (if tm_id m = 0 then None else Some (int_str (tm_id m))), r_context = or_str scoped t, r_priority = 0\<rparr>)"

definition body_url_fits :: "(pystr \<Rightarrow> pystr) \<Rightarrow> pystr \<Rightarrow> pystr \<Rightarrow> pystr \<Rightarrow> bool" where
  "body_url_fits unescape t query url =
     (let scoped = body_scope unescape t query url; title = body_title query url scoped in
      ed2k_url url
      \<or> local_text_matches_query scoped query
        \<and> (title = [] \<or> starts_with (u ''Telegram '') title \<or> local_text_matches_query title query))"

text \<open>Called with an empty set of seen messages and counts of its own, only its links are used.\<close>

definition body_only_extract_message_links :: "(pystr \<Rightarrow> pystr) \<Rightarrow> pystr \<Rightarrow> message \<Rightarrow> pystr \<Rightarrow> search_result list" where
  "body_only_extract_message_links unescape source m query =
     map (body_hit unescape source m query)
       (filter (body_url_fits unescape (telegram_message_text m) query) (body_urls unescape (telegram_message_text m)))"

section \<open>One query\<close>

definition BODY_ONLY_PARALLEL :: nat where "BODY_ONLY_PARALLEL = 3"
definition DEEP_EXTRACT_MESSAGE_LIMIT :: int where "DEEP_EXTRACT_MESSAGE_LIMIT = 8"
definition BUTTON_DEEP_EXTRACT_LIMIT :: nat where "BUTTON_DEEP_EXTRACT_LIMIT = 8"
definition EXTERNAL_PAGE_DEEP_EXTRACT_LIMIT :: nat where "EXTERNAL_PAGE_DEEP_EXTRACT_LIMIT = 8"

definition deep_budget :: "nat \<Rightarrow> int \<Rightarrow> int" where
  "deep_budget n per_query = min (int n) (max 2 (min DEEP_EXTRACT_MESSAGE_LIMIT (if per_query = 0 then 4 else per_query)))"

definition button_deep_budget :: "nat \<Rightarrow> int \<Rightarrow> int" where
  "button_deep_budget n per_query = min (int n) (max (deep_budget n per_query) (min 12 (if per_query = 0 then 12 else per_query)))"

definition flush_body_message ::
    "(pystr \<Rightarrow> pystr) \<Rightarrow> pystr \<Rightarrow> pystr \<Rightarrow> message \<Rightarrow> search_result list \<times> dialog_state \<Rightarrow> search_result list \<times> dialog_state" where
  "flush_body_message unescape source query m acc =
     (case acc of
        (results, st) \<Rightarrow>
          (let links = body_only_extract_message_links unescape source m query in
           if pipeline_is_seen m st
           then (results, count_stats (\<lambda>s. s\<lparr>ps_duplicate_messages := ps_duplicate_messages s + 1\<rparr>) st)
           else if links = [] then (results, count_stats (\<lambda>s. s\<lparr>ps_no_link := ps_no_link s + 1\<rparr>) st)
           else (results @ links,
                 count_stats (\<lambda>s. s\<lparr>ps_extracted_links := ps_extracted_links s + length links\<rparr>) (pipeline_mark_seen m st))))"

definition flush_body_batch ::
    "(pystr \<Rightarrow> pystr) \<Rightarrow> pystr \<Rightarrow> pystr \<Rightarrow> message list \<Rightarrow> search_result list \<times> dialog_state \<Rightarrow> search_result list \<times> dialog_state" where
  "flush_body_batch unescape source query batch acc = fold (flush_body_message unescape source query) batch acc"

record query_loop =
  ql_buttons :: nat
  ql_pages :: nat
  ql_batch :: "message list"
  ql_found :: "search_result list \<times> dialog_state"

definition should_deep_extract :: "(pystr \<Rightarrow> pystr) \<Rightarrow> int \<Rightarrow> int \<Rightarrow> nat \<Rightarrow> message \<Rightarrow> query_loop \<Rightarrow> bool" where
  "should_deep_extract unescape deep button_deep i m l \<longleftrightarrow>
     message_suggests_resource_links unescape m
     \<and> (int i < deep
        \<or> message_has_link_button_hint unescape m \<and> ql_buttons l \<le> BUTTON_DEEP_EXTRACT_LIMIT \<and> int i < button_deep
        \<or> text_has_external_resource_page_hint (telegram_message_text m) \<and> ql_pages l \<le> EXTERNAL_PAGE_DEEP_EXTRACT_LIMIT)"

definition scan_server_message ::
    "(pystr \<Rightarrow> pystr) \<Rightarrow> telegram_world \<Rightarrow> time \<Rightarrow> pystr \<Rightarrow> pystr \<Rightarrow> int \<Rightarrow> int \<Rightarrow> nat \<Rightarrow> message \<Rightarrow> query_loop \<Rightarrow> query_loop" where
  "scan_server_message unescape w now source query deep button_deep i m l0 =
     (let l = l0\<lparr>ql_buttons := ql_buttons l0 + (if message_has_link_button_hint unescape m then 1 else 0),
                 ql_pages := ql_pages l0 + (if text_has_external_resource_page_hint (telegram_message_text m) then 1 else 0)\<rparr>
      in if should_deep_extract unescape deep button_deep i m l
         then (case flush_body_batch unescape source query (ql_batch l) (ql_found l) of
                 (results, st) \<Rightarrow>
                   (case pipeline_extract_message_links unescape w now source m [query] [] st of
                      (links, st') \<Rightarrow> l\<lparr>ql_batch := [], ql_found := (results @ links, st')\<rparr>))
         else let batch = ql_batch l @ [m] in
              if BODY_ONLY_PARALLEL \<le> length batch
              then l\<lparr>ql_batch := [], ql_found := flush_body_batch unescape source query batch (ql_found l)\<rparr>
              else l\<lparr>ql_batch := batch\<rparr>)"

text \<open>When the time runs out at a message, what was put by is not looked at; \<open>per_query\<close> messages are looked at.\<close>

fun scan_server_messages ::
    "(pystr \<Rightarrow> pystr) \<Rightarrow> telegram_world \<Rightarrow> time \<Rightarrow> pystr \<Rightarrow> pystr \<Rightarrow> int \<Rightarrow> int \<Rightarrow> int \<Rightarrow> (nat \<Rightarrow> bool) \<Rightarrow> nat \<Rightarrow> message list
       \<Rightarrow> query_loop \<Rightarrow> search_result list \<times> dialog_state" where
  "scan_server_messages unescape w now source query deep button_deep per_query late i [] l =
     flush_body_batch unescape source query (ql_batch l) (ql_found l)"
| "scan_server_messages unescape w now source query deep button_deep per_query late i (m # ms) l =
     (if late i then ql_found l
      else let l' = scan_server_message unescape w now source query deep button_deep i m l in
           if per_query \<le> int (Suc i) \<or> TELEGRAM_HISTORY_MAX_RESULTS \<le> length (fst (ql_found l'))
           then flush_body_batch unescape source query (ql_batch l') (ql_found l')
           else scan_server_messages unescape w now source query deep button_deep per_query late (Suc i) ms l')"

text \<open>What a search changes beside the messages of the dialog\<close>

record search_memory =
  sm_shared :: shared_state
  sm_queries :: query_cache
  sm_recent :: recent_memory
  sm_ranks :: dialog_memory

type_synonym save_index = "pystr \<Rightarrow> message list \<Rightarrow> index_row list \<Rightarrow> index_row list"

definition query_from_caches ::
    "time \<Rightarrow> pystr \<Rightarrow> pystr \<Rightarrow> search_memory \<Rightarrow> search_result list \<times> search_memory" where
  "query_from_caches now source query mem =
     (let own = (case get_cached_query_dialog_results source query (sm_shared mem) of
                   None \<Rightarrow> [] | Some cached \<Rightarrow> cached_results_matching_query cached query)
      in if own \<noteq> [] then (own, mem)
         else case get_cached_query_results now source query (sm_queries mem) of
             (looked, queries) \<Rightarrow>
               (let accepted = (case looked of None \<Rightarrow> [] | Some cached \<Rightarrow> cached_results_matching_query cached query);
                    mem' = mem\<lparr>sm_queries := queries\<rparr>
                in if accepted = [] then ([], mem')
                   else (accepted, mem'\<lparr>sm_shared := set_cached_query_dialog_results source query accepted (sm_shared mem)\<rparr>)))"

definition search_dialog_query ::
    "(pystr \<Rightarrow> pystr) \<Rightarrow> telegram_world \<Rightarrow> time \<Rightarrow> save_index \<Rightarrow> (nat \<Rightarrow> bool) \<Rightarrow> int \<Rightarrow> pystr \<Rightarrow> pystr \<Rightarrow> message list
       \<Rightarrow> dialog_state \<times> search_memory \<Rightarrow> search_result list \<times> dialog_state \<times> search_memory" where
  "search_dialog_query unescape w now index late per_query source query messages sts =
     (case sts of
        (st, mem) \<Rightarrow>
          (case query_from_caches now source query mem of
             (accepted, mem1) \<Rightarrow>
               if accepted \<noteq> [] then (accepted, st, mem1)
               else (let recent = sm_recent mem1;
                         mem2 = mem1\<lparr>sm_recent := recent\<lparr>rm_index := index source messages (rm_index recent)\<rparr>\<rparr>;
                         n = length messages
                     in case scan_server_messages unescape w now source query (deep_budget n per_query)
                               (button_deep_budget n per_query) per_query late 0 messages
                               \<lparr>ql_buttons = 0, ql_pages = 0, ql_batch = [], ql_found = ([], st)\<rparr> of
                          (results, st') \<Rightarrow>
                            (results, st',
                             mem2\<lparr>sm_shared := set_cached_query_dialog_results source query results (sm_shared mem2),
                                  sm_queries := set_cached_query_results now source query results (sm_queries mem2)\<rparr>))))"

section \<open>One dialog\<close>

text \<open>
  The answers of the client for a dialog, and when the time is over: before the server is asked, when less than 35 percent of it
  are left, before a query, before the recent messages.
\<close>

record dialog_world =
  dw_world :: telegram_world
  dw_search :: "pystr \<Rightarrow> message list"
  dw_recent :: "message list option"
  dw_no_server :: bool
  dw_short :: bool
  dw_late_query :: "pystr \<Rightarrow> bool"
  dw_late_message :: "pystr \<Rightarrow> nat \<Rightarrow> bool"
  dw_no_recent :: bool
  dw_late_recent :: "nat \<Rightarrow> bool"
  dw_no_windows :: bool
  dw_late_windows :: "nat \<Rightarrow> bool"
  dw_millis :: rat

text \<open>Queries are sent until one has a result.\<close>

fun server_queries_in_turn ::
    "(pystr \<Rightarrow> pystr) \<Rightarrow> dialog_world \<Rightarrow> time \<Rightarrow> save_index \<Rightarrow> int \<Rightarrow> pystr \<Rightarrow> pystr list \<Rightarrow> dialog_state \<times> search_memory
       \<Rightarrow> search_result list \<times> dialog_state \<times> search_memory" where
  "server_queries_in_turn unescape w now index per_query source [] sts = ([], sts)"
| "server_queries_in_turn unescape w now index per_query source (q # qs) sts =
     (if dw_late_query w q then ([], sts)
      else case search_dialog_query unescape (dw_world w) now index (dw_late_message w q) per_query source q (dw_search w q) sts of
          (hits, sts') \<Rightarrow>
            if hits \<noteq> [] then (hits, sts') else server_queries_in_turn unescape w now index per_query source qs sts')"

definition search_dialog_history ::
    "(pystr \<Rightarrow> pystr) \<Rightarrow> dialog_world \<Rightarrow> time \<Rightarrow> save_index \<Rightarrow> int \<Rightarrow> pystr \<Rightarrow> pystr list \<Rightarrow> bool \<Rightarrow> link_caches \<Rightarrow> search_memory
       \<Rightarrow> search_result list \<times> link_caches \<times> search_memory" where
  "search_dialog_history unescape w now index per_query source queries incremental caches mem =
     (case seen_messages_for source (sm_shared mem) of
        (seen, shared) \<Rightarrow>
          (let start = (\<lparr>ds_seen = seen, ds_safe = {}, ds_stats = new_pipeline_stats, ds_caches = caches\<rparr>, mem\<lparr>sm_shared := shared\<rparr>);
               limit = (if dw_short w then 1 else 2)
           in case (if incremental \<or> dw_no_server w then ([], start)
                    else server_queries_in_turn unescape w now index per_query source (server_search_queries queries limit) start) of
                (found, st1, mem1) \<Rightarrow>
                  (case (if found \<noteq> [] \<or> dw_no_recent w then (found, st1, sm_recent mem1)
                         else scan_recent_messages unescape (dw_world w) now (dw_late_recent w) (dw_no_windows w) (dw_late_windows w)
                                index source queries incremental (dw_recent w) (st1, sm_recent mem1)) of
                     (results, st2, recent) \<Rightarrow>
                       (results, ds_caches st2,
                        mem1\<lparr>sm_recent := recent,
                             sm_shared := (sm_shared mem1)\<lparr>sh_seen_ids := put_bucket source (ds_seen st2) (sh_seen_ids (sm_shared mem1))\<rparr>,
                             sm_ranks := note_dialog_latency now source (dw_millis w) (results \<noteq> []) (sm_ranks mem1)\<rparr>))))"

definition search_single_dialog_reliably ::
    "(pystr \<Rightarrow> pystr) \<Rightarrow> dialog_world \<Rightarrow> time \<Rightarrow> save_index \<Rightarrow> int \<Rightarrow> pyval \<Rightarrow> pystr list \<Rightarrow> bool \<Rightarrow> link_caches \<Rightarrow> search_memory
       \<Rightarrow> search_result list \<times> link_caches \<times> search_memory" where
  "search_single_dialog_reliably unescape w now index per_query dialog queries incremental caches mem =
     (let source = str_of_val (pget dialog (u ''canonical'')); key = dialog_name dialog in
      case search_dialog_history unescape w now index per_query source queries incremental caches mem of
        (hits, caches', mem') \<Rightarrow>
          if hits \<noteq> [] \<and> key \<noteq> []
          then (hits, caches',
                mem'\<lparr>sm_shared := note_dialog_hits key (int (length hits)) (sm_shared mem'),
                     sm_ranks := note_dialog_hit key (int (length hits)) (sm_ranks mem')\<rparr>)
          else (hits, caches', mem'))"

section \<open>All dialogs\<close>

text \<open>
  The dialogs in their order with what the search of each brought; a dialog that failed or was not reached any more brings nothing.
  \<open>completed\<close> has them in the order in which they finished.
\<close>

definition unique_urls :: "search_result list \<Rightarrow> search_result list" where
  "unique_urls results =
     fold (\<lambda>r kept. if r_url r \<noteq> [] \<and> r_url r \<in> r_url ` set kept then kept else kept @ [r]) results []"

definition merge_completed_dialogs :: "(nat \<times> search_result list) list \<Rightarrow> search_result list" where
  "merge_completed_dialogs completed =
     take TELEGRAM_HISTORY_MAX_RESULTS
       (unique_urls (concat (map snd (sort_key fst (filter (\<lambda>(_, hits). hits \<noteq> []) completed)))))"

definition extract_global_search_links ::
    "(pystr \<Rightarrow> pystr) \<Rightarrow> telegram_world \<Rightarrow> time \<Rightarrow> (message \<Rightarrow> pystr) \<Rightarrow> pystr \<Rightarrow> message \<Rightarrow> dialog_state \<Rightarrow> search_result list \<times> dialog_state" where
  "extract_global_search_links unescape w now peer query m st =
     (if \<not> (local_text_matches_query (telegram_message_text m) query \<or> message_has_link_button_hint unescape m) then ([], st)
      else pipeline_extract_message_links unescape w now (u ''TelegramGlobal:'' @ or_str (peer m) (u ''unknown'')) m [query] [] st)"

fun search_global_query ::
    "(pystr \<Rightarrow> pystr) \<Rightarrow> telegram_world \<Rightarrow> time \<Rightarrow> (message \<Rightarrow> pystr) \<Rightarrow> pystr \<Rightarrow> message list \<Rightarrow> search_result list \<times> dialog_state
       \<Rightarrow> search_result list \<times> dialog_state" where
  "search_global_query unescape w now peer query [] acc = acc"
| "search_global_query unescape w now peer query (m # ms) (results, st) =
     (case extract_global_search_links unescape w now peer query m st of
        (links, st') \<Rightarrow>
          if TELEGRAM_HISTORY_MAX_RESULTS \<le> length (results @ links) then (results @ links, st')
          else search_global_query unescape w now peer query ms (results @ links, st'))"

section \<open>The whole search\<close>

text \<open>
  \<open>resolved\<close> are the dialogs of the configured sources, \<open>look\<close> the search of the index, \<open>remote\<close> that of all dialogs and
  \<open>everywhere\<close> the one of the whole account.  Without dialogs or queries nothing is searched; \<open>session\<close> says that
  there is a session and sources are configured.
\<close>

definition search_history ::
    "time \<Rightarrow> bool \<Rightarrow> pyval list \<Rightarrow> (pystr list \<Rightarrow> pystr list \<Rightarrow> search_result list)
       \<Rightarrow> (pyval list \<Rightarrow> pystr list \<Rightarrow> shared_state \<Rightarrow> search_result list \<times> shared_state)
       \<Rightarrow> (pystr list \<Rightarrow> search_result list) \<Rightarrow> pystr \<Rightarrow> pystr list \<Rightarrow> bool \<Rightarrow> dialog_memory \<Rightarrow> shared_state
       \<Rightarrow> search_result list \<times> shared_state" where
  "search_history now session resolved look remote everywhere title keywords incremental ranks sh =
     (let dialogs = fst (rank_dialogs now (sh_preferred sh) (sh_hits sh) (filter_dialogs resolved sh) ranks);
          queries = expanded_search_queries title keywords 4
      in if \<not> session \<or> resolved = [] \<or> queries = [] then ([], sh)
         else let indexed = (if sh_force_remote sh then [] else look (map (\<lambda>d. str_of_val (pget d (u ''canonical''))) (filter (\<lambda>d. pget d (u ''canonical'') \<noteq> PNone) dialogs)) queries) in
           case remote dialogs queries sh of
             (found, sh1) \<Rightarrow>
               (let global = (if found = [] \<and> \<not> incremental then everywhere (server_search_queries queries 2) else []);
                    sh2 = (if global \<noteq> [] then note_dialog_hits (u ''TelegramGlobal'') (int (length global)) sh1 else sh1)
                in case remember_results (indexed @ found @ global) sh2 of
                     (kept, sh3) \<Rightarrow> (dedupe_results kept, sh3)))"

text \<open>The quick search: the first answer of the index, by the configured names and then by those of the dialogs, else the first hit\<close>

fun first_fast_hit :: "(pystr \<Rightarrow> bool) \<Rightarrow> (pystr \<Rightarrow> shared_state \<Rightarrow> search_result list \<times> shared_state) \<Rightarrow> pystr list \<Rightarrow> shared_state
     \<Rightarrow> search_result list \<times> shared_state" where
  "first_fast_hit late ask [] sh = ([], sh)"
| "first_fast_hit late ask (q # qs) sh =
     (if late q then ([], sh)
      else case ask q sh of (found, sh') \<Rightarrow> if found \<noteq> [] then (take 1 found, sh') else first_fast_hit late ask qs sh')"

definition remembered :: "search_result list \<Rightarrow> shared_state \<Rightarrow> search_result list \<times> shared_state" where
  "remembered results sh = (case remember_results results sh of (kept, sh') \<Rightarrow> (dedupe_results kept, sh'))"

definition search_history_fast ::
    "time \<Rightarrow> bool \<Rightarrow> pystr list \<Rightarrow> pyval list \<Rightarrow> (pystr list \<Rightarrow> pystr list \<Rightarrow> search_result list) \<Rightarrow> (pystr \<Rightarrow> bool)
       \<Rightarrow> (pyval list \<Rightarrow> pystr \<Rightarrow> shared_state \<Rightarrow> search_result list \<times> shared_state) \<Rightarrow> pystr \<Rightarrow> pystr list \<Rightarrow> dialog_memory \<Rightarrow> shared_state
       \<Rightarrow> search_result list \<times> shared_state" where
  "search_history_fast now session index_sources resolved look late ask title keywords ranks sh =
     (let queries = server_search_queries (expanded_search_queries title keywords 4) 2;
          by_name = (if sh_force_remote sh then [] else look index_sources queries);
          dialogs = fst (rank_dialogs now (sh_preferred sh) (sh_hits sh) (filter_dialogs resolved sh) ranks);
          by_dialog = (if sh_force_remote sh then [] else look (map (\<lambda>d. str_of_val (pget d (u ''canonical''))) dialogs) queries)
      in if \<not> session \<or> queries = [] then ([], sh)
         else if by_name \<noteq> [] then remembered by_name sh
         else if resolved = [] then ([], sh)
         else if by_dialog \<noteq> [] then remembered by_dialog sh
         else case first_fast_hit late (ask dialogs) (take 2 queries) sh of (found, sh') \<Rightarrow> remembered found sh')"

text \<open>One dialog of the quick search: the first of its two messages with a link that was not seen\<close>

fun search_dialog_fast ::
    "(pystr \<Rightarrow> pystr) \<Rightarrow> fast_world \<Rightarrow> time \<Rightarrow> (nat \<Rightarrow> bool) \<Rightarrow> pystr \<Rightarrow> pystr \<Rightarrow> nat \<Rightarrow> message list
       \<Rightarrow> int set \<times> search_result list ttl_cache \<Rightarrow> search_result list \<times> int set \<times> search_result list ttl_cache" where
  "search_dialog_fast unescape w now late source query i [] sts = ([], sts)"
| "search_dialog_fast unescape w now late source query i (m # ms) (seen, cache) =
     (if 2 \<le> i then ([], seen, cache)
      else case (if late i then ([], cache) else fast_links_from_message unescape w now source m [query] cache) of
          (hits, cache') \<Rightarrow>
            if hits \<noteq> [] \<and> \<not> (tm_id m \<noteq> 0 \<and> tm_id m \<in> seen)
            then (hits, if tm_id m \<noteq> 0 then insert (tm_id m) seen else seen, cache')
            else search_dialog_fast unescape w now late source query (Suc i) ms (seen, cache'))"

section \<open>What the caches answer\<close>

lemma dialog_cache_fits:
  "r \<in> set (fst (query_from_caches now source query mem)) \<Longrightarrow> cached_result_fits query r"
  by (auto simp: query_from_caches_def cached_results_matching_query_def Let_def split: prod.splits option.splits if_splits)

text \<open>An empty entry, or one with nothing that fits, is as good as none: the server is asked again.\<close>

theorem empty_result_asked_again:
  assumes "\<forall>cached. get_cached_query_dialog_results source query (sm_shared mem) = Some cached \<longrightarrow> cached_results_matching_query cached query = []"
    "\<forall>cached. fst (get_cached_query_results now source query (sm_queries mem)) = Some cached \<longrightarrow> cached_results_matching_query cached query = []"
  shows "fst (search_dialog_query unescape w now index late per_query source query messages (st, mem))
    = fst (scan_server_messages unescape w now source query (deep_budget (length messages) per_query)
        (button_deep_budget (length messages) per_query) per_query late 0 messages
        \<lparr>ql_buttons = 0, ql_pages = 0, ql_batch = [], ql_found = ([], st)\<rparr>)"
proof -
  obtain looked queries where got: "get_cached_query_results now source query (sm_queries mem) = (looked, queries)" by fastforce
  have own: "(case get_cached_query_dialog_results source query (sm_shared mem) of
      None \<Rightarrow> [] | Some cached \<Rightarrow> cached_results_matching_query cached query) = []"
    using assms(1) by (simp split: option.splits)
  have other: "(case looked of None \<Rightarrow> [] | Some cached \<Rightarrow> cached_results_matching_query cached query) = []"
    using assms(2) got by (simp split: option.splits)
  have "query_from_caches now source query mem = ([], mem\<lparr>sm_queries := queries\<rparr>)"
    unfolding query_from_caches_def own Let_def got using other by simp
  then show ?thesis by (simp add: search_dialog_query_def Let_def split: prod.splits)
qed

section \<open>The answer for all dialogs\<close>

lemma sort_unique_keys:
  assumes "mset xs = mset ys" "distinct (map f xs)"
  shows "sort_key f xs = sort_key f ys"
proof (rule properties_for_sort_key)
  show "mset (sort_key f ys) = mset xs" using assms(1) by simp
  show "sorted (map f (sort_key f ys))" by simp
  fix k assume "k \<in> set (sort_key f ys)"
  then have k: "k \<in> set xs" using assms(1) by (metis mset_eq_setD set_sort)
  have inj: "x = k" if "x \<in> set xs" "f k = f x" for x
    using that k assms(2) by (auto simp: distinct_map inj_on_def)
  have "filter (\<lambda>x. f k = f x) xs = filter (\<lambda>x. x = k) xs"
    using inj by (intro filter_cong) auto
  moreover have "filter (\<lambda>x. f k = f x) (sort_key f ys) = filter (\<lambda>x. x = k) (sort_key f ys)"
    using inj mset_eq_setD [OF assms(1)] by (intro filter_cong) auto
  moreover have "filter (\<lambda>x. x = k) zs = replicate (count (mset zs) k) k" for zs
    by (induction zs) auto
  ultimately show "filter (\<lambda>x. f k = f x) (sort_key f ys) = filter (\<lambda>x. f k = f x) xs" using assms(1) by simp
qed

text \<open>The order in which the dialogs finish does not matter.\<close>

theorem completion_order_irrelevant:
  assumes "mset completed = mset completed'" "distinct (map fst completed)"
  shows "merge_completed_dialogs completed = merge_completed_dialogs completed'"
proof -
  let ?P = "\<lambda>(i :: nat, hits :: search_result list). hits \<noteq> []"
  have "mset (filter ?P completed) = mset (filter ?P completed')" using assms(1) by simp
  moreover have "distinct (map fst (filter ?P completed))" using assms(2) by (rule distinct_map_filter)
  ultimately have "sort_key fst (filter ?P completed) = sort_key fst (filter ?P completed')" by (rule sort_unique_keys)
  then show ?thesis by (simp add: merge_completed_dialogs_def)
qed

lemma unique_urls_props:
  "distinct (filter (\<lambda>url. url \<noteq> []) (map r_url (unique_urls results)))" "set (unique_urls results) \<subseteq> set results"
proof -
  let ?step = "\<lambda>r kept. if r_url r \<noteq> [] \<and> r_url r \<in> r_url ` set kept then kept else kept @ [r]"
  show "distinct (filter (\<lambda>url. url \<noteq> []) (map r_url (unique_urls results)))"
    unfolding unique_urls_def
    by (rule fold_maintains [where P = "\<lambda>kept. distinct (filter (\<lambda>url. url \<noteq> []) (map r_url kept))"]) auto
  show "set (unique_urls results) \<subseteq> set results"
    unfolding unique_urls_def
    by (rule fold_maintains [where P = "\<lambda>kept. set kept \<subseteq> set results"]) auto
qed

lemma merged_dialogs:
  "length (merge_completed_dialogs completed) \<le> 30"
  "distinct (filter (\<lambda>url. url \<noteq> []) (map r_url (merge_completed_dialogs completed)))"
  "set (merge_completed_dialogs completed) \<subseteq> (\<Union>(i, hits) \<in> set completed. set hits)"
proof -
  let ?all = "concat (map snd (sort_key fst (filter (\<lambda>(_, hits). hits \<noteq> []) completed)))"
  show "length (merge_completed_dialogs completed) \<le> 30"
    by (simp add: merge_completed_dialogs_def TELEGRAM_HISTORY_MAX_RESULTS_def)
  have "\<exists>rest. map r_url (unique_urls ?all) = map r_url (merge_completed_dialogs completed) @ rest"
    unfolding merge_completed_dialogs_def by (metis append_take_drop_id map_append)
  then show "distinct (filter (\<lambda>url. url \<noteq> []) (map r_url (merge_completed_dialogs completed)))"
    using unique_urls_props(1) [of ?all] by (metis distinct_append filter_append)
  show "set (merge_completed_dialogs completed) \<subseteq> (\<Union>(i, hits) \<in> set completed. set hits)"
    unfolding merge_completed_dialogs_def
    by (rule order_trans [OF set_take_subset], rule order_trans [OF unique_urls_props(2)]) auto
qed

section \<open>Stages\<close>

lemma dedupe_results_set: "set (dedupe_results results) \<subseteq> set results"
  unfolding dedupe_results_def by (rule fold_maintains [where P = "\<lambda>kept. set kept \<subseteq> set results"]) auto

theorem stages_bring_different:
  assumes "shared_ok sh" "card (sh_seen_urls sh) + length rs \<le> MAX_SEEN_URLS" "remembered rs sh = (first, sh1)"
    "shared_ok sh2" "sh_seen_urls sh1 \<subseteq> sh_seen_urls sh2" "card (sh_seen_urls sh2) + length rs' \<le> MAX_SEEN_URLS"
    "remembered rs' sh2 = (second, sh3)"
  shows "r_url ` set first \<inter> r_url ` set second \<subseteq> {[]}"
proof -
  obtain kept where k: "remember_results rs sh = (kept, sh1)" "first = dedupe_results kept"
    using assms(3) by (auto simp: remembered_def split: prod.splits)
  obtain kept' where k': "remember_results rs' sh2 = (kept', sh3)" "second = dedupe_results kept'"
    using assms(7) by (auto simp: remembered_def split: prod.splits)
  have one: "r_url r \<in> sh_seen_urls sh1" if "r \<in> set first" "r_url r \<noteq> []" for r
    using remember_results_urls [OF assms(1,2) k(1)] that dedupe_results_set [of kept] by (auto simp: k(2))
  have two: "r_url r \<notin> sh_seen_urls sh2" if "r \<in> set second" "r_url r \<noteq> []" for r
    using remember_results_urls [OF assms(4,6) k'(1)] that dedupe_results_set [of kept'] by (auto simp: k'(2))
  show ?thesis using one two assms(5) by fastforce
qed

end
