(* ===== verification/Telegram_Session.thy ===== *)
theory Telegram_Session
  imports Telegram_Recent
begin

text \<open>
  The session of the Telegram client (\<open>telegram/session/\<close>): the classes of its errors (\<open>client_errors.py\<close>), connecting with
  repetitions and the pause after a failure (\<open>client.py\<close>), the configured sources (\<open>config.py\<close>), the names of a dialog
  (\<open>dialog_keys.py\<close>), the table of resolved dialogs (\<open>dialog_store.py\<close>) and the resolution of sources with its
  caches (\<open>dialogs.py\<close>); and what the client is used for outside a search: filling the index (\<open>history/prewarm.py\<close>) and
  listening to new messages (\<open>monitor.py\<close>).  The client, its entities and the loops are parameters; the order in
  which the keys of a set are tried is one, too.  Logs, the login and the pragmas of the session file are left out.
  Shown: three attempts at most are made, and none for 45 seconds after the network failed under the same configuration;
  a call from a second loop disconnects the client of the first; every configured source is resolved to one dialog; the caches
  keep their sizes and their contracts; filling the index never takes in a message below the newest that is indexed, so
  a gap stays; a listener that lives is set up once for a list of sources.
\<close>

section \<open>Errors of the client\<close>

definition has_any :: "pystr list \<Rightarrow> pystr \<Rightarrow> bool" where
  "has_any words t = list_ex (\<lambda>w. contains w t) words"

text \<open>\<open>timed_out\<close>: it is an \<open>asyncio.TimeoutError\<close>; the text has the name of its class, \<open>str\<close> and \<open>repr\<close>.\<close>

definition classify_client_error :: "bool \<Rightarrow> pystr \<Rightarrow> pystr" where
  "classify_client_error timed_out message =
     (let t = casefold message in
      if timed_out \<or> has_any [u ''timeout'', u ''timed out''] t then u ''timeout''
      else if has_any (map u [''authkeyduplicated'', ''auth_key_duplicated'', ''auth key duplicated'', ''two different ip addresses'',
          ''same session exclusively'', ''session file was used under two different ip addresses'']) t then u ''session-duplicated''
      else if has_any [u ''api id/api hash'', [0x5C1A, 0x672A, 0x914D, 0x7F6E], u ''missing-config''] t then u ''missing-config''
      else if has_any (map u [''database is locked'', ''database table is locked'', ''database locked'']) t then u ''session-locked''
      else if has_any (map u [''file is not a database'', ''database disk image is malformed'', ''malformed'', ''corrupt'', ''no such table'']) t
      then u ''session-corrupt''
      else if has_any (map u [''auth key'', ''unauthorized'', ''session revoked'', ''user deactivated'', ''not logged in'']) t then u ''auth''
      else if has_any (map u [''proxy'', ''socks'', ''connection refused'', ''connection reset'', ''network'', ''host unreachable'',
          ''name or service not known'', ''temporary failure'', ''ssl'', ''tls'']) t then u ''network-or-proxy''
      else u ''unknown'')"

section \<open>Connecting\<close>

definition TELEGRAM_CLIENT_CONNECT_RETRIES :: nat where "TELEGRAM_CLIENT_CONNECT_RETRIES = 3"
definition TELEGRAM_CLIENT_INIT_FAILURE_COOLDOWN_SECONDS :: time where "TELEGRAM_CLIENT_INIT_FAILURE_COOLDOWN_SECONDS = 45"

text \<open>A client is known by a number, the loop it was made in by another.\<close>

type_synonym fingerprint = "pystr \<times> bool \<times> pystr \<times> bool"

record client_state =
  cl_client :: "(nat \<times> nat) option" \<comment> \<open>the client and its loop\<close>
  cl_connected :: "nat set"
  cl_failure :: "(fingerprint \<times> time \<times> pystr) option"
  cl_session_file :: bool

definition reset_client_state :: "client_state \<Rightarrow> client_state" where
  "reset_client_state cs =
     cs\<lparr>cl_client := None, cl_connected := (case cl_client cs of None \<Rightarrow> cl_connected cs | Some (c, _) \<Rightarrow> cl_connected cs - {c})\<rparr>"

definition handle_invalid_session :: "client_state \<Rightarrow> client_state" where
  "handle_invalid_session cs = reset_client_state (cs\<lparr>cl_session_file := False\<rparr>)"

definition can_retry_connect :: "nat \<Rightarrow> pystr \<Rightarrow> bool" where
  "can_retry_connect attempt category \<longleftrightarrow>
     attempt < TELEGRAM_CLIENT_CONNECT_RETRIES - 1 \<and> category \<in> {u ''session-locked'', u ''timeout'', u ''network-or-proxy''}"

definition handle_client_connect_failure :: "pystr \<Rightarrow> nat \<Rightarrow> client_state \<Rightarrow> bool \<times> client_state" where
  "handle_client_connect_failure category attempt cs =
     (let cs1 = (if category \<in> {u ''session-corrupt'', u ''session-duplicated''} then handle_invalid_session cs else cs);
          retry = can_retry_connect attempt category
      in (retry, if retry \<and> category = u ''session-locked'' then reset_client_state cs1 else cs1))"

text \<open>
  \<open>outcome i\<close> is the class of the error of attempt \<open>i\<close>, if it fails.  An answer is the client, or the class of the last error.
\<close>

function connect_client_with_retry :: "nat \<Rightarrow> (nat \<Rightarrow> pystr option) \<Rightarrow> nat \<Rightarrow> client_state \<Rightarrow> (pystr + nat) \<times> client_state" where
  "connect_client_with_retry fresh outcome attempt cs =
     (case outcome attempt of
        None \<Rightarrow> (Inr (fresh + attempt), cs\<lparr>cl_connected := insert (fresh + attempt) (cl_connected cs)\<rparr>)
      | Some category \<Rightarrow>
          (case handle_client_connect_failure category attempt cs of
             (retry, cs') \<Rightarrow> if retry then connect_client_with_retry fresh outcome (Suc attempt) cs' else (Inl category, cs')))"
  by pat_completeness auto
termination
  by (relation "measure (\<lambda>(_, _, attempt, _). 3 - attempt)")
    (auto simp: handle_client_connect_failure_def can_retry_connect_def TELEGRAM_CLIENT_CONNECT_RETRIES_def Let_def split: if_splits)

declare connect_client_with_retry.simps [simp del]

text \<open>Whether the pause after a failure holds, and the failure that is still remembered\<close>

definition client_init_in_cooldown :: "time \<Rightarrow> fingerprint \<Rightarrow> client_state \<Rightarrow> bool \<times> client_state" where
  "client_init_in_cooldown now fp cs =
     (case cl_failure cs of
        None \<Rightarrow> (False, cs)
      | Some (fp', until, _) \<Rightarrow> if fp' \<noteq> fp \<or> until \<le> now then (False, cs\<lparr>cl_failure := None\<rparr>) else (True, cs))"

definition remember_client_init_failure :: "time \<Rightarrow> fingerprint \<Rightarrow> pystr \<Rightarrow> client_state \<Rightarrow> client_state" where
  "remember_client_init_failure now fp category cs =
     (if category \<in> {u ''timeout'', u ''network-or-proxy''}
      then cs\<lparr>cl_failure := Some (fp, now + TELEGRAM_CLIENT_INIT_FAILURE_COOLDOWN_SECONDS, category)\<rparr> else cs)"

text \<open>\<open>fp\<close> makes the fingerprint, given whether there is a session file; \<open>later\<close> is the time when connecting has failed.\<close>

datatype client_answer = Client nat | In_Cooldown | Init_Failed pystr

definition connect_anew ::
    "time \<Rightarrow> time \<Rightarrow> (bool \<Rightarrow> fingerprint) \<Rightarrow> nat \<Rightarrow> nat \<Rightarrow> (nat \<Rightarrow> pystr option) \<Rightarrow> client_state \<Rightarrow> client_answer \<times> client_state" where
  "connect_anew now later fp here fresh outcome cs =
     (case client_init_in_cooldown now (fp (cl_session_file cs)) cs of
        (True, cs1) \<Rightarrow> (In_Cooldown, cs1)
      | (False, cs1) \<Rightarrow>
          (case connect_client_with_retry fresh outcome 0 cs1 of
             (Inr c, cs2) \<Rightarrow> (Client c, cs2\<lparr>cl_client := Some (c, here), cl_failure := None\<rparr>)
           | (Inl category, cs2) \<Rightarrow>
               (Init_Failed category, reset_client_state (remember_client_init_failure later (fp (cl_session_file cs2)) category cs2))))"

definition get_client ::
    "time \<Rightarrow> time \<Rightarrow> (bool \<Rightarrow> fingerprint) \<Rightarrow> nat \<Rightarrow> nat \<Rightarrow> (nat \<Rightarrow> pystr option) \<Rightarrow> client_state \<Rightarrow> client_answer \<times> client_state" where
  "get_client now later fp here fresh outcome cs =
     (case cl_client cs of
        Some (c, home) \<Rightarrow>
          if home = here \<and> c \<in> cl_connected cs then (Client c, cs)
          else connect_anew now later fp here fresh outcome (cs\<lparr>cl_connected := cl_connected cs - {c}\<rparr>)
      | None \<Rightarrow> connect_anew now later fp here fresh outcome cs)"

section \<open>Sources and their names\<close>

definition SOURCE_SPLIT_RE :: re where
  [re_pats]: "SOURCE_SPLIT_RE = many1 (Cls (\<lambda>c. c = 44 \<or> c = 10 \<or> c = 13))"

definition raw_source_list :: "pyval \<Rightarrow> pyval list" where
  "raw_source_list v =
     (case v of
        PStr s \<Rightarrow> (case json_loads s PNone of PList items \<Rightarrow> items | _ \<Rightarrow> map PStr (re_split SOURCE_SPLIT_RE s))
      | PList items \<Rightarrow> items
      | _ \<Rightarrow> [v])"

definition QUOTE_CHARS :: pystr where
  "QUOTE_CHARS = u ''[]'' @ [39, 34, 32]"

definition source_value :: "pyval \<Rightarrow> pystr" where
  "source_value item =
     (let v = (if is_pdict item
               then por (por (por (por (pget item (u ''source'')) (pget item (u ''canonical''))) (pget item (u ''id''))) (pget item (u ''value'')))
                      (pget item (u ''username''))
               else item)
      in strip_chars QUOTE_CHARS (strip (str_of_val (por v (PStr [])))))"

definition configured_sources :: "pyval \<Rightarrow> pystr list" where
  "configured_sources config =
     first_only (filter (\<lambda>s. s \<noteq> []) (map source_value
       (raw_source_list (if pget config (u ''sources'') = PNone then PStr [] else pget config (u ''sources'')))))"

datatype candidate = Name pystr | Number int

definition minus_100 :: pystr where "minus_100 = u ''-100''"

definition dialog_candidates :: "pystr \<Rightarrow> candidate list" where
  "dialog_candidates source =
     (let v = strip source;
          names = [Name (if starts_with [64] v then drop 1 v else v), Name v];
          numbers = (case int_of_str v of
              None \<Rightarrow> []
            | Some n \<Rightarrow>
                Number n # (if 0 < n then (case int_of_str (minus_100 @ int_str n) of None \<Rightarrow> [] | Some m \<Rightarrow> [Number m])
                  else if starts_with minus_100 v \<and> 4 < length v then (case int_of_str (drop 4 v) of None \<Rightarrow> [] | Some m \<Rightarrow> [Number m])
                  else []))
      in if v = [] then [] else first_only (names @ numbers))"

definition dialog_lookup_keys :: "pystr \<Rightarrow> pystr set" where
  "dialog_lookup_keys source =
     (let v = strip_chars QUOTE_CHARS (strip source) in
      if v = [] then {}
      else {v, lower v}
        \<union> (if starts_with [64] v then {lower (drop 1 v)} else {})
        \<union> (case int_of_str v of
             None \<Rightarrow> {}
           | Some n \<Rightarrow> {int_str n}
               \<union> (if 0 < n then {minus_100 @ int_str n} else if starts_with minus_100 v \<and> 4 < length v then {drop 4 v} else {})))"

text \<open>What the code reads of an entity; \<open>en_peer\<close> is its peer id, \<^const>\<open>None\<close> where the library cannot tell\<close>

record entity =
  en_id :: int
  en_peer :: "pystr option"
  en_username :: pystr
  en_title :: pystr
  en_hash :: pystr
  en_broadcast :: bool
  en_megagroup :: bool

definition id_str :: "entity \<Rightarrow> pystr" where
  "id_str e = (if en_id e = 0 then [] else int_str (en_id e))"

definition entity_source_id :: "entity \<Rightarrow> pystr \<Rightarrow> pystr" where
  "entity_source_id e fallback = (case en_peer e of Some p \<Rightarrow> p | None \<Rightarrow> or_str (id_str e) fallback)"

definition entity_lookup_keys :: "entity \<Rightarrow> pystr \<Rightarrow> pystr set" where
  "entity_lookup_keys e title =
     (\<Union>v \<in> set (filter (\<lambda>s. s \<noteq> []) (map strip [id_str e, en_username e, entity_source_id e [], title])).
        {v, lower v} \<union> (if starts_with [64] v then {lower (drop 1 v)} else {}))"

section \<open>The table of dialogs\<close>

record dialog_row =
  dr_source :: pystr
  dr_peer_id :: pystr
  dr_entity_id :: pystr
  dr_access_hash :: pystr
  dr_username :: pystr
  dr_title :: pystr
  dr_type :: pystr

definition entity_snapshot :: "entity \<Rightarrow> pystr \<Rightarrow> pystr \<Rightarrow> dialog_row" where
  "entity_snapshot e source title =
     \<lparr>dr_source = source, dr_peer_id = entity_source_id e source, dr_entity_id = id_str e, dr_access_hash = en_hash e,
      dr_username = en_username e, dr_title = or_str title (en_title e),
      dr_type = (if en_broadcast e then u ''channel'' else if en_megagroup e then u ''group'' else u ''peer'')\<rparr>"

definition upsert_dialog_entity :: "dialog_row \<Rightarrow> dialog_row list \<Rightarrow> dialog_row list" where
  "upsert_dialog_entity r table =
     (let row = r\<lparr>dr_source := strip (dr_source r), dr_peer_id := strip (dr_peer_id r)\<rparr> in
      if dr_source row = [] \<or> dr_peer_id row = [] then table
      else if dr_source row \<in> dr_source ` set table then map (\<lambda>old. if dr_source old = dr_source row then row else old) table
      else table @ [row])"

definition upsert_dialog_entities :: "dialog_row list \<Rightarrow> dialog_row list \<Rightarrow> nat \<times> dialog_row list" where
  "upsert_dialog_entities rows table =
     (length (filter (\<lambda>r. strip (dr_source r) \<noteq> [] \<and> strip (dr_peer_id r) \<noteq> []) rows), fold upsert_dialog_entity rows table)"

text \<open>Rows of the source under one of its names, else rows with any name in common\<close>

definition dialog_rows_of :: "pystr \<Rightarrow> dialog_row list \<Rightarrow> dialog_row list" where
  "dialog_rows_of source table =
     (let keys = dialog_lookup_keys source;
          own = filter (\<lambda>r. dr_source r \<in> insert source keys) table
      in if own \<noteq> [] then own
         else filter (\<lambda>r. keys \<inter> (dialog_lookup_keys (dr_source r) \<union> dialog_lookup_keys (dr_peer_id r) \<union> dialog_lookup_keys (dr_username r)) \<noteq> {})
                table)"

definition row_candidates :: "dialog_row \<Rightarrow> candidate list" where
  "row_candidates r =
     (let name = strip (dr_username r) in
      first_only
       ((if name \<noteq> [] then [Name (if starts_with [64] name then drop 1 name else name), Name (64 # lstrip_chars [64] name)] else [])
        @ concat (map (\<lambda>v. if v = [] then [] else Name v # (case int_of_str v of None \<Rightarrow> [] | Some n \<Rightarrow> [Number n]))
                    [strip (dr_peer_id r), strip (dr_entity_id r)])))"

section \<open>Resolving sources\<close>

definition TELEGRAM_DIALOG_NEGATIVE_TTL_SECONDS :: time where "TELEGRAM_DIALOG_NEGATIVE_TTL_SECONDS = 180"
definition TELEGRAM_RESOLVED_DIALOG_TTL_SECONDS :: time where "TELEGRAM_RESOLVED_DIALOG_TTL_SECONDS = 600"
definition TELEGRAM_DIALOG_CACHE_TTL_SECONDS :: time where "TELEGRAM_DIALOG_CACHE_TTL_SECONDS = 900"

text \<open>Without an entity the configured text itself is used.\<close>

record dialog =
  dg_entity :: "entity option"
  dg_source :: pystr
  dg_canonical :: pystr
  dg_title :: pystr

definition raw_dialog :: "pystr \<Rightarrow> dialog" where
  "raw_dialog source = \<lparr>dg_entity = None, dg_source = source, dg_canonical = source, dg_title = []\<rparr>"

definition found_dialog :: "entity \<Rightarrow> pystr \<Rightarrow> pystr \<Rightarrow> dialog" where
  "found_dialog e source canonical = \<lparr>dg_entity = Some e, dg_source = source, dg_canonical = canonical, dg_title = []\<rparr>"

type_synonym 'v timed = "(pystr \<times> time \<times> 'v) list"

text \<open>Beyond 256 entries the 64 that expire first go.\<close>

definition timed_store :: "time \<Rightarrow> pystr \<Rightarrow> 'v \<Rightarrow> 'v timed \<Rightarrow> 'v timed" where
  "timed_store expires key value cache =
     (let cache' = dict_set key (expires, value) cache in
      if 256 < length cache' then fold dict_pop (map fst (take 64 (sort_key (\<lambda>(_, t, _). t) cache'))) cache' else cache')"

definition timed_lookup :: "time \<Rightarrow> pystr \<Rightarrow> 'v timed \<Rightarrow> 'v option \<times> 'v timed" where
  "timed_lookup now key cache =
     (case map_of cache key of
        None \<Rightarrow> (None, cache)
      | Some (expires, v) \<Rightarrow> if expires \<le> now then (None, dict_pop key cache) else (Some v, cache))"

record dialog_caches =
  dc_resolved :: "dialog timed"
  dc_negative :: "unit timed"
  dc_map :: "(pystr \<times> time \<times> (pystr \<times> dialog) list) option" \<comment> \<open>of one client in one loop\<close>
  dc_table :: "dialog_row list"

definition cached_resolved_dialog :: "time \<Rightarrow> pystr \<Rightarrow> dialog_caches \<Rightarrow> dialog option \<times> dialog_caches" where
  "cached_resolved_dialog now source c =
     (if strip source = [] then (None, c)
      else case timed_lookup now (strip source) (dc_resolved c) of (hit, cache) \<Rightarrow> (hit, c\<lparr>dc_resolved := cache\<rparr>))"

definition store_resolved_dialog :: "time \<Rightarrow> pystr \<Rightarrow> dialog \<Rightarrow> dialog_caches \<Rightarrow> dialog_caches" where
  "store_resolved_dialog now source d c =
     (if strip source = [] then c
      else c\<lparr>dc_resolved := timed_store (now + TELEGRAM_RESOLVED_DIALOG_TTL_SECONDS) (strip source) d (dc_resolved c)\<rparr>)"

definition dialog_negative_hit :: "time \<Rightarrow> pystr \<Rightarrow> dialog_caches \<Rightarrow> bool \<times> dialog_caches" where
  "dialog_negative_hit now source c =
     (if strip source = [] then (False, c)
      else case timed_lookup now (strip source) (dc_negative c) of (hit, cache) \<Rightarrow> (hit \<noteq> None, c\<lparr>dc_negative := cache\<rparr>))"

definition dialog_negative_store :: "time \<Rightarrow> pystr \<Rightarrow> dialog_caches \<Rightarrow> dialog_caches" where
  "dialog_negative_store now source c =
     (if strip source = [] then c
      else c\<lparr>dc_negative := timed_store (now + TELEGRAM_DIALOG_NEGATIVE_TTL_SECONDS) (strip source) () (dc_negative c)\<rparr>)"

definition cached_dialog_entity_map :: "time \<Rightarrow> pystr \<Rightarrow> dialog_caches \<Rightarrow> (pystr \<times> dialog) list option" where
  "cached_dialog_entity_map now key c =
     (case dc_map c of
        None \<Rightarrow> None
      | Some (key', at_time, items) \<Rightarrow>
          if key' \<noteq> key \<or> at_time = 0 \<or> TELEGRAM_DIALOG_CACHE_TTL_SECONDS < now - at_time then None else Some items)"

text \<open>What the client knows: an entity for a name or number, and the list of its dialogs with their titles, if it comes in time\<close>

record dialog_client =
  dw_entity :: "candidate \<Rightarrow> entity option"
  dw_dialogs :: "(entity \<times> pystr) list option"
  dw_order :: "pystr set \<Rightarrow> pystr list" \<comment> \<open>in which a set of keys is gone through\<close>

definition first_entity :: "dialog_client \<Rightarrow> candidate list \<Rightarrow> entity option" where
  "first_entity w cs = (case List.find (\<lambda>c. dw_entity w c \<noteq> None) cs of None \<Rightarrow> None | Some c \<Rightarrow> dw_entity w c)"

fun resolve_from_rows :: "dialog_client \<Rightarrow> pystr \<Rightarrow> dialog_row list \<Rightarrow> dialog option" where
  "resolve_from_rows w source [] = None"
| "resolve_from_rows w source (r # rows) =
     (case first_entity w (row_candidates r) of
        None \<Rightarrow> resolve_from_rows w source rows
      | Some e \<Rightarrow> Some (found_dialog e source (entity_source_id e (or_str (dr_peer_id r) source))))"

definition resolve_from_persistent_cache :: "dialog_client \<Rightarrow> pystr \<Rightarrow> dialog_caches \<Rightarrow> dialog option" where
  "resolve_from_persistent_cache w source c = resolve_from_rows w source (dialog_rows_of source (dc_table c))"

definition dialog_map_items :: "dialog_client \<Rightarrow> (entity \<times> pystr) list \<Rightarrow> (pystr \<times> dialog) list" where
  "dialog_map_items w dialogs =
     fold (\<lambda>(e, title) items.
         let canonical = entity_source_id e (id_str e);
             item = (found_dialog e canonical canonical)\<lparr>dg_title := title\<rparr>
         in fold (\<lambda>k. dict_set k item) (dw_order w (entity_lookup_keys e title)) items)
       (filter (\<lambda>(e, _). en_megagroup e \<or> en_broadcast e) dialogs) []"

fun first_of_canonical :: "pystr list \<Rightarrow> dialog list \<Rightarrow> dialog_row list" where
  "first_of_canonical seen [] = []"
| "first_of_canonical seen (d # ds) =
     (case dg_entity d of
        None \<Rightarrow> first_of_canonical seen ds
      | Some e \<Rightarrow>
          if dg_canonical d = [] \<or> dg_canonical d \<in> set seen then first_of_canonical seen ds
          else entity_snapshot e (dg_canonical d) (dg_title d) # first_of_canonical (dg_canonical d # seen) ds)"

definition persist_entity_map :: "(pystr \<times> dialog) list \<Rightarrow> dialog_row list \<Rightarrow> dialog_row list" where
  "persist_entity_map items table = snd (upsert_dialog_entities (first_of_canonical [] (map snd items)) table)"

text \<open>A list of dialogs that does not come in time leaves an empty map; it is not kept.\<close>

definition dialog_entity_map :: "time \<Rightarrow> pystr \<Rightarrow> dialog_client \<Rightarrow> dialog_caches \<Rightarrow> (pystr \<times> dialog) list \<times> dialog_caches" where
  "dialog_entity_map now key w c =
     (case cached_dialog_entity_map now key c of
        Some items \<Rightarrow> (items, c)
      | None \<Rightarrow>
          (case dw_dialogs w of
             None \<Rightarrow> ([], c)
           | Some dialogs \<Rightarrow>
               (let items = dialog_map_items w dialogs
                in (items, c\<lparr>dc_map := Some (key, now, items), dc_table := persist_entity_map items (dc_table c)\<rparr>))))"

definition resolve_dialog :: "dialog_client \<Rightarrow> pystr \<Rightarrow> dialog_caches \<Rightarrow> dialog \<times> dialog_caches" where
  "resolve_dialog w source c =
     (case first_entity w (dialog_candidates source) of
        None \<Rightarrow> (raw_dialog source, c)
      | Some e \<Rightarrow>
          (let canonical = entity_source_id e source
           in (found_dialog e source canonical, c\<lparr>dc_table := upsert_dialog_entity (entity_snapshot e canonical (en_title e)) (dc_table c)\<rparr>)))"

text \<open>The first pass: what is remembered; \<^const>\<open>None\<close> leaves the source to the second pass.\<close>

definition resolve_remembered :: "time \<Rightarrow> dialog_client \<Rightarrow> pystr \<Rightarrow> dialog_caches \<Rightarrow> dialog option \<times> dialog_caches" where
  "resolve_remembered now w source c =
     (case cached_resolved_dialog now source c of
        (Some d, c1) \<Rightarrow> (Some d, c1)
      | (None, c1) \<Rightarrow>
          (case dialog_negative_hit now source c1 of
             (True, c2) \<Rightarrow> (Some (raw_dialog source), c2)
           | (False, c2) \<Rightarrow>
               (case resolve_from_persistent_cache w source c2 of
                  Some d \<Rightarrow> (Some d, store_resolved_dialog now source d c2)
                | None \<Rightarrow> (None, c2))))"

fun resolve_first :: "time \<Rightarrow> dialog_client \<Rightarrow> pystr list \<Rightarrow> dialog_caches \<Rightarrow> (dialog list \<times> pystr list) \<times> dialog_caches" where
  "resolve_first now w [] c = (([], []), c)"
| "resolve_first now w (s # ss) c =
     (case resolve_remembered now w s c of
        (found, c1) \<Rightarrow>
          (case resolve_first now w ss c1 of
             ((dialogs, pending), c2) \<Rightarrow>
               ((case found of Some d \<Rightarrow> (d # dialogs, pending) | None \<Rightarrow> (dialogs, s # pending)), c2)))"

definition resolve_pending :: "time \<Rightarrow> dialog_client \<Rightarrow> (pystr \<times> dialog) list \<Rightarrow> pystr \<Rightarrow> dialog_caches \<Rightarrow> dialog \<times> dialog_caches" where
  "resolve_pending now w items source c =
     (case List.find (\<lambda>k. map_of items k \<noteq> None) (dw_order w (dialog_lookup_keys source)) of
        Some k \<Rightarrow>
          (let d = (the (map_of items k))\<lparr>dg_source := source\<rparr>;
               c1 = (case dg_entity d of
                   None \<Rightarrow> c
                 | Some e \<Rightarrow> c\<lparr>dc_table := upsert_dialog_entity (entity_snapshot e (or_str (dg_canonical d) source) (dg_title d)) (dc_table c)\<rparr>)
           in (d, store_resolved_dialog now source d c1))
      | None \<Rightarrow>
          (case resolve_dialog w source c of
             (d, c1) \<Rightarrow> (d, if dg_entity d = None then dialog_negative_store now source c1 else store_resolved_dialog now source d c1)))"

fun resolve_second :: "time \<Rightarrow> dialog_client \<Rightarrow> (pystr \<times> dialog) list \<Rightarrow> pystr list \<Rightarrow> dialog_caches \<Rightarrow> dialog list \<times> dialog_caches" where
  "resolve_second now w items [] c = ([], c)"
| "resolve_second now w items (s # ss) c =
     (case resolve_pending now w items s c of
        (d, c1) \<Rightarrow> (case resolve_second now w items ss c1 of (ds, c2) \<Rightarrow> (d # ds, c2)))"

definition resolve_dialogs :: "time \<Rightarrow> pystr \<Rightarrow> dialog_client \<Rightarrow> pystr list \<Rightarrow> dialog_caches \<Rightarrow> dialog list \<times> dialog_caches" where
  "resolve_dialogs now key w sources c =
     (case resolve_first now w sources c of
        ((dialogs, pending), c1) \<Rightarrow>
          (case (if pending = [] then ([], c1) else dialog_entity_map now key w c1) of
             (items, c2) \<Rightarrow> (case resolve_second now w items pending c2 of (more_dialogs, c3) \<Rightarrow> (dialogs @ more_dialogs, c3))))"

section \<open>Filling the index\<close>

definition TELEGRAM_INDEX_PREWARM_LIMIT :: int where "TELEGRAM_INDEX_PREWARM_LIMIT = 80"
definition TELEGRAM_INDEX_PREWARM_DELTA_LIMIT :: int where "TELEGRAM_INDEX_PREWARM_DELTA_LIMIT = 40"

text \<open>\<open>fetch n\<close> is the answer to the request of the newest \<open>n\<close> messages.\<close>

definition prewarm_dialog_index ::
    "(pystr \<Rightarrow> message list \<Rightarrow> index_row list \<Rightarrow> nat \<times> index_row list) \<Rightarrow> (int \<Rightarrow> message list option) \<Rightarrow> pystr \<Rightarrow> int \<Rightarrow> index_row list
       \<Rightarrow> (nat \<times> nat) \<times> index_row list" where
  "prewarm_dialog_index index fetch source limit table =
     (let already = max_indexed_message_id source table in
      if source = [] then ((0, 0), table)
      else case fetch (if 0 < already then TELEGRAM_INDEX_PREWARM_DELTA_LIMIT else max 8 (min limit 100)) of
          None \<Rightarrow> ((0, 0), table)
        | Some messages \<Rightarrow>
            (let fresh = (if 0 < already then filter (\<lambda>m. already < tm_id m) messages else messages) in
             if 0 < already \<and> fresh = [] then ((0, if messages = [] then 0 else 1), table)
             else case index source fresh table of (n, table') \<Rightarrow> ((n, 0), table')))"

definition dialog_index_source :: "dialog \<Rightarrow> pystr" where
  "dialog_index_source d = or_str (dg_canonical d) (dg_source d)"

definition prewarm_order :: "index_row list \<Rightarrow> dialog list \<Rightarrow> dialog list" where
  "prewarm_order table =
     sort_key (\<lambda>d. (if max_indexed_message_id (dialog_index_source d) table \<le> 0 then 0 else 1 :: nat, dialog_index_source d))"

text \<open>The dialogs are read side by side; here they are done in their order, each with its own answers.\<close>

fun prewarm_dialogs ::
    "(pystr \<Rightarrow> message list \<Rightarrow> index_row list \<Rightarrow> nat \<times> index_row list) \<Rightarrow> (dialog \<Rightarrow> int \<Rightarrow> message list option) \<Rightarrow> int \<Rightarrow> dialog list
       \<Rightarrow> (nat \<times> nat) \<times> index_row list \<Rightarrow> (nat \<times> nat) \<times> index_row list" where
  "prewarm_dialogs index fetch limit [] acc = acc"
| "prewarm_dialogs index fetch limit (d # ds) ((indexed, skipped), table) =
     (case prewarm_dialog_index index (fetch d) (dialog_index_source d) limit table of
        ((n, k), table') \<Rightarrow> prewarm_dialogs index fetch limit ds ((indexed + n, skipped + k), table'))"

definition prewarm_message_index ::
    "(pystr \<Rightarrow> message list \<Rightarrow> index_row list \<Rightarrow> nat \<times> index_row list) \<Rightarrow> (dialog \<Rightarrow> int \<Rightarrow> message list option) \<Rightarrow> int \<Rightarrow> dialog list
       \<Rightarrow> index_row list \<Rightarrow> (nat \<times> nat) \<times> index_row list" where
  "prewarm_message_index index fetch limit dialogs table =
     prewarm_dialogs index fetch limit (prewarm_order table dialogs) ((0, 0), table)"

section \<open>Listening\<close>

text \<open>The task that keeps the connection, and the handler that is registered for some sources\<close>

datatype listener_task = No_Listener | Listening | Ended

record listener =
  li_task :: listener_task
  li_handler :: "pystr list option"
  li_registered :: "pystr list list" \<comment> \<open>the handlers the client has\<close>

definition reset_dead_listener :: "listener \<Rightarrow> listener" where
  "reset_dead_listener l = (if li_task l = Ended then l\<lparr>li_task := No_Listener, li_handler := None\<rparr> else l)"

definition monitor_is_healthy :: "pystr list \<Rightarrow> listener \<Rightarrow> bool" where
  "monitor_is_healthy sources l \<longleftrightarrow> li_task l = Listening \<and> li_handler l = Some sources"

definition prepare_handler_registration :: "listener \<Rightarrow> listener" where
  "prepare_handler_registration l =
     (case li_handler l of None \<Rightarrow> l | Some old \<Rightarrow> l\<lparr>li_handler := None, li_registered := remove1 old (li_registered l)\<rparr>)"

definition register_event_handler :: "pystr list \<Rightarrow> listener \<Rightarrow> listener" where
  "register_event_handler sources l =
     (if li_handler l = None then l\<lparr>li_handler := Some sources, li_registered := li_registered l @ [sources]\<rparr> else l)"

text \<open>\<open>same\<close>: the client is still the one the handlers were registered with; a new one has none.\<close>

definition ensure_monitoring :: "bool \<Rightarrow> dialog list \<Rightarrow> listener \<Rightarrow> listener" where
  "ensure_monitoring same dialogs l0 =
     (let l = (if same then l0 else l0\<lparr>li_registered := []\<rparr>);
          sources = map dg_canonical dialogs;
          l1 = reset_dead_listener l
      in if dialogs = [] then l
         else if monitor_is_healthy sources l1 then l1
         else (register_event_handler sources (prepare_handler_registration l1))\<lparr>li_task := Listening\<rparr>)"

definition handle_new_message ::
    "(pystr \<Rightarrow> pystr) \<Rightarrow> telegram_world \<Rightarrow> time \<Rightarrow> (pystr \<Rightarrow> message list \<Rightarrow> index_row list \<Rightarrow> nat \<times> index_row list)
       \<Rightarrow> (search_result list \<Rightarrow> pystr \<Rightarrow> 'db \<Rightarrow> 'db) \<Rightarrow> pystr \<Rightarrow> message \<Rightarrow> link_caches \<times> index_row list \<times> 'db
       \<Rightarrow> link_caches \<times> index_row list \<times> 'db" where
  "handle_new_message unescape w now index attach chat m = (\<lambda>(caches, table, db).
     (let source = or_str chat (u ''telegram'');
          table' = snd (index source [m] table)
      in case pipeline_extract_message_links unescape w now source m [] []
                \<lparr>ds_seen = {}, ds_safe = {}, ds_stats = new_pipeline_stats, ds_caches = caches\<rparr> of
          (results, st) \<Rightarrow>
            (ds_caches st, table', if results = [] then db else attach results (telegram_message_text m) db)))"

section \<open>Attempts and pauses\<close>

lemma client_made: "connect_client_with_retry fresh outcome attempt cs = (Inr c, cs') \<Longrightarrow> attempt \<le> 2 \<Longrightarrow> fresh \<le> c \<and> c \<le> fresh + 2 \<and> c \<in> cl_connected cs'"
proof (induction fresh outcome attempt cs rule: connect_client_with_retry.induct)
  case (1 fresh outcome attempt cs)
  show ?case
  proof (cases "outcome attempt")
    case None
    then show ?thesis using 1(2,3) by (auto simp: connect_client_with_retry.simps [of fresh outcome attempt cs])
  next
    case (Some category)
    obtain retry cs1 where h: "handle_client_connect_failure category attempt cs = (retry, cs1)" by fastforce
    have eq: "connect_client_with_retry fresh outcome attempt cs
        = (if retry then connect_client_with_retry fresh outcome (Suc attempt) cs1 else (Inl category, cs1))"
      by (simp add: connect_client_with_retry.simps [of fresh outcome attempt cs] Some h)
    then have retry: retry and rec: "connect_client_with_retry fresh outcome (Suc attempt) cs1 = (Inr c, cs')"
      using 1(2) by (auto split: if_splits)
    have "attempt < 2" using h retry
      by (auto simp: handle_client_connect_failure_def can_retry_connect_def TELEGRAM_CLIENT_CONNECT_RETRIES_def Let_def)
    then show ?thesis using 1(1) [OF Some h [symmetric] retry rec] by simp
  qed
qed

text \<open>After a failure of the network no attempt is made for 45 seconds, from whatever loop.\<close>

lemma no_attempt_in_pause:
  assumes "get_client now later fp here fresh outcome cs = (Init_Failed category, cs')"
    "category \<in> {u ''timeout'', u ''network-or-proxy''}" "t < later + TELEGRAM_CLIENT_INIT_FAILURE_COOLDOWN_SECONDS"
  shows "get_client t later' fp here' fresh' outcome' cs' = (In_Cooldown, cs')"
proof -
  obtain cs0 where anew: "connect_anew now later fp here fresh outcome cs0 = (Init_Failed category, cs')"
    using assms(1) by (auto simp: get_client_def split: option.splits if_splits)
  then obtain cs1 cs2 where cs': "cs' = reset_client_state (remember_client_init_failure later (fp (cl_session_file cs2)) category cs2)"
    by (auto simp: connect_anew_def split: prod.splits bool.splits sum.splits)
  then show ?thesis
    using assms(2,3)
    by (auto simp: get_client_def connect_anew_def client_init_in_cooldown_def reset_client_state_def remember_client_init_failure_def)
qed

text \<open>Only one loop can have the client: a call from another one disconnects it.\<close>

lemma handle_failure_keeps_off: "c \<notin> cl_connected cs \<Longrightarrow> c \<notin> cl_connected (snd (handle_client_connect_failure category attempt cs))"
  by (auto simp: handle_client_connect_failure_def handle_invalid_session_def reset_client_state_def Let_def split: option.splits)

lemma connect_keeps_off:
  "c < fresh \<Longrightarrow> c \<notin> cl_connected cs \<Longrightarrow> c \<notin> cl_connected (snd (connect_client_with_retry fresh outcome attempt cs))"
proof (induction fresh outcome attempt cs rule: connect_client_with_retry.induct)
  case (1 fresh outcome attempt cs)
  show ?case
  proof (cases "outcome attempt")
    case None
    then show ?thesis using 1(2,3) by (simp add: connect_client_with_retry.simps [of fresh outcome attempt cs])
  next
    case (Some d)
    obtain retry cs1 where h: "handle_client_connect_failure d attempt cs = (retry, cs1)" by fastforce
    have "c \<notin> cl_connected cs1" using handle_failure_keeps_off [OF 1(3), of d attempt] h by simp
    then show ?thesis using 1(1) [OF Some h [symmetric] _ 1(2)]
      by (simp add: connect_client_with_retry.simps [of fresh outcome attempt cs] Some h)
  qed
qed

lemma second_loop_disconnects:
  assumes "cl_client cs = Some (c, home)" "here \<noteq> home" "c < fresh"
  shows "c \<notin> cl_connected (snd (get_client now later fp here fresh outcome cs))"
proof -
  let ?cs = "cs\<lparr>cl_connected := cl_connected cs - {c}\<rparr>"
  obtain pause cs1 where p: "client_init_in_cooldown now (fp (cl_session_file cs)) ?cs = (pause, cs1)" by fastforce
  then have off: "c \<notin> cl_connected cs1" by (auto simp: client_init_in_cooldown_def split: option.splits prod.splits if_splits)
  obtain answer cs2 where a: "connect_client_with_retry fresh outcome 0 cs1 = (answer, cs2)" by fastforce
  have "c \<notin> cl_connected cs2" using connect_keeps_off [OF assms(3) off, of outcome 0] a by simp
  moreover have "get_client now later fp here fresh outcome cs = connect_anew now later fp here fresh outcome ?cs"
    using assms(1,2) by (simp add: get_client_def)
  ultimately show ?thesis
    using off by (auto simp: connect_anew_def p a reset_client_state_def remember_client_init_failure_def split: bool.splits sum.splits option.splits)
qed

section \<open>The caches of the resolution\<close>

lemma timed_store_size:
  assumes "length cache \<le> 256"
  shows "length (timed_store expires key value cache) \<le> 256"
proof -
  let ?cache = "dict_set key (expires, value) cache"
  have "length ?cache \<le> Suc (length cache)" by (rule length_dict_set)
  moreover have "length (fold dict_pop (map fst (take 64 (sort_key (\<lambda>(_, t, _). t) ?cache))) ?cache) < length ?cache"
    if "256 < length ?cache"
    using that by (intro pops_some) auto
  ultimately show ?thesis using assms by (auto simp: timed_store_def Let_def)
qed

interpretation remembered_dialogs: expiring_cache "\<lambda>t k c. fst (timed_lookup t k c)" "\<lambda>now k v c. timed_store (now + ttl) k v c"
    "\<lambda>_. ttl" "\<lambda>v. v" "\<lambda>n c. length c + n \<le> 256" for ttl
proof
  fix n t now k k' v and c :: "'v timed"
  assume room: "length c + Suc n \<le> 256"
  have "length (dict_set k (now + ttl, v) c) \<le> Suc (length c)" by (rule length_dict_set)
  then have store: "timed_store (now + ttl) k v c = dict_set k (now + ttl, v) c" and size: "length (dict_set k (now + ttl, v) c) + n \<le> 256"
    using room by (simp_all add: timed_store_def Let_def)
  show "t < now + ttl \<Longrightarrow> fst (timed_lookup t k (timed_store (now + ttl) k v c)) = Some v"
    by (simp add: store timed_lookup_def update_conv')
  show "k' \<noteq> k \<Longrightarrow> fst (timed_lookup t k' (timed_store (now + ttl) k v c)) = fst (timed_lookup t k' c)"
    by (simp add: store timed_lookup_def update_conv' split: option.split)
  show "now + ttl < t \<Longrightarrow> fst (timed_lookup t k (timed_store (now + ttl) k v c)) = None"
    by (simp add: store timed_lookup_def update_conv')
  show "length (timed_store (now + ttl) k v c) + n \<le> 256" using size by (simp add: store)
qed

text \<open>A source that was resolved is answered from the cache for ten minutes.\<close>

lemma resolved_again:
  assumes "strip source \<noteq> []" "length (dc_resolved c) < 256" "t < now + TELEGRAM_RESOLVED_DIALOG_TTL_SECONDS"
  shows "fst (resolve_remembered t w source (store_resolved_dialog now source d c)) = Some d"
proof -
  have "fst (timed_lookup t (strip source) (timed_store (now + TELEGRAM_RESOLVED_DIALOG_TTL_SECONDS) (strip source) d (dc_resolved c))) = Some d"
    using assms(2,3) by (intro remembered_dialogs.hit [of _ 0]) simp_all
  then show ?thesis using assms(1)
    by (auto simp: resolve_remembered_def cached_resolved_dialog_def store_resolved_dialog_def split: prod.splits)
qed

text \<open>Every configured source gets one dialog.\<close>

lemma first_pass: "resolve_first now w sources c = ((dialogs, pending), c') \<Longrightarrow> length dialogs + length pending = length sources \<and> set pending \<subseteq> set sources"
proof (induction sources arbitrary: c dialogs pending c')
  case (Cons s ss)
  obtain found c1 where f: "resolve_remembered now w s c = (found, c1)" by fastforce
  obtain ds p c2 where r: "resolve_first now w ss c1 = ((ds, p), c2)" by (metis surj_pair)
  show ?case using Cons.prems Cons.IH [OF r] by (auto simp: f r split: option.splits)
qed simp

lemma second_pass: "length (fst (resolve_second now w items sources c)) = length sources"
proof (induction sources arbitrary: c)
  case (Cons s ss)
  obtain d c1 where "resolve_pending now w items s c = (d, c1)" by fastforce
  then show ?case using Cons [of c1] by (simp add: case_prod_unfold)
qed simp

lemma every_source_resolved: "length (fst (resolve_dialogs now key w sources c)) = length sources"
proof -
  obtain dialogs pending c1 where f: "resolve_first now w sources c = ((dialogs, pending), c1)" by (metis surj_pair)
  obtain items c2 where i: "(if pending = [] then ([], c1) else dialog_entity_map now key w c1) = (items, c2)" by fastforce
  have "fst (resolve_dialogs now key w sources c) = dialogs @ fst (resolve_second now w items pending c2)"
    unfolding resolve_dialogs_def f prod.case i by (simp split: prod.splits)
  then show ?thesis using first_pass [OF f] second_pass by simp
qed

lemma dialog_rows_distinct:
  assumes "distinct (map dr_source table)"
  shows "distinct (map dr_source (upsert_dialog_entity r table))"
proof -
  define row where "row = r\<lparr>dr_source := strip (dr_source r), dr_peer_id := strip (dr_peer_id r)\<rparr>"
  have "map dr_source (map (\<lambda>old. if dr_source old = dr_source row then row else old) table) = map dr_source table" by simp
  then have replaced: "distinct (map dr_source (map (\<lambda>old. if dr_source old = dr_source row then row else old) table))"
    using assms by (simp only:)
  have "distinct (map dr_source (table @ [row]))" if "dr_source row \<notin> dr_source ` set table" using assms that by simp
  then show ?thesis using assms replaced
    unfolding upsert_dialog_entity_def Let_def row_def [symmetric] by (auto simp del: map_append map_map)
qed

section \<open>Gaps\<close>

text \<open>What lies below the newest indexed message and was not indexed is not taken in by filling the index, whatever is fetched.\<close>

lemma prewarm_gap:
  assumes "0 < max_indexed_message_id source table" "tm_id m \<le> max_indexed_message_id source table"
    and "prewarm_dialog_index index fetch source limit table = (counts, table')"
  shows "table' = table \<or> (\<exists>fresh. m \<notin> set fresh \<and> table' = snd (index source fresh table))"
proof (cases "fetch TELEGRAM_INDEX_PREWARM_DELTA_LIMIT")
  case None
  then show ?thesis using assms(1,3) by (auto simp: prewarm_dialog_index_def Let_def split: if_splits)
next
  case (Some messages)
  let ?fresh = "filter (\<lambda>m. max_indexed_message_id source table < tm_id m) messages"
  obtain n table1 where index: "index source ?fresh table = (n, table1)" by fastforce
  have "table' = table \<or> table' = table1"
    using assms(1,3) Some index by (auto simp: prewarm_dialog_index_def Let_def split: if_splits)
  moreover have "m \<notin> set ?fresh" using assms(2) by simp
  moreover have "table1 = snd (index source ?fresh table)" by (simp add: index)
  ultimately show ?thesis by blast
qed

lemma prewarm_order_permutes: "mset (prewarm_order table dialogs) = mset dialogs"
  by (simp add: prewarm_order_def)

section \<open>One handler\<close>

lemma monitoring_stable: "ensure_monitoring True dialogs (ensure_monitoring same dialogs l) = ensure_monitoring same dialogs l"
  by (auto simp: ensure_monitoring_def Let_def reset_dead_listener_def monitor_is_healthy_def register_event_handler_def
      prepare_handler_registration_def split: option.splits)

lemma one_handler:
  assumes "li_registered l = (case li_handler l of None \<Rightarrow> [] | Some s \<Rightarrow> [s])" "li_task l \<noteq> Ended \<or> \<not> same" "li_task l = Listening \<longrightarrow> same"
    "dialogs \<noteq> []"
  shows "li_registered (ensure_monitoring same dialogs l) = [map dg_canonical dialogs]"
  using assms
  by (auto simp: ensure_monitoring_def Let_def reset_dead_listener_def monitor_is_healthy_def register_event_handler_def
      prepare_handler_registration_def split: option.splits)

text \<open>
  If the task ended while the client is still the same, the old handler stays registered and every message is handled twice.
\<close>

lemma ended_listener_doubles:
  "li_task l = Ended \<Longrightarrow> li_registered l = [s] \<Longrightarrow> dialogs \<noteq> [] \<Longrightarrow>
     li_registered (ensure_monitoring True dialogs l) = [s, map dg_canonical dialogs]"
  by (auto simp: ensure_monitoring_def Let_def reset_dead_listener_def monitor_is_healthy_def register_event_handler_def
      prepare_handler_registration_def split: option.splits)

end
