(* ===== verification/Telegram_Bot.thy ===== *)
theory Telegram_Bot
  imports Subscription_Crud Magnet_Search
begin

text \<open>
  The bot (\<open>telegram/bot/\<close>): how the updates are fetched and how a failure is treated (\<open>polling.py\<close>), who may speak to it
  (\<open>adapter.py\<close>), its commands (\<open>commands.py\<close>) and its buttons (\<open>callbacks.py\<close>).  The Bot API, TMDB and the delivery are parameters;
  what is sent is left out except for the list of subscriptions, the wording of the other replies is left to the
  constructors.  The picks behind the buttons are looked up at one moment.
  Shown: the waits between two attempts stay between 2 and 30 seconds; updates that raise nothing are handled once, whatever
  is polled later; an update that raises is fetched again and again, and with it all that came before it in the same answer
  are handled again; only an allowed chat reaches the commands; the command for the list that the help names searches for
  a film instead; cancelling a title that begins with a number deletes by id; a link that was picked before cannot be picked
  again, and no other choice is tried then.
\<close>

section \<open>Updates\<close>

record bot_update =
  up_id :: int
  up_body :: pyval

datatype poll_answer = No_Connection | Refused_Answer | Updates "bot_update list"

record 's poll_state =
  po_offset :: int \<comment> \<open>in the loop\<close>
  po_saved :: int \<comment> \<open>in the table of flows\<close>
  po_delay :: rat
  po_world :: 's

text \<open>The offset is saved before an update is handled, but reaches the loop only when all of them are.\<close>

fun handle_updates :: "('s \<Rightarrow> bot_update \<Rightarrow> 's \<times> bool) \<Rightarrow> bot_update list \<Rightarrow> int \<Rightarrow> int \<Rightarrow> 's \<Rightarrow> int option \<times> int \<times> 's" where
  "handle_updates handle [] offset saved s = (Some offset, saved, s)"
| "handle_updates handle (x # xs) offset saved s =
     (let next = (if up_id x = 0 then offset else up_id x) + 1 in
      case handle s x of
        (s', raised) \<Rightarrow> if raised then (None, next, s') else handle_updates handle xs next next s')"

definition raise_delay :: "rat \<Rightarrow> rat" where
  "raise_delay delay = min (delay * (8 / 5)) 30"

definition poll_round :: "('s \<Rightarrow> bot_update \<Rightarrow> 's \<times> bool) \<Rightarrow> poll_answer \<Rightarrow> 's poll_state \<Rightarrow> 's poll_state" where
  "poll_round handle answer st =
     (case answer of
        No_Connection \<Rightarrow> st\<lparr>po_delay := raise_delay (po_delay st)\<rparr>
      | Refused_Answer \<Rightarrow> st\<lparr>po_delay := 2\<rparr>
      | Updates xs \<Rightarrow>
          (case handle_updates handle xs (po_offset st) (po_saved st) (po_world st) of
             (None, saved, s) \<Rightarrow> st\<lparr>po_saved := saved, po_world := s, po_delay := raise_delay (po_delay st)\<rparr>
           | (Some offset, saved, s) \<Rightarrow> st\<lparr>po_offset := offset, po_saved := saved, po_world := s, po_delay := 2\<rparr>))"

definition restart_polling :: "'s poll_state \<Rightarrow> 's poll_state" where
  "restart_polling st = st\<lparr>po_offset := po_saved st, po_delay := 2\<rparr>"

text \<open>The task of the loop, with the token it polls for\<close>

datatype poll_task = No_Task | Polling pystr | Stopped pystr

definition ensure_polling :: "pystr \<Rightarrow> poll_task \<Rightarrow> poll_task" where
  "ensure_polling bot_token task =
     (let token = strip bot_token in
      if token = [] then task
      else case task of
          Polling t \<Rightarrow> if t = token then task else Polling token
        | _ \<Rightarrow> Polling token)"

section \<open>Failures of the polling\<close>

record poll_error =
  pe_timeout :: bool \<comment> \<open>one of the classes for timeouts\<close>
  pe_status :: "int option" \<comment> \<open>of an \<open>HTTPStatusError\<close>\<close>
  pe_http :: bool
  pe_text :: pystr \<comment> \<open>name of the class, \<open>str\<close> and \<open>repr\<close>\<close>

definition text_has :: "string list \<Rightarrow> pystr \<Rightarrow> bool" where
  "text_has words t = list_ex (\<lambda>w. contains (u w) t) words"

definition status_class :: "int \<Rightarrow> pystr option" where
  "status_class status =
     (if List.member [401, 403, 404] status then Some (u ''auth-or-token'')
      else if status = 409 then Some (u ''polling-conflict'')
      else if status = 429 then Some (u ''rate-limit'')
      else if 500 \<le> status then Some (u ''telegram-api'')
      else None)"

definition classify_poll_error :: "poll_error option \<Rightarrow> pystr" where
  "classify_poll_error e =
     (case e of
        None \<Rightarrow> u ''task-stopped''
      | Some x \<Rightarrow>
          (let t = casefold (pe_text x) in
           if pe_timeout x \<or> text_has [''timeout'', ''timed out''] t then u ''timeout''
           else case Option.bind (pe_status x) status_class of
               Some c \<Rightarrow> c
             | None \<Rightarrow>
                 if pe_http x \<or> text_has [''proxy'', ''connect'', ''network'', ''tls'', ''ssl'', ''connection''] t
                 then u ''network-or-proxy'' else u ''unknown''))"

definition classify_api_error :: "int \<Rightarrow> pystr \<Rightarrow> pystr" where
  "classify_api_error code description =
     (let t = casefold description in
      if List.member [401, 403, 404] code \<or> text_has [''token'', ''unauthorized''] t then u ''auth-or-token''
      else if code = 409 \<or> text_has [''terminated by other getupdates'', ''conflict''] t then u ''polling-conflict''
      else if code = 429 \<or> text_has [''too many requests''] t then u ''rate-limit''
      else u ''telegram-api'')"

definition RECOVERABLE :: "pystr list" where
  "RECOVERABLE = map u [''timeout'', ''telegram-api'', ''network-or-proxy'', ''rate-limit'', ''polling-conflict'']"

definition should_throttle_recoverable_poll_error ::
    "time \<Rightarrow> pystr \<Rightarrow> pystr \<Rightarrow> ((pystr \<times> pystr) \<times> time) list \<Rightarrow> bool \<times> ((pystr \<times> pystr) \<times> time) list" where
  "should_throttle_recoverable_poll_error now category action seen =
     (if \<not> List.member RECOVERABLE category then (False, seen)
      else (now - (case map_of seen (category, action) of None \<Rightarrow> 0 | Some t \<Rightarrow> t) < 60, dict_set (category, action) now seen))"

section \<open>Who may speak\<close>

definition chat_allowed :: "pyval \<Rightarrow> pyval \<Rightarrow> bool" where
  "chat_allowed config chat =
     (let allowed = strip (str_of_val (por (pget config (u ''allowed_chat_id'')) (PStr [])))
      in allowed = [] \<or> str_of_val chat = allowed)"

definition chat_of :: "pyval \<Rightarrow> pyval" where
  "chat_of message = pget (por (pget message (u ''chat'')) (PDict [])) (u ''id'')"

datatype routed = To_Callback pyval | To_Command pystr pyval | Refused_Chat pyval | Ignored

definition route_update :: "pyval \<Rightarrow> pyval \<Rightarrow> routed" where
  "route_update config body =
     (let callback = por (pget body (u ''callback_query'')) (PDict []);
          message = por (por (pget body (u ''message'')) (pget body (u ''edited_message''))) (PDict []);
          chat = chat_of message;
          t = strip (str_of_val (por (pget message (u ''text'')) (PStr [])))
      in if truthy callback then To_Callback callback
         else if \<not> truthy chat \<or> t = [] then Ignored
         else if \<not> chat_allowed config chat then Refused_Chat chat
         else To_Command t chat)"

section \<open>Commands\<close>

definition COMMAND_PREFIXES :: "pystr list" where
  "COMMAND_PREFIXES = [[0x53D6, 0x6D88, 0x8BA2, 0x9605], [0x8BA2, 0x9605, 0x7535, 0x5F71], [0x8BA2, 0x9605, 0x5267, 0x96C6], [0x78C1, 0x529B, 0x641C, 0x7D22], [0x8BA2, 0x9605], [0x641C, 0x7D22], [0x53D6, 0x6D88], [0x91CD, 0x8BD5, 0x5931, 0x8D25], [0x641C]]"

definition parse_bot_command :: "pystr \<Rightarrow> pystr \<times> pystr" where
  "parse_bot_command message =
     (let t = strip message in
      case List.find (\<lambda>p. starts_with p t) COMMAND_PREFIXES of
        Some p \<Rightarrow> (p, strip (drop (length p) t))
      | None \<Rightarrow> (takeWhile (\<lambda>c. \<not> is_space c) t, strip (dropWhile (\<lambda>c. \<not> is_space c) t)))"

datatype bot_command =
    Help | Chat_Id | Show_List | Retry_Deliveries | Ask_For_Name | Magnet_Choices pystr | Subscription_Choices pystr pystr
  | Cancel_By_Id int | Cancel_By_Title pystr | Value_Error | Unknown_Command

definition with_name :: "pystr \<Rightarrow> bot_command \<Rightarrow> bot_command" where
  "with_name args action = (if args = [] then Ask_For_Name else action)"

definition cancel_action :: "pystr \<Rightarrow> bot_command" where
  "cancel_action args =
     (let first = takeWhile (\<lambda>c. \<not> is_space c) args in
      if str_isdigit first then (case int_of_str first of None \<Rightarrow> Value_Error | Some i \<Rightarrow> Cancel_By_Id i)
      else Cancel_By_Title args)"

definition bot_action :: "pystr \<Rightarrow> bot_command" where
  "bot_action message =
     (case parse_bot_command message of
        (word, args) \<Rightarrow>
          (let command = lower (takeWhile (\<lambda>c. c \<noteq> 64) word) in
           if command \<in> set [u ''/start'', u ''/help'', u ''help'', [0x5E2E, 0x52A9]] then Help
           else if command \<in> set [u ''/id'', u ''id''] then Chat_Id
           else if command \<in> set [u ''/list'', u ''list'', [0x8BA2, 0x9605, 0x5217, 0x8868], [0x5217, 0x8868]] then Show_List
           else if command \<in> set [[0x91CD, 0x8BD5, 0x5931, 0x8D25], u ''/retry_failed'', u ''retry_failed''] then Retry_Deliveries
           else if command \<in> set [[0x641C], u ''/magnet'', u ''magnet'', [0x78C1, 0x529B, 0x641C, 0x7D22]] then with_name args (Magnet_Choices args)
           else if command = [0x8BA2, 0x9605, 0x5267, 0x96C6] then with_name args (Subscription_Choices args (u ''tv''))
           else if command \<in> set [u ''/search'', u ''/subscribe'', u ''search'', u ''subscribe'', [0x8BA2, 0x9605], [0x641C, 0x7D22]]
           then with_name args (Subscription_Choices args (u ''multi''))
           else if command \<in> set [[0x8BA2, 0x9605, 0x7535, 0x5F71], u ''/subscribe_movie'', u ''subscribe_movie'']
           then with_name args (Subscription_Choices args (u ''movie''))
           else if command \<in> set [u ''/cancel'', u ''cancel'', [0x53D6, 0x6D88, 0x8BA2, 0x9605], [0x53D6, 0x6D88]] then with_name args (cancel_action args)
           else Unknown_Command))"

definition subscription_line :: "subscription \<Rightarrow> pystr" where
  "subscription_line s =
     (let completed = sub_status s = u ''completed'';
          progress = (if tmdb_total_count s \<noteq> 0 then int_str (emby_count s) @ [47] @ int_str (tmdb_total_count s) @ [0x96C6]
                      else int_str (emby_count s) @ [0x96C6]);
          status = (if media_type s = Tv then (if completed then [0x5B8C, 0x6210, 32] @ progress else progress)
                    else if completed then [0x5B8C, 0x6210] else sub_status s);
          label = (if media_type s = Tv then [0x5267, 0x96C6] else [0x7535, 0x5F71])
      in int_str (sub_id s) @ u ''. '' @ sub_title s @ u '' ('' @ label @ [32] @ status @ u '')'')"

definition subscription_list_reply :: "subscription list \<Rightarrow> pystr" where
  "subscription_list_reply subs =
     (if subs = [] then [0x6682, 0x65E0, 0x8BA2, 0x9605, 0x3002] else join [10] ([0x8BA2, 0x9605, 0x5217, 0x8868, 0xFF1A] # map subscription_line (take 30 subs)))"

datatype bot_reply =
    Reply_Help | Reply_Chat_Id | Reply_List pystr | Reply_Retried retry_report | Reply_Ask | Reply_Later | Reply_Cancelled
  | Reply_Deleted nat | Reply_None_Deleted | Reply_Unknown | Reply_Raises

text \<open>\<open>retry\<close> is the repetition of at most twenty failed deliveries.\<close>

definition command_reply :: "time \<Rightarrow> (database \<Rightarrow> retry_report \<times> database) \<Rightarrow> pystr \<Rightarrow> crud_state \<Rightarrow> bot_reply \<times> crud_state" where
  "command_reply now retry message cs =
     (case bot_action message of
        Help \<Rightarrow> (Reply_Help, cs)
      | Chat_Id \<Rightarrow> (Reply_Chat_Id, cs)
      | Show_List \<Rightarrow> (case list_subscriptions now False cs of (subs, cs') \<Rightarrow> (Reply_List (subscription_list_reply subs), cs'))
      | Retry_Deliveries \<Rightarrow> (case retry (cr_db cs) of (report, db) \<Rightarrow> (Reply_Retried report, cs\<lparr>cr_db := db\<rparr>))
      | Ask_For_Name \<Rightarrow> (Reply_Ask, cs)
      | Magnet_Choices args \<Rightarrow> (Reply_Later, cs)
      | Subscription_Choices args kind \<Rightarrow> (Reply_Later, cs)
      | Cancel_By_Id i \<Rightarrow> (Reply_Cancelled, delete_subscription i cs)
      | Cancel_By_Title title \<Rightarrow>
          (case delete_subscription_by_title now title cs of
             (n, cs') \<Rightarrow> (if n = 0 then Reply_None_Deleted else Reply_Deleted n, cs'))
      | Value_Error \<Rightarrow> (Reply_Raises, cs)
      | Unknown_Command \<Rightarrow> (Reply_Unknown, cs))"

section \<open>Buttons\<close>

datatype callback_command =
    Unauthorized | Preview pystr int | Subscribe pystr int | Pick pystr int | Search_Magnets pystr int | Cancel_Preview
  | Unknown_Callback | Callback_Fails

text \<open>\<open>_, a, b = data.split(":", 2)\<close> and \<open>int(b)\<close>; what raises is caught and reported.\<close>

definition three_parts :: "(pystr \<Rightarrow> int \<Rightarrow> callback_command) \<Rightarrow> pystr \<Rightarrow> callback_command" where
  "three_parts action data =
     (case Option.bind (split_once 58 data) (\<lambda>(_, r). split_once 58 r) of
        None \<Rightarrow> Callback_Fails
      | Some (a, b) \<Rightarrow> (case int_of_str b of None \<Rightarrow> Callback_Fails | Some i \<Rightarrow> action a i))"

definition callback_action :: "pyval \<Rightarrow> pyval \<Rightarrow> callback_command" where
  "callback_action config callback =
     (let message = por (pget callback (u ''message'')) (PDict []);
          data = str_of_val (por (pget callback (u ''data'')) (PStr []))
      in if \<not> chat_allowed config (chat_of message) then Unauthorized
         else if starts_with (u ''preview:'') data then three_parts Preview data
         else if starts_with (u ''subscribe:'') data then three_parts Subscribe data
         else if starts_with (u ''magpick:'') data then three_parts Pick data
         else if starts_with (u ''magnet:'') data then three_parts Search_Magnets data
         else if data = u ''cancel_preview'' then Cancel_Preview
         else Unknown_Callback)"

text \<open>The newest active subscription of the film or series, and the insertion under the unique index\<close>

datatype saved_pick = Not_Followed | Clashes | Saved int

definition followed_by :: "int \<Rightarrow> media \<Rightarrow> subscription list \<Rightarrow> subscription option" where
  "followed_by tmdb media subs =
     List.find (\<lambda>s. sub_status s = u ''active'' \<and> tmdb_id s = Some tmdb \<and> media_type s = media) (rev subs)"

definition media_of_val :: "pyval \<Rightarrow> media option" where
  "media_of_val v = (if v = PStr (u ''tv'') then Some Tv else if v = PStr (u ''movie'') then Some Movie else None)"

definition save_magnet_pick_as_resource :: "pystr \<Rightarrow> pyval \<Rightarrow> pystr \<Rightarrow> database \<Rightarrow> saved_pick \<times> database" where
  "save_magnet_pick_as_resource now detail url db =
     (case (if truthy (pget detail (u ''id'')) then int_of_val (pget detail (u ''id'')) else None, media_of_val (pget detail (u ''media_type''))) of
        (Some tmdb, Some media) \<Rightarrow>
          (case followed_by tmdb media (db_subs db) of
             None \<Rightarrow> (Not_Followed, db)
           | Some s \<Rightarrow>
               (let title = str_of_val (por (por (pget detail (u ''name'')) (pget detail (u ''title''))) (PStr [84, 71, 32, 66, 111, 116, 32, 0x78C1, 0x529B, 0x8D44, 0x6E90])) in
                case insert_row now (sub_id s)
                       \<lparr>r_title = title, r_url = url, r_source = u ''tg_bot:magnet'', r_message_id = None, r_context = [], r_priority = 0\<rparr>
                       (db_store db) of
                  (None, _) \<Rightarrow> (Clashes, db)
                | (Some row, store) \<Rightarrow> (Saved (rr_id row), db\<lparr>db_store := store\<rparr>)))
      | _ \<Rightarrow> (Not_Followed, db))"

text \<open>\<open>deliver\<close> delivers a saved resource, \<open>deliver_url\<close> a link that belongs to no subscription.\<close>

definition deliver_magnet_pick ::
    "pystr \<Rightarrow> (int \<Rightarrow> database \<Rightarrow> bool \<times> database) \<Rightarrow> (pystr \<Rightarrow> bool \<times> pystr) \<Rightarrow> pyval \<Rightarrow> pystr \<Rightarrow> database
       \<Rightarrow> (bool \<times> pystr) option \<times> database" where
  "deliver_magnet_pick now deliver deliver_url detail url db =
     (case save_magnet_pick_as_resource now detail url db of
        (Clashes, db1) \<Rightarrow> (None, db1)
      | (Saved i, db1) \<Rightarrow> (case deliver i db1 of (ok, db2) \<Rightarrow> (Some (ok, if ok then [] else [0x8D44, 0x6E90, 0x6295, 0x9012, 0x5931, 0x8D25]), db2))
      | (Not_Followed, db1) \<Rightarrow> (Some (deliver_url url), db1))"

datatype pick_outcome = Pick_Delivered nat | Pick_Failed pystr | Pick_Raised

fun deliver_choices ::
    "pystr \<Rightarrow> (int \<Rightarrow> database \<Rightarrow> bool \<times> database) \<Rightarrow> (pystr \<Rightarrow> bool \<times> pystr) \<Rightarrow> pyval \<Rightarrow> (nat \<times> search_result) list \<Rightarrow> pystr \<Rightarrow> database
       \<Rightarrow> pick_outcome \<times> database" where
  "deliver_choices now deliver deliver_url detail [] last_error db = (Pick_Failed (or_str last_error [0x5168, 0x90E8, 0x5019, 0x9009, 0x6295, 0x9012, 0x5931, 0x8D25]), db)"
| "deliver_choices now deliver deliver_url detail ((i, r) # choices) last_error db =
     (case deliver_magnet_pick now deliver deliver_url detail (r_url r) db of
        (None, db1) \<Rightarrow> (Pick_Raised, db1)
      | (Some (ok, error), db1) \<Rightarrow>
          if ok then (Pick_Delivered i, db1) else deliver_choices now deliver deliver_url detail choices error db1)"

definition deliver_magnet_choices ::
    "time \<Rightarrow> pystr \<Rightarrow> (int \<Rightarrow> database \<Rightarrow> bool \<times> database) \<Rightarrow> (pystr option \<Rightarrow> pystr \<Rightarrow> bool \<times> pystr) \<Rightarrow> pystr \<Rightarrow> int
       \<Rightarrow> flow_cache \<times> database \<Rightarrow> pick_outcome \<times> flow_cache \<times> database" where
  "deliver_magnet_choices clock now deliver deliver_url token start_index = (\<lambda>(fc, db).
     (case pending_magnet_target_path clock token fc of
        (path, fc1) \<Rightarrow>
          (case pending_magnet_choices clock token start_index fc1 of
             (choices, fc2) \<Rightarrow>
               (case pending_magnet_detail clock token fc2 of
                  (detail, fc3) \<Rightarrow>
                    (case deliver_choices now deliver (deliver_url path) detail choices [] db of
                       (outcome, db') \<Rightarrow> (outcome, fc3, db'))))))"

datatype pick_reply = Pick_Expired | Pick_Done pick_outcome

definition handle_magnet_pick ::
    "time \<Rightarrow> pystr \<Rightarrow> (int \<Rightarrow> database \<Rightarrow> bool \<times> database) \<Rightarrow> (pystr option \<Rightarrow> pystr \<Rightarrow> bool \<times> pystr) \<Rightarrow> pystr \<Rightarrow> int
       \<Rightarrow> flow_cache \<times> database \<Rightarrow> pick_reply \<times> flow_cache \<times> database" where
  "handle_magnet_pick clock now deliver deliver_url token index = (\<lambda>(fc, db).
     (case pending_magnet_pick clock token index fc of
        (None, fc1) \<Rightarrow> (Pick_Expired, fc1, db)
      | (Some r, fc1) \<Rightarrow>
          (case deliver_magnet_choices clock now deliver deliver_url token index (fc1, db) of
             (outcome, behind) \<Rightarrow> (Pick_Done outcome, behind))))"

definition payload_from_detail :: "media \<Rightarrow> int \<Rightarrow> pyval \<Rightarrow> payload" where
  "payload_from_detail media tmdb detail =
     (let title = str_of_val (por (por (pget detail (u ''name'')) (pget detail (u ''title''))) (PStr [0x672A, 0x547D, 0x540D])) in
      \<lparr>pl_title = title, pl_media = media, pl_tmdb = Some tmdb,
       pl_year = (if str_isdigit (detail_year detail) then int_of_str (detail_year detail) else None),
       pl_keywords = [title], pl_rules = PDict [],
       pl_total = (case int_of_val (por (pget detail (u ''number_of_episodes'')) (PInt 0)) of None \<Rightarrow> 0 | Some n \<Rightarrow> n)\<rparr>)"

definition subscription_library_notice :: "subscription \<Rightarrow> pystr" where
  "subscription_library_notice s =
     (let count = int_str (emby_count s);
          owned = (if tmdb_total_count s \<noteq> 0 then count @ [47] @ int_str (tmdb_total_count s) else count)
      in if \<not> in_library s \<and> emby_count s = 0 then []
         else if media_type s = Movie then [0x63D0, 0x793A, 0xFF1A, 0x5A92, 0x4F53, 0x5E93, 0x4E2D, 0x5DF2, 0x5B58, 0x5728, 0x8BE5, 0x7535, 0x5F71, 0x3002] @ [10]
         else if casefold (sub_status s) = u ''completed'' then [0x63D0, 0x793A, 0xFF1A, 0x5A92, 0x4F53, 0x5E93, 0x4E2D, 0x5DF2, 0x5B58, 0x5728, 32] @ owned @ [32, 0x96C6, 0xFF0C, 0x5DF2, 0x5B8C, 0x6574, 0x5165, 0x5E93, 0x3002] @ [10]
         else [0x63D0, 0x793A, 0xFF1A, 0x5A92, 0x4F53, 0x5E93, 0x4E2D, 0x5DF2, 0x5B58, 0x5728, 32] @ owned @ [32, 0x96C6, 0xFF0C, 0x540E, 0x7EED, 0x53EA, 0x4F1A, 0x7EE7, 0x7EED, 0x8865, 0x7F3A, 0x96C6, 0x3002] @ [10])"

section \<open>Updates once and again\<close>

lemma poll_delay_bounds:
  "2 \<le> po_delay st \<Longrightarrow> po_delay st \<le> 30 \<Longrightarrow> po_delay (poll_round handle answer st) \<in> {2..30}"
  by (auto simp: poll_round_def raise_delay_def min_def split: poll_answer.splits prod.splits option.splits)

abbreviation handler :: "(bot_update \<Rightarrow> 's \<Rightarrow> 's) \<Rightarrow> (bot_update \<Rightarrow> bool) \<Rightarrow> 's \<Rightarrow> bot_update \<Rightarrow> 's \<times> bool" where
  "handler effect raises \<equiv> \<lambda>s x. (effect x s, raises x)"

lemma handle_until_raise:
  "\<forall>y \<in> set before. \<not> raises y \<Longrightarrow> raises x \<Longrightarrow>
     \<exists>saved'. handle_updates (handler effect raises) (before @ x # behind) offset saved s = (None, saved', fold effect (before @ [x]) s)
       \<and> (up_id x \<noteq> 0 \<longrightarrow> saved' = up_id x + 1)"
  by (induction before arbitrary: offset saved s) (auto simp: Let_def)

lemma handle_without_raise:
  "\<forall>x \<in> set xs. \<not> raises x \<and> up_id x \<noteq> 0 \<Longrightarrow>
     \<exists>saved'. handle_updates (handler effect raises) xs offset saved s
       = (Some (if xs = [] then offset else up_id (last xs) + 1), saved', fold effect xs s)"
  by (induction xs arbitrary: offset saved s) (auto simp: Let_def)

text \<open>As long as the answer stays the same, every poll handles the updates before the one that raises, and that one, again.\<close>

lemma batch_handled_again:
  assumes "\<forall>y \<in> set before. \<not> raises y" "raises x"
  shows "po_offset ((poll_round (handler effect raises) (Updates (before @ x # behind)) ^^ n) st) = po_offset st
    \<and> po_world ((poll_round (handler effect raises) (Updates (before @ x # behind)) ^^ n) st) = (fold effect (before @ [x]) ^^ n) (po_world st)"
proof (induction n)
  case (Suc n)
  let ?st = "(poll_round (handler effect raises) (Updates (before @ x # behind)) ^^ n) st"
  obtain saved' where h: "handle_updates (handler effect raises) (before @ x # behind) (po_offset ?st) (po_saved ?st) (po_world ?st)
      = (None, saved', fold effect (before @ [x]) (po_world ?st))"
    using handle_until_raise [OF assms, where effect = effect and offset = "po_offset ?st" and saved = "po_saved ?st" and s = "po_world ?st"] by blast
  have "poll_round (handler effect raises) (Updates (before @ x # behind)) ?st
      = ?st\<lparr>po_saved := saved', po_world := fold effect (before @ [x]) (po_world ?st), po_delay := raise_delay (po_delay ?st)\<rparr>"
    by (simp only: poll_round_def poll_answer.case h prod.case option.case)
  then show ?case using Suc by simp
qed simp

text \<open>A restart passes over it.\<close>

lemma restart_passes_over:
  assumes "\<forall>y \<in> set before. \<not> raises y" "raises x" "up_id x \<noteq> 0"
  shows "po_offset (restart_polling (poll_round (handler effect raises) (Updates (before @ x # behind)) st)) = up_id x + 1"
  using handle_until_raise [OF assms(1,2), of effect behind "po_offset st" "po_saved st" "po_world st"] assms(3)
  by (auto simp: restart_polling_def poll_round_def)

lemma last_is_largest: "sorted_wrt (<) (map up_id xs) \<Longrightarrow> x \<in> set xs \<Longrightarrow> up_id x \<le> up_id (last xs)"
  by (induction xs rule: rev_induct) (auto simp: sorted_wrt_append)

text \<open>The server answers with the updates from the offset on.  Once they were handled, nothing of them comes back.\<close>

lemma updates_handled_once:
  assumes server: "\<forall>offset. server offset = filter (\<lambda>x. offset \<le> up_id x) queue"
    and ids: "sorted_wrt (<) (map up_id queue)" "\<forall>x \<in> set queue. up_id x \<noteq> 0" "\<forall>x \<in> set queue. \<not> raises x"
  shows "po_world (((\<lambda>st. poll_round (handler effect raises) (Updates (server (po_offset st))) st) ^^ Suc n) st)
    = fold effect (server (po_offset st)) (po_world st)"
proof -
  let ?poll = "\<lambda>st. poll_round (handler effect raises) (Updates (server (po_offset st))) st"
  have once: "po_world (?poll s) = fold effect (server (po_offset s)) (po_world s) \<and> server (po_offset (?poll s)) = []" for s
  proof -
    let ?xs = "server (po_offset s)"
    have fine: "\<forall>x \<in> set ?xs. \<not> raises x \<and> up_id x \<noteq> 0" using server ids(2,3) by auto
    obtain saved' where h: "handle_updates (handler effect raises) ?xs (po_offset s) (po_saved s) (po_world s)
        = (Some (if ?xs = [] then po_offset s else up_id (last ?xs) + 1), saved', fold effect ?xs (po_world s))"
      using handle_without_raise [OF fine, where effect = effect and offset = "po_offset s" and saved = "po_saved s" and s = "po_world s"] by blast
    have p: "?poll s = s\<lparr>po_offset := (if ?xs = [] then po_offset s else up_id (last ?xs) + 1), po_saved := saved',
        po_world := fold effect ?xs (po_world s), po_delay := 2\<rparr>"
      by (simp only: poll_round_def poll_answer.case h prod.case option.case)
    have "server (po_offset (?poll s)) = []"
    proof (cases "?xs = []")
      case True
      have "po_offset (?poll s) = po_offset s" unfolding p using True by simp
      then show ?thesis using True by (simp only:)
    next
      case False
      have "sorted_wrt (<) (map up_id ?xs)" using server ids(1) by (simp add: sorted_wrt_map sorted_wrt_filter)
      then have top: "\<forall>x \<in> set ?xs. up_id x \<le> up_id (last ?xs)"
        using last_is_largest by blast
      have "\<not> up_id (last ?xs) + 1 \<le> up_id x" if "x \<in> set queue" for x
      proof (cases "po_offset s \<le> up_id x")
        case True
        then have "x \<in> set ?xs" using that server by simp
        then show ?thesis using top by force
      next
        case below: False
        have "last ?xs \<in> set ?xs" using False by simp
        then have "po_offset s \<le> up_id (last ?xs)" using server by simp
        then show ?thesis using below by simp
      qed
      then have "filter (\<lambda>x. up_id (last ?xs) + 1 \<le> up_id x) queue = []" by simp
      moreover have "po_offset (?poll s) = up_id (last ?xs) + 1" unfolding p using False by simp
      ultimately show ?thesis using server by (simp only:)
    qed
    moreover have "po_world (?poll s) = fold effect ?xs (po_world s)" unfolding p by simp
    ultimately show ?thesis by blast
  qed
  show ?thesis
  proof (induction n)
    case 0
    then show ?case using once by simp
  next
    case (Suc n)
    have "server (po_offset ((?poll ^^ Suc n) st)) = []" using once by simp
    then have "po_world ((?poll ^^ Suc (Suc n)) st) = po_world ((?poll ^^ Suc n) st)" using once [of "(?poll ^^ Suc n) st"] by simp
    then show ?case using Suc by simp
  qed
qed

section \<open>Who may speak, and what is understood\<close>

lemma command_allowed: "route_update config body = To_Command t chat \<Longrightarrow> chat_allowed config chat \<and> t \<noteq> []"
  by (auto simp: route_update_def Let_def split: if_splits)

lemma callback_allowed:
  "callback_action config callback \<noteq> Unauthorized \<Longrightarrow> chat_allowed config (chat_of (por (pget callback (u ''message'')) (PDict [])))"
  by (auto simp: callback_action_def Let_def split: if_splits)

text \<open>The help names the first as the command for the list.\<close>

lemma list_command_misread: "bot_action [0x8BA2, 0x9605, 0x5217, 0x8868] = Subscription_Choices [0x5217, 0x8868] (u ''multi'')"
  by (simp add: bot_action_def parse_bot_command_def COMMAND_PREFIXES_def with_name_def py_defs chr_eval u_def)

lemma number_taken_for_id: "bot_action ([0x53D6, 0x6D88, 0x8BA2, 0x9605] @ u '' 3 Body Problem'') = Cancel_By_Id 3"
  by (simp add: bot_action_def parse_bot_command_def COMMAND_PREFIXES_def with_name_def cancel_action_def py_defs chr_eval u_def
      int_of_str_def unsigned_int_def nat_of_digits_def)

section \<open>Picks\<close>

lemma pick_delivered_sound:
  "deliver_choices now deliver deliver_url detail choices e db = (Pick_Delivered i, db') \<Longrightarrow> i \<in> fst ` set choices"
proof (induction choices arbitrary: e db)
  case (Cons c choices)
  obtain j r where c: "c = (j, r)" by fastforce
  obtain answer db1 where pick: "deliver_magnet_pick now deliver deliver_url detail (r_url r) db = (answer, db1)" by fastforce
  show ?case
  proof (cases answer)
    case None
    then show ?thesis using Cons.prems by (simp add: c pick)
  next
    case (Some a)
    then obtain ok error where "answer = Some (ok, error)" by (metis surj_pair)
    then show ?thesis using Cons.prems Cons.IH [of error db1] by (cases ok) (simp_all add: c pick)
  qed
qed simp

text \<open>A link that the subscription already has, delivered or not, raises at once.\<close>

lemma second_pick_raises:
  assumes "truthy (pget detail (u ''id''))" "int_of_val (pget detail (u ''id'')) = Some tmdb" "media_of_val (pget detail (u ''media_type'')) = Some media"
    and "followed_by tmdb media (db_subs db) = Some s"
    and "row \<in> set (st_rows (db_store db))" "rr_subscription row = sub_id s" "rr_url row = r_url r"
  shows "deliver_choices now deliver deliver_url detail ((i, r) # choices) e db = (Pick_Raised, db)"
proof -
  have "list_ex (\<lambda>row. rr_subscription row = sub_id s \<and> rr_url row = r_url r) (st_rows (db_store db))"
    using assms(5-7) by (auto simp: list_ex_iff)
  then have "save_magnet_pick_as_resource now detail (r_url r) db = (Clashes, db)"
    using assms(1-4) by (simp add: save_magnet_pick_as_resource_def insert_row_def Let_def)
  then show ?thesis by (simp add: deliver_magnet_pick_def)
qed

lemma followed_active:
  "followed_by tmdb media subs = Some s \<Longrightarrow> s \<in> set subs \<and> sub_status s = u ''active'' \<and> tmdb_id s = Some tmdb \<and> media_type s = media"
  by (auto simp: followed_by_def find_Some_iff) (metis length_rev nth_mem set_rev)

end
