(* ===== verification/Example_Telegram.thy ===== *)
theory Example_Telegram
  imports Example_Flow Telegram_Dialogs Telegram_Session Telegram_Bot
begin

text \<open>
  Concrete inputs for the properties of the Telegram search: a channel of plain posts whose neighbours, buttons and pages bring
  nothing, and updates of the bot.
\<close>

definition channel_post :: "int \<Rightarrow> pystr \<Rightarrow> message" where
  "channel_post i t = \<lparr>tm_id = i, tm_addr = 0, tm_own = [t], tm_entity_urls = [], tm_entities = [], tm_preview = [], tm_serial = [],
     tm_dict = PNone, tm_group = [], tm_buttons = []\<rparr>"

definition quiet_world :: telegram_world where
  "quiet_world = \<lparr>tw_siblings = (\<lambda>_. []), tw_click = (\<lambda>_ _. None), tw_page = (\<lambda>_. None)\<rparr>"

definition no_caches :: link_caches where
  "no_caches = (new_ttl_cache 512 900, new_ttl_cache 256 1800)"

definition fresh_dialog :: dialog_state where
  "fresh_dialog = \<lparr>ds_seen = {}, ds_safe = {}, ds_stats = new_pipeline_stats, ds_caches = no_caches\<rparr>"

definition nothing_read :: recent_memory where
  "nothing_read = \<lparr>rm_cursors = [], rm_watermarks = [], rm_index = []\<rparr>"

text \<open>The time is used up after the newest of two posts.\<close>

abbreviation two_posts :: "message list" where
  "two_posts \<equiv> [channel_post 5 show_title, channel_post 4 show_title]"

lemma channel_post_fields [simp]: "tm_id (channel_post i t) = i" "tm_own (channel_post i t) = [t]" "tm_buttons (channel_post i t) = []"
  by (simp_all add: channel_post_def)

lemma nothing_read_fields [simp]: "rm_cursors nothing_read = []" "rm_watermarks nothing_read = []" "rm_index nothing_read = []"
  by (simp_all add: nothing_read_def)

lemma no_cursor [simp]: "telegram_cursor s [] = 0"
  by (simp add: telegram_cursor_def value_or_def)

lemma two_posts_ids: "ids_from_newest two_posts = [5, 4]"
  by (simp add: ids_from_newest_def)

lemma two_posts_read:
  "read_recent_messages now (\<lambda>_ _ rows. rows) source True (Some two_posts) nothing_read = ((two_posts, 5), nothing_read)"
  by (simp add: read_recent_messages_def unread_def max_message_id_def Let_def nothing_read_def)

lemma cut_off_extraction:
  "extract_recent_message_links unescape w now (\<lambda>i. 0 < i) True late2 source [] two_posts fresh_dialog
   = ([], fresh_dialog\<lparr>ds_safe := {5}\<rparr>)"
proof -
  have range: "[0..<length two_posts] = [0, 1]" by (simp add: upt_rec)
  show ?thesis
    unfolding extract_recent_message_links_def range
    by (simp add: extract_recent_title_window_def matched_recent_queries_in_text_def mark_recent_message_safe_def
        TELEGRAM_HISTORY_MAX_RESULTS_def fresh_dialog_def Let_def)
qed

lemma fresh_again [simp]: "fresh_dialog\<lparr>ds_safe := {}\<rparr> = fresh_dialog"
  by (simp add: fresh_dialog_def)

lemma cut_off_scan:
  "\<exists>mem2. scan_recent_messages unescape w now (\<lambda>i. 0 < i) True late2 (\<lambda>_ _ rows. rows) source [] True (Some two_posts)
       (fresh_dialog, nothing_read) = ([], fresh_dialog, mem2)"
  unfolding scan_recent_messages_def fst_conv snd_conv two_posts_read prod.case cut_off_extraction Let_def by simp

lemma nothing_cached [simp]: "fst (get_cached_message_extract now source i (fst no_caches)) = None"
  by (simp add: get_cached_message_extract_def no_caches_def new_ttl_cache_def ttl_get_def)

definition bot_message :: "int \<Rightarrow> bot_update" where
  "bot_message i = \<lparr>up_id = i, up_body = PNone\<rparr>"

definition fresh_poll :: "int list poll_state" where
  "fresh_poll = \<lparr>po_offset = 1, po_saved = 1, po_delay = 2, po_world = []\<rparr>"

lemma bot_message_id [simp]: "up_id (bot_message i) = i"
  by (simp add: bot_message_def)

end
