(* ===== verification/Spec2Isabelle.thy ===== *)
theory Spec2Isabelle
  imports Example_Runs Example_Crud Pan_Links Match_Text Library_Health Example_Sources Url_Roundtrip Example_Telegram
begin

text \<open>
  A model of togo115 (\<open>src/app\<close>), a service that follows films and series: it searches several
  sources for download links, decides which of the found resources a subscription needs, saves them,
  sends them to a cloud drive (115 shares and magnets) or a file transfer, and watches a media
  library for what is still missing.  The definitions are translated from the Python source; the
  lemmas of each theory say what its functions compute, and the properties C1, C2, ... of the
  program are stated here.

  \<^bold>\<open>Python underneath.\<close>
  A \<open>str\<close> is the list of its code points.  \<open>Py_Unicode\<close> has the character data (\<open>isalnum\<close>,
  \<open>casefold\<close>, \<open>isspace\<close>, digits) for the ranges the program can meet; \<open>Py_Prelude\<close> has the string
  methods, the untyped values of decoded JSON (\<open>pyval\<close>) with truth and \<open>get\<close>, and the collections
  of simplification rules; \<open>Py_Regex\<close> is a backtracking matcher for the patterns the program
  compiles, with the leftmost search of \<open>re.search\<close> and \<open>re.finditer\<close>; \<open>Py_Json\<close> is \<open>json.loads\<close>;
  \<open>Py_Url\<close> is the part of \<open>urllib.parse\<close> the program calls.  Strings that are not ASCII are written
  as lists of numbers, ASCII ones as \<open>u ''...''\<close>.

  \<^bold>\<open>Texts.\<close>
  \<open>Text_Cjk\<close>: \<open>services/text_cjk\<close> (tables and operations) and \<open>services/match_text.py\<close>; the locale
  \<open>text_key\<close> states what the normal forms share.  \<open>Match_Text\<close>: the helpers of \<open>match/text_utils.py\<close> and
  \<open>link/search_utils.py\<close>, titles with their boundaries and the expansion of queries.

  \<^bold>\<open>Episodes.\<close>
  \<open>Episode_Patterns\<close> (numerals and patterns), \<open>Episode_Keys\<close> (keys, ranges, JSON), \<open>Episode_Explicit\<close>
  (the readers in their order), \<open>Episode_Packs\<close> (season packs against the expected episodes),
  \<open>Episode_Summary\<close> (labels) and \<open>Episode_Roundtrip\<close> (labels read back): \<open>subscription/episode/\<close>.

  \<^bold>\<open>Rows.\<close>
  \<open>Rows\<close> has the records of a search result, a subscription and a saved resource
  (\<open>services/types.py\<close>, \<open>crud/rows.py\<close>), shared by all later theories.

  \<^bold>\<open>Links and shares.\<close>
  \<open>Link_Downloads\<close>: extraction, validity and keys of links (\<open>link/downloads.py\<close>).  \<open>Pan_Links\<close>: links of the
  115 drive and the folder cache (\<open>adapters/pan115.py\<close>).  \<open>Share_Status\<close>: the verdict on a share and
  its cache (\<open>adapters/pan115_share*.py\<close>).  Both caches interpret the locale \<open>expiring_cache\<close> of
  \<open>Expiring_Cache\<close>, whose laws give that an entry is served until it expires.

  \<^bold>\<open>Deciding.\<close>
  \<open>Match_Rules\<close>: does a result belong to a subscription (\<open>subscription/match/\<close>).  \<open>Library_State\<close>:
  which episodes are owned and when a subscription is complete (\<open>subscription/library/\<close>).
  \<open>Candidate_Decision\<close>: the decision with its score and reasons.  \<open>Resource_Store\<close>: duplicates,
  ranking and insertion into the table of resources (\<open>subscription/resource/\<close>).

  \<^bold>\<open>Delivering.\<close>
  \<open>Delivery_State\<close>: classes of failures, updates of a row, backoff and the choice of retries
  (\<open>delivery/state.py\<close>, \<open>retry.py\<close>).  \<open>Delivery_Service\<close>: one delivery as a function and several of
  them as a step relation, one step per stretch between two \<open>await\<close>s, with the lock per link
  (\<open>delivery/service.py\<close>, \<open>executor.py\<close>); its invariant gives C1, and the function is
  shown to be a run of the steps (C3).

  \<^bold>\<open>Tables and texts in columns.\<close>
  \<open>Tables\<close> has the updates and listings the SQL statements stand for; \<open>Json_Text\<close> is \<open>json_dumps\<close> with the
  round trip through \<open>Py_Json\<close> (\<open>db_core.py\<close>).  \<open>Log_Buffer\<close>: the table of logs with its buffer, throttle and
  pruning (\<open>db_logs.py\<close>).

  \<^bold>\<open>Work in the background.\<close>
  \<open>Jobs\<close>: the table of jobs with everything that is done to it (\<open>services/jobs.py\<close>, \<open>search/tasks.py\<close>).
  \<open>Job_Worker\<close>: the worker, which sees the table through the locale \<open>job_source\<close>, a queue served in
  order, interpreted on \<open>Jobs\<close> (\<open>job_worker.py\<close>).  \<open>Monitor\<close>: the rounds that schedule the periodic work
  (\<open>services/monitor.py\<close>).  \<open>Rate_Gate\<close>: the spacing of the requests to Telegram (\<open>rate_limit.py\<close>).
  \<open>Concurrency\<close>: semaphores and locks as step relations, with reachable states and invariants
  (\<open>services/concurrency.py\<close>).

  \<^bold>\<open>The search of one subscription.\<close>
  \<open>Telegram_State\<close>: the time budget and what the stages share (\<open>telegram/models.py\<close>).  \<open>Search_Selection\<close> and
  \<open>Ed2k_Search\<close>: what is saved of the results, and the second choices (\<open>search/selection*.py\<close>, \<open>search/ed2k.py\<close>); the
  delivery enters as the locale \<open>delivery_port\<close>, which \<open>Search_Flow\<close> extends to \<open>careful_delivery\<close>; both are
  interpreted on \<open>Delivery_Service\<close>.  \<open>Search_Flow\<close> composes the stages (\<open>search/flow.py\<close>, \<open>discovery.py\<close>,
  \<open>service.py\<close>), with \<open>Library_Service\<close> for the snapshot of the media library and its synchronisation
  (\<open>library/snapshot.py\<close>, \<open>service.py\<close>, \<open>sync.py\<close>).  \<open>Attach\<close>: links that arrive on their own
  (\<open>subscription/attach/\<close>).

  \<^bold>\<open>The list of subscriptions.\<close>
  \<open>Subscription_Crud\<close>: creating, changing, deleting, duplicates, the cached list (\<open>subscription/crud/\<close>).
  \<open>Search_Schedule\<close>: which subscriptions a search of all takes up, in waves (\<open>search/schedule.py\<close>, \<open>all.py\<close>).
  \<open>Library_Health\<close>: the health shown beside each (\<open>library/health.py\<close>).

  \<^bold>\<open>The other sources.\<close>
  \<open>Source_Health\<close> and \<open>Source_Stats\<close>: cooldowns and counts (\<open>source_health.py\<close>, \<open>source_stats.py\<close>).
  \<open>Py_Utf8\<close> and \<open>Url_Roundtrip\<close>: percent encoding and addresses read back.  \<open>Rss_Sources\<close>, \<open>Rss_Fetch\<close> and
  \<open>Priority_Search\<close>: configuration and addresses, one request with its cache and counts, and the search
  in waves of the same priority (\<open>sources/rss/\<close>).  \<open>Haisou_Budget\<close>, \<open>Haisou_Items\<close>, \<open>Haisou_Search\<close>: the paid
  service with its allowance (\<open>sources/haisou/\<close>, \<open>pan115_share_haisou.py\<close>).  \<open>Magnet_Ranking\<close> and
  \<open>Magnet_Search\<close>: the magnet links the bot offers (\<open>services/magnet/\<close>).

  \<^bold>\<open>Telegram messages.\<close>
  \<open>Telegram_Titles\<close>: the part of a message that belongs to a share and the title in it (\<open>link/telegram_context*.py\<close>,
  \<open>scan/message_titles.py\<close>).  \<open>Telegram_Message\<close>: the text of a message, its neighbours and candidates
  (\<open>link/telegram_message.py\<close>, \<open>telegram_hints.py\<close>, \<open>scan/message_context.py\<close>, \<open>message_candidates.py\<close>).
  \<open>Telegram_Caches\<close>: the caches of extracts and pages, least recently used first out, an interpretation of
  \<open>expiring_cache\<close> (\<open>scan/extract_cache.py\<close>).  \<open>Telegram_Links\<close>: from a message to results over pages and buttons
  (\<open>scan/button_links.py\<close>, \<open>message_links*.py\<close>, \<open>history/fast_message.py\<close>).  \<open>Telegram_Memory\<close>: results of queries,
  searches without result, the ranking of the dialogs, watermarks and cursors.  \<open>Telegram_Index\<close>: the table of
  messages and its search (\<open>scan/message_index*.py\<close>).  \<open>Telegram_Recent\<close>: the scan of the recent messages
  (\<open>history/recent*.py\<close>, \<open>config.py\<close>, \<open>pipeline.py\<close>).  \<open>Telegram_Dialogs\<close>: a query in a dialog, a dialog, all of
  them, the whole and the quick search (\<open>history/dialog_search*.py\<close>, \<open>search.py\<close>, \<open>fast.py\<close>).
  \<open>Telegram_Session\<close>: connecting, the sources and their dialogs, filling the index, the listener
  (\<open>telegram/session/\<close>, \<open>history/prewarm.py\<close>, \<open>monitor.py\<close>).  \<open>Telegram_Bot\<close>: polling, commands, buttons
  (\<open>telegram/bot/\<close>).

  \<^bold>\<open>Inputs.\<close>
  \<open>Example_Data\<close>, \<open>Example_Runs\<close>, \<open>Example_Flow\<close>, \<open>Example_Crud\<close>, \<open>Example_Sources\<close> and \<open>Example_Telegram\<close> hold concrete
  rows, runs and the values of the text functions on them, at which the properties with hypotheses are applied.

  \<^bold>\<open>Conventions.\<close>
  Tables are lists of records in the order of their ids.  Times are the texts the program stores, and
  their parser is a parameter; clocks of the caches are rational numbers.  The HTTP clients, the cloud
  drive, Emby, TMDB and the clock are arguments of the definitions that use them.  An exception that
  the code catches is a branch of a sum or an option.  The matcher carries no fuel: a repetition goes on only
  when it has consumed text, so it terminates on every text.

  \<^bold>\<open>Not modelled.\<close>
  Network code and what only surrounds it: the login to Telegram and the files of its session, the messages the bot
  sends, HTTP, the parsing of feeds and pages (\<open>rss/feed.py\<close> and the
  site plugins), \<open>html.unescape\<close>; the full text search of SQLite, connections, SQL text and migrations, a failing
  database; the routers, the pages, settings, backup and metrics; logging and measured times; the columns
  \<open>updated_at\<close>; memos of pure functions (the row index of \<open>resources.py\<close>, the caches of \<open>functools\<close>); floats other than
  clocks, latencies and intervals, which are rational numbers, and the decimal numbers of JSON.
\<close>

section \<open>Deliveries\<close>



text \<open>C2: Without that proviso the same resource can be sent twice: both tasks load the row while it is pending, and
  the second checks its old row when it gets the lock.\<close>
theorem same_resource_sent_twice:
  "\<exists>s. run False (initial [saved_row]) s \<and> sent s = [saved_row, saved_row]"
  by (rule saved_row_sent_twice)

text \<open>Two tasks never hold the lock of the same link.\<close>
lemma lock_exclusive:
  assumes "run single (initial rs) s" "tasks s t = Some p" "tasks s t' = Some p'"
    "locked_key p = Some k" "locked_key p' = Some k"
  shows "t = t'"
  using exclusive_run [OF assms(1) exclusive_initial] assms(2-5) unfolding exclusive_def by blast



section \<open>Deciding on a found resource\<close>

text \<open>C4: A found resource is accepted for a subscription exactly when its link is a download link, it
  matches the subscription and it brings something that is missing; an accepted resource has a score
  between 25 and 1210 and the reason "matched", a rejected one scores 0; the coverage is the part of
  its episodes that is missing.\<close>
theorem decision_sound:
  "let d = decide_resource_candidate sub r extras in
     (d_accepted d = (is_valid_download_link (r_url r) \<and> result_matches_subscription sub r extras
                      \<and> result_matches_missing_episodes sub r extras))
     \<and> (if d_accepted d then 25 \<le> d_score d \<and> d_score d \<le> 1210 \<and> d_reason d = u ''matched'' else d_score d = 0)
     \<and> d_coverage d = d_episodes d \<inter> d_missing d"
  unfolding Let_def
proof (intro conjI)
  let ?d = "decide_resource_candidate sub r extras"
  show "d_accepted ?d = (is_valid_download_link (r_url r) \<and> result_matches_subscription sub r extras
                      \<and> result_matches_missing_episodes sub r extras)"
    by (rule accepted_iff)
  show "if d_accepted ?d then 25 \<le> d_score ?d \<and> d_score ?d \<le> 1210 \<and> d_reason ?d = u ''matched'' else d_score ?d = 0"
    using score_accepted [of sub r extras] score_rejected [of sub r extras] accepted_reason [of sub r extras] by simp
  show "d_coverage ?d = d_episodes ?d \<inter> d_missing ?d"
    by (rule coverage_eq)
qed

text \<open>C5: A subscribed series whose episodes are known is complete exactly when no episode is missing.\<close>
theorem series_complete_iff:
  assumes "media_type sub = Tv" "all_tmdb_episode_keys sub \<noteq> {}"
  shows "subscription_is_complete sub None None \<longleftrightarrow> missing_episode_keys sub = {}"
  using assms by (rule complete_iff_none_missing)

theorem series_complete_iff_witness: "\<not> subscription_is_complete two_episodes None None"
  using series_complete_iff [of two_episodes] by (simp add: two_episodes_keys two_episodes_missing)



text \<open>A resource that was saved for a subscription is refused when it is found again.\<close>
lemma resource_saved_once:
  assumes "insert_resource now sid sub r st = (Some row, st')"
  shows "fst (insert_resource now' sid sub r st') = None"
  using assms by (rule insert_twice_refused)

text \<open>C7: Saving keeps the table well formed (ids and links of a subscription are distinct, the next id is
  fresh); a saved row is pending, has a fresh id and a link that can be downloaded, and is added at the end.\<close>
theorem save_keeps_table:
  assumes "store_ok st"
  shows "store_ok (snd (insert_resource now sid sub r st)) \<and>
    (case fst (insert_resource now sid sub r st) of
       None \<Rightarrow> True
     | Some row \<Rightarrow> rr_id row = st_next_id st \<and> rr_status row = u ''pending'' \<and> rr_subscription row = sid
         \<and> is_valid_download_link (rr_url row) \<and> st_rows (snd (insert_resource now sid sub r st)) = st_rows st @ [row])"
proof (cases "insert_resource now sid sub r st")
  case (Pair row_opt st')
  then show ?thesis
    using insert_resource_ok [OF assms, of now sid sub r] insert_resource_Some [of now sid sub r st]
    by (cases row_opt) simp_all
qed

theorem save_keeps_table_witness: "store_ok (snd (insert_resource (u ''t1'') 1 None found_file empty_store))"
  using save_keeps_table [OF empty_store_ok] by blast


text \<open>The fallback candidate that is chosen is one of the candidates and none ranks before it.\<close>
lemma best_candidate_least:
  assumes "best_fallback_result results sub = Some r"
  shows "r \<in> set results \<and> (\<forall>x \<in> set results. fallback_candidate_sort_key sub r \<le> fallback_candidate_sort_key sub x)"
  using best_is_least [OF assms] by simp

section \<open>Background jobs\<close>

text \<open>C9: In every table of jobs that the program can reach the columns of a job fit its status, ids are distinct and
  below the next id, and a kind and target have at most one job that is queued or running, except for the
  forced search of all subscriptions.\<close>
theorem job_life_cycle:
  assumes "jobs_reachable stamp tbl"
  shows "jobs_ok tbl \<and> (\<forall>a \<in> set (jt_jobs tbl). \<forall>b \<in> set (jt_jobs tbl).
    is_active a \<and> is_active b \<and> j_kind a = j_kind b \<and> j_target a = j_target b \<and> j_kind a \<noteq> SEARCH_ALL \<longrightarrow> a = b)"
  using jobs_reachable_inv [OF assms] one_active unfolding jobs_inv_def by blast

theorem job_life_cycle_witness: "jobs_ok one_search \<and> map j_status (jt_jobs one_search) = [Queued]"
  using job_life_cycle [OF one_search_reachable] one_search_queue by blast

text \<open>C10: A job that is done or failed stays so: whatever is scheduled, claimed, finished or requeued later, it is
  never queued or running again.\<close>
theorem finished_job_final:
  assumes "(job_step stamp)\<^sup>*\<^sup>* tbl tbl'" "finished_in jid tbl" "j \<in> set (jt_jobs tbl')" "j_id j = jid"
  shows "j_status j \<in> {Done, Failed}"
  using steps_finished [OF assms(1,2)] assms(3,4) by (cases "j_status j") (auto simp: finished_in_def is_active_def)

theorem finished_job_final_witness: "map j_status (jt_jobs failed_search) = [Failed]"
proof -
  note one = failed_search_jobs
  obtain j where j: "jt_jobs failed_search = [j]" using one(1) by (auto simp: length_Suc_conv)
  show ?thesis
    using finished_job_final [OF rtranclp.rtrancl_refl failed_search_finished, of j] one j by auto
qed





text \<open>C13: A value without fractions written to a JSON column is read back as it was.\<close>
theorem stored_columns_read_back:
  assumes "storable v"
  shows "json_loads (json_dumps v) dflt = v"
  using assms by (rule stored_value_read)

theorem stored_columns_read_back_witness:
  "json_loads (json_dumps (PDict [(u ''force'', PBool True), (u ''ids'', PList [PInt 4, PInt (- 7), PStr (u ''a'')])])) PNone
     = PDict [(u ''force'', PBool True), (u ''ids'', PList [PInt 4, PInt (- 7), PStr (u ''a'')])]"
  by (rule stored_columns_read_back) (simp add: plain_text_def u_def)

section \<open>Search\<close>

text \<open>C14: The candidates of the second choice are tried one after the other; the loop ends after at most as many
  attempts as there are candidates, tries no url twice, adds one row for each attempt, and stops at
  the first delivery: all earlier attempts failed, and if nothing was delivered all failed.\<close>
theorem second_choices_end:
  "case attach_fallback_results_until_delivered now sub groups (deliver_via w now) db of
     (created, db') \<Rightarrow> attempts_ok sub (links db) created db' \<and> (delivered_last created \<or> all_failed created)
       \<and> length created \<le> sum_list (map length groups)"
  using service.until_delivered [where now = now and w = w and sub = sub and groups = groups and db = db]
  by (simp split: prod.split)


text \<open>The ed2k files saved of a Telegram search are accepted by the decision and name an episode that is missing and
  not covered by a saved resource (or no episode at all); one pending row is added for each.\<close>
lemma ed2k_saves_wanted:
  "case search_and_attach_ed2k now sub results db of
     (p, db') \<Rightarrow>
       list_all (\<lambda>(r, row). \<not> not_needed sub (needed_episodes sub (saved_rows sub db)) r
         \<and> d_accepted (decide_resource_candidate sub r []) \<and> rr_url row = r_url r \<and> rr_status row = u ''pending'') (ed_created p)
       \<and> links db' = links db @ map (row_link \<circ> snd) (ed_created p)"
  using ed2k_saves_needed [of now sub results db] by (cases "search_and_attach_ed2k now sub results db") (simp add: list_all_iff)

section \<open>Limits\<close>

text \<open>Whatever floods, errors, successes and waits the gate of Telegram requests has seen, its interval is between
  a twentieth of a second and two seconds, and five floods in a row bring it to two seconds.\<close>
lemma gate_interval:
  assumes "gate_step\<^sup>*\<^sup>* telegram_request_gate g"
  shows "1 / 20 \<le> g_current g \<and> g_current g \<le> 2 \<and> g_current (flood_all [f1, f2, f3, f4, f5] g) = 2"
proof -
  have g: "gate_ok g" "g_default g = 1 / 20" "g_max g = 2"
    using gate_run_ok [OF assms telegram_gate_ok] by (simp_all add: telegram_request_gate_def make_gate_def Let_def)
  then show ?thesis
    using floods_saturate [OF g(1), of "[f1, f2, f3, f4, f5]"] by (simp add: gate_ok_def)
qed

text \<open>While the interval of the gate does not change, one event loop never runs more searches at once than
  the limit derived from it.\<close>
lemma searches_bounded:
  assumes "(search_step {loop} {interval})\<^sup>*\<^sup>* no_semaphores ss"
  shows "int (running_searches ss) \<le> desired_search_concurrency interval \<and> running_searches ss \<le> 4"
  using constant_pressure_bound [OF assms, of "desired_search_concurrency interval"] concurrency_bounds(1) [of interval] by simp

text \<open>The lock of a subscription that is held stays the one handed out for it, whatever else the same event loop
  asks for and however many locks are evicted.\<close>
lemma held_lock_kept:
  assumes "(others_step loop l)\<^sup>*\<^sup>* ls ls'" "holds_key loop key l ls"
  shows "fst (get_lock loop key ls') = l"
  using assms by (rule held_lock_stable)

text \<open>C16: Any hour grants at most 80 searches and 120 validations of the paid service, twice the allowance of a window.\<close>
theorem paid_calls_bounded:
  assumes "0 < a" "\<forall>(c, now) \<in> set calls. a \<le> now \<and> now < a + WINDOW_SECONDS" "budget_ok b"
  shows "granted Search calls b \<le> 80 \<and> granted Validate calls b \<le> 120"
  using granted_in_stretch [OF assms(1,2), of Search b] granted_in_stretch [OF assms(1,2), of Validate b] assms(3)
  by (auto simp: budget_ok_def used_def allowance_def MAX_SEARCH_PER_WINDOW_def MAX_VALIDATE_PER_WINDOW_def)

theorem paid_calls_bounded_witness: "granted Search seam_calls reset_budget \<le> 80"
  using paid_calls_bounded [of 3600 seam_calls reset_budget]
  by (simp add: seam_calls_def budget_ok_def reset_budget_def WINDOW_SECONDS_def)



section \<open>The search of a subscription and the library\<close>

text \<open>C18: A search of one subscription, whatever Telegram, the other sources and the media server answer, keeps the
  table of resources well formed, leaves the resources and the rows of all other subscriptions as they
  were, and only adds resources of its own.\<close>
theorem search_touches_own_rows:
  assumes "store_ok (db_store db)" "sid \<noteq> 0" "o_deliver w = deliver_via dw now"
  shows "case search_and_attach_resources w t sid inc checked (db, memo) of
     (created, db', memo') \<Rightarrow>
       store_ok (db_store db') \<and> others sid db' = others sid db
       \<and> filter (\<lambda>s. sub_id s \<noteq> sid) (db_subs db') = filter (\<lambda>s. sub_id s \<noteq> sid) (db_subs db)
       \<and> (\<exists>added. links db' = links db @ added \<and> list_all (own_link sid) added)"
proof -
  obtain created db' memo' where r: "search_and_attach_resources w t sid inc checked (db, memo) = (created, db', memo')"
    by (metis prod_cases3)
  from service.search_own_rows [OF r assms(3,2,1)] show ?thesis
    using assms(1) r by (simp add: own_changes_def list_all_iff)
qed

theorem search_touches_own_rows_witness:
  "store_ok (db_store (fst (snd (search_and_attach_resources quiet_outside some_times 1 False True (empty_db, [])))))"
  using search_touches_own_rows [OF empty_db_ok, of 1 quiet_outside open_world "u ''t1''" some_times False True "[]"]
  by (simp add: quiet_outside_def split: prod.splits)

text \<open>Where episodes are still missing after a fast stage that saved resources, the search goes on and
  returns only the resources of the full search: those of the fast stage are in the table, but not among
  the returned ones, which are the ones that are delivered.\<close>
lemma fast_stage_not_delivered:
  assumes "run_telegram_search_stage now telegram sub Fast fresh_state db = ((fast, matches, summary), sh, db1)"
    "fast \<noteq> []" "missing_episode_keys sub \<noteq> {}" "store_ok (db_store db)"
  shows "case search_telegram_first now telegram False sub db of
     ((created, _, _), db') \<Rightarrow>
       set (map rr_id fast) \<inter> set (map rr_id created) = {} \<and> set (map row_link fast) \<subseteq> set (links db')"
proof -
  obtain created m s db' where r: "search_telegram_first now telegram False sub db = ((created, m, s), db')"
    by (metis prod.exhaust)
  show ?thesis using fast_rows_not_returned [OF assms(1-3) r assms(4)] r by simp
qed

text \<open>When a search of Telegram returns no new resource, the other sources are left out only if all its
  available results were known, none failed to be saved, and no episode is known to be missing.\<close>
lemma other_sources_left_out:
  "case search_telegram_first now telegram inc sub db of
     ((created, matches, summary), db') \<Rightarrow>
       created \<noteq> [] \<or> \<not> telegram_should_skip_fallback summary sub
       \<or> as_save_failed summary = 0 \<and> as_duplicates summary = as_available summary \<and> 0 < as_available summary
         \<and> missing_episode_keys sub = {}"
proof -
  obtain created m s db' where r: "search_telegram_first now telegram inc sub db = ((created, m, s), db')"
    by (metis prod.exhaust)
  show ?thesis
  proof (cases "created = []")
    case True
    then show ?thesis using fallback_left_out [of now telegram inc sub db m s db'] r by auto
  qed (simp add: r)
qed

text \<open>C19: Synchronising subscriptions with the library keeps the ids, changes only the rows of the given
  subscriptions, and takes no completed row back as long as the given copies know of the completion.\<close>
theorem sync_keeps_completed:
  assumes "knows_completed given subs" "distinct (map sub_id given)"
  shows "list_all2 (\<lambda>row row'. sub_id row' = sub_id row \<and> (sub_id row \<notin> sub_id ` set given \<longrightarrow> row' = row)
       \<and> (sub_status row = COMPLETED \<longrightarrow> sub_status row' = COMPLETED))
     subs (snd (sync_subscriptions_with_emby_snapshot now snap tmdb given subs))"
proof -
  have "list_all2 (row_kept given) subs (snd (sync_subscriptions_with_emby_snapshot now snap tmdb given subs))"
    "list_all2 stays_completed subs (snd (sync_subscriptions_with_emby_snapshot now snap tmdb given subs))"
    unfolding sync_subscriptions_with_emby_snapshot_def by (rule sync_kept, rule sync_sticky [OF assms])
  then show ?thesis
    by (auto simp: list_all2_conv_all_nth row_kept_def stays_completed_def same_work_def)
qed

theorem sync_keeps_completed_witness:
  "list_all (\<lambda>row. sub_status row = COMPLETED)
     (snd (sync_subscriptions_with_emby_snapshot (u ''t1'') \<lparr>snap_movies = [], snap_series = [], snap_episodes = []\<rparr> (\<lambda>_. PNone)
        [two_episodes\<lparr>sub_status := COMPLETED\<rparr>] [two_episodes\<lparr>sub_status := COMPLETED\<rparr>]))"
  using sync_keeps_completed [of "[two_episodes\<lparr>sub_status := COMPLETED\<rparr>]" "[two_episodes\<lparr>sub_status := COMPLETED\<rparr>]" "u ''t1''"
      "\<lparr>snap_movies = [], snap_series = [], snap_episodes = []\<rparr>" "\<lambda>_. PNone"]
  by (auto simp: knows_completed_def list_all2_Cons1)

text \<open>Synchronising again changes nothing: from a row that was written, the same state is computed, whatever time
  it is and whether or not TMDB is asked again, as long as it gives the same detail.\<close>
lemma sync_twice:
  assumes "now \<noteq> []" "detail_for tmdb (write_state (library_state now sub snap cs detail) sub) \<in> {detail, PNone}"
  shows "snd (sync_one now' snap cs tmdb (write_state (library_state now sub snap cs detail) sub) (rep, subs)) = subs"
  using assms(1) refl assms(2) by (rule sync_idempotent)

text \<open>A snapshot of the library that is served is fresh from the server, or stored at most ten minutes ago, or, when
  the refresh failed, at most six hours ago, and a failed refresh leaves the stored one as it was.\<close>
lemma library_snapshot_age:
  assumes "library_snapshot_or_none configured force now locked later answer cache cache' = (Library lib, cache'')"
  shows "snapshot_served now cache 600 lib \<or> snapshot_served locked cache' 600 lib
    \<or> (\<exists>snap. answer = Snapshot snap \<and> lib = index_snapshot_episodes snap \<and> cache'' = Some (later, lib))
    \<or> snapshot_served later cache' 21600 lib \<and> cache'' = cache'"
  using snapshot_age [OF assms] by (simp add: EMBY_SNAPSHOT_CACHE_TTL_SECONDS_def EMBY_SNAPSHOT_STALE_TTL_SECONDS_def)

section \<open>Links, texts and episodes\<close>

text \<open>A share is found available exactly when the reply is a dictionary that says success.\<close>
lemma share_available_iff:
  "share_available_payload p \<longleftrightarrow> is_pdict p \<and> payload_ok p"
  by (simp add: share_available_payload_def classify_available_iff)



text \<open>C21: However the table of subscriptions is changed - by creating, changing, deleting by id or deleting by title - ids and the entries of
  the unique index stay unique, no resource is left without its subscription, and the table of resources stays well formed.\<close>
theorem subscriptions_stay_unique:
  assumes "crud_ok cs"
  shows "crud_ok (fst (snd (create_subscription stamp now clock configured answer tmdb p (cs, jobs))))
    \<and> crud_ok (snd (update_subscription sid c cs)) \<and> crud_ok (snd (delete_subscriptions ids cs))
    \<and> crud_ok (snd (delete_subscription_by_title clock title cs))"
proof -
  obtain out cs' jobs' where c: "create_subscription stamp now clock configured answer tmdb p (cs, jobs) = (out, cs', jobs')" by (rule prod_cases3)
  obtain out2 cs2 where u: "update_subscription sid c cs = (out2, cs2)" by (rule prod.exhaust)
  show ?thesis
    using create_ok [OF c assms] update_ok [OF u assms] delete_subscriptions_ok [OF assms] delete_by_title_ok [OF assms] by (simp add: c u)
qed

theorem subscriptions_stay_unique_witness: "crud_ok (snd (delete_subscriptions [1] two_rows))"
  using subscriptions_stay_unique [OF two_rows_ok] by blast

text \<open>Deleting subscriptions removes exactly the given ones and exactly their resources, and returns how many were removed.\<close>
lemma deletion_exact:
  assumes "delete_subscriptions ids cs = (n, cs')" "crud_ok cs" "0 \<notin> sub_id ` set (cr_subs cs)"
  shows "cr_subs cs' = filter (\<lambda>s. sub_id s \<notin> set ids) (cr_subs cs)
    \<and> st_rows (db_store (cr_db cs')) = filter (\<lambda>row. rr_subscription row \<notin> set ids) (st_rows (db_store (cr_db cs)))
    \<and> n + length (cr_subs cs') = length (cr_subs cs)"
  using delete_subscriptions_left [OF assms] by blast

text \<open>C22: Where a completed copy with the same TMDB id stands before the row that is followed, creating the subscription again ends
  in the error of the unique index instead of returning the row that is followed.\<close>
theorem create_meets_index:
  assumes "pl_tmdb p = Some t" "List.find (same_tmdb (pl_media p) t) (cr_subs cs) = Some item" "subscription_should_hide item"
    "row \<in> set (cr_subs cs)" "index_entry row = Some (pl_media p, t)" "sub_id row \<noteq> sub_id item"
  shows "fst (create_subscription stamp now clock configured answer tmdb p (cs, jobs)) = Integrity_Error"
  using assms by (rule create_refused)

theorem create_meets_index_witness:
  "fst (create_subscription (\<lambda>_. None) (u ''t1'') 0 False No_Library (\<lambda>_. PNone) same_again (two_rows, empty_jobs)) = Integrity_Error"
  by (rule create_meets_index [of _ 42 _ old_copy followed]) (simp_all add: same_again_def old_copy_hidden same_tmdb_def)



text \<open>C24: A search of all that is not forced skips no subscription that misses an episode and was not checked for two minutes, nor any
  that was not checked for ten; it takes up each of the others once or not at all, those that miss most first.\<close>
theorem missing_taken_up:
  assumes "s \<in> set subs" "seconds_since_last_checked stamp now (last_checked_at s) = Some age"
    "missing_episode_keys s \<noteq> {} \<and> 120 \<le> age \<or> 600 \<le> age"
  shows "s \<in> set (taken_up stamp now False subs) \<and> mset (taken_up stamp now False subs) \<subseteq># mset subs
    \<and> sorted (map (\<lambda>x. - urgency x) (taken_up stamp now False subs))"
proof -
  obtain kept skipped where f: "filter_subscriptions_for_search_all stamp now subs = (kept, skipped)" by fastforce
  note facts = filter_for_search_all [OF f]
  have "\<not> should_skip_recent_search_all stamp now s"
    using assms(2,3) missing_not_skipped old_not_skipped by blast
  then have "s \<in> set kept" using assms(1) mset_eq_setD [OF facts(1)] by simp
  moreover have "mset kept \<subseteq># mset subs" unfolding facts(1) by (simp add: multiset_filter_subset)
  ultimately show ?thesis using most_urgent_first [OF facts(3)] f by (simp add: taken_up_def)
qed

theorem missing_taken_up_witness:
  "blind\<lparr>last_checked_at := Some (u ''t'')\<rparr> \<in> set (taken_up (\<lambda>_. Some 0) 200 False [blind\<lparr>last_checked_at := Some (u ''t'')\<rparr>])"
proof -
  have "seconds_since_last_checked (\<lambda>_. Some 0) 200 (last_checked_at (blind\<lparr>last_checked_at := Some (u ''t'')\<rparr>)) = Some 200"
    by (simp add: seconds_since_last_checked_def py_defs chr_eval Let_def)
  moreover have "missing_episode_keys (blind\<lparr>last_checked_at := Some (u ''t'')\<rparr>) = {(1, 2)}"
    by (simp add: blind_missing)
  ultimately show ?thesis using missing_taken_up [of _ "[_]" "\<lambda>_. Some 0" 200 200] by simp
qed

text \<open>A verdict is served from the cache until it expires, whatever other keys are stored meanwhile.\<close>
lemma share_cache_serves:
  assumes "cache_room (Suc (length ws)) c" "\<forall>(s, k', w) \<in> set ws. k' \<noteq> k" "t < now + CACHE_TTL (share_status v)"
  shows "cache_lookup t k (fold (\<lambda>(s, k', w). cache_store s k' w) ws (cache_store now k v c)) =
    Some (v\<lparr>share_cached := True\<rparr>)"
  using shares.hit_after_others [of ws c k t now v] assms by simp

text \<open>Probing keeps the cache of verdicts a map of at most 2048 entries.\<close>
lemma share_cache_bounded:
  assumes "cache_ok c"
  shows "cache_ok (snd (probe_share_availability now link code rc ck r haisou c))"
  using assms by (rule probe_cache_ok)

section \<open>Sources in the order of their priority\<close>



section \<open>Links from Telegram messages\<close>



text \<open>C27: Indexing the messages of a source keeps one row for a message and at most 2500 rows for the source, and leaves the
  rows of the other sources as they are.\<close>
theorem index_kept:
  fixes unescape :: "pystr \<Rightarrow> pystr"
  assumes "distinct (map index_row_key table)"
    "length (filter (\<lambda>r. ix_source r = source) table) \<le> TELEGRAM_INDEX_MAX_PER_SOURCE"
  shows "let table' = snd (index_telegram_messages unescape date now cutoff source messages table) in
    distinct (map index_row_key table')
    \<and> length (filter (\<lambda>r. ix_source r = source) table') \<le> TELEGRAM_INDEX_MAX_PER_SOURCE
    \<and> (s \<noteq> source \<longrightarrow> filter (\<lambda>r. ix_source r = s) table' = filter (\<lambda>r. ix_source r = s) table)"
  using assms indexing_keeps_table [of table source, unfolded index_ok_def of_source_def]
  unfolding Let_def by blast

theorem index_kept_witness:
  "distinct (map index_row_key
     (snd (index_telegram_messages (\<lambda>s. s) (\<lambda>_. None) (u ''2024'') (u ''2023'') (u ''channel'') two_posts [])))"
  using index_kept [of "[]" "u ''channel''" "\<lambda>s. s" "\<lambda>_. None" "u ''2024''" "u ''2023''" two_posts] by (simp add: Let_def)

text \<open>C28: A search of the index, whatever its full text search matches, returns at most the number asked for, each link once;
  each result stands for a share in the text of a row of one of the sources, and the part of that row around the share fits one
  of the queries.\<close>
theorem index_search_sound:
  fixes unescape :: "pystr \<Rightarrow> pystr" and negative :: "(pystr \<times> time) list"
  shows "let results = fst (search_telegram_message_index unescape fts now sources queries limit table negative) in
    length results \<le> limit \<and> distinct (map r_url results)
    \<and> (\<forall>r \<in> set results. \<exists>row \<in> set table. ix_source row \<in> strip ` set sources
         \<and> r_url r \<in> set (extract_115_links unescape (ix_text row)) \<and> r_message_id r = Some (int_str (ix_message_id row))
         \<and> (\<exists>q \<in> set queries. q \<noteq> [] \<and> local_text_matches_query (context_for_115_link (row_context row) (r_url r)) q))"
  using index_results_sound [OF refl, where unescape = unescape and fts = fts and now = now and sources = sources and queries = queries
      and limit = limit and table = table and negative = negative]
  unfolding Let_def hit_sound_def by blast

theorem index_search_sound_witness:
  "length (fst (search_telegram_message_index (\<lambda>s. s) (\<lambda>_. None) 100 [u ''channel''] [show_title] 3 [] [])) \<le> 3"
  using index_search_sound [of "\<lambda>s. s" "\<lambda>_. None" 100 "[u ''channel'']" "[show_title]" 3 "[]" "[]"] by (simp add: Let_def)





section \<open>The bot\<close>

text \<open>C31: When the handling of an update raises, the polling fetches the same updates again: as long as the answer is the same, every
  poll handles the updates before it, and itself, once more and leaves the offset where it was; only a restart goes on behind it.\<close>
theorem bot_batch_handled_again:
  fixes effect :: "bot_update \<Rightarrow> 's \<Rightarrow> 's" and before behind :: "bot_update list" and st :: "'s poll_state"
  assumes "\<forall>y \<in> set before. \<not> raises y" "raises x" "up_id x \<noteq> 0"
  shows "let poll = poll_round (\<lambda>s y. (effect y s, raises y)) (Updates (before @ x # behind)) in
    po_offset ((poll ^^ n) st) = po_offset st \<and> po_world ((poll ^^ n) st) = (fold effect (before @ [x]) ^^ n) (po_world st)
    \<and> po_offset (restart_polling (poll st)) = up_id x + 1"
  unfolding Let_def using batch_handled_again [OF assms(1,2)] restart_passes_over [OF assms] by blast

theorem bot_batch_handled_again_witness:
  "po_world ((poll_round (\<lambda>s y. (s @ [up_id y], up_id y = 2)) (Updates [bot_message 1, bot_message 2]) ^^ 2) fresh_poll) = [1, 2, 1, 2]"
  using bot_batch_handled_again [of "[bot_message 1]" "\<lambda>y. up_id y = 2" "bot_message 2" "\<lambda>y s. s @ [up_id y]" "[]" 2 fresh_poll]
  by (simp add: Let_def fresh_poll_def numeral_2_eq_2)

section \<open>Links that arrive on their own\<close>

text \<open>C32: What is attached to a subscription is appended to the table as pending resources, each from a link that the
  decision accepted; at most one comes from a source of the second choice, and from the links in descending priority it
  is one of the highest priority among the accepted ones.\<close>
theorem attached_best_fallback:
  assumes "attach_results_for_subscription now sub results db = (made, results', db')" "sorted (map (\<lambda>r. - result_priority r) results)"
  shows "st_rows (db_store db') = st_rows (db_store db) @ made
    \<and> (\<forall>row \<in> set made. rr_subscription row = sub_id sub \<and> rr_status row = u ''pending''
        \<and> (\<exists>x \<in> set results. result_matches sub x \<and> rr_source row = r_source x \<and> rr_url row = r_url (canonical_result x)))
    \<and> length (filter fallback_row made) \<le> 1
    \<and> (\<forall>row \<in> set made. fallback_row row \<longrightarrow> (\<exists>x \<in> set results. attached_from sub None results row x))"
proof -
  have run: "attach_fresh_loop now sub None False results db = (made, results', db')"
    using assms(1) by (simp add: attach_for_subscription_fresh)
  show ?thesis
    using attach_made [OF run] one_fallback [OF run] best_fallback_first [OF run _ _ assms(2)] by auto
qed

theorem attached_best_fallback_witness:
  "\<exists>row results' db'. attach_results_for_subscription (u ''t1'') blind [magnet] empty_db = ([row], results', db')
     \<and> st_rows (db_store db') = [row] \<and> length (filter fallback_row [row]) \<le> 1"
proof -
  obtain row db' where save: "insert_into (u ''t1'') blind magnet empty_db = (Some row, db')"
    using magnet_saved [of "u ''t1''"] by (fastforce simp: save_telegram_result_def split: prod.splits option.splits)
  have free: "\<not> result_is_fallback_source magnet"
    by (simp add: result_is_fallback_source_def py_defs)
  have run: "attach_results_for_subscription (u ''t1'') blind [magnet] empty_db = ([row], [magnet], db')"
    by (simp add: attach_for_subscription_fresh passed_over_def free result_matches_def magnet_accepted save magnet_canonical
        fallback_blocked_by_primary_resource_def Let_def)
  then show ?thesis
    using attached_best_fallback [OF run] by (auto simp: empty_db_def empty_store_def)
qed

section \<open>Links of a feed\<close>



section \<open>Magnet links\<close>





section \<open>Periodic work and logs\<close>





text \<open>Every link extracted from a text is a download link, and no two have the same key.\<close>
lemma extracted_links_sound:
  "list_all is_valid_download_link (extract_download_links unescape txt)
   \<and> distinct (map download_link_key (extract_download_links unescape txt))"
  using extracted_valid extracted_keys_distinct by (auto simp: list_all_iff)

text \<open>A title is found in a text exactly when one of its compact forms occurs there with a boundary on
  both sides.\<close>
lemma title_found_iff:
  "title_term_in_text t txt \<longleftrightarrow>
     snd t \<noteq> [] \<and>
     (\<exists>c \<in> set (compact_candidates t). \<exists>i \<le> length (compact_match_text txt).
        starts_with c (drop i (compact_match_text txt)) \<and>
        is_title_prefix_boundary (compact_match_text txt) i (has_cjk (snd t)) \<and>
        is_title_suffix_boundary (char_at (compact_match_text txt) (i + length c)) (has_cjk (snd t)))"
  by (auto simp: title_term_in_text_iff title_at_def)



text \<open>A completed subscription stays completed after a scan of the library; it is reported as newly
  completed exactly when it was not completed before; the time of completion is set exactly when it is completed.\<close>
lemma library_scan_completion:
  "let ls = library_state now sub snap cs detail in
     (if sub_status sub = COMPLETED then ls_status ls = COMPLETED else ls_status ls \<in> {COMPLETED, sub_status sub})
     \<and> (ls_newly_completed ls \<longleftrightarrow> sub_status sub \<noteq> COMPLETED \<and> ls_status ls = COMPLETED)
     \<and> (ls_completed_at ls \<noteq> None \<longleftrightarrow> ls_status ls = COMPLETED)"
  unfolding Let_def
  using completed_sticky newly_completed_iff completed_at_iff library_status_range by simp

text \<open>A result whose text contains the query passes the local filter, unless the query has no word character.\<close>
lemma local_filter_keeps_hits:
  assumes "contains query txt" "compact_match_text query \<noteq> []"
  shows "local_text_matches_query txt query"
  using assms by (rule local_filter_complete)

text \<open>C39: A failed delivery that is chosen for a retry is due under its backoff and its failure is neither an
  invalid link nor final; at most the limit (1 to 100) is chosen.\<close>
theorem retry_chooses_due:
  assumes "p \<in> set (select_retryable_failed_resources stamp now limit table)" "p_skip p = []"
  shows "p_row p \<in> set table \<and> retry_due stamp (p_row p) (p_kind p) now \<and> p_kind p \<notin> {Invalid, Final}
    \<and> length (actionable (select_retryable_failed_resources stamp now limit table)) \<le> clamp limit 20 100"
proof -
  have p: "p = pick_row stamp now (p_row p)" by (rule select_set(1) [OF assms(1)])
  then have "p_skip (pick_row stamp now (p_row p)) = []" using assms(2) by simp
  from pick_row_actionable [OF this] p select_set(2) [OF assms(1)] select_budget show ?thesis
    by (metis insert_iff singletonD)
qed

theorem retry_chooses_due_witness:
  "p_kind (pick_row (\<lambda>_. Some 0) 100 failed_row) \<notin> {Invalid, Final}"
  using retry_chooses_due [OF failed_row_chosen] failed_row_pick by simp

text \<open>The report of a retry adds up: delivered and failed give the retried, with the skipped all candidates.\<close>
lemma retry_report_consistent:
  "let rep = retry_failed_resources outcome ps in
     rep_delivered rep + rep_failed rep = rep_retried rep \<and> rep_retried rep + rep_skipped rep = length ps"
  using report_adds_up by (simp add: Let_def)

text \<open>The backoff grows with the number of retries and lies between a minute and two hours.\<close>
lemma backoff_monotone:
  assumes "n \<le> m"
  shows "backoff_delay kind n \<le> backoff_delay kind m \<and> 60 \<le> backoff_delay kind n \<and> backoff_delay kind m \<le> 7200"
  using backoff_mono [OF assms] backoff_bounds by blast

text \<open>Every Chinese numeral from 1 to 99 is read as its number, with the plain or the financial ten.\<close>
lemma chinese_numerals_read:
  assumes "1 \<le> n" "n < 100" "ten = 0x5341 \<or> ten = 0x62FE"
  shows "chinese_number_to_int (cn_numeral ten n) = Some n"
  using assms by (rule chinese_numeral_value)

text \<open>C40: Every text yields a finite set of episodes with positive numbers, also with the packs of a subscription,
  and a range yields at most 121.\<close>
theorem episodes_well_formed:
  "proper_keys (episodes_from_text txt) \<and> proper_keys (episode_keys_from_text_for_subscription sub_opt txt)
   \<and> card (expand_episode_range season a b) \<le> 121"
  using proper_episodes_from_text proper_text_keys expand_episode_range_card by blast

text \<open>A pack never brings an episode that TMDB does not list, and the guess by number of episodes brings
  whole seasons.\<close>
lemma packs_bring_expected:
  "pack_episode_keys_from_text sub txt \<subseteq> all_tmdb_episode_keys sub
   \<and> (\<exists>S. season_keys_for_counts sub counts missing = Set.filter (\<lambda>key. fst key \<in> S) (all_tmdb_episode_keys sub))"
  using pack_keys_subset season_keys_for_counts_whole [of sub counts missing] by (simp add: whole_seasons_def)

text \<open>The owned episodes written to the database as JSON strings are read back as they were.\<close>
lemma owned_keys_round_trip:
  assumes "\<forall>(s, e) \<in> set ks. 0 < s \<and> 0 < e"
  shows "episode_keys_from_json (PList (map (PStr \<circ> json_episode_key) ks)) = set ks"
  using assms by (rule episode_keys_from_json_written)

text \<open>The search queries of a subscription are distinct and not empty.\<close>
lemma search_queries_clean:
  "distinct (expanded_search_queries title kws limit) \<and> [] \<notin> set (expanded_search_queries title kws limit)"
  by (rule expanded_queries_ok)

text \<open>An entry of the folder cache is served for 1200 seconds, twice the constant that names its lifetime.\<close>
lemma folder_cache_lifetime:
  "fst (cached_folder_cid now' path (store_folder_cid now path cid cache)) =
     (if now' - now \<le> 2 * FOLDER_CACHE_TTL_SECONDS then Some cid else None)"
  using folder_served [of now' now path cid cache] folder_expired [of now now' path cid cache]
  by (auto simp: folder_lookup_def FOLDER_CACHE_TTL_SECONDS_def not_le)

text \<open>The reason recorded for a result that does not match is not empty and not "matched", unless it is an ed2k file.\<close>
lemma mismatch_has_reason:
  assumes "\<not> result_matches_subscription sub r extras" "\<not> is_ed2k_file r"
  shows "result_skip_reason sub r extras \<notin> {[], MATCHED}"
  using skip_reason_of_mismatch(1) [OF assms] mismatch_not_matched [OF assms] by simp

text \<open>A resource that names only episodes that are owned is not wanted.\<close>
lemma owned_episodes_unwanted:
  assumes "media_type sub = Tv" "\<not> emby_snapshot_failed sub"
    "episode_keys_from_text_for_subscription (Some sub) (decision_text r extras) \<noteq> {}"
    "episode_keys_from_text_for_subscription (Some sub) (decision_text r extras) \<subseteq> owned_episode_keys sub"
  shows "\<not> d_accepted (decide_resource_candidate sub r extras)"
  using brings_nothing_missing [OF assms] by (simp add: accepted_iff)

text \<open>Marking a subscription completed changes no id, changes a row exactly when it says so, and leaves no row of
  the subscription uncompleted.\<close>
lemma mark_completed_sound:
  "case mark_completed_subscription now sub subs of
     (changed, subs') \<Rightarrow> map sub_id subs' = map sub_id subs \<and> (changed \<longleftrightarrow> subs' \<noteq> subs)
       \<and> (if sub_status sub = COMPLETED then subs' = subs
           else list_all (\<lambda>row. sub_status row = COMPLETED) (filter (\<lambda>row. sub_id row = sub_id sub) subs'))"
proof (cases "mark_completed_subscription now sub subs")
  case (Pair changed subs')
  then show ?thesis
    using mark_completed_rows [OF Pair] by (auto simp: list_all_iff mark_completed_subscription_def)
qed

text \<open>A link that another resource delivered is found, whatever form its url has.\<close>
lemma earlier_delivery_found:
  assumes "resource_dedupe_key (rr_url r) = Some k" "row \<in> set subs" "rr_id row \<noteq> rr_id r"
    "rr_status row = DELIVERED" "resource_dedupe_key (rr_url row) = Some k"
  shows "existing_effective_delivery r subs \<noteq> None"
  using assms by (rule existing_delivery_found)

text \<open>The query budget is not kept: with one keyword and a budget of one query, four queries are made.\<close>
lemma query_budget_exceeded:
  "length (expanded_search_queries (u ''Ab:Cd'') [u ''xy''] 1) = 4"
  by (rule long_queries)

end
